(* ===== verification/Prelude.thy ===== *)
theory Prelude
  imports Main "HOL-Library.Word"
begin

text \<open>
  Shared vocabulary of the development.

  \<^item> \<open>omap\<close>: the model of \<open>std::map\<close>. The code iterates its maps in key order and
    uses \<open>begin()\<close>, so a map is an association list kept strictly sorted by key;
    \<open>om_put\<close> and \<open>om_del\<close> keep it sorted, \<open>map_of\<close> is the lookup.
  \<^item> truncating division and remainder, as C++ has them for signed operands.
  \<^item> first-match erasure in a vector (\<open>std::find\<close> followed by \<open>erase\<close>).
  \<^item> the collections \<open>om\<close> (laws of ordered maps) and \<open>gs\<close> (error codes).
\<close>

named_theorems om \<open>laws of ordered maps\<close>
named_theorems gs \<open>the numeric error codes and their comparison\<close>

section \<open>Ordered maps\<close>

type_synonym ('k, 'v) omap = "('k \<times> 'v) list"

definition om_wf :: "('k::linorder, 'v) omap \<Rightarrow> bool" where
  "om_wf m \<longleftrightarrow> sorted_wrt (<) (map fst m)"

fun om_put :: "'k::linorder \<Rightarrow> 'v \<Rightarrow> ('k, 'v) omap \<Rightarrow> ('k, 'v) omap" where
  "om_put k v [] = [(k, v)]"
| "om_put k v (p # m) =
     (if k < fst p then (k, v) # p # m
      else if fst p < k then p # om_put k v m
      else (k, v) # m)"

definition om_del :: "'k::linorder \<Rightarrow> ('k, 'v) omap \<Rightarrow> ('k, 'v) omap" where
  "om_del k m = filter (\<lambda>p. fst p \<noteq> k) m"

definition om_has :: "'k::linorder \<Rightarrow> ('k, 'v) omap \<Rightarrow> bool" where
  "om_has k m \<longleftrightarrow> map_of m k \<noteq> None"

text \<open>\<open>om_upd k f m\<close> assigns through a reference to an existing entry.\<close>

definition om_upd :: "'k::linorder \<Rightarrow> ('v \<Rightarrow> 'v) \<Rightarrow> ('k, 'v) omap \<Rightarrow> ('k, 'v) omap" where
  "om_upd k f m = map (\<lambda>p. if fst p = k then (k, f (snd p)) else p) m"

lemma om_wf_Nil [simp, om]: "om_wf []"
  by (simp add: om_wf_def)

lemma om_wf_Cons [om]: "om_wf (p # m) \<longleftrightarrow> (\<forall>k \<in> fst ` set m. fst p < k) \<and> om_wf m"
  by (auto simp: om_wf_def)

lemma keys_om_put [om]: "fst ` set (om_put k v m) = insert k (fst ` set m)"
  by (induction k v m rule: om_put.induct) auto

lemma set_om_put: "set (om_put k v m) \<subseteq> insert (k, v) (set m)"
  by (induction k v m rule: om_put.induct) auto

lemma om_wf_put [simp, om]: "om_wf m \<Longrightarrow> om_wf (om_put k v m)"
  by (induction k v m rule: om_put.induct) (auto simp: om_wf_Cons keys_om_put)

lemma map_of_om_put [simp, om]: "map_of (om_put k v m) = (map_of m)(k \<mapsto> v)"
  by (induction k v m rule: om_put.induct) (auto simp: fun_eq_iff)

lemma om_wf_del [simp, om]: "om_wf m \<Longrightarrow> om_wf (om_del k m)"
  by (induction m) (auto simp: om_wf_Cons om_del_def)

lemma map_of_om_del [simp, om]: "map_of (om_del k m) = (map_of m)(k := None)"
  by (induction m) (auto simp: om_del_def fun_eq_iff)

lemma map_of_om_upd [simp, om]: "map_of (om_upd k f m) j = (if j = k then map_option f (map_of m k) else map_of m j)"
  by (induction m) (auto simp: om_upd_def)

lemma keys_om_upd [simp, om]: "map fst (om_upd k f m) = map fst m"
  by (induction m) (auto simp: om_upd_def)

lemma om_wf_upd [simp, om]: "om_wf m \<Longrightarrow> om_wf (om_upd k f m)"
  by (simp add: om_wf_def)

lemma length_om_upd [simp]: "length (om_upd k f m) = length m"
  by (simp add: om_upd_def)

lemma om_wf_distinct: "om_wf m \<Longrightarrow> distinct (map fst m)"
  by (simp add: om_wf_def strict_sorted_iff)

lemma map_of_None_keys: "map_of m k = None \<longleftrightarrow> k \<notin> fst ` set m"
  by (rule map_of_eq_None_iff)

lemma length_om_del: "om_wf m \<Longrightarrow> map_of m k = Some v \<Longrightarrow> length (om_del k m) = length m - 1"
proof (induction m)
  case Nil
  then show ?case by simp
next
  case (Cons p m)
  show ?case
  proof (cases "fst p = k")
    case True
    with Cons.prems(1) have "filter (\<lambda>q. fst q \<noteq> k) m = m"
      by (auto simp: om_wf_Cons intro!: filter_True)
    with True show ?thesis by (simp add: om_del_def)
  next
    case False
    with Cons.prems have m: "om_wf m" "map_of m k = Some v"
      by (auto simp: om_wf_Cons split: if_splits)
    then have "m \<noteq> []" by auto
    with False Cons.IH [OF m] show ?thesis by (cases m) (auto simp: om_del_def)
  qed
qed

lemma length_om_del_le: "length (om_del k m) \<le> length m"
  by (simp add: om_del_def)

lemma om_del_absent: "map_of m k = None \<Longrightarrow> om_del k m = m"
  by (induction m) (auto simp: om_del_def split: if_splits)

lemma length_om_put:
  "om_wf m \<Longrightarrow> length (om_put k v m) = (if map_of m k = None then Suc (length m) else length m)"
  by (induction k v m rule: om_put.induct) (force simp: om_wf_Cons map_of_eq_None_iff)+

lemma map_of_hd: "m \<noteq> [] \<Longrightarrow> map_of m (fst (hd m)) = Some (snd (hd m))"
  by (cases m) auto

section \<open>The contract of an ordered map\<close>

text \<open>
  What the components rely on when they keep a \<open>std::map\<close>: lookups after an insertion
  or an erasure, and that both keep the representation well formed.
\<close>

locale ordered_map =
  fixes put :: "'k \<Rightarrow> 'v \<Rightarrow> 'm \<Rightarrow> 'm"
    and del :: "'k \<Rightarrow> 'm \<Rightarrow> 'm"
    and get :: "'m \<Rightarrow> 'k \<Rightarrow> 'v option"
    and size_of :: "'m \<Rightarrow> nat"
    and wf :: "'m \<Rightarrow> bool"
  assumes get_put: "wf m \<Longrightarrow> get (put k v m) = (get m)(k \<mapsto> v)"
    and get_del: "wf m \<Longrightarrow> get (del k m) = (get m)(k := None)"
    and wf_put: "wf m \<Longrightarrow> wf (put k v m)"
    and wf_del: "wf m \<Longrightarrow> wf (del k m)"
    and size_put: "wf m \<Longrightarrow> size_of (put k v m) = (if get m k = None then Suc (size_of m) else size_of m)"
    and size_del: "wf m \<Longrightarrow> size_of (del k m) = (if get m k = None then size_of m else size_of m - 1)"
begin

lemma put_del_other: "wf m \<Longrightarrow> j \<noteq> k \<Longrightarrow> get (del k (put j v m)) j = Some v"
  by (simp add: get_del get_put wf_put)

lemma del_put_get: "wf m \<Longrightarrow> get m k = None \<Longrightarrow> get (del k (put k v m)) = get m"
  by (auto simp: get_del get_put wf_put fun_eq_iff)

lemma size_del_put: "wf m \<Longrightarrow> get m k = None \<Longrightarrow> size_of (del k (put k v m)) = size_of m"
  by (simp add: size_del size_put get_put wf_put)

lemma size_put_le: "wf m \<Longrightarrow> size_of (put k v m) \<le> Suc (size_of m)"
  by (simp add: size_put)

lemma size_del_le: "wf m \<Longrightarrow> size_of (del k m) \<le> size_of m"
  by (simp add: size_del)

end

interpretation om: ordered_map om_put om_del map_of length om_wf
  by unfold_locales (auto simp: length_om_put length_om_del om_del_absent)

section \<open>Vectors\<close>

text \<open>Erase the first element equal to \<open>x\<close> (\<open>std::find\<close>, then \<open>erase\<close>).\<close>

abbreviation erase1 :: "'a \<Rightarrow> 'a list \<Rightarrow> 'a list" where
  "erase1 \<equiv> remove1"

lemma set_erase1_distinct: "distinct xs \<Longrightarrow> set (erase1 x xs) = set xs - {x}"
  by (rule set_remove1_eq)

section \<open>Signed division\<close>

text \<open>C++ divides towards zero.\<close>

definition cdiv :: "int \<Rightarrow> int \<Rightarrow> int" where
  "cdiv a b = sgn a * sgn b * (\<bar>a\<bar> div \<bar>b\<bar>)"

definition cmod :: "int \<Rightarrow> int \<Rightarrow> int" where
  "cmod a b = a - b * cdiv a b"

lemma cdiv_nonneg: "0 \<le> a \<Longrightarrow> 0 < b \<Longrightarrow> cdiv a b = a div b"
  by (cases "a = 0") (auto simp: cdiv_def)

lemma cmod_nonneg: "0 \<le> a \<Longrightarrow> 0 < b \<Longrightarrow> cmod a b = a mod b"
  by (simp add: cmod_def cdiv_nonneg minus_mult_div_eq_mod)

lemma cdiv_neg: "a < 0 \<Longrightarrow> 0 < b \<Longrightarrow> cdiv a b = - ((- a) div b)"
  by (simp add: cdiv_def)

lemma cmod_lower: "0 < b \<Longrightarrow> - b < cmod a b"
proof (cases "0 \<le> a")
  case True
  assume "0 < b"
  with True have "0 \<le> cmod a b" by (simp add: cmod_nonneg)
  with \<open>0 < b\<close> show ?thesis by linarith
next
  case False
  assume b: "0 < b"
  with False have "cmod a b = - ((- a) mod b)"
    by (simp add: cmod_def cdiv_neg minus_mult_div_eq_mod [symmetric] algebra_simps)
  with b show ?thesis by simp
qed

lemma cmod_upper: "0 < b \<Longrightarrow> cmod a b < b"
proof (cases "0 \<le> a")
  case True
  assume "0 < b"
  with True show ?thesis by (simp add: cmod_nonneg)
next
  case False
  assume b: "0 < b"
  with False have "cmod a b = - ((- a) mod b)"
    by (simp add: cmod_def cdiv_neg minus_mult_div_eq_mod [symmetric] algebra_simps)
  moreover have "0 \<le> (- a) mod b" using b by simp
  ultimately show ?thesis using b by linarith
qed

section \<open>Loops that may not return\<close>

text \<open>A loop over a list whose body may not return (\<open>None\<close>), or must stop early.\<close>

primrec ofold :: "('a \<Rightarrow> 's \<Rightarrow> 's option) \<Rightarrow> 'a list \<Rightarrow> 's \<Rightarrow> 's option" where
  "ofold f [] s = Some s"
| "ofold f (x # xs) s = Option.bind (f x s) (ofold f xs)"

lemma ofold_append: "ofold f (xs @ ys) s = Option.bind (ofold f xs s) (ofold f ys)"
  by (induction xs arbitrary: s) (auto split: bind_splits)

lemma ofold_mono [partial_function_mono]:
  assumes "\<And>x s. mono_option (\<lambda>F. B F x s)"
  shows "mono_option (\<lambda>F. ofold (B F) xs s)"
proof (induction xs arbitrary: s)
  case (Cons x xs)
  show ?case unfolding ofold.simps by (intro partial_function_mono assms Cons.IH)
qed (simp add: option.const_mono)

end
