(* ===== verification/Graphic_Error.thy ===== *)
theory Graphic_Error
  imports Prelude
begin

text \<open>
  Error codes: \<open>interfaces/inner_api/common/graphic_common_c.h\<close> (the enum) and
  \<open>graphic_common.h\<close> (comparison and printing), and \<open>GenerateError\<close> of
  \<open>frameworks/surface/src/surface_buffer_impl.cpp\<close>.

  A \<open>GSError\<close> is an \<open>int\<close>: a code, a multiple of \<open>LOWERROR_MAX\<close>, plus a low part
  that carries an \<open>errno\<close>. The overloaded \<open>==\<close> and \<open>!=\<close> of the enum compare the
  codes only, so the model keeps the number and compares with \<open>gs_eq\<close>.
\<close>

type_synonym gserror = int

definition LOWERROR_MAX :: int where [gs]: "LOWERROR_MAX = 1000"
definition LOWERROR_FAILURE :: int where [gs]: "LOWERROR_FAILURE = 999"
definition LOWERROR_INVALID :: int where [gs]: "LOWERROR_INVALID = 998"

definition GSERROR_OK :: gserror where [gs]: "GSERROR_OK = 0"
definition GSERROR_INVALID_ARGUMENTS :: gserror where [gs]: "GSERROR_INVALID_ARGUMENTS = 40001000"
definition GSERROR_NO_PERMISSION :: gserror where [gs]: "GSERROR_NO_PERMISSION = 40301000"
definition GSERROR_CONNOT_CONNECT_SAMGR :: gserror where [gs]: "GSERROR_CONNOT_CONNECT_SAMGR = 40401000"
definition GSERROR_CONNOT_CONNECT_SERVER :: gserror where [gs]: "GSERROR_CONNOT_CONNECT_SERVER = 40402000"
definition GSERROR_CONNOT_CONNECT_WESTON :: gserror where [gs]: "GSERROR_CONNOT_CONNECT_WESTON = 40403000"
definition GSERROR_NO_BUFFER :: gserror where [gs]: "GSERROR_NO_BUFFER = 40601000"
definition GSERROR_NO_ENTRY :: gserror where [gs]: "GSERROR_NO_ENTRY = 40602000"
definition GSERROR_OUT_OF_RANGE :: gserror where [gs]: "GSERROR_OUT_OF_RANGE = 40603000"
definition GSERROR_NO_SCREEN :: gserror where [gs]: "GSERROR_NO_SCREEN = 40604000"
definition GSERROR_INVALID_OPERATING :: gserror where [gs]: "GSERROR_INVALID_OPERATING = 41201000"
definition GSERROR_NO_CONSUMER :: gserror where [gs]: "GSERROR_NO_CONSUMER = 41202000"
definition GSERROR_NOT_INIT :: gserror where [gs]: "GSERROR_NOT_INIT = 41203000"
definition GSERROR_TYPE_ERROR :: gserror where [gs]: "GSERROR_TYPE_ERROR = 41204000"
definition GSERROR_DESTROYED_OBJECT :: gserror where [gs]: "GSERROR_DESTROYED_OBJECT = 41205000"
definition GSERROR_API_FAILED :: gserror where [gs]: "GSERROR_API_FAILED = 50001000"
definition GSERROR_INTERNEL :: gserror where [gs]: "GSERROR_INTERNEL = 50002000"
definition GSERROR_NO_MEM :: gserror where [gs]: "GSERROR_NO_MEM = 50003000"
definition GSERROR_PROXY_NOT_INCLUDE :: gserror where [gs]: "GSERROR_PROXY_NOT_INCLUDE = 50004000"
definition GSERROR_SERVER_ERROR :: gserror where [gs]: "GSERROR_SERVER_ERROR = 50005000"
definition GSERROR_ANIMATION_RUNNING :: gserror where [gs]: "GSERROR_ANIMATION_RUNNING = 50006000"
definition GSERROR_NOT_IMPLEMENT :: gserror where [gs]: "GSERROR_NOT_IMPLEMENT = 50101000"
definition GSERROR_NOT_SUPPORT :: gserror where [gs]: "GSERROR_NOT_SUPPORT = 50102000"
definition GSERROR_BINDER :: gserror where [gs]: "GSERROR_BINDER = 50401000"

text \<open>The aliases the VSync components use for the same enumerators.\<close>

abbreviation (input) VSYNC_ERROR_OK :: gserror where "VSYNC_ERROR_OK \<equiv> GSERROR_OK"
abbreviation (input) VSYNC_ERROR_API_FAILED :: gserror where "VSYNC_ERROR_API_FAILED \<equiv> GSERROR_API_FAILED"
abbreviation (input) VSYNC_ERROR_INVALID_OPERATING :: gserror where "VSYNC_ERROR_INVALID_OPERATING \<equiv> GSERROR_INVALID_OPERATING"
abbreviation (input) VSYNC_ERROR_NULLPTR :: gserror where "VSYNC_ERROR_NULLPTR \<equiv> GSERROR_INVALID_ARGUMENTS"
abbreviation (input) VSYNC_ERROR_INVALID_ARGUMENTS :: gserror where "VSYNC_ERROR_INVALID_ARGUMENTS \<equiv> GSERROR_INVALID_ARGUMENTS"

section \<open>Comparison\<close>

definition gs_eq :: "gserror \<Rightarrow> gserror \<Rightarrow> bool" where
  "gs_eq a b \<longleftrightarrow> cdiv a LOWERROR_MAX = cdiv b LOWERROR_MAX"

definition gs_ne :: "gserror \<Rightarrow> gserror \<Rightarrow> bool" where
  "gs_ne a b \<longleftrightarrow> cdiv a LOWERROR_MAX \<noteq> cdiv b LOWERROR_MAX"

lemma gs_ne_not_eq [simp]: "gs_ne a b \<longleftrightarrow> \<not> gs_eq a b"
  by (simp add: gs_ne_def gs_eq_def)

lemma gs_eq_refl [simp]: "gs_eq a a"
  by (simp add: gs_eq_def)

lemma gs_eq_code: "0 \<le> a \<Longrightarrow> 0 \<le> b \<Longrightarrow> gs_eq a b \<longleftrightarrow> a div 1000 = b div 1000"
  by (simp add: gs_eq_def gs cdiv_nonneg)

lemma gs_eq_0_iff: "gs_eq a 0 \<longleftrightarrow> \<bar>a\<bar> < 1000"
proof -
  have "(cdiv a 1000 = 0) = (a = 0 \<or> \<bar>a\<bar> div 1000 = 0)"
    by (auto simp: cdiv_def sgn_0_0)
  also have "\<dots> = (\<bar>a\<bar> < 1000)" by auto
  finally show ?thesis by (simp add: gs_eq_def gs cdiv_def)
qed

lemma gs_eq_OK_iff: "gs_eq a GSERROR_OK \<longleftrightarrow> \<bar>a\<bar> < 1000"
  by (simp add: GSERROR_OK_def gs_eq_0_iff)

text \<open>Every error constant the code returns is different from \<open>GSERROR_OK\<close> under the comparison.\<close>

lemma gs_not_OK [simp]:
  "\<not> gs_eq GSERROR_INVALID_ARGUMENTS GSERROR_OK" "\<not> gs_eq GSERROR_NO_BUFFER GSERROR_OK"
  "\<not> gs_eq GSERROR_NO_ENTRY GSERROR_OK" "\<not> gs_eq GSERROR_OUT_OF_RANGE GSERROR_OK"
  "\<not> gs_eq GSERROR_INVALID_OPERATING GSERROR_OK" "\<not> gs_eq GSERROR_NO_CONSUMER GSERROR_OK"
  "\<not> gs_eq GSERROR_API_FAILED GSERROR_OK" "\<not> gs_eq GSERROR_INTERNEL GSERROR_OK"
  "\<not> gs_eq GSERROR_NOT_INIT GSERROR_OK" "\<not> gs_eq GSERROR_TYPE_ERROR GSERROR_OK"
  "\<not> gs_eq GSERROR_BINDER GSERROR_OK" "\<not> gs_eq GSERROR_NOT_SUPPORT GSERROR_OK"
  by (simp_all add: gs_eq_0_iff gs)

section \<open>Printing\<close>

definition GSErrorStrs :: "(gserror, string) omap" where
  "GSErrorStrs =
    [(GSERROR_OK, ''<200 ok>''),
     (GSERROR_INVALID_ARGUMENTS, ''<400 invalid arguments>''),
     (GSERROR_NO_PERMISSION, ''<403 no permission>''),
     (GSERROR_CONNOT_CONNECT_SAMGR, ''<404 connot connect to samgr>''),
     (GSERROR_CONNOT_CONNECT_SERVER, ''<404 connot connect to server>''),
     (GSERROR_CONNOT_CONNECT_WESTON, ''<404 connot connect to weston>''),
     (GSERROR_NO_BUFFER, ''<406 no buffer>''),
     (GSERROR_NO_ENTRY, ''<406 no entry>''),
     (GSERROR_OUT_OF_RANGE, ''<406 out of range>''),
     (GSERROR_NO_SCREEN, ''<406 no screen>''),
     (GSERROR_INVALID_OPERATING, ''<412 invalid operating>''),
     (GSERROR_NO_CONSUMER, ''<412 no consumer>''),
     (GSERROR_NOT_INIT, ''<412 not init>''),
     (GSERROR_TYPE_ERROR, ''<412 type error>''),
     (GSERROR_API_FAILED, ''<500 api call failed>''),
     (GSERROR_INTERNEL, ''<500 internal error>''),
     (GSERROR_NO_MEM, ''<500 no memory>''),
     (GSERROR_PROXY_NOT_INCLUDE, ''<500 proxy not include>''),
     (GSERROR_SERVER_ERROR, ''<500 server occur error>''),
     (GSERROR_ANIMATION_RUNNING, ''<500 animation is running>''),
     (GSERROR_NOT_IMPLEMENT, ''<501 not implement>''),
     (GSERROR_NOT_SUPPORT, ''<501 not support>''),
     (GSERROR_BINDER, ''<504 binder occur error>'')]"

text \<open>
  \<open>num\<close> holds the digits themselves, not their character codes, and ends at the first
  zero digit, as a C string does.
\<close>

definition LowErrorStrSpecial :: "gserror \<Rightarrow> string" where
  "LowErrorStrSpecial err =
     (if err = LOWERROR_INVALID then
        (let num = [cmod (cdiv err 100) 10, cmod (cdiv err 10) 10, cmod err 10]
         in ''with low error <'' @ map (\<lambda>d. char_of (nat d)) (takeWhile (\<lambda>d. d \<noteq> 0) num) @ ''>'')
      else if err = LOWERROR_FAILURE then ''with low error <failure>''
      else '''')"

text \<open>\<open>strerror\<close> is the C library's message for an \<open>errno\<close>.\<close>

definition LowErrorStr :: "(int \<Rightarrow> string) \<Rightarrow> gserror \<Rightarrow> string" where
  "LowErrorStr strerror lowerr =
     (let lowError = LowErrorStrSpecial lowerr
      in if lowError = '''' \<and> lowerr \<noteq> 0 then ''with low error <'' @ strerror lowerr @ ''>''
         else lowError)"

definition GSErrorStr :: "(int \<Rightarrow> string) \<Rightarrow> gserror \<Rightarrow> string" where
  "GSErrorStr strerror err =
     (let diff = cmod err LOWERROR_MAX
      in case map_of GSErrorStrs (err - diff) of
           None \<Rightarrow> ''<GSError error index out of range>''
         | Some s \<Rightarrow> s @ LowErrorStr strerror diff)"

lemma om_wf_GSErrorStrs: "om_wf GSErrorStrs"
  by (simp add: om_wf_def GSErrorStrs_def gs)

section \<open>Errors of the display driver\<close>

text \<open>
  The display HDI's result codes and the \<open>errno\<close> values are outside the repository:
  the model takes them as the record \<open>disp_codes\<close>.
\<close>

record disp_codes =
  DISPLAY_SUCCESS :: int
  DISPLAY_FAILURE :: int
  DISPLAY_FD_ERR :: int
  DISPLAY_PARAM_ERR :: int
  DISPLAY_NULL_PTR :: int
  DISPLAY_NOT_SUPPORT :: int
  DISPLAY_NOMEM :: int
  DISPLAY_SYS_BUSY :: int
  DISPLAY_NOT_PERM :: int
  EBADF :: int
  EINVAL :: int
  EOPNOTSUPP :: int
  ENOMEM :: int
  EBUSY :: int
  EPERM :: int

definition GenerateError :: "disp_codes \<Rightarrow> gserror \<Rightarrow> int \<Rightarrow> gserror" where
  "GenerateError d err code =
     (if code = DISPLAY_SUCCESS d then err + 0
      else if code = DISPLAY_FAILURE d then err + LOWERROR_FAILURE
      else if code = DISPLAY_FD_ERR d then err + EBADF d
      else if code = DISPLAY_PARAM_ERR d then err + EINVAL d
      else if code = DISPLAY_NULL_PTR d then err + EINVAL d
      else if code = DISPLAY_NOT_SUPPORT d then err + EOPNOTSUPP d
      else if code = DISPLAY_NOMEM d then err + ENOMEM d
      else if code = DISPLAY_SYS_BUSY d then err + EBUSY d
      else if code = DISPLAY_NOT_PERM d then err + EPERM d
      else err + LOWERROR_INVALID)"

text \<open>What the code relies on: an \<open>errno\<close> fits in the low part.\<close>

definition errno_fits :: "disp_codes \<Rightarrow> bool" where
  "errno_fits d \<longleftrightarrow> (\<forall>e \<in> {EBADF d, EINVAL d, EOPNOTSUPP d, ENOMEM d, EBUSY d, EPERM d}. 0 \<le> e \<and> e < 998)"

lemma GenerateError_code:
  assumes "errno_fits d"
  shows "\<exists>low. 0 \<le> low \<and> low < 1000 \<and> GenerateError d err code = err + low"
  using assms unfolding errno_fits_def GenerateError_def gs by auto

lemma GenerateError_eq:
  assumes fits: "errno_fits d" and pos: "0 \<le> err" and code: "err mod 1000 = 0"
  shows "gs_eq (GenerateError d err c) err"
proof -
  obtain low where low: "0 \<le> low" "low < 1000" and eq: "GenerateError d err c = err + low"
    using GenerateError_code [OF fits] by blast
  from code obtain k where "err = 1000 * k" by auto
  with low have "(err + low) div 1000 = err div 1000" by simp
  with pos low eq show ?thesis by (simp add: gs_eq_code)
qed

lemma GenerateError_API_FAILED_not_OK:
  "errno_fits d \<Longrightarrow> \<not> gs_eq (GenerateError d GSERROR_API_FAILED c) GSERROR_OK"
  using GenerateError_code [of d GSERROR_API_FAILED c] by (auto simp: gs_eq_0_iff gs)

definition linux_codes :: disp_codes where
  "linux_codes = \<lparr>DISPLAY_SUCCESS = 0, DISPLAY_FAILURE = -1, DISPLAY_FD_ERR = -2,
     DISPLAY_PARAM_ERR = -3, DISPLAY_NULL_PTR = -4, DISPLAY_NOT_SUPPORT = -5, DISPLAY_NOMEM = -6,
     DISPLAY_SYS_BUSY = -7, DISPLAY_NOT_PERM = -8, EBADF = 9, EINVAL = 22, EOPNOTSUPP = 95,
     ENOMEM = 12, EBUSY = 16, EPERM = 1\<rparr>"

lemma errno_fits_linux [simp]: "errno_fits linux_codes"
  by (simp add: errno_fits_def linux_codes_def)

end
