(* ===== verification/Surface_Types.thy ===== *)
theory Surface_Types
  imports Graphic_Error
begin

text \<open>
  Plain data of the surface component: \<open>interfaces/inner_api/surface/surface_type.h\<close>, the
  buffer states of \<open>frameworks/surface/include/buffer_queue.h\<close> and the return value of
  \<open>IBufferProducer::RequestBuffer\<close>. \<open>int32_t\<close> and \<open>int64_t\<close> fields are \<open>int\<close>;
  \<open>uint32_t\<close> fields are \<open>32 word\<close>, because the code subtracts and masks them.

  Pointers are references: a \<open>sptr<SurfaceBuffer>\<close> is an \<open>option\<close> of an index into the
  store of buffer objects, a \<open>sptr<SyncFence>\<close> or \<open>sptr<BufferExtraData>\<close> an \<open>option\<close>
  of an object number; \<open>None\<close> is \<open>nullptr\<close>.
\<close>

section \<open>Constants\<close>

definition SURFACE_MAX_USER_DATA_COUNT :: nat where "SURFACE_MAX_USER_DATA_COUNT = 1000"
definition SURFACE_MAX_QUEUE_SIZE :: "32 word" where "SURFACE_MAX_QUEUE_SIZE = 32"
definition SURFACE_DEFAULT_QUEUE_SIZE :: "32 word" where "SURFACE_DEFAULT_QUEUE_SIZE = 3"
definition SURFACE_MAX_STRIDE_ALIGNMENT :: "32 word" where "SURFACE_MAX_STRIDE_ALIGNMENT = 32"
definition SURFACE_MIN_STRIDE_ALIGNMENT :: "32 word" where "SURFACE_MIN_STRIDE_ALIGNMENT = 4"

text \<open>
  Enumerators of \<open>display_type.h\<close>, which is not part of the repository: the model takes
  their values as a record. \<open>display_consts_ok\<close> states what the range checks of the code
  rely on.
\<close>

record display_consts =
  PIXEL_FMT_BUTT :: int
  PIXEL_FMT_RGBA_8888 :: int
  PIXEL_FMT_YCRCB_420_SP :: int
  COLOR_GAMUT_INVALID :: int
  COLOR_GAMUT_SRGB :: int
  COLOR_GAMUT_DISPLAY_BT2020 :: int
  ROTATE_NONE :: int
  ROTATE_BUTT :: int
  HBM_USE_CPU_WRITE :: "32 word"

definition display_consts_ok :: "display_consts \<Rightarrow> bool" where
  "display_consts_ok k \<longleftrightarrow> 0 \<le> PIXEL_FMT_BUTT k \<and> COLOR_GAMUT_INVALID k < COLOR_GAMUT_SRGB k \<and>
     COLOR_GAMUT_SRGB k \<le> COLOR_GAMUT_DISPLAY_BT2020 k \<and> ROTATE_NONE k < ROTATE_BUTT k"

section \<open>Records\<close>

record rect =
  rx :: int
  ry :: int
  rw :: int
  rh :: int

datatype scaling_mode_names = SCALING_MODE_FREEZE | SCALING_MODE_SCALE_TO_WINDOW
  | SCALING_MODE_SCALE_CROP | SCALING_MODE_NO_SCALE_CROP

text \<open>A \<open>ScalingMode\<close> may hold any integer (it is cast from a parcel); its enumerators are 0 to 3.\<close>

fun scaling_mode_value :: "scaling_mode_names \<Rightarrow> int" where
  "scaling_mode_value SCALING_MODE_FREEZE = 0"
| "scaling_mode_value SCALING_MODE_SCALE_TO_WINDOW = 1"
| "scaling_mode_value SCALING_MODE_SCALE_CROP = 2"
| "scaling_mode_value SCALING_MODE_NO_SCALE_CROP = 3"

record buffer_request_config =
  width :: int
  height :: int
  strideAlignment :: int
  format :: int
  usage :: int
  timeout :: int
  colorGamut :: int
  transform :: int
  scalingMode :: int

text \<open>\<open>operator ==\<close>, field by field, and \<open>operator !=\<close>.\<close>

definition config_eq :: "buffer_request_config \<Rightarrow> buffer_request_config \<Rightarrow> bool" where
  "config_eq a b \<longleftrightarrow> width a = width b \<and> height a = height b \<and>
     strideAlignment a = strideAlignment b \<and> format a = format b \<and> usage a = usage b \<and>
     timeout a = timeout b \<and> colorGamut a = colorGamut b \<and> transform a = transform b \<and>
     scalingMode a = scalingMode b"

definition config_ne :: "buffer_request_config \<Rightarrow> buffer_request_config \<Rightarrow> bool" where
  "config_ne a b \<longleftrightarrow> \<not> config_eq a b"

lemma config_eq_iff [simp]: "config_eq a b \<longleftrightarrow> a = b"
  by (cases a; cases b) (simp add: config_eq_def)

lemma config_ne_iff [simp]: "config_ne a b \<longleftrightarrow> a \<noteq> b"
  by (simp add: config_ne_def)

record buffer_flush_config =
  damage :: rect
  timestamp :: int

datatype buffer_state = BUFFER_STATE_RELEASED | BUFFER_STATE_REQUESTED | BUFFER_STATE_FLUSHED
  | BUFFER_STATE_ACQUIRED | BUFFER_STATE_ATTACHED

type_synonym buffer_ref = "nat option"
type_synonym fence_ref = "nat option"
type_synonym extra_ref = "nat option"

text \<open>\<open>SyncFence::INVALID_FENCE\<close>, a static object of its own.\<close>

definition INVALID_FENCE :: fence_ref where "INVALID_FENCE = Some 0"

record buffer_element =
  ebuffer :: buffer_ref
  estate :: buffer_state
  isDeleting :: bool
  econfig :: buffer_request_config
  efence :: fence_ref
  etimestamp :: int
  edamage :: rect

definition zero_rect :: rect where "zero_rect = \<lparr>rx = 0, ry = 0, rw = 0, rh = 0\<rparr>"

definition default_config :: "display_consts \<Rightarrow> buffer_request_config" where
  "default_config k = \<lparr>width = 0, height = 0, strideAlignment = 0, format = 0, usage = 0,
     timeout = 0, colorGamut = COLOR_GAMUT_SRGB k, transform = ROTATE_NONE k,
     scalingMode = scaling_mode_value SCALING_MODE_SCALE_TO_WINDOW\<rparr>"

text \<open>The element \<open>std::map::operator[]\<close> inserts for a missing key.\<close>

definition default_element :: "display_consts \<Rightarrow> buffer_element" where
  "default_element k = \<lparr>ebuffer = None, estate = BUFFER_STATE_RELEASED, isDeleting = False,
     econfig = default_config k, efence = None, etimestamp = 0, edamage = zero_rect\<rparr>"

record request_retval =
  rsequence :: int
  rbuffer :: buffer_ref
  rfence :: fence_ref
  rdeletingBuffers :: "int list"

end
