(* ===== verification/Buffer_Handle.thy ===== *)
theory Buffer_Handle
  imports Graphic_Error
begin

text \<open>
  \<open>utils/buffer_handle/src/buffer_handle.cpp\<close>: allocation, release and duplication of a
  buffer handle. A handle owns file descriptors: \<open>bh_fd\<close> and the first \<open>bh_reserveFds\<close>
  entries of \<open>bh_reserve\<close>. The system calls are parameters: \<open>dup n fd\<close> is the result of the
  \<open>n\<close>-th \<open>dup\<close> call, \<open>close\<close> is visible as the list of descriptors closed.
\<close>

record buffer_handle =
  bh_fd :: int
  bh_width :: int
  bh_stride :: int
  bh_height :: int
  bh_size :: int
  bh_format :: int
  bh_usage :: int
  bh_phyAddr :: int
  bh_key :: int
  bh_virAddr :: nat
  bh_reserveFds :: nat
  bh_reserveInts :: nat
  bh_reserve :: "int list"

text \<open>\<open>malloc_ok\<close> tells whether \<open>malloc\<close> returns memory.\<close>

definition AllocateBufferHandle :: "bool \<Rightarrow> nat \<Rightarrow> nat \<Rightarrow> buffer_handle option" where
  "AllocateBufferHandle malloc_ok fds ints =
     (if malloc_ok then
        Some \<lparr>bh_fd = -1, bh_width = 0, bh_stride = 0, bh_height = 0, bh_size = 0, bh_format = 0,
          bh_usage = 0, bh_phyAddr = 0, bh_key = 0, bh_virAddr = 0, bh_reserveFds = fds,
          bh_reserveInts = ints, bh_reserve = replicate fds (-1) @ replicate ints 0\<rparr>
      else None)"

text \<open>The descriptors closed, in order; the return value is always 0.\<close>

definition FreeBufferHandle :: "buffer_handle option \<Rightarrow> int list" where
  "FreeBufferHandle h =
     (case h of None \<Rightarrow> []
      | Some h \<Rightarrow> (if bh_fd h \<ge> 0 then [bh_fd h] else []) @
          filter (\<lambda>fd. fd \<ge> 0) (take (bh_reserveFds h) (bh_reserve h)))"

text \<open>
  The loop over the reserved descriptors: \<open>dup\<close> each, stop at the first failure. The
  result is whether all were duplicated, and the entries of \<open>newHandle->reserve\<close> after the
  loop (a failed entry holds -1, as do the ones not reached).
\<close>

fun clone_reserve :: "(nat \<Rightarrow> int \<Rightarrow> int) \<Rightarrow> nat \<Rightarrow> int list \<Rightarrow> bool \<times> int list" where
  "clone_reserve dup n [] = (True, [])"
| "clone_reserve dup n (fd # fds) =
     (let d = dup n fd
      in if d = -1 then (False, replicate (Suc (length fds)) (-1))
         else let (ok, ds) = clone_reserve dup (Suc n) fds in (ok, d # ds))"

text \<open>
  \<open>CloneBufferHandle\<close>: the new handle, or \<open>None\<close> with the descriptors the failure path
  closes. \<open>memcpy_ok bytes\<close> is the result of \<open>memcpy_s\<close> for the reserved integers.
\<close>

definition CloneBufferHandle ::
    "bool \<Rightarrow> (nat \<Rightarrow> int \<Rightarrow> int) \<Rightarrow> (nat \<Rightarrow> bool) \<Rightarrow> buffer_handle option \<Rightarrow> buffer_handle option \<times> int list" where
  "CloneBufferHandle malloc_ok dup memcpy_ok handle =
     (case handle of None \<Rightarrow> (None, [])
      | Some h \<Rightarrow>
        (case AllocateBufferHandle malloc_ok (bh_reserveFds h) (bh_reserveInts h) of None \<Rightarrow> (None, [])
         | Some nh \<Rightarrow>
           (let nfd = (if bh_fd h = -1 then -1 else dup 0 (bh_fd h));
                nh = nh\<lparr>bh_fd := nfd\<rparr>
            in if bh_fd h \<noteq> -1 \<and> nfd = -1 then (None, FreeBufferHandle (Some nh))
               else
                 (let nh = nh\<lparr>bh_width := bh_width h, bh_stride := bh_stride h, bh_height := bh_height h,
                        bh_size := bh_size h, bh_format := bh_format h, bh_usage := bh_usage h,
                        bh_phyAddr := bh_phyAddr h, bh_key := bh_key h\<rparr>;
                      (ok, ds) = clone_reserve dup 1 (take (bh_reserveFds h) (bh_reserve h));
                      nh = nh\<lparr>bh_reserve := ds @ drop (bh_reserveFds h) (bh_reserve nh)\<rparr>
                  in if \<not> ok then (None, FreeBufferHandle (Some nh))
                     else if \<not> memcpy_ok (4 * bh_reserveInts h) then (None, FreeBufferHandle (Some nh))
                     else (Some (nh\<lparr>bh_reserve := ds @ drop (bh_reserveFds h) (bh_reserve h)\<rparr>), [])))))"

definition handle_wf :: "buffer_handle \<Rightarrow> bool" where
  "handle_wf h \<longleftrightarrow> length (bh_reserve h) = bh_reserveFds h + bh_reserveInts h"

lemma handle_wf_alloc: "AllocateBufferHandle m fds ints = Some h \<Longrightarrow> handle_wf h"
  by (auto simp: AllocateBufferHandle_def handle_wf_def split: if_splits)

lemma clone_reserve_length: "length (snd (clone_reserve dup n fds)) = length fds"
  by (induction dup n fds rule: clone_reserve.induct) (auto simp: Let_def split: prod.splits)

lemma clone_reserve_ok: "fst (clone_reserve dup n fds) \<Longrightarrow>
   \<forall>i < length fds. snd (clone_reserve dup n fds) ! i = dup (n + i) (fds ! i) \<and> dup (n + i) (fds ! i) \<noteq> -1"
proof (induction dup n fds rule: clone_reserve.induct)
  case (1 dup n)
  then show ?case by simp
next
  case (2 dup n fd fds)
  obtain ok ds where rest: "clone_reserve dup (Suc n) fds = (ok, ds)" by fastforce
  with "2.prems" have d: "dup n fd \<noteq> -1" and ok by (auto simp: Let_def split: if_splits)
  with "2.IH" rest have "\<forall>i < length fds. ds ! i = dup (Suc n + i) (fds ! i) \<and> dup (Suc n + i) (fds ! i) \<noteq> -1"
    by simp
  with d rest show ?case by (auto simp: Let_def nth_Cons split: nat.splits)
qed

text \<open>
  The descriptors a failing duplication obtained: the results of the \<open>dup\<close> calls made
  before the failure, in order. A correct failure path closes exactly these.
\<close>

fun dups_made :: "(nat \<Rightarrow> int \<Rightarrow> int) \<Rightarrow> nat \<Rightarrow> int list \<Rightarrow> int list" where
  "dups_made dup n [] = []"
| "dups_made dup n (fd # fds) = (let d = dup n fd in if d = -1 then [] else d # dups_made dup (Suc n) fds)"

text \<open>\<open>dup\<close> returns a descriptor or -1.\<close>

definition dup_result :: "(nat \<Rightarrow> int \<Rightarrow> int) \<Rightarrow> bool" where
  "dup_result dup \<longleftrightarrow> (\<forall>n fd. dup n fd \<ge> -1)"

lemma dup_cases: "dup_result dup \<Longrightarrow> dup n fd = -1 \<or> 0 \<le> dup n fd"
proof -
  assume "dup_result dup"
  then have "-1 \<le> dup n fd" by (simp add: dup_result_def)
  then show ?thesis by linarith
qed

lemma dups_made_clone: "dup_result dup \<Longrightarrow>
   filter (\<lambda>fd. fd \<ge> 0) (snd (clone_reserve dup n fds)) = dups_made dup n fds"
proof (induction dup n fds rule: clone_reserve.induct)
  case (1 dup n)
  then show ?case by simp
next
  case (2 dup n fd fds)
  have "dup n fd = -1 \<or> 0 \<le> dup n fd"
    using "2.prems" by (rule dup_cases)
  with "2.IH" "2.prems" show ?case by (auto simp: Let_def split: prod.splits)
qed

lemma clone_failure_closes:
  assumes "dup_result dup" and "handle_wf h"
    and "CloneBufferHandle True dup memcpy_ok (Some h) = (None, closed)"
  shows "closed = (if bh_fd h \<noteq> -1 then dups_made dup 0 [bh_fd h] else []) @
    (if bh_fd h \<noteq> -1 \<and> dup 0 (bh_fd h) = -1 then []
     else dups_made dup 1 (take (bh_reserveFds h) (bh_reserve h)))"
proof -
  let ?fds = "take (bh_reserveFds h) (bh_reserve h)"
  obtain ok ds where cr: "clone_reserve dup 1 ?fds = (ok, ds)" by fastforce
  have len: "length ds = bh_reserveFds h"
    using clone_reserve_length [of dup 1 ?fds] cr assms(2) by (simp add: handle_wf_def)
  have flt: "filter (\<lambda>fd. fd \<ge> 0) ds = dups_made dup 1 ?fds"
    using dups_made_clone [OF assms(1), of 1 ?fds] cr by simp
  have pos: "dup 0 (bh_fd h) = -1 \<or> 0 \<le> dup 0 (bh_fd h)"
    using assms(1) by (rule dup_cases)
  show ?thesis
    using assms(3) pos cr len flt
    by (auto simp: CloneBufferHandle_def AllocateBufferHandle_def FreeBufferHandle_def Let_def
        split: if_splits)
qed

lemma clone_success:
  assumes "handle_wf h" and "CloneBufferHandle m dup memcpy_ok (Some h) = (Some nh, closed)"
  shows "closed = [] \<and> handle_wf nh \<and> bh_width nh = bh_width h \<and> bh_height nh = bh_height h \<and>
    bh_stride nh = bh_stride h \<and> bh_size nh = bh_size h \<and> bh_format nh = bh_format h \<and>
    bh_usage nh = bh_usage h \<and> bh_key nh = bh_key h \<and> bh_phyAddr nh = bh_phyAddr h \<and>
    drop (bh_reserveFds nh) (bh_reserve nh) = drop (bh_reserveFds h) (bh_reserve h)"
proof -
  let ?fds = "take (bh_reserveFds h) (bh_reserve h)"
  obtain ok ds where cr: "clone_reserve dup (Suc 0) ?fds = (ok, ds)" by fastforce
  have len: "length ds = bh_reserveFds h"
    using clone_reserve_length [of dup "Suc 0" ?fds] cr assms(1) by (simp add: handle_wf_def)
  show ?thesis
    using assms cr len
    by (auto simp: CloneBufferHandle_def AllocateBufferHandle_def handle_wf_def Let_def
        split: if_splits)
qed

end
