(* ===== verification/Surface_Buffer.thy ===== *)
theory Surface_Buffer
  imports Surface_Types Buffer_Handle
begin

text \<open>
  \<open>SurfaceBufferImpl\<close> (\<open>frameworks/surface/src/surface_buffer_impl.cpp\<close>): the object behind a
  \<open>sptr<SurfaceBuffer>\<close>. The display driver (\<open>IDisplayGralloc\<close>, outside the repository) is
  the record \<open>gralloc\<close> of its answers; the first argument of each answer numbers the call,
  so that the driver may answer differently each time. Locking is per field access and
  each operation is one step; logging is left out.
\<close>

record alloc_info =
  ai_width :: int
  ai_height :: int
  ai_usage :: int
  ai_format :: int

text \<open>
  \<open>gr_Mmap\<close> gives the pointer returned and the \<open>virAddr\<close> of the handle after the call
  (the driver writes it); 0 is \<open>nullptr\<close>.
\<close>

record gralloc =
  gr_codes :: disp_codes
  gr_present :: bool
  gr_AllocMem :: "nat \<Rightarrow> alloc_info \<Rightarrow> int \<times> buffer_handle"
  gr_Mmap :: "nat \<Rightarrow> buffer_handle \<Rightarrow> nat \<times> nat"
  gr_Unmap :: "nat \<Rightarrow> buffer_handle \<Rightarrow> int"
  gr_FlushCache :: "nat \<Rightarrow> buffer_handle \<Rightarrow> int"
  gr_InvalidateCache :: "nat \<Rightarrow> buffer_handle \<Rightarrow> int"
  MAP_FAILED :: nat

record surface_buffer =
  sequenceNumber :: int
  handle :: "buffer_handle option"
  bedata :: extra_ref
  surfaceBufferColorGamut :: int
  stransform :: int
  surfaceBufferScalingMode :: int
  surfaceBufferWidth :: int
  surfaceBufferHeight :: int

text \<open>
  The first constructor takes the next number of a static counter; the second is given the
  number (it makes the client's copy of a remote buffer). \<open>bd\<close> is the new
  \<open>BufferExtraDataImpl\<close>.
\<close>

definition new_SurfaceBufferImpl_seq :: "display_consts \<Rightarrow> int \<Rightarrow> nat \<Rightarrow> surface_buffer" where
  "new_SurfaceBufferImpl_seq k seqNum bd = \<lparr>sequenceNumber = seqNum, handle = None, bedata = Some bd,
     surfaceBufferColorGamut = COLOR_GAMUT_SRGB k, stransform = ROTATE_NONE k,
     surfaceBufferScalingMode = scaling_mode_value SCALING_MODE_SCALE_TO_WINDOW,
     surfaceBufferWidth = 0, surfaceBufferHeight = 0\<rparr>"

definition new_SurfaceBufferImpl :: "display_consts \<Rightarrow> int \<Rightarrow> nat \<Rightarrow> surface_buffer \<times> int" where
  "new_SurfaceBufferImpl k counter bd = (new_SurfaceBufferImpl_seq k counter bd, counter + 1)"

definition FreeBufferHandleLocked :: "surface_buffer \<Rightarrow> surface_buffer" where
  "FreeBufferHandleLocked sb = sb\<lparr>handle := None\<rparr>"

definition sb_Alloc :: "gralloc \<Rightarrow> nat \<Rightarrow> buffer_request_config \<Rightarrow> surface_buffer \<Rightarrow> gserror \<times> surface_buffer" where
  "sb_Alloc g n config sb =
     (if \<not> gr_present g then (GSERROR_INTERNEL, sb)
      else
        (let sb = (if handle sb \<noteq> None then FreeBufferHandleLocked sb else sb);
             info = \<lparr>ai_width = width config, ai_height = height config, ai_usage = usage config,
                     ai_format = format config\<rparr>;
             (dret, h) = gr_AllocMem g n info
         in if dret = DISPLAY_SUCCESS (gr_codes g) then
              (GSERROR_OK, sb\<lparr>surfaceBufferColorGamut := colorGamut config, stransform := transform config,
                 surfaceBufferScalingMode := scalingMode config, surfaceBufferWidth := width config,
                 surfaceBufferHeight := height config, handle := Some h\<rparr>)
            else (GenerateError (gr_codes g) GSERROR_API_FAILED dret, sb)))"

definition sb_Map :: "gralloc \<Rightarrow> nat \<Rightarrow> surface_buffer \<Rightarrow> gserror \<times> surface_buffer" where
  "sb_Map g n sb =
     (if \<not> gr_present g then (GSERROR_INTERNEL, sb)
      else case handle sb of
        None \<Rightarrow> (GSERROR_INVALID_OPERATING, sb)
      | Some h \<Rightarrow>
          (if bh_virAddr h \<noteq> 0 then (GSERROR_OK, sb)
           else
             (let (virAddr, written) = gr_Mmap g n h;
                  sb = sb\<lparr>handle := Some (h\<lparr>bh_virAddr := written\<rparr>)\<rparr>
              in if virAddr = 0 \<or> virAddr = MAP_FAILED g then (GSERROR_API_FAILED, sb)
                 else (GSERROR_OK, sb))))"

definition sb_Unmap :: "gralloc \<Rightarrow> nat \<Rightarrow> surface_buffer \<Rightarrow> gserror \<times> surface_buffer" where
  "sb_Unmap g n sb =
     (if \<not> gr_present g then (GSERROR_INTERNEL, sb)
      else case handle sb of
        None \<Rightarrow> (GSERROR_INVALID_OPERATING, sb)
      | Some h \<Rightarrow>
          (if bh_virAddr h = 0 then (GSERROR_OK, sb)
           else
             (let dret = gr_Unmap g n h
              in if dret = DISPLAY_SUCCESS (gr_codes g)
                 then (GSERROR_OK, sb\<lparr>handle := Some (h\<lparr>bh_virAddr := 0\<rparr>)\<rparr>)
                 else (GenerateError (gr_codes g) GSERROR_API_FAILED dret, sb))))"

definition sb_FlushCache :: "gralloc \<Rightarrow> nat \<Rightarrow> surface_buffer \<Rightarrow> gserror" where
  "sb_FlushCache g n sb =
     (if \<not> gr_present g then GSERROR_INTERNEL
      else case handle sb of
        None \<Rightarrow> GSERROR_INVALID_OPERATING
      | Some h \<Rightarrow>
          (if bh_virAddr h = 0 then GSERROR_API_FAILED
           else
             (let dret = gr_FlushCache g n h
              in if dret = DISPLAY_SUCCESS (gr_codes g) then GSERROR_OK
                 else GenerateError (gr_codes g) GSERROR_API_FAILED dret)))"

definition sb_InvalidateCache :: "gralloc \<Rightarrow> nat \<Rightarrow> surface_buffer \<Rightarrow> gserror" where
  "sb_InvalidateCache g n sb =
     (if \<not> gr_present g then GSERROR_INTERNEL
      else case handle sb of
        None \<Rightarrow> GSERROR_INVALID_OPERATING
      | Some h \<Rightarrow>
          (let dret = gr_InvalidateCache g n h
           in if dret = DISPLAY_SUCCESS (gr_codes g) then GSERROR_OK
              else GenerateError (gr_codes g) GSERROR_API_FAILED dret))"

section \<open>Attributes\<close>

definition sb_SetSurfaceBufferColorGamut :: "int \<Rightarrow> surface_buffer \<Rightarrow> surface_buffer" where
  "sb_SetSurfaceBufferColorGamut v sb = sb\<lparr>surfaceBufferColorGamut := v\<rparr>"
definition sb_SetSurfaceBufferTransform :: "int \<Rightarrow> surface_buffer \<Rightarrow> surface_buffer" where
  "sb_SetSurfaceBufferTransform v sb = sb\<lparr>stransform := v\<rparr>"
definition sb_SetSurfaceBufferWidth :: "int \<Rightarrow> surface_buffer \<Rightarrow> surface_buffer" where
  "sb_SetSurfaceBufferWidth v sb = sb\<lparr>surfaceBufferWidth := v\<rparr>"
definition sb_SetSurfaceBufferHeight :: "int \<Rightarrow> surface_buffer \<Rightarrow> surface_buffer" where
  "sb_SetSurfaceBufferHeight v sb = sb\<lparr>surfaceBufferHeight := v\<rparr>"

text \<open>The getters of the handle answer -1 (or 0) when there is none.\<close>

definition handle_field :: "int \<Rightarrow> (buffer_handle \<Rightarrow> int) \<Rightarrow> surface_buffer \<Rightarrow> int" where
  "handle_field dflt f sb = (case handle sb of None \<Rightarrow> dflt | Some h \<Rightarrow> f h)"

definition sb_GetWidth :: "surface_buffer \<Rightarrow> int" where "sb_GetWidth = handle_field (-1) bh_width"
definition sb_GetHeight :: "surface_buffer \<Rightarrow> int" where "sb_GetHeight = handle_field (-1) bh_height"
definition sb_GetStride :: "surface_buffer \<Rightarrow> int" where "sb_GetStride = handle_field (-1) bh_stride"
definition sb_GetFormat :: "surface_buffer \<Rightarrow> int" where "sb_GetFormat = handle_field (-1) bh_format"
definition sb_GetUsage :: "surface_buffer \<Rightarrow> int" where "sb_GetUsage = handle_field (-1) bh_usage"
definition sb_GetPhyAddr :: "surface_buffer \<Rightarrow> int" where "sb_GetPhyAddr = handle_field 0 bh_phyAddr"
definition sb_GetKey :: "surface_buffer \<Rightarrow> int" where "sb_GetKey = handle_field (-1) bh_key"
definition sb_GetFileDescriptor :: "surface_buffer \<Rightarrow> int" where
  "sb_GetFileDescriptor = handle_field (-1) bh_fd"

definition sb_GetSize :: "surface_buffer \<Rightarrow> 32 word" where
  "sb_GetSize sb = (case handle sb of None \<Rightarrow> 0 | Some h \<Rightarrow> word_of_int (bh_size h))"

definition sb_GetVirAddr :: "gralloc \<Rightarrow> nat \<Rightarrow> surface_buffer \<Rightarrow> nat \<times> surface_buffer" where
  "sb_GetVirAddr g n sb =
     (let (ret, sb) = sb_Map g n sb
      in if gs_ne ret GSERROR_OK then (0, sb)
         else (case handle sb of None \<Rightarrow> (0, sb) | Some h \<Rightarrow> (bh_virAddr h, sb)))"

definition sb_SetExtraData :: "extra_ref \<Rightarrow> surface_buffer \<Rightarrow> surface_buffer" where
  "sb_SetExtraData bd sb = sb\<lparr>bedata := bd\<rparr>"

definition sb_SetBufferHandle :: "buffer_handle option \<Rightarrow> surface_buffer \<Rightarrow> surface_buffer" where
  "sb_SetBufferHandle h sb = sb\<lparr>handle := h\<rparr>"

section \<open>Lemmas\<close>

lemma sequenceNumber_new [simp]: "sequenceNumber (new_SurfaceBufferImpl_seq k s bd) = s"
  by (simp add: new_SurfaceBufferImpl_seq_def)

lemma sequenceNumber_Alloc [simp]: "sequenceNumber (snd (sb_Alloc g n c sb)) = sequenceNumber sb"
  by (simp add: sb_Alloc_def FreeBufferHandleLocked_def Let_def split: prod.splits)

lemma sequenceNumber_Map [simp]: "sequenceNumber (snd (sb_Map g n sb)) = sequenceNumber sb"
  by (simp add: sb_Map_def Let_def split: prod.splits option.splits)

lemma sequenceNumber_SetExtraData [simp]: "sequenceNumber (sb_SetExtraData bd sb) = sequenceNumber sb"
  by (simp add: sb_SetExtraData_def)

text \<open>
  A successful allocation leaves a handle from the driver and the requested attributes;
  a failed one leaves no handle behind, so that the buffer cannot be mapped.
\<close>

lemma sb_Alloc_success:
  assumes "errno_fits (gr_codes g)" and "sb_Alloc g n c sb = (ret, sb')" and "gs_eq ret GSERROR_OK"
  shows "ret = GSERROR_OK \<and> handle sb' \<noteq> None \<and> surfaceBufferWidth sb' = width c \<and>
    surfaceBufferHeight sb' = height c \<and> surfaceBufferColorGamut sb' = colorGamut c \<and>
    stransform sb' = transform c \<and> surfaceBufferScalingMode sb' = scalingMode c"
  using assms GenerateError_API_FAILED_not_OK [of "gr_codes g"]
  by (auto simp: sb_Alloc_def Let_def split: if_splits prod.splits)

lemma sb_Alloc_failure:
  assumes "gr_present g" and "sb_Alloc g n c sb = (ret, sb')" and "\<not> gs_eq ret GSERROR_OK"
  shows "handle sb' = None"
  using assms
  by (auto simp: sb_Alloc_def FreeBufferHandleLocked_def Let_def split: if_splits prod.splits)

lemma sb_Map_idempotent:
  assumes "sb_Map g n sb = (ret, sb')" and "gs_eq ret GSERROR_OK"
    and "\<And>h. let (p, w) = gr_Mmap g n h in p \<noteq> 0 \<longrightarrow> w = p"
  shows "sb_Map g m sb' = (GSERROR_OK, sb')"
  using assms(1,2) assms(3) [of "the (handle sb)"]
  by (auto simp: sb_Map_def Let_def split: if_splits prod.splits option.splits)

lemma sb_Unmap_Map:
  assumes "sb_Unmap g n sb = (ret, sb')" and "gs_eq ret GSERROR_OK"
    and "errno_fits (gr_codes g)"
  shows "\<exists>h. handle sb' = Some h \<and> bh_virAddr h = 0"
  using assms GenerateError_API_FAILED_not_OK [of "gr_codes g"]
  by (auto simp: sb_Unmap_def Let_def split: if_splits prod.splits option.splits)

end
