(* ===== verification/Buffer_Queue.thy ===== *)
theory Buffer_Queue
  imports Surface_Buffer
begin

text \<open>
  \<open>BufferQueue\<close> (\<open>frameworks/surface/src/buffer_queue.cpp\<close>): the queue that hands graphic
  buffers from a producer to a consumer and back.

  The state is the record \<open>buffer_queue\<close>: the class's fields, then the world the methods
  act on: the store of buffer objects \<open>objs\<close>, the static sequence counter, the number of
  driver calls made and the trace of outside effects (callbacks and wake-ups). Each method
  is a function on that state. The code's null dereferences and a thread's second locking of
  the non-recursive \<open>mutex_\<close> are results of their own (\<open>bq_fault\<close>), so no branch is lost.
  A method that holds the lock throughout is one step. A method whose lock is released in the
  middle is the composition of its sections, which are definitions of their own, with what the
  other threads do in between as an argument (\<open>wait\<close>, \<open>gap\<close>). \<open>Dump\<close>, \<open>DumpCache\<close> and \<open>DumpToFile\<close> format text for
  files and are not modelled; neither is logging.
\<close>

datatype bq_event = BufferDeleted int | BufferAvailable | NotifyAll

datatype bq_fault = NullDeref | SelfDeadlock

record buffer_queue =
  defaultWidth :: int
  defaultHeight :: int
  defaultUsage :: "32 word"
  queueSize :: "32 word"
  qtransform :: int
  qname :: string
  freeList :: "int list"
  dirtyList :: "int list"
  deletingList :: "int list"
  bufferQueueCache :: "(int, buffer_element) omap"
  listener :: "nat option"
  listenerClazz :: "nat option"
  uniqueId :: "64 word"
  onBufferRelease :: "nat option"
  onBufferDelete :: "nat option"
  isShared :: bool
  objs :: "surface_buffer list"
  seqCounter :: int
  calls :: nat
  events :: "bq_event list"

text \<open>
  What the methods ask of the outside: the display constants, the driver, the clock
  (\<open>gettimeofday\<close> in microseconds, per call) and the answer of the release callback.
\<close>

record bq_env =
  disp :: display_consts
  driver :: gralloc
  now_usec :: "nat \<Rightarrow> int"
  releaseAnswer :: "nat \<Rightarrow> nat \<Rightarrow> gserror"

section \<open>The lock\<close>

text \<open>
  \<open>std::lock_guard<std::mutex> lockGuard(mutex_)\<close> over the rest of a block. \<open>held\<close> says whether
  the calling thread holds \<open>mutex_\<close> already; if it does, it waits for itself for ever. A lock held
  by another thread only delays the call: the sections of different calls come one after the other.
\<close>

definition lock_guard :: "bool \<Rightarrow> (bq_fault + 'a) \<Rightarrow> bq_fault + 'a" where
  "lock_guard held block = (if held then Inl SelfDeadlock else block)"

section \<open>The cache\<close>

definition GetUniqueIdImpl :: "64 word \<Rightarrow> 32 word \<Rightarrow> 64 word \<times> 32 word" where
  "GetUniqueIdImpl pid counter = (or (push_bit 32 pid) (ucast counter), counter + 1)"

definition new_BufferQueue :: "display_consts \<Rightarrow> string \<Rightarrow> bool \<Rightarrow> 64 word \<Rightarrow> buffer_queue" where
  "new_BufferQueue k nm shared uid =
     \<lparr>defaultWidth = 0, defaultHeight = 0, defaultUsage = 0,
      queueSize = (if shared then 1 else SURFACE_DEFAULT_QUEUE_SIZE), qtransform = ROTATE_NONE k,
      qname = nm, freeList = [], dirtyList = [], deletingList = [], bufferQueueCache = [],
      listener = None, listenerClazz = None, uniqueId = uid, onBufferRelease = None,
      onBufferDelete = None, isShared = shared, objs = [], seqCounter = 0, calls = 0, events = []\<rparr>"

definition GetUsedSize :: "buffer_queue \<Rightarrow> 32 word" where
  "GetUsedSize q = word_of_nat (length (bufferQueueCache q))"

definition GetQueueSize :: "buffer_queue \<Rightarrow> 32 word" where
  "GetQueueSize q = queueSize q"

text \<open>
  \<open>bufferQueueCache_[s]\<close>: \<open>operator[]\<close> inserts a default element for a missing key.
  \<open>cache_elem\<close> is the element read, \<open>cache_touch\<close> the insertion a read may cause,
  \<open>cache_write\<close> an assignment through the reference.
\<close>

definition cache_elem :: "display_consts \<Rightarrow> int \<Rightarrow> buffer_queue \<Rightarrow> buffer_element" where
  "cache_elem k s q = (case map_of (bufferQueueCache q) s of Some e \<Rightarrow> e | None \<Rightarrow> default_element k)"

definition cache_write :: "display_consts \<Rightarrow> int \<Rightarrow> (buffer_element \<Rightarrow> buffer_element) \<Rightarrow> buffer_queue \<Rightarrow> buffer_queue" where
  "cache_write k s f q = q\<lparr>bufferQueueCache := om_put s (f (cache_elem k s q)) (bufferQueueCache q)\<rparr>"

definition cache_touch :: "display_consts \<Rightarrow> int \<Rightarrow> buffer_queue \<Rightarrow> buffer_queue" where
  "cache_touch k s q = (if om_has s (bufferQueueCache q) then q else cache_write k s id q)"

definition emit :: "bq_event \<Rightarrow> buffer_queue \<Rightarrow> buffer_queue" where
  "emit ev q = q\<lparr>events := events q @ [ev]\<rparr>"

definition deref :: "buffer_queue \<Rightarrow> buffer_ref \<Rightarrow> surface_buffer option" where
  "deref q r = (case r of None \<Rightarrow> None | Some i \<Rightarrow> if i < length (objs q) then Some (objs q ! i) else None)"

text \<open>\<open>buffer->SetExtraData(bedata)\<close> through a reference that must not be null.\<close>

definition set_extra :: "buffer_ref \<Rightarrow> extra_ref \<Rightarrow> buffer_queue \<Rightarrow> buffer_queue option" where
  "set_extra r bd q =
     (case deref q r of None \<Rightarrow> None
      | Some sb \<Rightarrow> Some (q\<lparr>objs := (objs q)[the r := sb_SetExtraData bd sb]\<rparr>))"

section \<open>Lists\<close>

fun find_free :: "display_consts \<Rightarrow> buffer_request_config \<Rightarrow> int list \<Rightarrow> buffer_queue \<Rightarrow> int option \<times> buffer_queue" where
  "find_free k config [] q = (None, q)"
| "find_free k config (s # xs) q =
     (let q = cache_touch k s q
      in if config_eq (econfig (cache_elem k s q)) config then (Some s, q)
         else find_free k config xs q)"

definition PopFromFreeList ::
    "display_consts \<Rightarrow> buffer_request_config \<Rightarrow> buffer_queue \<Rightarrow> gserror \<times> buffer_ref \<times> buffer_queue" where
  "PopFromFreeList k config q =
     (if isShared q \<and> GetUsedSize q > 0 then
        (GSERROR_OK, ebuffer (snd (hd (bufferQueueCache q))), q)
      else
        (case find_free k config (freeList q) q of
           (Some s, q) \<Rightarrow> (GSERROR_OK, ebuffer (cache_elem k s q), q\<lparr>freeList := erase1 s (freeList q)\<rparr>)
         | (None, q) \<Rightarrow>
             (case freeList q of
                [] \<Rightarrow> (GSERROR_NO_BUFFER, None, q)
              | s # xs \<Rightarrow> (let q = cache_touch k s q
                           in (GSERROR_OK, ebuffer (cache_elem k s q), q\<lparr>freeList := xs\<rparr>)))))"

definition PopFromDirtyList :: "display_consts \<Rightarrow> buffer_queue \<Rightarrow> gserror \<times> buffer_ref \<times> buffer_queue" where
  "PopFromDirtyList k q =
     (if isShared q \<and> GetUsedSize q > 0 then
        (GSERROR_OK, ebuffer (snd (hd (bufferQueueCache q))), q)
      else
        (case dirtyList q of
           s # xs \<Rightarrow> (let q = cache_touch k s q
                      in (GSERROR_OK, ebuffer (cache_elem k s q), q\<lparr>dirtyList := xs\<rparr>))
         | [] \<Rightarrow> (GSERROR_NO_BUFFER, None, q)))"

section \<open>Parameter checks\<close>

definition CheckRequestConfig :: "display_consts \<Rightarrow> buffer_request_config \<Rightarrow> gserror" where
  "CheckRequestConfig k config =
     (if width config \<le> 0 \<or> height config \<le> 0 then GSERROR_INVALID_ARGUMENTS
      else
        (let align = (word_of_int (strideAlignment config) :: 32 word)
         in if \<not> (SURFACE_MIN_STRIDE_ALIGNMENT \<le> align \<and> SURFACE_MAX_STRIDE_ALIGNMENT \<ge> align)
            then GSERROR_INVALID_ARGUMENTS
            else if and align (align - 1) \<noteq> 0 then GSERROR_INVALID_ARGUMENTS
            else if format config < 0 \<or> format config > PIXEL_FMT_BUTT k then GSERROR_INVALID_ARGUMENTS
            else if colorGamut config \<le> COLOR_GAMUT_INVALID k \<or>
                    colorGamut config > COLOR_GAMUT_DISPLAY_BT2020 k + 1 then GSERROR_INVALID_ARGUMENTS
            else if transform config < ROTATE_NONE k \<or> transform config \<ge> ROTATE_BUTT k
            then GSERROR_INVALID_ARGUMENTS
            else if scalingMode config < scaling_mode_value SCALING_MODE_FREEZE \<or>
                    scalingMode config > scaling_mode_value SCALING_MODE_NO_SCALE_CROP
            then GSERROR_INVALID_ARGUMENTS
            else GSERROR_OK))"

definition CheckFlushConfig :: "buffer_flush_config \<Rightarrow> gserror" where
  "CheckFlushConfig config =
     (if rw (damage config) < 0 then GSERROR_INVALID_ARGUMENTS
      else if rh (damage config) < 0 then GSERROR_INVALID_ARGUMENTS
      else GSERROR_OK)"

section \<open>Allocation and deletion\<close>

text \<open>
  The result: the error, the new buffer when \<open>buffer\<close> was assigned, the new state. The new
  object enters the store before \<open>Alloc\<close>, as the code's \<open>new\<close> does.
\<close>

definition AllocBuffer ::
    "bq_env \<Rightarrow> buffer_request_config \<Rightarrow> buffer_queue \<Rightarrow> gserror \<times> buffer_ref \<times> buffer_queue" where
  "AllocBuffer env config q =
     (let r = length (objs q);
          (sb, counter) = new_SurfaceBufferImpl (disp env) (seqCounter q) r;
          q = q\<lparr>seqCounter := counter\<rparr>;
          sequence = sequenceNumber sb;
          (ret, sb) = sb_Alloc (driver env) (calls q) config sb;
          q = q\<lparr>objs := objs q @ [sb], calls := calls q + 1\<rparr>
      in if gs_ne ret GSERROR_OK then (ret, None, q)
         else
           (let ele = \<lparr>ebuffer = Some r, estate = BUFFER_STATE_REQUESTED, isDeleting = False,
                       econfig = config, efence = INVALID_FENCE, etimestamp = 0, edamage = zero_rect\<rparr>;
                (ret, sb) = sb_Map (driver env) (calls q) sb;
                q = q\<lparr>objs := (objs q)[r := sb], calls := calls q + 1\<rparr>
            in if gs_eq ret GSERROR_OK
               then (ret, Some r, q\<lparr>bufferQueueCache := om_put sequence ele (bufferQueueCache q)\<rparr>)
               else (ret, None, q)))"

definition DeleteBufferInCache :: "int \<Rightarrow> buffer_queue \<Rightarrow> buffer_queue" where
  "DeleteBufferInCache s q =
     (if om_has s (bufferQueueCache q) then
        (let q = (if onBufferDelete q \<noteq> None then emit (BufferDeleted s) q else q)
         in q\<lparr>bufferQueueCache := om_del s (bufferQueueCache q), deletingList := deletingList q @ [s]\<rparr>)
      else q)"

text \<open>One of the two list loops of \<open>DeleteBuffers\<close>: the count left, the list left, the state.\<close>

fun delete_loop :: "int list \<Rightarrow> int \<Rightarrow> buffer_queue \<Rightarrow> int \<times> int list \<times> buffer_queue" where
  "delete_loop [] count q = (count, [], q)"
| "delete_loop (s # xs) count q =
     (let q = DeleteBufferInCache s q; count = count - 1
      in if count \<le> 0 then (count, xs, q) else delete_loop xs count q)"

fun mark_deleting :: "int \<Rightarrow> (int, buffer_element) omap \<Rightarrow> (int, buffer_element) omap" where
  "mark_deleting count [] = []"
| "mark_deleting count ((s, e) # m) =
     (s, e\<lparr>isDeleting := True\<rparr>) # (if count - 1 \<le> 0 then m else mark_deleting (count - 1) m)"

text \<open>The loops of \<open>DeleteBuffers\<close>, run with \<open>mutex_\<close> locked.\<close>

definition delete_locked :: "int \<Rightarrow> buffer_queue \<Rightarrow> buffer_queue" where
  "delete_locked count q =
     (let (c1, free, q) = delete_loop (freeList q) count q;
          q = q\<lparr>freeList := free\<rparr>
      in if c1 \<le> 0 then q
         else
           (let (c2, dirty, q) = delete_loop (dirtyList q) c1 q;
                q = q\<lparr>dirtyList := dirty\<rparr>
            in if c2 \<le> 0 then q
               else q\<lparr>bufferQueueCache := mark_deleting c2 (bufferQueueCache q)\<rparr>))"

text \<open>\<open>DeleteBuffers\<close> returns at once for a count that is not positive, and locks \<open>mutex_\<close> otherwise.\<close>

definition DeleteBuffers :: "bool \<Rightarrow> int \<Rightarrow> buffer_queue \<Rightarrow> bq_fault + buffer_queue" where
  "DeleteBuffers held count q =
     (if count \<le> 0 then Inr q else lock_guard held (Inr (delete_locked count q)))"

section \<open>Producer side\<close>

definition ReuseBuffer ::
    "bq_env \<Rightarrow> buffer_request_config \<Rightarrow> buffer_ref \<Rightarrow> buffer_queue \<Rightarrow>
     bq_fault + gserror \<times> extra_ref \<times> request_retval \<times> buffer_queue" where
  "ReuseBuffer env config buffer q =
     (case deref q buffer of None \<Rightarrow> Inl NullDeref
      | Some sb \<Rightarrow>
        (let sequence = sequenceNumber sb;
             q = cache_touch (disp env) sequence q;
             needRealloc = config_ne config (econfig (cache_elem (disp env) sequence q));
             retval = \<lparr>rsequence = sequence, rbuffer = buffer, rfence = None, rdeletingBuffers = []\<rparr>;
             finish = (\<lambda>retval q. case deref q (rbuffer retval) of None \<Rightarrow> Inl NullDeref
               | Some sb \<Rightarrow>
                  (let q = cache_write (disp env) (rsequence retval)
                             (\<lambda>e. e\<lparr>estate := BUFFER_STATE_REQUESTED\<rparr>) q;
                       retval = retval\<lparr>rfence := efence (cache_elem (disp env) (rsequence retval) q),
                                       rdeletingBuffers := rdeletingBuffers retval @ deletingList q\<rparr>;
                       q = q\<lparr>deletingList := []\<rparr>;
                       retval = (if needRealloc then retval else retval\<lparr>rbuffer := None\<rparr>)
                   in Inr (GSERROR_OK, bedata sb, retval, q)))
         in if needRealloc then
              (if isShared q then Inr (GSERROR_INVALID_ARGUMENTS, None, retval, q)
               else
                 (let q = DeleteBufferInCache sequence q;
                      (sret, buf, q) = AllocBuffer env config q
                  in if gs_ne sret GSERROR_OK then Inr (sret, None, retval, q)
                     else case deref q buf of None \<Rightarrow> Inl NullDeref
                       | Some sb' \<Rightarrow>
                          (let retval = retval\<lparr>rbuffer := buf, rsequence := sequenceNumber sb'\<rparr>;
                               q = cache_write (disp env) (rsequence retval) (\<lambda>e. e\<lparr>econfig := config\<rparr>) q
                           in finish retval q)))
            else finish retval q))"

text \<open>
  \<open>RequestBuffer\<close>. While it waits on the condition variable the lock is free: \<open>wait\<close> is what
  the other threads do to the queue meanwhile.
\<close>

definition request_alloc ::
    "bq_env \<Rightarrow> buffer_request_config \<Rightarrow> buffer_queue \<Rightarrow>
     bq_fault + gserror \<times> extra_ref \<times> request_retval \<times> buffer_queue" where
  "request_alloc env config q =
     (let (ret, buf, q) = AllocBuffer env config q;
          retval = \<lparr>rsequence = 0, rbuffer = buf, rfence = None, rdeletingBuffers = []\<rparr>
      in if gs_eq ret GSERROR_OK then
           (case deref q buf of None \<Rightarrow> Inl NullDeref
            | Some sb \<Rightarrow> Inr (ret, bedata sb, retval\<lparr>rsequence := sequenceNumber sb, rfence := INVALID_FENCE\<rparr>, q))
         else Inr (ret, None, retval, q))"

definition bq_RequestBuffer ::
    "bq_env \<Rightarrow> (buffer_queue \<Rightarrow> buffer_queue) \<Rightarrow> buffer_request_config \<Rightarrow> buffer_queue \<Rightarrow>
     bq_fault + gserror \<times> extra_ref \<times> request_retval \<times> buffer_queue" where
  "bq_RequestBuffer env wait config q =
     (let no_retval = \<lparr>rsequence = 0, rbuffer = None, rfence = None, rdeletingBuffers = []\<rparr>
      in if listener q = None \<and> listenerClazz q = None then Inr (GSERROR_NO_CONSUMER, None, no_retval, q)
         else
           (let ret = CheckRequestConfig (disp env) config
            in if gs_ne ret GSERROR_OK then Inr (ret, None, no_retval, q)
               else
                 (let (ret, buf, q) = PopFromFreeList (disp env) config q
                  in if gs_eq ret GSERROR_OK then ReuseBuffer env config buf q
                     else if GetUsedSize q \<ge> GetQueueSize q then
                       (let q = (if freeList q \<noteq> [] \<or> GetUsedSize q < GetQueueSize q then q else wait q);
                            (ret, buf, q) = PopFromFreeList (disp env) config q
                        in if gs_eq ret GSERROR_OK then ReuseBuffer env config buf q
                           else if GetUsedSize q \<ge> GetQueueSize q
                           then Inr (GSERROR_NO_BUFFER, None, no_retval, q)
                           else request_alloc env config q)
                     else request_alloc env config q)))"

definition bq_CancelBuffer :: "bq_env \<Rightarrow> int \<Rightarrow> extra_ref \<Rightarrow> buffer_queue \<Rightarrow> bq_fault + gserror \<times> buffer_queue" where
  "bq_CancelBuffer env s bd q =
     (if isShared q then Inr (GSERROR_INVALID_OPERATING, q)
      else case map_of (bufferQueueCache q) s of
        None \<Rightarrow> Inr (GSERROR_NO_ENTRY, q)
      | Some e \<Rightarrow>
          (if estate e \<noteq> BUFFER_STATE_REQUESTED then Inr (GSERROR_INVALID_OPERATING, q)
           else
             (let q = cache_write (disp env) s (\<lambda>e. e\<lparr>estate := BUFFER_STATE_RELEASED\<rparr>) q;
                  q = q\<lparr>freeList := freeList q @ [s]\<rparr>
              in case set_extra (ebuffer e) bd q of
                   None \<Rightarrow> Inl NullDeref
                 | Some q \<Rightarrow> Inr (GSERROR_OK, emit NotifyAll q))))"

text \<open>The first locked section of \<open>FlushBuffer\<close>: it only checks.\<close>

definition flush_check :: "int \<Rightarrow> buffer_queue \<Rightarrow> gserror" where
  "flush_check s q =
     (case map_of (bufferQueueCache q) s of
        None \<Rightarrow> GSERROR_NO_ENTRY
      | Some e \<Rightarrow>
          (if \<not> isShared q \<and> estate e \<noteq> BUFFER_STATE_REQUESTED \<and> estate e \<noteq> BUFFER_STATE_ATTACHED
           then GSERROR_NO_ENTRY else GSERROR_OK))"

text \<open>The end of \<open>DoFlushBuffer\<close>: flush the CPU cache for a CPU-written buffer, then the time stamp.\<close>

definition flush_finish :: "bq_env \<Rightarrow> int \<Rightarrow> buffer_flush_config \<Rightarrow> buffer_queue \<Rightarrow> gserror \<times> buffer_queue" where
  "flush_finish env s config q =
     (let e = cache_elem (disp env) s q;
          cpu = and (word_of_int (usage (econfig e)) :: 32 word) (HBM_USE_CPU_WRITE (disp env)) \<noteq> 0;
          sret = (if cpu then sb_FlushCache (driver env) (calls q) (the (deref q (ebuffer e)))
                  else GSERROR_OK);
          q = (if cpu then q\<lparr>calls := calls q + 1\<rparr> else q)
      in if cpu \<and> gs_ne sret GSERROR_OK then (sret, q)
         else if timestamp config = 0 then
           (GSERROR_OK, cache_write (disp env) s
              (\<lambda>e. e\<lparr>etimestamp := now_usec env (calls q)\<rparr>) (q\<lparr>calls := calls q + 1\<rparr>))
         else
           (GSERROR_OK, cache_write (disp env) s (\<lambda>e. e\<lparr>etimestamp := timestamp config\<rparr>) q))"

definition DoFlushBuffer ::
    "bq_env \<Rightarrow> int \<Rightarrow> extra_ref \<Rightarrow> fence_ref \<Rightarrow> buffer_flush_config \<Rightarrow> buffer_queue \<Rightarrow>
     bq_fault + gserror \<times> buffer_queue" where
  "DoFlushBuffer env s bd fence config q =
     (let q = cache_touch (disp env) s q
      in if isDeleting (cache_elem (disp env) s q) then Inr (GSERROR_OK, DeleteBufferInCache s q)
         else
           (let q = cache_write (disp env) s (\<lambda>e. e\<lparr>estate := BUFFER_STATE_FLUSHED\<rparr>) q;
                q = q\<lparr>dirtyList := dirtyList q @ [s]\<rparr>
            in case set_extra (ebuffer (cache_elem (disp env) s q)) bd q of
                 None \<Rightarrow> Inl NullDeref
               | Some q \<Rightarrow>
                   Inr (flush_finish env s config
                     (cache_write (disp env) s (\<lambda>e. e\<lparr>efence := fence, edamage := damage config\<rparr>) q))))"

text \<open>
  \<open>FlushBuffer\<close>: the checking section, then \<open>CancelBuffer\<close> or \<open>DoFlushBuffer\<close>, which lock again.
  \<open>gap\<close> is what other threads do to the queue between the two; \<open>bq_FlushBuffer\<close> is the call that
  nobody interrupts.
\<close>

definition bq_FlushBuffer_gap ::
    "bq_env \<Rightarrow> (buffer_queue \<Rightarrow> buffer_queue) \<Rightarrow> int \<Rightarrow> extra_ref \<Rightarrow> fence_ref \<Rightarrow> buffer_flush_config \<Rightarrow>
     buffer_queue \<Rightarrow> bq_fault + gserror \<times> buffer_queue" where
  "bq_FlushBuffer_gap env gap s bd fence config q =
     (let sret = CheckFlushConfig config
      in if gs_ne sret GSERROR_OK then Inr (sret, q)
         else if flush_check s q \<noteq> GSERROR_OK then Inr (flush_check s q, q)
         else
           (let q = gap q
            in if listener q = None \<and> listenerClazz q = None then
                 (case bq_CancelBuffer env s bd q of
                    Inl f \<Rightarrow> Inl f
                  | Inr (_, q) \<Rightarrow> Inr (GSERROR_NO_CONSUMER, q))
               else
                 (case DoFlushBuffer env s bd fence config q of
                    Inl f \<Rightarrow> Inl f
                  | Inr (sret, q) \<Rightarrow>
                      (if gs_ne sret GSERROR_OK then Inr (sret, q)
                       else Inr (sret, emit BufferAvailable q)))))"

definition bq_FlushBuffer ::
    "bq_env \<Rightarrow> int \<Rightarrow> extra_ref \<Rightarrow> fence_ref \<Rightarrow> buffer_flush_config \<Rightarrow> buffer_queue \<Rightarrow>
     bq_fault + gserror \<times> buffer_queue" where
  "bq_FlushBuffer env = bq_FlushBuffer_gap env id"

section \<open>Consumer side\<close>

definition bq_AcquireBuffer ::
    "bq_env \<Rightarrow> buffer_queue \<Rightarrow> bq_fault + gserror \<times> (buffer_ref \<times> fence_ref \<times> int \<times> rect) option \<times> buffer_queue" where
  "bq_AcquireBuffer env q =
     (let (ret, buf, q) = PopFromDirtyList (disp env) q
      in if gs_eq ret GSERROR_OK then
           (case deref q buf of None \<Rightarrow> Inl NullDeref
            | Some sb \<Rightarrow>
                (let s = sequenceNumber sb;
                     q = cache_write (disp env) s (\<lambda>e. e\<lparr>estate := BUFFER_STATE_ACQUIRED\<rparr>) q;
                     e = cache_elem (disp env) s q
                 in Inr (ret, Some (buf, efence e, etimestamp e, edamage e), q)))
         else Inr (ret, None, q))"

text \<open>
  \<open>ReleaseBuffer\<close>: the checking section, the callback outside the lock, the second section.
  \<open>gap\<close> is what other threads do to the queue before the second section.
\<close>

definition release_check :: "int \<Rightarrow> buffer_queue \<Rightarrow> gserror" where
  "release_check s q =
     (case map_of (bufferQueueCache q) s of
        None \<Rightarrow> GSERROR_NO_ENTRY
      | Some e \<Rightarrow>
          (if \<not> isShared q \<and> estate e \<noteq> BUFFER_STATE_ACQUIRED \<and> estate e \<noteq> BUFFER_STATE_ATTACHED
           then GSERROR_NO_ENTRY else GSERROR_OK))"

definition release_commit :: "bq_env \<Rightarrow> int \<Rightarrow> fence_ref \<Rightarrow> buffer_queue \<Rightarrow> buffer_queue" where
  "release_commit env s fence q =
     (let q = cache_write (disp env) s (\<lambda>e. e\<lparr>estate := BUFFER_STATE_RELEASED, efence := fence\<rparr>) q;
          q = (if isDeleting (cache_elem (disp env) s q) then DeleteBufferInCache s q
               else q\<lparr>freeList := freeList q @ [s]\<rparr>)
      in emit NotifyAll q)"

definition bq_ReleaseBuffer_gap ::
    "bq_env \<Rightarrow> (buffer_queue \<Rightarrow> buffer_queue) \<Rightarrow> buffer_ref \<Rightarrow> fence_ref \<Rightarrow> buffer_queue \<Rightarrow> gserror \<times> buffer_queue" where
  "bq_ReleaseBuffer_gap env gap buffer fence q =
     (case deref q buffer of None \<Rightarrow> (GSERROR_INVALID_ARGUMENTS, q)
      | Some sb \<Rightarrow>
        (let s = sequenceNumber sb
         in if release_check s q \<noteq> GSERROR_OK then (release_check s q, q)
            else
              (let q = gap q
               in case onBufferRelease q of
                    Some cb \<Rightarrow>
                      (let sret = releaseAnswer env cb (the buffer)
                       in if gs_eq sret GSERROR_OK then (sret, q)
                          else (GSERROR_OK, release_commit env s fence q))
                  | None \<Rightarrow> (GSERROR_OK, release_commit env s fence q))))"

definition bq_ReleaseBuffer :: "bq_env \<Rightarrow> buffer_ref \<Rightarrow> fence_ref \<Rightarrow> buffer_queue \<Rightarrow> gserror \<times> buffer_queue" where
  "bq_ReleaseBuffer env = bq_ReleaseBuffer_gap env id"

text \<open>
  \<open>AttachBuffer\<close> holds \<open>mutex_\<close> from its checks on, also when it calls \<open>DeleteBuffers\<close>.
\<close>

definition bq_AttachBuffer :: "bq_env \<Rightarrow> buffer_ref \<Rightarrow> buffer_queue \<Rightarrow> bq_fault + gserror \<times> buffer_queue" where
  "bq_AttachBuffer env buffer q =
     (if isShared q then Inr (GSERROR_INVALID_OPERATING, q)
      else case deref q buffer of None \<Rightarrow> Inr (GSERROR_INVALID_ARGUMENTS, q)
      | Some sb \<Rightarrow> lock_guard False
        (let ele = \<lparr>ebuffer = buffer, estate = BUFFER_STATE_ATTACHED, isDeleting = False,
                econfig = (default_config (disp env))
                  \<lparr>width := sb_GetWidth sb, height := sb_GetHeight sb, strideAlignment := 8,
                   format := sb_GetFormat sb, usage := sint (word_of_int (sb_GetUsage sb) :: 32 word),
                   timeout := 0\<rparr>,
                efence = None, etimestamp = 0,
                edamage = \<lparr>rx = 0, ry = 0, rw = sb_GetWidth sb, rh = sb_GetHeight sb\<rparr>\<rparr>;
             s = sequenceNumber sb;
             usedSize = sint (GetUsedSize q);
             qsize = sint (GetQueueSize q)
         in if usedSize \<ge> qsize then
              (let freeSize = sint (word_of_nat (length (dirtyList q) + length (freeList q)) :: 32 word)
               in if freeSize \<ge> usedSize - qsize + 1 then
                    (case DeleteBuffers True (usedSize - qsize + 1) q of
                       Inl f \<Rightarrow> Inl f
                     | Inr q \<Rightarrow> Inr (GSERROR_OK, q\<lparr>bufferQueueCache := om_put s ele (bufferQueueCache q)\<rparr>))
                  else Inr (GSERROR_OUT_OF_RANGE, q))
            else Inr (GSERROR_OK, q\<lparr>bufferQueueCache := om_put s ele (bufferQueueCache q)\<rparr>)))"

definition bq_DetachBuffer :: "buffer_ref \<Rightarrow> buffer_queue \<Rightarrow> gserror \<times> buffer_queue" where
  "bq_DetachBuffer buffer q =
     (if isShared q then (GSERROR_INVALID_OPERATING, q)
      else case deref q buffer of None \<Rightarrow> (GSERROR_INVALID_ARGUMENTS, q)
      | Some sb \<Rightarrow>
        (let s = sequenceNumber sb
         in case map_of (bufferQueueCache q) s of
              None \<Rightarrow> (GSERROR_NO_ENTRY, q)
            | Some e \<Rightarrow>
                (if estate e \<noteq> BUFFER_STATE_REQUESTED \<and> estate e \<noteq> BUFFER_STATE_ACQUIRED
                 then (GSERROR_NO_ENTRY, q)
                 else
                   (let q = (if onBufferDelete q \<noteq> None then emit (BufferDeleted s) q else q)
                    in (GSERROR_OK, q\<lparr>bufferQueueCache := om_del s (bufferQueueCache q)\<rparr>)))))"

section \<open>Settings\<close>

definition bq_SetQueueSize :: "32 word \<Rightarrow> buffer_queue \<Rightarrow> gserror \<times> buffer_queue" where
  "bq_SetQueueSize n q =
     (if isShared q \<and> n \<noteq> 1 then (GSERROR_INVALID_ARGUMENTS, q)
      else if n \<le> 0 then (GSERROR_INVALID_ARGUMENTS, q)
      else if n > SURFACE_MAX_QUEUE_SIZE then (GSERROR_INVALID_ARGUMENTS, q)
      else
        (case DeleteBuffers False (sint (queueSize q - n)) q of
           Inl _ \<Rightarrow> (GSERROR_OK, q) \<comment> \<open>not reached: the lock is not held\<close>
         | Inr q \<Rightarrow> (GSERROR_OK, q\<lparr>queueSize := n\<rparr>)))"

definition bq_GetName :: "buffer_queue \<Rightarrow> gserror \<times> string" where
  "bq_GetName q = (GSERROR_OK, qname q)"

definition bq_RegisterConsumerListener :: "nat option \<Rightarrow> buffer_queue \<Rightarrow> gserror \<times> buffer_queue" where
  "bq_RegisterConsumerListener l q = (GSERROR_OK, q\<lparr>listener := l\<rparr>)"

definition bq_RegisterConsumerListenerClazz :: "nat option \<Rightarrow> buffer_queue \<Rightarrow> gserror \<times> buffer_queue" where
  "bq_RegisterConsumerListenerClazz l q = (GSERROR_OK, q\<lparr>listenerClazz := l\<rparr>)"

definition bq_UnregisterConsumerListener :: "buffer_queue \<Rightarrow> gserror \<times> buffer_queue" where
  "bq_UnregisterConsumerListener q = (GSERROR_OK, q\<lparr>listener := None, listenerClazz := None\<rparr>)"

definition bq_RegisterReleaseListener :: "nat option \<Rightarrow> buffer_queue \<Rightarrow> gserror \<times> buffer_queue" where
  "bq_RegisterReleaseListener cb q = (GSERROR_OK, q\<lparr>onBufferRelease := cb\<rparr>)"

definition bq_RegisterDeleteBufferListener :: "nat option \<Rightarrow> buffer_queue \<Rightarrow> gserror \<times> buffer_queue" where
  "bq_RegisterDeleteBufferListener cb q =
     (if onBufferDelete q \<noteq> None then (GSERROR_OK, q) else (GSERROR_OK, q\<lparr>onBufferDelete := cb\<rparr>))"

definition bq_SetDefaultWidthAndHeight :: "int \<Rightarrow> int \<Rightarrow> buffer_queue \<Rightarrow> gserror \<times> buffer_queue" where
  "bq_SetDefaultWidthAndHeight w h q =
     (if w \<le> 0 then (GSERROR_INVALID_ARGUMENTS, q)
      else if h \<le> 0 then (GSERROR_INVALID_ARGUMENTS, q)
      else (GSERROR_OK, q\<lparr>defaultWidth := w, defaultHeight := h\<rparr>))"

definition bq_SetDefaultUsage :: "32 word \<Rightarrow> buffer_queue \<Rightarrow> gserror \<times> buffer_queue" where
  "bq_SetDefaultUsage u q = (GSERROR_OK, q\<lparr>defaultUsage := u\<rparr>)"

definition bq_SetTransform :: "int \<Rightarrow> buffer_queue \<Rightarrow> gserror \<times> buffer_queue" where
  "bq_SetTransform t q = (GSERROR_OK, q\<lparr>qtransform := t\<rparr>)"

definition bq_CleanCache :: "buffer_queue \<Rightarrow> gserror \<times> buffer_queue" where
  "bq_CleanCache q =
     (let q = (if onBufferDelete q \<noteq> None
               then q\<lparr>events := events q @ map (\<lambda>p. BufferDeleted (fst p)) (bufferQueueCache q)\<rparr> else q);
          q = q\<lparr>bufferQueueCache := [], freeList := [], dirtyList := [], deletingList := []\<rparr>
      in (GSERROR_OK, emit NotifyAll q))"

record verify_alloc_info =
  vwidth :: "32 word"
  vheight :: "32 word"
  vusage :: "64 word"
  vformat :: int

text \<open>\<open>BufferManager::IsSupportedAlloc\<close> (once the manager is initialised), which the queue calls.\<close>

definition IsSupportedAlloc :: "display_consts \<Rightarrow> verify_alloc_info list \<Rightarrow> gserror \<times> bool list" where
  "IsSupportedAlloc k infos =
     (GSERROR_OK, map (\<lambda>i. vformat i = PIXEL_FMT_RGBA_8888 k \<or> vformat i = PIXEL_FMT_YCRCB_420_SP k) infos)"

end
