(* ===== verification/Buffer_Queue_Inv.thy ===== *)
theory Buffer_Queue_Inv
  imports Buffer_Queue
begin

text \<open>
  The invariant of a \<open>BufferQueue\<close> that is not shared, and its preservation by every method.

  \<open>state_of q s\<close> is the state of the buffer with sequence number \<open>s\<close>. The invariant ties the
  two lists to the cache: \<open>freeList_\<close> holds exactly the released buffers and \<open>dirtyList_\<close>
  exactly the flushed ones, each once; every cache entry points to a live object with its
  own sequence number; the sizes stay within \<open>SURFACE_MAX_QUEUE_SIZE\<close>.
\<close>

named_theorems bqs \<open>how the elementary updates act on the invariant's parts\<close>

definition state_of :: "buffer_queue \<Rightarrow> int \<Rightarrow> buffer_state option" where
  "state_of q s = map_option estate (map_of (bufferQueueCache q) s)"

definition entries_ok :: "buffer_queue \<Rightarrow> bool" where
  "entries_ok q \<longleftrightarrow> (\<forall>s e. map_of (bufferQueueCache q) s = Some e \<longrightarrow>
     (\<exists>r. ebuffer e = Some r \<and> r < length (objs q) \<and> sequenceNumber (objs q ! r) = s))"

definition store_ok :: "buffer_queue \<Rightarrow> bool" where
  "store_ok q \<longleftrightarrow> (\<forall>sb \<in> set (objs q). sequenceNumber sb < seqCounter q)"

definition lists_ok :: "buffer_queue \<Rightarrow> bool" where
  "lists_ok q \<longleftrightarrow> distinct (freeList q) \<and> distinct (dirtyList q) \<and>
     set (freeList q) = {s. state_of q s = Some BUFFER_STATE_RELEASED} \<and>
     set (dirtyList q) = {s. state_of q s = Some BUFFER_STATE_FLUSHED}"

definition sizes_ok :: "buffer_queue \<Rightarrow> bool" where
  "sizes_ok q \<longleftrightarrow> 1 \<le> queueSize q \<and> queueSize q \<le> SURFACE_MAX_QUEUE_SIZE \<and>
     length (bufferQueueCache q) \<le> 32"

definition bq_inv :: "buffer_queue \<Rightarrow> bool" where
  "bq_inv q \<longleftrightarrow> \<not> isShared q \<and> om_wf (bufferQueueCache q) \<and> entries_ok q \<and> store_ok q \<and> lists_ok q \<and> sizes_ok q"

lemma bq_invD:
  assumes "bq_inv q"
  shows "\<not> isShared q" "om_wf (bufferQueueCache q)" "entries_ok q" "store_ok q" "lists_ok q" "sizes_ok q"
  using assms by (auto simp: bq_inv_def)

section \<open>Elementary facts\<close>

lemma om_has_state_of: "om_has s (bufferQueueCache q) \<longleftrightarrow> state_of q s \<noteq> None"
  by (simp add: om_has_def state_of_def)

lemma cache_elem_Some [bqs]: "map_of (bufferQueueCache q) s = Some e \<Longrightarrow> cache_elem k s q = e"
  by (simp add: cache_elem_def)

lemma cache_touch_present [bqs]: "map_of (bufferQueueCache q) s = Some e \<Longrightarrow> cache_touch k s q = q"
  by (simp add: cache_touch_def om_has_def)

lemma map_of_cache_write [simp]:
  "map_of (bufferQueueCache (cache_write k s f q)) = (map_of (bufferQueueCache q))(s \<mapsto> f (cache_elem k s q))"
  by (simp add: cache_write_def)

lemma cache_elem_write [simp]: "cache_elem k s (cache_write k s f q) = f (cache_elem k s q)"
  by (simp add: cache_elem_def)

lemma om_wf_cache_write [simp]: "om_wf (bufferQueueCache q) \<Longrightarrow> om_wf (bufferQueueCache (cache_write k s f q))"
  by (simp add: cache_write_def)

lemma state_of_cache_write: "state_of (cache_write k s f q) = (state_of q)(s \<mapsto> estate (f (cache_elem k s q)))"
  by (simp add: state_of_def fun_eq_iff)

lemma cache_write_fields [simp]:
  "objs (cache_write k s f q) = objs q" "seqCounter (cache_write k s f q) = seqCounter q"
  "freeList (cache_write k s f q) = freeList q" "dirtyList (cache_write k s f q) = dirtyList q"
  "deletingList (cache_write k s f q) = deletingList q" "queueSize (cache_write k s f q) = queueSize q"
  "isShared (cache_write k s f q) = isShared q" "calls (cache_write k s f q) = calls q"
  "onBufferDelete (cache_write k s f q) = onBufferDelete q" "listener (cache_write k s f q) = listener q"
  "listenerClazz (cache_write k s f q) = listenerClazz q"
  "onBufferRelease (cache_write k s f q) = onBufferRelease q"
  by (simp_all add: cache_write_def)

lemma emit_fields [simp]:
  "objs (emit ev q) = objs q" "seqCounter (emit ev q) = seqCounter q"
  "freeList (emit ev q) = freeList q" "dirtyList (emit ev q) = dirtyList q"
  "deletingList (emit ev q) = deletingList q" "queueSize (emit ev q) = queueSize q"
  "isShared (emit ev q) = isShared q" "bufferQueueCache (emit ev q) = bufferQueueCache q"
  "onBufferDelete (emit ev q) = onBufferDelete q" "listener (emit ev q) = listener q"
  "listenerClazz (emit ev q) = listenerClazz q" "onBufferRelease (emit ev q) = onBufferRelease q"
  "calls (emit ev q) = calls q"
  by (simp_all add: emit_def)

lemma length_cache_write:
  "om_wf (bufferQueueCache q) \<Longrightarrow> map_of (bufferQueueCache q) s = Some e \<Longrightarrow>
   length (bufferQueueCache (cache_write k s f q)) = length (bufferQueueCache q)"
  by (simp add: cache_write_def om.size_put)

text \<open>The invariant reads only some fields.\<close>

lemma bq_inv_cong:
  assumes "bufferQueueCache q' = bufferQueueCache q" "objs q' = objs q" "seqCounter q' = seqCounter q"
    "freeList q' = freeList q" "dirtyList q' = dirtyList q" "queueSize q' = queueSize q" "isShared q' = isShared q"
  shows "bq_inv q' = bq_inv q"
  using assms by (simp add: bq_inv_def entries_ok_def store_ok_def lists_ok_def sizes_ok_def state_of_def)

lemma bq_inv_emit [simp]: "bq_inv (emit ev q) = bq_inv q"
  by (rule bq_inv_cong) simp_all

lemma state_of_fields [simp]:
  "state_of (q\<lparr>freeList := fl\<rparr>) = state_of q" "state_of (q\<lparr>dirtyList := dl\<rparr>) = state_of q"
  "state_of (q\<lparr>deletingList := xl\<rparr>) = state_of q" "state_of (q\<lparr>calls := n\<rparr>) = state_of q"
  "state_of (q\<lparr>objs := os\<rparr>) = state_of q" "state_of (emit ev q) = state_of q"
  by (simp_all add: state_of_def fun_eq_iff)

lemma cache_elem_fields [simp]:
  "cache_elem k s (q\<lparr>freeList := fl\<rparr>) = cache_elem k s q" "cache_elem k s (q\<lparr>dirtyList := dl\<rparr>) = cache_elem k s q"
  "cache_elem k s (q\<lparr>deletingList := xl\<rparr>) = cache_elem k s q" "cache_elem k s (q\<lparr>calls := n\<rparr>) = cache_elem k s q"
  "cache_elem k s (q\<lparr>objs := os\<rparr>) = cache_elem k s q" "cache_elem k s (emit ev q) = cache_elem k s q"
  by (simp_all add: cache_elem_def)

lemma bq_inv_calls [simp]: "bq_inv (q\<lparr>calls := n\<rparr>) = bq_inv q"
  by (rule bq_inv_cong) simp_all

lemma used_word:
  assumes "length (bufferQueueCache q) \<le> 32"
  shows "unat (GetUsedSize q) = length (bufferQueueCache q)"
  using assms by (simp add: GetUsedSize_def unat_of_nat take_bit_nat_eq_self)

lemma used_word_inv: "bq_inv q \<Longrightarrow> unat (GetUsedSize q) = length (bufferQueueCache q)"
  by (rule used_word) (simp add: bq_inv_def sizes_ok_def)

lemma queueSize_unat: "bq_inv q \<Longrightarrow> 1 \<le> unat (queueSize q) \<and> unat (queueSize q) \<le> 32"
  by (auto simp: bq_inv_def sizes_ok_def SURFACE_MAX_QUEUE_SIZE_def word_le_nat_alt)

lemma used_ge_iff: "bq_inv q \<Longrightarrow> GetUsedSize q \<ge> GetQueueSize q \<longleftrightarrow> unat (queueSize q) \<le> length (bufferQueueCache q)"
  by (simp add: GetQueueSize_def word_le_nat_alt used_word_inv)

text \<open>Where a buffer is, given the invariant.\<close>

lemma inv_entry:
  assumes "bq_inv q" and "map_of (bufferQueueCache q) s = Some e"
  obtains r where "ebuffer e = Some r" "r < length (objs q)" "sequenceNumber (objs q ! r) = s"
    "deref q (ebuffer e) = Some (objs q ! r)"
  using assms by (fastforce simp: bq_inv_def entries_ok_def deref_def)

lemma inv_free_entry: "bq_inv q \<Longrightarrow> s \<in> set (freeList q) \<Longrightarrow>
   \<exists>e. map_of (bufferQueueCache q) s = Some e \<and> estate e = BUFFER_STATE_RELEASED"
  by (auto simp: bq_inv_def lists_ok_def state_of_def)

lemma inv_dirty_entry: "bq_inv q \<Longrightarrow> s \<in> set (dirtyList q) \<Longrightarrow>
   \<exists>e. map_of (bufferQueueCache q) s = Some e \<and> estate e = BUFFER_STATE_FLUSHED"
  by (auto simp: bq_inv_def lists_ok_def state_of_def)

lemma inv_disjoint: "bq_inv q \<Longrightarrow> \<not> (s \<in> set (freeList q) \<and> s \<in> set (dirtyList q))"
  using inv_free_entry inv_dirty_entry by fastforce

lemma inv_seq_bound: "bq_inv q \<Longrightarrow> map_of (bufferQueueCache q) s = Some e \<Longrightarrow> s < seqCounter q"
  by (fastforce simp: bq_inv_def entries_ok_def store_ok_def dest: nth_mem)

section \<open>The generic preservation lemma\<close>

text \<open>
  All methods but \<open>DeleteBuffers\<close> change one entry at a time: write an entry that keeps its
  buffer and move its number between the lists as its new state says.
\<close>

lemma inv_write:
  assumes inv: "bq_inv q" and e: "map_of (bufferQueueCache q) s = Some e"
    and buf: "ebuffer (f e) = ebuffer e"
    and free: "distinct fl" "set fl = (if estate (f e) = BUFFER_STATE_RELEASED then insert s (set (freeList q))
                                      else set (freeList q) - {s})"
    and dirty: "distinct dl" "set dl = (if estate (f e) = BUFFER_STATE_FLUSHED then insert s (set (dirtyList q))
                                      else set (dirtyList q) - {s})"
  shows "bq_inv ((cache_write k s f q)\<lparr>freeList := fl, dirtyList := dl\<rparr>)"
proof -
  let ?q = "(cache_write k s f q)\<lparr>freeList := fl, dirtyList := dl\<rparr>"
  have ce: "cache_elem k s q = e" using e by (rule cache_elem_Some)
  have st: "state_of ?q = (state_of q)(s \<mapsto> estate (f e))"
    by (simp add: state_of_def fun_eq_iff ce)
  have len: "length (bufferQueueCache ?q) = length (bufferQueueCache q)"
    using length_cache_write [OF bq_invD(2) [OF inv] e] by simp
  have "lists_ok ?q"
    using bq_invD(5) [OF inv] free dirty unfolding lists_ok_def st by auto
  moreover have "entries_ok ?q"
    using bq_invD(3) [OF inv] e buf by (auto simp: entries_ok_def ce)
  ultimately show ?thesis
    using inv len by (simp add: bq_inv_def store_ok_def sizes_ok_def)
qed

lemma inv_put_new:
  assumes inv: "bq_inv q" and new: "map_of (bufferQueueCache q) s = None"
    and buf: "ebuffer e = Some r" "r < length (objs q)" "sequenceNumber (objs q ! r) = s"
    and st: "estate e \<noteq> BUFFER_STATE_RELEASED" "estate e \<noteq> BUFFER_STATE_FLUSHED"
    and room: "length (bufferQueueCache q) < 32"
  shows "bq_inv (q\<lparr>bufferQueueCache := om_put s e (bufferQueueCache q)\<rparr>)"
proof -
  let ?q = "q\<lparr>bufferQueueCache := om_put s e (bufferQueueCache q)\<rparr>"
  have so: "state_of ?q = (state_of q)(s \<mapsto> estate e)"
    by (simp add: state_of_def fun_eq_iff)
  have "state_of q s = None" using new by (simp add: state_of_def)
  then have "lists_ok ?q"
    using bq_invD(5) [OF inv] st unfolding lists_ok_def so by auto
  moreover have "entries_ok ?q"
    using bq_invD(3) [OF inv] buf by (auto simp: entries_ok_def)
  moreover have "length (bufferQueueCache ?q) \<le> 32"
    using om.size_put_le [OF bq_invD(2) [OF inv], of s e] room by simp
  ultimately show ?thesis
    using inv by (simp add: bq_inv_def store_ok_def sizes_ok_def)
qed

lemma inv_del_entry:
  assumes inv: "bq_inv q"
    and "fl = freeList q \<and> s \<notin> set fl \<or> (distinct fl \<and> set fl = set (freeList q) - {s})"
    and "dl = dirtyList q \<and> s \<notin> set dl \<or> (distinct dl \<and> set dl = set (dirtyList q) - {s})"
  shows "bq_inv (q\<lparr>bufferQueueCache := om_del s (bufferQueueCache q), freeList := fl, dirtyList := dl\<rparr>)"
proof -
  let ?q = "q\<lparr>bufferQueueCache := om_del s (bufferQueueCache q), freeList := fl, dirtyList := dl\<rparr>"
  have so: "state_of ?q = (state_of q)(s := None)"
    by (simp add: state_of_def fun_eq_iff)
  have l: "lists_ok q" using inv by (rule bq_invD(5))
  have fl: "distinct fl \<and> set fl = set (freeList q) - {s}"
    using assms(2) l by (auto simp: lists_ok_def)
  have dl: "distinct dl \<and> set dl = set (dirtyList q) - {s}"
    using assms(3) l by (auto simp: lists_ok_def)
  have "lists_ok ?q"
    using l fl dl unfolding lists_ok_def so by auto
  moreover have "entries_ok ?q"
    using bq_invD(3) [OF inv] by (auto simp: entries_ok_def)
  moreover have "length (bufferQueueCache ?q) \<le> 32"
    using inv length_om_del_le [of s "bufferQueueCache q"] by (simp add: bq_inv_def sizes_ok_def)
  ultimately show ?thesis
    using inv by (simp add: bq_inv_def store_ok_def sizes_ok_def)
qed

lemma inv_objs_update:
  assumes "bq_inv q" and "r < length (objs q)" and "sequenceNumber sb = sequenceNumber (objs q ! r)"
  shows "bq_inv (q\<lparr>objs := (objs q)[r := sb]\<rparr>)"
proof -
  have seqs: "map sequenceNumber ((objs q)[r := sb]) = map sequenceNumber (objs q)"
    using assms(2,3) by (metis list_update_id map_update)
  have nth: "\<And>i. i < length (objs q) \<Longrightarrow> sequenceNumber ((objs q)[r := sb] ! i) = sequenceNumber (objs q ! i)"
    using seqs by (metis length_list_update nth_map)
  have "\<forall>b \<in> set ((objs q)[r := sb]). sequenceNumber b < seqCounter q"
  proof
    fix b assume "b \<in> set ((objs q)[r := sb])"
    then obtain i where i: "i < length (objs q)" "b = (objs q)[r := sb] ! i"
      by (auto simp: in_set_conv_nth)
    with nth assms(1) show "sequenceNumber b < seqCounter q"
      by (simp add: bq_inv_def store_ok_def)
  qed
  then have "store_ok (q\<lparr>objs := (objs q)[r := sb]\<rparr>)"
    by (simp add: store_ok_def)
  moreover have "entries_ok (q\<lparr>objs := (objs q)[r := sb]\<rparr>)"
    using bq_invD(3) [OF assms(1)] nth by (force simp: entries_ok_def)
  ultimately show ?thesis
    using assms(1) by (simp add: bq_inv_def sizes_ok_def lists_ok_def state_of_def)
qed

lemma set_extra_Some:
  assumes "bq_inv q" and "deref q r = Some sb"
  shows "\<exists>q'. set_extra r bd q = Some q' \<and> bq_inv q' \<and> bufferQueueCache q' = bufferQueueCache q \<and>
    freeList q' = freeList q \<and> dirtyList q' = dirtyList q \<and> q' = q\<lparr>objs := objs q'\<rparr>"
  using assms inv_objs_update [OF assms(1), of "the r" "sb_SetExtraData bd sb"]
  by (auto simp: set_extra_def deref_def split: option.splits if_splits)

lemma set_extra_fields:
  "set_extra r bd q = Some q' \<Longrightarrow> bufferQueueCache q' = bufferQueueCache q \<and> freeList q' = freeList q \<and>
     dirtyList q' = dirtyList q \<and> queueSize q' = queueSize q \<and> isShared q' = isShared q \<and> seqCounter q' = seqCounter q"
  by (auto simp: set_extra_def split: option.splits)

end
