(* ===== verification/Buffer_Queue_Ops.thy ===== *)
theory Buffer_Queue_Ops
  imports Buffer_Queue_Inv
begin

text \<open>
  Every method of \<open>BufferQueue\<close> keeps the invariant and, from a state that satisfies it, never
  dereferences a null buffer. The lemmas of a method also say which entry it changes.
\<close>

section \<open>Taking a buffer from the free list\<close>

lemma find_free_inv:
  assumes "bq_inv q" and "set xs \<subseteq> set (freeList q)"
  shows "snd (find_free k c xs q) = q \<and>
    (case fst (find_free k c xs q) of
       Some s \<Rightarrow> s \<in> set xs \<and> econfig (cache_elem k s q) = c
     | None \<Rightarrow> \<forall>s \<in> set xs. econfig (cache_elem k s q) \<noteq> c)"
  using assms(2)
proof (induction xs)
  case Nil
  then show ?case by simp
next
  case (Cons s xs)
  obtain e where "map_of (bufferQueueCache q) s = Some e"
    using inv_free_entry [OF assms(1), of s] Cons.prems by auto
  then have "cache_touch k s q = q" by (rule cache_touch_present)
  with Cons show ?case by (auto simp: Let_def split: option.splits)
qed

lemma PopFromFreeList_inv:
  assumes inv: "bq_inv q" and pop: "PopFromFreeList k c q = (ret, buf, q')"
  shows "freeList q = [] \<and> ret = GSERROR_NO_BUFFER \<and> buf = None \<and> q' = q \<or>
    (\<exists>s e. s \<in> set (freeList q) \<and> map_of (bufferQueueCache q) s = Some e \<and> ret = GSERROR_OK \<and>
       buf = ebuffer e \<and> q' = q\<lparr>freeList := erase1 s (freeList q)\<rparr> \<and>
       (econfig e = c \<or> (\<forall>s' \<in> set (freeList q). econfig (cache_elem k s' q) \<noteq> c)))"
proof -
  have ns: "\<not> isShared q" using inv by (rule bq_invD(1))
  note ff = find_free_inv [OF inv order_refl, of k c]
  show ?thesis
  proof (cases "fst (find_free k c (freeList q) q)")
    case None
    with ff have eq: "find_free k c (freeList q) q = (None, q)" by (metis prod.collapse)
    show ?thesis
    proof (cases "freeList q")
      case Nil
      with pop ns eq show ?thesis by (simp add: PopFromFreeList_def)
    next
      case (Cons s xs)
      then obtain e where "map_of (bufferQueueCache q) s = Some e"
        using inv_free_entry [OF inv, of s] by auto
      with Cons pop ns eq ff None show ?thesis
        by (auto simp: PopFromFreeList_def cache_touch_present cache_elem_Some Let_def)
    qed
  next
    case (Some s)
    with ff have eq: "find_free k c (freeList q) q = (Some s, q)" by (metis prod.collapse)
    from Some ff have s: "s \<in> set (freeList q)" and "econfig (cache_elem k s q) = c" by simp_all
    moreover obtain e where "map_of (bufferQueueCache q) s = Some e"
      using inv_free_entry [OF inv s] by auto
    ultimately show ?thesis
      using pop ns eq by (auto simp: PopFromFreeList_def cache_elem_Some)
  qed
qed

section \<open>Allocation\<close>

lemma fresh_seq: "bq_inv q \<Longrightarrow> map_of (bufferQueueCache q) (seqCounter q) = None"
  using inv_seq_bound by fastforce

lemma AllocBuffer_cases:
  assumes "AllocBuffer env c q = (ret, buf, q')"
  shows "\<exists>sb n. sequenceNumber sb = seqCounter q \<and>
    (gs_eq ret GSERROR_OK \<and> buf = Some (length (objs q)) \<and>
       q' = q\<lparr>seqCounter := seqCounter q + 1, objs := objs q @ [sb], calls := n,
             bufferQueueCache := om_put (seqCounter q)
               \<lparr>ebuffer = Some (length (objs q)), estate = BUFFER_STATE_REQUESTED, isDeleting = False,
                econfig = c, efence = INVALID_FENCE, etimestamp = 0, edamage = zero_rect\<rparr> (bufferQueueCache q)\<rparr> \<or>
     \<not> gs_eq ret GSERROR_OK \<and> buf = None \<and>
       q' = q\<lparr>seqCounter := seqCounter q + 1, objs := objs q @ [sb], calls := n\<rparr>)"
proof -
  let ?sb0 = "new_SurfaceBufferImpl_seq (disp env) (seqCounter q) (length (objs q))"
  obtain r1 sb1 where al: "sb_Alloc (driver env) (calls q) c ?sb0 = (r1, sb1)" by fastforce
  obtain r2 sb2 where mp: "sb_Map (driver env) (Suc (calls q)) sb1 = (r2, sb2)" by fastforce
  have s1: "sequenceNumber sb1 = seqCounter q"
    using sequenceNumber_Alloc [of "driver env" "calls q" c ?sb0] al by simp
  have s2: "sequenceNumber sb2 = seqCounter q"
    using sequenceNumber_Map [of "driver env" "Suc (calls q)" sb1] mp s1 by simp
  have "(objs q @ [sb1])[length (objs q) := sb2] = objs q @ [sb2]" by simp
  with assms al mp s1 s2 show ?thesis
    by (auto simp: AllocBuffer_def new_SurfaceBufferImpl_def Let_def split: if_splits)
qed

lemma bq_inv_new_object:
  assumes "bq_inv q" and "sequenceNumber sb = seqCounter q"
  shows "bq_inv (q\<lparr>seqCounter := seqCounter q + 1, objs := objs q @ [sb], calls := n\<rparr>)"
proof -
  let ?q = "q\<lparr>seqCounter := seqCounter q + 1, objs := objs q @ [sb], calls := n\<rparr>"
  have "store_ok ?q" using assms by (fastforce simp: bq_inv_def store_ok_def)
  moreover have "entries_ok ?q"
    using bq_invD(3) [OF assms(1)] by (fastforce simp: entries_ok_def nth_append)
  ultimately show ?thesis
    using assms(1) by (simp add: bq_inv_def sizes_ok_def lists_ok_def state_of_def)
qed

lemma AllocBuffer_inv:
  assumes inv: "bq_inv q" and al: "AllocBuffer env c q = (ret, buf, q')"
    and room: "length (bufferQueueCache q) < 32"
  shows "bq_inv q'"
proof -
  obtain sb n where sb: "sequenceNumber sb = seqCounter q" and
    cs: "gs_eq ret GSERROR_OK \<and> buf = Some (length (objs q)) \<and>
       q' = q\<lparr>seqCounter := seqCounter q + 1, objs := objs q @ [sb], calls := n,
             bufferQueueCache := om_put (seqCounter q)
               \<lparr>ebuffer = Some (length (objs q)), estate = BUFFER_STATE_REQUESTED, isDeleting = False,
                econfig = c, efence = INVALID_FENCE, etimestamp = 0, edamage = zero_rect\<rparr> (bufferQueueCache q)\<rparr> \<or>
     \<not> gs_eq ret GSERROR_OK \<and> buf = None \<and>
       q' = q\<lparr>seqCounter := seqCounter q + 1, objs := objs q @ [sb], calls := n\<rparr>"
    using AllocBuffer_cases [OF al] by blast
  let ?q0 = "q\<lparr>seqCounter := seqCounter q + 1, objs := objs q @ [sb], calls := n\<rparr>"
  have inv0: "bq_inv ?q0" using inv sb by (rule bq_inv_new_object)
  show ?thesis
  proof (cases "gs_eq ret GSERROR_OK")
    case False
    with cs inv0 show ?thesis by simp
  next
    case True
    let ?e = "\<lparr>ebuffer = Some (length (objs q)), estate = BUFFER_STATE_REQUESTED, isDeleting = False,
                econfig = c, efence = INVALID_FENCE, etimestamp = 0, edamage = zero_rect\<rparr>"
    have "bq_inv (?q0\<lparr>bufferQueueCache := om_put (seqCounter q) ?e (bufferQueueCache ?q0)\<rparr>)"
      by (rule inv_put_new [OF inv0, where r = "length (objs q)"])
        (use fresh_seq [OF inv] room sb in \<open>simp_all add: nth_append\<close>)
    with True cs show ?thesis by simp
  qed
qed

section \<open>Deleting entries\<close>

lemma DeleteBufferInCache_eq:
  "om_has s (bufferQueueCache q) \<Longrightarrow> DeleteBufferInCache s q =
     q\<lparr>bufferQueueCache := om_del s (bufferQueueCache q), deletingList := deletingList q @ [s],
       events := events q @ (if onBufferDelete q \<noteq> None then [BufferDeleted s] else [])\<rparr>"
  by (auto simp: DeleteBufferInCache_def emit_def Let_def)

lemma DeleteBufferInCache_absent: "\<not> om_has s (bufferQueueCache q) \<Longrightarrow> DeleteBufferInCache s q = q"
  by (simp add: DeleteBufferInCache_def)

lemma DeleteBufferInCache_fields [simp]:
  "freeList (DeleteBufferInCache s q) = freeList q" "dirtyList (DeleteBufferInCache s q) = dirtyList q"
  "objs (DeleteBufferInCache s q) = objs q" "seqCounter (DeleteBufferInCache s q) = seqCounter q"
  "queueSize (DeleteBufferInCache s q) = queueSize q" "isShared (DeleteBufferInCache s q) = isShared q"
  "bufferQueueCache (DeleteBufferInCache s q) = om_del s (bufferQueueCache q)"
  by (auto simp: DeleteBufferInCache_def emit_def Let_def om_has_def om_del_absent)

text \<open>
  One list loop of \<open>DeleteBuffers\<close>: it deletes a prefix of the list; what is left of the
  count is what was asked for minus the length of that prefix.
\<close>

lemma delete_loop_prefix:
  assumes "delete_loop xs count q = (c', rest, q')" and "0 < count"
  shows "\<exists>del. xs = del @ rest \<and> q' = fold DeleteBufferInCache del q \<and> c' = count - int (length del) \<and>
    (rest \<noteq> [] \<longrightarrow> c' \<le> 0) \<and> 0 \<le> c'"
  using assms
proof (induction xs arbitrary: count q)
  case Nil
  then show ?case by simp
next
  case (Cons s xs)
  show ?case
  proof (cases "count - 1 \<le> 0")
    case True
    with Cons.prems show ?thesis
      by (auto simp: Let_def intro!: exI [of _ "[s]"])
  next
    case False
    with Cons.prems have "delete_loop xs (count - 1) (DeleteBufferInCache s q) = (c', rest, q')"
      by (simp add: Let_def)
    with Cons.IH False obtain del where "xs = del @ rest" "q' = fold DeleteBufferInCache del (DeleteBufferInCache s q)"
      "c' = count - 1 - int (length del)" "rest \<noteq> [] \<longrightarrow> c' \<le> 0" "0 \<le> c'"
      by fastforce
    then show ?thesis by (auto intro!: exI [of _ "s # del"])
  qed
qed

lemma fold_Delete_fields [simp]:
  "freeList (fold DeleteBufferInCache del q) = freeList q" "dirtyList (fold DeleteBufferInCache del q) = dirtyList q"
  "objs (fold DeleteBufferInCache del q) = objs q" "queueSize (fold DeleteBufferInCache del q) = queueSize q"
  "seqCounter (fold DeleteBufferInCache del q) = seqCounter q" "isShared (fold DeleteBufferInCache del q) = isShared q"
  by (induction del arbitrary: q) auto

lemma Delete_freeList:
  "DeleteBufferInCache s (q\<lparr>freeList := fl\<rparr>) = (DeleteBufferInCache s q)\<lparr>freeList := fl\<rparr>"
  by (simp add: DeleteBufferInCache_def emit_def Let_def)

lemma fold_Delete_freeList:
  "fold DeleteBufferInCache ds (q\<lparr>freeList := fl\<rparr>) = (fold DeleteBufferInCache ds q)\<lparr>freeList := fl\<rparr>"
  by (induction ds arbitrary: q) (simp_all add: Delete_freeList)

lemma Delete_dirtyList:
  "DeleteBufferInCache s (q\<lparr>dirtyList := dl\<rparr>) = (DeleteBufferInCache s q)\<lparr>dirtyList := dl\<rparr>"
  by (simp add: DeleteBufferInCache_def emit_def Let_def)

lemma fold_Delete_dirtyList:
  "fold DeleteBufferInCache ds (q\<lparr>dirtyList := dl\<rparr>) = (fold DeleteBufferInCache ds q)\<lparr>dirtyList := dl\<rparr>"
  by (induction ds arbitrary: q) (simp_all add: Delete_dirtyList)

lemma fold_Delete_free:
  "bq_inv q \<Longrightarrow> freeList q = del @ rest \<Longrightarrow>
   bq_inv ((fold DeleteBufferInCache del q)\<lparr>freeList := rest\<rparr>)"
proof (induction del arbitrary: q)
  case Nil
  then have "rest = freeList q" by simp
  with Nil show ?case by simp
next
  case (Cons s del)
  let ?q = "(DeleteBufferInCache s q)\<lparr>freeList := del @ rest\<rparr>"
  have dis: "distinct (s # del @ rest)"
    using bq_invD(5) [OF Cons.prems(1)] Cons.prems(2) by (simp add: lists_ok_def)
  have sd: "s \<notin> set (dirtyList q)"
    using inv_disjoint [OF Cons.prems(1), of s] Cons.prems(2) by auto
  have "bq_inv (q\<lparr>bufferQueueCache := om_del s (bufferQueueCache q), freeList := del @ rest, dirtyList := dirtyList q\<rparr>)"
    by (rule inv_del_entry [OF Cons.prems(1)]) (use dis sd Cons.prems(2) in auto)
  moreover have "bq_inv ?q = bq_inv (q\<lparr>bufferQueueCache := om_del s (bufferQueueCache q), freeList := del @ rest, dirtyList := dirtyList q\<rparr>)"
    by (rule bq_inv_cong) simp_all
  ultimately have inv: "bq_inv ?q" by simp
  from Cons.IH [OF inv] show ?case by (simp add: fold_Delete_freeList)
qed

lemma fold_Delete_dirty:
  "bq_inv q \<Longrightarrow> dirtyList q = del @ rest \<Longrightarrow>
   bq_inv ((fold DeleteBufferInCache del q)\<lparr>dirtyList := rest\<rparr>)"
proof (induction del arbitrary: q)
  case Nil
  then have "rest = dirtyList q" by simp
  with Nil show ?case by simp
next
  case (Cons s del)
  let ?q = "(DeleteBufferInCache s q)\<lparr>dirtyList := del @ rest\<rparr>"
  have dis: "distinct (s # del @ rest)"
    using bq_invD(5) [OF Cons.prems(1)] Cons.prems(2) by (simp add: lists_ok_def)
  have sd: "s \<notin> set (freeList q)"
    using inv_disjoint [OF Cons.prems(1), of s] Cons.prems(2) by auto
  have "bq_inv (q\<lparr>bufferQueueCache := om_del s (bufferQueueCache q), freeList := freeList q, dirtyList := del @ rest\<rparr>)"
    by (rule inv_del_entry [OF Cons.prems(1)]) (use dis sd Cons.prems(2) in auto)
  moreover have "bq_inv ?q = bq_inv (q\<lparr>bufferQueueCache := om_del s (bufferQueueCache q), freeList := freeList q, dirtyList := del @ rest\<rparr>)"
    by (rule bq_inv_cong) simp_all
  ultimately have inv: "bq_inv ?q" by simp
  from Cons.IH [OF inv] show ?case by (simp add: fold_Delete_dirtyList)
qed

end
