(* ===== verification/Buffer_Queue_Methods.thy ===== *)
theory Buffer_Queue_Methods
  imports Buffer_Queue_Ops
begin

text \<open>Preservation of the invariant by the public methods of \<open>BufferQueue\<close>, one lemma each.\<close>

section \<open>\<open>DeleteBuffers\<close> and \<open>SetQueueSize\<close>\<close>

lemma mark_deleting_keys [simp]: "map fst (mark_deleting c m) = map fst m"
  by (induction c m rule: mark_deleting.induct) auto

lemma mark_deleting_length [simp]: "length (mark_deleting c m) = length m"
  by (induction c m rule: mark_deleting.induct) auto

lemma mark_deleting_map_of:
  "map_of (mark_deleting c m) s = None \<longleftrightarrow> map_of m s = None"
  by (metis mark_deleting_keys map_of_eq_None_iff list.set_map)

lemma mark_deleting_entry:
  "map_of (mark_deleting c m) s = Some e' \<Longrightarrow> \<exists>e. map_of m s = Some e \<and> ebuffer e' = ebuffer e \<and> estate e' = estate e \<and> econfig e' = econfig e"
  by (induction c m rule: mark_deleting.induct) (auto split: if_splits)

lemma mark_deleting_state: "map_option estate (map_of (mark_deleting c m) s) = map_option estate (map_of m s)"
  by (cases "map_of (mark_deleting c m) s")
    (auto simp: mark_deleting_map_of dest: mark_deleting_entry)

lemma bq_inv_mark:
  assumes "bq_inv q"
  shows "bq_inv (q\<lparr>bufferQueueCache := mark_deleting c (bufferQueueCache q)\<rparr>)"
proof -
  let ?q = "q\<lparr>bufferQueueCache := mark_deleting c (bufferQueueCache q)\<rparr>"
  have "state_of ?q = state_of q"
    by (simp add: state_of_def fun_eq_iff mark_deleting_state)
  moreover have "entries_ok ?q"
    using bq_invD(3) [OF assms] by (fastforce simp: entries_ok_def dest: mark_deleting_entry)
  moreover have "om_wf (mark_deleting c (bufferQueueCache q))"
    using bq_invD(2) [OF assms] by (simp add: om_wf_def)
  ultimately show ?thesis
    using assms by (simp add: bq_inv_def store_ok_def sizes_ok_def lists_ok_def)
qed

lemma delete_locked_inv:
  assumes inv: "bq_inv q"
    and False: "\<not> count \<le> 0"
  shows "bq_inv (delete_locked count q) \<and> queueSize (delete_locked count q) = queueSize q"
proof -
  obtain c1 free q1 where l1: "delete_loop (freeList q) count q = (c1, free, q1)" by (metis prod_cases3)
  from delete_loop_prefix [OF l1] False obtain del1 where
    d1: "freeList q = del1 @ free" "q1 = fold DeleteBufferInCache del1 q" by fastforce
  let ?q1 = "q1\<lparr>freeList := free\<rparr>"
  have i1: "bq_inv ?q1" using fold_Delete_free [OF inv d1(1)] d1(2) by simp
  have s1: "queueSize q1 = queueSize q" using d1(2) by simp
  show ?thesis
  proof (cases "c1 \<le> 0")
    case True
    with i1 s1 l1 show ?thesis by (simp add: delete_locked_def Let_def)
  next
    case c1: False
    obtain c2 dirty q2 where l2: "delete_loop (dirtyList ?q1) c1 ?q1 = (c2, dirty, q2)" by (metis prod_cases3)
    from delete_loop_prefix [OF l2] c1 obtain del2 where
      d2: "dirtyList ?q1 = del2 @ dirty" "q2 = fold DeleteBufferInCache del2 ?q1" by fastforce
    have i2: "bq_inv (q2\<lparr>dirtyList := dirty\<rparr>)" using fold_Delete_dirty [OF i1 d2(1)] d2(2) by simp
    have s2: "queueSize q2 = queueSize q" using d2(2) s1 by simp
    have "delete_locked count q = (if c2 \<le> 0 then q2\<lparr>dirtyList := dirty\<rparr>
        else (q2\<lparr>dirtyList := dirty\<rparr>)\<lparr>bufferQueueCache := mark_deleting c2 (bufferQueueCache (q2\<lparr>dirtyList := dirty\<rparr>))\<rparr>)"
      using l1 l2 c1 by (simp add: delete_locked_def Let_def)
    with i2 bq_inv_mark [OF i2, of c2] s2 show ?thesis by simp
  qed
qed

text \<open>
  What the loops delete: the entries of a prefix of each list. The entries left are the same
  but for the mark \<open>isDeleting\<close>.
\<close>

definition unmark :: "buffer_element \<Rightarrow> buffer_element" where
  "unmark e = e\<lparr>isDeleting := False\<rparr>"

lemma unmark_fields: "unmark e = unmark e' \<Longrightarrow> ebuffer e = ebuffer e' \<and> estate e = estate e' \<and>
    efence e = efence e' \<and> edamage e = edamage e' \<and> etimestamp e = etimestamp e'"
  by (cases e; cases e') (simp add: unmark_def)

lemma unmark_state: "map_option unmark a = map_option unmark b \<Longrightarrow> map_option estate a = map_option estate b"
  by (cases a; cases b) (auto dest: unmark_fields)

lemma mark_deleting_unmark: "map_option unmark (map_of (mark_deleting c m) s) = map_option unmark (map_of m s)"
  by (induction c m rule: mark_deleting.induct) (auto simp: unmark_def)

lemma map_of_fold_Delete:
  "map_of (bufferQueueCache (fold DeleteBufferInCache del q)) t =
    (if t \<in> set del then None else map_of (bufferQueueCache q) t)"
  by (induction del arbitrary: q) auto

lemma delete_locked_effect:
  assumes pos: "0 < count"
  shows "\<exists>del1 del2. freeList q = del1 @ freeList (delete_locked count q) \<and>
    dirtyList q = del2 @ dirtyList (delete_locked count q) \<and>
    (\<forall>s. map_option unmark (map_of (bufferQueueCache (delete_locked count q)) s) =
       (if s \<in> set del1 \<union> set del2 then None else map_option unmark (map_of (bufferQueueCache q) s)))"
proof -
  obtain c1 free q1 where l1: "delete_loop (freeList q) count q = (c1, free, q1)" by (metis prod_cases3)
  from delete_loop_prefix [OF l1 pos] obtain del1 where
    d1: "freeList q = del1 @ free" "q1 = fold DeleteBufferInCache del1 q" by blast
  show ?thesis
  proof (cases "c1 \<le> 0")
    case True
    then have "delete_locked count q = q1\<lparr>freeList := free\<rparr>" using l1 by (simp add: delete_locked_def Let_def)
    with d1 show ?thesis
      by (intro exI [of _ del1] exI [of _ "[]"]) (simp add: map_of_fold_Delete)
  next
    case c1: False
    let ?q1 = "q1\<lparr>freeList := free\<rparr>"
    obtain c2 dirty q2 where l2: "delete_loop (dirtyList ?q1) c1 ?q1 = (c2, dirty, q2)" by (metis prod_cases3)
    from delete_loop_prefix [OF l2] c1 obtain del2 where
      d2: "dirtyList ?q1 = del2 @ dirty" "q2 = fold DeleteBufferInCache del2 ?q1" by fastforce
    have r: "delete_locked count q = (if c2 \<le> 0 then q2\<lparr>dirtyList := dirty\<rparr>
        else (q2\<lparr>dirtyList := dirty\<rparr>)\<lparr>bufferQueueCache := mark_deleting c2 (bufferQueueCache q2)\<rparr>)"
      using l1 l2 c1 by (simp add: delete_locked_def Let_def)
    have "map_option unmark (map_of (bufferQueueCache (delete_locked count q)) s) =
        map_option unmark (map_of (bufferQueueCache q2) s)" for s
      unfolding r by (simp add: mark_deleting_unmark)
    moreover have "map_of (bufferQueueCache q2) s =
        (if s \<in> set del1 \<union> set del2 then None else map_of (bufferQueueCache q) s)" for s
      using d1(2) d2(2) by (simp add: map_of_fold_Delete)
    moreover have "freeList (delete_locked count q) = free" "dirtyList (delete_locked count q) = dirty"
      unfolding r using d2(2) by simp_all
    ultimately show ?thesis using d1 d2(1) by (intro exI [of _ del1] exI [of _ del2]) simp
  qed
qed

lemma DeleteBuffers_inv: "bq_inv q \<Longrightarrow> DeleteBuffers held count q = Inr q' \<Longrightarrow> bq_inv q' \<and> queueSize q' = queueSize q"
  using delete_locked_inv [of q count] by (auto simp: DeleteBuffers_def lock_guard_def split: if_splits)

lemma DeleteBuffers_unlocked:
  "DeleteBuffers False count q = Inr (if count \<le> 0 then q else delete_locked count q)"
  by (simp add: DeleteBuffers_def lock_guard_def)

text \<open>The result of \<open>SetQueueSize\<close>, which does not hold the lock.\<close>

lemma SetQueueSize_eq:
  "bq_SetQueueSize n q =
     (if isShared q \<and> n \<noteq> 1 \<or> n \<le> 0 \<or> n > SURFACE_MAX_QUEUE_SIZE then (GSERROR_INVALID_ARGUMENTS, q)
      else (GSERROR_OK, (if sint (queueSize q - n) \<le> 0 then q
                         else delete_locked (sint (queueSize q - n)) q)\<lparr>queueSize := n\<rparr>))"
  by (simp add: bq_SetQueueSize_def DeleteBuffers_unlocked)

lemma SetQueueSize_inv:
  assumes "bq_inv q" and "bq_SetQueueSize n q = (ret, q')"
  shows "bq_inv q'"
proof -
  have resize: "bq_inv (r\<lparr>queueSize := n\<rparr>)" if r: "bq_inv r" and n: "0 < n" "n \<le> SURFACE_MAX_QUEUE_SIZE" for r
  proof -
    have "1 \<le> n" using n(1) by (simp add: word_le_nat_alt word_less_nat_alt)
    with r n(2) show ?thesis
      by (simp add: bq_inv_def sizes_ok_def store_ok_def entries_ok_def lists_ok_def state_of_def)
  qed
  let ?r = "if sint (queueSize q - n) \<le> 0 then q else delete_locked (sint (queueSize q - n)) q"
  have "0 < n \<and> n \<le> SURFACE_MAX_QUEUE_SIZE \<and> q' = ?r\<lparr>queueSize := n\<rparr> \<or> q' = q"
    using assms(2) unfolding SetQueueSize_eq by (auto simp: word_gt_0 not_le not_less split: if_splits)
  moreover have "bq_inv ?r" using assms(1) delete_locked_inv [OF assms(1)] by simp
  ultimately show ?thesis using resize assms(1) by blast
qed

section \<open>Requesting\<close>

text \<open>The common end of \<open>ReuseBuffer\<close> for an entry that has just left the free list.\<close>

lemma reuse_write_inv:
  assumes inv: "bq_inv q" and s: "s \<in> set (freeList q)" and e: "map_of (bufferQueueCache q) s = Some e"
  shows "bq_inv ((cache_write k s (\<lambda>e. e\<lparr>estate := BUFFER_STATE_REQUESTED\<rparr>) (q\<lparr>freeList := erase1 s (freeList q)\<rparr>))
                   \<lparr>deletingList := dl\<rparr>)"
proof -
  have l: "lists_ok q" using inv by (rule bq_invD(5))
  have "s \<notin> set (dirtyList q)" using inv_disjoint [OF inv, of s] s by blast
  then have "bq_inv ((cache_write k s (\<lambda>e. e\<lparr>estate := BUFFER_STATE_REQUESTED\<rparr>) q)
                \<lparr>freeList := erase1 s (freeList q), dirtyList := dirtyList q\<rparr>)"
    by (intro inv_write [OF inv e]) (use l in \<open>auto simp: lists_ok_def\<close>)
  moreover have "bq_inv ((cache_write k s (\<lambda>e. e\<lparr>estate := BUFFER_STATE_REQUESTED\<rparr>) (q\<lparr>freeList := erase1 s (freeList q)\<rparr>))
                   \<lparr>deletingList := dl\<rparr>) =
      bq_inv ((cache_write k s (\<lambda>e. e\<lparr>estate := BUFFER_STATE_REQUESTED\<rparr>) q)
                \<lparr>freeList := erase1 s (freeList q), dirtyList := dirtyList q\<rparr>)"
    by (rule bq_inv_cong) (simp_all add: cache_write_def cache_elem_def)
  ultimately show ?thesis by simp
qed

text \<open>
  What \<open>ReuseBuffer\<close> promises for a buffer taken from the free list: it does not fault; the
  invariant holds again; on success the entry returned is requested with the wanted
  configuration, and no other entry appears. It holds the buffer given, or the buffer it held
  before when none is given; a buffer reported as deleted was reported as such or is gone now.
\<close>

definition request_post :: "buffer_request_config \<Rightarrow> buffer_queue \<Rightarrow> gserror \<Rightarrow> request_retval \<Rightarrow> buffer_queue \<Rightarrow> bool" where
  "request_post c q ret rv q' \<longleftrightarrow> bq_inv q' \<and> queueSize q' = queueSize q \<and>
     (gs_eq ret GSERROR_OK \<longrightarrow>
        (\<exists>e. map_of (bufferQueueCache q') (rsequence rv) = Some e \<and> estate e = BUFFER_STATE_REQUESTED \<and> econfig e = c) \<and>
        (state_of q (rsequence rv) = Some BUFFER_STATE_RELEASED \<or> state_of q (rsequence rv) = None) \<and>
        (if rbuffer rv = None
         then map_option ebuffer (map_of (bufferQueueCache q') (rsequence rv)) =
              map_option ebuffer (map_of (bufferQueueCache q) (rsequence rv))
         else map_option ebuffer (map_of (bufferQueueCache q') (rsequence rv)) = Some (rbuffer rv) \<and>
              rsequence rv = seqCounter q) \<and>
        (\<forall>d \<in> set (rdeletingBuffers rv). d \<in> set (deletingList q) \<or> map_of (bufferQueueCache q') d = None)) \<and>
     dirtyList q' = dirtyList q \<and>
     (\<forall>s. \<not> (gs_eq ret GSERROR_OK \<and> s = rsequence rv) \<longrightarrow> map_of (bufferQueueCache q') s = map_of (bufferQueueCache q) s \<or>
        (state_of q s = Some BUFFER_STATE_RELEASED \<and> map_of (bufferQueueCache q') s = None))"

lemma request_post_alloc:
  assumes inv: "bq_inv q" and room: "length (bufferQueueCache q) < 32"
    and res: "request_alloc env c q = res"
  shows "\<exists>ret bd rv q'. res = Inr (ret, bd, rv, q') \<and> request_post c q ret rv q' \<and>
    length (bufferQueueCache q') \<le> Suc (length (bufferQueueCache q))"
proof -
  obtain ret buf q1 where al: "AllocBuffer env c q = (ret, buf, q1)" by (metis prod_cases3)
  have i1: "bq_inv q1" using AllocBuffer_inv [OF inv al room] .
  obtain sb n where sb: "sequenceNumber sb = seqCounter q" and
    cs: "gs_eq ret GSERROR_OK \<and> buf = Some (length (objs q)) \<and>
       q1 = q\<lparr>seqCounter := seqCounter q + 1, objs := objs q @ [sb], calls := n,
             bufferQueueCache := om_put (seqCounter q)
               \<lparr>ebuffer = Some (length (objs q)), estate = BUFFER_STATE_REQUESTED, isDeleting = False,
                econfig = c, efence = INVALID_FENCE, etimestamp = 0, edamage = zero_rect\<rparr> (bufferQueueCache q)\<rparr> \<or>
     \<not> gs_eq ret GSERROR_OK \<and> buf = None \<and>
       q1 = q\<lparr>seqCounter := seqCounter q + 1, objs := objs q @ [sb], calls := n\<rparr>"
    using AllocBuffer_cases [OF al] by blast
  have le: "length (om_put (seqCounter q) v (bufferQueueCache q)) \<le> Suc (length (bufferQueueCache q))" for v
    using om.size_put_le [OF bq_invD(2) [OF inv]] .
  show ?thesis
  proof (cases "gs_eq ret GSERROR_OK")
    case True
    with cs have b: "buf = Some (length (objs q))" and q1: "q1 = q\<lparr>seqCounter := seqCounter q + 1, objs := objs q @ [sb], calls := n,
             bufferQueueCache := om_put (seqCounter q)
               \<lparr>ebuffer = Some (length (objs q)), estate = BUFFER_STATE_REQUESTED, isDeleting = False,
                econfig = c, efence = INVALID_FENCE, etimestamp = 0, edamage = zero_rect\<rparr> (bufferQueueCache q)\<rparr>"
      by auto
    have "deref q1 buf = Some sb" using b q1 by (simp add: deref_def)
    then have "res = Inr (ret, bedata sb, \<lparr>rsequence = seqCounter q, rbuffer = buf, rfence = INVALID_FENCE, rdeletingBuffers = []\<rparr>, q1)"
      using res al True sb by (simp add: request_alloc_def Let_def)
    moreover have "state_of q (seqCounter q) = None"
      using fresh_seq [OF inv] by (simp add: state_of_def)
    ultimately show ?thesis
      using i1 True q1 le b by (simp add: request_post_def state_of_def)
  next
    case False
    with cs have q1: "q1 = q\<lparr>seqCounter := seqCounter q + 1, objs := objs q @ [sb], calls := n\<rparr>" by blast
    have "res = Inr (ret, None, \<lparr>rsequence = 0, rbuffer = buf, rfence = None, rdeletingBuffers = []\<rparr>, q1)"
      using False res al by (simp add: request_alloc_def Let_def)
    with False i1 q1 show ?thesis by (simp add: request_post_def)
  qed
qed


lemma ReuseBuffer_same:
  assumes inv: "bq_inv q" and s: "s \<in> set (freeList q)" and e: "map_of (bufferQueueCache q) s = Some e"
    and c: "econfig e = c"
  shows "\<exists>bd rv q'. ReuseBuffer env c (ebuffer e) (q\<lparr>freeList := erase1 s (freeList q)\<rparr>) = Inr (GSERROR_OK, bd, rv, q') \<and>
    rv = \<lparr>rsequence = s, rbuffer = None, rfence = efence e, rdeletingBuffers = deletingList q\<rparr> \<and>
    deletingList q' = [] \<and> freeList q' = erase1 s (freeList q) \<and>
    request_post c q GSERROR_OK rv q' \<and> length (bufferQueueCache q') = length (bufferQueueCache q)"
proof -
  let ?q1 = "q\<lparr>freeList := erase1 s (freeList q)\<rparr>"
  let ?q2 = "cache_write (disp env) s (\<lambda>e. e\<lparr>estate := BUFFER_STATE_REQUESTED\<rparr>) ?q1"
  let ?q3 = "?q2\<lparr>deletingList := []\<rparr>"
  obtain r where r: "ebuffer e = Some r" "r < length (objs q)" "sequenceNumber (objs q ! r) = s"
    using inv_entry [OF inv e] by metis
  have d: "deref ?q1 (ebuffer e) = Some (objs q ! r)" "deref ?q2 (ebuffer e) = Some (objs q ! r)"
    using r by (simp_all add: deref_def)
  have e1: "map_of (bufferQueueCache ?q1) s = Some e" using e by simp
  have ce: "cache_elem (disp env) s ?q1 = e" using e1 by (rule cache_elem_Some)
  have i3: "bq_inv ?q3" using reuse_write_inv [OF inv s e] .
  have so: "state_of ?q3 = (state_of q)(s \<mapsto> BUFFER_STATE_REQUESTED)"
    by (simp add: state_of_cache_write)
  have rel: "state_of q s = Some BUFFER_STATE_RELEASED"
    using inv s by (auto simp: bq_inv_def lists_ok_def)
  have len: "length (bufferQueueCache ?q3) = length (bufferQueueCache q)"
    using length_cache_write [of ?q1 s e] bq_invD(2) [OF inv] e by simp
  have eq: "ReuseBuffer env c (ebuffer e) ?q1 = Inr (GSERROR_OK, bedata (objs q ! r),
      \<lparr>rsequence = s, rbuffer = None, rfence = efence e, rdeletingBuffers = deletingList q\<rparr>, ?q3)"
    using d r c ce by (simp add: ReuseBuffer_def Let_def cache_touch_present [OF e1])
  have "request_post c q GSERROR_OK \<lparr>rsequence = s, rbuffer = None, rfence = efence e, rdeletingBuffers = deletingList q\<rparr> ?q3"
    using i3 so rel ce c e by (simp add: request_post_def)
  with eq len show ?thesis by simp
qed

lemma ReuseBuffer_realloc:
  assumes inv: "bq_inv q" and s: "s \<in> set (freeList q)" and e: "map_of (bufferQueueCache q) s = Some e"
    and c: "econfig e \<noteq> c"
  shows "\<exists>ret bd rv q'. ReuseBuffer env c (ebuffer e) (q\<lparr>freeList := erase1 s (freeList q)\<rparr>) = Inr (ret, bd, rv, q') \<and>
    request_post c q ret rv q' \<and> length (bufferQueueCache q') \<le> length (bufferQueueCache q)"
proof -
  let ?q1 = "q\<lparr>freeList := erase1 s (freeList q)\<rparr>"
  let ?qd = "DeleteBufferInCache s ?q1"
  obtain r where r: "ebuffer e = Some r" "r < length (objs q)" "sequenceNumber (objs q ! r) = s"
    using inv_entry [OF inv e] by metis
  have d1: "deref ?q1 (ebuffer e) = Some (objs q ! r)" using r by (simp add: deref_def)
  have e1: "map_of (bufferQueueCache ?q1) s = Some e" using e by simp
  have ce: "cache_elem (disp env) s ?q1 = e" using e1 by (rule cache_elem_Some)
  have nd: "s \<notin> set (dirtyList q)" using inv_disjoint [OF inv, of s] s by blast
  have dist: "distinct (freeList q)" using inv by (simp add: bq_inv_def lists_ok_def)
  have "bq_inv (q\<lparr>bufferQueueCache := om_del s (bufferQueueCache q), freeList := erase1 s (freeList q), dirtyList := dirtyList q\<rparr>)"
    by (rule inv_del_entry [OF inv]) (use dist nd in auto)
  also have "?this \<longleftrightarrow> bq_inv ?qd" by (rule bq_inv_cong) simp_all
  finally have id: "bq_inv ?qd" .
  have so_d: "state_of ?qd = (state_of q)(s := None)" by (simp add: state_of_def fun_eq_iff)
  have len_d: "length (bufferQueueCache ?qd) = length (bufferQueueCache q) - 1"
    using length_om_del [OF bq_invD(2) [OF inv] e] by simp
  have pos: "0 < length (bufferQueueCache q)" using e by (cases "bufferQueueCache q") auto
  have "length (bufferQueueCache q) \<le> 32" using inv by (simp add: bq_inv_def sizes_ok_def)
  with len_d pos have room: "length (bufferQueueCache ?qd) < 32" by linarith
  have rel: "state_of q s = Some BUFFER_STATE_RELEASED"
    using inv s by (auto simp: bq_inv_def lists_ok_def)
  have ns: "\<not> isShared ?q1" using inv by (simp add: bq_inv_def)
  obtain ret buf q4 where al: "AllocBuffer env c ?qd = (ret, buf, q4)" by (metis prod_cases3)
  have i4: "bq_inv q4" using AllocBuffer_inv [OF id al room] .
  obtain sb n where sb: "sequenceNumber sb = seqCounter ?qd" and
    cs: "gs_eq ret GSERROR_OK \<and> buf = Some (length (objs ?qd)) \<and>
       q4 = ?qd\<lparr>seqCounter := seqCounter ?qd + 1, objs := objs ?qd @ [sb], calls := n,
             bufferQueueCache := om_put (seqCounter ?qd)
               \<lparr>ebuffer = Some (length (objs ?qd)), estate = BUFFER_STATE_REQUESTED, isDeleting = False,
                econfig = c, efence = INVALID_FENCE, etimestamp = 0, edamage = zero_rect\<rparr> (bufferQueueCache ?qd)\<rparr> \<or>
     \<not> gs_eq ret GSERROR_OK \<and> buf = None \<and>
       q4 = ?qd\<lparr>seqCounter := seqCounter ?qd + 1, objs := objs ?qd @ [sb], calls := n\<rparr>"
    using AllocBuffer_cases [OF al] by blast
  show ?thesis
  proof (cases "gs_eq ret GSERROR_OK")
    case False
    then have q4: "q4 = ?qd\<lparr>seqCounter := seqCounter ?qd + 1, objs := objs ?qd @ [sb], calls := n\<rparr>" using cs by blast
    have "map_of (bufferQueueCache q4) = (map_of (bufferQueueCache q))(s := None)" "dirtyList q4 = dirtyList q"
      unfolding q4 by simp_all
    moreover have "ReuseBuffer env c (ebuffer e) ?q1 =
        Inr (ret, None, \<lparr>rsequence = s, rbuffer = ebuffer e, rfence = None, rdeletingBuffers = []\<rparr>, q4)"
      using d1 r c ce al False ns by (simp add: ReuseBuffer_def Let_def cache_touch_present [OF e1])
    moreover have "queueSize q4 = queueSize q" "length (bufferQueueCache q4) \<le> length (bufferQueueCache q)"
      using q4 len_d by simp_all
    ultimately show ?thesis using i4 False rel by (simp add: request_post_def)
  next
    case True
    let ?new = "seqCounter q"
    let ?e4 = "\<lparr>ebuffer = Some (length (objs q)), estate = BUFFER_STATE_REQUESTED, isDeleting = False,
                econfig = c, efence = INVALID_FENCE, etimestamp = 0, edamage = zero_rect\<rparr>"
    from True cs have b: "buf = Some (length (objs q))"
      and q4: "q4 = ?qd\<lparr>seqCounter := ?new + 1, objs := objs q @ [sb], calls := n,
             bufferQueueCache := om_put ?new ?e4 (bufferQueueCache ?qd)\<rparr>" by auto
    have m4: "map_of (bufferQueueCache q4) ?new = Some ?e4" by (simp add: q4)
    have d4: "deref q4 buf = Some sb" using b q4 by (simp add: deref_def)
    let ?q5 = "cache_write (disp env) ?new (\<lambda>e. e\<lparr>econfig := c\<rparr>) q4"
    let ?q6 = "cache_write (disp env) ?new (\<lambda>e. e\<lparr>estate := BUFFER_STATE_REQUESTED\<rparr>) ?q5"
    let ?q7 = "?q6\<lparr>deletingList := []\<rparr>"
    have c4: "cache_elem (disp env) ?new q4 = ?e4" using m4 by (rule cache_elem_Some)
    have put: "om_put ?new ?e4 (om_put ?new ?e4 m) = om_put ?new ?e4 m" for m
      by (induction ?new ?e4 m rule: om_put.induct) auto
    have q5: "?q5 = q4" using c4 q4 put by (simp add: cache_write_def)
    have q6: "?q6 = q4" unfolding q5 using c4 q4 put by (simp add: cache_write_def)
    have "ReuseBuffer env c (ebuffer e) ?q1 =
        Inr (GSERROR_OK, bedata sb, \<lparr>rsequence = ?new, rbuffer = buf, rfence = INVALID_FENCE,
          rdeletingBuffers = deletingList q4\<rparr>, q4\<lparr>deletingList := []\<rparr>)"
      using d1 r c ce al True ns d4 sb q5 q6 c4
      by (simp add: ReuseBuffer_def Let_def cache_touch_present [OF e1])
    moreover have "bq_inv (q4\<lparr>deletingList := []\<rparr>)" using i4 by (subst bq_inv_cong) simp_all
    moreover have "map_of (bufferQueueCache q4) = (map_of (bufferQueueCache q))(s := None, ?new \<mapsto> ?e4)"
      "dirtyList q4 = dirtyList q" using q4 by (simp_all add: fun_eq_iff)
    moreover have "state_of q ?new = None" using fresh_seq [OF inv] by (simp add: state_of_def)
    moreover have "length (bufferQueueCache q4) \<le> length (bufferQueueCache q)"
      using om.size_put_le [OF bq_invD(2) [OF id], of ?new ?e4] len_d pos q4 by simp
    moreover have "queueSize q4 = queueSize q" using q4 by simp
    moreover have "s \<noteq> ?new" using fresh_seq [OF inv] e by auto
    moreover have "set (deletingList q4) \<subseteq> insert s (set (deletingList q))"
      using q4 by (simp add: DeleteBufferInCache_def emit_def Let_def subset_insertI)
    ultimately show ?thesis using m4 rel b by (auto simp: request_post_def)
  qed
qed


lemma request_post_refl:
  "bq_inv q \<Longrightarrow> \<not> gs_eq ret GSERROR_OK \<Longrightarrow> request_post c q ret rv q"
  by (simp add: request_post_def)

lemma pop_then_reuse:
  assumes inv: "bq_inv q" and pop: "PopFromFreeList (disp env) c q = (GSERROR_OK, buf, q1)"
  shows "\<exists>ret bd rv q'. ReuseBuffer env c buf q1 = Inr (ret, bd, rv, q') \<and> request_post c q ret rv q' \<and>
    length (bufferQueueCache q') \<le> length (bufferQueueCache q)"
proof -
  have "GSERROR_NO_BUFFER \<noteq> GSERROR_OK" by (simp add: gs)
  with PopFromFreeList_inv [OF inv pop] obtain s e where
    s: "s \<in> set (freeList q)" "map_of (bufferQueueCache q) s = Some e" "buf = ebuffer e"
      "q1 = q\<lparr>freeList := erase1 s (freeList q)\<rparr>" by auto
  show ?thesis
  proof (cases "econfig e = c")
    case True
    from ReuseBuffer_same [OF inv s(1,2) True, of env] s(3,4) show ?thesis by fastforce
  next
    case False
    from ReuseBuffer_realloc [OF inv s(1,2) False, of env] s(3,4) show ?thesis by simp
  qed
qed

lemma alloc_room:
  assumes inv: "bq_inv q" and lt: "\<not> GetUsedSize q \<ge> GetQueueSize q"
  shows "length (bufferQueueCache q) < unat (queueSize q) \<and> length (bufferQueueCache q) < 32"
  using used_ge_iff [OF inv] lt queueSize_unat [OF inv] by linarith

lemma RequestBuffer_post:
  assumes inv: "bq_inv q" and winv: "bq_inv (wait q)"
  shows "\<exists>ret bd rv q' q0. bq_RequestBuffer env wait c q = Inr (ret, bd, rv, q') \<and> q0 \<in> {q, wait q} \<and>
    request_post c q0 ret rv q' \<and>
    length (bufferQueueCache q') \<le> max (length (bufferQueueCache q0)) (unat (queueSize q0))"
proof -
  let ?R = "bq_RequestBuffer env wait c q"
  have alloc: "\<exists>ret bd rv q'. request_alloc env c q0 = Inr (ret, bd, rv, q') \<and> request_post c q0 ret rv q' \<and>
      length (bufferQueueCache q') \<le> max (length (bufferQueueCache q0)) (unat (queueSize q0))"
    if i0: "bq_inv q0" and lt: "\<not> GetUsedSize q0 \<ge> GetQueueSize q0" for q0
  proof -
    have room: "length (bufferQueueCache q0) < unat (queueSize q0)" "length (bufferQueueCache q0) < 32"
      using alloc_room [OF i0 lt] by simp_all
    obtain ret bd rv q' where "request_alloc env c q0 = Inr (ret, bd, rv, q')" "request_post c q0 ret rv q'"
      "length (bufferQueueCache q') \<le> Suc (length (bufferQueueCache q0))"
      using request_post_alloc [OF i0 room(2) refl, of env c] by auto
    with room(1) show ?thesis by fastforce
  qed
  show ?thesis
  proof (cases "(listener q = None \<and> listenerClazz q = None) \<or> \<not> gs_eq (CheckRequestConfig (disp env) c) GSERROR_OK")
    case True
    then have "\<exists>ret rv. ?R = Inr (ret, None, rv, q) \<and> \<not> gs_eq ret GSERROR_OK"
      by (cases "listener q = None \<and> listenerClazz q = None") (auto simp: bq_RequestBuffer_def Let_def)
    with request_post_refl [OF inv] show ?thesis by fastforce
  next
    case False
    then have "listener q \<noteq> None \<or> listenerClazz q \<noteq> None" and chk: "gs_eq (CheckRequestConfig (disp env) c) GSERROR_OK"
      by auto
    then have nl: "\<not> (listener q = None \<and> listenerClazz q = None)" by blast
    obtain r1 b1 q1 where pop: "PopFromFreeList (disp env) c q = (r1, b1, q1)" by (metis prod_cases3)
    show ?thesis
    proof (cases "gs_eq r1 GSERROR_OK")
      case True
      with PopFromFreeList_inv [OF inv pop] have "r1 = GSERROR_OK" by auto
      with pop_then_reuse [OF inv] pop obtain ret bd rv q' where
        "ReuseBuffer env c b1 q1 = Inr (ret, bd, rv, q')" "request_post c q ret rv q'"
        "length (bufferQueueCache q') \<le> length (bufferQueueCache q)" by blast
      with nl chk pop True show ?thesis by (fastforce simp: bq_RequestBuffer_def Let_def)
    next
      case False
      with PopFromFreeList_inv [OF inv pop] have fe: "freeList q = []" "q1 = q" by auto
      show ?thesis
      proof (cases "GetUsedSize q \<ge> GetQueueSize q")
        case full: True
        then have w: "(if freeList q \<noteq> [] \<or> GetUsedSize q < GetQueueSize q then q else wait q) = wait q"
          using fe(1) by (simp add: not_less)
        obtain r2 b2 q2 where pop2: "PopFromFreeList (disp env) c (wait q) = (r2, b2, q2)" by (metis prod_cases3)
        have R: "?R = (if gs_eq r2 GSERROR_OK then ReuseBuffer env c b2 q2
            else if GetUsedSize q2 \<ge> GetQueueSize q2
            then Inr (GSERROR_NO_BUFFER, None, \<lparr>rsequence = 0, rbuffer = None, rfence = None, rdeletingBuffers = []\<rparr>, q2)
            else request_alloc env c q2)"
          using nl chk pop False full fe w pop2 by (auto simp: bq_RequestBuffer_def Let_def)
        show ?thesis
        proof (cases "gs_eq r2 GSERROR_OK")
          case True
          with PopFromFreeList_inv [OF winv pop2] have "r2 = GSERROR_OK" by auto
          with pop_then_reuse [OF winv] pop2 obtain ret bd rv q' where
            "ReuseBuffer env c b2 q2 = Inr (ret, bd, rv, q')" "request_post c (wait q) ret rv q'"
            "length (bufferQueueCache q') \<le> length (bufferQueueCache (wait q))" by blast
          with R True show ?thesis by fastforce
        next
          case False
          with PopFromFreeList_inv [OF winv pop2] have q2: "q2 = wait q" by auto
          show ?thesis
          proof (cases "GetUsedSize q2 \<ge> GetQueueSize q2")
            case True
            with R False q2 request_post_refl [OF winv, of GSERROR_NO_BUFFER] show ?thesis by fastforce
          next
            case lt: False
            with alloc [OF winv] q2 obtain ret bd rv q' where
              "request_alloc env c q2 = Inr (ret, bd, rv, q')" "request_post c (wait q) ret rv q'"
              "length (bufferQueueCache q') \<le> max (length (bufferQueueCache (wait q))) (unat (queueSize (wait q)))" by blast
            with R False lt show ?thesis by fastforce
          qed
        qed
      next
        case lt: False
        from alloc [OF inv lt] obtain ret bd rv q' where
          "request_alloc env c q = Inr (ret, bd, rv, q')" "request_post c q ret rv q'"
          "length (bufferQueueCache q') \<le> max (length (bufferQueueCache q)) (unat (queueSize q))" by blast
        with nl chk pop False lt fe show ?thesis by (fastforce simp: bq_RequestBuffer_def Let_def)
      qed
    qed
  qed
qed

end
