(* ===== verification/Buffer_Queue_Life.thy ===== *)
theory Buffer_Queue_Life
  imports Buffer_Queue_Methods
begin

text \<open>
  The rest of a buffer's life: flushing, acquiring, releasing, attaching and detaching. Each
  lemma says that the method does not fault, keeps the invariant, and which state change
  of which buffer it performs (\<open>moves\<close>).
\<close>

text \<open>
  \<open>moves s a b q q'\<close>: the buffer \<open>s\<close> goes from state \<open>a\<close> to \<open>b\<close>, the entries of all others
  stay as they are, and the invariant holds in \<open>q'\<close>.
\<close>

definition moves :: "int \<Rightarrow> buffer_state option \<Rightarrow> buffer_state option \<Rightarrow> buffer_queue \<Rightarrow> buffer_queue \<Rightarrow> bool" where
  "moves s a b q q' \<longleftrightarrow> state_of q s = a \<and> state_of q' = (state_of q)(s := b) \<and> bq_inv q' \<and>
     (\<forall>t. t \<noteq> s \<longrightarrow> map_of (bufferQueueCache q') t = map_of (bufferQueueCache q) t) \<and>
     queueSize q' = queueSize q \<and> length (bufferQueueCache q') \<le> length (bufferQueueCache q)"

lemmas flush_defs = bq_FlushBuffer_def bq_FlushBuffer_gap_def
lemmas release_defs = bq_ReleaseBuffer_def bq_ReleaseBuffer_gap_def

lemma state_of_cong: "bufferQueueCache q' = bufferQueueCache q \<Longrightarrow> state_of q' = state_of q"
  by (simp add: state_of_def fun_eq_iff)

section \<open>Cancelling\<close>

lemma CancelBuffer_ok:
  assumes inv: "bq_inv q" and st: "state_of q s = Some BUFFER_STATE_REQUESTED"
  shows "\<exists>q'. bq_CancelBuffer env s bd q = Inr (GSERROR_OK, q') \<and>
    moves s (Some BUFFER_STATE_REQUESTED) (Some BUFFER_STATE_RELEASED) q q' \<and>
    freeList q' = freeList q @ [s] \<and> dirtyList q' = dirtyList q"
proof -
  from st obtain e where e: "map_of (bufferQueueCache q) s = Some e" "estate e = BUFFER_STATE_REQUESTED"
    by (auto simp: state_of_def)
  let ?q1 = "cache_write (disp env) s (\<lambda>e. e\<lparr>estate := BUFFER_STATE_RELEASED\<rparr>) q"
  let ?q2 = "?q1\<lparr>freeList := freeList q @ [s]\<rparr>"
  have l: "lists_ok q" using inv by (rule bq_invD(5))
  have "s \<notin> set (freeList q)" "s \<notin> set (dirtyList q)" using l st by (auto simp: lists_ok_def)
  then have "bq_inv (?q1\<lparr>freeList := freeList q @ [s], dirtyList := dirtyList q\<rparr>)"
    by (intro inv_write [OF inv e(1)]) (use l in \<open>auto simp: lists_ok_def\<close>)
  also have "?this \<longleftrightarrow> bq_inv ?q2" by (rule bq_inv_cong) simp_all
  finally have i2: "bq_inv ?q2" .
  obtain r where "deref q (ebuffer e) = Some (objs q ! r)" using inv_entry [OF inv e(1)] by metis
  then have "deref ?q2 (ebuffer e) = Some (objs q ! r)" by (simp add: deref_def split: option.splits if_splits)
  from set_extra_Some [OF i2 this, of bd] obtain q3 where
    q3: "set_extra (ebuffer e) bd ?q2 = Some q3" "bq_inv q3" "bufferQueueCache q3 = bufferQueueCache ?q2"
      "freeList q3 = freeList ?q2" "dirtyList q3 = dirtyList ?q2" by blast
  have qs: "queueSize q3 = queueSize q" using set_extra_fields [OF q3(1)] by simp
  have "state_of (emit NotifyAll q3) = (state_of q)(s \<mapsto> BUFFER_STATE_RELEASED)"
    using q3(3) by (simp add: state_of_def fun_eq_iff)
  moreover have "bq_CancelBuffer env s bd q = Inr (GSERROR_OK, emit NotifyAll q3)"
    using inv e q3(1) by (simp add: bq_CancelBuffer_def bq_inv_def Let_def)
  moreover have "length (bufferQueueCache q3) = length (bufferQueueCache q)"
    using q3(3) length_cache_write [OF bq_invD(2) [OF inv] e(1)] by simp
  ultimately show ?thesis using q3 st qs by (simp add: moves_def)
qed

lemma CancelBuffer_rejected:
  assumes "bq_inv q" and "state_of q s \<noteq> Some BUFFER_STATE_REQUESTED"
  shows "bq_CancelBuffer env s bd q =
    Inr (if state_of q s = None then GSERROR_NO_ENTRY else GSERROR_INVALID_OPERATING, q)"
  using assms by (auto simp: bq_CancelBuffer_def bq_inv_def state_of_def split: option.splits)

section \<open>Flushing\<close>

lemma moves_stamp:
  assumes "moves s a (Some b) q q1" and "\<And>e. ebuffer (f e) = ebuffer e" and "\<And>e. estate (f e) = estate e"
  shows "moves s a (Some b) q (cache_write k s f q1)"
proof -
  have inv: "bq_inv q1" using assms(1) by (simp add: moves_def)
  from assms(1) obtain e where e: "map_of (bufferQueueCache q1) s = Some e" "estate e = b"
    by (auto simp: moves_def state_of_def fun_eq_iff split: if_splits)
  have l: "lists_ok q1" using inv by (rule bq_invD(5))
  then have mem: "s \<in> set (freeList q1) \<longleftrightarrow> b = BUFFER_STATE_RELEASED" "s \<in> set (dirtyList q1) \<longleftrightarrow> b = BUFFER_STATE_FLUSHED"
    and dist: "distinct (freeList q1)" "distinct (dirtyList q1)"
    using e by (auto simp: lists_ok_def state_of_def)
  have "bq_inv ((cache_write k s f q1)\<lparr>freeList := freeList q1, dirtyList := dirtyList q1\<rparr>)"
    by (rule inv_write [OF inv e(1)]) (simp_all add: mem dist e(2) assms(2,3) insert_absorb)
  also have "?this \<longleftrightarrow> bq_inv (cache_write k s f q1)" by (rule bq_inv_cong) simp_all
  finally have "bq_inv (cache_write k s f q1)" .
  moreover have "state_of (cache_write k s f q1) = state_of q1"
    using e assms(3) by (simp add: state_of_cache_write fun_eq_iff cache_elem_Some state_of_def)
  ultimately show ?thesis
    using assms(1) length_cache_write [OF bq_invD(2) [OF inv] e(1)] by (simp add: moves_def)
qed

lemma moves_fields: "moves s a b q q1 \<Longrightarrow> bufferQueueCache q2 = bufferQueueCache q1 \<Longrightarrow> bq_inv q2 \<Longrightarrow>
   queueSize q2 = queueSize q1 \<Longrightarrow> moves s a b q q2"
  using state_of_cong [of q2 q1] by (simp add: moves_def)

lemma moves_calls: "moves s a b q q1 \<Longrightarrow> moves s a b q (q1\<lparr>calls := n\<rparr>)"
  by (simp add: moves_def)

lemma flush_finish_moves:
  assumes m: "moves s a (Some b) q q4" and ff: "flush_finish env s config q4 = (ret, q5)"
    and e: "map_of (bufferQueueCache q4) s = Some e"
  shows "moves s a (Some b) q q5 \<and> freeList q5 = freeList q4 \<and> dirtyList q5 = dirtyList q4 \<and>
    (\<exists>t. map_of (bufferQueueCache q5) s = Some (e\<lparr>etimestamp := t\<rparr>) \<and>
       (timestamp config \<noteq> 0 \<and> ret = GSERROR_OK \<longrightarrow> t = timestamp config))"
proof -
  have same: "\<exists>t. e = e\<lparr>etimestamp := t\<rparr>" by (rule exI [of _ "etimestamp e"]) simp
  have stamp: "moves s a (Some b) q (cache_write k s (\<lambda>e. e\<lparr>etimestamp := t\<rparr>) (q4\<lparr>calls := n\<rparr>))" for k t n
    by (rule moves_stamp [OF moves_calls [OF m]]) simp_all
  have plain: "moves s a (Some b) q (cache_write k s (\<lambda>e. e\<lparr>etimestamp := t\<rparr>) q4)" for k t
    by (rule moves_stamp [OF m]) simp_all
  have ce: "cache_elem k s (q4\<lparr>calls := n\<rparr>) = e" "cache_elem k s q4 = e" for k n
    using e by (simp_all add: cache_elem_def)
  show ?thesis
    using ff e same stamp plain moves_calls [OF m]
    by (auto simp: flush_finish_def Let_def ce split: if_splits)
qed

text \<open>
  \<open>DoFlushBuffer\<close> for a requested or attached buffer. A buffer marked for deletion is erased
  instead of queued. If the driver fails to flush the CPU cache the error is returned, but
  the buffer has already been queued.
\<close>

lemma DoFlushBuffer_ok:
  assumes inv: "bq_inv q" and e: "map_of (bufferQueueCache q) s = Some e"
    and st: "estate e = BUFFER_STATE_REQUESTED \<or> estate e = BUFFER_STATE_ATTACHED"
  shows "\<exists>ret q'. DoFlushBuffer env s bd fence config q = Inr (ret, q') \<and>
    (if isDeleting e then ret = GSERROR_OK \<and> moves s (Some (estate e)) None q q' \<and>
        freeList q' = freeList q \<and> dirtyList q' = dirtyList q
     else moves s (Some (estate e)) (Some BUFFER_STATE_FLUSHED) q q' \<and>
        freeList q' = freeList q \<and> dirtyList q' = dirtyList q @ [s] \<and>
        (\<exists>e'. map_of (bufferQueueCache q') s = Some e' \<and> efence e' = fence \<and> edamage e' = damage config \<and>
           econfig e' = econfig e \<and> (timestamp config \<noteq> 0 \<and> ret = GSERROR_OK \<longrightarrow> etimestamp e' = timestamp config)))"
proof -
  let ?k = "disp env"
  have ce: "cache_elem ?k s q = e" using e by (rule cache_elem_Some)
  have ct: "cache_touch ?k s q = q" using e by (rule cache_touch_present)
  have so: "state_of q s = Some (estate e)" using e by (simp add: state_of_def)
  have l: "lists_ok q" using inv by (rule bq_invD(5))
  have notin: "s \<notin> set (freeList q)" "s \<notin> set (dirtyList q)" using l so st by (auto simp: lists_ok_def)
  show ?thesis
  proof (cases "isDeleting e")
    case True
    let ?qd = "DeleteBufferInCache s q"
    have "bq_inv (q\<lparr>bufferQueueCache := om_del s (bufferQueueCache q), freeList := freeList q, dirtyList := dirtyList q\<rparr>)"
      by (rule inv_del_entry [OF inv]) (use notin in auto)
    also have "?this \<longleftrightarrow> bq_inv ?qd" by (rule bq_inv_cong) simp_all
    finally have "moves s (Some (estate e)) None q ?qd"
      using so length_om_del_le [of s "bufferQueueCache q"] by (simp add: moves_def state_of_def fun_eq_iff)
    with True ce ct show ?thesis by (simp add: DoFlushBuffer_def)
  next
    case False
    let ?q1 = "cache_write ?k s (\<lambda>e. e\<lparr>estate := BUFFER_STATE_FLUSHED\<rparr>) q"
    let ?q2 = "?q1\<lparr>dirtyList := dirtyList q @ [s]\<rparr>"
    have "bq_inv (?q1\<lparr>freeList := freeList q, dirtyList := dirtyList q @ [s]\<rparr>)"
      by (intro inv_write [OF inv e]) (use l notin in \<open>auto simp: lists_ok_def\<close>)
    also have "?this \<longleftrightarrow> bq_inv ?q2" by (rule bq_inv_cong) simp_all
    finally have i2: "bq_inv ?q2" .
    have m2: "moves s (Some (estate e)) (Some BUFFER_STATE_FLUSHED) q ?q2"
      using i2 so length_cache_write [OF bq_invD(2) [OF inv] e]
      by (simp add: moves_def state_of_def fun_eq_iff)
    obtain r where "deref q (ebuffer e) = Some (objs q ! r)" using inv_entry [OF inv e] by metis
    then have d2: "deref ?q2 (ebuffer e) = Some (objs q ! r)" by (simp add: deref_def split: option.splits if_splits)
    from set_extra_Some [OF i2 d2, of bd] obtain q3 where
      q3: "set_extra (ebuffer e) bd ?q2 = Some q3" "bq_inv q3" "bufferQueueCache q3 = bufferQueueCache ?q2"
        "freeList q3 = freeList ?q2" "dirtyList q3 = dirtyList ?q2" by blast
    have m3: "moves s (Some (estate e)) (Some BUFFER_STATE_FLUSHED) q q3"
      using m2 q3(3,2) set_extra_fields [OF q3(1)] by (intro moves_fields [OF m2]) simp_all
    let ?q4 = "cache_write ?k s (\<lambda>e. e\<lparr>efence := fence, edamage := damage config\<rparr>) q3"
    have m4: "moves s (Some (estate e)) (Some BUFFER_STATE_FLUSHED) q ?q4"
      by (rule moves_stamp [OF m3]) simp_all
    have c3: "cache_elem ?k s q3 = e\<lparr>estate := BUFFER_STATE_FLUSHED\<rparr>"
      using q3(3) ce by (simp add: cache_elem_def)
    let ?e4 = "e\<lparr>estate := BUFFER_STATE_FLUSHED, efence := fence, edamage := damage config\<rparr>"
    have m4e: "map_of (bufferQueueCache ?q4) s = Some ?e4" using c3 by simp
    obtain ret q5 where ff: "flush_finish env s config ?q4 = (ret, q5)" by fastforce
    from flush_finish_moves [OF m4 ff m4e]
    have m5: "moves s (Some (estate e)) (Some BUFFER_STATE_FLUSHED) q q5"
      and l5: "freeList q5 = freeList q" "dirtyList q5 = dirtyList q @ [s]"
      and e5: "\<exists>t. map_of (bufferQueueCache q5) s = Some (?e4\<lparr>etimestamp := t\<rparr>) \<and>
        (timestamp config \<noteq> 0 \<and> ret = GSERROR_OK \<longrightarrow> t = timestamp config)"
      using q3(4,5) by simp_all
    have "DoFlushBuffer env s bd fence config q = Inr (ret, q5)"
      using False ce ct q3(1) ff by (simp add: DoFlushBuffer_def Let_def)
    with m5 l5 e5 False show ?thesis by auto
  qed
qed


definition flushable :: "buffer_state option \<Rightarrow> bool" where
  "flushable st \<longleftrightarrow> st = Some BUFFER_STATE_REQUESTED \<or> st = Some BUFFER_STATE_ATTACHED"

lemma flush_check_eq:
  "\<not> isShared q \<Longrightarrow> flush_check s q = (if flushable (state_of q s) then GSERROR_OK else GSERROR_NO_ENTRY)"
  by (auto simp: flush_check_def flushable_def state_of_def split: option.splits)

text \<open>
  \<open>FlushBuffer\<close>: it never faults; a call that is refused changes nothing; a call with no
  consumer gives the buffer back to the free list when it was requested.
\<close>

lemma FlushBuffer_cases:
  assumes inv: "bq_inv q"
  shows "\<exists>ret q'. bq_FlushBuffer env s bd fence config q = Inr (ret, q') \<and>
    (q' = q \<and> \<not> gs_eq ret GSERROR_OK \<or>
     listener q = None \<and> listenerClazz q = None \<and> ret = GSERROR_NO_CONSUMER \<and>
       moves s (Some BUFFER_STATE_REQUESTED) (Some BUFFER_STATE_RELEASED) q q' \<and>
       freeList q' = freeList q @ [s] \<and> dirtyList q' = dirtyList q \<or>
     flushable (state_of q s) \<and> freeList q' = freeList q \<and>
       (moves s (state_of q s) None q q' \<and> dirtyList q' = dirtyList q \<and>
          isDeleting (cache_elem (disp env) s q) \<or>
        moves s (state_of q s) (Some BUFFER_STATE_FLUSHED) q q' \<and> dirtyList q' = dirtyList q @ [s] \<and>
          (\<exists>e'. map_of (bufferQueueCache q') s = Some e' \<and> efence e' = fence \<and> edamage e' = damage config \<and>
             (timestamp config \<noteq> 0 \<and> ret = GSERROR_OK \<longrightarrow> etimestamp e' = timestamp config))))"
proof -
  have ns: "\<not> isShared q" using inv by (rule bq_invD(1))
  have no: "GSERROR_NO_ENTRY \<noteq> GSERROR_OK" by (simp add: gs)
  consider (chk) "gs_ne (CheckFlushConfig config) GSERROR_OK"
    | (bad) "\<not> gs_ne (CheckFlushConfig config) GSERROR_OK" "\<not> flushable (state_of q s)"
    | (nocons) "\<not> gs_ne (CheckFlushConfig config) GSERROR_OK" "flushable (state_of q s)"
        "listener q = None" "listenerClazz q = None"
    | (go) "\<not> gs_ne (CheckFlushConfig config) GSERROR_OK" "flushable (state_of q s)"
        "\<not> (listener q = None \<and> listenerClazz q = None)" by satx
  then show ?thesis
  proof cases
    case chk
    then show ?thesis by (auto simp: flush_defs Let_def)
  next
    case bad
    then show ?thesis using no by (auto simp: flush_defs flush_check_eq [OF ns] Let_def)
  next
    case nocons
    show ?thesis
    proof (cases "state_of q s = Some BUFFER_STATE_REQUESTED")
      case True
      from CancelBuffer_ok [OF inv True, of env bd] nocons show ?thesis
        by (fastforce simp: flush_defs flush_check_eq [OF ns] Let_def)
    next
      case False
      with CancelBuffer_rejected [OF inv False, of env bd] nocons show ?thesis
        by (auto simp: flush_defs flush_check_eq [OF ns] Let_def)
    qed
  next
    case go
    then obtain e where e: "map_of (bufferQueueCache q) s = Some e" "state_of q s = Some (estate e)"
      "estate e = BUFFER_STATE_REQUESTED \<or> estate e = BUFFER_STATE_ATTACHED"
      by (auto simp: flushable_def state_of_def)
    from DoFlushBuffer_ok [OF inv e(1,3), of env bd fence config] obtain ret q1 where
      df: "DoFlushBuffer env s bd fence config q = Inr (ret, q1)" and
      post: "freeList q1 = freeList q \<and>
       (moves s (state_of q s) None q q1 \<and> dirtyList q1 = dirtyList q \<and> isDeleting (cache_elem (disp env) s q) \<or>
        moves s (state_of q s) (Some BUFFER_STATE_FLUSHED) q q1 \<and> dirtyList q1 = dirtyList q @ [s] \<and>
          (\<exists>e'. map_of (bufferQueueCache q1) s = Some e' \<and> efence e' = fence \<and> edamage e' = damage config \<and>
             (timestamp config \<noteq> 0 \<and> ret = GSERROR_OK \<longrightarrow> etimestamp e' = timestamp config)))"
      using e(2) by (auto simp: cache_elem_Some [OF e(1)] split: if_splits)
    have em: "moves s a b q (emit BufferAvailable q1) = moves s a b q q1" for a b
      by (simp add: moves_def)
    have "bq_FlushBuffer env s bd fence config q =
       Inr (ret, if gs_ne ret GSERROR_OK then q1 else emit BufferAvailable q1)"
      using go df by (auto simp: flush_defs flush_check_eq [OF ns] Let_def)
    then show ?thesis using go post em by auto
  qed
qed

text \<open>
  A flush with a gap in which the buffer's own state stays as it is: it is refused before the
  gap, or is the uninterrupted flush after it.
\<close>

lemma FlushBuffer_gap_eq:
  assumes "\<not> isShared q" and "\<not> isShared (gap q)" and "state_of (gap q) s = state_of q s"
  shows "bq_FlushBuffer_gap env gap s bd fence config q =
    (if gs_ne (CheckFlushConfig config) GSERROR_OK then Inr (CheckFlushConfig config, q)
     else if \<not> flushable (state_of q s) then Inr (GSERROR_NO_ENTRY, q)
     else bq_FlushBuffer env s bd fence config (gap q))"
proof -
  have "GSERROR_NO_ENTRY \<noteq> GSERROR_OK" by (simp add: gs)
  then show ?thesis
    using assms(3) flush_check_eq [OF assms(1), of s] flush_check_eq [OF assms(2), of s]
    by (simp add: flush_defs Let_def)
qed

section \<open>Acquiring\<close>

lemma AcquireBuffer_empty:
  assumes "bq_inv q" and "dirtyList q = []"
  shows "bq_AcquireBuffer env q = Inr (GSERROR_NO_BUFFER, None, q)"
  using assms by (simp add: bq_AcquireBuffer_def PopFromDirtyList_def bq_inv_def)

lemma AcquireBuffer_ok:
  assumes inv: "bq_inv q" and d: "dirtyList q = s # ds" and e: "map_of (bufferQueueCache q) s = Some e"
  shows "\<exists>q'. bq_AcquireBuffer env q = Inr (GSERROR_OK, Some (ebuffer e, efence e, etimestamp e, edamage e), q') \<and>
    moves s (Some BUFFER_STATE_FLUSHED) (Some BUFFER_STATE_ACQUIRED) q q' \<and>
    dirtyList q' = ds \<and> freeList q' = freeList q"
proof -
  let ?k = "disp env"
  have l: "lists_ok q" using inv by (rule bq_invD(5))
  have st: "state_of q s = Some BUFFER_STATE_FLUSHED" using l d by (auto simp: lists_ok_def)
  have ns: "\<not> isShared q" using inv by (rule bq_invD(1))
  have nf: "s \<notin> set (freeList q)" using inv_disjoint [OF inv, of s] d by simp
  obtain r where r: "ebuffer e = Some r" "r < length (objs q)" "sequenceNumber (objs q ! r) = s"
    using inv_entry [OF inv e] by metis
  let ?q1 = "q\<lparr>dirtyList := ds\<rparr>"
  let ?q2 = "cache_write ?k s (\<lambda>e. e\<lparr>estate := BUFFER_STATE_ACQUIRED\<rparr>) ?q1"
  have ce: "cache_elem ?k s q = e" using e by (rule cache_elem_Some)
  have eq: "bq_AcquireBuffer env q = Inr (GSERROR_OK, Some (ebuffer e, efence e, etimestamp e, edamage e), ?q2)"
    using ns d r ce by (simp add: bq_AcquireBuffer_def PopFromDirtyList_def cache_touch_present [OF e] deref_def Let_def)
  have "bq_inv ((cache_write ?k s (\<lambda>e. e\<lparr>estate := BUFFER_STATE_ACQUIRED\<rparr>) q)\<lparr>freeList := freeList q, dirtyList := ds\<rparr>)"
    by (rule inv_write [OF inv e]) (use l d nf in \<open>simp_all add: lists_ok_def\<close>, blast?)
  also have "?this \<longleftrightarrow> bq_inv ?q2"
    by (rule bq_inv_cong) (simp_all add: cache_write_def)
  finally have i2: "bq_inv ?q2" .
  have "length (bufferQueueCache ?q2) = length (bufferQueueCache q)"
    using length_cache_write [of ?q1 s e ?k] bq_invD(2) [OF inv] e by simp
  with eq i2 st show ?thesis
    by (simp add: moves_def state_of_cache_write)
qed

section \<open>Releasing\<close>

definition releasable :: "buffer_state option \<Rightarrow> bool" where
  "releasable st \<longleftrightarrow> st = Some BUFFER_STATE_ACQUIRED \<or> st = Some BUFFER_STATE_ATTACHED"

lemma release_check_eq:
  "\<not> isShared q \<Longrightarrow> release_check s q = (if releasable (state_of q s) then GSERROR_OK else GSERROR_NO_ENTRY)"
  by (auto simp: release_check_def releasable_def state_of_def split: option.splits)

lemma release_commit_ok:
  assumes inv: "bq_inv q" and e: "map_of (bufferQueueCache q) s = Some e" and st: "releasable (Some (estate e))"
  shows "dirtyList (release_commit env s fence q) = dirtyList q \<and>
    (if isDeleting e then moves s (Some (estate e)) None q (release_commit env s fence q) \<and>
        freeList (release_commit env s fence q) = freeList q
     else moves s (Some (estate e)) (Some BUFFER_STATE_RELEASED) q (release_commit env s fence q) \<and>
        freeList (release_commit env s fence q) = freeList q @ [s])"
proof -
  let ?f = "\<lambda>e. e\<lparr>estate := BUFFER_STATE_RELEASED, efence := fence\<rparr>"
  let ?q1 = "cache_write (disp env) s ?f q"
  have l: "lists_ok q" using inv by (rule bq_invD(5))
  have so: "state_of q s = Some (estate e)" using e by (simp add: state_of_def)
  have notin: "s \<notin> set (freeList q)" "s \<notin> set (dirtyList q)"
    using l so st by (auto simp: lists_ok_def releasable_def)
  have ce: "cache_elem (disp env) s q = e" using e by (rule cache_elem_Some)
  have len: "length (bufferQueueCache ?q1) = length (bufferQueueCache q)"
    using length_cache_write [OF bq_invD(2) [OF inv] e] .
  have dl: "distinct (freeList q)" "distinct (dirtyList q)" using l by (simp_all add: lists_ok_def)
  have "bq_inv (?q1\<lparr>freeList := freeList q @ [s], dirtyList := dirtyList q\<rparr>)"
    by (rule inv_write [OF inv e]) (use dl notin in \<open>simp_all\<close>)
  also have "?this \<longleftrightarrow> bq_inv (?q1\<lparr>freeList := freeList q @ [s]\<rparr>)" by (rule bq_inv_cong) simp_all
  finally have i2: "bq_inv (?q1\<lparr>freeList := freeList q @ [s]\<rparr>)" .
  let ?qd = "DeleteBufferInCache s ?q1"
  have del: "om_del s (om_put s v m) = om_del s m" for v and m :: "(int, buffer_element) omap"
    by (induction s v m rule: om_put.induct) (auto simp: om_del_def)
  have "bq_inv (q\<lparr>bufferQueueCache := om_del s (bufferQueueCache q), freeList := freeList q, dirtyList := dirtyList q\<rparr>)"
    by (rule inv_del_entry [OF inv]) (use notin in auto)
  also have "?this \<longleftrightarrow> bq_inv ?qd"
    by (rule bq_inv_cong) (simp_all add: cache_write_def del)
  finally have id: "bq_inv ?qd" .
  show ?thesis
  proof (cases "isDeleting e")
    case True
    then have rc: "release_commit env s fence q = emit NotifyAll ?qd"
      using ce by (simp add: release_commit_def Let_def)
    have "state_of ?qd = (state_of q)(s := None)" by (simp add: state_of_def fun_eq_iff)
    moreover have "length (bufferQueueCache ?qd) \<le> length (bufferQueueCache q)"
      using length_om_del_le [of s "bufferQueueCache ?q1"] len by simp
    ultimately show ?thesis using True id so unfolding rc by (simp add: moves_def)
  next
    case False
    then have rc: "release_commit env s fence q = emit NotifyAll (?q1\<lparr>freeList := freeList q @ [s]\<rparr>)"
      using ce by (simp add: release_commit_def Let_def)
    show ?thesis using False i2 so len unfolding rc
      by (simp add: moves_def state_of_cache_write)
  qed
qed

text \<open>A release with a gap in which the buffer's own state stays as it is.\<close>

lemma ReleaseBuffer_gap_cases:
  assumes inv: "bq_inv q" and ginv: "bq_inv (gap q)"
    and same: "\<And>sb. deref q buffer = Some sb \<Longrightarrow> state_of (gap q) (sequenceNumber sb) = state_of q (sequenceNumber sb)"
    and rel: "bq_ReleaseBuffer_gap env gap buffer fence q = (ret, q')"
  shows "q' \<in> {q, gap q} \<or> (\<exists>sb. deref q buffer = Some sb \<and> ret = GSERROR_OK \<and>
    releasable (state_of q (sequenceNumber sb)) \<and> dirtyList q' = dirtyList (gap q) \<and>
    (moves (sequenceNumber sb) (state_of q (sequenceNumber sb)) None (gap q) q' \<and> freeList q' = freeList (gap q) \<or>
     moves (sequenceNumber sb) (state_of q (sequenceNumber sb)) (Some BUFFER_STATE_RELEASED) (gap q) q' \<and>
       freeList q' = freeList (gap q) @ [sequenceNumber sb]))"
proof (cases "deref q buffer")
  case None
  with rel show ?thesis by (simp add: release_defs)
next
  case (Some sb)
  let ?s = "sequenceNumber sb"
  have ns: "\<not> isShared q" using inv by (rule bq_invD(1))
  have no: "GSERROR_NO_ENTRY \<noteq> GSERROR_OK" by (simp add: gs)
  show ?thesis
  proof (cases "releasable (state_of q ?s)")
    case False
    with rel Some no show ?thesis by (simp add: release_defs release_check_eq [OF ns] Let_def)
  next
    case True
    then obtain e where e: "map_of (bufferQueueCache (gap q)) ?s = Some e" "state_of q ?s = Some (estate e)"
      using same [OF Some] by (fastforce simp: releasable_def state_of_def)
    from release_commit_ok [OF ginv e(1), of env fence] True e(2)
    have post: "dirtyList (release_commit env ?s fence (gap q)) = dirtyList (gap q)"
      "moves ?s (state_of q ?s) None (gap q) (release_commit env ?s fence (gap q)) \<and>
         freeList (release_commit env ?s fence (gap q)) = freeList (gap q) \<or>
       moves ?s (state_of q ?s) (Some BUFFER_STATE_RELEASED) (gap q) (release_commit env ?s fence (gap q)) \<and>
         freeList (release_commit env ?s fence (gap q)) = freeList (gap q) @ [?s]"
      by (auto split: if_splits)
    have "q' = gap q \<or> ret = GSERROR_OK \<and> q' = release_commit env ?s fence (gap q)"
      using rel Some True by (auto simp: release_defs release_check_eq [OF ns] Let_def split: option.splits if_splits)
    with post Some True show ?thesis by auto
  qed
qed

lemma ReleaseBuffer_cases:
  assumes inv: "bq_inv q" and rel: "bq_ReleaseBuffer env buffer fence q = (ret, q')"
  shows "q' = q \<or> (\<exists>sb. deref q buffer = Some sb \<and> ret = GSERROR_OK \<and> releasable (state_of q (sequenceNumber sb)) \<and>
    dirtyList q' = dirtyList q \<and>
    (moves (sequenceNumber sb) (state_of q (sequenceNumber sb)) None q q' \<and> freeList q' = freeList q \<or>
     moves (sequenceNumber sb) (state_of q (sequenceNumber sb)) (Some BUFFER_STATE_RELEASED) q q' \<and>
       freeList q' = freeList q @ [sequenceNumber sb]))"
  using ReleaseBuffer_gap_cases [OF inv, of id buffer env fence ret q'] inv rel
  by (simp add: bq_ReleaseBuffer_def)

end
