(* ===== verification/Buffer_Queue_Reach.thy ===== *)
theory Buffer_Queue_Reach
  imports Buffer_Queue_Life
begin

text \<open>
  The remaining methods of \<open>BufferQueue\<close>, and the states a queue can reach: \<open>bq_steps\<close> is the
  relation of the sequences of calls, a producer that waits in \<open>RequestBuffer\<close> included.
\<close>

section \<open>Attaching and detaching\<close>

lemma lists_le_cache:
  assumes inv: "bq_inv q"
  shows "length (freeList q) + length (dirtyList q) \<le> length (bufferQueueCache q)"
proof -
  have "distinct (freeList q @ dirtyList q)"
    using inv inv_disjoint [OF inv] by (auto simp: bq_inv_def lists_ok_def)
  then have "length (freeList q) + length (dirtyList q) = card (set (freeList q @ dirtyList q))"
    by (metis distinct_card length_append)
  also have "\<dots> \<le> card (set (map fst (bufferQueueCache q)))"
  proof (rule card_mono)
    show "set (freeList q @ dirtyList q) \<subseteq> set (map fst (bufferQueueCache q))"
    proof
      fix s assume "s \<in> set (freeList q @ dirtyList q)"
      then obtain e where "map_of (bufferQueueCache q) s = Some e"
        using inv_free_entry [OF inv, of s] inv_dirty_entry [OF inv, of s] by auto
      then show "s \<in> set (map fst (bufferQueueCache q))" by (force dest: map_of_SomeD)
    qed
  qed simp
  also have "\<dots> \<le> length (bufferQueueCache q)" by (metis card_length length_map)
  finally show ?thesis .
qed

lemma sint_small: "n < 2147483648 \<Longrightarrow> sint (word_of_nat n :: 32 word) = int n"
  by (simp add: signed_of_nat signed_take_bit_int_eq_self)

lemma sint_queueSize: "bq_inv q \<Longrightarrow> unat (queueSize q) = n \<Longrightarrow> sint (GetQueueSize q) = int n"
  using sint_small [of "unat (queueSize q)"] queueSize_unat [of q]
  by (auto simp: GetQueueSize_def)

lemma sint_usedSize: "bq_inv q \<Longrightarrow> sint (GetUsedSize q) = int (length (bufferQueueCache q))"
  by (simp add: GetUsedSize_def sint_small bq_inv_def sizes_ok_def)

lemma AttachBuffer_cases:
  assumes inv: "bq_inv q" and d: "deref q buffer = Some sb"
  shows "bq_AttachBuffer env buffer q =
     (if length (bufferQueueCache q) < unat (queueSize q) then
        bq_AttachBuffer env buffer q
      else if length (dirtyList q) + length (freeList q) + unat (queueSize q) > length (bufferQueueCache q)
      then Inl SelfDeadlock
      else Inr (GSERROR_OUT_OF_RANGE, q))"
proof -
  have "length (dirtyList q) + length (freeList q) < 2147483648"
    using lists_le_cache [OF inv] inv by (simp add: bq_inv_def sizes_ok_def)
  then have fs: "sint (word_of_nat (length (dirtyList q) + length (freeList q)) :: 32 word) =
      int (length (dirtyList q) + length (freeList q))" by (rule sint_small)
  have ns: "\<not> isShared q" using inv by (rule bq_invD(1))
  obtain n where n: "unat (queueSize q) = n" by blast
  show ?thesis unfolding n using d ns
    by (simp add: bq_AttachBuffer_def lock_guard_def DeleteBuffers_def Let_def sint_queueSize [OF inv n] sint_usedSize [OF inv] fs del: of_nat_add)
qed

lemma AttachBuffer_ok:
  assumes inv: "bq_inv q" and d: "deref q buffer = Some sb"
    and new: "map_of (bufferQueueCache q) (sequenceNumber sb) = None"
    and room: "length (bufferQueueCache q) < unat (queueSize q)"
  shows "\<exists>q'. bq_AttachBuffer env buffer q = Inr (GSERROR_OK, q') \<and> bq_inv q' \<and>
    state_of q' = (state_of q)(sequenceNumber sb \<mapsto> BUFFER_STATE_ATTACHED) \<and>
    freeList q' = freeList q \<and> dirtyList q' = dirtyList q \<and>
    (\<forall>t. t \<noteq> sequenceNumber sb \<longrightarrow> map_of (bufferQueueCache q') t = map_of (bufferQueueCache q) t) \<and>
    length (bufferQueueCache q') = Suc (length (bufferQueueCache q)) \<and> queueSize q' = queueSize q"
proof -
  let ?s = "sequenceNumber sb"
  let ?e = "\<lparr>ebuffer = buffer, estate = BUFFER_STATE_ATTACHED, isDeleting = False,
                econfig = (default_config (disp env))
                  \<lparr>width := sb_GetWidth sb, height := sb_GetHeight sb, strideAlignment := 8,
                   format := sb_GetFormat sb, usage := sint (word_of_int (sb_GetUsage sb) :: 32 word),
                   timeout := 0\<rparr>,
                efence = None, etimestamp = 0,
                edamage = \<lparr>rx = 0, ry = 0, rw = sb_GetWidth sb, rh = sb_GetHeight sb\<rparr>\<rparr>"
  let ?q = "q\<lparr>bufferQueueCache := om_put ?s ?e (bufferQueueCache q)\<rparr>"
  obtain r where r: "buffer = Some r" "r < length (objs q)" "objs q ! r = sb"
    using d by (auto simp: deref_def split: option.splits if_splits)
  obtain n where n: "unat (queueSize q) = n" by blast
  have eq: "bq_AttachBuffer env buffer q = Inr (GSERROR_OK, ?q)"
    using bq_invD(1) [OF inv] d room unfolding n
    by (simp add: bq_AttachBuffer_def lock_guard_def DeleteBuffers_def Let_def sint_queueSize [OF inv n] sint_usedSize [OF inv])
  have "unat (queueSize q) \<le> 32" using queueSize_unat [OF inv] by simp
  with room have "length (bufferQueueCache q) < 32" by simp
  then have "bq_inv ?q" by (intro inv_put_new [OF inv new, where r = r]) (use r in simp_all)
  with eq show ?thesis
    using om.size_put [OF bq_invD(2) [OF inv], of ?s ?e] new by (simp add: state_of_def fun_eq_iff)
qed

lemma AttachBuffer_effect:
  assumes inv: "bq_inv q" and at: "bq_AttachBuffer env buffer q = Inr (ret, q')"
    and new: "\<And>sb. deref q buffer = Some sb \<Longrightarrow> map_of (bufferQueueCache q) (sequenceNumber sb) = None"
  shows "q' = q \<or> bq_inv q' \<and> dirtyList q' = dirtyList q \<and>
    (\<exists>sb s. deref q buffer = Some sb \<and> s = sequenceNumber sb \<and>
       state_of q s = None \<and> state_of q' = (state_of q)(s \<mapsto> BUFFER_STATE_ATTACHED) \<and>
       (\<forall>t. t \<noteq> s \<longrightarrow> map_of (bufferQueueCache q') t = map_of (bufferQueueCache q) t))"
proof (cases "deref q buffer")
  case None
  with at show ?thesis by (auto simp: bq_AttachBuffer_def split: if_splits)
next
  case (Some sb)
  show ?thesis
  proof (cases "length (bufferQueueCache q) < unat (queueSize q)")
    case True
    have "state_of q (sequenceNumber sb) = None" using new [OF Some] by (simp add: state_of_def)
    with AttachBuffer_ok [OF inv Some new [OF Some] True, of env] at Some show ?thesis by auto
  next
    case False
    with AttachBuffer_cases [OF inv Some, of env] at show ?thesis by (simp split: if_splits)
  qed
qed

lemma AttachBuffer_inv:
  assumes "bq_inv q" and "bq_AttachBuffer env buffer q = Inr (ret, q')"
    and "\<And>sb. deref q buffer = Some sb \<Longrightarrow> map_of (bufferQueueCache q) (sequenceNumber sb) = None"
  shows "bq_inv q'"
  using AttachBuffer_effect [of q env buffer ret q'] assms by auto

lemma DetachBuffer_cases:
  assumes inv: "bq_inv q" and dt: "bq_DetachBuffer buffer q = (ret, q')"
  shows "q' = q \<and> \<not> gs_eq ret GSERROR_OK \<or> (\<exists>sb. deref q buffer = Some sb \<and> ret = GSERROR_OK \<and>
    state_of q (sequenceNumber sb) \<in> {Some BUFFER_STATE_REQUESTED, Some BUFFER_STATE_ACQUIRED} \<and>
    moves (sequenceNumber sb) (state_of q (sequenceNumber sb)) None q q' \<and>
    freeList q' = freeList q \<and> dirtyList q' = dirtyList q)"
proof (cases "\<exists>sb e. deref q buffer = Some sb \<and> map_of (bufferQueueCache q) (sequenceNumber sb) = Some e \<and>
    estate e \<in> {BUFFER_STATE_REQUESTED, BUFFER_STATE_ACQUIRED}")
  case False
  with dt show ?thesis by (auto simp: bq_DetachBuffer_def Let_def split: option.splits if_splits)
next
  case True
  then obtain sb e where sb: "deref q buffer = Some sb" and
    e: "map_of (bufferQueueCache q) (sequenceNumber sb) = Some e" and
    st: "estate e \<in> {BUFFER_STATE_REQUESTED, BUFFER_STATE_ACQUIRED}" by blast
  let ?s = "sequenceNumber sb"
  let ?q1 = "if onBufferDelete q \<noteq> None then emit (BufferDeleted ?s) q else q"
  let ?q2 = "?q1\<lparr>bufferQueueCache := om_del ?s (bufferQueueCache q)\<rparr>"
  have so: "state_of q ?s = Some (estate e)" using e by (simp add: state_of_def)
  have q': "ret = GSERROR_OK" "q' = ?q2"
    using dt sb e st inv by (auto simp: bq_DetachBuffer_def Let_def bq_inv_def)
  have notin: "?s \<notin> set (freeList q)" "?s \<notin> set (dirtyList q)"
    using bq_invD(5) [OF inv] so st by (auto simp: lists_ok_def)
  have l: "distinct (freeList q)" "distinct (dirtyList q)"
    using bq_invD(5) [OF inv] by (simp_all add: lists_ok_def)
  have "bq_inv (q\<lparr>bufferQueueCache := om_del ?s (bufferQueueCache q), freeList := freeList q, dirtyList := dirtyList q\<rparr>)"
    by (rule inv_del_entry [OF inv]) (use notin l in auto)
  also have "?this \<longleftrightarrow> bq_inv ?q2" by (rule bq_inv_cong) simp_all
  finally have "moves ?s (state_of q ?s) None q ?q2"
    using length_om_del_le [of ?s "bufferQueueCache q"] by (simp add: moves_def state_of_def fun_eq_iff)
  moreover have "freeList ?q2 = freeList q" "dirtyList ?q2 = dirtyList q" by simp_all
  ultimately show ?thesis using q' sb so st by fastforce
qed

section \<open>\<open>SetQueueSize\<close>\<close>

text \<open>
  What \<open>SetQueueSize\<close> takes away: released buffers, and flushed ones from the front of the dirty
  list. The other entries stay, some marked for deletion.
\<close>

lemma SetQueueSize_effect:
  assumes inv: "bq_inv q" and sq: "bq_SetQueueSize n q = (ret, q')"
  shows "(\<exists>del. dirtyList q = del @ dirtyList q') \<and>
    (\<forall>s \<in> set (dirtyList q'). map_option unmark (map_of (bufferQueueCache q') s) = map_option unmark (map_of (bufferQueueCache q) s)) \<and>
    (\<forall>s. state_of q' s = state_of q s \<or>
       state_of q s \<in> {Some BUFFER_STATE_RELEASED, Some BUFFER_STATE_FLUSHED} \<and> state_of q' s = None)"
proof (cases "isShared q \<and> n \<noteq> 1 \<or> n \<le> 0 \<or> n > SURFACE_MAX_QUEUE_SIZE \<or> sint (queueSize q - n) \<le> 0")
  case True
  with sq have "dirtyList q' = dirtyList q \<and> bufferQueueCache q' = bufferQueueCache q"
    by (auto simp: SetQueueSize_eq split: if_splits)
  then show ?thesis by (simp add: state_of_def)
next
  case False
  then have c: "0 < sint (queueSize q - n)" by linarith
  have q': "q' = (delete_locked (sint (queueSize q - n)) q)\<lparr>queueSize := n\<rparr>"
    using sq False by (simp add: SetQueueSize_eq split: if_splits)
  from delete_locked_effect [OF c, of q] q' obtain del1 del2 where
    d: "freeList q = del1 @ freeList q'" "dirtyList q = del2 @ dirtyList q'" and
    m: "\<And>s. map_option unmark (map_of (bufferQueueCache q') s) =
       (if s \<in> set del1 \<union> set del2 then None else map_option unmark (map_of (bufferQueueCache q) s))" by auto
  have l: "lists_ok q" using inv by (rule bq_invD(5))
  have "map_option unmark (map_of (bufferQueueCache q') s) = map_option unmark (map_of (bufferQueueCache q) s)"
    if s: "s \<in> set (dirtyList q')" for s
  proof -
    have "s \<notin> set del2" using l d(2) s by (auto simp: lists_ok_def)
    moreover have "s \<notin> set del1" using inv_disjoint [OF inv, of s] d s by auto
    ultimately show ?thesis using m [of s] by simp
  qed
  moreover have "state_of q' s = state_of q s \<or>
      state_of q s \<in> {Some BUFFER_STATE_RELEASED, Some BUFFER_STATE_FLUSHED} \<and> state_of q' s = None" for s
  proof (cases "s \<in> set del1 \<union> set del2")
    case True
    then have "s \<in> set (freeList q) \<union> set (dirtyList q)" using d by auto
    then have "state_of q s \<in> {Some BUFFER_STATE_RELEASED, Some BUFFER_STATE_FLUSHED}"
      using l by (auto simp: lists_ok_def)
    with True m [of s] show ?thesis by (simp add: state_of_def)
  next
    case False
    with m [of s] have "map_option unmark (map_of (bufferQueueCache q') s) = map_option unmark (map_of (bufferQueueCache q) s)"
      by simp
    then have "state_of q' s = state_of q s" unfolding state_of_def by (rule unmark_state)
    then show ?thesis by simp
  qed
  ultimately show ?thesis using d(2) by blast
qed

section \<open>\<open>CleanCache\<close>\<close>

lemma CleanCache_inv:
  assumes "bq_inv q"
  shows "bq_inv (snd (bq_CleanCache q)) \<and> bufferQueueCache (snd (bq_CleanCache q)) = []"
  using assms by (simp add: bq_CleanCache_def Let_def emit_def bq_inv_def entries_ok_def store_ok_def
      lists_ok_def sizes_ok_def state_of_def)

section \<open>Settings\<close>

text \<open>The calls that only store a value.\<close>

datatype bq_setting =
    Set_ConsumerListener "nat option" | Set_ConsumerListenerClazz "nat option" | Unregister_ConsumerListener
  | Set_ReleaseListener "nat option" | Set_DeleteBufferListener "nat option"
  | Set_DefaultWidthAndHeight int int | Set_DefaultUsage "32 word" | Set_Transform int

fun bq_set :: "bq_setting \<Rightarrow> buffer_queue \<Rightarrow> gserror \<times> buffer_queue" where
  "bq_set (Set_ConsumerListener l) q = bq_RegisterConsumerListener l q"
| "bq_set (Set_ConsumerListenerClazz l) q = bq_RegisterConsumerListenerClazz l q"
| "bq_set Unregister_ConsumerListener q = bq_UnregisterConsumerListener q"
| "bq_set (Set_ReleaseListener l) q = bq_RegisterReleaseListener l q"
| "bq_set (Set_DeleteBufferListener l) q = bq_RegisterDeleteBufferListener l q"
| "bq_set (Set_DefaultWidthAndHeight w h) q = bq_SetDefaultWidthAndHeight w h q"
| "bq_set (Set_DefaultUsage u) q = bq_SetDefaultUsage u q"
| "bq_set (Set_Transform t) q = bq_SetTransform t q"

lemma bq_set_inv: "bq_inv (snd (bq_set x q)) = bq_inv q"
  by (rule bq_inv_cong; cases x)
    (auto simp: bq_RegisterConsumerListener_def bq_RegisterConsumerListenerClazz_def
      bq_UnregisterConsumerListener_def bq_RegisterReleaseListener_def bq_RegisterDeleteBufferListener_def
      bq_SetDefaultWidthAndHeight_def bq_SetDefaultUsage_def bq_SetTransform_def)

section \<open>Reachable states\<close>

text \<open>
  \<open>bq_steps env q q'\<close>: a sequence of method calls that return leads from \<open>q\<close> to \<open>q'\<close>. The calls
  of different threads come one after the other, except that a \<open>RequestBuffer\<close> which waits, a
  \<open>FlushBuffer\<close> and a \<open>ReleaseBuffer\<close> between their sections let any such sequence happen, for the
  last two one that leaves the state of the buffer they work on alone (the code checks it only
  before the gap). Other code may create buffer objects at any time; a buffer that is attached
  must not be in the cache already (the code does not check this).
\<close>

inductive bq_steps :: "bq_env \<Rightarrow> buffer_queue \<Rightarrow> buffer_queue \<Rightarrow> bool" for env where
  start: "bq_steps env q q"
| request: "bq_steps env q0 q \<Longrightarrow> bq_steps env q (wait q) \<Longrightarrow>
    bq_RequestBuffer env wait c q = Inr (ret, bd, rv, q') \<Longrightarrow> bq_steps env q0 q'"
| cancel: "bq_steps env q0 q \<Longrightarrow> bq_CancelBuffer env s bd q = Inr (ret, q') \<Longrightarrow> bq_steps env q0 q'"
| flush: "bq_steps env q0 q \<Longrightarrow> bq_steps env q (gap q) \<Longrightarrow> state_of (gap q) s = state_of q s \<Longrightarrow>
    bq_FlushBuffer_gap env gap s bd fence fc q = Inr (ret, q') \<Longrightarrow> bq_steps env q0 q'"
| acquire: "bq_steps env q0 q \<Longrightarrow> bq_AcquireBuffer env q = Inr (ret, out, q') \<Longrightarrow> bq_steps env q0 q'"
| release: "bq_steps env q0 q \<Longrightarrow> bq_steps env q (gap q) \<Longrightarrow>
    (\<And>sb. deref q buffer = Some sb \<Longrightarrow> state_of (gap q) (sequenceNumber sb) = state_of q (sequenceNumber sb)) \<Longrightarrow>
    bq_ReleaseBuffer_gap env gap buffer fence q = (ret, q') \<Longrightarrow> bq_steps env q0 q'"
| attach: "bq_steps env q0 q \<Longrightarrow> deref q buffer = Some sb \<Longrightarrow>
    map_of (bufferQueueCache q) (sequenceNumber sb) = None \<Longrightarrow>
    bq_AttachBuffer env buffer q = Inr (ret, q') \<Longrightarrow> bq_steps env q0 q'"
| detach: "bq_steps env q0 q \<Longrightarrow> bq_DetachBuffer buffer q = (ret, q') \<Longrightarrow> bq_steps env q0 q'"
| resize: "bq_steps env q0 q \<Longrightarrow> bq_SetQueueSize n q = (ret, q') \<Longrightarrow> bq_steps env q0 q'"
| clean: "bq_steps env q0 q \<Longrightarrow> bq_steps env q0 (snd (bq_CleanCache q))"
| setting: "bq_steps env q0 q \<Longrightarrow> bq_steps env q0 (snd (bq_set x q))"
| new_object: "bq_steps env q0 q \<Longrightarrow> sequenceNumber sb = seqCounter q \<Longrightarrow>
    bq_steps env q0 (q\<lparr>seqCounter := seqCounter q + 1, objs := objs q @ [sb]\<rparr>)"

lemma bq_steps_flush:
  "bq_steps env q0 q \<Longrightarrow> bq_FlushBuffer env s bd fence fc q = Inr (ret, q') \<Longrightarrow> bq_steps env q0 q'"
  using bq_steps.flush [of env q0 q id s] bq_steps.start [of env q] by (simp add: bq_FlushBuffer_def)

lemma bq_steps_release:
  "bq_steps env q0 q \<Longrightarrow> bq_ReleaseBuffer env buffer fence q = (ret, q') \<Longrightarrow> bq_steps env q0 q'"
  using bq_steps.release [of env q0 q id buffer] bq_steps.start [of env q] by (simp add: bq_ReleaseBuffer_def)

lemma bq_inv_new: "bq_inv (new_BufferQueue k nm False uid)"
  by (simp add: new_BufferQueue_def bq_inv_def entries_ok_def store_ok_def lists_ok_def sizes_ok_def
      state_of_def SURFACE_DEFAULT_QUEUE_SIZE_def SURFACE_MAX_QUEUE_SIZE_def)

lemma moves_inv: "moves s a b q q' \<Longrightarrow> bq_inv q'"
  by (simp add: moves_def)

lemma CancelBuffer_inv: "bq_inv q \<Longrightarrow> bq_CancelBuffer env s bd q = Inr (ret, q') \<Longrightarrow> bq_inv q'"
  using CancelBuffer_ok [of q s env bd] CancelBuffer_rejected [of q s env bd] moves_inv
  by (cases "state_of q s = Some BUFFER_STATE_REQUESTED") fastforce+

lemma FlushBuffer_inv: "bq_inv q \<Longrightarrow> bq_FlushBuffer env s bd fence fc q = Inr (ret, q') \<Longrightarrow> bq_inv q'"
  using FlushBuffer_cases [of q env s bd fence fc] moves_inv by fastforce

lemma AcquireBuffer_inv:
  assumes "bq_inv q" and "bq_AcquireBuffer env q = Inr (ret, out, q')"
  shows "bq_inv q'"
proof (cases "dirtyList q")
  case Nil
  with assms AcquireBuffer_empty [OF assms(1) Nil, of env] show ?thesis by simp
next
  case (Cons s ds)
  then obtain e where "map_of (bufferQueueCache q) s = Some e"
    using inv_dirty_entry [OF assms(1), of s] by auto
  from AcquireBuffer_ok [OF assms(1) Cons this, of env] assms(2) moves_inv show ?thesis by auto
qed

lemma ReleaseBuffer_inv: "bq_inv q \<Longrightarrow> bq_ReleaseBuffer env buffer fence q = (ret, q') \<Longrightarrow> bq_inv q'"
  using ReleaseBuffer_cases [of q env buffer fence ret q'] moves_inv by blast

lemma DetachBuffer_inv: "bq_inv q \<Longrightarrow> bq_DetachBuffer buffer q = (ret, q') \<Longrightarrow> bq_inv q'"
  using DetachBuffer_cases [of q buffer ret q'] moves_inv by blast

lemma bq_steps_inv: "bq_steps env q0 q \<Longrightarrow> bq_inv q0 \<Longrightarrow> bq_inv q"
proof (induction rule: bq_steps.induct)
  case (request q0 q wait c ret bd rv q')
  then show ?case using RequestBuffer_post [of q wait env c] by (auto simp: request_post_def)
next
  case (attach q0 q buffer sb ret q')
  then show ?case using AttachBuffer_inv [of q env buffer ret q'] by simp
next
  case (new_object q0 q sb)
  have "q\<lparr>seqCounter := seqCounter q + 1, objs := objs q @ [sb], calls := calls q\<rparr> =
    q\<lparr>seqCounter := seqCounter q + 1, objs := objs q @ [sb]\<rparr>" by (cases q) simp
  with new_object bq_inv_new_object [of q sb "calls q"] show ?case by simp
next
  case (start q)
  then show ?case by simp
next
  case (cancel q0 q s bd ret q')
  then show ?case by (simp add: CancelBuffer_inv)
next
  case (flush q0 q gap s bd fence fc ret q')
  then have i: "bq_inv q" "bq_inv (gap q)" by simp_all
  from flush.hyps(4) show ?case
    unfolding FlushBuffer_gap_eq [of q gap s, OF bq_invD(1) [OF i(1)] bq_invD(1) [OF i(2)] flush.hyps(3)]
    using i(1) FlushBuffer_inv [OF i(2)] by (auto split: if_splits)
next
  case (acquire q0 q ret out q')
  then show ?case by (simp add: AcquireBuffer_inv)
next
  case (release q0 q gap buffer fence ret q')
  then have i: "bq_inv q" "bq_inv (gap q)" by simp_all
  from ReleaseBuffer_gap_cases [of q gap buffer, OF i release.hyps(3) release.hyps(4)] i show ?case
    using moves_inv by blast
next
  case (detach q0 q buffer ret q')
  then show ?case by (simp add: DetachBuffer_inv)
next
  case (resize q0 q n ret q')
  then show ?case by (simp add: SetQueueSize_inv)
next
  case (clean q0 q)
  then show ?case by (simp add: CleanCache_inv)
next
  case (setting q0 q x)
  then show ?case by (simp add: bq_set_inv)
qed

end
