(* ===== verification/Buffer_Queue_Fifo.thy ===== *)
theory Buffer_Queue_Fifo
  imports Buffer_Queue_Reach
begin

text \<open>
  The contract between producer and consumer: the frames that leave the queue are the frames
  the producer flushed, each once, in order. The locale \<open>frame_fifo\<close> states what a queue of
  frames promises and proves the consequence for whole runs; \<open>BufferQueue\<close> is shown to be one.
\<close>

section \<open>The contract\<close>

datatype ('a, 'o) fifo_op = Put 'a | Take | Other 'o

text \<open>A frame leaves the queue because the consumer acquires it or because another call drops it.\<close>

datatype 'f gone = Acquired 'f | Dropped 'f

fun gone_frame :: "'f gone \<Rightarrow> 'f" where
  "gone_frame (Acquired f) = f"
| "gone_frame (Dropped f) = f"

text \<open>A run, with the frames the queue accepted and the frames that left it.\<close>

fun fifo_run ::
    "('a \<Rightarrow> 'q \<Rightarrow> 'f option \<times> 'q) \<Rightarrow> ('q \<Rightarrow> 'f option \<times> 'q) \<Rightarrow> ('o \<Rightarrow> 'q \<Rightarrow> 'f list \<times> 'q) \<Rightarrow>
     ('a, 'o) fifo_op list \<Rightarrow> 'q \<Rightarrow> 'f list \<times> 'f gone list \<times> 'q" where
  "fifo_run put get other [] q = ([], [], q)"
| "fifo_run put get other (Put a # ops) q =
     (let (r, q) = put a q; (ins, outs, q) = fifo_run put get other ops q
      in (case r of None \<Rightarrow> ins | Some f \<Rightarrow> f # ins, outs, q))"
| "fifo_run put get other (Take # ops) q =
     (let (r, q) = get q; (ins, outs, q) = fifo_run put get other ops q
      in (ins, case r of None \<Rightarrow> outs | Some f \<Rightarrow> Acquired f # outs, q))"
| "fifo_run put get other (Other x # ops) q =
     (let (ds, q) = other x q; (ins, outs, q) = fifo_run put get other ops q
      in (ins, map Dropped ds @ outs, q))"

fun op_keeps :: "('o \<Rightarrow> bool) \<Rightarrow> ('a, 'o) fifo_op \<Rightarrow> bool" where
  "op_keeps keeps (Other x) = keeps x"
| "op_keeps keeps _ = True"

locale frame_fifo =
  fixes put :: "'a \<Rightarrow> 'q \<Rightarrow> 'f option \<times> 'q"
    and get :: "'q \<Rightarrow> 'f option \<times> 'q"
    and other :: "'o \<Rightarrow> 'q \<Rightarrow> 'f list \<times> 'q"
    and keeps :: "'o \<Rightarrow> bool"
    and content :: "'q \<Rightarrow> 'f list"
    and ok :: "'q \<Rightarrow> bool"
  assumes put_law: "ok q \<Longrightarrow> put a q = (r, q') \<Longrightarrow>
      ok q' \<and> content q' = (case r of None \<Rightarrow> content q | Some f \<Rightarrow> content q @ [f])"
    and get_law: "ok q \<Longrightarrow> get q = (r, q') \<Longrightarrow>
      ok q' \<and> (case r of None \<Rightarrow> content q = [] \<and> content q' = [] | Some f \<Rightarrow> content q = f # content q')"
    and other_law: "ok q \<Longrightarrow> other x q = (ds, q') \<Longrightarrow>
      ok q' \<and> content q = ds @ content q' \<and> (keeps x \<longrightarrow> ds = [])"
begin

lemma run_law:
  "ok q \<Longrightarrow> fifo_run put get other ops q = (ins, outs, q') \<Longrightarrow>
   ok q' \<and> content q @ ins = map gone_frame outs @ content q' \<and>
   (list_all (op_keeps keeps) ops \<longrightarrow> outs = map Acquired (map gone_frame outs))"
proof (induction ops arbitrary: q ins outs q')
  case Nil
  then show ?case by simp
next
  case (Cons a ops)
  show ?case
  proof (cases a)
    case (Put x)
    obtain r q1 where p: "put x q = (r, q1)" by fastforce
    obtain ins1 outs1 q2 where run: "fifo_run put get other ops q1 = (ins1, outs1, q2)" by (metis prod_cases3)
    from put_law [OF Cons.prems(1) p] Cons.IH [OF _ run] Cons.prems(2) p run Put
    show ?thesis by (auto split: option.splits)
  next
    case Take
    obtain r q1 where p: "get q = (r, q1)" by fastforce
    obtain ins1 outs1 q2 where run: "fifo_run put get other ops q1 = (ins1, outs1, q2)" by (metis prod_cases3)
    from get_law [OF Cons.prems(1) p] Cons.IH [OF _ run] Cons.prems(2) p run Take
    show ?thesis by (auto split: option.splits)
  next
    case (Other x)
    obtain ds q1 where p: "other x q = (ds, q1)" by fastforce
    obtain ins1 outs1 q2 where run: "fifo_run put get other ops q1 = (ins1, outs1, q2)" by (metis prod_cases3)
    have "map (gone_frame \<circ> Dropped) ds = ds" by (simp add: comp_def)
    with other_law [OF Cons.prems(1) p] Cons.IH [OF _ run] Cons.prems(2) p run Other
    show ?thesis by auto
  qed
qed

end

section \<open>\<open>BufferQueue\<close> as a queue of frames\<close>

text \<open>
  A frame: the buffer's sequence number, its fence, the damaged region and the time stamp. (The
  extra data of a flush is part of the buffer object.)
\<close>

type_synonym frame = "int \<times> fence_ref \<times> rect \<times> int"

definition frame_of :: "display_consts \<Rightarrow> buffer_queue \<Rightarrow> int \<Rightarrow> frame" where
  "frame_of k q s = (let e = cache_elem k s q in (s, efence e, edamage e, etimestamp e))"

definition frames :: "display_consts \<Rightarrow> buffer_queue \<Rightarrow> frame list" where
  "frames k q = map (frame_of k q) (dirtyList q)"

text \<open>
  A flush, and the frame when it was queued: it has the caller's time stamp, or, when the
  caller gives none or the CPU cache could not be flushed, the one the queue stored.
\<close>

definition put_frame ::
    "bq_env \<Rightarrow> int \<times> extra_ref \<times> fence_ref \<times> buffer_flush_config \<Rightarrow> buffer_queue \<Rightarrow> frame option \<times> buffer_queue" where
  "put_frame env a q =
     (let (s, bd, fence, config) = a
      in case bq_FlushBuffer env s bd fence config q of
           Inl _ \<Rightarrow> (None, q)
         | Inr (ret, q') \<Rightarrow>
             (if length (dirtyList q) < length (dirtyList q')
              then Some (s, fence, damage config,
                if timestamp config \<noteq> 0 \<and> ret = GSERROR_OK then timestamp config
                else etimestamp (cache_elem (disp env) s q'))
              else None, q'))"

text \<open>An acquire, and the frame it returned.\<close>

definition take_frame :: "bq_env \<Rightarrow> buffer_queue \<Rightarrow> frame option \<times> buffer_queue" where
  "take_frame env q =
     (case bq_AcquireBuffer env q of
        Inl _ \<Rightarrow> (None, q)
      | Inr (ret, None, q') \<Rightarrow> (None, q')
      | Inr (ret, Some (buf, fence, ts, dmg), q') \<Rightarrow>
          (case deref q' buf of None \<Rightarrow> (None, q') | Some sb \<Rightarrow> (Some (sequenceNumber sb, fence, dmg, ts), q')))"

text \<open>
  The other calls. Attaching a buffer that is in the queue already, which the code does not
  refuse (\<open>attach_again_breaks_free_list\<close>), is left out: it does nothing here.
\<close>

datatype bq_call =
    Call_Request buffer_request_config | Call_Cancel int extra_ref | Call_Release buffer_ref fence_ref
  | Call_Attach buffer_ref | Call_Detach buffer_ref | Call_Resize "32 word" | Call_Clean | Call_Set bq_setting

definition in_cache :: "buffer_ref \<Rightarrow> buffer_queue \<Rightarrow> bool" where
  "in_cache b q = (case deref q b of None \<Rightarrow> False | Some sb \<Rightarrow> om_has (sequenceNumber sb) (bufferQueueCache q))"

fun bq_do :: "bq_env \<Rightarrow> bq_call \<Rightarrow> buffer_queue \<Rightarrow> buffer_queue" where
  "bq_do env (Call_Request c) q = (case bq_RequestBuffer env id c q of Inl _ \<Rightarrow> q | Inr (_, _, _, q') \<Rightarrow> q')"
| "bq_do env (Call_Cancel s bd) q = (case bq_CancelBuffer env s bd q of Inl _ \<Rightarrow> q | Inr (_, q') \<Rightarrow> q')"
| "bq_do env (Call_Release b fence) q = snd (bq_ReleaseBuffer env b fence q)"
| "bq_do env (Call_Attach b) q =
     (if in_cache b q then q else case bq_AttachBuffer env b q of Inl _ \<Rightarrow> q | Inr (_, q') \<Rightarrow> q')"
| "bq_do env (Call_Detach b) q = snd (bq_DetachBuffer b q)"
| "bq_do env (Call_Resize n) q = snd (bq_SetQueueSize n q)"
| "bq_do env Call_Clean q = snd (bq_CleanCache q)"
| "bq_do env (Call_Set x) q = snd (bq_set x q)"

text \<open>A call with the frames it removes: those at the front that are not there any more.\<close>

definition drop_call :: "bq_env \<Rightarrow> bq_call \<Rightarrow> buffer_queue \<Rightarrow> frame list \<times> buffer_queue" where
  "drop_call env x q =
     (let q' = bq_do env x q
      in (take (length (dirtyList q) - length (dirtyList q')) (frames (disp env) q), q'))"

text \<open>Only resizing and cleaning drop frames.\<close>

fun keeps_frames :: "bq_call \<Rightarrow> bool" where
  "keeps_frames (Call_Resize n) = False"
| "keeps_frames Call_Clean = False"
| "keeps_frames _ = True"

lemma frames_eqI:
  assumes "dirtyList q' = dirtyList q"
    and "\<And>s. s \<in> set (dirtyList q) \<Longrightarrow> map_of (bufferQueueCache q') s = map_of (bufferQueueCache q) s"
  shows "frames k q' = frames k q"
  using assms by (simp add: frames_def frame_of_def cache_elem_def Let_def)

lemma dirty_state: "bq_inv q \<Longrightarrow> s \<in> set (dirtyList q) \<longleftrightarrow> state_of q s = Some BUFFER_STATE_FLUSHED"
  by (simp add: bq_inv_def lists_ok_def)

lemma frames_moves:
  assumes "bq_inv q" and "moves s a b q q'" and "dirtyList q' = dirtyList q" and "a \<noteq> Some BUFFER_STATE_FLUSHED"
  shows "frames k q' = frames k q"
proof (rule frames_eqI [OF assms(3)])
  fix t assume "t \<in> set (dirtyList q)"
  with assms dirty_state [OF assms(1)] have "t \<noteq> s" by (auto simp: moves_def)
  with assms(2) show "map_of (bufferQueueCache q') t = map_of (bufferQueueCache q) t" by (simp add: moves_def)
qed

lemma put_frame_law:
  assumes inv: "bq_inv q" and put: "put_frame env a q = (r, q')"
  shows "bq_inv q' \<and> frames (disp env) q' = (case r of None \<Rightarrow> frames (disp env) q | Some f \<Rightarrow> frames (disp env) q @ [f])"
proof -
  obtain s bd fence c where a: "a = (s, bd, fence, c)" by (metis prod_cases4)
  obtain ret where fl: "bq_FlushBuffer env s bd fence c q = Inr (ret, q')"
    and r: "r = (if length (dirtyList q) < length (dirtyList q')
        then Some (s, fence, damage c, if timestamp c \<noteq> 0 \<and> ret = GSERROR_OK then timestamp c
          else etimestamp (cache_elem (disp env) s q')) else None)"
    using put FlushBuffer_cases [OF inv, of env s bd fence c] a by (fastforce simp: put_frame_def)
  have i': "bq_inv q'" by (rule FlushBuffer_inv [OF inv fl])
  consider (same) "q' = q"
    | (nocons) "moves s (Some BUFFER_STATE_REQUESTED) (Some BUFFER_STATE_RELEASED) q q'" "dirtyList q' = dirtyList q"
    | (del) "moves s (state_of q s) None q q'" "dirtyList q' = dirtyList q" "flushable (state_of q s)"
    | (queued) e' where "moves s (state_of q s) (Some BUFFER_STATE_FLUSHED) q q'" "dirtyList q' = dirtyList q @ [s]"
        "flushable (state_of q s)" "map_of (bufferQueueCache q') s = Some e'" "efence e' = fence" "edamage e' = damage c"
        "timestamp c \<noteq> 0 \<and> ret = GSERROR_OK \<longrightarrow> etimestamp e' = timestamp c"
    using FlushBuffer_cases [OF inv, of env s bd fence c] fl by fastforce
  then show ?thesis
  proof cases
    case same
    with r inv show ?thesis by simp
  next
    case nocons
    with r i' frames_moves [OF inv nocons] show ?thesis by simp
  next
    case del
    have "state_of q s \<noteq> Some BUFFER_STATE_FLUSHED" using del(3) by (auto simp: flushable_def)
    with r i' frames_moves [OF inv del(1,2)] del(2) show ?thesis by simp
  next
    case queued
    have "frame_of (disp env) q' t = frame_of (disp env) q t" if "t \<in> set (dirtyList q)" for t
    proof -
      from that queued(3) dirty_state [OF inv] have "t \<noteq> s" by (auto simp: flushable_def)
      with queued(1) show ?thesis by (simp add: moves_def frame_of_def cache_elem_def)
    qed
    moreover have "r = Some (frame_of (disp env) q' s)"
      using queued(2,4-7) r by (simp add: frame_of_def cache_elem_Some [OF queued(4)])
    ultimately show ?thesis using queued(2) i' by (simp add: frames_def)
  qed
qed

lemma take_frame_law:
  assumes inv: "bq_inv q" and tk: "take_frame env q = (r, q')"
  shows "bq_inv q' \<and> (case r of None \<Rightarrow> frames (disp env) q = [] \<and> frames (disp env) q' = []
     | Some f \<Rightarrow> frames (disp env) q = f # frames (disp env) q')"
proof (cases "dirtyList q")
  case Nil
  with AcquireBuffer_empty [OF inv Nil, of env] tk inv show ?thesis by (simp add: take_frame_def frames_def)
next
  case (Cons s ds)
  obtain e where e: "map_of (bufferQueueCache q) s = Some e"
    using inv_dirty_entry [OF inv, of s] Cons by auto
  obtain q1 where q1: "bq_AcquireBuffer env q = Inr (GSERROR_OK, Some (ebuffer e, efence e, etimestamp e, edamage e), q1)"
    and m: "moves s (Some BUFFER_STATE_FLUSHED) (Some BUFFER_STATE_ACQUIRED) q q1" and d: "dirtyList q1 = ds"
    using AcquireBuffer_ok [OF inv Cons e, of env] by blast
  have i1: "bq_inv q1" using m by (rule moves_inv)
  obtain e1 where e1: "map_of (bufferQueueCache q1) s = Some e1"
    using m by (auto simp: moves_def state_of_def fun_eq_iff split: if_splits)
  have "objs q1 = objs q"
    using q1 Cons inv by (auto simp: bq_AcquireBuffer_def PopFromDirtyList_def bq_inv_def
        cache_touch_present [OF e] Let_def split: option.splits)
  then obtain sb where sb: "deref q1 (ebuffer e) = Some sb" "sequenceNumber sb = s"
    using inv_entry [OF inv e] by (metis deref_def)
  have q': "q' = q1" "r = Some (s, efence e, edamage e, etimestamp e)"
    using tk q1 sb by (simp_all add: take_frame_def)
  have "distinct (dirtyList q)" using inv by (simp add: bq_inv_def lists_ok_def)
  then have "frame_of (disp env) q1 t = frame_of (disp env) q t" if "t \<in> set ds" for t
    using that m Cons by (auto simp: moves_def frame_of_def cache_elem_def)
  with i1 q' d Cons e show ?thesis by (simp add: frames_def frame_of_def cache_elem_Some)
qed

lemma request_frames:
  assumes inv: "bq_inv q" and post: "request_post c q ret rv q'"
  shows "frames k q' = frames k q"
proof (rule frames_eqI)
  show "dirtyList q' = dirtyList q" using post by (simp add: request_post_def)
  fix s assume "s \<in> set (dirtyList q)"
  then have "state_of q s = Some BUFFER_STATE_FLUSHED" using dirty_state [OF inv] by simp
  with post show "map_of (bufferQueueCache q') s = map_of (bufferQueueCache q) s"
    unfolding request_post_def by (metis buffer_state.distinct(3) option.distinct(1) option.inject)
qed

lemma attach_frames:
  assumes inv: "bq_inv q" and nc: "\<not> in_cache b q" and at: "bq_AttachBuffer env b q = Inr (ret, q')"
  shows "bq_inv q' \<and> frames k q' = frames k q"
proof -
  have "map_of (bufferQueueCache q) (sequenceNumber sb) = None" if "deref q b = Some sb" for sb
    using nc that by (simp add: in_cache_def om_has_def)
  from AttachBuffer_effect [OF inv at this] consider "q' = q"
    | (new) s where "bq_inv q'" "dirtyList q' = dirtyList q" "state_of q s = None"
        "\<And>t. t \<noteq> s \<Longrightarrow> map_of (bufferQueueCache q') t = map_of (bufferQueueCache q) t" by blast
  then show ?thesis
  proof cases
    case 1
    with inv show ?thesis by simp
  next
    case new
    have "frames k q' = frames k q"
    proof (rule frames_eqI [OF new(2)])
      fix t assume "t \<in> set (dirtyList q)"
      with dirty_state [OF inv] new(3) have "t \<noteq> s" by auto
      then show "map_of (bufferQueueCache q') t = map_of (bufferQueueCache q) t" by (rule new(4))
    qed
    with new(1) show ?thesis by simp
  qed
qed

text \<open>The calls that keep the frames.\<close>

lemma bq_do_law:
  assumes inv: "bq_inv q" and kp: "keeps_frames x"
  shows "bq_inv (bq_do env x q) \<and> frames k (bq_do env x q) = frames k q"
proof (cases x)
  case (Call_Request c)
  from RequestBuffer_post [OF inv, of id env c] inv obtain ret bd rv q' where
    r: "bq_RequestBuffer env id c q = Inr (ret, bd, rv, q')" "request_post c q ret rv q'" by auto
  then have "bq_inv q'" by (simp add: request_post_def)
  with r request_frames [OF inv r(2)] Call_Request show ?thesis by simp
next
  case (Call_Cancel s bd)
  show ?thesis
  proof (cases "state_of q s = Some BUFFER_STATE_REQUESTED")
    case True
    from CancelBuffer_ok [OF inv True, of env bd] obtain q' where
      r: "bq_CancelBuffer env s bd q = Inr (GSERROR_OK, q')" and
      m: "moves s (Some BUFFER_STATE_REQUESTED) (Some BUFFER_STATE_RELEASED) q q'" "dirtyList q' = dirtyList q" by blast
    from frames_moves [OF inv m] moves_inv [OF m(1)] r Call_Cancel show ?thesis by simp
  next
    case False
    with CancelBuffer_rejected [OF inv False, of env bd] inv Call_Cancel show ?thesis by simp
  qed
next
  case (Call_Release b fence)
  obtain ret q' where r: "bq_ReleaseBuffer env b fence q = (ret, q')" by fastforce
  from ReleaseBuffer_cases [OF inv r] consider "q' = q"
    | (moved) sb :: surface_buffer and t where "moves (sequenceNumber sb) (state_of q (sequenceNumber sb)) t q q'"
        "dirtyList q' = dirtyList q" "releasable (state_of q (sequenceNumber sb))" by metis
  then show ?thesis
  proof cases
    case 1
    with r inv Call_Release show ?thesis by simp
  next
    case (moved sb t)
    then have "state_of q (sequenceNumber sb) \<noteq> Some BUFFER_STATE_FLUSHED" by (auto simp: releasable_def)
    from frames_moves [OF inv moved(1,2) this] moves_inv [OF moved(1)] r Call_Release show ?thesis by simp
  qed
next
  case (Call_Attach b)
  show ?thesis
  proof (cases "bq_AttachBuffer env b q")
    case (Inl f)
    with inv Call_Attach show ?thesis by simp
  next
    case (Inr p)
    obtain ret q' where "p = (ret, q')" by fastforce
    with Inr attach_frames [OF inv, of b env ret q' k] inv Call_Attach show ?thesis by simp
  qed
next
  case (Call_Detach b)
  obtain ret q' where r: "bq_DetachBuffer b q = (ret, q')" by fastforce
  from DetachBuffer_cases [OF inv r] consider "q' = q"
    | (moved) sb :: surface_buffer where "moves (sequenceNumber sb) (state_of q (sequenceNumber sb)) None q q'"
        "dirtyList q' = dirtyList q"
        "state_of q (sequenceNumber sb) \<in> {Some BUFFER_STATE_REQUESTED, Some BUFFER_STATE_ACQUIRED}" by blast
  then show ?thesis
  proof cases
    case 1
    with r inv Call_Detach show ?thesis by simp
  next
    case (moved sb)
    then have "state_of q (sequenceNumber sb) \<noteq> Some BUFFER_STATE_FLUSHED" by auto
    from frames_moves [OF inv moved(1,2) this] moves_inv [OF moved(1)] r Call_Detach show ?thesis by simp
  qed
next
  case (Call_Set x)
  have "frames k (snd (bq_set y q)) = frames k q" for y
    by (rule frames_eqI; cases y)
      (auto simp: bq_RegisterConsumerListener_def bq_RegisterConsumerListenerClazz_def
      bq_UnregisterConsumerListener_def bq_RegisterReleaseListener_def bq_RegisterDeleteBufferListener_def
      bq_SetDefaultWidthAndHeight_def bq_SetDefaultUsage_def bq_SetTransform_def)
  with bq_set_inv inv Call_Set show ?thesis by simp
qed (use kp in simp_all)

lemma frame_of_unmark:
  assumes "map_option unmark (map_of (bufferQueueCache q') s) = map_option unmark (map_of (bufferQueueCache q) s)"
  shows "frame_of k q' s = frame_of k q s"
  using assms
  by (cases "map_of (bufferQueueCache q') s"; cases "map_of (bufferQueueCache q) s")
    (auto simp: frame_of_def cache_elem_def Let_def dest: unmark_fields)

text \<open>The calls that drop frames drop them from the front.\<close>

lemma resize_frames:
  assumes inv: "bq_inv q" and sq: "bq_SetQueueSize n q = (ret, q')"
  shows "\<exists>ds. frames k q = ds @ frames k q'"
proof -
  from SetQueueSize_effect [OF inv sq] obtain del where
    d: "dirtyList q = del @ dirtyList q'" and
    m: "\<And>s. s \<in> set (dirtyList q') \<Longrightarrow> map_option unmark (map_of (bufferQueueCache q') s) =
      map_option unmark (map_of (bufferQueueCache q) s)" by blast
  have "frame_of k q' s = frame_of k q s" if "s \<in> set (dirtyList q')" for s
    by (rule frame_of_unmark) (rule m [OF that])
  then have "map (frame_of k q) (dirtyList q') = frames k q'" by (simp add: frames_def)
  with d show ?thesis by (simp add: frames_def)
qed

lemma drop_call_law:
  assumes inv: "bq_inv q" and dc: "drop_call env x q = (ds, q')"
  shows "bq_inv q' \<and> frames (disp env) q = ds @ frames (disp env) q' \<and> (keeps_frames x \<longrightarrow> ds = [])"
proof -
  have len: "length (frames k r) = length (dirtyList r)" for k r by (simp add: frames_def)
  have q': "q' = bq_do env x q" "ds = take (length (frames (disp env) q) - length (frames (disp env) q')) (frames (disp env) q)"
    using dc by (auto simp: drop_call_def Let_def len)
  have "bq_inv q' \<and> (\<exists>es. frames (disp env) q = es @ frames (disp env) q') \<and>
      (keeps_frames x \<longrightarrow> frames (disp env) q' = frames (disp env) q)"
  proof (cases "keeps_frames x")
    case True
    from bq_do_law [OF inv True] q'(1) show ?thesis by simp
  next
    case False
    then show ?thesis
    proof (cases x)
      case (Call_Resize n)
      obtain ret r where sq: "bq_SetQueueSize n q = (ret, r)" by fastforce
      with resize_frames [OF inv sq] SetQueueSize_inv [OF inv sq] False q'(1) Call_Resize show ?thesis by simp
    next
      case Call_Clean
      have "dirtyList (snd (bq_CleanCache q)) = []" by (simp add: bq_CleanCache_def Let_def emit_def)
      with CleanCache_inv [OF inv] False q'(1) Call_Clean show ?thesis by (simp add: frames_def)
    qed simp_all
  qed
  then obtain es where r: "bq_inv q'" "frames (disp env) q = es @ frames (disp env) q'"
      "keeps_frames x \<longrightarrow> frames (disp env) q' = frames (disp env) q" by blast
  from r(2) q'(2) have "ds = es" by simp
  with r show ?thesis by auto
qed

interpretation bq_fifo: frame_fifo "put_frame env" "take_frame env" "drop_call env" keeps_frames "frames (disp env)" bq_inv
  for env
  by unfold_locales (rule put_frame_law take_frame_law drop_call_law; assumption)+

end
