(* ===== verification/Buffer_Queue_Props.thy ===== *)
theory Buffer_Queue_Props
  imports Buffer_Queue_Fifo
begin

text \<open>
  The properties of \<open>BufferQueue\<close>, each with a concrete queue (\<open>demo_start\<close> and its
  successors) at which its hypotheses hold.
\<close>

section \<open>A concrete queue\<close>

definition demo_disp :: display_consts where
  "demo_disp = \<lparr>PIXEL_FMT_BUTT = 40, PIXEL_FMT_RGBA_8888 = 12, PIXEL_FMT_YCRCB_420_SP = 24,
     COLOR_GAMUT_INVALID = -1, COLOR_GAMUT_SRGB = 4, COLOR_GAMUT_DISPLAY_BT2020 = 10,
     ROTATE_NONE = 0, ROTATE_BUTT = 4, HBM_USE_CPU_WRITE = 2\<rparr>"

definition demo_handle :: buffer_handle where
  "demo_handle = \<lparr>bh_fd = 5, bh_width = 64, bh_stride = 64, bh_height = 64, bh_size = 16384, bh_format = 12,
     bh_usage = 0, bh_phyAddr = 0, bh_key = 1, bh_virAddr = 0, bh_reserveFds = 0, bh_reserveInts = 0,
     bh_reserve = []\<rparr>"

definition demo_gralloc :: gralloc where
  "demo_gralloc = \<lparr>gr_codes = linux_codes, gr_present = True,
     gr_AllocMem = (\<lambda>n i. (0, demo_handle)), gr_Mmap = (\<lambda>n h. (4096, 4096)), gr_Unmap = (\<lambda>n h. 0),
     gr_FlushCache = (\<lambda>n h. 0), gr_InvalidateCache = (\<lambda>n h. 0), MAP_FAILED = 1\<rparr>"

definition demo_env :: bq_env where
  "demo_env = \<lparr>disp = demo_disp, driver = demo_gralloc, now_usec = (\<lambda>n. 1000),
     releaseAnswer = (\<lambda>cb b. GSERROR_INVALID_OPERATING)\<rparr>"

definition demo_config :: buffer_request_config where
  "demo_config = \<lparr>width = 64, height = 64, strideAlignment = 8, format = 12, usage = 2, timeout = 0,
     colorGamut = 4, transform = 0, scalingMode = 1\<rparr>"

definition demo_new :: buffer_queue where
  "demo_new = new_BufferQueue (disp demo_env) ''demo'' False 7"

definition demo_start :: buffer_queue where
  "demo_start = snd (bq_set (Set_ConsumerListener (Some 0)) demo_new)"

definition demo_ret :: request_retval where
  "demo_ret = \<lparr>rsequence = 0, rbuffer = Some 0, rfence = Some 0, rdeletingBuffers = []\<rparr>"

definition demo_flush_config :: buffer_flush_config where
  "demo_flush_config = \<lparr>damage = \<lparr>rx = 0, ry = 0, rw = 64, rh = 64\<rparr>, timestamp = 0\<rparr>"

text \<open>The queue with one buffer, written out, along the life of that buffer.\<close>

definition demo_at ::
    "int list \<Rightarrow> int list \<Rightarrow> buffer_state \<Rightarrow> fence_ref \<Rightarrow> int \<Rightarrow> rect \<Rightarrow> extra_ref \<Rightarrow> nat \<Rightarrow> bq_event list \<Rightarrow> buffer_queue" where
  "demo_at fl dl st fence ts dmg bd n evs =
     \<lparr>defaultWidth = 0, defaultHeight = 0, defaultUsage = 0, queueSize = 3, qtransform = 0, qname = ''demo'',
      freeList = fl, dirtyList = dl, deletingList = [],
      bufferQueueCache = [(0, \<lparr>ebuffer = Some 0, estate = st, isDeleting = False, econfig = demo_config,
        efence = fence, etimestamp = ts, edamage = dmg\<rparr>)],
      listener = Some 0, listenerClazz = None, uniqueId = 7, onBufferRelease = None, onBufferDelete = None,
      isShared = False,
      objs = [\<lparr>sequenceNumber = 0, handle = Some (demo_handle\<lparr>bh_virAddr := 4096\<rparr>), bedata = bd,
        surfaceBufferColorGamut = 4, stransform = 0, surfaceBufferScalingMode = 1,
        surfaceBufferWidth = 64, surfaceBufferHeight = 64\<rparr>],
      seqCounter = 1, calls = n, events = evs\<rparr>"

definition demo_requested :: buffer_queue where
  "demo_requested = demo_at [] [] BUFFER_STATE_REQUESTED (Some 0) 0 zero_rect (Some 0) 2 []"
definition demo_flushed :: buffer_queue where
  "demo_flushed = demo_at [] [0] BUFFER_STATE_FLUSHED (Some 9) 1000 (damage demo_flush_config) None 4 [BufferAvailable]"
definition demo_acquired :: buffer_queue where
  "demo_acquired = demo_at [] [] BUFFER_STATE_ACQUIRED (Some 9) 1000 (damage demo_flush_config) None 4 [BufferAvailable]"
definition demo_released :: buffer_queue where
  "demo_released = demo_at [0] [] BUFFER_STATE_RELEASED (Some 3) 1000 (damage demo_flush_config) None 4
     [BufferAvailable, NotifyAll]"

lemma demo_request_eq: "bq_RequestBuffer demo_env id demo_config demo_start =
    Inr (GSERROR_OK, Some 0, demo_ret, demo_requested)"
  by code_simp

lemma demo_flush_eq: "bq_FlushBuffer demo_env 0 None (Some 9) demo_flush_config demo_requested = Inr (GSERROR_OK, demo_flushed)"
  by code_simp

lemma demo_acquire_eq: "bq_AcquireBuffer demo_env demo_flushed =
    Inr (GSERROR_OK, Some (Some 0, Some 9, 1000, \<lparr>rx = 0, ry = 0, rw = 64, rh = 64\<rparr>), demo_acquired)"
  by code_simp

lemma demo_release_eq: "bq_ReleaseBuffer demo_env (Some 0) (Some 3) demo_acquired = (GSERROR_OK, demo_released)"
  by code_simp

lemma demo_steps_start: "bq_steps demo_env demo_new demo_start"
  unfolding demo_start_def by (rule bq_steps.setting [OF bq_steps.start])

lemma demo_steps_requested: "bq_steps demo_env demo_new demo_requested"
  by (rule bq_steps.request [OF demo_steps_start _ demo_request_eq]) (simp add: bq_steps.start)

lemma demo_steps_flushed: "bq_steps demo_env demo_new demo_flushed"
  by (rule bq_steps_flush [OF demo_steps_requested demo_flush_eq])

lemma demo_steps_acquired: "bq_steps demo_env demo_new demo_acquired"
  by (rule bq_steps.acquire [OF demo_steps_flushed demo_acquire_eq])

lemma demo_steps_released: "bq_steps demo_env demo_new demo_released"
  by (rule bq_steps_release [OF demo_steps_acquired demo_release_eq])

text \<open>A queue as the constructor makes it, and the states reachable from it.\<close>

definition reachable :: "bq_env \<Rightarrow> buffer_queue \<Rightarrow> bool" where
  "reachable env q \<longleftrightarrow> (\<exists>nm uid. bq_steps env (new_BufferQueue (disp env) nm False uid) q)"

lemma reachable_inv: "reachable env q \<Longrightarrow> bq_inv q"
  unfolding reachable_def using bq_steps_inv bq_inv_new by blast

lemma demo_reachable:
  "reachable demo_env demo_start" "reachable demo_env demo_requested" "reachable demo_env demo_flushed"
  "reachable demo_env demo_acquired" "reachable demo_env demo_released"
  using demo_steps_start demo_steps_requested demo_steps_flushed demo_steps_acquired demo_steps_released
  unfolding reachable_def demo_new_def by blast+

section \<open>Consistency of the lists and the cache\<close>



section \<open>No null dereference\<close>

text \<open>
  C25. No call on a reachable queue dereferences a null buffer: neither requesting, with any
  activity of other threads while it waits, nor cancelling, nor acquiring, nor flushing with any
  activity of other threads between its two locked sections that leaves the state of the flushed
  buffer alone. (When another thread takes the buffer out of the queue in that gap, the flush does:
  see \<open>flush_of_lost_buffer_crashes\<close>.)
\<close>

theorem queue_calls_return:
  assumes "reachable env q" and "bq_steps env q (wait q)"
    and "bq_steps env q (gap q)" and "state_of (gap q) s = state_of q s"
  shows "bq_RequestBuffer env wait c q \<noteq> Inl NullDeref \<and> bq_CancelBuffer env t bd q \<noteq> Inl NullDeref \<and>
    bq_FlushBuffer_gap env gap s bd fence fc q \<noteq> Inl NullDeref \<and> bq_AcquireBuffer env q \<noteq> Inl NullDeref"
proof -
  have inv: "bq_inv q" using assms(1) by (rule reachable_inv)
  have winv: "bq_inv (wait q)" using bq_steps_inv [OF assms(2) inv] .
  have ginv: "bq_inv (gap q)" using bq_steps_inv [OF assms(3) inv] .
  have "bq_RequestBuffer env wait c q \<noteq> Inl NullDeref" using RequestBuffer_post [of q wait env c, OF inv winv] by auto
  moreover have "bq_CancelBuffer env t bd q \<noteq> Inl NullDeref"
    using CancelBuffer_ok [OF inv, of t env bd] CancelBuffer_rejected [OF inv, of t env bd] by fastforce
  moreover have "bq_FlushBuffer_gap env gap s bd fence fc q \<noteq> Inl NullDeref"
    unfolding FlushBuffer_gap_eq [of q gap s, OF bq_invD(1) [OF inv] bq_invD(1) [OF ginv] assms(4)]
    using FlushBuffer_cases [OF ginv, of env s bd fence fc] by auto
  moreover have "bq_AcquireBuffer env q \<noteq> Inl NullDeref"
  proof (cases "dirtyList q")
    case Nil
    then show ?thesis using AcquireBuffer_empty [OF inv Nil, of env] by simp
  next
    case (Cons t ds)
    then obtain e where "map_of (bufferQueueCache q) t = Some e" using inv_dirty_entry [OF inv, of t] by auto
    from AcquireBuffer_ok [OF inv Cons this, of env] show ?thesis by auto
  qed
  ultimately show ?thesis by blast
qed

text \<open>Another thread resizes the queue between the sections of the flush.\<close>

lemma queue_calls_return_witness:
  "bq_FlushBuffer_gap demo_env (\<lambda>q. snd (bq_SetQueueSize 1 q)) 0 None (Some 9) demo_flush_config demo_requested \<noteq> Inl NullDeref"
proof -
  let ?gap = "\<lambda>q. snd (bq_SetQueueSize 1 q)"
  have "state_of (?gap demo_requested) 0 = state_of demo_requested 0" by code_simp
  moreover have "bq_steps demo_env demo_requested (?gap demo_requested)"
    by (rule bq_steps.resize [OF bq_steps.start surjective_pairing])
  ultimately show ?thesis
    using queue_calls_return [OF demo_reachable(2), of id ?gap 0] by (simp add: bq_steps.start)
qed

section \<open>Requesting\<close>



text \<open>
  C21. \<open>RequestBuffer\<close> never makes the queue larger than its configured size: the number of buffers
  after the call is at most what it was (at once or after waiting), or at most the queue size.
\<close>

theorem request_respects_queue_size:
  assumes "reachable env q" and "bq_steps env q (wait q)"
    and "bq_RequestBuffer env wait c q = Inr (ret, bd, rv, q')"
  shows "\<exists>q0 \<in> {q, wait q}. queueSize q' = queueSize q0 \<and>
    length (bufferQueueCache q') \<le> max (length (bufferQueueCache q0)) (unat (queueSize q0))"
proof -
  have inv: "bq_inv q" using assms(1) by (rule reachable_inv)
  have winv: "bq_inv (wait q)" using bq_steps_inv [OF assms(2) inv] .
  from RequestBuffer_post [of q wait env c, OF inv winv] assms(3) show ?thesis
    by (auto simp: request_post_def)
qed

lemma request_respects_queue_size_witness:
  "\<exists>q0 \<in> {demo_start, id demo_start}. queueSize demo_requested = queueSize q0 \<and>
    length (bufferQueueCache demo_requested) \<le> max (length (bufferQueueCache q0)) (unat (queueSize q0))"
  by (rule request_respects_queue_size [OF demo_reachable(1) _ demo_request_eq]) (simp add: bq_steps.start)

section \<open>First in, first out\<close>

text \<open>
  C3. The frames a consumer acquires are the frames the producer flushed, each once and in order:
  over any run of flushes, acquires and other calls, one after the other, the frames waiting at the
  start followed by the frames accepted are the frames that left the queue followed by those still
  waiting. Frames leave by being acquired, or are dropped from the front by \<open>SetQueueSize\<close> and
  \<open>CleanCache\<close>; without those two calls all that left were acquired. A frame is the buffer, its
  fence, its damaged region and its time stamp. Attaching a buffer that is in the queue already
  is not among the calls.
\<close>

theorem queue_first_in_first_out:
  assumes "reachable env q" and "fifo_run (put_frame env) (take_frame env) (drop_call env) ops q = (ins, outs, q')"
  shows "frames (disp env) q @ ins = map gone_frame outs @ frames (disp env) q' \<and>
    (list_all (op_keeps keeps_frames) ops \<longrightarrow> outs = map Acquired (map gone_frame outs))"
  using bq_fifo.run_law [OF reachable_inv [OF assms(1)] assms(2)] by blast

text \<open>A frame that is acquired, and one that is dropped by \<open>CleanCache\<close>.\<close>

definition demo_ops :: "(int \<times> extra_ref \<times> fence_ref \<times> buffer_flush_config, bq_call) fifo_op list" where
  "demo_ops = [Put (0, Some 5, Some 9, demo_flush_config\<lparr>timestamp := 7\<rparr>), Take,
     Other (Call_Release (Some 0) (Some 3)), Other (Call_Request demo_config),
     Put (0, None, Some 8, demo_flush_config), Other Call_Clean]"

definition demo_clean :: buffer_queue where
  "demo_clean = snd (bq_CleanCache (demo_at [] [0] BUFFER_STATE_FLUSHED (Some 8) 1000 (damage demo_flush_config) None 5
     [BufferAvailable, NotifyAll, BufferAvailable]))"

lemma demo_run_flush: "put_frame demo_env (0, Some 5, Some 9, demo_flush_config\<lparr>timestamp := 7\<rparr>) demo_requested =
    (Some (0, Some 9, damage demo_flush_config, 7),
     demo_at [] [0] BUFFER_STATE_FLUSHED (Some 9) 7 (damage demo_flush_config) (Some 5) 3 [BufferAvailable])"
  by code_simp

lemma demo_run_acquire: "take_frame demo_env
     (demo_at [] [0] BUFFER_STATE_FLUSHED (Some 9) 7 (damage demo_flush_config) (Some 5) 3 [BufferAvailable]) =
    (Some (0, Some 9, damage demo_flush_config, 7),
     demo_at [] [] BUFFER_STATE_ACQUIRED (Some 9) 7 (damage demo_flush_config) (Some 5) 3 [BufferAvailable])"
  by code_simp

lemma demo_run_release: "drop_call demo_env (Call_Release (Some 0) (Some 3))
     (demo_at [] [] BUFFER_STATE_ACQUIRED (Some 9) 7 (damage demo_flush_config) (Some 5) 3 [BufferAvailable]) =
    ([], demo_at [0] [] BUFFER_STATE_RELEASED (Some 3) 7 (damage demo_flush_config) (Some 5) 3 [BufferAvailable, NotifyAll])"
  by code_simp

lemma demo_run_request: "drop_call demo_env (Call_Request demo_config)
     (demo_at [0] [] BUFFER_STATE_RELEASED (Some 3) 7 (damage demo_flush_config) (Some 5) 3 [BufferAvailable, NotifyAll]) =
    ([], demo_at [] [] BUFFER_STATE_REQUESTED (Some 3) 7 (damage demo_flush_config) (Some 5) 3 [BufferAvailable, NotifyAll])"
  by code_simp

lemma demo_run_flush_again: "put_frame demo_env (0, None, Some 8, demo_flush_config)
     (demo_at [] [] BUFFER_STATE_REQUESTED (Some 3) 7 (damage demo_flush_config) (Some 5) 3 [BufferAvailable, NotifyAll]) =
    (Some (0, Some 8, damage demo_flush_config, 1000),
     demo_at [] [0] BUFFER_STATE_FLUSHED (Some 8) 1000 (damage demo_flush_config) None 5
       [BufferAvailable, NotifyAll, BufferAvailable])"
  by code_simp

lemma demo_run_clean: "drop_call demo_env Call_Clean
     (demo_at [] [0] BUFFER_STATE_FLUSHED (Some 8) 1000 (damage demo_flush_config) None 5
       [BufferAvailable, NotifyAll, BufferAvailable]) =
    ([(0, Some 8, damage demo_flush_config, 1000)], demo_clean)"
  by code_simp

lemmas demo_run_steps = demo_run_flush demo_run_acquire demo_run_release demo_run_request demo_run_flush_again demo_run_clean

lemma queue_first_in_first_out_witness:
  "frames (disp demo_env) demo_requested @
     [(0, Some 9, damage demo_flush_config, 7), (0, Some 8, damage demo_flush_config, 1000)] =
   map gone_frame [Acquired (0, Some 9, damage demo_flush_config, 7), Dropped (0, Some 8, damage demo_flush_config, 1000)] @
     frames (disp demo_env) demo_clean"
proof -
  let ?a = "(0, Some 9, damage demo_flush_config, 7)" and ?b = "(0, Some 8, damage demo_flush_config, 1000)"
  have "fifo_run (put_frame demo_env) (take_frame demo_env) (drop_call demo_env) demo_ops demo_requested =
      ([?a, ?b], [Acquired ?a, Dropped ?b], demo_clean)"
    by (simp add: demo_ops_def demo_run_steps)
  from queue_first_in_first_out [OF demo_reachable(2) this] show ?thesis by blast
qed

section \<open>The life of a buffer\<close>

text \<open>
  The edges of a buffer's life, for each call: which buffer it may move from which state to which.
  \<open>None\<close> is a buffer that is not in the queue.
\<close>

definition names_buffer :: "buffer_queue \<Rightarrow> buffer_ref \<Rightarrow> int \<Rightarrow> bool" where
  "names_buffer q b s \<longleftrightarrow> (\<exists>sb. deref q b = Some sb \<and> sequenceNumber sb = s)"

definition request_edge :: "buffer_state option \<Rightarrow> buffer_state option \<Rightarrow> bool" where
  "request_edge a b \<longleftrightarrow> a = None \<and> b = Some BUFFER_STATE_REQUESTED \<or>
     a = Some BUFFER_STATE_RELEASED \<and> b \<in> {None, Some BUFFER_STATE_REQUESTED}"

definition flush_edge :: "buffer_state option \<Rightarrow> buffer_state option \<Rightarrow> bool" where
  "flush_edge a b \<longleftrightarrow> a \<in> {Some BUFFER_STATE_REQUESTED, Some BUFFER_STATE_ATTACHED} \<and> b \<in> {None, Some BUFFER_STATE_FLUSHED} \<or>
     a = Some BUFFER_STATE_REQUESTED \<and> b = Some BUFFER_STATE_RELEASED"

definition acquire_edge :: "buffer_state option \<Rightarrow> buffer_state option \<Rightarrow> bool" where
  "acquire_edge a b \<longleftrightarrow> a = Some BUFFER_STATE_FLUSHED \<and> b = Some BUFFER_STATE_ACQUIRED"

fun call_edge :: "bq_call \<Rightarrow> buffer_queue \<Rightarrow> int \<Rightarrow> buffer_state option \<Rightarrow> buffer_state option \<Rightarrow> bool" where
  "call_edge (Call_Request c) q s a b = request_edge a b"
| "call_edge (Call_Cancel t bd) q s a b = (s = t \<and> a = Some BUFFER_STATE_REQUESTED \<and> b = Some BUFFER_STATE_RELEASED)"
| "call_edge (Call_Release r f) q s a b = (names_buffer q r s \<and>
     a \<in> {Some BUFFER_STATE_ACQUIRED, Some BUFFER_STATE_ATTACHED} \<and> b \<in> {None, Some BUFFER_STATE_RELEASED})"
| "call_edge (Call_Attach r) q s a b = (names_buffer q r s \<and> a = None \<and> b = Some BUFFER_STATE_ATTACHED)"
| "call_edge (Call_Detach r) q s a b = (names_buffer q r s \<and>
     a \<in> {Some BUFFER_STATE_REQUESTED, Some BUFFER_STATE_ACQUIRED} \<and> b = None)"
| "call_edge (Call_Resize n) q s a b = (a \<in> {Some BUFFER_STATE_RELEASED, Some BUFFER_STATE_FLUSHED} \<and> b = None)"
| "call_edge Call_Clean q s a b = (b = None)"
| "call_edge (Call_Set x) q s a b = False"

definition follows :: "(int \<Rightarrow> buffer_state option \<Rightarrow> buffer_state option \<Rightarrow> bool) \<Rightarrow> buffer_queue \<Rightarrow> buffer_queue \<Rightarrow> bool" where
  "follows edge q q' \<longleftrightarrow> (\<forall>s. state_of q' s = state_of q s \<or> edge s (state_of q s) (state_of q' s))"

lemma follows_refl [simp]: "follows edge q q"
  by (simp add: follows_def)

lemma follows_moves: "moves s a b q q' \<Longrightarrow> edge s a b \<Longrightarrow> follows edge q q'"
  by (auto simp: follows_def moves_def)

lemma follows_request:
  assumes "request_post c q ret rv q'"
  shows "follows (\<lambda>s. request_edge) q q'"
  unfolding follows_def
proof
  fix s
  show "state_of q' s = state_of q s \<or> request_edge (state_of q s) (state_of q' s)"
  proof (cases "gs_eq ret GSERROR_OK \<and> s = rsequence rv")
    case True
    with assms show ?thesis by (auto simp: request_post_def state_of_def request_edge_def)
  next
    case False
    with assms have "map_of (bufferQueueCache q') s = map_of (bufferQueueCache q) s \<or>
        state_of q s = Some BUFFER_STATE_RELEASED \<and> map_of (bufferQueueCache q') s = None"
      unfolding request_post_def by blast
    then show ?thesis by (auto simp: state_of_def request_edge_def)
  qed
qed

lemma follows_do: "bq_inv q \<Longrightarrow> follows (call_edge x q) q (bq_do env x q)"
proof (cases x)
  case (Call_Request c)
  assume inv: "bq_inv q"
  from RequestBuffer_post [OF inv, of id env c] inv obtain ret bd rv q' where
    r: "bq_RequestBuffer env id c q = Inr (ret, bd, rv, q')" "request_post c q ret rv q'" by auto
  from follows_request [OF r(2)] r(1) Call_Request show ?thesis by (simp add: follows_def)
next
  case (Call_Cancel s bd)
  assume inv: "bq_inv q"
  show ?thesis
  proof (cases "state_of q s = Some BUFFER_STATE_REQUESTED")
    case True
    from CancelBuffer_ok [OF inv True, of env bd] obtain q' where
      r: "bq_CancelBuffer env s bd q = Inr (GSERROR_OK, q')" and
      m: "moves s (Some BUFFER_STATE_REQUESTED) (Some BUFFER_STATE_RELEASED) q q'" by blast
    from m have "follows (call_edge x q) q q'" by (rule follows_moves) (simp add: Call_Cancel)
    with r Call_Cancel show ?thesis by simp
  next
    case False
    with CancelBuffer_rejected [OF inv False, of env bd] Call_Cancel show ?thesis by simp
  qed
next
  case (Call_Release b fence)
  assume inv: "bq_inv q"
  obtain ret q' where r: "bq_ReleaseBuffer env b fence q = (ret, q')" by fastforce
  from ReleaseBuffer_cases [OF inv r] consider "q' = q"
    | (moved) sb t where "deref q b = Some sb" "moves (sequenceNumber sb) (state_of q (sequenceNumber sb)) t q q'"
        "releasable (state_of q (sequenceNumber sb))" "t \<in> {None, Some BUFFER_STATE_RELEASED}" by blast
  then have "follows (call_edge x q) q q'"
  proof cases
    case (moved sb t)
    show ?thesis
      by (rule follows_moves [OF moved(2)])
        (use moved Call_Release in \<open>auto simp: releasable_def names_buffer_def\<close>)
  qed simp
  with r Call_Release show ?thesis by simp
next
  case (Call_Attach b)
  assume inv: "bq_inv q"
  show ?thesis
  proof (cases "in_cache b q \<or> (\<exists>f. bq_AttachBuffer env b q = Inl f)")
    case True
    with Call_Attach show ?thesis by auto
  next
    case False
    then obtain ret q' where at: "bq_AttachBuffer env b q = Inr (ret, q')"
      by (cases "bq_AttachBuffer env b q") auto
    have "map_of (bufferQueueCache q) (sequenceNumber sb) = None" if "deref q b = Some sb" for sb
      using False that by (simp add: in_cache_def om_has_def)
    from AttachBuffer_effect [OF inv at this] have "follows (call_edge x q) q q'"
      using Call_Attach by (auto simp: follows_def names_buffer_def split: if_splits)
    with False at Call_Attach show ?thesis by simp
  qed
next
  case (Call_Detach b)
  assume inv: "bq_inv q"
  obtain ret q' where r: "bq_DetachBuffer b q = (ret, q')" by fastforce
  from DetachBuffer_cases [OF inv r] consider "q' = q"
    | (moved) sb where "deref q b = Some sb" "moves (sequenceNumber sb) (state_of q (sequenceNumber sb)) None q q'"
        "state_of q (sequenceNumber sb) \<in> {Some BUFFER_STATE_REQUESTED, Some BUFFER_STATE_ACQUIRED}" by blast
  then have "follows (call_edge x q) q q'"
  proof cases
    case (moved sb)
    show ?thesis
      by (rule follows_moves [OF moved(2)]) (use moved Call_Detach in \<open>auto simp: names_buffer_def\<close>)
  qed simp
  with r Call_Detach show ?thesis by simp
next
  case (Call_Resize n)
  assume inv: "bq_inv q"
  obtain ret q' where r: "bq_SetQueueSize n q = (ret, q')" by fastforce
  from SetQueueSize_effect [OF inv r] r Call_Resize show ?thesis by (simp add: follows_def)
next
  case Call_Clean
  assume "bq_inv q"
  then have "state_of (snd (bq_CleanCache q)) s = None" for s
    using CleanCache_inv by (simp add: state_of_def)
  with Call_Clean show ?thesis by (simp add: follows_def)
next
  case (Call_Set x)
  have "bufferQueueCache (snd (bq_set x q)) = bufferQueueCache q"
    by (cases x) (auto simp: bq_RegisterConsumerListener_def bq_RegisterConsumerListenerClazz_def
      bq_UnregisterConsumerListener_def bq_RegisterReleaseListener_def bq_RegisterDeleteBufferListener_def
      bq_SetDefaultWidthAndHeight_def bq_SetDefaultUsage_def bq_SetTransform_def)
  then have "state_of (snd (bq_set x q)) = state_of q" by (rule state_of_cong)
  with Call_Set show ?thesis by (simp add: follows_def)
qed

lemma follows_flush:
  assumes inv: "bq_inv q" and fl: "bq_FlushBuffer env s bd fence fc q = Inr (ret, q')"
  shows "follows (\<lambda>t a b. t = s \<and> flush_edge a b) q q'"
proof -
  from fl FlushBuffer_cases [OF inv, of env s bd fence fc] consider "q' = q"
    | (cancelled) "moves s (Some BUFFER_STATE_REQUESTED) (Some BUFFER_STATE_RELEASED) q q'"
    | (flushed) b where "flushable (state_of q s)" "moves s (state_of q s) b q q'" "b \<in> {None, Some BUFFER_STATE_FLUSHED}"
    by auto
  then show ?thesis
  proof cases
    case cancelled
    then show ?thesis by (rule follows_moves) (simp add: flush_edge_def)
  next
    case (flushed b)
    show ?thesis
      by (rule follows_moves [OF flushed(2)]) (use flushed(1,3) in \<open>auto simp: flushable_def flush_edge_def\<close>)
  qed simp
qed

lemma follows_acquire:
  assumes inv: "bq_inv q" and acq: "bq_AcquireBuffer env q = Inr (ret, out, q')"
  shows "follows (\<lambda>s. acquire_edge) q q'"
proof (cases "dirtyList q")
  case Nil
  then show ?thesis using AcquireBuffer_empty [OF inv Nil, of env] acq by simp
next
  case (Cons t ds)
  then obtain e where "map_of (bufferQueueCache q) t = Some e" using inv_dirty_entry [OF inv, of t] by auto
  from AcquireBuffer_ok [OF inv Cons this, of env] acq have
    "moves t (Some BUFFER_STATE_FLUSHED) (Some BUFFER_STATE_ACQUIRED) q q'" by auto
  then show ?thesis by (rule follows_moves) (simp add: acquire_edge_def)
qed

text \<open>
  C7. Every call moves every buffer only along its own edges of the buffer's life: requesting takes
  a released buffer or a new one, and may delete a released one to make a new one of another
  configuration; flushing and cancelling move the buffer named from the producer to the dirty or the
  free list, acquiring a flushed buffer to the consumer, releasing the buffer named from the consumer to
  the free list or out of the queue; attaching brings the buffer named into the queue, detaching takes it
  out; resizing deletes only released and flushed buffers, and cleaning deletes. The settings move none.
  Attaching a buffer that is in the queue already is not among the calls.
\<close>

theorem buffer_life_cycle:
  assumes "reachable env q"
  shows "follows (call_edge x q) q (bq_do env x q) \<and>
    (bq_FlushBuffer env s bd fence fc q = Inr (ret, q') \<longrightarrow> follows (\<lambda>t a b. t = s \<and> flush_edge a b) q q') \<and>
    (bq_AcquireBuffer env q = Inr (ret, out, q') \<longrightarrow> follows (\<lambda>t. acquire_edge) q q')"
  using follows_do follows_flush follows_acquire reachable_inv [OF assms] by blast

lemma buffer_life_cycle_witness: "follows (\<lambda>t. acquire_edge) demo_flushed demo_acquired"
  using buffer_life_cycle [OF demo_reachable(3)] demo_acquire_eq by blast

end
