(* ===== verification/Buffer_Queue_Limits.thy ===== *)
theory Buffer_Queue_Limits
  imports Buffer_Queue_Props
begin

text \<open>
  Limits of \<open>BufferQueue\<close>: the checks of a request's configuration, the queue size, and the
  situations in which the code does not keep what it promises elsewhere: attaching to a full
  queue, attaching twice, the shared mode, and two releases whose sections interleave.
\<close>

section \<open>The checks of a request\<close>

lemma align_cases: "unat (a :: 32 word) \<le> 32 \<Longrightarrow> a \<in> word_of_nat ` set [0..<33]"
proof -
  assume "unat a \<le> 32"
  then have "a = word_of_nat (unat a)" "unat a \<in> set [0..<33]" by auto
  then show ?thesis by blast
qed

lemma align_power:
  "SURFACE_MIN_STRIDE_ALIGNMENT \<le> a \<and> a \<le> SURFACE_MAX_STRIDE_ALIGNMENT \<and> and a (a - 1) = 0 \<longleftrightarrow>
   a \<in> {4, 8, 16, 32}"
proof (cases "unat a \<le> 32")
  case True
  have chk: "\<forall>n \<in> set [0..<33]. SURFACE_MIN_STRIDE_ALIGNMENT \<le> (word_of_nat n :: 32 word) \<and>
      word_of_nat n \<le> SURFACE_MAX_STRIDE_ALIGNMENT \<and> and (word_of_nat n :: 32 word) (word_of_nat n - 1) = 0 \<longleftrightarrow>
      (word_of_nat n :: 32 word) \<in> {4, 8, 16, 32}" by code_simp
  from align_cases [OF True] obtain n where "n \<in> set [0..<33]" "a = word_of_nat n" by blast
  with bspec [OF chk, of n] show ?thesis by simp
next
  case False
  then have "\<not> a \<le> SURFACE_MAX_STRIDE_ALIGNMENT" by (simp add: word_le_nat_alt SURFACE_MAX_STRIDE_ALIGNMENT_def)
  moreover have "a \<notin> {4, 8, 16, 32}" using False by auto
  ultimately show ?thesis by blast
qed

text \<open>
  A request's configuration is accepted exactly when the size is positive, the stride alignment
  is 4, 8, 16 or 32, and format, colour gamut, transform and scaling mode are in range; for an
  alignment that is an \<open>int32_t\<close>.
\<close>

theorem request_config_accepted_iff:
  assumes "- 2147483648 \<le> strideAlignment c" and "strideAlignment c < 2147483648"
  shows "CheckRequestConfig k c = GSERROR_OK \<longleftrightarrow>
    0 < width c \<and> 0 < height c \<and> strideAlignment c \<in> {4, 8, 16, 32} \<and>
    0 \<le> format c \<and> format c \<le> PIXEL_FMT_BUTT k \<and>
    COLOR_GAMUT_INVALID k < colorGamut c \<and> colorGamut c \<le> COLOR_GAMUT_DISPLAY_BT2020 k + 1 \<and>
    ROTATE_NONE k \<le> transform c \<and> transform c < ROTATE_BUTT k \<and>
    0 \<le> scalingMode c \<and> scalingMode c \<le> 3"
proof -
  let ?a = "word_of_int (strideAlignment c) :: 32 word"
  have inj: "?a = word_of_int n \<longleftrightarrow> strideAlignment c = n" if "0 \<le> n" "n \<le> 32" for n
  proof -
    have "?a = word_of_int n \<longleftrightarrow> sint ?a = sint (word_of_int n :: 32 word)" by (rule word_eq_iff_signed)
    also have "\<dots> \<longleftrightarrow> strideAlignment c = n"
      using assms that by (simp add: signed_of_int signed_take_bit_int_eq_self)
    finally show ?thesis .
  qed
  have "?a \<in> {4, 8, 16, 32} \<longleftrightarrow> strideAlignment c \<in> {4, 8, 16, 32}"
    using inj [of 4] inj [of 8] inj [of 16] inj [of 32] by simp
  then have al: "SURFACE_MIN_STRIDE_ALIGNMENT \<le> ?a \<and> ?a \<le> SURFACE_MAX_STRIDE_ALIGNMENT \<and> and ?a (?a - 1) = 0 \<longleftrightarrow>
      strideAlignment c \<in> {4, 8, 16, 32}" using align_power [of ?a] by simp
  have ne: "GSERROR_INVALID_ARGUMENTS \<noteq> GSERROR_OK" by (simp add: gs)
  show ?thesis
    using al ne unfolding CheckRequestConfig_def Let_def scaling_mode_value.simps
    by (smt (verit))
qed

lemma request_config_accepted_iff_witness: "CheckRequestConfig demo_disp demo_config = GSERROR_OK"
  using request_config_accepted_iff [of demo_config demo_disp] by (simp add: demo_config_def demo_disp_def)

section \<open>The queue size\<close>

definition live_buffers :: "buffer_queue \<Rightarrow> nat" where
  "live_buffers q = length (filter (\<lambda>p. \<not> isDeleting (snd p)) (bufferQueueCache q))"

lemma mark_deleting_live:
  "0 < c \<Longrightarrow> length (filter (\<lambda>p. \<not> isDeleting (snd p)) (mark_deleting c m)) \<le> length m - nat c"
proof (induction c m rule: mark_deleting.induct)
  case (1 c)
  then show ?case by simp
next
  case (2 c s e m)
  show ?case
  proof (cases "c - 1 \<le> 0")
    case True
    with 2 have "nat c = 1" by simp
    with True length_filter_le [of "\<lambda>p. \<not> isDeleting (snd p)" m] show ?thesis by simp
  next
    case False
    with 2 have "length (filter (\<lambda>p. \<not> isDeleting (snd p)) (mark_deleting (c - 1) m)) \<le> length m - nat (c - 1)" by simp
    with False show ?thesis by (simp add: nat_diff_distrib)
  qed
qed

lemma fold_Delete_length:
  "om_wf (bufferQueueCache q) \<Longrightarrow> distinct del \<Longrightarrow> (\<forall>s \<in> set del. om_has s (bufferQueueCache q)) \<Longrightarrow>
   length (bufferQueueCache (fold DeleteBufferInCache del q)) = length (bufferQueueCache q) - length del"
proof (induction del arbitrary: q)
  case Nil
  then show ?case by simp
next
  case (Cons s del)
  then obtain e where "map_of (bufferQueueCache q) s = Some e" by (auto simp: om_has_def)
  then have "length (om_del s (bufferQueueCache q)) = length (bufferQueueCache q) - 1"
    using length_om_del [OF Cons.prems(1)] by simp
  moreover have "\<forall>t \<in> set del. om_has t (bufferQueueCache (DeleteBufferInCache s q))"
    using Cons.prems(2,3) by (auto simp: om_has_def)
  ultimately show ?case using Cons.IH [of "DeleteBufferInCache s q"] Cons.prems by simp
qed

lemma delete_locked_live:
  assumes inv: "bq_inv q" and pos: "0 < count"
  shows "live_buffers (delete_locked count q) \<le> length (bufferQueueCache q) - nat count"
proof -
  have live_le: "live_buffers r \<le> length (bufferQueueCache r)" for r by (simp add: live_buffers_def)
  have has: "om_has s (bufferQueueCache r)" if "bq_inv r" "s \<in> set (freeList r) \<union> set (dirtyList r)" for r s
    using that inv_free_entry [OF that(1), of s] inv_dirty_entry [OF that(1), of s] by (auto simp: om_has_def)
  obtain c1 free q1 where l1: "delete_loop (freeList q) count q = (c1, free, q1)" by (metis prod_cases3)
  from delete_loop_prefix [OF l1 pos] obtain del1 where
    d1: "freeList q = del1 @ free" "q1 = fold DeleteBufferInCache del1 q" "c1 = count - int (length del1)" "0 \<le> c1" by blast
  let ?q1 = "q1\<lparr>freeList := free\<rparr>"
  have i1: "bq_inv ?q1" using fold_Delete_free [OF inv d1(1)] d1(2) by simp
  have "distinct del1" using bq_invD(5) [OF inv] d1(1) by (simp add: lists_ok_def)
  then have len1: "length (bufferQueueCache q1) = length (bufferQueueCache q) - length del1"
    using fold_Delete_length [of q del1] bq_invD(2) [OF inv] has [OF inv] d1(1,2) by simp
  show ?thesis
  proof (cases "c1 \<le> 0")
    case True
    then have "delete_locked count q = ?q1" using l1 by (simp add: delete_locked_def Let_def)
    with True d1(3,4) len1 live_le [of ?q1] show ?thesis by simp
  next
    case c1: False
    obtain c2 dirty q2 where l2: "delete_loop (dirtyList ?q1) c1 ?q1 = (c2, dirty, q2)" by (metis prod_cases3)
    from delete_loop_prefix [OF l2] c1 obtain del2 where
      d2: "dirtyList ?q1 = del2 @ dirty" "q2 = fold DeleteBufferInCache del2 ?q1" "c2 = c1 - int (length del2)" "0 \<le> c2"
      by fastforce
    have "distinct del2" using bq_invD(5) [OF i1] d2(1) by (simp add: lists_ok_def)
    then have len2: "length (bufferQueueCache q2) = length (bufferQueueCache q) - length del1 - length del2"
      using fold_Delete_length [of ?q1 del2] bq_invD(2) [OF i1] has [OF i1] d2(1,2) len1 by simp
    have DB: "delete_locked count q = (if c2 \<le> 0 then q2\<lparr>dirtyList := dirty\<rparr>
        else (q2\<lparr>dirtyList := dirty\<rparr>)\<lparr>bufferQueueCache := mark_deleting c2 (bufferQueueCache (q2\<lparr>dirtyList := dirty\<rparr>))\<rparr>)"
      using l1 l2 c1 by (simp add: delete_locked_def Let_def)
    show ?thesis
    proof (cases "c2 \<le> 0")
      case True
      with DB d1(3) d2(3,4) len2 live_le [of "q2\<lparr>dirtyList := dirty\<rparr>"] show ?thesis by simp
    next
      case False
      then have "live_buffers (delete_locked count q) \<le> length (bufferQueueCache q2) - nat c2"
        using DB mark_deleting_live [of c2 "bufferQueueCache q2"] by (simp add: live_buffers_def)
      with d1(3) d2(3) len2 False show ?thesis by simp
    qed
  qed
qed

lemma sint_size_diff:
  assumes "unat a \<le> 32" and "unat b \<le> 32"
  shows "sint (a - b :: 32 word) = int (unat a) - int (unat b)"
proof -
  obtain m n where mn: "unat a = m" "unat b = n" by blast
  then have "a = word_of_nat m" "b = word_of_nat n" by (metis of_nat_unat ucast_id)+
  then have "a - b = word_of_int (int m - int n)" by simp
  moreover have "sint (word_of_int (int m - int n) :: 32 word) = int m - int n"
    using assms mn by (simp add: signed_of_int signed_take_bit_int_eq_self del: of_int_diff)
  ultimately show ?thesis using mn by simp
qed

text \<open>
  C22. \<open>SetQueueSize\<close> on a queue that holds at most its current size: a size outside 1 to 32 is
  refused and changes nothing; otherwise the size is set and at most that many buffers stay
  alive, the others being deleted or marked for deletion.
\<close>

theorem set_queue_size_bounds_live:
  assumes "reachable env q" and "length (bufferQueueCache q) \<le> unat (queueSize q)"
    and "bq_SetQueueSize n q = (ret, q')"
  shows "if 1 \<le> unat n \<and> unat n \<le> 32
    then ret = GSERROR_OK \<and> queueSize q' = n \<and> live_buffers q' \<le> unat n
    else ret = GSERROR_INVALID_ARGUMENTS \<and> q' = q"
proof (cases "1 \<le> unat n \<and> unat n \<le> 32")
  case False
  with assms(3) show ?thesis
    by (auto simp: SetQueueSize_eq SURFACE_MAX_QUEUE_SIZE_def word_le_nat_alt word_less_nat_alt
        not_le split: if_splits)
next
  case True
  have inv: "bq_inv q" using assms(1) by (rule reachable_inv)
  have n: "0 < n" "n \<le> SURFACE_MAX_QUEUE_SIZE"
    using True by (auto simp: SURFACE_MAX_QUEUE_SIZE_def word_le_nat_alt word_less_nat_alt)
  let ?r = "if sint (queueSize q - n) \<le> 0 then q else delete_locked (sint (queueSize q - n)) q"
  have ret: "ret = GSERROR_OK" and q': "q' = ?r\<lparr>queueSize := n\<rparr>"
    using assms(3) n bq_invD(1) [OF inv] by (auto simp: SetQueueSize_eq not_le split: if_splits)
  obtain m k where mk: "unat (queueSize q) = m" "unat n = k" by blast
  have d: "sint (queueSize q - n) = int m - int k"
    using sint_size_diff queueSize_unat [OF inv] True mk by metis
  have live: "live_buffers q' = live_buffers ?r"
    using q' by (simp add: live_buffers_def)
  have "live_buffers q' \<le> k"
  proof (cases "0 < sint (queueSize q - n)")
    case False
    then have "live_buffers q' = live_buffers q" using live by simp
    also have "\<dots> \<le> length (bufferQueueCache q)" by (simp add: live_buffers_def)
    finally show ?thesis using False d assms(2) mk by simp
  next
    case True
    from delete_locked_live [OF inv True] True live d assms(2) mk show ?thesis by simp
  qed
  with True ret q' mk show ?thesis by simp
qed

lemma set_queue_size_bounds_live_witness:
  "fst (bq_SetQueueSize 1 demo_requested) = GSERROR_OK \<and> live_buffers (snd (bq_SetQueueSize 1 demo_requested)) \<le> 1"
proof -
  have "length (bufferQueueCache demo_requested) \<le> unat (queueSize demo_requested)" by code_simp
  from set_queue_size_bounds_live [OF demo_reachable(2) this surjective_pairing, of 1] show ?thesis by simp
qed

section \<open>Where the queue falls short\<close>

lemma bq_steps_do: "bq_steps env q0 q \<Longrightarrow> bq_steps env q0 (bq_do env x q)"
proof (cases x)
  case (Call_Request c)
  assume st: "bq_steps env q0 q"
  show ?thesis
  proof (cases "bq_RequestBuffer env id c q")
    case (Inl f)
    with Call_Request st show ?thesis by simp
  next
    case (Inr r)
    obtain ret bd rv q' where "r = (ret, bd, rv, q')" by (metis prod_cases4)
    with Inr Call_Request bq_steps.request [OF st, of id c] show ?thesis by (simp add: bq_steps.start)
  qed
next
  case (Call_Release b fence)
  then show "bq_steps env q0 q \<Longrightarrow> ?thesis" using bq_steps_release [OF _ surjective_pairing] by simp
next
  case (Call_Attach b)
  assume st: "bq_steps env q0 q"
  show ?thesis
  proof (cases "in_cache b q \<or> (\<exists>f. bq_AttachBuffer env b q = Inl f) \<or> deref q b = None")
    case True
    with st Call_Attach show ?thesis by (auto simp: bq_AttachBuffer_def)
  next
    case False
    then obtain sb ret q' where "deref q b = Some sb" "bq_AttachBuffer env b q = Inr (ret, q')"
      by (cases "bq_AttachBuffer env b q") auto
    with False st Call_Attach bq_steps.attach [OF st, of b sb ret q'] show ?thesis
      by (simp add: in_cache_def om_has_def)
  qed
next
  case (Call_Resize n)
  then show "bq_steps env q0 q \<Longrightarrow> ?thesis" using bq_steps.resize [OF _ surjective_pairing] by simp
next
  case (Call_Detach b)
  then show "bq_steps env q0 q \<Longrightarrow> ?thesis" using bq_steps.detach [OF _ surjective_pairing] by simp
qed (auto intro: bq_steps.cancel bq_steps.setting bq_steps.clean split: sum.split)

lemma reachable_do: "reachable env q \<Longrightarrow> reachable env (bq_do env x q)"
  unfolding reachable_def using bq_steps_do by blast

lemma reachable_resize: "reachable env q \<Longrightarrow> reachable env (snd (bq_SetQueueSize n q))"
  unfolding reachable_def using bq_steps.resize [OF _ surjective_pairing] by blast

text \<open>
  C36. \<open>AttachBuffer\<close> locks \<open>mutex_\<close> a second time, and waits for itself for ever, exactly when the
  queue is full and has enough free and dirty buffers to make room: it holds the lock when it
  calls \<open>DeleteBuffers\<close>, whose count is positive then, so that \<open>DeleteBuffers\<close> locks it too. The
  branch meant to make room never succeeds.
\<close>

theorem attach_to_full_queue_deadlocks:
  assumes "reachable env q" and "deref q buffer = Some sb"
  shows "bq_AttachBuffer env buffer q = Inl SelfDeadlock \<longleftrightarrow>
    unat (queueSize q) \<le> length (bufferQueueCache q) \<and>
    length (bufferQueueCache q) < length (dirtyList q) + length (freeList q) + unat (queueSize q)"
proof (cases "length (bufferQueueCache q) < unat (queueSize q)")
  case True
  have inv: "bq_inv q" using assms(1) by (rule reachable_inv)
  obtain n where n: "unat (queueSize q) = n" by blast
  show ?thesis
    using bq_invD(1) [OF inv] assms(2) True unfolding n
    by (simp add: bq_AttachBuffer_def lock_guard_def DeleteBuffers_def Let_def sint_queueSize [OF inv n] sint_usedSize [OF inv])
next
  case False
  with AttachBuffer_cases [OF reachable_inv [OF assms(1)] assms(2), of env] show ?thesis by auto
qed

text \<open>A queue of size one whose only buffer was requested and given back.\<close>

definition demo_full :: buffer_queue where
  "demo_full = (demo_at [0] [] BUFFER_STATE_RELEASED (Some 0) 0 zero_rect None 2 [NotifyAll])\<lparr>queueSize := 1\<rparr>"

lemma demo_full_eq:
  "bq_do demo_env (Call_Cancel 0 None) (bq_do demo_env (Call_Request demo_config) (snd (bq_SetQueueSize 1 demo_start))) = demo_full"
  by code_simp

lemma attach_to_full_queue_deadlocks_witness:
  "reachable demo_env demo_full \<and> bq_AttachBuffer demo_env (Some 0) demo_full = Inl SelfDeadlock"
proof -
  have r: "reachable demo_env demo_full"
    unfolding demo_full_eq [symmetric] by (intro reachable_do reachable_resize demo_reachable)
  have "deref demo_full (Some 0) = Some (hd (objs demo_full)) \<and>
    unat (queueSize demo_full) \<le> length (bufferQueueCache demo_full) \<and>
    length (bufferQueueCache demo_full) < length (dirtyList demo_full) + length (freeList demo_full) + unat (queueSize demo_full)"
    by code_simp
  with attach_to_full_queue_deadlocks [OF r] r show ?thesis by blast
qed

text \<open>
  \<open>AttachBuffer\<close> does not check whether the buffer is in the queue already. Attaching a
  released buffer again succeeds and leaves it on the free list as attached, so that the next
  request hands the consumer's buffer to a producer.
\<close>

theorem attach_again_breaks_free_list:
  assumes "reachable env q" and "deref q buffer = Some sb"
    and "state_of q (sequenceNumber sb) = Some BUFFER_STATE_RELEASED"
    and "length (bufferQueueCache q) < unat (queueSize q)"
  shows "\<exists>q'. bq_AttachBuffer env buffer q = Inr (GSERROR_OK, q') \<and>
    state_of q' (sequenceNumber sb) = Some BUFFER_STATE_ATTACHED \<and> sequenceNumber sb \<in> set (freeList q')"
proof -
  have inv: "bq_inv q" using assms(1) by (rule reachable_inv)
  obtain n where n: "unat (queueSize q) = n" by blast
  have "sequenceNumber sb \<in> set (freeList q)" using inv assms(3) by (simp add: bq_inv_def lists_ok_def)
  then show ?thesis
    using bq_invD(1) [OF inv] assms(2,4) unfolding n
    by (simp add: bq_AttachBuffer_def lock_guard_def DeleteBuffers_def Let_def sint_queueSize [OF inv n] sint_usedSize [OF inv] state_of_def)
qed

lemma attach_again_breaks_free_list_witness:
  "\<exists>q'. bq_AttachBuffer demo_env (Some 0) demo_released = Inr (GSERROR_OK, q') \<and>
    state_of q' 0 = Some BUFFER_STATE_ATTACHED \<and> 0 \<in> set (freeList q')"
proof -
  let ?sb = "hd (objs demo_released)"
  have "deref demo_released (Some 0) = Some ?sb \<and> sequenceNumber ?sb = 0 \<and>
    state_of demo_released (sequenceNumber ?sb) = Some BUFFER_STATE_RELEASED \<and>
    length (bufferQueueCache demo_released) < unat (queueSize demo_released)" by code_simp
  then have sb: "deref demo_released (Some 0) = Some ?sb" "sequenceNumber ?sb = 0"
    "state_of demo_released (sequenceNumber ?sb) = Some BUFFER_STATE_RELEASED"
    "length (bufferQueueCache demo_released) < unat (queueSize demo_released)" by blast+
  from attach_again_breaks_free_list [OF demo_reachable(5) sb(1,3,4)] sb(2) show ?thesis by simp
qed

text \<open>
  Marking for deletion counts buffers that are marked already. Shrinking a full queue of
  three held buffers to two and then to one leaves two buffers alive, more than the size set.
\<close>

definition demo_three :: buffer_queue where
  "demo_three =
     (let q = demo_requested; e = snd (hd (bufferQueueCache q)); sb = hd (objs q)
      in q\<lparr>bufferQueueCache := map (\<lambda>i. (int i, e\<lparr>ebuffer := Some i\<rparr>)) [0, 1, 2],
           objs := map (\<lambda>i. sb\<lparr>sequenceNumber := int i, bedata := Some i\<rparr>) [0, 1, 2],
           seqCounter := 3, calls := 6\<rparr>)"

definition demo_shrunk :: buffer_queue where
  "demo_shrunk = snd (bq_SetQueueSize 1 (snd (bq_SetQueueSize 2 demo_three)))"

lemma demo_three_eq:
  "bq_do demo_env (Call_Request demo_config) (bq_do demo_env (Call_Request demo_config) demo_requested) = demo_three"
  by code_simp

theorem shrinking_twice_keeps_too_many:
  "reachable demo_env demo_shrunk \<and> queueSize demo_shrunk = 1 \<and> live_buffers demo_shrunk = 2"
proof -
  have "reachable demo_env demo_shrunk"
    unfolding demo_shrunk_def demo_three_eq [symmetric]
    by (intro reachable_resize reachable_do demo_reachable)
  moreover have "(queueSize demo_shrunk, live_buffers demo_shrunk) = (1, 2)" by code_simp
  ultimately show ?thesis by simp
qed

text \<open>
  \<open>ReleaseBuffer\<close> checks the buffer's state in one locked section and changes it in another.
  Two releases of one acquired buffer that both pass the check before either commits put its
  number on the free list twice, so that two producers can be given the same buffer.
\<close>

theorem concurrent_release_duplicates:
  assumes "reachable env q" and "map_of (bufferQueueCache q) s = Some e" and "estate e = BUFFER_STATE_ACQUIRED"
    and "\<not> isDeleting e"
  shows "release_check s q = GSERROR_OK \<and>
    freeList (release_commit env s f2 (release_commit env s f1 q)) = freeList q @ [s, s]"
proof -
  have inv: "bq_inv q" using assms(1) by (rule reachable_inv)
  have ce: "cache_elem k s q = e" for k using assms(2) by (rule cache_elem_Some)
  have "release_check s q = GSERROR_OK" using assms(2,3) by (simp add: release_check_def)
  moreover have "freeList (release_commit env s f2 (release_commit env s f1 q)) = freeList q @ [s, s]"
    using assms(4) ce by (simp add: release_commit_def Let_def)
  ultimately show ?thesis by blast
qed

lemma concurrent_release_duplicates_witness:
  "freeList (release_commit demo_env 0 (Some 3) (release_commit demo_env 0 (Some 4) demo_acquired)) = [0, 0]"
proof -
  let ?e = "cache_elem demo_disp 0 demo_acquired"
  have "map_of (bufferQueueCache demo_acquired) 0 = Some ?e \<and> estate ?e = BUFFER_STATE_ACQUIRED \<and>
    \<not> isDeleting ?e \<and> freeList demo_acquired = []" by code_simp
  with concurrent_release_duplicates [OF demo_reachable(4), of 0 ?e "Some 3" "Some 4"] show ?thesis by simp
qed

text \<open>
  In the shared mode every flush appends the buffer's number to the dirty list and no acquire
  takes it off: each frame makes the list one entry longer.
\<close>

theorem shared_dirty_list_grows:
  assumes "isShared q" and "bufferQueueCache q = [(s, e)]" and "\<not> isDeleting e"
    and "deref q (ebuffer e) = Some sb" and "sequenceNumber sb = s" and "listener q \<noteq> None"
    and "CheckFlushConfig fc = GSERROR_OK"
  shows "\<exists>ret q1 ret2 out q2. bq_FlushBuffer env s bd fence fc q = Inr (ret, q1) \<and>
    bq_AcquireBuffer env q1 = Inr (ret2, out, q2) \<and> dirtyList q2 = dirtyList q @ [s]"
proof -
  let ?k = "disp env"
  have m: "map_of (bufferQueueCache q) s = Some e" using assms(2) by simp
  have ce: "cache_elem ?k s q = e" using m by (rule cache_elem_Some)
  let ?q1 = "(cache_write ?k s (\<lambda>e. e\<lparr>estate := BUFFER_STATE_FLUSHED\<rparr>) q)\<lparr>dirtyList := dirtyList q @ [s]\<rparr>"
  obtain q2 where se: "set_extra (ebuffer e) bd ?q1 = Some q2"
    and q2: "bufferQueueCache q2 = bufferQueueCache ?q1" "dirtyList q2 = dirtyList q @ [s]" "isShared q2"
      "deref q2 (ebuffer e) = Some (sb_SetExtraData bd sb)" "listener q2 = listener q" 
    using assms(1,4) by (auto simp: set_extra_def deref_def split: option.splits if_splits)
  let ?q3 = "cache_write ?k s (\<lambda>e. e\<lparr>efence := fence, edamage := damage fc\<rparr>) q2"
  obtain ret q4 where ff: "flush_finish env s fc ?q3 = (ret, q4)" by fastforce
  have c2: "bufferQueueCache q2 = [(s, e\<lparr>estate := BUFFER_STATE_FLUSHED\<rparr>)]"
    using q2(1) assms(2) ce by (simp add: cache_write_def)
  then have c3: "bufferQueueCache ?q3 = [(s, e\<lparr>estate := BUFFER_STATE_FLUSHED, efence := fence, edamage := damage fc\<rparr>)]"
    by (simp add: cache_write_def cache_elem_def)
  have q4: "\<exists>e4. bufferQueueCache q4 = [(s, e4)] \<and> ebuffer e4 = ebuffer e"
    "dirtyList q4 = dirtyList q @ [s]" "isShared q4" "objs q4 = objs q2"
    using ff c3 q2(2,3) by (auto simp: flush_finish_def Let_def cache_write_def cache_elem_def split: if_splits)
  have "DoFlushBuffer env s bd fence fc q = Inr (ret, q4)"
    using ce m assms(3) se ff by (simp add: DoFlushBuffer_def Let_def cache_touch_present)
  moreover have "flush_check s q = GSERROR_OK" using m assms(1) by (simp add: flush_check_def)
  moreover define q5 where "q5 = (if gs_ne ret GSERROR_OK then q4 else emit BufferAvailable q4)"
  ultimately have fl: "bq_FlushBuffer env s bd fence fc q = Inr (ret, q5)"
    using assms(6,7) by (auto simp: flush_defs Let_def)
  have q5: "bufferQueueCache q5 = bufferQueueCache q4" "dirtyList q5 = dirtyList q4" "isShared q5" "objs q5 = objs q4"
    using q4(3) by (simp_all add: q5_def)
  have "deref q5 (ebuffer e) = Some (sb_SetExtraData bd sb)"
    using q2(4) unfolding deref_def q5(4) q4(4) .
  moreover have "GetUsedSize q5 > 0" using q5(1) q4(1) by (auto simp: GetUsedSize_def)
  ultimately have "\<exists>ret2 out q6. bq_AcquireBuffer env q5 = Inr (ret2, out, q6) \<and> dirtyList q6 = dirtyList q @ [s]"
    using q4(1,2) q5 by (auto simp: bq_AcquireBuffer_def PopFromDirtyList_def Let_def)
  with fl show ?thesis by blast
qed

definition demo_shared :: buffer_queue where
  "demo_shared = demo_requested\<lparr>isShared := True, queueSize := 1\<rparr>"

lemma shared_dirty_list_grows_witness:
  "\<exists>ret q1 ret2 out q2. bq_FlushBuffer demo_env 0 None None demo_flush_config demo_shared = Inr (ret, q1) \<and>
    bq_AcquireBuffer demo_env q1 = Inr (ret2, out, q2) \<and> dirtyList q2 = dirtyList demo_shared @ [0]"
proof -
  let ?e = "cache_elem demo_disp 0 demo_shared" and ?sb = "hd (objs demo_shared)"
  have "isShared demo_shared \<and> bufferQueueCache demo_shared = [(0, ?e)] \<and> \<not> isDeleting ?e \<and>
    deref demo_shared (ebuffer ?e) = Some ?sb \<and> sequenceNumber ?sb = 0 \<and> listener demo_shared = Some 0 \<and>
    CheckFlushConfig demo_flush_config = GSERROR_OK" by code_simp
  with shared_dirty_list_grows [of demo_shared 0 ?e ?sb demo_flush_config] show ?thesis by simp
qed

text \<open>
  \<open>FlushBuffer\<close> lets the lock go after its checks. When another thread takes the buffer out of the
  queue before \<open>DoFlushBuffer\<close> has the lock again (\<open>CleanCache\<close>, \<open>DetachBuffer\<close>),
  \<open>bufferQueueCache_[sequence]\<close> makes a default element, whose null buffer is dereferenced.
\<close>

theorem flush_of_lost_buffer_crashes:
  assumes "reachable env q" and "flushable (state_of q s)" and "CheckFlushConfig fc = GSERROR_OK"
    and "state_of (gap q) s = None" and "listener (gap q) \<noteq> None"
  shows "bq_FlushBuffer_gap env gap s bd fence fc q = Inl NullDeref"
proof -
  have "flush_check s q = GSERROR_OK"
    using assms(2) flush_check_eq [OF bq_invD(1) [OF reachable_inv [OF assms(1)]], of s] by simp
  moreover have "map_of (bufferQueueCache (gap q)) s = None" using assms(4) by (simp add: state_of_def)
  then have "DoFlushBuffer env s bd fence fc (gap q) = Inl NullDeref"
    by (simp add: DoFlushBuffer_def Let_def cache_touch_def cache_write_def cache_elem_def om_has_def
        default_element_def set_extra_def deref_def)
  ultimately show ?thesis using assms(3,5) by (auto simp: bq_FlushBuffer_gap_def Let_def)
qed

lemma flush_of_lost_buffer_crashes_witness:
  "bq_FlushBuffer_gap demo_env (\<lambda>q. snd (bq_CleanCache q)) 0 None (Some 9) demo_flush_config demo_requested = Inl NullDeref"
proof -
  let ?gap = "\<lambda>q. snd (bq_CleanCache q)"
  have "state_of demo_requested 0 = Some BUFFER_STATE_REQUESTED \<and> CheckFlushConfig demo_flush_config = GSERROR_OK \<and>
    state_of (?gap demo_requested) 0 = None \<and> listener (?gap demo_requested) = Some 0" by code_simp
  then show ?thesis by (intro flush_of_lost_buffer_crashes demo_reachable) (simp_all add: flushable_def)
qed

section \<open>Identifiers\<close>

text \<open>
  The unique id of a queue determines the process that made it and its number there, for
  process ids below \<open>2^32\<close>: ids of different queues differ.
\<close>

theorem unique_id_injective:
  assumes "pid1 < 2 ^ 32" and "pid2 < 2 ^ 32"
    and "fst (GetUniqueIdImpl pid1 c1) = fst (GetUniqueIdImpl pid2 c2)"
  shows "pid1 = pid2 \<and> c1 = c2"
proof -
  have bits: "or (push_bit 32 pid1) (ucast c1 :: 64 word) = or (push_bit 32 pid2) (ucast c2)"
    using assms(3) by (simp add: GetUniqueIdImpl_def)
  have low: "take_bit 32 (or (push_bit 32 p) (ucast c)) = (ucast c :: 64 word)" for p and c :: "32 word"
    by (rule bit_word_eqI) (auto simp: bit_simps dest: bit_imp_le_length)
  have high: "drop_bit 32 (or (push_bit 32 p) (ucast c)) = p" if "p < 2 ^ 32" for p :: "64 word" and c :: "32 word"
  proof -
    have "uint p < 2 ^ 32" using that by (simp add: word_less_def)
    then have "take_bit 32 (uint p) = uint p" by (simp add: take_bit_int_eq_self)
    then have "bit p n \<Longrightarrow> n < 32" for n by (metis bit_take_bit_iff bit_uint_iff bit_imp_le_length)
    then show ?thesis by (intro bit_word_eqI) (auto simp: bit_simps dest: bit_imp_le_length)
  qed
  have "(ucast c1 :: 64 word) = ucast c2" using low bits by metis
  then have same: "bit (ucast c1 :: 64 word) n = bit (ucast c2 :: 64 word) n" for n by simp
  have "bit c1 n = bit c2 n" if "n < 32" for n using that same [of n] by (simp add: bit_unsigned_iff)
  then have "c1 = c2" by (intro bit_word_eqI) simp
  with high assms(1,2) bits show ?thesis by metis
qed

lemma unique_id_injective_witness:
  "fst (GetUniqueIdImpl 7 1) \<noteq> fst (GetUniqueIdImpl 8 1)"
  using unique_id_injective [of 7 8 1 1] by auto

end
