(* ===== verification/VSync_Generator.thy ===== *)
theory VSync_Generator
  imports Graphic_Error
begin

text \<open>
  \<open>impl::VSyncGenerator\<close> and \<open>VSyncController\<close>
  (\<open>rosen/modules/composer/vsync/src/vsync_generator.cpp\<close>, \<open>vsync_controller.cpp\<close>): the software
  clock that fires listeners once per period, each at its own phase.

  Times are nanoseconds in \<open>int64_t\<close> and are kept as \<open>int\<close>: the clock counts from boot, so the sums
  stay far below \<open>2^63\<close>. Division truncates (\<open>cdiv\<close>). A division by a zero period, which stops the
  process, is the result \<open>None\<close>. The clock (\<open>GetSysTimeNs\<close>) is an argument \<open>now\<close>.
  \<open>ThreadLoop\<close> holds its lock in two sections per round with a sleep in between; they are
  \<open>ThreadLoop_plan\<close> and \<open>ThreadLoop_fire\<close>, so that other calls can come between them.
\<close>

record vlistener =
  lphase :: int
  lcallback :: nat
  lastTime :: int

record vgen =
  period :: int
  phase :: int
  refrenceTime :: int
  wakeupDelay :: int
  listeners :: "vlistener list"

definition maxWaleupDelay :: int where "maxWaleupDelay = 1500000"
definition errorThreshold :: int where "errorThreshold = 500000"
definition INT64_MAX :: int where "INT64_MAX = 9223372036854775807"

definition new_VSyncGenerator :: vgen where
  "new_VSyncGenerator = \<lparr>period = 0, phase = 0, refrenceTime = 0, wakeupDelay = 0, listeners = []\<rparr>"

section \<open>Computing the next time\<close>

definition ComputeListenerNextVSyncTimeStamp :: "vgen \<Rightarrow> vlistener \<Rightarrow> int \<Rightarrow> int option" where
  "ComputeListenerNextVSyncTimeStamp g l now =
     (let lastVSyncTime = lastTime l + wakeupDelay g;
          now = (if now < lastVSyncTime then lastVSyncTime else now);
          now = now - refrenceTime g;
          ph = phase g + lphase l;
          now = now - ph;
          now = (if now < 0 then - period g else now)
      in if period g = 0 then None
         else
           (let numPeriod = cdiv now (period g);
                nextTime = (numPeriod + 1) * period g + ph;
                nextTime = nextTime + refrenceTime g;
                nextTime = (if nextTime - lastTime l < cdiv (3 * period g) 5 then nextTime + period g else nextTime)
            in Some (nextTime - wakeupDelay g)))"

fun next_min :: "vgen \<Rightarrow> vlistener list \<Rightarrow> int \<Rightarrow> int \<Rightarrow> int option" where
  "next_min g [] now nextVSyncTime = Some nextVSyncTime"
| "next_min g (l # ls) now nextVSyncTime =
     (case ComputeListenerNextVSyncTimeStamp g l now of None \<Rightarrow> None
      | Some t \<Rightarrow> next_min g ls now (if t < nextVSyncTime then t else nextVSyncTime))"

definition ComputeNextVSyncTimeStamp :: "vgen \<Rightarrow> int \<Rightarrow> int option" where
  "ComputeNextVSyncTimeStamp g now = next_min g (listeners g) now INT64_MAX"

text \<open>The loop of \<open>GetListenerTimeouted\<close>: the listeners that fire, and the list with their times updated.\<close>

fun timeouted :: "vgen \<Rightarrow> int \<Rightarrow> vlistener list \<Rightarrow> (vlistener list \<times> vlistener list) option" where
  "timeouted g now [] = Some ([], [])"
| "timeouted g now (l # ls) =
     (case ComputeListenerNextVSyncTimeStamp g l (now - period g) of None \<Rightarrow> None
      | Some t \<Rightarrow>
          (case timeouted g now ls of None \<Rightarrow> None
           | Some (ret, ls') \<Rightarrow>
               (if t < now \<or> t - now < errorThreshold
                then Some (l\<lparr>lastTime := t\<rparr> # ret, l\<lparr>lastTime := t\<rparr> # ls')
                else Some (ret, l # ls'))))"

definition GetListenerTimeouted :: "vgen \<Rightarrow> int \<Rightarrow> (vlistener list \<times> vgen) option" where
  "GetListenerTimeouted g now =
     map_option (\<lambda>(ret, ls). (ret, g\<lparr>listeners := ls\<rparr>)) (timeouted g now (listeners g))"

section \<open>The thread\<close>

datatype plan = PlanWait | PlanSleep int int | PlanFire

text \<open>
  The first section: wait on the condition variable, sleep until a time (given with the time it was
  computed at), or go on at once. \<open>None\<close> is the division by zero.
\<close>

definition ThreadLoop_plan :: "vgen \<Rightarrow> int \<Rightarrow> plan option" where
  "ThreadLoop_plan g occurTimestamp =
     (if period g = 0 then Some PlanWait
      else case ComputeNextVSyncTimeStamp g occurTimestamp of
        None \<Rightarrow> None
      | Some nextTimeStamp \<Rightarrow>
          (if nextTimeStamp = INT64_MAX then Some PlanWait
           else if occurTimestamp < nextTimeStamp then Some (PlanSleep occurTimestamp nextTimeStamp)
           else Some PlanFire))"

text \<open>The second section: \<open>wake\<close> is the time slept for, when the thread slept.\<close>

definition ThreadLoop_fire :: "vgen \<Rightarrow> int option \<Rightarrow> int \<Rightarrow> (vlistener list \<times> vgen) option" where
  "ThreadLoop_fire g wake occurTimestamp =
     (let g = (case wake of None \<Rightarrow> g
               | Some nextTimeStamp \<Rightarrow>
                   (let d = cdiv (wakeupDelay g * 63 + (occurTimestamp - nextTimeStamp)) 64
                    in g\<lparr>wakeupDelay := (if d > maxWaleupDelay then maxWaleupDelay else d)\<rparr>))
      in GetListenerTimeouted g occurTimestamp)"

section \<open>Operations\<close>

definition vg_UpdateMode :: "int \<Rightarrow> int \<Rightarrow> int \<Rightarrow> vgen \<Rightarrow> gserror \<times> vgen" where
  "vg_UpdateMode p ph ref g =
     (if p < 0 \<or> ref < 0 then (VSYNC_ERROR_INVALID_ARGUMENTS, g)
      else (VSYNC_ERROR_OK, g\<lparr>period := p, phase := ph, refrenceTime := ref\<rparr>))"

definition vg_AddListener :: "int \<Rightarrow> int \<Rightarrow> nat option \<Rightarrow> vgen \<Rightarrow> gserror \<times> vgen" where
  "vg_AddListener now ph cb g =
     (case cb of None \<Rightarrow> (VSYNC_ERROR_INVALID_ARGUMENTS, g)
      | Some c \<Rightarrow> (VSYNC_ERROR_OK, g\<lparr>listeners := listeners g @
          [\<lparr>lphase = ph, lcallback = c, lastTime = now - cdiv (period g) 2 + phase g\<rparr>]\<rparr>))"

fun remove_cb :: "nat \<Rightarrow> vlistener list \<Rightarrow> vlistener list option" where
  "remove_cb c [] = None"
| "remove_cb c (l # ls) = (if lcallback l = c then Some ls else map_option ((#) l) (remove_cb c ls))"

definition vg_RemoveListener :: "nat option \<Rightarrow> vgen \<Rightarrow> gserror \<times> vgen" where
  "vg_RemoveListener cb g =
     (case cb of None \<Rightarrow> (VSYNC_ERROR_INVALID_ARGUMENTS, g)
      | Some c \<Rightarrow> (case remove_cb c (listeners g) of
                    None \<Rightarrow> (VSYNC_ERROR_INVALID_ARGUMENTS, g)
                  | Some ls \<Rightarrow> (VSYNC_ERROR_OK, g\<lparr>listeners := ls\<rparr>)))"

fun change_cb :: "nat \<Rightarrow> int \<Rightarrow> vlistener list \<Rightarrow> vlistener list option" where
  "change_cb c off [] = None"
| "change_cb c off (l # ls) =
     (if lcallback l = c then Some (l\<lparr>lphase := off\<rparr> # ls) else map_option ((#) l) (change_cb c off ls))"

definition vg_ChangePhaseOffset :: "nat option \<Rightarrow> int \<Rightarrow> vgen \<Rightarrow> gserror \<times> vgen" where
  "vg_ChangePhaseOffset cb off g =
     (case cb of None \<Rightarrow> (VSYNC_ERROR_INVALID_ARGUMENTS, g)
      | Some c \<Rightarrow> (case change_cb c off (listeners g) of
                    None \<Rightarrow> (VSYNC_ERROR_INVALID_OPERATING, g)
                  | Some ls \<Rightarrow> (VSYNC_ERROR_OK, g\<lparr>listeners := ls\<rparr>)))"

section \<open>The controller\<close>

text \<open>
  A \<open>VSyncController\<close> is one listener of the generator; \<open>self\<close> is its number. The generator is
  held weakly: \<open>None\<close> is a generator that is gone (or was never given).
\<close>

record vcontroller =
  self :: nat
  ccallback :: "nat option"
  phaseOffset :: int
  enabled :: bool

definition new_VSyncController :: "nat \<Rightarrow> int \<Rightarrow> vcontroller" where
  "new_VSyncController me off = \<lparr>self = me, ccallback = None, phaseOffset = off, enabled = False\<rparr>"

definition vc_SetEnable :: "int \<Rightarrow> bool \<Rightarrow> vcontroller \<Rightarrow> vgen option \<Rightarrow> gserror \<times> vcontroller \<times> vgen option" where
  "vc_SetEnable now en c gen =
     (case gen of None \<Rightarrow> (VSYNC_ERROR_NULLPTR, c, gen)
      | Some g \<Rightarrow>
          (let (ret, g) = (if en then vg_AddListener now (phaseOffset c) (Some (self c)) g
                           else vg_RemoveListener (Some (self c)) g)
           in (ret, c\<lparr>enabled := en\<rparr>, Some g)))"

definition vc_SetCallback :: "nat option \<Rightarrow> vcontroller \<Rightarrow> gserror \<times> vcontroller" where
  "vc_SetCallback cb c =
     (if cb = None then (VSYNC_ERROR_NULLPTR, c) else (VSYNC_ERROR_OK, c\<lparr>ccallback := cb\<rparr>))"

definition vc_SetPhaseOffset :: "int \<Rightarrow> vcontroller \<Rightarrow> vgen option \<Rightarrow> gserror \<times> vcontroller \<times> vgen option" where
  "vc_SetPhaseOffset off c gen =
     (case gen of None \<Rightarrow> (VSYNC_ERROR_NULLPTR, c, gen)
      | Some g \<Rightarrow>
          (let c = c\<lparr>phaseOffset := off\<rparr>;
               (ret, g) = vg_ChangePhaseOffset (Some (self c)) (phaseOffset c) g
           in (ret, c, Some g)))"

text \<open>\<open>OnVSyncEvent\<close> passes the time on: the callback called, if any.\<close>

definition vc_OnVSyncEvent :: "int \<Rightarrow> vcontroller \<Rightarrow> (nat \<times> int) option" where
  "vc_OnVSyncEvent now c = map_option (\<lambda>cb. (cb, now)) (ccallback c)"

section \<open>Lemmas\<close>

text \<open>The value computed, in terms of \<open>div\<close>, for a positive period.\<close>

lemma next_time_eq:
  fixes g :: vgen and l :: vlistener and now0 :: int
  assumes p: "0 < period g"
  defines "base \<equiv> refrenceTime g + phase g + lphase l"
    and "start \<equiv> max now0 (lastTime l + wakeupDelay g)"
  defines "nt \<equiv> (if start < base then base else base + ((start - base) div period g + 1) * period g)"
  shows "ComputeListenerNextVSyncTimeStamp g l now0 =
    Some ((if nt - lastTime l < (3 * period g) div 5 then nt + period g else nt) - wakeupDelay g)"
proof -
  have c5: "cdiv (3 * period g) 5 = (3 * period g) div 5" using p by (simp add: cdiv_nonneg)
  have neg: "cdiv (- period g) (period g) = - 1" using p by (simp add: cdiv_neg)
  have st: "(if now0 < lastTime l + wakeupDelay g then lastTime l + wakeupDelay g else now0) = start"
    by (simp add: start_def max_def)
  have sb: "start - refrenceTime g - (phase g + lphase l) = start - base" by (simp add: base_def)
  show ?thesis
  proof (cases "start < base")
    case True
    then have "(start - base < 0)" by simp
    then show ?thesis using p neg c5 True
      unfolding ComputeListenerNextVSyncTimeStamp_def Let_def st sb nt_def
      by (simp add: base_def algebra_simps)
  next
    case False
    then have "\<not> (start - base < 0)" "cdiv (start - base) (period g) = (start - base) div period g"
      using p by (simp_all add: cdiv_nonneg)
    then show ?thesis using p c5 False
      unfolding ComputeListenerNextVSyncTimeStamp_def Let_def st sb nt_def
      by (simp add: base_def algebra_simps)
  qed
qed

lemma div_step: "0 < (p::int) \<Longrightarrow> x < (x div p + 1) * p \<and> (x div p + 1) * p \<le> x + p"
proof -
  assume p: "0 < p"
  have "x = p * (x div p) + x mod p" "0 \<le> x mod p" "x mod p < p" using p by simp_all
  moreover have "(x div p + 1) * p = p * (x div p) + p" by (simp add: algebra_simps)
  ultimately show ?thesis by linarith
qed

text \<open>
  The next time of a listener lies on its grid, after the moment asked for and after the last event,
  at least three fifths of a period after the last event, and at most two periods ahead.
\<close>

lemma next_time_spec:
  fixes g :: vgen and l :: vlistener and now0 :: int
  assumes p: "0 < period g" and w: "0 \<le> wakeupDelay g"
    and t: "ComputeListenerNextVSyncTimeStamp g l now0 = Some t"
  defines "base \<equiv> refrenceTime g + phase g + lphase l"
    and "start \<equiv> max now0 (lastTime l + wakeupDelay g)"
  shows "(\<exists>n \<ge> 0. t + wakeupDelay g = base + n * period g) \<and> start < t + wakeupDelay g \<and>
    lastTime l < t \<and> (3 * period g) div 5 \<le> t + wakeupDelay g - lastTime l \<and>
    t + wakeupDelay g \<le> max start base + 2 * period g"
proof -
  define nt where "nt = (if start < base then base else base + ((start - base) div period g + 1) * period g)"
  have t': "t + wakeupDelay g = (if nt - lastTime l < (3 * period g) div 5 then nt + period g else nt)"
    using next_time_eq [OF p, of l now0] t unfolding nt_def base_def start_def by auto
  have grid: "\<exists>n \<ge> 0. nt = base + n * period g"
  proof (cases "start < base")
    case True
    then show ?thesis by (auto simp: nt_def intro!: exI [of _ 0])
  next
    case False
    with p have "0 \<le> (start - base) div period g + 1" by (simp add: pos_imp_zdiv_nonneg_iff)
    with False show ?thesis by (auto simp: nt_def)
  qed
  have after: "start < nt" "nt \<le> max start base + period g"
    using div_step [OF p, of "start - base"] p by (auto simp: nt_def)
  have last: "lastTime l + wakeupDelay g \<le> start" by (simp add: start_def)
  have "(3 * period g) div 5 \<le> period g" using p by linarith
  moreover have "\<exists>n \<ge> 0. t + wakeupDelay g = base + n * period g"
  proof -
    obtain n where "0 \<le> n" "nt = base + n * period g" using grid by blast
    moreover from this have "nt + period g = base + (n + 1) * period g" by (simp add: algebra_simps)
    ultimately show ?thesis unfolding t'
      by (cases "nt - lastTime l < (3 * period g) div 5") (auto intro: exI [of _ "n + 1"] exI [of _ n])
  qed
  ultimately show ?thesis using after last w p t' by (auto split: if_splits)
qed

lemma compute_defined: "period g \<noteq> 0 \<Longrightarrow> \<exists>t. ComputeListenerNextVSyncTimeStamp g l now = Some t"
  by (auto simp: ComputeListenerNextVSyncTimeStamp_def Let_def)

lemma compute_zero: "period g = 0 \<Longrightarrow> ComputeListenerNextVSyncTimeStamp g l now = None"
  by (simp add: ComputeListenerNextVSyncTimeStamp_def Let_def)

text \<open>What one pass of \<open>GetListenerTimeouted\<close> does to one listener.\<close>

definition fires :: "vgen \<Rightarrow> int \<Rightarrow> vlistener \<Rightarrow> bool" where
  "fires g now l = (the (ComputeListenerNextVSyncTimeStamp g l (now - period g)) < now + errorThreshold)"

definition fired :: "vgen \<Rightarrow> int \<Rightarrow> vlistener \<Rightarrow> vlistener" where
  "fired g now l = l\<lparr>lastTime := the (ComputeListenerNextVSyncTimeStamp g l (now - period g))\<rparr>"

lemma timeouted_eq:
  "period g \<noteq> 0 \<Longrightarrow> timeouted g now ls =
     Some (map (fired g now) (filter (fires g now) ls),
           map (\<lambda>l. if fires g now l then fired g now l else l) ls)"
proof (induction ls)
  case Nil
  then show ?case by simp
next
  case (Cons l ls)
  obtain t where t: "ComputeListenerNextVSyncTimeStamp g l (now - period g) = Some t"
    using compute_defined [OF Cons.prems] by blast
  have "t < now \<or> t - now < errorThreshold \<longleftrightarrow> t < now + errorThreshold"
    by (auto simp: errorThreshold_def)
  with t Cons show ?case by (simp add: fires_def fired_def)
qed

lemma remove_cb_append:
  "c \<notin> lcallback ` set ls \<Longrightarrow> lcallback l = c \<Longrightarrow> remove_cb c (ls @ [l]) = Some ls"
  by (induction ls) auto

lemma change_cb_append:
  "c \<notin> lcallback ` set ls \<Longrightarrow> lcallback l = c \<Longrightarrow> change_cb c off (ls @ [l]) = Some (ls @ [l\<lparr>lphase := off\<rparr>])"
  by (induction ls) auto

end
