(* ===== verification/VSync_Distributor.thy ===== *)
theory VSync_Distributor
  imports VSync_Generator
begin

text \<open>
  \<open>VSyncDistributor\<close> and \<open>VSyncConnection\<close>
  (\<open>rosen/modules/composer/vsync/src/vsync_distributor.cpp\<close>): the events of one VSync source are
  handed to the connections that asked for them, once (\<open>RequestNextVSync\<close>) or at a rate.

  Connections are shared objects: \<open>conns\<close> is the store of all of them and \<open>connections\<close> the list
  of the numbers of those the distributor serves. A negative \<open>rate\<close> is idle, 0 is one request, a positive
  rate is periodic. \<open>ThreadMain\<close> is cut at the points where it gives up its lock: collecting
  (\<open>ThreadMain_section\<close>), then one \<open>ThreadMain_send\<close> per connection. The answer of the socket
  is an argument. Thread priorities and tracing are left out.
\<close>

record vconnection =
  rate :: int
  highPriorityRate :: int
  highPriorityState :: bool
  cname :: string
  postVSyncCount :: "64 word"

text \<open>The controller's calls are the trace \<open>vcalls\<close>; \<open>hasController\<close> tells that \<open>controller_\<close> is not null.\<close>

datatype vcall = SetCallback | SetEnable bool

record distributor =
  conns :: "vconnection list"
  connections :: "nat list"
  evTimestamp :: int
  evCount :: int
  vsyncEnabled :: bool
  hasController :: bool
  vcalls :: "vcall list"

definition ERRNO_EAGAIN :: int where "ERRNO_EAGAIN = -1"
definition ERRNO_OTHER :: int where "ERRNO_OTHER = -2"

definition new_VSyncConnection :: "string \<Rightarrow> vconnection" where
  "new_VSyncConnection nm = \<lparr>rate = -1, highPriorityRate = -1, highPriorityState = False,
     cname = nm, postVSyncCount = 0\<rparr>"

definition new_VSyncDistributor :: "bool \<Rightarrow> distributor" where
  "new_VSyncDistributor ctl = \<lparr>conns = [], connections = [], evTimestamp = 0, evCount = 0,
     vsyncEnabled = False, hasController = ctl, vcalls = []\<rparr>"

definition conn_upd :: "nat \<Rightarrow> (vconnection \<Rightarrow> vconnection) \<Rightarrow> distributor \<Rightarrow> distributor" where
  "conn_upd c f d = d\<lparr>conns := (conns d)[c := f (conns d ! c)]\<rparr>"

section \<open>Connections\<close>

definition vd_AddConnection :: "nat option \<Rightarrow> distributor \<Rightarrow> gserror \<times> distributor" where
  "vd_AddConnection c d =
     (case c of None \<Rightarrow> (VSYNC_ERROR_NULLPTR, d)
      | Some c \<Rightarrow> (if c \<in> set (connections d) then (VSYNC_ERROR_INVALID_ARGUMENTS, d)
                   else (VSYNC_ERROR_OK, d\<lparr>connections := connections d @ [c]\<rparr>)))"

definition vd_RemoveConnection :: "nat option \<Rightarrow> distributor \<Rightarrow> gserror \<times> distributor" where
  "vd_RemoveConnection c d =
     (case c of None \<Rightarrow> (VSYNC_ERROR_NULLPTR, d)
      | Some c \<Rightarrow> (if c \<notin> set (connections d) then (VSYNC_ERROR_INVALID_ARGUMENTS, d)
                   else (VSYNC_ERROR_OK, d\<lparr>connections := erase1 c (connections d)\<rparr>)))"

definition vd_RequestNextVSync :: "nat option \<Rightarrow> distributor \<Rightarrow> gserror \<times> distributor" where
  "vd_RequestNextVSync c d =
     (case c of None \<Rightarrow> (VSYNC_ERROR_NULLPTR, d)
      | Some c \<Rightarrow> (if c \<notin> set (connections d) then (VSYNC_ERROR_INVALID_ARGUMENTS, d)
                   else (VSYNC_ERROR_OK,
                     if rate (conns d ! c) < 0 then conn_upd c (\<lambda>v. v\<lparr>rate := 0\<rparr>) d else d)))"

definition vd_SetVSyncRate :: "int \<Rightarrow> nat option \<Rightarrow> distributor \<Rightarrow> gserror \<times> distributor" where
  "vd_SetVSyncRate r c d =
     (case c of None \<Rightarrow> (VSYNC_ERROR_INVALID_ARGUMENTS, d)
      | Some c \<Rightarrow>
          (if r \<le> 0 then (VSYNC_ERROR_INVALID_ARGUMENTS, d)
           else if c \<notin> set (connections d) then (VSYNC_ERROR_INVALID_ARGUMENTS, d)
           else if rate (conns d ! c) = r then (VSYNC_ERROR_INVALID_ARGUMENTS, d)
           else (VSYNC_ERROR_OK, conn_upd c (\<lambda>v. v\<lparr>rate := r\<rparr>) d)))"

definition vd_SetHighPriorityVSyncRate :: "int \<Rightarrow> nat option \<Rightarrow> distributor \<Rightarrow> gserror \<times> distributor" where
  "vd_SetHighPriorityVSyncRate r c d =
     (case c of None \<Rightarrow> (VSYNC_ERROR_INVALID_ARGUMENTS, d)
      | Some c \<Rightarrow>
          (if r \<le> 0 then (VSYNC_ERROR_INVALID_ARGUMENTS, d)
           else if c \<notin> set (connections d) then (VSYNC_ERROR_INVALID_ARGUMENTS, d)
           else if highPriorityRate (conns d ! c) = r then (VSYNC_ERROR_INVALID_ARGUMENTS, d)
           else (VSYNC_ERROR_OK, conn_upd c (\<lambda>v. v\<lparr>highPriorityRate := r, highPriorityState := True\<rparr>) d)))"

definition vd_GetVSyncConnectionInfos :: "distributor \<Rightarrow> gserror \<times> (string \<times> 64 word) list" where
  "vd_GetVSyncConnectionInfos d =
     (VSYNC_ERROR_OK, map (\<lambda>c. (cname (conns d ! c), postVSyncCount (conns d ! c))) (connections d))"

section \<open>The connection's own calls\<close>

text \<open>
  A connection holds its distributor weakly (\<open>wptr\<close>): \<open>None\<close> is a distributor that is gone.
  \<open>connection_PostEvent\<close> counts the events whose sending did not fail; \<open>ret\<close> is the result of
  \<open>SendData\<close>.
\<close>

definition connection_RequestNextVSync :: "nat \<Rightarrow> distributor option \<Rightarrow> gserror \<times> distributor option" where
  "connection_RequestNextVSync c dis =
     (case dis of None \<Rightarrow> (VSYNC_ERROR_NULLPTR, None)
      | Some d \<Rightarrow> (let (ret, d) = vd_RequestNextVSync (Some c) d in (ret, Some d)))"

definition connection_SetVSyncRate :: "int \<Rightarrow> nat \<Rightarrow> distributor option \<Rightarrow> gserror \<times> distributor option" where
  "connection_SetVSyncRate r c dis =
     (case dis of None \<Rightarrow> (VSYNC_ERROR_NULLPTR, None)
      | Some d \<Rightarrow> (let (ret, d) = vd_SetVSyncRate r (Some c) d in (ret, Some d)))"

definition connection_PostEvent :: "int \<Rightarrow> nat \<Rightarrow> distributor \<Rightarrow> distributor" where
  "connection_PostEvent ret c d =
     (if ret > -1 then conn_upd c (\<lambda>v. v\<lparr>postVSyncCount := postVSyncCount v + 1\<rparr>) d else d)"

section \<open>The source of events\<close>

definition EnableVSync :: "distributor \<Rightarrow> distributor" where
  "EnableVSync d =
     (if hasController d \<and> \<not> vsyncEnabled d
      then d\<lparr>vsyncEnabled := True, vcalls := vcalls d @ [SetCallback, SetEnable True]\<rparr> else d)"

definition DisableVSync :: "distributor \<Rightarrow> distributor" where
  "DisableVSync d =
     (if hasController d \<and> vsyncEnabled d
      then d\<lparr>vsyncEnabled := False, vcalls := vcalls d @ [SetEnable False]\<rparr> else d)"

definition vd_OnVSyncEvent :: "int \<Rightarrow> distributor \<Rightarrow> distributor" where
  "vd_OnVSyncEvent now d = d\<lparr>evTimestamp := now, evCount := evCount d + 1\<rparr>"

section \<open>The thread\<close>

text \<open>
  The loop of \<open>CollectConnections\<close> over the connection numbers: whether anyone waits, whom to
  send to, and the connections' new rates.
\<close>

fun collect :: "int \<Rightarrow> int \<Rightarrow> nat list \<Rightarrow> vconnection list \<Rightarrow> bool \<times> nat list \<times> vconnection list" where
  "collect ts count [] vs = (False, [], vs)"
| "collect ts count (c # cs) vs =
     (let v = vs ! c;
          r = (if highPriorityState v then highPriorityRate v else rate v);
          (wait1, send, vs) =
            (if r = 0 then
               (True, ts > 0, if ts > 0 then vs[c := v\<lparr>rate := -1\<rparr>] else vs)
             else if r > 0 \<and> cmod count r = 0 then
               (if rate v = 0 then (True, ts > 0, if ts > 0 then vs[c := v\<lparr>rate := -1\<rparr>] else vs)
                else if rate v > 0 then (True, ts > 0, vs)
                else (False, False, vs))
             else (False, False, vs));
          (wait2, out, vs) = collect ts count cs vs
      in (wait1 \<or> wait2, if send then c # out else out, vs))"

definition CollectConnections :: "int \<Rightarrow> int \<Rightarrow> distributor \<Rightarrow> bool \<times> nat list \<times> distributor" where
  "CollectConnections ts count d =
     (let (wait, out, vs) = collect ts count (connections d) (conns d)
      in (wait, out, d\<lparr>conns := vs\<rparr>))"

text \<open>
  One pass of the locked part: the time stamp and the connections to send to (none when the pass
  ends with \<open>continue\<close>). While the thread waits, \<open>others\<close> is what other threads do;
  \<open>timedOut\<close> tells whether the software wait of 16 ms ran out, at time \<open>now\<close>.
\<close>

definition ThreadMain_section ::
    "(distributor \<Rightarrow> distributor) \<Rightarrow> bool \<Rightarrow> int \<Rightarrow> distributor \<Rightarrow> int \<times> nat list \<times> distributor" where
  "ThreadMain_section others timedOut now d =
     (let ts = evTimestamp d;
          d = d\<lparr>evTimestamp := 0\<rparr>;
          (wait, out, d) = CollectConnections ts (evCount d) d
      in if ts = 0 then
           (if wait \<and> \<not> vsyncEnabled d then
              (let d = others (EnableVSync d)
               in (ts, [], if timedOut then d\<lparr>evTimestamp := now, evCount := evCount d + 1\<rparr> else d))
            else (ts, [], others d))
         else if ts > 0 \<and> \<not> wait then (ts, [], d)
         else (ts, out, d))"

text \<open>The sending to one connection, \<open>ret\<close> the answer of its socket.\<close>

definition ThreadMain_send :: "int \<Rightarrow> nat \<Rightarrow> distributor \<Rightarrow> distributor" where
  "ThreadMain_send ret c d =
     (let d = connection_PostEvent ret c d
      in if ret = 0 \<or> ret = ERRNO_OTHER then snd (vd_RemoveConnection (Some c) d)
         else if ret = ERRNO_EAGAIN then
           (if rate (conns d ! c) < 0 then conn_upd c (\<lambda>v. v\<lparr>rate := 0\<rparr>) d else d)
         else d)"

section \<open>Well-formedness\<close>

text \<open>The connections served are distinct objects; the rates are idle, one request, or positive.\<close>

definition vd_ok :: "distributor \<Rightarrow> bool" where
  "vd_ok d \<longleftrightarrow> distinct (connections d) \<and> (\<forall>c \<in> set (connections d). c < length (conns d)) \<and>
     (\<forall>v \<in> set (conns d). -1 \<le> rate v \<and> (if highPriorityState v then 0 < highPriorityRate v else highPriorityRate v = -1))"

definition conn_ok :: "vconnection \<Rightarrow> bool" where
  "conn_ok v \<longleftrightarrow> -1 \<le> rate v \<and> (if highPriorityState v then 0 < highPriorityRate v else highPriorityRate v = -1)"

lemma vd_ok_iff: "vd_ok d \<longleftrightarrow> distinct (connections d) \<and> (\<forall>c \<in> set (connections d). c < length (conns d)) \<and>
    (\<forall>v \<in> set (conns d). conn_ok v)"
  by (simp add: vd_ok_def conn_ok_def)

lemma conn_upd_fields [simp]:
  "connections (conn_upd c f d) = connections d" "evTimestamp (conn_upd c f d) = evTimestamp d"
  "evCount (conn_upd c f d) = evCount d" "vsyncEnabled (conn_upd c f d) = vsyncEnabled d"
  "hasController (conn_upd c f d) = hasController d" "length (conns (conn_upd c f d)) = length (conns d)"
  by (simp_all add: conn_upd_def)

lemma conn_upd_nth: "i < length (conns d) \<Longrightarrow> conns (conn_upd c f d) ! i = (if i = c then f (conns d ! i) else conns d ! i)"
  by (simp add: conn_upd_def)

lemma vd_ok_conn_upd:
  assumes "vd_ok d" and "\<And>v. conn_ok v \<Longrightarrow> conn_ok (f v)"
  shows "vd_ok (conn_upd c f d)"
proof (cases "c < length (conns d)")
  case True
  then have "conn_ok (conns d ! c)" using assms(1) by (simp add: vd_ok_iff)
  with assms(2) have "conn_ok (f (conns d ! c))" by blast
  with assms(1) show ?thesis
    by (auto simp: vd_ok_iff conn_upd_def dest!: subsetD [OF set_update_subset_insert])
next
  case False
  then have "(conns d)[c := f (conns d ! c)] = conns d" by (intro list_update_beyond) simp
  with assms(1) show ?thesis by (simp add: vd_ok_iff conn_upd_def)
qed

text \<open>Who is sent an event: the effective rate asks for this one, and the connection is not idle.\<close>

definition effective_rate :: "vconnection \<Rightarrow> int" where
  "effective_rate v = (if highPriorityState v then highPriorityRate v else rate v)"

definition due :: "int \<Rightarrow> vconnection \<Rightarrow> bool" where
  "due count v \<longleftrightarrow> 0 \<le> rate v \<and> (effective_rate v = 0 \<or> count mod effective_rate v = 0)"

definition served :: "vconnection \<Rightarrow> vconnection" where
  "served v = (if rate v = 0 then v\<lparr>rate := -1\<rparr> else v)"

lemma collect_eq:
  assumes "distinct cs" and "\<forall>c \<in> set cs. c < length vs" and "\<forall>c \<in> set cs. conn_ok (vs ! c)" and "0 \<le> count"
  shows "collect ts count cs vs =
    (\<exists>c \<in> set cs. due count (vs ! c),
     if ts > 0 then filter (\<lambda>c. due count (vs ! c)) cs else [],
     map (\<lambda>i. if ts > 0 \<and> i \<in> set cs \<and> due count (vs ! i) then served (vs ! i) else vs ! i) [0..<length vs])"
  using assms(1-3)
proof (induction cs arbitrary: vs)
  case Nil
  then show ?case by (simp add: map_nth)
next
  case (Cons c cs)
  let ?v = "vs ! c"
  let ?vs = "if ts > 0 \<and> due count ?v then vs[c := served ?v] else vs"
  have c: "c < length vs" "conn_ok ?v" "c \<notin> set cs" using Cons.prems by auto
  have step: "collect ts count (c # cs) vs =
      (let (wait2, out, vs') = collect ts count cs ?vs
       in (due count ?v \<or> wait2, if ts > 0 \<and> due count ?v then c # out else out, vs'))"
  proof -
    have md: "0 < r \<Longrightarrow> cmod count r = count mod r" for r
      using assms(4) by (simp add: cmod_nonneg)
    have same: "vs[c := ?v] = vs" by simp
    show ?thesis
      using c(2) by (auto simp: due_def effective_rate_def served_def conn_ok_def md Let_def same split: prod.splits)
  qed
  have pre: "\<forall>d \<in> set cs. d < length ?vs" "\<forall>d \<in> set cs. conn_ok (?vs ! d)"
    using Cons.prems c(3) by (auto simp: nth_list_update)
  have keep: "?vs ! d = vs ! d" if "d \<in> set cs" for d
  proof -
    have "d \<noteq> c" using that c(3) by auto
    then show ?thesis by simp
  qed
  have flt: "filter (\<lambda>d. due count (?vs ! d)) cs = filter (\<lambda>d. due count (vs ! d)) cs"
    by (rule filter_cong) (use keep in auto)
  have ex: "(\<exists>d \<in> set cs. due count (?vs ! d)) = (\<exists>d \<in> set cs. due count (vs ! d))"
    using keep by auto
  have mp: "map (\<lambda>i. if ts > 0 \<and> i \<in> set cs \<and> due count (?vs ! i) then served (?vs ! i) else ?vs ! i) [0..<length ?vs] =
      map (\<lambda>i. if ts > 0 \<and> i \<in> set (c # cs) \<and> due count (vs ! i) then served (vs ! i) else vs ! i) [0..<length vs]"
    using c keep by (auto simp: nth_list_update intro!: map_cong)
  have "collect ts count cs ?vs =
    (\<exists>d \<in> set cs. due count (vs ! d),
     if ts > 0 then filter (\<lambda>d. due count (vs ! d)) cs else [],
     map (\<lambda>i. if ts > 0 \<and> i \<in> set (c # cs) \<and> due count (vs ! i) then served (vs ! i) else vs ! i) [0..<length vs])"
  proof -
    have "distinct cs" using Cons.prems(1) by simp
    from Cons.IH [OF this pre] show ?thesis unfolding flt ex mp .
  qed
  then show ?case unfolding step by (auto simp: Let_def)
qed

lemma conn_ok_served: "conn_ok v \<Longrightarrow> conn_ok (served v)"
  by (simp add: conn_ok_def served_def)

lemma CollectConnections_ok:
  assumes "vd_ok d" and "0 \<le> count" and "CollectConnections ts count d = (wait, out, d')"
  shows "vd_ok d' \<and> wait = (\<exists>c \<in> set (connections d). due count (conns d ! c)) \<and>
    out = (if ts > 0 then filter (\<lambda>c. due count (conns d ! c)) (connections d) else []) \<and>
    connections d' = connections d \<and> evCount d' = evCount d \<and> evTimestamp d' = evTimestamp d \<and>
    vsyncEnabled d' = vsyncEnabled d \<and> length (conns d') = length (conns d) \<and>
    (\<forall>i < length (conns d). conns d' ! i =
       (if ts > 0 \<and> i \<in> set (connections d) \<and> due count (conns d ! i) then served (conns d ! i) else conns d ! i))"
proof -
  let ?vs = "map (\<lambda>i. if ts > 0 \<and> i \<in> set (connections d) \<and> due count (conns d ! i) then served (conns d ! i)
     else conns d ! i) [0..<length (conns d)]"
  have pre: "distinct (connections d)" "\<forall>c \<in> set (connections d). c < length (conns d)"
    "\<forall>c \<in> set (connections d). conn_ok (conns d ! c)" and all: "\<forall>v \<in> set (conns d). conn_ok v"
    using assms(1) by (auto simp: vd_ok_iff)
  have eq: "wait = (\<exists>c \<in> set (connections d). due count (conns d ! c))"
    "out = (if ts > 0 then filter (\<lambda>c. due count (conns d ! c)) (connections d) else [])"
    "d' = d\<lparr>conns := ?vs\<rparr>"
    using assms(3) unfolding CollectConnections_def collect_eq [OF pre assms(2)] by auto
  have "\<forall>v \<in> set ?vs. conn_ok v" using all by (auto simp: conn_ok_served)
  then have "vd_ok d'" using pre(1,2) unfolding vd_ok_iff eq(3) by simp
  with eq show ?thesis by simp
qed

end
