(* ===== verification/VSync_Sampler.thy ===== *)
theory VSync_Sampler
  imports VSync_Generator
begin

text \<open>
  \<open>impl::VSyncSampler\<close> (\<open>rosen/modules/composer/vsync/src/vsync_sampler.cpp\<close>): it keeps the last
  hardware VSync times in a ring, estimates period and phase from them and gives them to the
  generator, and measures the error against the present fences.

  Times are \<open>int\<close>. The angle arithmetic of the phase estimate (\<open>sin\<close>, \<open>cos\<close>, \<open>atan2\<close> on \<open>double\<close>)
  is an argument \<open>fit\<close>: the phase it gives for a period and the list of the samples' remainders. A
  remainder by a zero period, which stops the process, is \<open>None\<close>.
\<close>

definition MAX_SAMPLES :: nat where "MAX_SAMPLES = 32"
definition MIN_SAMPLES_FOR_UPDATE :: nat where "MIN_SAMPLES_FOR_UPDATE = 6"
definition MAX_SAMPLES_WITHOUT_PRESENT :: "32 word" where "MAX_SAMPLES_WITHOUT_PRESENT = 4"
definition NUM_PRESENT :: nat where "NUM_PRESENT = 8"
definition g_errorThreshold :: int where "g_errorThreshold = 40000000000"
definition MINES_SAMPLE_NUMS :: int where "MINES_SAMPLE_NUMS = 3"

record sampler =
  speriod :: int
  sphase :: int
  referenceTime :: int
  serror :: int
  samples :: "int list"
  presentFenceTime :: "int list"
  firstSampleIndex :: nat
  numSamples :: nat
  modeUpdated :: bool
  numResyncSamplesSincePresent :: "32 word"
  presentFenceTimeOffset :: nat
  hardwareVSyncStatus :: bool

text \<open>\<open>samples_\<close> is not initialised by the constructor; \<open>junk\<close> is what it holds.\<close>

definition new_VSyncSampler :: "int list \<Rightarrow> sampler" where
  "new_VSyncSampler junk = \<lparr>speriod = 0, sphase = 0, referenceTime = 0, serror = 0,
     samples = take MAX_SAMPLES (junk @ replicate MAX_SAMPLES 0),
     presentFenceTime = -1 # replicate (NUM_PRESENT - 1) 0,
     firstSampleIndex = 0, numSamples = 0, modeUpdated = False, numResyncSamplesSincePresent = 0,
     presentFenceTimeOffset = 0, hardwareVSyncStatus = True\<rparr>"

section \<open>Operations\<close>

definition vs_Reset :: "sampler \<Rightarrow> sampler" where
  "vs_Reset s = s\<lparr>speriod := 0, sphase := 0, referenceTime := 0, serror := 0, firstSampleIndex := 0,
     numSamples := 0, modeUpdated := False, hardwareVSyncStatus := True\<rparr>"

definition ResetErrorLocked :: "sampler \<Rightarrow> sampler" where
  "ResetErrorLocked s = s\<lparr>presentFenceTimeOffset := 0, serror := 0,
     presentFenceTime := replicate NUM_PRESENT (-1)\<rparr>"

definition vs_BeginSample :: "sampler \<Rightarrow> sampler" where
  "vs_BeginSample s = s\<lparr>numSamples := 0, modeUpdated := False, hardwareVSyncStatus := True\<rparr>"

definition vs_SetHardwareVSyncStatus :: "bool \<Rightarrow> sampler \<Rightarrow> sampler" where
  "vs_SetHardwareVSyncStatus en s = s\<lparr>hardwareVSyncStatus := en\<rparr>"

text \<open>The sample \<open>i\<close> places after the first.\<close>

definition sample_at :: "sampler \<Rightarrow> nat \<Rightarrow> int" where
  "sample_at s i = samples s ! ((firstSampleIndex s + i) mod MAX_SAMPLES)"

definition diffs :: "sampler \<Rightarrow> int list" where
  "diffs s = map (\<lambda>i. sample_at s i - sample_at s (i - 1)) [1..<numSamples s]"

text \<open>The loop over the differences: the sum, \<open>min\<close> and \<open>max\<close>.\<close>

fun sum_min_max :: "int list \<Rightarrow> int \<times> int \<times> int \<Rightarrow> int \<times> int \<times> int" where
  "sum_min_max [] acc = acc"
| "sum_min_max (diff # ds) (acc, mn, mx) =
     sum_min_max ds (acc + diff, if mn < diff then mn else diff, if mx > diff then mx else diff)"

definition UpdateModeLocked :: "(int \<Rightarrow> int list \<Rightarrow> int) \<Rightarrow> sampler \<times> vgen \<Rightarrow> (sampler \<times> vgen) option" where
  "UpdateModeLocked fit sg =
     (let (s, g) = sg
      in if numSamples s \<ge> MIN_SAMPLES_FOR_UPDATE then
           (let (acc, mn, mx) = sum_min_max (diffs s) (0, INT64_MAX, 0);
                acc = acc - mn; acc = acc - mx;
                s = s\<lparr>speriod := cdiv acc (int (numSamples s) - MINES_SAMPLE_NUMS)\<rparr>
            in if speriod s = 0 then None
               else
                 (let rems = map (\<lambda>i. cmod (sample_at s i - referenceTime s) (speriod s)) [1..<numSamples s];
                      s = s\<lparr>sphase := fit (speriod s) rems, modeUpdated := True\<rparr>
                  in Some (s, snd (vg_UpdateMode (speriod s) (sphase s) (referenceTime s) g))))
         else Some (s, g))"

definition vs_AddSample :: "(int \<Rightarrow> int list \<Rightarrow> int) \<Rightarrow> int \<Rightarrow> sampler \<times> vgen \<Rightarrow> (bool \<times> sampler \<times> vgen) option" where
  "vs_AddSample fit timeStamp sg =
     (let (s, g) = sg;
          (s, g) = (if numSamples s = 0 then
                      (let s = s\<lparr>sphase := 0, referenceTime := timeStamp\<rparr>
                       in (s, snd (vg_UpdateMode (speriod s) (sphase s) (referenceTime s) g)))
                    else (s, g));
          s = (if numSamples s < MAX_SAMPLES - 1 then s\<lparr>numSamples := numSamples s + 1\<rparr>
               else s\<lparr>firstSampleIndex := (firstSampleIndex s + 1) mod MAX_SAMPLES\<rparr>);
          index = (firstSampleIndex s + numSamples s - 1) mod MAX_SAMPLES;
          s = s\<lparr>samples := (samples s)[index := timeStamp]\<rparr>
      in case UpdateModeLocked fit (s, g) of None \<Rightarrow> None
         | Some (s, g) \<Rightarrow>
             (let old = numResyncSamplesSincePresent s;
                  s = s\<lparr>numResyncSamplesSincePresent := old + 1\<rparr>;
                  s = (if old > MAX_SAMPLES_WITHOUT_PRESENT then ResetErrorLocked s else s);
                  ret = (modeUpdated s \<and> serror s < cdiv g_errorThreshold 2)
              in Some (\<not> ret, s, g)))"

text \<open>The loop of \<open>UpdateErrorLocked\<close>: the sum of the squared errors and their number.\<close>

fun sum_sq_err :: "sampler \<Rightarrow> int list \<Rightarrow> int \<times> int \<Rightarrow> (int \<times> int) option" where
  "sum_sq_err s [] acc = Some acc"
| "sum_sq_err s (t # ts) (sq, num) =
     (if t \<le> 0 then sum_sq_err s ts (sq, num)
      else
        (let sample = t - referenceTime s
         in if sample \<le> sphase s then sum_sq_err s ts (sq, num)
            else if speriod s = 0 then None
            else
              (let sampleErr = cmod (sample - sphase s) (speriod s);
                   sampleErr = (if sampleErr > cdiv (speriod s) 2 then sampleErr - speriod s else sampleErr)
               in sum_sq_err s ts (sq + sampleErr * sampleErr, num + 1))))"

definition UpdateErrorLocked :: "sampler \<Rightarrow> sampler option" where
  "UpdateErrorLocked s =
     (if \<not> modeUpdated s then Some s
      else case sum_sq_err s (presentFenceTime s) (0, 0) of None \<Rightarrow> None
         | Some (sq, num) \<Rightarrow> Some (s\<lparr>serror := (if num > 0 then cdiv sq num else 0)\<rparr>))"

text \<open>\<open>HdiScreen::OnVsync\<close> (\<open>hdi_screen.cpp\<close>): a vertical blank of the hardware, at \<open>ns\<close>, goes to the sampler while it listens.\<close>

definition hs_OnVsync :: "(int \<Rightarrow> int list \<Rightarrow> int) \<Rightarrow> int \<Rightarrow> sampler \<times> vgen \<Rightarrow> (sampler \<times> vgen) option" where
  "hs_OnVsync fit ns sg =
     (if ns = 0 then Some sg
      else if hardwareVSyncStatus (fst sg) then
        map_option (\<lambda>(enable, s, g). (vs_SetHardwareVSyncStatus enable s, g)) (vs_AddSample fit ns sg)
      else Some sg)"

definition vs_AddPresentFenceTime :: "int \<Rightarrow> sampler \<Rightarrow> (bool \<times> sampler) option" where
  "vs_AddPresentFenceTime timestamp s =
     (let s = s\<lparr>presentFenceTime := (presentFenceTime s)[presentFenceTimeOffset s := timestamp]\<rparr>;
          s = s\<lparr>presentFenceTimeOffset := (presentFenceTimeOffset s + 1) mod NUM_PRESENT\<rparr>;
          s = s\<lparr>numResyncSamplesSincePresent := 0\<rparr>
      in case UpdateErrorLocked s of None \<Rightarrow> None
         | Some s \<Rightarrow> Some (\<not> modeUpdated s \<or> serror s > g_errorThreshold, s))"

section \<open>Well-formedness\<close>

definition sampler_ok :: "sampler \<Rightarrow> bool" where
  "sampler_ok s \<longleftrightarrow> length (samples s) = MAX_SAMPLES \<and> length (presentFenceTime s) = NUM_PRESENT \<and>
     firstSampleIndex s < MAX_SAMPLES \<and> numSamples s < MAX_SAMPLES \<and> presentFenceTimeOffset s < NUM_PRESENT \<and>
     (modeUpdated s \<longrightarrow> speriod s \<noteq> 0)"

lemma sampler_ok_new: "sampler_ok (new_VSyncSampler junk)"
  by (simp add: sampler_ok_def new_VSyncSampler_def MAX_SAMPLES_def NUM_PRESENT_def)

lemma sampler_ok_Reset: "sampler_ok s \<Longrightarrow> sampler_ok (vs_Reset s)"
  by (simp add: sampler_ok_def vs_Reset_def MAX_SAMPLES_def)

lemma sampler_ok_BeginSample: "sampler_ok s \<Longrightarrow> sampler_ok (vs_BeginSample s)"
  by (simp add: sampler_ok_def vs_BeginSample_def MAX_SAMPLES_def)

lemma sampler_ok_ResetError: "sampler_ok s \<Longrightarrow> sampler_ok (ResetErrorLocked s)"
  by (simp add: sampler_ok_def ResetErrorLocked_def NUM_PRESENT_def)

section \<open>The ring\<close>

text \<open>The samples in the ring, oldest first.\<close>

definition window :: "sampler \<Rightarrow> int list" where
  "window s = map (sample_at s) [0..<numSamples s]"

definition last_n :: "nat \<Rightarrow> 'a list \<Rightarrow> 'a list" where
  "last_n n xs = drop (length xs - n) xs"

lemma ring_other: "i < m \<Longrightarrow> m < 32 \<Longrightarrow> (f + i) mod 32 \<noteq> (f + m) mod (32 :: nat)"
proof
  assume a: "i < m" "m < 32" "(f + i) mod 32 = (f + m) mod 32"
  then have "32 dvd (f + m) - (f + i)" by (metis mod_eq_dvd_iff_nat nat_add_left_cancel_le less_imp_le)
  then have "32 dvd m - i" by simp
  with a(1,2) show False by (auto dest: dvd_imp_le)
qed

text \<open>Storing a sample: the step of \<open>AddSample\<close> that touches the ring.\<close>

definition store_sample :: "int \<Rightarrow> sampler \<Rightarrow> sampler" where
  "store_sample t s =
     (let s = (if numSamples s < MAX_SAMPLES - 1 then s\<lparr>numSamples := numSamples s + 1\<rparr>
               else s\<lparr>firstSampleIndex := (firstSampleIndex s + 1) mod MAX_SAMPLES\<rparr>)
      in s\<lparr>samples := (samples s)[(firstSampleIndex s + numSamples s - 1) mod MAX_SAMPLES := t]\<rparr>)"

lemma store_sample_window:
  assumes ok: "sampler_ok s"
  shows "window (store_sample t s) = last_n 31 (window s @ [t])"
proof -
  let ?f = "firstSampleIndex s" and ?n = "numSamples s"
  have len: "length (samples s) = 32" and n: "?n < 32" using ok by (simp_all add: sampler_ok_def MAX_SAMPLES_def)
  show ?thesis
  proof (cases "?n < 31")
    case True
    have eq: "sample_at (store_sample t s) i = (if i = ?n then t else sample_at s i)" if "i \<le> ?n" for i
    proof (cases "i = ?n")
      case i: True
      with len True show ?thesis by (simp add: store_sample_def sample_at_def MAX_SAMPLES_def Let_def)
    next
      case False
      with that have "(?f + i) mod 32 \<noteq> (?f + ?n) mod 32" using ring_other [of i ?n ?f] n by simp
      with False True show ?thesis by (simp add: store_sample_def sample_at_def MAX_SAMPLES_def Let_def)
    qed
    have "numSamples (store_sample t s) = Suc ?n"
      using True by (simp add: store_sample_def MAX_SAMPLES_def Let_def)
    then have "window (store_sample t s) = window s @ [t]"
      using eq by (simp add: window_def)
    moreover have "length (window s) < 31" using True by (simp add: window_def)
    ultimately show ?thesis by (simp add: last_n_def)
  next
    case False
    with n have n31: "?n = 31" by simp
    have eq: "sample_at (store_sample t s) i = (if i = 30 then t else sample_at s (Suc i))" if "i < 31" for i
    proof (cases "i = 30")
      case i: True
      with i len n31 show ?thesis
        by (simp add: store_sample_def sample_at_def MAX_SAMPLES_def Let_def mod_simps)
    next
      case False
      have "(Suc ?f mod 32 + i) mod 32 = (?f + Suc i) mod 32" by (simp add: mod_simps)
      moreover have "(?f + Suc i) mod 32 \<noteq> (?f + 31) mod 32" using False that ring_other [of "Suc i" 31 ?f] by simp
      moreover have "(30 + Suc ?f mod 32) mod 32 = (?f + 31) mod 32" by (simp add: mod_simps add.commute)
      ultimately show ?thesis using False n31
        by (simp add: store_sample_def sample_at_def MAX_SAMPLES_def Let_def)
    qed
    have num: "numSamples (store_sample t s) = 31"
      using n31 by (simp add: store_sample_def MAX_SAMPLES_def Let_def)
    have "window (store_sample t s) = map (\<lambda>i. sample_at s (Suc i)) [0..<30] @ [t]"
    proof -
      have "[0..<31] = [0..<30] @ [30::nat]" by (simp add: upt_rec)
      then show ?thesis unfolding window_def num using eq by simp
    qed
    also have "map (\<lambda>i. sample_at s (Suc i)) [0..<30] = tl (window s)"
    proof -
      have "map Suc [0..<30] = [Suc 0..<31]" using map_Suc_upt [of 0 30] by simp
      then have "map (sample_at s) [Suc 0..<31] = map (sample_at s) (map Suc [0..<30])" by simp
      then show ?thesis by (simp add: window_def n31 map_tl [symmetric] tl_upt comp_def del: upt_Suc)
    qed
    finally show ?thesis by (simp add: last_n_def window_def n31 drop_Suc del: upt_Suc)
  qed
qed

section \<open>The estimate of the period\<close>

lemma sum_min_max_eq:
  "sum_min_max ds (a, mn, mx) = (a + sum_list ds, fold min ds mn, fold max ds mx)"
proof (induction ds arbitrary: a mn mx)
  case (Cons d ds)
  have "(if mn < d then mn else d) = min d mn" "(if mx > d then mx else d) = max d mx" by auto
  with Cons show ?case by simp
qed simp

lemma fold_min_mem:
  assumes "ds \<noteq> []" and "\<forall>d \<in> set ds. d \<le> (m :: int)"
  shows "fold min ds m \<in> set ds"
proof -
  have eq: "fold min ds m = Min (insert m (set ds))" using Min.set_eq_fold [of m ds] by simp
  have "Min (insert m (set ds)) = m \<or> Min (insert m (set ds)) \<in> set ds"
    using Min_in [of "insert m (set ds)"] by auto
  moreover have "m \<in> set ds" if "Min (insert m (set ds)) = m"
  proof -
    have "hd ds \<in> set ds" using assms(1) by simp
    moreover from this have "Min (insert m (set ds)) \<le> hd ds" by (intro Min_le) auto
    ultimately have "hd ds = m" using that assms(2) by force
    with \<open>hd ds \<in> set ds\<close> show ?thesis by simp
  qed
  ultimately show ?thesis unfolding eq by metis
qed

lemma fold_max_mem:
  assumes "ds \<noteq> []" and "\<forall>d \<in> set ds. (m :: int) \<le> d"
  shows "fold max ds m \<in> set ds"
proof -
  have eq: "fold max ds m = Max (insert m (set ds))" using Max.set_eq_fold [of m ds] by simp
  have "Max (insert m (set ds)) = m \<or> Max (insert m (set ds)) \<in> set ds"
    using Max_in [of "insert m (set ds)"] by auto
  moreover have "m \<in> set ds" if "Max (insert m (set ds)) = m"
  proof -
    have "hd ds \<in> set ds" using assms(1) by simp
    moreover from this have "hd ds \<le> Max (insert m (set ds))" by (intro Max_ge) auto
    ultimately have "hd ds = m" using that assms(2) by force
    with \<open>hd ds \<in> set ds\<close> show ?thesis by simp
  qed
  ultimately show ?thesis unfolding eq by metis
qed

lemma sum_list_bounds:
  "\<forall>d \<in> set ds. lo \<le> d \<and> d \<le> (hi :: int) \<Longrightarrow> int (length ds) * lo \<le> sum_list ds \<and> sum_list ds \<le> int (length ds) * hi"
  by (induction ds) (auto simp: algebra_simps)

lemma sum_list_erase: "x \<in> set xs \<Longrightarrow> sum_list xs = x + sum_list (erase1 x (xs :: int list))"
  using sum_list_map_remove1 [of x xs "\<lambda>x. x"] by simp

text \<open>Without one minimum and one maximum, the sum of the rest lies between the bounds.\<close>

lemma trimmed_sum:
  assumes len: "2 \<le> length ds" and b: "\<forall>d \<in> set ds. lo \<le> d \<and> d \<le> hi" and m: "0 \<le> lo" "hi \<le> INT64_MAX"
    and e: "sum_min_max ds (0, INT64_MAX, 0) = (acc, mn, mx)"
  shows "int (length ds - 2) * lo \<le> acc - mn - mx \<and> acc - mn - mx \<le> int (length ds - 2) * hi"
proof -
  have ne: "ds \<noteq> []" using len by auto
  have eqs: "acc = sum_list ds" "mn = fold min ds INT64_MAX" "mx = fold max ds 0"
    using e by (simp_all add: sum_min_max_eq)
  have mn: "mn \<in> set ds" unfolding eqs(2) by (rule fold_min_mem [OF ne]) (use b m in force)
  have mx: "mx \<in> set ds" unfolding eqs(3) by (rule fold_max_mem [OF ne]) (use b m in force)
  have mx': "mx \<in> set (erase1 mn ds)"
  proof (cases "mx = mn")
    case False
    with mx show ?thesis by simp
  next
    case True
    have "mn = Min (insert INT64_MAX (set ds))" "mx = Max (insert 0 (set ds))"
      using eqs(2,3) Min.set_eq_fold [of INT64_MAX ds] Max.set_eq_fold [of 0 ds] by simp_all
    then have ge: "\<forall>d \<in> set ds. mn \<le> d" and le: "\<forall>d \<in> set ds. d \<le> mx" by simp_all
    have len1: "length (erase1 mn ds) = length ds - 1" using mn by (simp add: length_remove1)
    with len have "erase1 mn ds \<noteq> []" by (cases "erase1 mn ds") auto
    then have "hd (erase1 mn ds) \<in> set (erase1 mn ds)" by simp
    moreover from this have "hd (erase1 mn ds) \<in> set ds" by (meson notin_set_remove1)
    ultimately show ?thesis using ge le True by (metis antisym)
  qed
  let ?rest = "erase1 mx (erase1 mn ds)"
  have sum: "acc - mn - mx = sum_list ?rest"
    using sum_list_erase [OF mn] sum_list_erase [OF mx'] eqs(1) by simp
  have "length ?rest = length ds - 2" using mn mx' len by (simp add: length_remove1)
  moreover have "\<forall>d \<in> set ?rest. lo \<le> d \<and> d \<le> hi" using b by (meson notin_set_remove1)
  ultimately show ?thesis using sum_list_bounds [of ?rest lo hi] sum by simp
qed

lemma length_diffs: "length (diffs s) = numSamples s - 1"
  by (simp add: diffs_def)

lemma UpdateMode_period:
  assumes n: "MIN_SAMPLES_FOR_UPDATE \<le> numSamples s" and b: "\<forall>d \<in> set (diffs s). lo \<le> d \<and> d \<le> hi"
    and m: "0 \<le> lo" "hi \<le> INT64_MAX" and u: "UpdateModeLocked fit (s, g) = Some (s', g')"
  shows "lo \<le> speriod s' \<and> speriod s' \<le> hi \<and> modeUpdated s' \<and> speriod s' \<noteq> 0"
proof -
  obtain acc mn mx where e: "sum_min_max (diffs s) (0, INT64_MAX, 0) = (acc, mn, mx)" by (metis prod_cases3)
  let ?k = "int (numSamples s) - 3"
  have k: "0 < ?k" "int (length (diffs s) - 2) = ?k" "2 \<le> length (diffs s)"
    using n by (auto simp: length_diffs MIN_SAMPLES_FOR_UPDATE_def)
  have t: "?k * lo \<le> acc - mn - mx" "acc - mn - mx \<le> ?k * hi"
    using trimmed_sum [OF k(3) b m e] k(2) by simp_all
  have "0 \<le> ?k * lo" using k(1) m(1) by simp
  with t(1) have "0 \<le> acc - mn - mx" by linarith
  then have cd: "cdiv (acc - mn - mx) ?k = (acc - mn - mx) div ?k" using k(1) by (simp add: cdiv_nonneg)
  have "lo \<le> (acc - mn - mx) div ?k"
    using t(1) k(1) by (metis mult.commute zdiv_mono1 nonzero_mult_div_cancel_left less_irrefl)
  moreover have "(acc - mn - mx) div ?k \<le> hi"
    using t(2) k(1) by (metis zdiv_mono1 nonzero_mult_div_cancel_left less_irrefl)
  moreover have "speriod s' = cdiv (acc - mn - mx) ?k \<and> modeUpdated s' \<and> speriod s' \<noteq> 0"
    using u n e by (auto simp: UpdateModeLocked_def Let_def MINES_SAMPLE_NUMS_def split: if_splits)
  ultimately show ?thesis using cd by simp
qed

section \<open>The error\<close>

lemma sum_sq_err_bound:
  assumes p: "0 < speriod s"
  shows "0 \<le> sq \<Longrightarrow> 0 \<le> num \<Longrightarrow> sq \<le> num * (speriod s div 2)\<^sup>2 \<Longrightarrow>
    \<exists>sq' num'. sum_sq_err s ts (sq, num) = Some (sq', num') \<and> 0 \<le> sq' \<and> 0 \<le> num' \<and>
      sq' \<le> num' * (speriod s div 2)\<^sup>2"
proof (induction ts arbitrary: sq num)
  case Nil
  then show ?case by simp
next
  case (Cons t ts)
  let ?P = "speriod s" and ?x = "t - referenceTime s - sphase s"
  show ?case
  proof (cases "t \<le> 0 \<or> t - referenceTime s \<le> sphase s")
    case True
    with Cons show ?thesis by (auto simp: Let_def)
  next
    case False
    let ?r = "cmod ?x ?P"
    let ?e = "if ?r > cdiv ?P 2 then ?r - ?P else ?r"
    have x: "?r = ?x mod ?P" using False p by (simp add: cmod_nonneg)
    have e0: "0 \<le> ?r" "?r < ?P" unfolding x using p by simp_all
    have "cdiv ?P 2 = ?P div 2" using p by (simp add: cdiv_nonneg)
    then have "\<bar>?e\<bar> \<le> ?P div 2" using e0 by auto
    then have sq: "?e * ?e \<le> (?P div 2)\<^sup>2" using abs_le_square_iff [of ?e "?P div 2"] p
      by (simp add: power2_eq_square pos_imp_zdiv_nonneg_iff)
    have step: "sum_sq_err s (t # ts) (sq, num) = sum_sq_err s ts (sq + ?e * ?e, num + 1)"
      using False p by (simp add: Let_def)
    have "sq + ?e * ?e \<le> (num + 1) * (?P div 2)\<^sup>2" using Cons.prems(3) sq by (simp add: algebra_simps)
    with Cons.IH [of "sq + ?e * ?e" "num + 1"] Cons.prems show ?thesis unfolding step by simp
  qed
qed

end
