(* ===== verification/VSync_Props.thy ===== *)
theory VSync_Props
  imports VSync_Distributor VSync_Sampler
begin

text \<open>
  The properties of the VSync components: the generator's times, the distributor's delivery, the
  sampler's estimates, and the places where the thread stops.
\<close>

section \<open>The generator\<close>

definition demo_gen :: vgen where
  "demo_gen = \<lparr>period = 16000000, phase = 0, refrenceTime = 1000, wakeupDelay = 500,
     listeners = [\<lparr>lphase = 2000000, lcallback = 1, lastTime = 0\<rparr>]\<rparr>"

text \<open>
  C18. The next time computed for a listener, with the wake-up delay added back, lies on the
  listener's grid (reference time plus phases plus whole periods), after the moment asked for and
  after its last event, at least three fifths of a period after the last event, and no further
  ahead than two periods.
\<close>

theorem next_vsync_time_on_grid:
  assumes "0 < period g" and "0 \<le> wakeupDelay g"
    and "ComputeListenerNextVSyncTimeStamp g l now0 = Some t"
  shows "(\<exists>n \<ge> 0. t + wakeupDelay g = refrenceTime g + phase g + lphase l + n * period g) \<and>
    max now0 (lastTime l + wakeupDelay g) < t + wakeupDelay g \<and> lastTime l < t \<and>
    (3 * period g) div 5 \<le> t + wakeupDelay g - lastTime l \<and>
    t + wakeupDelay g \<le> max (max now0 (lastTime l + wakeupDelay g)) (refrenceTime g + phase g + lphase l) + 2 * period g"
  using next_time_spec [OF assms] by blast

lemma next_vsync_time_on_grid_witness:
  "\<exists>n \<ge> 0. 18001000 = 1000 + 0 + 2000000 + n * (16000000 :: int)"
proof -
  let ?l = "hd (listeners demo_gen)"
  have "ComputeListenerNextVSyncTimeStamp demo_gen ?l 5000000 = Some 18000500" by code_simp
  from next_vsync_time_on_grid [OF _ _ this] show ?thesis by (simp add: demo_gen_def)
qed

text \<open>
  A pass of \<open>GetListenerTimeouted\<close> with a positive period returns the listeners that are due
  within half a millisecond, in order, with their new times; it keeps every listener's phase and
  callback, advances the last time of those that fire to a later time, and leaves the others alone.
\<close>

theorem timeouted_listeners_advance:
  assumes "0 < period g" and "0 \<le> wakeupDelay g"
  shows "\<exists>ret ls. GetListenerTimeouted g now = Some (ret, g\<lparr>listeners := ls\<rparr>) \<and>
    length ls = length (listeners g) \<and>
    ret = map (fired g now) (filter (fires g now) (listeners g)) \<and>
    (\<forall>i < length ls. lphase (ls ! i) = lphase (listeners g ! i) \<and> lcallback (ls ! i) = lcallback (listeners g ! i) \<and>
       (if fires g now (listeners g ! i)
        then lastTime (listeners g ! i) < lastTime (ls ! i) \<and> lastTime (ls ! i) < now + 500000
        else ls ! i = listeners g ! i))"
proof -
  let ?ls = "map (\<lambda>l. if fires g now l then fired g now l else l) (listeners g)"
  have eq: "GetListenerTimeouted g now = Some (map (fired g now) (filter (fires g now) (listeners g)), g\<lparr>listeners := ?ls\<rparr>)"
    using assms(1) by (simp add: GetListenerTimeouted_def timeouted_eq)
  have adv: "lastTime l < lastTime (fired g now l)" for l
  proof -
    obtain t where t: "ComputeListenerNextVSyncTimeStamp g l (now - period g) = Some t"
      using compute_defined [of g] assms(1) by force
    with next_time_spec [OF assms t] show ?thesis by (simp add: fired_def)
  qed
  have lim: "lastTime (fired g now l) < now + 500000" if "fires g now l" for l
    using that by (simp add: fires_def fired_def errorThreshold_def)
  have keep: "lphase (fired g now l) = lphase l \<and> lcallback (fired g now l) = lcallback l" for l
    by (simp add: fired_def)
  show ?thesis
    by (rule exI, rule exI [of _ ?ls], intro conjI, rule eq) (use adv lim keep in auto)
qed

lemma timeouted_listeners_advance_witness:
  "\<exists>ret ls. GetListenerTimeouted demo_gen 18000500 = Some (ret, demo_gen\<lparr>listeners := ls\<rparr>) \<and> length ls = 1"
  using timeouted_listeners_advance [of demo_gen 18000500] by (auto simp: demo_gen_def)

text \<open>
  The wake-up delay stays between 0 and 1.5 ms when the thread wakes no earlier than planned.
\<close>

theorem wakeup_delay_bounded:
  assumes "period g \<noteq> 0" and "0 \<le> wakeupDelay g" and "wakeupDelay g \<le> maxWaleupDelay"
    and "\<forall>t. wake = Some t \<longrightarrow> t \<le> now"
  shows "\<exists>ret g'. ThreadLoop_fire g wake now = Some (ret, g') \<and> 0 \<le> wakeupDelay g' \<and> wakeupDelay g' \<le> maxWaleupDelay"
proof -
  define g1 where "g1 = (case wake of None \<Rightarrow> g | Some t \<Rightarrow>
      (let d = cdiv (wakeupDelay g * 63 + (now - t)) 64
       in g\<lparr>wakeupDelay := (if d > maxWaleupDelay then maxWaleupDelay else d)\<rparr>))"
  have "0 \<le> wakeupDelay g1 \<and> wakeupDelay g1 \<le> maxWaleupDelay \<and> period g1 \<noteq> 0"
  proof (cases wake)
    case None
    with assms show ?thesis by (simp add: g1_def)
  next
    case (Some t)
    with assms have "0 \<le> wakeupDelay g * 63 + (now - t)" by simp
    with Some assms(1) show ?thesis
      by (simp add: g1_def Let_def cdiv_nonneg maxWaleupDelay_def pos_imp_zdiv_nonneg_iff)
  qed
  moreover have "ThreadLoop_fire g wake now = GetListenerTimeouted g1 now"
    by (simp add: ThreadLoop_fire_def g1_def Let_def)
  ultimately show ?thesis by (auto simp: GetListenerTimeouted_def timeouted_eq)
qed

lemma wakeup_delay_bounded_witness:
  "\<exists>ret g'. ThreadLoop_fire demo_gen (Some 18000500) 18000600 = Some (ret, g') \<and>
     0 \<le> wakeupDelay g' \<and> wakeupDelay g' \<le> maxWaleupDelay"
  by (rule wakeup_delay_bounded) (simp_all add: demo_gen_def maxWaleupDelay_def)

text \<open>
  A controller that is enabled and then disabled leaves the generator as it was, provided it was not
  a listener before; and while it is enabled its phase offset can be changed.
\<close>

theorem controller_enable_disable:
  assumes "self c \<notin> lcallback ` set (listeners g)"
    and "vc_SetEnable now True c (Some g) = (r1, c1, g1)"
    and "vc_SetEnable now' False c1 g1 = (r2, c2, g2)"
    and "vc_SetPhaseOffset off c1 g1 = (r3, c3, g3)"
  shows "r1 = VSYNC_ERROR_OK \<and> r2 = VSYNC_ERROR_OK \<and> r3 = VSYNC_ERROR_OK \<and>
    g2 = Some g \<and> enabled c1 \<and> \<not> enabled c2 \<and> phaseOffset c3 = off"
proof -
  let ?l = "\<lparr>lphase = phaseOffset c, lcallback = self c, lastTime = now - cdiv (period g) 2 + phase g\<rparr>"
  have rm: "remove_cb (self c) (listeners g @ [?l]) = Some (listeners g)"
    by (rule remove_cb_append [OF assms(1)]) simp
  have ch: "change_cb (self c) off (listeners g @ [?l]) = Some (listeners g @ [?l\<lparr>lphase := off\<rparr>])"
    by (rule change_cb_append [OF assms(1)]) simp
  have "g\<lparr>listeners := listeners g\<rparr> = g" by simp
  with assms(2-4) rm ch show ?thesis
    by (auto simp: vc_SetEnable_def vc_SetPhaseOffset_def vg_AddListener_def vg_RemoveListener_def
        vg_ChangePhaseOffset_def)
qed

lemma controller_enable_disable_witness:
  "snd (snd (vc_SetEnable 9 False (fst (snd (vc_SetEnable 5 True (new_VSyncController 2 0) (Some demo_gen))))
     (snd (snd (vc_SetEnable 5 True (new_VSyncController 2 0) (Some demo_gen)))))) = Some demo_gen"
proof -
  have "self (new_VSyncController 2 0) \<notin> lcallback ` set (listeners demo_gen)"
    by (simp add: new_VSyncController_def demo_gen_def)
  from controller_enable_disable [OF this, of 5 _ _ _ 9 _ _ _ 0] show ?thesis
    by (metis prod.collapse)
qed

section \<open>The sampler\<close>

lemma AddSample_store:
  "vs_AddSample fit t (s, g) =
     (let s1 = (if numSamples s = 0 then s\<lparr>sphase := 0, referenceTime := t\<rparr> else s);
          g1 = (if numSamples s = 0 then snd (vg_UpdateMode (speriod s) 0 t g) else g)
      in case UpdateModeLocked fit (store_sample t s1, g1) of None \<Rightarrow> None
         | Some (s, g) \<Rightarrow>
             (let old = numResyncSamplesSincePresent s;
                  s = s\<lparr>numResyncSamplesSincePresent := old + 1\<rparr>;
                  s = (if old > MAX_SAMPLES_WITHOUT_PRESENT then ResetErrorLocked s else s);
                  ret = (modeUpdated s \<and> serror s < cdiv g_errorThreshold 2)
              in Some (\<not> ret, s, g)))"
  by (auto simp: vs_AddSample_def store_sample_def Let_def)

lemma UpdateMode_ring:
  "UpdateModeLocked fit (s, g) = Some (s', g') \<Longrightarrow>
     samples s' = samples s \<and> firstSampleIndex s' = firstSampleIndex s \<and> numSamples s' = numSamples s"
  by (auto simp: UpdateModeLocked_def Let_def split: if_splits prod.splits)

lemma window_cong:
  "samples s' = samples s \<Longrightarrow> firstSampleIndex s' = firstSampleIndex s \<Longrightarrow> numSamples s' = numSamples s \<Longrightarrow>
   window s' = window s"
  by (simp add: window_def sample_at_def [abs_def])

text \<open>
  C33. The ring of samples holds the newest 31 time stamps in order: adding a sample appends it and
  drops the oldest when there are more.
\<close>

theorem sampler_keeps_newest:
  assumes "sampler_ok s" and "vs_AddSample fit t (s, g) = Some (r, s', g')"
  shows "window s' = last_n 31 (window s @ [t])"
proof -
  let ?s1 = "if numSamples s = 0 then s\<lparr>sphase := 0, referenceTime := t\<rparr> else s"
  let ?g1 = "if numSamples s = 0 then snd (vg_UpdateMode (speriod s) 0 t g) else g"
  obtain s2 g2 where u: "UpdateModeLocked fit (store_sample t ?s1, ?g1) = Some (s2, g2)"
    using assms(2) unfolding AddSample_store Let_def by (auto split: option.splits)
  have "window s' = window s2"
    using assms(2) u unfolding AddSample_store Let_def
    by (intro window_cong) (auto simp: ResetErrorLocked_def split: if_splits)
  also have "\<dots> = window (store_sample t ?s1)" using UpdateMode_ring [OF u] by (intro window_cong) auto
  also have "sampler_ok ?s1" using assms(1) by (simp add: sampler_ok_def)
  from store_sample_window [OF this, of t] have "window (store_sample t ?s1) = last_n 31 (window ?s1 @ [t])" .
  also have "window ?s1 = window s" by (rule window_cong) auto
  finally show ?thesis .
qed

definition demo_fit :: "int \<Rightarrow> int list \<Rightarrow> int" where "demo_fit p rs = 0"

definition demo_sampler :: sampler where
  "demo_sampler = \<lparr>speriod = 0, sphase = 0, referenceTime = 100, serror = 0,
     samples = [100, 200, 300, 400, 500] @ replicate 27 0, presentFenceTime = replicate 8 0,
     firstSampleIndex = 0, numSamples = 5, modeUpdated = False, numResyncSamplesSincePresent = 0,
     presentFenceTimeOffset = 0, hardwareVSyncStatus = True\<rparr>"

lemma demo_sampler_ok: "sampler_ok demo_sampler"
  by (simp add: sampler_ok_def demo_sampler_def MAX_SAMPLES_def NUM_PRESENT_def)

definition demo_sampler2 :: "bool \<times> sampler \<times> vgen" where
  "demo_sampler2 = the (vs_AddSample demo_fit 600 (demo_sampler, demo_gen))"

lemma demo_sampler2_eq: "vs_AddSample demo_fit 600 (demo_sampler, demo_gen) = Some demo_sampler2"
proof -
  have "vs_AddSample demo_fit 600 (demo_sampler, demo_gen) \<noteq> None" by code_simp
  then show ?thesis by (auto simp: demo_sampler2_def)
qed

lemma sampler_keeps_newest_witness: "window (fst (snd demo_sampler2)) = [100, 200, 300, 400, 500, 600]"
proof -
  have "window demo_sampler = [100, 200, 300, 400, 500]" by code_simp
  moreover have "vs_AddSample demo_fit 600 (demo_sampler, demo_gen) =
      Some (fst demo_sampler2, fst (snd demo_sampler2), snd (snd demo_sampler2))"
    using demo_sampler2_eq by simp
  ultimately show ?thesis using sampler_keeps_newest [OF demo_sampler_ok] by (fastforce simp: last_n_def)
qed

text \<open>
  C34. Once there are six samples, the period estimated lies between the smallest and the largest distance
  of neighbouring samples (one of each being left out), and the generator is given that period
  and the same reference time.
\<close>

theorem sampler_period_between:
  assumes "vs_AddSample fit t (s, g) = Some (r, s', g')" and "5 \<le> numSamples s"
    and "\<forall>d \<in> set (diffs (store_sample t s)). lo \<le> d \<and> d \<le> hi" and "0 \<le> lo" and "hi \<le> INT64_MAX"
    and "0 \<le> referenceTime s"
  shows "lo \<le> speriod s' \<and> speriod s' \<le> hi \<and> modeUpdated s' \<and>
    period g' = speriod s' \<and> refrenceTime g' = referenceTime s' \<and> phase g' = sphase s'"
proof -
  have n: "MIN_SAMPLES_FOR_UPDATE \<le> numSamples (store_sample t s)"
    using assms(2) by (simp add: store_sample_def MIN_SAMPLES_FOR_UPDATE_def MAX_SAMPLES_def Let_def)
  obtain s2 where u: "UpdateModeLocked fit (store_sample t s, g) = Some (s2, g')" and
    s': "speriod s' = speriod s2" "sphase s' = sphase s2" "referenceTime s' = referenceTime s2" "modeUpdated s' = modeUpdated s2"
    using assms(1,2) unfolding AddSample_store Let_def
    by (auto simp: ResetErrorLocked_def split: option.splits if_splits)
  have ref: "referenceTime (store_sample t s) = referenceTime s"
    by (simp add: store_sample_def Let_def)
  have p: "lo \<le> speriod s2 \<and> speriod s2 \<le> hi \<and> modeUpdated s2"
    using UpdateMode_period [OF n assms(3-5) u] by blast
  have "g' = snd (vg_UpdateMode (speriod s2) (sphase s2) (referenceTime s2) g) \<and> referenceTime s2 = referenceTime s"
    using u n ref by (auto simp: UpdateModeLocked_def Let_def split: if_splits prod.splits)
  with p assms(4,6) s' show ?thesis by (auto simp: vg_UpdateMode_def)
qed

lemma sampler_period_between_witness: "speriod (fst (snd demo_sampler2)) = 100"
proof -
  have d: "diffs (store_sample 600 demo_sampler) = [100, 100, 100, 100, 100]" by code_simp
  have e: "vs_AddSample demo_fit 600 (demo_sampler, demo_gen) =
      Some (fst demo_sampler2, fst (snd demo_sampler2), snd (snd demo_sampler2))"
    using demo_sampler2_eq by simp
  have n: "5 \<le> numSamples demo_sampler" "0 \<le> referenceTime demo_sampler" by (simp_all add: demo_sampler_def)
  from sampler_period_between [OF e n(1), of 100 100] d n(2) show ?thesis by (simp add: INT64_MAX_def)
qed

text \<open>
  The error measured against the present fences is never negative and at most the square of
  half a period, and measuring it never fails while the period is positive.
\<close>

theorem sampler_error_bounded:
  assumes "0 < speriod s" and "0 \<le> serror s" and "serror s \<le> (speriod s div 2)\<^sup>2"
  shows "\<exists>r s'. vs_AddPresentFenceTime t s = Some (r, s') \<and> 0 \<le> serror s' \<and> serror s' \<le> (speriod s' div 2)\<^sup>2"
proof -
  define s1 where "s1 = s\<lparr>presentFenceTime := (presentFenceTime s)[presentFenceTimeOffset s := t],
      presentFenceTimeOffset := (presentFenceTimeOffset s + 1) mod NUM_PRESENT, numResyncSamplesSincePresent := 0\<rparr>"
  have p: "0 < speriod s1" "speriod s1 = speriod s" "serror s1 = serror s" using assms(1) by (simp_all add: s1_def)
  obtain sq num where e: "sum_sq_err s1 (presentFenceTime s1) (0, 0) = Some (sq, num)"
    and b: "0 \<le> sq" "0 \<le> num" "sq \<le> num * (speriod s1 div 2)\<^sup>2"
    using sum_sq_err_bound [OF p(1), of 0 0 "presentFenceTime s1"] by auto
  have q: "0 \<le> (if num > 0 then cdiv sq num else 0) \<and> (if num > 0 then cdiv sq num else 0) \<le> (speriod s1 div 2)\<^sup>2"
  proof (cases "0 < num")
    case True
    have "sq div num \<le> (num * (speriod s1 div 2)\<^sup>2) div num" using b(3) True by (intro zdiv_mono1)
    with True b(1) show ?thesis by (simp add: cdiv_nonneg pos_imp_zdiv_nonneg_iff)
  qed simp
  have "\<exists>s2. UpdateErrorLocked s1 = Some s2 \<and> 0 \<le> serror s2 \<and> serror s2 \<le> (speriod s2 div 2)\<^sup>2"
    using e q assms(2,3) p by (auto simp: UpdateErrorLocked_def)
  moreover have "vs_AddPresentFenceTime t s = (case UpdateErrorLocked s1 of None \<Rightarrow> None
      | Some s \<Rightarrow> Some (\<not> modeUpdated s \<or> serror s > g_errorThreshold, s))"
    by (simp add: vs_AddPresentFenceTime_def s1_def)
  ultimately show ?thesis by auto
qed

lemma sampler_error_bounded_witness:
  "\<exists>r s'. vs_AddPresentFenceTime 12345 (demo_sampler\<lparr>speriod := 100\<rparr>) = Some (r, s') \<and>
     0 \<le> serror s' \<and> serror s' \<le> (speriod s' div 2)\<^sup>2"
  by (rule sampler_error_bounded) (simp_all add: demo_sampler_def)

text \<open>
  Six equal time stamps make the estimated period zero, and the remainder by the period that
  follows stops the process.
\<close>

theorem equal_samples_stop_the_process:
  assumes "sampler_ok s" and "5 \<le> numSamples s" and "\<forall>d \<in> set (diffs (store_sample t s)). d = 0"
  shows "vs_AddSample fit t (s, g) = None"
proof -
  have n: "MIN_SAMPLES_FOR_UPDATE \<le> numSamples (store_sample t s)"
    using assms(2) by (simp add: store_sample_def MIN_SAMPLES_FOR_UPDATE_def MAX_SAMPLES_def Let_def)
  have "UpdateModeLocked fit (store_sample t s, g) = None"
  proof (rule ccontr)
    assume "UpdateModeLocked fit (store_sample t s, g) \<noteq> None"
    then obtain s2 g2 where u: "UpdateModeLocked fit (store_sample t s, g) = Some (s2, g2)" by auto
    have "\<forall>d \<in> set (diffs (store_sample t s)). 0 \<le> d \<and> d \<le> 0" using assms(3) by auto
    then have "speriod s2 \<noteq> 0 \<and> 0 \<le> speriod s2 \<and> speriod s2 \<le> 0"
      using UpdateMode_period [OF n _ _ _ u, of 0 0] by (simp add: INT64_MAX_def)
    then show False by linarith
  qed
  with assms(2) show ?thesis unfolding AddSample_store Let_def by auto
qed

lemma equal_samples_stop_the_process_witness:
  "vs_AddSample demo_fit 7 (demo_sampler\<lparr>samples := replicate 32 7\<rparr>, demo_gen) = None"
proof (rule equal_samples_stop_the_process)
  show "\<forall>d \<in> set (diffs (store_sample 7 (demo_sampler\<lparr>samples := replicate 32 7\<rparr>))). d = 0" by code_simp
qed (use demo_sampler_ok in \<open>simp_all add: sampler_ok_def demo_sampler_def MAX_SAMPLES_def\<close>)

section \<open>Sampler and generator together\<close>

text \<open>
  The first sample after a reset gives the generator the period zero. When that happens while the
  generator's thread sleeps, the division in \<open>GetListenerTimeouted\<close> stops the process as soon as
  the thread wakes and there is a listener.
\<close>

theorem reset_while_sleeping_stops_the_process:
  assumes "ThreadLoop_plan g now = Some (PlanSleep now until)"
    and "vs_AddSample fit t (vs_Reset s, g) = Some (r, s', g')" and "0 \<le> t" and "listeners g \<noteq> []"
  shows "ThreadLoop_fire g' (Some until) now' = None"
proof -
  have g': "g' = g\<lparr>period := 0, phase := 0, refrenceTime := t\<rparr>"
    using assms(2,3) by (auto simp: AddSample_store vs_Reset_def vg_UpdateMode_def UpdateModeLocked_def
        store_sample_def MAX_SAMPLES_def MIN_SAMPLES_FOR_UPDATE_def Let_def)
  obtain l ls where "listeners g = l # ls" using assms(4) by (cases "listeners g") auto
  then show ?thesis
    by (simp add: g' ThreadLoop_fire_def GetListenerTimeouted_def Let_def compute_zero)
qed

lemma reset_while_sleeping_stops_the_process_witness:
  "\<exists>g'. ThreadLoop_fire g' (Some 18000500) 18000501 = None"
proof -
  have p: "ThreadLoop_plan demo_gen 5000000 = Some (PlanSleep 5000000 18000500)" by code_simp
  obtain r s' g' where a: "vs_AddSample demo_fit 9 (vs_Reset demo_sampler, demo_gen) = Some (r, s', g')"
  proof -
    have "vs_AddSample demo_fit 9 (vs_Reset demo_sampler, demo_gen) \<noteq> None" by code_simp
    with that show thesis by (metis not_None_eq prod_cases3)
  qed
  from reset_while_sleeping_stops_the_process [OF p a] have "ThreadLoop_fire g' (Some 18000500) 18000501 = None"
    by (simp add: demo_gen_def)
  then show ?thesis by blast
qed

section \<open>The distributor\<close>

text \<open>
  The reachable states: other threads' calls, the thread's locked passes (during whose waits other
  calls run) and its sends, in any order. \<open>new\<close> creates a connection object.
\<close>

inductive vd_steps :: "distributor \<Rightarrow> distributor \<Rightarrow> bool" where
  start: "vd_steps d d"
| new: "vd_steps d0 d \<Longrightarrow> vd_steps d0 (d\<lparr>conns := conns d @ [new_VSyncConnection nm]\<rparr>)"
| add: "vd_steps d0 d \<Longrightarrow> c < length (conns d) \<Longrightarrow> vd_steps d0 (snd (vd_AddConnection (Some c) d))"
| remove: "vd_steps d0 d \<Longrightarrow> vd_steps d0 (snd (vd_RemoveConnection c d))"
| request: "vd_steps d0 d \<Longrightarrow> vd_steps d0 (snd (vd_RequestNextVSync c d))"
| set_rate: "vd_steps d0 d \<Longrightarrow> vd_steps d0 (snd (vd_SetVSyncRate r c d))"
| high_priority: "vd_steps d0 d \<Longrightarrow> vd_steps d0 (snd (vd_SetHighPriorityVSyncRate r c d))"
| event: "vd_steps d0 d \<Longrightarrow> vd_steps d0 (vd_OnVSyncEvent now d)"
| pass: "vd_steps d0 d \<Longrightarrow> (\<And>x. vd_steps x (others x)) \<Longrightarrow>
    ThreadMain_section others timedOut now d = (ts, out, d') \<Longrightarrow> vd_steps d0 d'"
| send: "vd_steps d0 d \<Longrightarrow> vd_steps d0 (ThreadMain_send ret c d)"

definition vd_inv :: "distributor \<Rightarrow> bool" where
  "vd_inv d \<longleftrightarrow> vd_ok d \<and> 0 \<le> evCount d"

lemma vd_inv_upd: "vd_inv d \<Longrightarrow> (\<And>v. conn_ok v \<Longrightarrow> conn_ok (f v)) \<Longrightarrow> vd_inv (conn_upd c f d)"
  using vd_ok_conn_upd by (simp add: vd_inv_def)

lemma vd_inv_add:
  assumes "vd_inv d" and "c < length (conns d)"
  shows "vd_inv (snd (vd_AddConnection (Some c) d))"
proof (cases "c \<in> set (connections d)")
  case True
  with assms(1) show ?thesis by (simp add: vd_AddConnection_def)
next
  case False
  with assms show ?thesis unfolding vd_inv_def vd_ok_iff by (simp add: vd_AddConnection_def)
qed

lemma vd_inv_remove: "vd_inv d \<Longrightarrow> vd_inv (snd (vd_RemoveConnection c d))"
  by (auto simp: vd_inv_def vd_ok_def vd_RemoveConnection_def split: option.splits dest: notin_set_remove1)

lemma vd_inv_request: "vd_inv d \<Longrightarrow> vd_inv (snd (vd_RequestNextVSync c d))"
  by (auto simp: vd_RequestNextVSync_def conn_ok_def split: option.splits intro!: vd_inv_upd)

lemma vd_inv_send: "vd_inv d \<Longrightarrow> vd_inv (ThreadMain_send ret c d)"
proof -
  assume "vd_inv d"
  then have p: "vd_inv (connection_PostEvent ret c d)"
    by (auto simp: connection_PostEvent_def conn_ok_def intro!: vd_inv_upd)
  from vd_inv_remove [OF p, of "Some c"] p show ?thesis
    by (auto simp: ThreadMain_send_def Let_def conn_ok_def intro!: vd_inv_upd)
qed

lemma vd_inv_section:
  assumes inv: "vd_inv d" and others: "\<And>x. vd_inv x \<Longrightarrow> vd_inv (others x)"
    and s: "ThreadMain_section others timedOut now d = (ts, out, d')"
  shows "vd_inv d'"
proof -
  let ?d0 = "d\<lparr>evTimestamp := 0\<rparr>"
  obtain wait out1 d1 where c: "CollectConnections (evTimestamp d) (evCount ?d0) ?d0 = (wait, out1, d1)"
    by (metis prod_cases3)
  have "vd_ok ?d0" "0 \<le> evCount ?d0" using inv by (simp_all add: vd_inv_def vd_ok_def)
  from CollectConnections_ok [OF this c] have i1: "vd_inv d1" using inv by (simp add: vd_inv_def)
  then have "vd_inv (EnableVSync d1)" by (simp add: EnableVSync_def vd_inv_def vd_ok_def)
  then have i2: "vd_inv (others (EnableVSync d1))" "vd_inv (others d1)" using others i1 by blast+
  then have "vd_inv ((others (EnableVSync d1))\<lparr>evTimestamp := now, evCount := evCount (others (EnableVSync d1)) + 1\<rparr>)"
    by (simp add: vd_inv_def vd_ok_def)
  with i1 i2 s c show ?thesis
    by (auto simp: ThreadMain_section_def Let_def split: if_splits)
qed

lemma vd_inv_new: "vd_inv (new_VSyncDistributor ctl)"
  by (simp add: vd_inv_def vd_ok_def new_VSyncDistributor_def)

lemma vd_inv_set_rate: "vd_inv d \<Longrightarrow> vd_inv (snd (vd_SetVSyncRate r c d))"
  by (auto simp: vd_SetVSyncRate_def conn_ok_def split: option.splits intro!: vd_inv_upd)

lemma vd_inv_high_priority: "vd_inv d \<Longrightarrow> vd_inv (snd (vd_SetHighPriorityVSyncRate r c d))"
  by (auto simp: vd_SetHighPriorityVSyncRate_def conn_ok_def split: option.splits intro!: vd_inv_upd)

lemma vd_steps_inv: "vd_steps d0 d \<Longrightarrow> vd_inv d0 \<Longrightarrow> vd_inv d"
proof (induction rule: vd_steps.induct)
  case (new d0 d nm)
  have "conn_ok (new_VSyncConnection nm)" by (simp add: conn_ok_def new_VSyncConnection_def)
  with new show ?case by (simp add: vd_inv_def vd_ok_iff less_Suc_eq)
next
  case (add d0 d c)
  then show ?case by (simp add: vd_inv_add)
next
  case (remove d0 d c)
  then show ?case by (simp add: vd_inv_remove)
next
  case (request d0 d c)
  then show ?case by (simp add: vd_inv_request)
next
  case (set_rate d0 d r c)
  then show ?case by (simp add: vd_inv_set_rate)
next
  case (high_priority d0 d r c)
  then show ?case by (simp add: vd_inv_high_priority)
next
  case (event d0 d now)
  then show ?case by (simp add: vd_inv_def vd_ok_iff vd_OnVSyncEvent_def)
next
  case (pass d0 d others timedOut now ts out d')
  then show ?case using vd_inv_section [of d others timedOut now ts out d'] by blast
next
  case (send d0 d ret c)
  then show ?case by (simp add: vd_inv_send)
qed simp

definition vd_reachable :: "distributor \<Rightarrow> bool" where
  "vd_reachable d \<longleftrightarrow> (\<exists>ctl. vd_steps (new_VSyncDistributor ctl) d)"

lemma vd_reachable_inv: "vd_reachable d \<Longrightarrow> vd_inv d"
  unfolding vd_reachable_def using vd_steps_inv vd_inv_new by blast

text \<open>Two connections: the first has asked for one event, the second is idle; and a signal has come.\<close>

definition demo_dist :: distributor where
  "demo_dist = \<lparr>conns = [(new_VSyncConnection ''a'')\<lparr>rate := 0\<rparr>, new_VSyncConnection ''b''], connections = [0, 1],
     evTimestamp = 70, evCount = 1, vsyncEnabled = False, hasController = False, vcalls = []\<rparr>"

lemma demo_dist_reachable: "vd_reachable demo_dist"
proof -
  let ?d0 = "new_VSyncDistributor False"
  let ?d1 = "?d0\<lparr>conns := conns ?d0 @ [new_VSyncConnection ''a'']\<rparr>"
  let ?d2 = "?d1\<lparr>conns := conns ?d1 @ [new_VSyncConnection ''b'']\<rparr>"
  let ?d3 = "snd (vd_AddConnection (Some 0) ?d2)"
  let ?d4 = "snd (vd_AddConnection (Some 1) ?d3)"
  let ?d5 = "snd (vd_RequestNextVSync (Some 0) ?d4)"
  have "vd_steps ?d0 ?d2" by (intro vd_steps.new vd_steps.start)
  then have "vd_steps ?d0 ?d3" by (rule vd_steps.add) (simp add: new_VSyncDistributor_def)
  then have "vd_steps ?d0 ?d4" by (rule vd_steps.add) (simp add: new_VSyncDistributor_def vd_AddConnection_def)
  then have "vd_steps ?d0 (vd_OnVSyncEvent 70 ?d5)" by (intro vd_steps.event vd_steps.request)
  moreover have "vd_OnVSyncEvent 70 ?d5 = demo_dist" by code_simp
  ultimately show ?thesis unfolding vd_reachable_def by metis
qed

text \<open>
  C11. In every reachable distributor the connections served are distinct live objects, the event
  counter is not negative, and every rate is idle (-1), one request (0) or positive.
\<close>

theorem distributor_reachable_ok:
  assumes "vd_reachable d"
  shows "distinct (connections d) \<and> (\<forall>c \<in> set (connections d). c < length (conns d)) \<and> 0 \<le> evCount d \<and>
    (\<forall>v \<in> set (conns d). -1 \<le> rate v \<and> (highPriorityState v \<longrightarrow> 0 < highPriorityRate v))"
  using vd_reachable_inv [OF assms] by (auto simp: vd_inv_def vd_ok_def split: if_splits)

lemma distributor_reachable_ok_witness: "distinct (connections demo_dist) \<and> 0 \<le> evCount demo_dist"
  using distributor_reachable_ok [OF demo_dist_reachable] by blast



text \<open>
  C23. An event that the socket could not take is not lost: after a send that answers \<open>EAGAIN\<close> the
  connection's request is open again, and the connection is still served. After a send that finds
  the socket closed the connection is no longer served; every other connection still is.
\<close>

theorem failed_send_keeps_request:
  assumes "vd_reachable d" and "c \<in> set (connections d)"
  shows "0 \<le> rate (conns (ThreadMain_send ERRNO_EAGAIN c d) ! c) \<and>
    c \<in> set (connections (ThreadMain_send ERRNO_EAGAIN c d)) \<and>
    (\<forall>ret \<in> {0, ERRNO_OTHER}. set (connections (ThreadMain_send ret c d)) = set (connections d) - {c})"
proof -
  have ok: "vd_ok d" using vd_reachable_inv [OF assms(1)] by (simp add: vd_inv_def)
  then have c: "c < length (conns d)" and dist: "distinct (connections d)" using assms(2) by (auto simp: vd_ok_def)
  have "0 \<le> rate (conns (ThreadMain_send ERRNO_EAGAIN c d) ! c) \<and> c \<in> set (connections (ThreadMain_send ERRNO_EAGAIN c d))"
    using c assms(2) by (simp add: ThreadMain_send_def connection_PostEvent_def ERRNO_EAGAIN_def ERRNO_OTHER_def conn_upd_nth)
  moreover have "set (connections (ThreadMain_send ret c d)) = set (connections d) - {c}" if "ret \<in> {0, ERRNO_OTHER}" for ret
    using that assms(2) dist
    by (auto simp: ThreadMain_send_def connection_PostEvent_def vd_RemoveConnection_def ERRNO_OTHER_def)
  ultimately show ?thesis by blast
qed

lemma failed_send_keeps_request_witness: "set (connections (ThreadMain_send 0 0 demo_dist)) = set (connections demo_dist) - {0}"
proof -
  have "0 \<in> set (connections demo_dist)" by (simp add: demo_dist_def)
  from failed_send_keeps_request [OF demo_dist_reachable this] show ?thesis by blast
qed

text \<open>
  The software VSync runs only before VSync is enabled: once it is enabled, a pass without a
  signal neither changes the distributor nor makes an event, however long the connections wait.
\<close>

theorem no_software_event_once_enabled:
  assumes "vd_reachable d" and "vsyncEnabled d" and "evTimestamp d = 0"
  shows "ThreadMain_section others timedOut now d = (0, [], others d)"
proof -
  have inv: "vd_ok d" "0 \<le> evCount d" using vd_reachable_inv [OF assms(1)] by (simp_all add: vd_inv_def)
  have same: "d\<lparr>evTimestamp := 0\<rparr> = d" using assms(3) by (cases d) simp
  obtain wait out1 d1 where c: "CollectConnections 0 (evCount d) d = (wait, out1, d1)" by (metis prod_cases3)
  note cc = CollectConnections_ok [OF inv c]
  have "conns d1 = conns d" by (rule nth_equalityI) (use cc in auto)
  moreover have "d1 = d\<lparr>conns := conns d1\<rparr>" using c by (auto simp: CollectConnections_def split: prod.splits)
  ultimately have "d1 = d" by (cases d) simp
  with c assms(2) show ?thesis unfolding ThreadMain_section_def Let_def assms(3) same by simp
qed

definition demo_enabled :: distributor where
  "demo_enabled = (let d = new_VSyncDistributor True; d = d\<lparr>conns := conns d @ [new_VSyncConnection ''a'']\<rparr>;
     d = snd (vd_AddConnection (Some 0) d); d = snd (vd_RequestNextVSync (Some 0) d)
     in snd (snd (ThreadMain_section id False 0 d)))"

lemma no_software_event_once_enabled_witness:
  "ThreadMain_section id True 99 demo_enabled = (0, [], demo_enabled)"
proof -
  let ?d0 = "new_VSyncDistributor True"
  let ?d1 = "?d0\<lparr>conns := conns ?d0 @ [new_VSyncConnection ''a'']\<rparr>"
  have "vd_steps ?d0 ?d1" by (intro vd_steps.new vd_steps.start)
  then have "vd_steps ?d0 (snd (vd_AddConnection (Some 0) ?d1))"
    by (rule vd_steps.add) (simp add: new_VSyncDistributor_def)
  then have "vd_steps ?d0 (snd (vd_RequestNextVSync (Some 0) (snd (vd_AddConnection (Some 0) ?d1))))"
    by (rule vd_steps.request)
  then have "vd_steps ?d0 demo_enabled" unfolding demo_enabled_def Let_def
    by (rule vd_steps.pass [where others = id and timedOut = False and now = 0])
      (simp_all add: vd_steps.start prod_eq_iff)
  then have "vd_reachable demo_enabled" unfolding vd_reachable_def by blast
  moreover have "vsyncEnabled demo_enabled \<and> evTimestamp demo_enabled = 0" by code_simp
  ultimately show ?thesis using no_software_event_once_enabled [of demo_enabled id True 99] by simp
qed

end
