(* ===== verification/Parcel.thy ===== *)
theory Parcel
  imports Graphic_Error
begin

text \<open>
  \<open>MessageParcel\<close>, the message of the IPC layer, is not part of the repository. The model takes
  its operations as the record \<open>parcel_ops\<close> over an abstract parcel type \<open>'p\<close>: write one item, read one
  item of a kind. Each of the class's methods the code calls is one of the two at an item: a 32-bit
  and a 64-bit word (\<open>WriteInt32\<close> and \<open>ReadUint32\<close> exchange the same bits), and one item kind for each
  of the other methods. A read that fails gives the method's default.

  \<open>parcel_fifo\<close> states the documented behaviour the code relies on: writes append, reads take the
  first item, and a file descriptor arrives as a descriptor of the receiver (\<open>xfd\<close>).
\<close>

datatype item =
    P_Word32 "32 word" | P_Word64 "64 word" | P_Bool bool | P_String string | P_Fd int
  | P_Int32Vector "int list" | P_BoolVector "bool list" | P_Token string

datatype kind = K_Word32 | K_Word64 | K_Bool | K_String | K_Fd | K_Int32Vector | K_BoolVector | K_Token

fun kind_of :: "item \<Rightarrow> kind" where
  "kind_of (P_Word32 _) = K_Word32" | "kind_of (P_Word64 _) = K_Word64" | "kind_of (P_Bool _) = K_Bool"
| "kind_of (P_String _) = K_String" | "kind_of (P_Fd _) = K_Fd" | "kind_of (P_Int32Vector _) = K_Int32Vector"
| "kind_of (P_BoolVector _) = K_BoolVector" | "kind_of (P_Token _) = K_Token"

record 'p parcel_ops =
  pl_new :: 'p
  pl_write :: "item \<Rightarrow> 'p \<Rightarrow> bool \<times> 'p"
  pl_read :: "kind \<Rightarrow> 'p \<Rightarrow> item option \<times> 'p"

fun writable :: "item \<Rightarrow> bool" where
  "writable (P_Fd fd) = (0 \<le> fd)"
| "writable _ = True"

fun received :: "(int \<Rightarrow> int) \<Rightarrow> item \<Rightarrow> item" where
  "received xfd (P_Fd fd) = P_Fd (xfd fd)"
| "received xfd it = it"

definition parcel_fifo :: "'p parcel_ops \<Rightarrow> ('p \<Rightarrow> item list) \<Rightarrow> (int \<Rightarrow> int) \<Rightarrow> bool" where
  "parcel_fifo P view xfd \<longleftrightarrow> view (pl_new P) = [] \<and>
     (\<forall>it p. writable it \<longrightarrow> fst (pl_write P it p) \<and> view (snd (pl_write P it p)) = view p @ [received xfd it]) \<and>
     (\<forall>p it rest. view p = it # rest \<longrightarrow>
        fst (pl_read P (kind_of it) p) = Some it \<and> view (snd (pl_read P (kind_of it) p)) = rest) \<and>
     (\<forall>fd. 0 \<le> fd \<longrightarrow> 0 \<le> xfd fd)"

section \<open>The methods\<close>

definition put :: "'p parcel_ops \<Rightarrow> item \<Rightarrow> 'p \<Rightarrow> 'p" where
  "put P it p = snd (pl_write P it p)"

definition WriteInt32 :: "'p parcel_ops \<Rightarrow> int \<Rightarrow> 'p \<Rightarrow> 'p" where
  "WriteInt32 P x = put P (P_Word32 (word_of_int x))"
definition WriteUint32 :: "'p parcel_ops \<Rightarrow> 32 word \<Rightarrow> 'p \<Rightarrow> 'p" where
  "WriteUint32 P w = put P (P_Word32 w)"
definition WriteInt64 :: "'p parcel_ops \<Rightarrow> int \<Rightarrow> 'p \<Rightarrow> 'p" where
  "WriteInt64 P x = put P (P_Word64 (word_of_int x))"
definition WriteUint64 :: "'p parcel_ops \<Rightarrow> 64 word \<Rightarrow> 'p \<Rightarrow> 'p" where
  "WriteUint64 P w = put P (P_Word64 w)"

definition ReadUint32 :: "'p parcel_ops \<Rightarrow> 'p \<Rightarrow> 32 word \<times> 'p" where
  "ReadUint32 P p = (case pl_read P K_Word32 p of (Some (P_Word32 w), p) \<Rightarrow> (w, p) | (_, p) \<Rightarrow> (0, p))"
definition ReadInt32 :: "'p parcel_ops \<Rightarrow> 'p \<Rightarrow> int \<times> 'p" where
  "ReadInt32 P p = (let (w, p) = ReadUint32 P p in (sint w, p))"
definition ReadUint64 :: "'p parcel_ops \<Rightarrow> 'p \<Rightarrow> 64 word \<times> 'p" where
  "ReadUint64 P p = (case pl_read P K_Word64 p of (Some (P_Word64 w), p) \<Rightarrow> (w, p) | (_, p) \<Rightarrow> (0, p))"
definition ReadInt64 :: "'p parcel_ops \<Rightarrow> 'p \<Rightarrow> int \<times> 'p" where
  "ReadInt64 P p = (let (w, p) = ReadUint64 P p in (sint w, p))"
definition ReadBool :: "'p parcel_ops \<Rightarrow> 'p \<Rightarrow> bool \<times> 'p" where
  "ReadBool P p = (case pl_read P K_Bool p of (Some (P_Bool b), p) \<Rightarrow> (b, p) | (_, p) \<Rightarrow> (False, p))"
definition ReadString :: "'p parcel_ops \<Rightarrow> 'p \<Rightarrow> string \<times> 'p" where
  "ReadString P p = (case pl_read P K_String p of (Some (P_String s), p) \<Rightarrow> (s, p) | (_, p) \<Rightarrow> ([], p))"
definition ReadFileDescriptor :: "'p parcel_ops \<Rightarrow> 'p \<Rightarrow> int \<times> 'p" where
  "ReadFileDescriptor P p = (case pl_read P K_Fd p of (Some (P_Fd fd), p) \<Rightarrow> (fd, p) | (_, p) \<Rightarrow> (-1, p))"
definition ReadInt32Vector :: "'p parcel_ops \<Rightarrow> 'p \<Rightarrow> int list option \<times> 'p" where
  "ReadInt32Vector P p = (case pl_read P K_Int32Vector p of (Some (P_Int32Vector v), p) \<Rightarrow> (Some v, p) | (_, p) \<Rightarrow> (None, p))"
definition ReadBoolVector :: "'p parcel_ops \<Rightarrow> 'p \<Rightarrow> bool list option \<times> 'p" where
  "ReadBoolVector P p = (case pl_read P K_BoolVector p of (Some (P_BoolVector v), p) \<Rightarrow> (Some v, p) | (_, p) \<Rightarrow> (None, p))"
definition ReadInterfaceToken :: "'p parcel_ops \<Rightarrow> 'p \<Rightarrow> string \<times> 'p" where
  "ReadInterfaceToken P p = (case pl_read P K_Token p of (Some (P_Token s), p) \<Rightarrow> (s, p) | (_, p) \<Rightarrow> ([], p))"

text \<open>A chain \<open>!parcel.WriteA(..) || !parcel.WriteB(..)\<close>: it stops at the first write that fails.\<close>

fun write_all :: "'p parcel_ops \<Rightarrow> item list \<Rightarrow> 'p \<Rightarrow> bool \<times> 'p" where
  "write_all P [] p = (True, p)"
| "write_all P (it # its) p =
     (let (ok, p) = pl_write P it p in if ok then write_all P its p else (False, p))"

text \<open>A chain of reads into variables: the items read, if none failed.\<close>

fun read_all :: "'p parcel_ops \<Rightarrow> kind list \<Rightarrow> 'p \<Rightarrow> item list option \<times> 'p" where
  "read_all P [] p = (Some [], p)"
| "read_all P (k # ks) p =
     (case pl_read P k p of
        (None, p) \<Rightarrow> (None, p)
      | (Some it, p) \<Rightarrow> (let (its, p) = read_all P ks p in (map_option ((#) it) its, p)))"

section \<open>Laws\<close>

named_theorems parcel \<open>reading and writing a first-in-first-out parcel\<close>

lemma fifo_new: "parcel_fifo P view xfd \<Longrightarrow> view (pl_new P) = []"
  by (simp add: parcel_fifo_def)

lemma fifo_write: "parcel_fifo P view xfd \<Longrightarrow> writable it \<Longrightarrow> pl_write P it p = (ok, p') \<Longrightarrow>
   ok \<and> view p' = view p @ [received xfd it]"
  unfolding parcel_fifo_def by (metis fst_conv snd_conv)

lemma fifo_put [parcel]: "parcel_fifo P view xfd \<Longrightarrow> writable it \<Longrightarrow> view (put P it p) = view p @ [received xfd it]"
  unfolding parcel_fifo_def put_def by blast

lemma fifo_read:
  assumes "parcel_fifo P view xfd" and "view p = it # rest" and "kind_of it = k"
  shows "\<exists>p'. pl_read P k p = (Some it, p') \<and> view p' = rest"
proof -
  have "fst (pl_read P k p) = Some it" "view (snd (pl_read P k p)) = rest"
    using assms unfolding parcel_fifo_def by blast+
  then show ?thesis by (metis prod.collapse)
qed

lemma write_all_fifo:
  "parcel_fifo P view xfd \<Longrightarrow> \<forall>it \<in> set its. writable it \<Longrightarrow>
   \<exists>p'. write_all P its p = (True, p') \<and> view p' = view p @ map (received xfd) its"
proof (induction its arbitrary: p)
  case Nil
  then show ?case by simp
next
  case (Cons it its)
  obtain ok p1 where w: "pl_write P it p = (ok, p1)" by fastforce
  with fifo_write [OF Cons.prems(1) _ w] Cons.prems(2) have "ok" "view p1 = view p @ [received xfd it]" by simp_all
  with Cons.IH [OF Cons.prems(1), of p1] Cons.prems(2) w show ?case by auto
qed

lemma read_all_fifo:
  "parcel_fifo P view xfd \<Longrightarrow> view p = its @ rest \<Longrightarrow> map kind_of its = ks \<Longrightarrow>
   \<exists>p'. read_all P ks p = (Some its, p') \<and> view p' = rest"
proof (induction its arbitrary: p ks)
  case Nil
  then show ?case by simp
next
  case (Cons it its)
  then obtain ks' where ks: "ks = kind_of it # ks'" "map kind_of its = ks'" by auto
  obtain p1 where p1: "pl_read P (kind_of it) p = (Some it, p1)" "view p1 = its @ rest"
    using fifo_read [OF Cons.prems(1), of p it "its @ rest"] Cons.prems(2) by auto
  obtain p2 where "read_all P ks' p1 = (Some its, p2)" "view p2 = rest"
    using Cons.IH [OF Cons.prems(1) p1(2) ks(2)] by blast
  with p1 ks show ?case by simp
qed

lemma read_Uint32: "parcel_fifo P view xfd \<Longrightarrow> view p = P_Word32 w # rest \<Longrightarrow> \<exists>p'. ReadUint32 P p = (w, p') \<and> view p' = rest"
  using fifo_read [of P view xfd p "P_Word32 w" rest K_Word32] by (auto simp: ReadUint32_def)

lemma read_Int32: "parcel_fifo P view xfd \<Longrightarrow> view p = P_Word32 w # rest \<Longrightarrow> \<exists>p'. ReadInt32 P p = (sint w, p') \<and> view p' = rest"
  using read_Uint32 [of P view xfd p w rest] by (auto simp: ReadInt32_def)

lemma read_Uint64: "parcel_fifo P view xfd \<Longrightarrow> view p = P_Word64 w # rest \<Longrightarrow> \<exists>p'. ReadUint64 P p = (w, p') \<and> view p' = rest"
  using fifo_read [of P view xfd p "P_Word64 w" rest K_Word64] by (auto simp: ReadUint64_def)

lemma read_Int64: "parcel_fifo P view xfd \<Longrightarrow> view p = P_Word64 w # rest \<Longrightarrow> \<exists>p'. ReadInt64 P p = (sint w, p') \<and> view p' = rest"
  using read_Uint64 [of P view xfd p w rest] by (auto simp: ReadInt64_def)

lemma read_Bool: "parcel_fifo P view xfd \<Longrightarrow> view p = P_Bool b # rest \<Longrightarrow> \<exists>p'. ReadBool P p = (b, p') \<and> view p' = rest"
  using fifo_read [of P view xfd p "P_Bool b" rest K_Bool] by (auto simp: ReadBool_def)

lemma read_String: "parcel_fifo P view xfd \<Longrightarrow> view p = P_String s # rest \<Longrightarrow> \<exists>p'. ReadString P p = (s, p') \<and> view p' = rest"
  using fifo_read [of P view xfd p "P_String s" rest K_String] by (auto simp: ReadString_def)

lemma read_Fd: "parcel_fifo P view xfd \<Longrightarrow> view p = P_Fd fd # rest \<Longrightarrow> \<exists>p'. ReadFileDescriptor P p = (fd, p') \<and> view p' = rest"
  using fifo_read [of P view xfd p "P_Fd fd" rest K_Fd] by (auto simp: ReadFileDescriptor_def)

lemma read_Token: "parcel_fifo P view xfd \<Longrightarrow> view p = P_Token s # rest \<Longrightarrow> \<exists>p'. ReadInterfaceToken P p = (s, p') \<and> view p' = rest"
  using fifo_read [of P view xfd p "P_Token s" rest K_Token] by (auto simp: ReadInterfaceToken_def)

text \<open>Values that fit their C++ type.\<close>

definition int32_ok :: "int \<Rightarrow> bool" where "int32_ok x \<longleftrightarrow> - 2147483648 \<le> x \<and> x < 2147483648"
definition int64_ok :: "int \<Rightarrow> bool" where "int64_ok x \<longleftrightarrow> - 9223372036854775808 \<le> x \<and> x < 9223372036854775808"

lemma sint_int32: "int32_ok x \<Longrightarrow> sint (word_of_int x :: 32 word) = x"
  by (simp add: int32_ok_def signed_of_int signed_take_bit_int_eq_self)

lemma sint_int64: "int64_ok x \<Longrightarrow> sint (word_of_int x :: 64 word) = x"
  by (simp add: int64_ok_def signed_of_int signed_take_bit_int_eq_self)

section \<open>A concrete parcel\<close>

definition list_parcel :: "item list parcel_ops" where
  "list_parcel = \<lparr>pl_new = [],
     pl_write = (\<lambda>it p. if writable it then (True, p @ [it]) else (False, p)),
     pl_read = (\<lambda>k p. case p of [] \<Rightarrow> (None, []) | it # rest \<Rightarrow> if kind_of it = k then (Some it, rest) else (None, p))\<rparr>"

lemma list_parcel_fifo: "parcel_fifo list_parcel id id"
proof -
  have "received id it = it" for it by (cases it) auto
  then show ?thesis by (auto simp: parcel_fifo_def list_parcel_def)
qed

end
