(* ===== verification/Extra_Data.thy ===== *)
theory Extra_Data
  imports Parcel Surface_Types "HOL-Library.Char_ord" "HOL-Library.List_Lexorder"
begin

text \<open>
  \<open>BufferExtraDataImpl\<close> (\<open>frameworks/surface/src/buffer_extra_data_impl.cpp\<close>): named values of four
  types that travel with a buffer. The map is ordered by key, as \<open>std::map<std::string, ...>\<close> is; a
  \<open>std::any\<close> is one of the four values, a \<open>double\<close> its 64 bits. \<open>WriteDouble\<close> writes these bits, as
  \<open>WriteInt64\<close> writes its own.
\<close>

definition BUFFER_EXTRA_DATA_MAGIC :: int where "BUFFER_EXTRA_DATA_MAGIC = 0x4567"

datatype extra_type = ET_i32 | ET_i64 | ET_f64 | ET_string

fun extra_type_value :: "extra_type \<Rightarrow> int" where
  "extra_type_value ET_i32 = 0" | "extra_type_value ET_i64 = 1" | "extra_type_value ET_f64 = 2"
| "extra_type_value ET_string = 3"

datatype any_val = A_i32 int | A_i64 int | A_f64 "64 word" | A_string string

record extra_data =
  xval :: any_val
  xtype :: extra_type

type_synonym extra_map = "(string, extra_data) omap"

text \<open>The private \<open>ExtraSet\<close>; the four public ones call it with their type.\<close>

definition ExtraSet :: "string \<Rightarrow> extra_type \<Rightarrow> any_val \<Rightarrow> extra_map \<Rightarrow> gserror \<times> extra_map" where
  "ExtraSet key ty v datas =
     (if \<not> om_has key datas \<and> length datas > SURFACE_MAX_USER_DATA_COUNT then (GSERROR_OUT_OF_RANGE, datas)
      else (GSERROR_OK, om_put key \<lparr>xval = v, xtype = ty\<rparr> datas))"

definition ExtraSet_i32 :: "string \<Rightarrow> int \<Rightarrow> extra_map \<Rightarrow> gserror \<times> extra_map" where
  "ExtraSet_i32 key v = ExtraSet key ET_i32 (A_i32 v)"
definition ExtraSet_i64 :: "string \<Rightarrow> int \<Rightarrow> extra_map \<Rightarrow> gserror \<times> extra_map" where
  "ExtraSet_i64 key v = ExtraSet key ET_i64 (A_i64 v)"
definition ExtraSet_f64 :: "string \<Rightarrow> 64 word \<Rightarrow> extra_map \<Rightarrow> gserror \<times> extra_map" where
  "ExtraSet_f64 key v = ExtraSet key ET_f64 (A_f64 v)"
definition ExtraSet_string :: "string \<Rightarrow> string \<Rightarrow> extra_map \<Rightarrow> gserror \<times> extra_map" where
  "ExtraSet_string key v = ExtraSet key ET_string (A_string v)"

text \<open>\<open>any_cast<T>\<close>, and the template \<open>ExtraGet\<close> over it.\<close>

fun cast_i32 :: "any_val \<Rightarrow> int option" where "cast_i32 (A_i32 x) = Some x" | "cast_i32 _ = None"
fun cast_i64 :: "any_val \<Rightarrow> int option" where "cast_i64 (A_i64 x) = Some x" | "cast_i64 _ = None"
fun cast_f64 :: "any_val \<Rightarrow> 64 word option" where "cast_f64 (A_f64 x) = Some x" | "cast_f64 _ = None"
fun cast_string :: "any_val \<Rightarrow> string option" where "cast_string (A_string x) = Some x" | "cast_string _ = None"

definition ExtraGet :: "(any_val \<Rightarrow> 'a option) \<Rightarrow> extra_type \<Rightarrow> string \<Rightarrow> extra_map \<Rightarrow> gserror \<times> 'a option" where
  "ExtraGet cast ty key datas =
     (case map_of datas key of
        None \<Rightarrow> (GSERROR_NO_ENTRY, None)
      | Some d \<Rightarrow>
          (if xtype d \<noteq> ty then (GSERROR_TYPE_ERROR, None)
           else case cast (xval d) of
                  None \<Rightarrow> (GSERROR_TYPE_ERROR, None)
                | Some v \<Rightarrow> (GSERROR_OK, Some v)))"

definition ExtraGet_i32 :: "string \<Rightarrow> extra_map \<Rightarrow> gserror \<times> int option" where "ExtraGet_i32 = ExtraGet cast_i32 ET_i32"
definition ExtraGet_i64 :: "string \<Rightarrow> extra_map \<Rightarrow> gserror \<times> int option" where "ExtraGet_i64 = ExtraGet cast_i64 ET_i64"
definition ExtraGet_f64 :: "string \<Rightarrow> extra_map \<Rightarrow> gserror \<times> 64 word option" where "ExtraGet_f64 = ExtraGet cast_f64 ET_f64"
definition ExtraGet_string :: "string \<Rightarrow> extra_map \<Rightarrow> gserror \<times> string option" where "ExtraGet_string = ExtraGet cast_string ET_string"

section \<open>Parcels\<close>

definition minus_one_f64 :: "64 word" where "minus_one_f64 = 0xBFF0000000000000"

definition read_extra :: "'p parcel_ops \<Rightarrow> 'p \<Rightarrow> extra_map \<Rightarrow> extra_map \<times> 'p" where
  "read_extra P p datas =
     (let (key, p) = ReadString P p; (ty, p) = ReadInt32 P p
      in if ty = extra_type_value ET_i32 then (let (v, p) = ReadInt32 P p in (snd (ExtraSet key ET_i32 (A_i32 v) datas), p))
         else if ty = extra_type_value ET_i64 then (let (v, p) = ReadInt64 P p in (snd (ExtraSet key ET_i64 (A_i64 v) datas), p))
         else if ty = extra_type_value ET_f64 then (let (v, p) = ReadUint64 P p in (snd (ExtraSet key ET_f64 (A_f64 v) datas), p))
         else if ty = extra_type_value ET_string then (let (v, p) = ReadString P p in (snd (ExtraSet key ET_string (A_string v) datas), p))
         else (datas, p))"

fun read_extras :: "'p parcel_ops \<Rightarrow> nat \<Rightarrow> 'p \<Rightarrow> extra_map \<Rightarrow> extra_map \<times> 'p" where
  "read_extras P 0 p datas = (datas, p)"
| "read_extras P (Suc n) p datas = (let (datas, p) = read_extra P p datas in read_extras P n p datas)"

definition ReadFromParcel :: "'p parcel_ops \<Rightarrow> 'p \<Rightarrow> extra_map \<Rightarrow> gserror \<times> extra_map \<times> 'p" where
  "ReadFromParcel P p datas =
     (case pl_read P K_Word32 p of
        (Some (P_Word32 w), p) \<Rightarrow>
          (if sint w \<noteq> BUFFER_EXTRA_DATA_MAGIC then (GSERROR_INTERNEL, datas, p)
           else (let (size, p) = ReadInt32 P p; (datas, p) = read_extras P (nat size) p datas
                 in (GSERROR_OK, datas, p)))
      | (_, p) \<Rightarrow> (GSERROR_INTERNEL, datas, p))"

definition write_extra :: "'p parcel_ops \<Rightarrow> string \<times> extra_data \<Rightarrow> 'p \<Rightarrow> 'p" where
  "write_extra P kd p =
     (let (key, d) = kd; p = put P (P_String key) p; p = WriteInt32 P (extra_type_value (xtype d)) p
      in case xtype d of
           ET_i32 \<Rightarrow> WriteInt32 P (case cast_i32 (xval d) of Some v \<Rightarrow> v | None \<Rightarrow> -1) p
         | ET_i64 \<Rightarrow> WriteInt64 P (case cast_i64 (xval d) of Some v \<Rightarrow> v | None \<Rightarrow> -1) p
         | ET_f64 \<Rightarrow> WriteUint64 P (case cast_f64 (xval d) of Some v \<Rightarrow> v | None \<Rightarrow> minus_one_f64) p
         | ET_string \<Rightarrow> put P (P_String (case cast_string (xval d) of Some v \<Rightarrow> v | None \<Rightarrow> ''-1'')) p)"

definition WriteToParcel :: "'p parcel_ops \<Rightarrow> extra_map \<Rightarrow> 'p \<Rightarrow> gserror \<times> 'p" where
  "WriteToParcel P datas p =
     (let p = WriteInt32 P BUFFER_EXTRA_DATA_MAGIC p;
          p = WriteUint32 P (word_of_nat (length datas)) p
      in (GSERROR_OK, fold (write_extra P) datas p))"

section \<open>Lemmas\<close>

fun typed :: "extra_data \<Rightarrow> bool" where
  "typed d = (case (xtype d, xval d) of
     (ET_i32, A_i32 v) \<Rightarrow> int32_ok v | (ET_i64, A_i64 v) \<Rightarrow> int64_ok v
   | (ET_f64, A_f64 _) \<Rightarrow> True | (ET_string, A_string _) \<Rightarrow> True | _ \<Rightarrow> False)"

text \<open>What the operations keep: ordered, at most 1001 entries, each value of its type.\<close>

definition extra_ok :: "extra_map \<Rightarrow> bool" where
  "extra_ok datas \<longleftrightarrow> om_wf datas \<and> length datas \<le> SURFACE_MAX_USER_DATA_COUNT + 1 \<and> (\<forall>(key, d) \<in> set datas. typed d)"

fun val_item :: "any_val \<Rightarrow> item" where
  "val_item (A_i32 v) = P_Word32 (word_of_int v)" | "val_item (A_i64 v) = P_Word64 (word_of_int v)"
| "val_item (A_f64 v) = P_Word64 v" | "val_item (A_string v) = P_String v"

fun entry_items :: "string \<times> extra_data \<Rightarrow> item list" where
  "entry_items (key, d) = [P_String key, P_Word32 (word_of_int (extra_type_value (xtype d))), val_item (xval d)]"

definition extra_items :: "extra_map \<Rightarrow> item list" where
  "extra_items datas = P_Word32 (word_of_int BUFFER_EXTRA_DATA_MAGIC) # P_Word32 (word_of_nat (length datas)) #
     concat (map entry_items datas)"

lemma length_om_put_new: "map_of m k = None \<Longrightarrow> length (om_put k v m) = Suc (length m)"
  by (induction k v m rule: om_put.induct) (auto split: if_splits)

lemma length_om_put_old: "om_wf m \<Longrightarrow> map_of m k = Some w \<Longrightarrow> length (om_put k v m) = length m"
proof (induction k v m rule: om_put.induct)
  case (2 k v p m)
  show ?case
  proof (cases "k < fst p")
    case True
    with 2(2) have "\<forall>j \<in> fst ` set m. k < j" by (auto simp: om_wf_Cons)
    with True 2(3) show ?thesis using map_of_SomeD by (force split: if_splits)
  next
    case False
    with 2 show ?thesis by (auto simp: om_wf_Cons split: if_splits)
  qed
qed simp

lemma extra_ok_ExtraSet:
  assumes "extra_ok datas" and "typed \<lparr>xval = v, xtype = ty\<rparr>"
  shows "extra_ok (snd (ExtraSet key ty v datas))"
proof (cases "\<not> om_has key datas \<and> length datas > SURFACE_MAX_USER_DATA_COUNT")
  case True
  with assms show ?thesis by (simp add: ExtraSet_def)
next
  case False
  have "length (om_put key \<lparr>xval = v, xtype = ty\<rparr> datas) \<le> SURFACE_MAX_USER_DATA_COUNT + 1"
    using False assms(1) by (cases "map_of datas key") (auto simp: length_om_put_new length_om_put_old om_has_def extra_ok_def)
  moreover have "\<forall>(k, d) \<in> set (om_put key \<lparr>xval = v, xtype = ty\<rparr> datas). typed d"
    using assms set_om_put [of key "\<lparr>xval = v, xtype = ty\<rparr>" datas] unfolding extra_ok_def by blast
  ultimately show ?thesis using False assms(1) by (simp add: ExtraSet_def extra_ok_def)
qed

lemma view_write_extra:
  "parcel_fifo P view xfd \<Longrightarrow> typed (snd kd) \<Longrightarrow> view (write_extra P kd p) = view p @ entry_items kd"
  by (cases kd) (auto simp: write_extra_def WriteInt32_def WriteInt64_def WriteUint64_def fifo_put Let_def
      split: extra_type.splits any_val.splits)

lemma view_write_extras:
  "parcel_fifo P view xfd \<Longrightarrow> \<forall>(key, d) \<in> set datas. typed d \<Longrightarrow>
   view (fold (write_extra P) datas p) = view p @ concat (map entry_items datas)"
  by (induction datas arbitrary: p) (auto simp: view_write_extra simp del: typed.simps)

lemma write_extra_map:
  assumes "parcel_fifo P view xfd" and "extra_ok datas"
  shows "\<exists>p'. WriteToParcel P datas p = (GSERROR_OK, p') \<and> view p' = view p @ extra_items datas"
  using assms view_write_extras [of P view xfd datas]
  by (simp add: WriteToParcel_def WriteInt32_def WriteUint32_def fifo_put extra_items_def extra_ok_def Let_def)

lemma om_put_last: "\<forall>j \<in> fst ` set m. j < k \<Longrightarrow> om_put k v m = m @ [(k, v)]"
proof (induction m)
  case Nil
  then show ?case by simp
next
  case (Cons p m)
  then have "fst p < k" by simp
  with Cons show ?case by (auto simp: not_less_iff_gr_or_eq dest: less_asym)
qed

lemma sint_extra_type [simp]: "sint (word_of_int (extra_type_value t) :: 32 word) = extra_type_value t"
  by (cases t) (simp_all add: sint_int32 int32_ok_def)

lemma extra_type_value_inj [simp]: "extra_type_value a = extra_type_value b \<longleftrightarrow> a = b"
  by (cases a; cases b) simp_all

lemma read_extra_fifo:
  assumes F: "parcel_fifo P view xfd" and v: "view p = entry_items (key, d) @ rest" and t: "typed d"
  shows "\<exists>p'. read_extra P p datas = (snd (ExtraSet key (xtype d) (xval d) datas), p') \<and> view p' = rest"
proof -
  from read_String [OF F] v obtain p1 where 1: "ReadString P p = (key, p1)"
    "view p1 = P_Word32 (word_of_int (extra_type_value (xtype d))) # val_item (xval d) # rest" by fastforce
  from read_Int32 [OF F 1(2)] obtain p2 where 2: "ReadInt32 P p1 = (extra_type_value (xtype d), p2)"
    "view p2 = val_item (xval d) # rest" by auto
  note s = read_extra_def 1(1) 2(1) Let_def
  show ?thesis
  proof (cases "xval d")
    case (A_i32 v)
    with t have "xtype d = ET_i32" "int32_ok v" by (auto split: extra_type.splits)
    with A_i32 2(2) read_Int32 [OF F, of p2 "word_of_int v"] show ?thesis by (auto simp: s sint_int32)
  next
    case (A_i64 v)
    with t have "xtype d = ET_i64" "int64_ok v" by (auto split: extra_type.splits)
    with A_i64 2(2) read_Int64 [OF F, of p2 "word_of_int v"] show ?thesis by (auto simp: s sint_int64 simp del: extra_type_value.simps)
  next
    case (A_f64 v)
    with t have "xtype d = ET_f64" by (auto split: extra_type.splits)
    with A_f64 2(2) read_Uint64 [OF F, of p2 v] show ?thesis by (auto simp: s simp del: extra_type_value.simps)
  next
    case (A_string v)
    with t have "xtype d = ET_string" by (auto split: extra_type.splits)
    with A_string 2(2) read_String [OF F, of p2 v] show ?thesis by (auto simp: s simp del: extra_type_value.simps)
  qed
qed

lemma read_extras_fifo:
  assumes F: "parcel_fifo P view xfd"
  shows "view p = concat (map entry_items ds) @ rest \<Longrightarrow> extra_ok (acc @ ds) \<Longrightarrow>
    \<exists>p'. read_extras P (length ds) p acc = (acc @ ds, p') \<and> view p' = rest"
proof (induction ds arbitrary: p acc)
  case Nil
  then show ?case by simp
next
  case (Cons kd ds)
  obtain key d where kd: "kd = (key, d)" by (cases kd)
  have ok: "typed d" "\<forall>j \<in> fst ` set acc. j < key" "length acc \<le> SURFACE_MAX_USER_DATA_COUNT"
    using Cons.prems(2) by (auto simp: kd extra_ok_def om_wf_def sorted_wrt_append simp del: typed.simps)
  from ok(2) have new: "map_of acc key = None" by (auto simp: map_of_eq_None_iff)
  have v: "view p = entry_items (key, d) @ concat (map entry_items ds) @ rest" using Cons.prems(1) by (simp add: kd)
  from ok(3) new have "snd (ExtraSet key (xtype d) (xval d) acc) = acc @ [kd]"
    by (simp add: ExtraSet_def om_put_last [OF ok(2)] kd)
  with read_extra_fifo [OF F v ok(1), of acc] obtain p1 where
    1: "read_extra P p acc = (acc @ [kd], p1)" "view p1 = concat (map entry_items ds) @ rest" by auto
  from Cons.IH [OF 1(2), of "acc @ [kd]"] Cons.prems(2) 1(1) show ?case by simp
qed

lemma read_extra_map:
  assumes F: "parcel_fifo P view xfd" and v: "view p = extra_items datas @ rest" and ok: "extra_ok datas"
  shows "\<exists>p'. ReadFromParcel P p [] = (GSERROR_OK, datas, p') \<and> view p' = rest"
proof -
  have v: "view p = P_Word32 (word_of_int BUFFER_EXTRA_DATA_MAGIC) # P_Word32 (word_of_nat (length datas)) #
     concat (map entry_items datas) @ rest"
    using v by (simp add: extra_items_def)
  from fifo_read [OF F v] obtain p1 where 1: "pl_read P K_Word32 p = (Some (P_Word32 (word_of_int BUFFER_EXTRA_DATA_MAGIC)), p1)"
    "view p1 = P_Word32 (word_of_nat (length datas)) # concat (map entry_items datas) @ rest" by auto
  have m: "sint (word_of_int BUFFER_EXTRA_DATA_MAGIC :: 32 word) = BUFFER_EXTRA_DATA_MAGIC"
    by (simp add: sint_int32 int32_ok_def BUFFER_EXTRA_DATA_MAGIC_def)
  have "length datas \<le> 1001" using ok by (simp add: extra_ok_def SURFACE_MAX_USER_DATA_COUNT_def)
  then have l: "sint (word_of_nat (length datas) :: 32 word) = int (length datas)"
    by (simp add: signed_of_nat signed_take_bit_int_eq_self)
  from read_Int32 [OF F 1(2)] l obtain p2 where 2: "ReadInt32 P p1 = (int (length datas), p2)"
    "view p2 = concat (map entry_items datas) @ rest" by auto
  from read_extras_fifo [OF F 2(2), of "[]"] ok obtain p3 where
    "read_extras P (length datas) p2 [] = (datas, p3)" "view p3 = rest" by auto
  with 1(1) 2(1) m show ?thesis by (simp add: ReadFromParcel_def)
qed

section \<open>Properties\<close>

definition demo_extra :: extra_map where
  "demo_extra = [(''a'', \<lparr>xval = A_i64 (-5), xtype = ET_i64\<rparr>), (''b'', \<lparr>xval = A_string ''x'', xtype = ET_string\<rparr>)]"

lemma extra_ok_demo: "extra_ok demo_extra"
  by (simp add: extra_ok_def demo_extra_def om_wf_def int64_ok_def SURFACE_MAX_USER_DATA_COUNT_def)

text \<open>
  C27. The extra data of a buffer, written to a parcel and read into an empty map on the other side, is
  the same map, with every value and its type, and what follows in the parcel is left to be read.
\<close>

theorem extra_data_round_trip:
  assumes "parcel_fifo P view xfd" and "extra_ok datas"
  shows "\<exists>p1. WriteToParcel P datas (pl_new P) = (GSERROR_OK, p1) \<and> view p1 = extra_items datas \<and>
    (\<forall>p rest. view p = view p1 @ rest \<longrightarrow> (\<exists>p'. ReadFromParcel P p [] = (GSERROR_OK, datas, p') \<and> view p' = rest))"
proof -
  obtain p1 where "WriteToParcel P datas (pl_new P) = (GSERROR_OK, p1)" "view p1 = extra_items datas"
    using write_extra_map [OF assms, of "pl_new P"] fifo_new [OF assms(1)] by auto
  with read_extra_map [OF assms(1) _ assms(2)] show ?thesis by auto
qed

lemma extra_data_round_trip_witness:
  "ReadFromParcel list_parcel (snd (WriteToParcel list_parcel demo_extra [])) [] = (GSERROR_OK, demo_extra, [])"
proof -
  have n: "pl_new list_parcel = []" by (simp add: list_parcel_def)
  obtain p1 where w: "WriteToParcel list_parcel demo_extra [] = (GSERROR_OK, p1)"
    and r: "\<And>p rest. id p = id p1 @ rest \<Longrightarrow> \<exists>p'. ReadFromParcel list_parcel p [] = (GSERROR_OK, demo_extra, p') \<and> id p' = rest"
    using extra_data_round_trip [OF list_parcel_fifo extra_ok_demo, unfolded n] by blast
  from r [of p1 "[]"] have "ReadFromParcel list_parcel p1 [] = (GSERROR_OK, demo_extra, [])" by simp
  with w show ?thesis by simp
qed

text \<open>
  \<open>ExtraSet\<close> refuses a value only for a new key in a map of more than 1000 entries, so a map holds
  up to 1001. A value accepted is what \<open>ExtraGet\<close> of its type gives back, the other getters report a
  type error for its key, and no other key changes.
\<close>

theorem extra_set_get:
  assumes "extra_ok datas" and "ExtraSet_i32 key v datas = (ret, datas')"
  shows "ret = (if om_has key datas \<or> length datas \<le> 1000 then GSERROR_OK else GSERROR_OUT_OF_RANGE) \<and>
    length datas' \<le> 1001 \<and>
    (if ret = GSERROR_OK
     then ExtraGet_i32 key datas' = (GSERROR_OK, Some v) \<and> ExtraGet_i64 key datas' = (GSERROR_TYPE_ERROR, None) \<and>
       ExtraGet_f64 key datas' = (GSERROR_TYPE_ERROR, None) \<and> ExtraGet_string key datas' = (GSERROR_TYPE_ERROR, None) \<and>
       (\<forall>j. j \<noteq> key \<longrightarrow> map_of datas' j = map_of datas j) \<and>
       length datas' = length datas + (if om_has key datas then 0 else 1)
     else datas' = datas)"
proof -
  have l: "length (om_put key d datas) = length datas + (if om_has key datas then 0 else 1)" for d
    using assms(1) by (cases "map_of datas key") (auto simp: length_om_put_new length_om_put_old om_has_def extra_ok_def)
  have n: "GSERROR_OUT_OF_RANGE \<noteq> GSERROR_OK" by (simp add: gs)
  have m: "length datas \<le> 1001" using assms(1) by (simp add: extra_ok_def SURFACE_MAX_USER_DATA_COUNT_def)
  show ?thesis
  proof (cases "om_has key datas \<or> length datas \<le> 1000")
    case True
    with assms(2) have r: "ret = GSERROR_OK" "datas' = om_put key \<lparr>xval = A_i32 v, xtype = ET_i32\<rparr> datas"
      by (auto simp: ExtraSet_i32_def ExtraSet_def SURFACE_MAX_USER_DATA_COUNT_def)
    have g: "map_of datas' = (map_of datas)(key \<mapsto> \<lparr>xval = A_i32 v, xtype = ET_i32\<rparr>)" by (simp add: r(2))
    have "length datas' \<le> 1001" using True m l by (auto simp: r(2))
    with True r(1) l g show ?thesis
      by (simp add: r(2) ExtraGet_i32_def ExtraGet_i64_def ExtraGet_f64_def ExtraGet_string_def ExtraGet_def)
  next
    case False
    with assms(2) have "ret = GSERROR_OUT_OF_RANGE" "datas' = datas"
      by (auto simp: ExtraSet_i32_def ExtraSet_def SURFACE_MAX_USER_DATA_COUNT_def)
    with False n m show ?thesis by simp
  qed
qed

lemma extra_set_get_witness:
  "\<exists>datas'. ExtraSet_i32 ''c'' 9 demo_extra = (GSERROR_OK, datas') \<and> ExtraGet_i32 ''c'' datas' = (GSERROR_OK, Some 9)"
proof -
  obtain ret datas' where r: "ExtraSet_i32 ''c'' 9 demo_extra = (ret, datas')" by fastforce
  have "length demo_extra \<le> 1000" by (simp add: demo_extra_def)
  with extra_set_get [OF extra_ok_demo r] r show ?thesis by auto
qed

end
