(* ===== verification/Parcel_Codec.thy ===== *)
theory Parcel_Codec
  imports Extra_Data Buffer_Queue
begin

text \<open>
  What the producer and its remote stub put into parcels: \<open>frameworks/surface/src/buffer_utils.cpp\<close>,
  \<open>WriteBufferHandle\<close> and \<open>ReadBufferHandle\<close> (\<open>utils/buffer_handle/src/buffer_handle.cpp\<close>),
  \<open>BufferExtraDataImpl\<close> (\<open>frameworks/surface/src/buffer_extra_data_impl.cpp\<close>) and the fences of
  \<open>utils/sync_fence/src/sync_fence.cpp\<close>. Each pair of a writer and a reader has its round trip.
\<close>

section \<open>Configurations\<close>

definition WriteRequestConfig :: "'p parcel_ops \<Rightarrow> buffer_request_config \<Rightarrow> 'p \<Rightarrow> 'p" where
  "WriteRequestConfig P c p =
     (let p = WriteInt32 P (width c) p; p = WriteInt32 P (height c) p;
          p = WriteInt32 P (strideAlignment c) p; p = WriteInt32 P (format c) p;
          p = WriteInt32 P (usage c) p; p = WriteInt32 P (timeout c) p;
          p = WriteInt32 P (colorGamut c) p; p = WriteInt32 P (transform c) p
      in WriteInt32 P (scalingMode c) p)"

definition ReadRequestConfig :: "'p parcel_ops \<Rightarrow> 'p \<Rightarrow> buffer_request_config \<times> 'p" where
  "ReadRequestConfig P p =
     (let (w, p) = ReadInt32 P p; (h, p) = ReadInt32 P p; (sa, p) = ReadInt32 P p;
          (f, p) = ReadInt32 P p; (u, p) = ReadInt32 P p; (t, p) = ReadInt32 P p;
          (cg, p) = ReadInt32 P p; (tr, p) = ReadInt32 P p; (sm, p) = ReadInt32 P p
      in (\<lparr>width = w, height = h, strideAlignment = sa, format = f, usage = u, timeout = t,
           colorGamut = cg, transform = tr, scalingMode = sm\<rparr>, p))"

definition WriteFlushConfig :: "'p parcel_ops \<Rightarrow> buffer_flush_config \<Rightarrow> 'p \<Rightarrow> 'p" where
  "WriteFlushConfig P c p =
     (let p = WriteInt32 P (rx (damage c)) p; p = WriteInt32 P (ry (damage c)) p;
          p = WriteInt32 P (rw (damage c)) p; p = WriteInt32 P (rh (damage c)) p
      in WriteInt64 P (timestamp c) p)"

definition ReadFlushConfig :: "'p parcel_ops \<Rightarrow> 'p \<Rightarrow> buffer_flush_config \<times> 'p" where
  "ReadFlushConfig P p =
     (let (x, p) = ReadInt32 P p; (y, p) = ReadInt32 P p; (w, p) = ReadInt32 P p; (h, p) = ReadInt32 P p;
          (ts, p) = ReadInt64 P p
      in (\<lparr>damage = \<lparr>rx = x, ry = y, rw = w, rh = h\<rparr>, timestamp = ts\<rparr>, p))"

definition request_items :: "buffer_request_config \<Rightarrow> item list" where
  "request_items c = map (\<lambda>x. P_Word32 (word_of_int x))
     [width c, height c, strideAlignment c, format c, usage c, timeout c, colorGamut c, transform c, scalingMode c]"

definition request_typed :: "buffer_request_config \<Rightarrow> bool" where
  "request_typed c \<longleftrightarrow> (\<forall>x \<in> {width c, height c, strideAlignment c, format c, usage c, timeout c, colorGamut c,
     transform c, scalingMode c}. int32_ok x)"

lemma view_WriteRequestConfig:
  "parcel_fifo P view xfd \<Longrightarrow> view (WriteRequestConfig P c p) = view p @ request_items c"
  by (simp add: WriteRequestConfig_def WriteInt32_def fifo_put request_items_def Let_def)

lemma read_RequestConfig:
  assumes F: "parcel_fifo P view xfd" and v: "view p = request_items c @ rest" and c: "request_typed c"
  shows "\<exists>p'. ReadRequestConfig P p = (c, p') \<and> view p' = rest"
proof -
  note R = read_Int32 [OF F]
  from R v obtain p1 where 1: "ReadInt32 P p = (sint (word_of_int (width c) :: 32 word), p1)" "view p1 = drop 1 (request_items c) @ rest"
    by (fastforce simp: request_items_def)
  from R 1(2) obtain p2 where 2: "ReadInt32 P p1 = (sint (word_of_int (height c) :: 32 word), p2)" "view p2 = drop 2 (request_items c) @ rest"
    by (fastforce simp: request_items_def)
  from R 2(2) obtain p3 where 3: "ReadInt32 P p2 = (sint (word_of_int (strideAlignment c) :: 32 word), p3)" "view p3 = drop 3 (request_items c) @ rest"
    by (fastforce simp: request_items_def)
  from R 3(2) obtain p4 where 4: "ReadInt32 P p3 = (sint (word_of_int (format c) :: 32 word), p4)" "view p4 = drop 4 (request_items c) @ rest"
    by (fastforce simp: request_items_def)
  from R 4(2) obtain p5 where 5: "ReadInt32 P p4 = (sint (word_of_int (usage c) :: 32 word), p5)" "view p5 = drop 5 (request_items c) @ rest"
    by (fastforce simp: request_items_def)
  from R 5(2) obtain p6 where 6: "ReadInt32 P p5 = (sint (word_of_int (timeout c) :: 32 word), p6)" "view p6 = drop 6 (request_items c) @ rest"
    by (fastforce simp: request_items_def)
  from R 6(2) obtain p7 where 7: "ReadInt32 P p6 = (sint (word_of_int (colorGamut c) :: 32 word), p7)" "view p7 = drop 7 (request_items c) @ rest"
    by (fastforce simp: request_items_def)
  from R 7(2) obtain p8 where 8: "ReadInt32 P p7 = (sint (word_of_int (transform c) :: 32 word), p8)" "view p8 = drop 8 (request_items c) @ rest"
    by (fastforce simp: request_items_def)
  from R 8(2) obtain p9 where 9: "ReadInt32 P p8 = (sint (word_of_int (scalingMode c) :: 32 word), p9)" "view p9 = rest"
    by (fastforce simp: request_items_def)
  from c show ?thesis
    by (simp add: ReadRequestConfig_def 1(1) 2(1) 3(1) 4(1) 5(1) 6(1) 7(1) 8(1) 9 sint_int32 request_typed_def Let_def)
qed

definition flush_items :: "buffer_flush_config \<Rightarrow> item list" where
  "flush_items c = map (\<lambda>x. P_Word32 (word_of_int x)) [rx (damage c), ry (damage c), rw (damage c), rh (damage c)]
     @ [P_Word64 (word_of_int (timestamp c))]"

definition flush_typed :: "buffer_flush_config \<Rightarrow> bool" where
  "flush_typed c \<longleftrightarrow> (\<forall>x \<in> {rx (damage c), ry (damage c), rw (damage c), rh (damage c)}. int32_ok x) \<and> int64_ok (timestamp c)"

lemma view_WriteFlushConfig:
  "parcel_fifo P view xfd \<Longrightarrow> view (WriteFlushConfig P c p) = view p @ flush_items c"
  by (simp add: WriteFlushConfig_def WriteInt32_def WriteInt64_def fifo_put flush_items_def Let_def)

lemma read_FlushConfig:
  assumes F: "parcel_fifo P view xfd" and v: "view p = flush_items c @ rest" and c: "flush_typed c"
  shows "\<exists>p'. ReadFlushConfig P p = (c, p') \<and> view p' = rest"
proof -
  note R = read_Int32 [OF F]
  from R v obtain p1 where 1: "ReadInt32 P p = (sint (word_of_int (rx (damage c)) :: 32 word), p1)" "view p1 = drop 1 (flush_items c) @ rest"
    by (fastforce simp: flush_items_def)
  from R 1(2) obtain p2 where 2: "ReadInt32 P p1 = (sint (word_of_int (ry (damage c)) :: 32 word), p2)" "view p2 = drop 2 (flush_items c) @ rest"
    by (fastforce simp: flush_items_def)
  from R 2(2) obtain p3 where 3: "ReadInt32 P p2 = (sint (word_of_int (rw (damage c)) :: 32 word), p3)" "view p3 = drop 3 (flush_items c) @ rest"
    by (fastforce simp: flush_items_def)
  from R 3(2) obtain p4 where 4: "ReadInt32 P p3 = (sint (word_of_int (rh (damage c)) :: 32 word), p4)" "view p4 = drop 4 (flush_items c) @ rest"
    by (fastforce simp: flush_items_def)
  from read_Int64 [OF F] 4(2) obtain p5 where 5: "ReadInt64 P p4 = (sint (word_of_int (timestamp c) :: 64 word), p5)" "view p5 = rest"
    by (fastforce simp: flush_items_def)
  from c show ?thesis
    by (simp add: ReadFlushConfig_def 1(1) 2(1) 3(1) 4(1) 5 sint_int32 sint_int64 flush_typed_def Let_def)
qed

section \<open>Allocation queries\<close>

fun write_infos :: "'p parcel_ops \<Rightarrow> verify_alloc_info list \<Rightarrow> 'p \<Rightarrow> 'p" where
  "write_infos P [] p = p"
| "write_infos P (i # vs) p =
     write_infos P vs (WriteInt32 P (vformat i) (WriteUint64 P (vusage i)
       (WriteUint32 P (vheight i) (WriteUint32 P (vwidth i) p))))"

definition WriteVerifyAllocInfo :: "'p parcel_ops \<Rightarrow> verify_alloc_info list \<Rightarrow> 'p \<Rightarrow> 'p" where
  "WriteVerifyAllocInfo P infos p = write_infos P infos (WriteUint32 P (word_of_nat (length infos)) p)"

fun read_infos :: "'p parcel_ops \<Rightarrow> nat \<Rightarrow> 'p \<Rightarrow> verify_alloc_info list \<times> 'p" where
  "read_infos P 0 p = ([], p)"
| "read_infos P (Suc n) p =
     (let (w, p) = ReadUint32 P p; (h, p) = ReadUint32 P p; (u, p) = ReadUint64 P p; (f, p) = ReadInt32 P p;
          (vs, p) = read_infos P n p
      in (\<lparr>vwidth = w, vheight = h, vusage = u, vformat = f\<rparr> # vs, p))"

definition ReadVerifyAllocInfo :: "'p parcel_ops \<Rightarrow> 'p \<Rightarrow> verify_alloc_info list \<times> 'p" where
  "ReadVerifyAllocInfo P p = (let (size, p) = ReadUint32 P p in read_infos P (unat size) p)"

definition info_items :: "verify_alloc_info \<Rightarrow> item list" where
  "info_items i = [P_Word32 (vwidth i), P_Word32 (vheight i), P_Word64 (vusage i), P_Word32 (word_of_int (vformat i))]"

lemma view_write_infos:
  "parcel_fifo P view xfd \<Longrightarrow> view (write_infos P vs p) = view p @ concat (map info_items vs)"
  by (induction vs arbitrary: p) (simp_all add: WriteInt32_def WriteUint32_def WriteUint64_def fifo_put info_items_def)

lemma read_infos_fifo:
  assumes F: "parcel_fifo P view xfd"
  shows "view p = concat (map info_items vs) @ rest \<Longrightarrow> \<forall>i \<in> set vs. int32_ok (vformat i) \<Longrightarrow>
    \<exists>p'. read_infos P (length vs) p = (vs, p') \<and> view p' = rest"
proof (induction vs arbitrary: p)
  case Nil
  then show ?case by simp
next
  case (Cons i vs)
  let ?tail = "concat (map info_items vs) @ rest"
  have "view p = P_Word32 (vwidth i) # drop 1 (info_items i) @ ?tail"
    using Cons.prems(1) by (simp add: info_items_def [of i])
  from read_Uint32 [OF F this] obtain p1 where
    1: "ReadUint32 P p = (vwidth i, p1)" "view p1 = drop 1 (info_items i) @ ?tail" by blast
  from read_Uint32 [OF F] 1(2) obtain p2 where
    2: "ReadUint32 P p1 = (vheight i, p2)" "view p2 = drop 2 (info_items i) @ ?tail" by (fastforce simp: info_items_def [of i])
  from read_Uint64 [OF F] 2(2) obtain p3 where
    3: "ReadUint64 P p2 = (vusage i, p3)" "view p3 = drop 3 (info_items i) @ ?tail" by (fastforce simp: info_items_def [of i])
  from read_Int32 [OF F] 3(2) obtain p4 where
    4: "ReadInt32 P p3 = (sint (word_of_int (vformat i) :: 32 word), p4)" "view p4 = ?tail" by (fastforce simp: info_items_def [of i])
  from Cons.IH [OF 4(2)] Cons.prems(2) obtain p5 where "read_infos P (length vs) p4 = (vs, p5)" "view p5 = rest" by auto
  with 1(1) 2(1) 3(1) 4(1) Cons.prems(2) show ?case by (simp add: sint_int32 Let_def)
qed

section \<open>Fences\<close>

text \<open>
  The free functions of \<open>buffer_utils.cpp\<close>; \<open>bad_fd\<close> tells that \<open>fcntl\<close> answers \<open>EBADF\<close>. The last
  component of \<open>WriteFence\<close> is the descriptors closed.
\<close>

definition ReadFence :: "'p parcel_ops \<Rightarrow> 'p \<Rightarrow> int \<times> 'p" where
  "ReadFence P p = (let (fence, p) = ReadInt32 P p in if fence < 0 then (fence, p) else ReadFileDescriptor P p)"

definition WriteFence :: "'p parcel_ops \<Rightarrow> (int \<Rightarrow> bool) \<Rightarrow> int \<Rightarrow> 'p \<Rightarrow> 'p \<times> int list" where
  "WriteFence P bad_fd fence p =
     (let fence = (if fence \<ge> 0 \<and> bad_fd fence then -1 else fence);
          p = WriteInt32 P fence p
      in if fence < 0 then (p, []) else (put P (P_Fd fence) p, [fence]))"

text \<open>
  \<open>SyncFence\<close> as its descriptor. Reading an invalid fence leaves the object's descriptor as it
  was.
\<close>

definition fence_ReadFromMessageParcel :: "'p parcel_ops \<Rightarrow> int \<Rightarrow> 'p \<Rightarrow> int \<times> 'p" where
  "fence_ReadFromMessageParcel P fenceFd p =
     (let (fence, p) = ReadInt32 P p in if fence < 0 then (fenceFd, p) else ReadFileDescriptor P p)"

definition fence_WriteToMessageParcel :: "'p parcel_ops \<Rightarrow> (int \<Rightarrow> bool) \<Rightarrow> int \<Rightarrow> 'p \<Rightarrow> 'p" where
  "fence_WriteToMessageParcel P bad_fd fenceFd p =
     (let fence = (if fenceFd \<ge> 0 \<and> bad_fd fenceFd then -1 else fenceFd);
          p = WriteInt32 P fence p
      in if fence < 0 then p else put P (P_Fd fence) p)"

definition fence_items :: "(int \<Rightarrow> int) \<Rightarrow> (int \<Rightarrow> bool) \<Rightarrow> int \<Rightarrow> item list" where
  "fence_items xfd bad_fd fd = (if 0 \<le> fd \<and> \<not> bad_fd fd then [P_Word32 (word_of_int fd), P_Fd (xfd fd)]
     else [P_Word32 (word_of_int (if 0 \<le> fd then -1 else fd))])"

lemma view_fence_Write:
  "parcel_fifo P view xfd \<Longrightarrow>
     view (fence_WriteToMessageParcel P bad_fd fd p) = view p @ fence_items xfd bad_fd fd"
  by (simp add: fence_WriteToMessageParcel_def fence_items_def WriteInt32_def fifo_put Let_def)

lemma read_fence:
  assumes F: "parcel_fifo P view xfd" and v: "view p = fence_items xfd bad_fd fd @ rest" and fd: "int32_ok fd"
  shows "\<exists>p'. fence_ReadFromMessageParcel P old p = (if 0 \<le> fd \<and> \<not> bad_fd fd then xfd fd else old, p') \<and> view p' = rest"
proof (cases "0 \<le> fd \<and> \<not> bad_fd fd")
  case True
  with v have "view p = P_Word32 (word_of_int fd) # P_Fd (xfd fd) # rest" by (simp add: fence_items_def)
  from read_Int32 [OF F this] obtain p1 where 1: "ReadInt32 P p = (sint (word_of_int fd :: 32 word), p1)" "view p1 = P_Fd (xfd fd) # rest" by blast
  from read_Fd [OF F 1(2)] obtain p2 where "ReadFileDescriptor P p1 = (xfd fd, p2)" "view p2 = rest" by blast
  with 1(1) True fd show ?thesis by (simp add: fence_ReadFromMessageParcel_def sint_int32)
next
  case False
  let ?x = "if 0 \<le> fd then -1 else fd"
  have x: "int32_ok ?x" "?x < 0" using fd by (auto simp: int32_ok_def)
  from False v have "view p = P_Word32 (word_of_int ?x) # rest" by (auto simp: fence_items_def)
  from read_Int32 [OF F this] obtain p1 where "ReadInt32 P p = (?x, p1)" "view p1 = rest" using sint_int32 [OF x(1)] by metis
  with False x(2) show ?thesis by (auto simp: fence_ReadFromMessageParcel_def)
qed

section \<open>Buffer handles\<close>

definition WriteBufferHandle :: "'p parcel_ops \<Rightarrow> buffer_handle \<Rightarrow> 'p \<Rightarrow> bool \<times> 'p" where
  "WriteBufferHandle P h p =
     (let (ok, p) = write_all P
            [P_Word32 (word_of_nat (bh_reserveFds h)), P_Word32 (word_of_nat (bh_reserveInts h)),
             P_Word32 (word_of_int (bh_width h)), P_Word32 (word_of_int (bh_stride h)),
             P_Word32 (word_of_int (bh_height h)), P_Word32 (word_of_int (bh_size h)),
             P_Word32 (word_of_int (bh_format h)), P_Word64 (word_of_int (bh_usage h)),
             P_Word64 (word_of_int (bh_phyAddr h)), P_Word32 (word_of_int (bh_key h))] p
      in if \<not> ok then (False, p)
         else
           (let validFd = (bh_fd h \<ge> 0);
                (ok, p) = write_all P [P_Bool validFd] p
            in if \<not> ok then (False, p)
               else
                 (let (ok, p) = (if validFd then write_all P [P_Fd (bh_fd h)] p else (True, p))
                  in if \<not> ok then (False, p)
                     else
                       (let (ok, p) = write_all P (map P_Fd (take (bh_reserveFds h) (bh_reserve h))) p
                        in if \<not> ok then (False, p)
                           else write_all P (map (\<lambda>x. P_Word32 (word_of_int x))
                             (take (bh_reserveInts h) (drop (bh_reserveFds h) (bh_reserve h)))) p))))"

text \<open>The loops of \<open>ReadBufferHandle\<close>; descriptors not read are -1, as allocated.\<close>

fun read_fds :: "'p parcel_ops \<Rightarrow> nat \<Rightarrow> 'p \<Rightarrow> bool \<times> int list \<times> 'p" where
  "read_fds P 0 p = (True, [], p)"
| "read_fds P (Suc n) p =
     (let (fd, p) = ReadFileDescriptor P p
      in if fd = -1 then (False, replicate (Suc n) (-1), p)
         else (let (ok, fds, p) = read_fds P n p in (ok, fd # fds, p)))"

fun read_ints :: "'p parcel_ops \<Rightarrow> nat \<Rightarrow> 'p \<Rightarrow> int list option \<times> 'p" where
  "read_ints P n p =
     (let (its, p) = read_all P (replicate n K_Word32) p
      in (map_option (map (\<lambda>it. case it of P_Word32 w \<Rightarrow> sint w | _ \<Rightarrow> 0)) its, p))"

text \<open>
  The handle read, or none with the descriptors closed on the way out; and the parcel left. The body
  of \<open>ReadBufferHandle\<close> in its three stages: the header, the fields, the descriptors and integers.
\<close>

definition read_handle_reserve ::
  "'p parcel_ops \<Rightarrow> buffer_handle \<Rightarrow> 'p \<Rightarrow> (buffer_handle option \<times> int list) \<times> 'p" where
  "read_handle_reserve P h p =
     (let fail = (\<lambda>h p. ((None, FreeBufferHandle (Some h)), p))
      in case pl_read P K_Bool p of
           (Some (P_Bool validFd), p) \<Rightarrow>
             (let (fd, p) = (if validFd then ReadFileDescriptor P p else (-1, p));
                  h = h\<lparr>bh_fd := fd\<rparr>
              in if validFd \<and> fd = -1 then fail h p
                 else
                   (let (ok, rfds, p) = read_fds P (bh_reserveFds h) p;
                        h = h\<lparr>bh_reserve := rfds @ drop (bh_reserveFds h) (bh_reserve h)\<rparr>
                    in if \<not> ok then fail h p
                       else case read_ints P (bh_reserveInts h) p of
                              (None, p) \<Rightarrow> fail h p
                            | (Some rints, p) \<Rightarrow> ((Some (h\<lparr>bh_reserve := rfds @ rints\<rparr>), []), p)))
         | (_, p) \<Rightarrow> fail h p)"

definition read_handle_fields ::
  "'p parcel_ops \<Rightarrow> buffer_handle \<Rightarrow> 'p \<Rightarrow> (buffer_handle option \<times> int list) \<times> 'p" where
  "read_handle_fields P h p =
     (case read_all P [K_Word32, K_Word32, K_Word32, K_Word32, K_Word32, K_Word64, K_Word64, K_Word32] p of
        (Some [P_Word32 w, P_Word32 st, P_Word32 ht, P_Word32 sz, P_Word32 fm, P_Word64 us, P_Word64 ph, P_Word32 ky], p) \<Rightarrow>
          read_handle_reserve P
            (h\<lparr>bh_width := sint w, bh_stride := sint st, bh_height := sint ht, bh_size := sint sz,
               bh_format := sint fm, bh_usage := uint us, bh_phyAddr := uint ph, bh_key := sint ky\<rparr>) p
      | (_, p) \<Rightarrow> ((None, FreeBufferHandle (Some h)), p))"

definition ReadBufferHandle :: "'p parcel_ops \<Rightarrow> bool \<Rightarrow> 'p \<Rightarrow> (buffer_handle option \<times> int list) \<times> 'p" where
  "ReadBufferHandle P malloc_ok p =
     (case read_all P [K_Word32, K_Word32] p of
        (Some [P_Word32 fds, P_Word32 ints], p) \<Rightarrow>
          (case AllocateBufferHandle malloc_ok (unat fds) (unat ints) of
             None \<Rightarrow> ((None, []), p)
           | Some h \<Rightarrow> read_handle_fields P h p)
      | (_, p) \<Rightarrow> ((None, []), p))"

definition handle_typed :: "buffer_handle \<Rightarrow> bool" where
  "handle_typed h \<longleftrightarrow> handle_wf h \<and> bh_reserveFds h < 2 ^ 32 \<and> bh_reserveInts h < 2 ^ 32 \<and>
     (\<forall>x \<in> {bh_width h, bh_stride h, bh_height h, bh_size h, bh_format h, bh_key h}. int32_ok x) \<and>
     0 \<le> bh_usage h \<and> bh_usage h < 2 ^ 64 \<and> 0 \<le> bh_phyAddr h \<and> bh_phyAddr h < 2 ^ 64 \<and>
     (\<forall>fd \<in> set (take (bh_reserveFds h) (bh_reserve h)). 0 \<le> fd) \<and>
     (\<forall>x \<in> set (drop (bh_reserveFds h) (bh_reserve h)). int32_ok x)"

text \<open>The handle as the receiver has it: its own descriptors, and not mapped.\<close>

definition received_handle :: "(int \<Rightarrow> int) \<Rightarrow> buffer_handle \<Rightarrow> buffer_handle" where
  "received_handle xfd h = h\<lparr>bh_fd := (if 0 \<le> bh_fd h then xfd (bh_fd h) else -1), bh_virAddr := 0,
     bh_reserve := map xfd (take (bh_reserveFds h) (bh_reserve h)) @ drop (bh_reserveFds h) (bh_reserve h)\<rparr>"

definition handle_items :: "(int \<Rightarrow> int) \<Rightarrow> buffer_handle \<Rightarrow> item list" where
  "handle_items xfd h =
     [P_Word32 (word_of_nat (bh_reserveFds h)), P_Word32 (word_of_nat (bh_reserveInts h))] @
     [P_Word32 (word_of_int (bh_width h)), P_Word32 (word_of_int (bh_stride h)),
      P_Word32 (word_of_int (bh_height h)), P_Word32 (word_of_int (bh_size h)),
      P_Word32 (word_of_int (bh_format h)), P_Word64 (word_of_int (bh_usage h)),
      P_Word64 (word_of_int (bh_phyAddr h)), P_Word32 (word_of_int (bh_key h))] @
     [P_Bool (bh_fd h \<ge> 0)] @ (if bh_fd h \<ge> 0 then [P_Fd (xfd (bh_fd h))] else []) @
     map (\<lambda>fd. P_Fd (xfd fd)) (take (bh_reserveFds h) (bh_reserve h)) @
     map (\<lambda>x. P_Word32 (word_of_int x)) (drop (bh_reserveFds h) (bh_reserve h))"

lemma write_handle:
  assumes F: "parcel_fifo P view xfd" and h: "handle_typed h"
  shows "\<exists>p'. WriteBufferHandle P h p = (True, p') \<and> view p' = view p @ handle_items xfd h"
proof -
  note W = write_all_fifo [OF F]
  let ?A = "[P_Word32 (word_of_nat (bh_reserveFds h)), P_Word32 (word_of_nat (bh_reserveInts h)),
             P_Word32 (word_of_int (bh_width h)), P_Word32 (word_of_int (bh_stride h)),
             P_Word32 (word_of_int (bh_height h)), P_Word32 (word_of_int (bh_size h)),
             P_Word32 (word_of_int (bh_format h)), P_Word64 (word_of_int (bh_usage h)),
             P_Word64 (word_of_int (bh_phyAddr h)), P_Word32 (word_of_int (bh_key h))]"
  let ?fds = "take (bh_reserveFds h) (bh_reserve h)"
  let ?ints = "drop (bh_reserveFds h) (bh_reserve h)"
  have ints: "take (bh_reserveInts h) ?ints = ?ints" using h by (simp add: handle_typed_def handle_wf_def)
  obtain p1 where 1: "write_all P ?A p = (True, p1)" "view p1 = view p @ map (received xfd) ?A"
    using W [of ?A p] by auto
  obtain p2 where 2: "write_all P [P_Bool (bh_fd h \<ge> 0)] p1 = (True, p2)" "view p2 = view p1 @ [P_Bool (bh_fd h \<ge> 0)]"
    using W [of "[P_Bool (bh_fd h \<ge> 0)]" p1] by auto
  obtain p3 where 3: "(if bh_fd h \<ge> 0 then write_all P [P_Fd (bh_fd h)] p2 else (True, p2)) = (True, p3)"
    "view p3 = view p2 @ (if bh_fd h \<ge> 0 then [P_Fd (xfd (bh_fd h))] else [])"
    using W [of "[P_Fd (bh_fd h)]" p2] by (cases "bh_fd h \<ge> 0") auto
  obtain p4 where 4: "write_all P (map P_Fd ?fds) p3 = (True, p4)" "view p4 = view p3 @ map (\<lambda>fd. P_Fd (xfd fd)) ?fds"
    using W [of "map P_Fd ?fds" p3] h by (auto simp: handle_typed_def comp_def)
  obtain p5 where 5: "write_all P (map (\<lambda>x. P_Word32 (word_of_int x)) ?ints) p4 = (True, p5)"
    "view p5 = view p4 @ map (\<lambda>x. P_Word32 (word_of_int x)) ?ints"
    using W [of "map (\<lambda>x. P_Word32 (word_of_int x)) ?ints" p4] by (auto simp: comp_def)
  have "WriteBufferHandle P h p = (True, p5)"
    unfolding WriteBufferHandle_def Let_def ints 1(1) by (simp only: prod.case 2(1) 3(1) 4(1) 5(1) simp_thms if_False)
  moreover have "view p5 = view p @ handle_items xfd h"
    using 1(2) 2(2) 3(2) 4(2) 5(2) by (simp add: handle_items_def)
  ultimately show ?thesis by blast
qed

lemma read_fds_fifo:
  assumes F: "parcel_fifo P view xfd"
  shows "view p = map (\<lambda>fd. P_Fd (xfd fd)) fds @ rest \<Longrightarrow> \<forall>fd \<in> set fds. 0 \<le> fd \<Longrightarrow>
    \<exists>p'. read_fds P (length fds) p = (True, map xfd fds, p') \<and> view p' = rest"
proof (induction fds arbitrary: p)
  case Nil
  then show ?case by simp
next
  case (Cons fd fds)
  from read_Fd [OF F] Cons.prems(1) obtain p1 where
    1: "ReadFileDescriptor P p = (xfd fd, p1)" "view p1 = map (\<lambda>fd. P_Fd (xfd fd)) fds @ rest" by fastforce
  have "0 \<le> fd" using Cons.prems(2) by simp
  then have "xfd fd \<noteq> -1" using F by (force simp: parcel_fifo_def)
  moreover obtain p2 where "read_fds P (length fds) p1 = (True, map xfd fds, p2)" "view p2 = rest"
    using Cons.IH [OF 1(2)] Cons.prems(2) by auto
  ultimately show ?case using 1(1) by simp
qed

lemma read_ints_fifo:
  assumes F: "parcel_fifo P view xfd" and v: "view p = map (\<lambda>x. P_Word32 (word_of_int x)) xs @ rest"
    and x: "\<forall>x \<in> set xs. int32_ok x"
  shows "\<exists>p'. read_ints P (length xs) p = (Some xs, p') \<and> view p' = rest"
proof -
  have "map kind_of (map (\<lambda>x. P_Word32 (word_of_int x)) xs) = replicate (length xs) K_Word32"
    by (simp add: comp_def map_replicate_const)
  from read_all_fifo [OF F v this] obtain p' where
    "read_all P (replicate (length xs) K_Word32) p = (Some (map (\<lambda>x. P_Word32 (word_of_int x)) xs), p')" "view p' = rest" by blast
  moreover have "map (\<lambda>x. sint (word_of_int x :: 32 word)) xs = xs"
    using x by (simp add: sint_int32 map_idI)
  ultimately show ?thesis by (simp add: comp_def)
qed

lemma read_handle_reserve_fifo:
  assumes F: "parcel_fifo P view xfd"
    and v: "view p = P_Bool (0 \<le> fd) # (if 0 \<le> fd then [P_Fd (xfd fd)] else []) @
       map (\<lambda>fd. P_Fd (xfd fd)) fds @ map (\<lambda>x. P_Word32 (word_of_int x)) ints @ rest"
    and h: "length fds = bh_reserveFds h" "length ints = bh_reserveInts h"
    and t: "\<forall>fd \<in> set fds. 0 \<le> fd" "\<forall>x \<in> set ints. int32_ok x"
  shows "\<exists>p'. read_handle_reserve P h p =
     ((Some (h\<lparr>bh_fd := (if 0 \<le> fd then xfd fd else -1), bh_reserve := map xfd fds @ ints\<rparr>), []), p') \<and> view p' = rest"
proof -
  let ?R = "map (\<lambda>fd. P_Fd (xfd fd)) fds" and ?I = "map (\<lambda>x. P_Word32 (word_of_int x)) ints"
  obtain p3 where 3: "pl_read P K_Bool p = (Some (P_Bool (0 \<le> fd)), p3)"
    "view p3 = (if 0 \<le> fd then [P_Fd (xfd fd)] else []) @ ?R @ ?I @ rest"
    using fifo_read [OF F v, of K_Bool] by auto
  define nfd where "nfd = (if 0 \<le> fd then xfd fd else -1)"
  obtain p4 where 4: "(if 0 \<le> fd then ReadFileDescriptor P p3 else (-1, p3)) = (nfd, p4)" "view p4 = ?R @ ?I @ rest"
  proof (cases "0 \<le> fd")
    case True
    with read_Fd [OF F, of p3 "xfd fd" "?R @ ?I @ rest"] 3(2) that show thesis by (auto simp: nfd_def)
  next
    case False
    with 3(2) that show thesis by (simp add: nfd_def)
  qed
  have "0 \<le> xfd fd" if "0 \<le> fd" using F that by (simp add: parcel_fifo_def)
  then have nf: "\<not> (0 \<le> fd \<and> nfd = -1)" by (force simp: nfd_def)
  obtain p5 where 5: "read_fds P (bh_reserveFds h) p4 = (True, map xfd fds, p5)" "view p5 = ?I @ rest"
    using read_fds_fifo [OF F 4(2) t(1)] h by auto
  obtain p6 where 6: "read_ints P (bh_reserveInts h) p5 = (Some ints, p6)" "view p6 = rest"
    using read_ints_fifo [OF F 5(2) t(2)] h by (auto simp del: read_ints.simps)
  have "read_handle_reserve P h p = ((Some (h\<lparr>bh_fd := nfd, bh_reserve := map xfd fds @ ints\<rparr>), []), p6)"
    using nf by (simp add: read_handle_reserve_def 3(1) 4(1) 5(1) 6(1) Let_def del: read_ints.simps)
  with 6(2) show ?thesis unfolding nfd_def by blast
qed

lemma read_handle:
  assumes F: "parcel_fifo P view xfd" and v: "view p = handle_items xfd h @ rest" and h: "handle_typed h"
  shows "\<exists>p'. ReadBufferHandle P True p = ((Some (received_handle xfd h), []), p') \<and> view p' = rest"
proof -
  let ?fds = "take (bh_reserveFds h) (bh_reserve h)"
  let ?ints = "drop (bh_reserveFds h) (bh_reserve h)"
  let ?B = "[P_Word32 (word_of_nat (bh_reserveFds h)), P_Word32 (word_of_nat (bh_reserveInts h))]"
  let ?C = "[P_Word32 (word_of_int (bh_width h)), P_Word32 (word_of_int (bh_stride h)),
      P_Word32 (word_of_int (bh_height h)), P_Word32 (word_of_int (bh_size h)),
      P_Word32 (word_of_int (bh_format h)), P_Word64 (word_of_int (bh_usage h)),
      P_Word64 (word_of_int (bh_phyAddr h)), P_Word32 (word_of_int (bh_key h))]"
  let ?T = "P_Bool (0 \<le> bh_fd h) # (if 0 \<le> bh_fd h then [P_Fd (xfd (bh_fd h))] else []) @
      map (\<lambda>fd. P_Fd (xfd fd)) ?fds @ map (\<lambda>x. P_Word32 (word_of_int x)) ?ints @ rest"
  have v: "view p = ?B @ ?C @ ?T" using v by (simp add: handle_items_def)
  obtain p1 where 1: "read_all P [K_Word32, K_Word32] p = (Some ?B, p1)" "view p1 = ?C @ ?T"
    using read_all_fifo [OF F v, of "[K_Word32, K_Word32]"] by auto
  obtain p2 where 2: "read_all P [K_Word32, K_Word32, K_Word32, K_Word32, K_Word32, K_Word64, K_Word64, K_Word32] p1 = (Some ?C, p2)"
    "view p2 = ?T"
    using read_all_fifo [OF F 1(2), of "[K_Word32, K_Word32, K_Word32, K_Word32, K_Word32, K_Word64, K_Word64, K_Word32]"] by auto
  have lf: "length ?fds = bh_reserveFds h" and li: "length ?ints = bh_reserveInts h"
    and t: "\<forall>fd \<in> set ?fds. 0 \<le> fd" "\<forall>x \<in> set ?ints. int32_ok x"
    using h by (simp_all add: handle_typed_def handle_wf_def)
  define h0 where "h0 = the (AllocateBufferHandle True (bh_reserveFds h) (bh_reserveInts h))"
  have h0: "AllocateBufferHandle True (bh_reserveFds h) (bh_reserveInts h) = Some h0"
    "bh_reserveFds h0 = bh_reserveFds h" "bh_reserveInts h0 = bh_reserveInts h" "bh_virAddr h0 = 0"
    by (simp_all add: h0_def AllocateBufferHandle_def)
  define h1 where "h1 = h0\<lparr>bh_width := bh_width h, bh_stride := bh_stride h, bh_height := bh_height h, bh_size := bh_size h,
     bh_format := bh_format h, bh_usage := bh_usage h, bh_phyAddr := bh_phyAddr h, bh_key := bh_key h\<rparr>"
  have un: "unat (word_of_nat (bh_reserveFds h) :: 32 word) = bh_reserveFds h"
    "unat (word_of_nat (bh_reserveInts h) :: 32 word) = bh_reserveInts h"
    using h by (simp_all add: handle_typed_def unat_of_nat take_bit_nat_eq_self)
  have us: "uint (word_of_int (bh_usage h) :: 64 word) = bh_usage h" "uint (word_of_int (bh_phyAddr h) :: 64 word) = bh_phyAddr h"
    using h by (simp_all add: handle_typed_def uint_word_of_int take_bit_int_eq_self)
  have si: "\<forall>x \<in> {bh_width h, bh_stride h, bh_height h, bh_size h, bh_format h, bh_key h}. sint (word_of_int x :: 32 word) = x"
    using h sint_int32 unfolding handle_typed_def by blast
  have "ReadBufferHandle P True p = read_handle_fields P h0 p1"
    unfolding ReadBufferHandle_def 1(1) by (simp add: un h0(1))
  also have "\<dots> = read_handle_reserve P h1 p2"
    using si unfolding read_handle_fields_def 2(1) by (simp add: us h1_def)
  finally have R: "ReadBufferHandle P True p = read_handle_reserve P h1 p2" .
  obtain p' where "read_handle_reserve P h1 p2 =
      ((Some (h1\<lparr>bh_fd := (if 0 \<le> bh_fd h then xfd (bh_fd h) else -1), bh_reserve := map xfd ?fds @ ?ints\<rparr>), []), p')" "view p' = rest"
    using read_handle_reserve_fifo [OF F 2(2), of h1] lf li t h0 by (auto simp: h1_def)
  moreover have "h1\<lparr>bh_fd := (if 0 \<le> bh_fd h then xfd (bh_fd h) else -1), bh_reserve := map xfd ?fds @ ?ints\<rparr> = received_handle xfd h"
    using h0 by (cases h; cases h0) (simp add: received_handle_def h1_def)
  ultimately show ?thesis unfolding R by auto
qed

section \<open>Buffers\<close>

definition sb_WriteToMessageParcel :: "'p parcel_ops \<Rightarrow> surface_buffer \<Rightarrow> 'p \<Rightarrow> gserror \<times> 'p" where
  "sb_WriteToMessageParcel P sb p =
     (case handle sb of
        None \<Rightarrow> (GSERROR_NOT_INIT, p)
      | Some h \<Rightarrow> (let (ret, p) = WriteBufferHandle P h p in if ret = False then (GSERROR_API_FAILED, p) else (GSERROR_OK, p)))"

definition sb_ReadFromMessageParcel :: "'p parcel_ops \<Rightarrow> bool \<Rightarrow> surface_buffer \<Rightarrow> 'p \<Rightarrow> gserror \<times> surface_buffer \<times> 'p" where
  "sb_ReadFromMessageParcel P malloc_ok sb p =
     (let sb = FreeBufferHandleLocked sb; ((h, _), p) = ReadBufferHandle P malloc_ok p; sb = sb\<lparr>handle := h\<rparr>
      in if h = None then (GSERROR_API_FAILED, sb, p) else (GSERROR_OK, sb, p))"

text \<open>A null \<open>buffer\<close> is \<open>None\<close>; \<open>bd\<close> numbers the extra data the new client buffer gets.\<close>

definition WriteSurfaceBufferImpl :: "'p parcel_ops \<Rightarrow> int \<Rightarrow> surface_buffer option \<Rightarrow> 'p \<Rightarrow> 'p" where
  "WriteSurfaceBufferImpl P sequence buffer p =
     (let p = WriteInt32 P sequence p; p = put P (P_Bool (buffer \<noteq> None)) p
      in case buffer of None \<Rightarrow> p | Some sb \<Rightarrow> snd (sb_WriteToMessageParcel P sb p))"

definition ReadSurfaceBufferImpl ::
    "'p parcel_ops \<Rightarrow> display_consts \<Rightarrow> bool \<Rightarrow> nat \<Rightarrow> surface_buffer option \<Rightarrow> 'p \<Rightarrow> int \<times> surface_buffer option \<times> 'p" where
  "ReadSurfaceBufferImpl P k malloc_ok bd buffer p =
     (let (sequence, p) = ReadInt32 P p; (present, p) = ReadBool P p
      in if present then
           (let (_, sb, p) = sb_ReadFromMessageParcel P malloc_ok (new_SurfaceBufferImpl_seq k sequence bd) p
            in (sequence, Some sb, p))
         else (sequence, buffer, p))"

definition buffer_items :: "(int \<Rightarrow> int) \<Rightarrow> int \<Rightarrow> surface_buffer option \<Rightarrow> item list" where
  "buffer_items xfd sequence buffer = P_Word32 (word_of_int sequence) # P_Bool (buffer \<noteq> None) #
     (case buffer of None \<Rightarrow> [] | Some sb \<Rightarrow> handle_items xfd (the (handle sb)))"

definition buffer_typed :: "surface_buffer option \<Rightarrow> bool" where
  "buffer_typed buffer \<longleftrightarrow> (\<forall>sb. buffer = Some sb \<longrightarrow> (\<exists>h. handle sb = Some h \<and> handle_typed h))"

definition received_buffer :: "display_consts \<Rightarrow> (int \<Rightarrow> int) \<Rightarrow> nat \<Rightarrow> int \<Rightarrow> surface_buffer \<Rightarrow> surface_buffer" where
  "received_buffer k xfd bd sequence sb = (new_SurfaceBufferImpl_seq k sequence bd)
     \<lparr>handle := map_option (received_handle xfd) (handle sb)\<rparr>"

lemma view_WriteSurfaceBufferImpl:
  assumes F: "parcel_fifo P view xfd" and "buffer_typed buffer"
  shows "view (WriteSurfaceBufferImpl P sequence buffer p) = view p @ buffer_items xfd sequence buffer"
proof -
  let ?p = "put P (P_Bool (buffer \<noteq> None)) (WriteInt32 P sequence p)"
  have v: "view ?p = view p @ [P_Word32 (word_of_int sequence), P_Bool (buffer \<noteq> None)]"
    by (simp add: WriteInt32_def fifo_put [OF F])
  show ?thesis
  proof (cases buffer)
    case None
    with v show ?thesis by (simp add: WriteSurfaceBufferImpl_def buffer_items_def)
  next
    case (Some sb)
    with assms(2) obtain h where h: "handle sb = Some h" "handle_typed h" by (auto simp: buffer_typed_def)
    from write_handle [OF F h(2)] obtain p' where "WriteBufferHandle P h ?p = (True, p')" "view p' = view ?p @ handle_items xfd h" by blast
    with Some h(1) v show ?thesis by (simp add: WriteSurfaceBufferImpl_def buffer_items_def sb_WriteToMessageParcel_def)
  qed
qed

lemma read_SurfaceBufferImpl:
  assumes F: "parcel_fifo P view xfd" and v: "view p = buffer_items xfd sequence buffer @ rest"
    and b: "buffer_typed buffer" and s: "int32_ok sequence"
  shows "\<exists>p'. ReadSurfaceBufferImpl P k True bd old p =
    (sequence, (case buffer of None \<Rightarrow> old | Some sb \<Rightarrow> Some (received_buffer k xfd bd sequence sb)), p') \<and> view p' = rest"
proof -
  let ?tail = "(case buffer of None \<Rightarrow> [] | Some sb \<Rightarrow> handle_items xfd (the (handle sb))) @ rest"
  have "view p = P_Word32 (word_of_int sequence) # P_Bool (buffer \<noteq> None) # ?tail" using v by (simp add: buffer_items_def)
  from read_Int32 [OF F this] s obtain p1 where 1: "ReadInt32 P p = (sequence, p1)" "view p1 = P_Bool (buffer \<noteq> None) # ?tail"
    by (auto simp: sint_int32)
  from read_Bool [OF F 1(2)] obtain p2 where 2: "ReadBool P p1 = (buffer \<noteq> None, p2)" "view p2 = ?tail" by blast
  show ?thesis
  proof (cases buffer)
    case None
    with 1(1) 2 show ?thesis by (simp add: ReadSurfaceBufferImpl_def)
  next
    case (Some sb)
    with b obtain h where h: "handle sb = Some h" "handle_typed h" by (auto simp: buffer_typed_def)
    from Some h(1) 2(2) have "view p2 = handle_items xfd h @ rest" by simp
    from read_handle [OF F this h(2)] obtain p3 where
      "ReadBufferHandle P True p2 = ((Some (received_handle xfd h), []), p3)" "view p3 = rest" by blast
    with Some h(1) 1(1) 2(1) show ?thesis
      by (simp add: ReadSurfaceBufferImpl_def sb_ReadFromMessageParcel_def received_buffer_def
          FreeBufferHandleLocked_def new_SurfaceBufferImpl_seq_def Let_def)
  qed
qed

end
