(* ===== verification/Sync_Fence.thy ===== *)
theory Sync_Fence
  imports Prelude
begin

text \<open>
  \<open>SyncFence\<close> (\<open>utils/sync_fence/src/sync_fence.cpp\<close>) and the timeline of fences
  (\<open>utils/sync_fence/src/sync_fence_timeline.cpp\<close>). A fence is its descriptor. The sync-file driver
  and its library \<open>libsync\<close> are outside the repository: \<open>fence_kernel\<close> is the record of their answers.
  A null dereference and the second locking of a non-recursive mutex are values of \<open>fence_fault\<close>.
\<close>

definition ERROR :: int where "ERROR = -1"
definition ACTIVE :: int where "ACTIVE = 0"
definition SIGNALED :: int where "SIGNALED = 1"

definition INVALID_FD :: int where "INVALID_FD = -1"
definition INVALID_TIMESTAMP :: int where "INVALID_TIMESTAMP = -1"
definition FENCE_PENDING_TIMESTAMP :: int where "FENCE_PENDING_TIMESTAMP = 9223372036854775807"

record sync_point_info =
  timestampNs :: "64 word"
  pstatus :: int

text \<open>
  \<open>fk_wait\<close> gives the result and \<open>errno\<close>; \<open>fk_count\<close> and \<open>fk_infos\<close> are the two calls of
  \<open>ioctl(SYNC_IOC_FILE_INFO)\<close>: the number of points, then the points.
\<close>

record fence_kernel =
  fk_wait :: "int \<Rightarrow> 32 word \<Rightarrow> int \<times> int"
  fk_merge :: "string \<Rightarrow> int \<Rightarrow> int \<Rightarrow> int"
  fk_count :: "int \<Rightarrow> int \<times> 32 word"
  fk_malloc :: "32 word \<Rightarrow> bool"
  fk_infos :: "int \<Rightarrow> 32 word \<Rightarrow> int \<times> sync_point_info list"

definition fence_Wait :: "fence_kernel \<Rightarrow> 32 word \<Rightarrow> int \<Rightarrow> int" where
  "fence_Wait k t fenceFd =
     (if fenceFd < 0 then 0
      else (let (err, errno) = fk_wait k fenceFd t in if err < 0 then - errno else 0))"

text \<open>\<open>None\<close> is the shared \<open>INVALID_FENCE\<close>; \<open>Some fd\<close> is a new fence.\<close>

definition MergeFence :: "fence_kernel \<Rightarrow> string \<Rightarrow> int \<Rightarrow> int \<Rightarrow> int option" where
  "MergeFence k nm fenceFd1 fenceFd2 =
     (let merge = (\<lambda>a b. let newFenceFd = fk_merge k nm a b in if newFenceFd = INVALID_FD then None else Some newFenceFd)
      in if fenceFd1 \<ge> 0 \<and> fenceFd2 \<ge> 0 then merge fenceFd1 fenceFd2
         else if fenceFd1 \<ge> 0 then merge fenceFd1 fenceFd1
         else if fenceFd2 \<ge> 0 then merge fenceFd2 fenceFd2
         else None)"

definition GetFenceInfo :: "fence_kernel \<Rightarrow> int \<Rightarrow> sync_point_info list" where
  "GetFenceInfo k fenceFd =
     (let (ret, num_fences) = fk_count k fenceFd
      in if ret < 0 then []
         else if num_fences = 0 then []
         else if \<not> fk_malloc k num_fences then []
         else (let (ret, infos) = fk_infos k fenceFd num_fences in if ret < 0 then [] else infos))"

fun signal_count :: "sync_point_info list \<Rightarrow> nat" where
  "signal_count [] = 0"
| "signal_count (i # vs) = (if pstatus i = SIGNALED then 1 else 0) + signal_count vs"

fun newest :: "sync_point_info list \<Rightarrow> 64 word \<Rightarrow> 64 word" where
  "newest [] t = t"
| "newest (i # vs) t = newest vs (if timestampNs i > t then timestampNs i else t)"

definition SyncFileReadTimestamp :: "fence_kernel \<Rightarrow> int \<Rightarrow> int" where
  "SyncFileReadTimestamp k fenceFd =
     (let ptInfos = GetFenceInfo k fenceFd
      in if ptInfos = [] then FENCE_PENDING_TIMESTAMP
         else if signal_count ptInfos = length ptInfos then sint (newest ptInfos 0)
         else FENCE_PENDING_TIMESTAMP)"

definition GetStatus :: "fence_kernel \<Rightarrow> int \<Rightarrow> int" where
  "GetStatus k fenceFd =
     (if fenceFd < 0 then ERROR
      else
        (let ptInfos = GetFenceInfo k fenceFd
         in if ptInfos = [] then ERROR
            else if signal_count ptInfos = length ptInfos then SIGNALED else ACTIVE))"

definition fence_IsValid :: "int \<Rightarrow> bool" where
  "fence_IsValid fenceFd \<longleftrightarrow> fenceFd \<noteq> -1"

section \<open>Signal times\<close>

datatype fence_fault = NullFence | RelockedMutex

text \<open>\<open>SyncFenceTime\<close>: \<open>tfence\<close> is \<open>None\<close> for a null \<open>fence_\<close>.\<close>

record fence_time =
  tfence :: "int option"
  signaledTimestamps :: int

definition first_timestamp :: "int option \<Rightarrow> int option \<Rightarrow> fence_fault + fence_time" where
  "first_timestamp asked stored =
     (case asked of None \<Rightarrow> Inl NullFence
      | Some fd \<Rightarrow> Inr \<lparr>tfence = stored,
          signaledTimestamps = (if fence_IsValid fd then FENCE_PENDING_TIMESTAMP else INVALID_TIMESTAMP)\<rparr>)"

definition new_SyncFenceTime :: "int option \<Rightarrow> fence_fault + fence_time" where
  "new_SyncFenceTime fence = first_timestamp fence fence"

text \<open>The second constructor asks its argument after moving from it; \<open>moved\<close> is what a move leaves.\<close>

definition new_SyncFenceTime_move :: "(int option \<Rightarrow> int option) \<Rightarrow> int option \<Rightarrow> fence_fault + fence_time" where
  "new_SyncFenceTime_move moved fence = first_timestamp (moved fence) fence"

definition ft_IsValid :: "fence_time \<Rightarrow> fence_fault + bool" where
  "ft_IsValid t = (case tfence t of None \<Rightarrow> Inl NullFence | Some fd \<Rightarrow> Inr (fence_IsValid fd))"

definition GetSignalTimestamp :: "fence_kernel \<Rightarrow> fence_time \<Rightarrow> fence_fault + int \<times> fence_time" where
  "GetSignalTimestamp k t =
     (let timestamp = signaledTimestamps t
      in if timestamp \<noteq> FENCE_PENDING_TIMESTAMP then Inr (timestamp, t)
         else case tfence t of
           None \<Rightarrow> Inr (signaledTimestamps t, t)
         | Some fence \<Rightarrow>
             (let timestamp = SyncFileReadTimestamp k fence
              in if timestamp \<noteq> FENCE_PENDING_TIMESTAMP
                 then Inl RelockedMutex \<comment> \<open>the inner \<open>lock_guard\<close> locks \<open>mutex_\<close>, which is already held\<close>
                 else Inr (timestamp, t)))"

definition GetCachedSignalTimestamp :: "fence_time \<Rightarrow> int" where
  "GetCachedSignalTimestamp t = signaledTimestamps t"

section \<open>The timeline\<close>

text \<open>
  The queue holds weak pointers: object numbers, alive when \<open>ftimes\<close> knows them. The kernel's answers
  are given per operation.
\<close>

definition MAX_COUNT :: nat where "MAX_COUNT = 128"

record timeline =
  tqueue :: "nat list"
  ftimes :: "(nat \<times> fence_time) list"

definition tl_Push :: "fence_kernel \<Rightarrow> nat \<Rightarrow> timeline \<Rightarrow> fence_fault + timeline" where
  "tl_Push k fence ln =
     (if length (tqueue ln) \<ge> MAX_COUNT then
        (let push = ln\<lparr>tqueue := tl (tqueue ln) @ [fence]\<rparr>
         in case map_of (ftimes ln) (hd (tqueue ln)) of
              None \<Rightarrow> Inr push
            | Some front \<Rightarrow> (case GetSignalTimestamp k front of Inl f \<Rightarrow> Inl f | Inr _ \<Rightarrow> Inr push))
      else Inr (ln\<lparr>tqueue := tqueue ln @ [fence]\<rparr>))"

fun update_loop :: "fence_kernel \<Rightarrow> (nat \<times> fence_time) list \<Rightarrow> nat list \<Rightarrow> fence_fault + nat list" where
  "update_loop k ts [] = Inr []"
| "update_loop k ts (f # fs) =
     (case map_of ts f of
        None \<Rightarrow> update_loop k ts fs
      | Some t \<Rightarrow>
          (case GetSignalTimestamp k t of
             Inl e \<Rightarrow> Inl e
           | Inr (timestamp, _) \<Rightarrow>
               if timestamp \<noteq> FENCE_PENDING_TIMESTAMP then update_loop k ts fs else Inr (f # fs)))"

definition UpdateFenceTimeline :: "fence_kernel \<Rightarrow> timeline \<Rightarrow> fence_fault + timeline" where
  "UpdateFenceTimeline k ln =
     (case update_loop k (ftimes ln) (tqueue ln) of Inl e \<Rightarrow> Inl e | Inr q \<Rightarrow> Inr (ln\<lparr>tqueue := q\<rparr>))"

fun push_all :: "(fence_kernel \<times> nat) list \<Rightarrow> timeline \<Rightarrow> fence_fault + timeline" where
  "push_all [] ln = Inr ln"
| "push_all ((k, f) # fs) ln = (case tl_Push k f ln of Inl e \<Rightarrow> Inl e | Inr ln \<Rightarrow> push_all fs ln)"

section \<open>Lemmas\<close>

lemma signal_count_le: "signal_count vs \<le> length vs"
  by (induction vs) auto

lemma signal_count_all: "signal_count vs = length vs \<longleftrightarrow> (\<forall>i \<in> set vs. pstatus i = SIGNALED)"
proof (induction vs)
  case Nil
  then show ?case by simp
next
  case (Cons i vs)
  then show ?case using signal_count_le [of vs] by auto
qed

lemma newest_bound: "t \<le> newest vs t \<and> (\<forall>i \<in> set vs. timestampNs i \<le> newest vs t) \<and>
   (newest vs t = t \<or> newest vs t \<in> timestampNs ` set vs)"
proof (induction vs arbitrary: t)
  case Nil
  then show ?case by simp
next
  case (Cons i vs)
  let ?t = "if timestampNs i > t then timestampNs i else t"
  from Cons.IH [of ?t] show ?case by (auto split: if_splits)
qed

lemma newest_Max:
  assumes "vs \<noteq> []"
  shows "newest vs 0 = Max (timestampNs ` set vs)"
proof -
  note b = newest_bound [of 0 vs]
  have "newest vs 0 \<in> timestampNs ` set vs"
  proof (cases "newest vs 0 = 0")
    case True
    from assms obtain i where i: "i \<in> set vs" by (cases vs) auto
    with b True have "timestampNs i \<le> 0" by auto
    then have "timestampNs i = 0" by (simp add: word_le_0_iff)
    with True i show ?thesis by force
  next
    case False
    with b show ?thesis by blast
  qed
  with b show ?thesis by (intro Max_eqI [symmetric]) auto
qed

lemma GetSignal_pending:
  assumes "signaledTimestamps t = FENCE_PENDING_TIMESTAMP" and "GetSignalTimestamp k t = Inr (ts, t')"
  shows "ts = FENCE_PENDING_TIMESTAMP \<and> t' = t"
  using assms by (auto simp: GetSignalTimestamp_def Let_def split: option.splits if_splits)

lemma tl_Push_queue:
  assumes "tl_Push k f ln = Inr ln'" and "length (tqueue ln) \<le> MAX_COUNT"
  shows "tqueue ln' = rev (List.take MAX_COUNT (f # rev (tqueue ln))) \<and> ftimes ln' = ftimes ln"
proof (cases "length (tqueue ln) \<ge> MAX_COUNT")
  case True
  then obtain x q where q: "tqueue ln = x # q" by (cases "tqueue ln") (auto simp: MAX_COUNT_def)
  from True assms(2) q have "List.take MAX_COUNT (f # rev (tqueue ln)) = f # rev q"
    by (simp add: MAX_COUNT_def)
  with True assms(1) q show ?thesis
    by (auto simp: tl_Push_def Let_def split: option.splits sum.splits)
next
  case False
  with assms(1) show ?thesis by (auto simp: tl_Push_def)
qed

lemma push_all_queue:
  "push_all fs ln = Inr ln' \<Longrightarrow> length (tqueue ln) \<le> MAX_COUNT \<Longrightarrow>
     tqueue ln' = rev (List.take MAX_COUNT (rev (tqueue ln @ map snd fs)))"
proof (induction fs arbitrary: ln rule: list.induct)
  case Nil
  then show ?case by simp
next
  case (Cons p fs)
  obtain k f where p: "p = (k, f)" by (cases p)
  with Cons.prems(1) obtain ln1 where 1: "tl_Push k f ln = Inr ln1" "push_all fs ln1 = Inr ln'"
    by (auto split: sum.splits)
  from tl_Push_queue [OF 1(1) Cons.prems(2)]
  have q: "tqueue ln1 = rev (List.take MAX_COUNT (f # rev (tqueue ln)))" by blast
  then have "length (tqueue ln1) \<le> MAX_COUNT" by simp
  from Cons.IH [OF 1(2) this] q
  have "tqueue ln' = rev (List.take MAX_COUNT (rev (map snd fs) @ List.take MAX_COUNT (f # rev (tqueue ln))))" by simp
  also have "List.take MAX_COUNT (rev (map snd fs) @ List.take MAX_COUNT (f # rev (tqueue ln))) =
     List.take MAX_COUNT (rev (map snd fs) @ f # rev (tqueue ln))"
    by (simp add: min_def)
  finally show ?case by (simp add: p)
qed

lemma push_all_returns:
  "\<forall>k \<in> fst ` set fs. \<forall>t \<in> snd ` set (ftimes ln). \<exists>r. GetSignalTimestamp k t = Inr r \<Longrightarrow>
   length (tqueue ln) \<le> MAX_COUNT \<Longrightarrow> \<exists>ln'. push_all fs ln = Inr ln'"
proof (induction fs arbitrary: ln rule: list.induct)
  case Nil
  then show ?case by simp
next
  case (Cons p fs)
  obtain k f where p: "p = (k, f)" by (cases p)
  have "GetSignalTimestamp k t \<noteq> Inl e" if "map_of (ftimes ln) j = Some t" for j t e
    using Cons.prems(1) p map_of_SomeD [OF that] by fastforce
  then have "tl_Push k f ln \<noteq> Inl e" for e
    by (auto simp: tl_Push_def Let_def split: option.splits sum.splits)
  then obtain ln1 where 1: "tl_Push k f ln = Inr ln1" by (cases "tl_Push k f ln") auto
  from tl_Push_queue [OF 1 Cons.prems(2)] have "ftimes ln1 = ftimes ln" "length (tqueue ln1) \<le> MAX_COUNT" by simp_all
  with Cons.IH [of ln1] Cons.prems(1) p 1 show ?case by auto
qed

text \<open>A live time that is pending and whose fence is known.\<close>

definition fresh_time :: "fence_time \<Rightarrow> bool" where
  "fresh_time t \<longleftrightarrow> signaledTimestamps t = FENCE_PENDING_TIMESTAMP \<and> tfence t \<noteq> None"

lemma GetSignal_fresh:
  "fresh_time t \<Longrightarrow> GetSignalTimestamp k t =
     (if SyncFileReadTimestamp k (the (tfence t)) = FENCE_PENDING_TIMESTAMP
      then Inr (FENCE_PENDING_TIMESTAMP, t) else Inl RelockedMutex)"
  by (auto simp: fresh_time_def GetSignalTimestamp_def)

lemma update_loop_result:
  assumes "\<forall>t \<in> set ts. fresh_time (snd t)"
  shows "update_loop k ts q =
    (case dropWhile (\<lambda>f. map_of ts f = None) q of
       [] \<Rightarrow> Inr []
     | f # fs \<Rightarrow> if SyncFileReadTimestamp k (the (tfence (the (map_of ts f)))) = FENCE_PENDING_TIMESTAMP
                then Inr (f # fs) else Inl RelockedMutex)"
proof (induction q)
  case Nil
  then show ?case by simp
next
  case (Cons f q)
  show ?case
  proof (cases "map_of ts f")
    case None
    with Cons show ?thesis by simp
  next
    case (Some t)
    then have "(f, t) \<in> set ts" by (rule map_of_SomeD)
    with assms have "fresh_time t" by auto
    with Some show ?thesis by (simp add: GetSignal_fresh)
  qed
qed

section \<open>Properties\<close>

definition signalled :: "fence_kernel \<Rightarrow> int \<Rightarrow> bool" where
  "signalled k fd \<longleftrightarrow> GetFenceInfo k fd \<noteq> [] \<and> (\<forall>i \<in> set (GetFenceInfo k fd). pstatus i = SIGNALED)"

definition fence_points :: "sync_point_info list \<Rightarrow> fence_kernel" where
  "fence_points vs = \<lparr>fk_wait = (\<lambda>_ _. (0, 0)), fk_merge = (\<lambda>_ a _. a), fk_count = (\<lambda>_. (0, word_of_nat (length vs))),
     fk_malloc = (\<lambda>_. True), fk_infos = (\<lambda>_ _. (0, vs))\<rparr>"

definition two_points :: fence_kernel where
  "two_points = fence_points [\<lparr>timestampNs = 30, pstatus = SIGNALED\<rparr>, \<lparr>timestampNs = 50, pstatus = SIGNALED\<rparr>]"

definition failed_point :: fence_kernel where
  "failed_point = fence_points [\<lparr>timestampNs = 30, pstatus = SIGNALED\<rparr>, \<lparr>timestampNs = 0, pstatus = ERROR\<rparr>]"

lemma sint64_small: "uint w < 2 ^ 63 - 1 \<Longrightarrow> sint (w :: 64 word) = uint w"
  by (simp add: sint_uint signed_take_bit_int_eq_self order_trans [OF _ unsigned_greater_eq])

lemma read_timestamp_signalled:
  assumes "\<forall>i \<in> set (GetFenceInfo k fd). uint (timestampNs i) < 2 ^ 63 - 1" and "signalled k fd"
  shows "SyncFileReadTimestamp k fd = uint (Max (timestampNs ` set (GetFenceInfo k fd))) \<and>
     SyncFileReadTimestamp k fd \<noteq> FENCE_PENDING_TIMESTAMP"
proof -
  let ?M = "Max (timestampNs ` set (GetFenceInfo k fd))"
  from assms(2) have ne: "GetFenceInfo k fd \<noteq> []" and c: "signal_count (GetFenceInfo k fd) = length (GetFenceInfo k fd)"
    by (simp_all add: signalled_def signal_count_all)
  from ne have "?M \<in> timestampNs ` set (GetFenceInfo k fd)" by (intro Max_in) auto
  with assms(1) have u: "uint ?M < 2 ^ 63 - 1" by auto
  from sint64_small [OF u] u ne c show ?thesis
    by (simp add: SyncFileReadTimestamp_def newest_Max FENCE_PENDING_TIMESTAMP_def Let_def)
qed

lemma read_timestamp_pending:
  assumes "\<forall>i \<in> set (GetFenceInfo k fd). uint (timestampNs i) < 2 ^ 63 - 1"
  shows "SyncFileReadTimestamp k fd = FENCE_PENDING_TIMESTAMP \<longleftrightarrow> \<not> signalled k fd"
proof (cases "signalled k fd")
  case True
  with read_timestamp_signalled [OF assms] show ?thesis by blast
next
  case False
  then show ?thesis by (auto simp: SyncFileReadTimestamp_def signalled_def signal_count_all Let_def)
qed

text \<open>
  The status and the signal time of a fence agree: when every point has signalled the time is the
  newest time of a point, and otherwise the time is the pending one. A point that failed counts as not
  signalled, so such a fence is ACTIVE and pending for ever.
\<close>

theorem fence_status_and_time:
  assumes "0 \<le> fd" and "\<forall>i \<in> set (GetFenceInfo k fd). uint (timestampNs i) < 2 ^ 63 - 1"
  shows "GetStatus k fd = SIGNALED \<and> signalled k fd \<and>
           SyncFileReadTimestamp k fd = uint (Max (timestampNs ` set (GetFenceInfo k fd))) \<and>
           SyncFileReadTimestamp k fd \<noteq> FENCE_PENDING_TIMESTAMP \<or>
         GetStatus k fd = (if GetFenceInfo k fd = [] then ERROR else ACTIVE) \<and> \<not> signalled k fd \<and>
           SyncFileReadTimestamp k fd = FENCE_PENDING_TIMESTAMP"
  using assms(1) read_timestamp_signalled [OF assms(2)] read_timestamp_pending [OF assms(2)]
  by (auto simp: GetStatus_def signalled_def signal_count_all Let_def)

lemma fence_status_and_time_witness:
  "SyncFileReadTimestamp two_points 7 = 50 \<and> GetStatus failed_point 7 = ACTIVE \<and>
   SyncFileReadTimestamp failed_point 7 = FENCE_PENDING_TIMESTAMP"
proof -
  have i: "GetFenceInfo two_points 7 = [\<lparr>timestampNs = 30, pstatus = SIGNALED\<rparr>, \<lparr>timestampNs = 50, pstatus = SIGNALED\<rparr>]"
    "GetFenceInfo failed_point 7 = [\<lparr>timestampNs = 30, pstatus = SIGNALED\<rparr>, \<lparr>timestampNs = 0, pstatus = ERROR\<rparr>]"
    by code_simp+
  have s: "signalled two_points 7" "\<not> signalled failed_point 7" by (simp_all add: signalled_def i SIGNALED_def ERROR_def)
  from fence_status_and_time [of 7 two_points] s(1) i(1) have "SyncFileReadTimestamp two_points 7 = 50" by simp
  moreover from fence_status_and_time [of 7 failed_point] s(2) i(2)
  have "GetStatus failed_point 7 = ACTIVE \<and> SyncFileReadTimestamp failed_point 7 = FENCE_PENDING_TIMESTAMP" by simp
  ultimately show ?thesis by blast
qed

text \<open>
  A timeline of fences that were made for valid descriptors drops its expired entries up to the
  first live fence. When that one has signalled, reading its time locks a mutex the thread already
  holds; when it has not, the queue from it on is kept.
\<close>

theorem update_timeline_outcome:
  assumes "\<forall>(f, t) \<in> set (ftimes ln). \<exists>fd. 0 \<le> fd \<and> new_SyncFenceTime (Some fd) = Inr t"
    and "\<forall>(f, t) \<in> set (ftimes ln). \<forall>i \<in> set (GetFenceInfo k (the (tfence t))). uint (timestampNs i) < 2 ^ 63 - 1"
  shows "UpdateFenceTimeline k ln =
    (case dropWhile (\<lambda>f. map_of (ftimes ln) f = None) (tqueue ln) of
       [] \<Rightarrow> Inr (ln\<lparr>tqueue := []\<rparr>)
     | f # fs \<Rightarrow> if signalled k (the (tfence (the (map_of (ftimes ln) f)))) then Inl RelockedMutex
                else Inr (ln\<lparr>tqueue := f # fs\<rparr>))"
proof -
  have fresh: "\<forall>t \<in> set (ftimes ln). fresh_time (snd t)"
    using assms(1) by (fastforce simp: fresh_time_def new_SyncFenceTime_def first_timestamp_def fence_IsValid_def)
  show ?thesis
  proof (cases "dropWhile (\<lambda>f. map_of (ftimes ln) f = None) (tqueue ln)")
    case Nil
    show ?thesis unfolding UpdateFenceTimeline_def update_loop_result [OF fresh] Nil by simp
  next
    case (Cons f fs)
    have "map_of (ftimes ln) f \<noteq> None"
      using hd_dropWhile [of "\<lambda>f. map_of (ftimes ln) f = None" "tqueue ln"] by (simp add: Cons)
    then obtain t where t: "map_of (ftimes ln) f = Some t" by blast
    then have "(f, t) \<in> set (ftimes ln)" by (rule map_of_SomeD)
    with assms obtain fd where fd: "0 \<le> fd" "tfence t = Some fd"
      "\<forall>i \<in> set (GetFenceInfo k fd). uint (timestampNs i) < 2 ^ 63 - 1"
      by (fastforce simp: new_SyncFenceTime_def first_timestamp_def)
    have "SyncFileReadTimestamp k fd = FENCE_PENDING_TIMESTAMP \<longleftrightarrow> \<not> signalled k fd"
      using read_timestamp_pending [OF fd(3)] .
    with t fd(2) show ?thesis
      unfolding UpdateFenceTimeline_def update_loop_result [OF fresh] Cons by simp
  qed
qed

definition demo_fences :: timeline where
  "demo_fences = \<lparr>tqueue = [4, 5, 6], ftimes = [(5, \<lparr>tfence = Some 7, signaledTimestamps = FENCE_PENDING_TIMESTAMP\<rparr>)]\<rparr>"

lemma update_timeline_outcome_witness:
  "UpdateFenceTimeline two_points demo_fences = Inl RelockedMutex \<and>
   UpdateFenceTimeline failed_point demo_fences = Inr (demo_fences\<lparr>tqueue := [5, 6]\<rparr>)"
proof -
  have i: "GetFenceInfo two_points 7 = [\<lparr>timestampNs = 30, pstatus = SIGNALED\<rparr>, \<lparr>timestampNs = 50, pstatus = SIGNALED\<rparr>]"
    "GetFenceInfo failed_point 7 = [\<lparr>timestampNs = 30, pstatus = SIGNALED\<rparr>, \<lparr>timestampNs = 0, pstatus = ERROR\<rparr>]"
    by code_simp+
  have s: "signalled two_points 7" "\<not> signalled failed_point 7" by (simp_all add: signalled_def i SIGNALED_def ERROR_def)
  have n: "new_SyncFenceTime (Some 7) = Inr \<lparr>tfence = Some 7, signaledTimestamps = FENCE_PENDING_TIMESTAMP\<rparr>" by code_simp
  have d: "\<forall>(f, t) \<in> set (ftimes demo_fences). \<exists>fd. 0 \<le> fd \<and> new_SyncFenceTime (Some fd) = Inr t"
    using n by (auto simp: demo_fences_def intro!: exI [of _ 7])
  from update_timeline_outcome [OF d, of two_points] update_timeline_outcome [OF d, of failed_point] s i
  show ?thesis by (simp add: demo_fences_def)
qed

text \<open>
  A timeline keeps the newest 128 of the fences pushed to it, in the order of pushing, whenever
  the pushes return; and they do as long as no fence that falls out at the front has signalled.
\<close>

theorem timeline_keeps_newest:
  assumes "length (tqueue ln) \<le> MAX_COUNT"
  shows "(\<forall>ln'. push_all fs ln = Inr ln' \<longrightarrow>
      tqueue ln' = drop (length (tqueue ln) + length fs - MAX_COUNT) (tqueue ln @ map snd fs)) \<and>
    ((\<forall>k \<in> fst ` set fs. \<forall>t \<in> snd ` set (ftimes ln). \<exists>r. GetSignalTimestamp k t = Inr r) \<longrightarrow>
      (\<exists>ln'. push_all fs ln = Inr ln'))"
proof (intro conjI allI impI)
  fix ln' assume "push_all fs ln = Inr ln'"
  from push_all_queue [OF this assms]
  show "tqueue ln' = drop (length (tqueue ln) + length fs - MAX_COUNT) (tqueue ln @ map snd fs)"
    unfolding take_rev by simp
qed (rule push_all_returns [OF _ assms])

definition full_timeline :: timeline where
  "full_timeline = \<lparr>tqueue = [0..<128], ftimes = [(5, \<lparr>tfence = Some 7, signaledTimestamps = FENCE_PENDING_TIMESTAMP\<rparr>)]\<rparr>"

lemma timeline_keeps_newest_witness:
  "\<exists>ln'. push_all [(failed_point, 200), (failed_point, 201)] full_timeline = Inr ln' \<and> tqueue ln' = [2..<128] @ [200, 201]"
proof -
  have l: "length (tqueue full_timeline) \<le> MAX_COUNT" by (simp add: full_timeline_def MAX_COUNT_def)
  have "GetSignalTimestamp failed_point \<lparr>tfence = Some 7, signaledTimestamps = FENCE_PENDING_TIMESTAMP\<rparr> =
     Inr (FENCE_PENDING_TIMESTAMP, \<lparr>tfence = Some 7, signaledTimestamps = FENCE_PENDING_TIMESTAMP\<rparr>)"
    by code_simp
  then have "\<forall>k \<in> fst ` set [(failed_point, 200::nat), (failed_point, 201)]. \<forall>t \<in> snd ` set (ftimes full_timeline).
     \<exists>r. GetSignalTimestamp k t = Inr r"
    by (simp add: full_timeline_def)
  with timeline_keeps_newest [OF l, of "[(failed_point, 200), (failed_point, 201)]"]
  obtain ln' where "push_all [(failed_point, 200), (failed_point, 201)] full_timeline = Inr ln'"
    "tqueue ln' = drop 2 ([0..<128] @ [200, 201])"
    by (auto simp: full_timeline_def MAX_COUNT_def)
  moreover have "drop 2 ([0..<128] @ [200, 201]) = [2..<128] @ [200, 201 :: nat]"
    by (simp add: drop_upt numeral_2_eq_2 del: upt_rec_numeral)
  ultimately show ?thesis by metis
qed

end
