(* ===== verification/Buffer_Queue_Producer.thy ===== *)
theory Buffer_Queue_Producer
  imports Parcel_Codec Sync_Fence
begin

text \<open>
  \<open>BufferQueueProducer\<close> (\<open>frameworks/surface/src/buffer_queue_producer.cpp\<close>): the object a producer
  calls, in its own process or through a remote stub. The first part is the methods of the interface
  over the record \<open>producer\<close>, the second the stub: one function per \<open>...Remote\<close> method and
  \<open>OnRemoteRequest\<close>, which dispatches on the code of the message.

  The two static maps of \<open>RequestBuffer\<close> are the record \<open>request_tables\<close>, shared by the producers of
  the process. A weak pointer is the object's number; \<open>promote\<close>, of the reference counting library, is a
  parameter that also sees the queue, which holds the objects of its cache alive.
\<close>

record producer =
  bufferQueue :: "buffer_queue option"
  connectedPid :: int

record request_tables =
  pcache :: "(int, buffer_ref) omap"
  sendeds :: "(int, int set) omap"

definition new_BufferQueueProducer :: "buffer_queue option \<Rightarrow> producer" where
  "new_BufferQueueProducer bq = \<lparr>bufferQueue = bq, connectedPid = 0\<rparr>"

definition CheckConnectLocked :: "int \<Rightarrow> producer \<Rightarrow> gserror" where
  "CheckConnectLocked pid pr =
     (if connectedPid pr = 0 then GSERROR_OK
      else if connectedPid pr \<noteq> pid then GSERROR_INVALID_OPERATING
      else GSERROR_OK)"

section \<open>The interface\<close>

text \<open>Methods that pass on to the queue: \<open>on_queue\<close> is the test for a null \<open>bufferQueue_\<close>.\<close>

definition on_queue :: "(buffer_queue \<Rightarrow> bq_fault + gserror \<times> buffer_queue) \<Rightarrow> producer \<Rightarrow> bq_fault + gserror \<times> producer" where
  "on_queue f pr =
     (case bufferQueue pr of
        None \<Rightarrow> Inr (GSERROR_INVALID_ARGUMENTS, pr)
      | Some q \<Rightarrow> (case f q of Inl e \<Rightarrow> Inl e | Inr (ret, q) \<Rightarrow> Inr (ret, pr\<lparr>bufferQueue := Some q\<rparr>)))"

definition p_CancelBuffer :: "bq_env \<Rightarrow> int \<Rightarrow> extra_ref \<Rightarrow> producer \<Rightarrow> bq_fault + gserror \<times> producer" where
  "p_CancelBuffer env sequence bd = on_queue (bq_CancelBuffer env sequence bd)"

definition p_FlushBuffer ::
    "bq_env \<Rightarrow> int \<Rightarrow> extra_ref \<Rightarrow> fence_ref \<Rightarrow> buffer_flush_config \<Rightarrow> producer \<Rightarrow> bq_fault + gserror \<times> producer" where
  "p_FlushBuffer env sequence bd fence config = on_queue (bq_FlushBuffer env sequence bd fence config)"

definition p_AttachBuffer :: "bq_env \<Rightarrow> buffer_ref \<Rightarrow> producer \<Rightarrow> bq_fault + gserror \<times> producer" where
  "p_AttachBuffer env buffer = on_queue (bq_AttachBuffer env buffer)"

definition p_DetachBuffer :: "buffer_ref \<Rightarrow> producer \<Rightarrow> bq_fault + gserror \<times> producer" where
  "p_DetachBuffer buffer = on_queue (\<lambda>q. Inr (bq_DetachBuffer buffer q))"

definition p_GetQueueSize :: "producer \<Rightarrow> 32 word" where
  "p_GetQueueSize pr = (case bufferQueue pr of None \<Rightarrow> 0 | Some q \<Rightarrow> GetQueueSize q)"

definition p_SetQueueSize :: "32 word \<Rightarrow> producer \<Rightarrow> bq_fault + gserror \<times> producer" where
  "p_SetQueueSize n = on_queue (\<lambda>q. Inr (bq_SetQueueSize n q))"

definition p_GetName :: "producer \<Rightarrow> gserror \<times> string option" where
  "p_GetName pr = (case bufferQueue pr of None \<Rightarrow> (GSERROR_INVALID_ARGUMENTS, None)
     | Some q \<Rightarrow> (let (ret, nm) = bq_GetName q in (ret, Some nm)))"

definition p_GetDefaultWidth :: "producer \<Rightarrow> int" where
  "p_GetDefaultWidth pr = (case bufferQueue pr of None \<Rightarrow> 0 | Some q \<Rightarrow> defaultWidth q)"
definition p_GetDefaultHeight :: "producer \<Rightarrow> int" where
  "p_GetDefaultHeight pr = (case bufferQueue pr of None \<Rightarrow> 0 | Some q \<Rightarrow> defaultHeight q)"
definition p_GetDefaultUsage :: "producer \<Rightarrow> 32 word" where
  "p_GetDefaultUsage pr = (case bufferQueue pr of None \<Rightarrow> 0 | Some q \<Rightarrow> defaultUsage q)"
definition p_GetUniqueId :: "producer \<Rightarrow> 64 word" where
  "p_GetUniqueId pr = (case bufferQueue pr of None \<Rightarrow> 0 | Some q \<Rightarrow> uniqueId q)"

definition p_CleanCache :: "int \<Rightarrow> producer \<Rightarrow> bq_fault + gserror \<times> producer" where
  "p_CleanCache pid pr =
     (if bufferQueue pr = None then Inr (GSERROR_INVALID_ARGUMENTS, pr)
      else
        (let ret = CheckConnectLocked pid pr
         in if gs_ne ret GSERROR_OK then Inr (ret, pr)
            else on_queue (\<lambda>q. Inr (bq_CleanCache q)) pr))"

definition p_RegisterReleaseListener :: "nat option \<Rightarrow> producer \<Rightarrow> bq_fault + gserror \<times> producer" where
  "p_RegisterReleaseListener func = on_queue (\<lambda>q. Inr (bq_RegisterReleaseListener func q))"

definition p_SetTransform :: "int \<Rightarrow> producer \<Rightarrow> bq_fault + gserror \<times> producer" where
  "p_SetTransform t = on_queue (\<lambda>q. Inr (bq_SetTransform t q))"

definition p_IsSupportedAlloc :: "display_consts \<Rightarrow> verify_alloc_info list \<Rightarrow> producer \<Rightarrow> gserror \<times> bool list" where
  "p_IsSupportedAlloc k infos pr =
     (case bufferQueue pr of None \<Rightarrow> (GSERROR_INVALID_ARGUMENTS, []) | Some _ \<Rightarrow> IsSupportedAlloc k infos)"

text \<open>The caller's name and id stay as they are without a queue.\<close>

definition p_GetNameAndUniqueId :: "producer \<Rightarrow> gserror \<times> string option \<times> 64 word option" where
  "p_GetNameAndUniqueId pr =
     (case bufferQueue pr of None \<Rightarrow> (GSERROR_INVALID_ARGUMENTS, None, None)
      | Some _ \<Rightarrow> (let uid = p_GetUniqueId pr; (ret, nm) = p_GetName pr in (ret, nm, Some uid)))"

definition p_Disconnect :: "int \<Rightarrow> producer \<Rightarrow> bq_fault + gserror \<times> producer" where
  "p_Disconnect pid pr =
     (if bufferQueue pr = None then Inr (GSERROR_INVALID_ARGUMENTS, pr)
      else
        (let ret = CheckConnectLocked pid pr
         in if gs_ne ret GSERROR_OK then Inr (ret, pr)
            else on_queue (\<lambda>q. Inr (bq_CleanCache q)) (pr\<lparr>connectedPid := 0\<rparr>)))"

section \<open>Requesting\<close>

definition sended_of :: "int \<Rightarrow> request_tables \<Rightarrow> int set" where
  "sended_of pid tb = (case map_of (sendeds tb) pid of None \<Rightarrow> {} | Some s \<Rightarrow> s)"

definition upd_sended :: "int \<Rightarrow> (int set \<Rightarrow> int set) \<Rightarrow> request_tables \<Rightarrow> request_tables" where
  "upd_sended pid f tb = tb\<lparr>sendeds := om_put pid (f (sended_of pid tb)) (sendeds tb)\<rparr>"

text \<open>\<open>cache[sequence].promote()\<close>: a missing entry is inserted as a null pointer.\<close>

definition promote_cached :: "(nat \<Rightarrow> buffer_ref) \<Rightarrow> int \<Rightarrow> request_tables \<Rightarrow> buffer_ref \<times> request_tables" where
  "promote_cached promote sequence tb =
     (case map_of (pcache tb) sequence of
        None \<Rightarrow> (None, tb\<lparr>pcache := om_put sequence None (pcache tb)\<rparr>)
      | Some None \<Rightarrow> (None, tb)
      | Some (Some r) \<Rightarrow> (promote r, tb))"

text \<open>The second locked section: which of the callers are given the buffer itself.\<close>

definition request_lookup ::
    "(nat \<Rightarrow> buffer_ref) \<Rightarrow> int \<Rightarrow> int \<Rightarrow> request_retval \<Rightarrow> request_tables \<Rightarrow> request_retval \<times> request_tables" where
  "request_lookup promote self pid retval tb =
     (let tb = upd_sended pid id tb; sequence = rsequence retval
      in if rbuffer retval \<noteq> None then
           (retval, upd_sended pid (insert sequence) (tb\<lparr>pcache := om_put sequence (rbuffer retval) (pcache tb)\<rparr>))
         else if pid = self then
           (let (buffer, tb) = promote_cached promote sequence tb in (retval\<lparr>rbuffer := buffer\<rparr>, tb))
         else if sequence \<notin> sended_of pid tb then
           (let (buffer, tb) = promote_cached promote sequence tb
            in (retval\<lparr>rbuffer := buffer\<rparr>, upd_sended pid (insert sequence) tb))
         else (retval, tb))"

fun forget_deleted :: "int \<Rightarrow> int list \<Rightarrow> request_tables \<Rightarrow> request_tables" where
  "forget_deleted pid [] tb = tb"
| "forget_deleted pid (b # bs) tb =
     forget_deleted pid bs (upd_sended pid (\<lambda>s. s - {b}) (tb\<lparr>pcache := om_del b (pcache tb)\<rparr>))"

definition p_RequestBuffer ::
    "bq_env \<Rightarrow> (buffer_queue \<Rightarrow> nat \<Rightarrow> buffer_ref) \<Rightarrow> (buffer_queue \<Rightarrow> buffer_queue) \<Rightarrow> int \<Rightarrow> int \<Rightarrow>
     buffer_request_config \<Rightarrow> request_tables \<Rightarrow> producer \<Rightarrow>
     bq_fault + gserror \<times> extra_ref \<times> request_retval \<times> request_tables \<times> producer" where
  "p_RequestBuffer env promote wait self pid config tb pr =
     (let no_retval = \<lparr>rsequence = 0, rbuffer = None, rfence = None, rdeletingBuffers = []\<rparr>
      in case bufferQueue pr of
        None \<Rightarrow> Inr (GSERROR_INVALID_ARGUMENTS, None, no_retval, tb, pr)
      | Some q \<Rightarrow>
          (if connectedPid pr \<noteq> 0 \<and> connectedPid pr \<noteq> pid then Inr (GSERROR_INVALID_OPERATING, None, no_retval, tb, pr)
           else
             (let pr = pr\<lparr>connectedPid := pid\<rparr>
              in case bq_RequestBuffer env wait config q of
                Inl e \<Rightarrow> Inl e
              | Inr (sret, bd, retval, q) \<Rightarrow>
                  (let pr = pr\<lparr>bufferQueue := Some q\<rparr>;
                       (retval, tb) = (if gs_eq sret GSERROR_OK then request_lookup (promote q) self pid retval tb
                                       else (retval, upd_sended pid id tb))
                   in Inr (sret, bd, retval, forget_deleted pid (rdeletingBuffers retval) tb, pr)))))"

section \<open>The remote stub\<close>

text \<open>
  The process of the stub: the producer, the static tables, the descriptor of each fence object (number
  0 is \<open>SyncFence::INVALID_FENCE\<close>) and the contents of each extra data object. \<open>sv_bd\<close> numbers the
  \<open>BufferExtraDataImpl\<close> a remote method makes for its arguments.
\<close>

record server =
  sv_prod :: producer
  sv_tables :: request_tables
  fences :: "nat \<Rightarrow> int"
  extras :: "nat \<Rightarrow> extra_map"

record 'p server_env =
  se_bq :: bq_env
  se_parcel :: "'p parcel_ops"
  se_promote :: "buffer_queue \<Rightarrow> nat \<Rightarrow> buffer_ref"
  se_wait :: "buffer_queue \<Rightarrow> buffer_queue"
  se_self :: int
  se_bad_fd :: "int \<Rightarrow> bool"
  se_token :: string
  ERR_INVALID_STATE :: int

type_synonym 'p remote_result = "bq_fault + int \<times> 'p \<times> server"

definition reply_ret :: "'p server_env \<Rightarrow> 'p \<Rightarrow> server \<Rightarrow> bq_fault + gserror \<times> producer \<Rightarrow> 'p remote_result" where
  "reply_ret S reply sv r =
     (case r of Inl e \<Rightarrow> Inl e
      | Inr (sret, pr) \<Rightarrow> Inr (0, WriteInt32 (se_parcel S) sret reply, sv\<lparr>sv_prod := pr\<rparr>))"

definition RequestBufferRemote :: "'p server_env \<Rightarrow> int \<Rightarrow> 'p \<Rightarrow> 'p \<Rightarrow> server \<Rightarrow> 'p remote_result" where
  "RequestBufferRemote S pid arguments reply sv =
     (let P = se_parcel S; (config, _) = ReadRequestConfig P arguments
      in case p_RequestBuffer (se_bq S) (se_promote S) (se_wait S) (se_self S) pid config (sv_tables sv) (sv_prod sv) of
           Inl e \<Rightarrow> Inl e
         | Inr (sret, bd, retval, tb, pr) \<Rightarrow>
             (let sv = sv\<lparr>sv_prod := pr, sv_tables := tb\<rparr>; reply = WriteInt32 P sret reply
              in if gs_eq sret GSERROR_OK then
                   (case bufferQueue pr of None \<Rightarrow> Inl NullDeref
                    | Some q \<Rightarrow>
                       (let reply = WriteSurfaceBufferImpl P (rsequence retval) (deref q (rbuffer retval)) reply
                        in case (bd, rfence retval) of
                             (Some b, Some f) \<Rightarrow>
                               (let (_, reply) = WriteToParcel P (extras sv b) reply;
                                    reply = fence_WriteToMessageParcel P (se_bad_fd S) (fences sv f) reply
                                in Inr (0, put P (P_Int32Vector (rdeletingBuffers retval)) reply, sv))
                           | _ \<Rightarrow> Inl NullDeref))
                 else Inr (0, reply, sv)))"

definition CancelBufferRemote :: "'p server_env \<Rightarrow> nat \<Rightarrow> 'p \<Rightarrow> 'p \<Rightarrow> server \<Rightarrow> 'p remote_result" where
  "CancelBufferRemote S bd arguments reply sv =
     (let P = se_parcel S; (sequence, arguments) = ReadInt32 P arguments;
          (_, datas, _) = ReadFromParcel P arguments [];
          sv = sv\<lparr>extras := (extras sv)(bd := datas)\<rparr>
      in reply_ret S reply sv (p_CancelBuffer (se_bq S) sequence (Some bd) (sv_prod sv)))"

text \<open>\<open>fence\<close> is a second pointer to the object \<open>INVALID_FENCE\<close>, into which the message is read.\<close>

definition FlushBufferRemote :: "'p server_env \<Rightarrow> nat \<Rightarrow> 'p \<Rightarrow> 'p \<Rightarrow> server \<Rightarrow> 'p remote_result" where
  "FlushBufferRemote S bd arguments reply sv =
     (let P = se_parcel S; fence = INVALID_FENCE; (sequence, arguments) = ReadInt32 P arguments;
          (_, datas, arguments) = ReadFromParcel P arguments [];
          (fd, arguments) = fence_ReadFromMessageParcel P (fences sv (the fence)) arguments;
          (config, _) = ReadFlushConfig P arguments;
          sv = sv\<lparr>extras := (extras sv)(bd := datas), fences := (fences sv)(the fence := fd)\<rparr>
      in reply_ret S reply sv (p_FlushBuffer (se_bq S) sequence (Some bd) fence config (sv_prod sv)))"

definition AttachBufferRemote :: "'p \<Rightarrow> server \<Rightarrow> 'p remote_result" where
  "AttachBufferRemote reply sv = Inr (0, reply, sv)"
definition DetachBufferRemote :: "'p \<Rightarrow> server \<Rightarrow> 'p remote_result" where
  "DetachBufferRemote reply sv = Inr (0, reply, sv)"
definition RegisterReleaseListenerRemote :: "'p \<Rightarrow> server \<Rightarrow> 'p remote_result" where
  "RegisterReleaseListenerRemote reply sv = Inr (0, reply, sv)"

definition GetQueueSizeRemote :: "'p server_env \<Rightarrow> 'p \<Rightarrow> server \<Rightarrow> 'p remote_result" where
  "GetQueueSizeRemote S reply sv = Inr (0, WriteUint32 (se_parcel S) (p_GetQueueSize (sv_prod sv)) reply, sv)"

definition SetQueueSizeRemote :: "'p server_env \<Rightarrow> 'p \<Rightarrow> 'p \<Rightarrow> server \<Rightarrow> 'p remote_result" where
  "SetQueueSizeRemote S arguments reply sv =
     (let (n, _) = ReadInt32 (se_parcel S) arguments
      in reply_ret S reply sv (p_SetQueueSize (word_of_int n) (sv_prod sv)))"

text \<open>The code asks the queue itself for the name, without a test for a null queue.\<close>

definition GetNameRemote :: "'p server_env \<Rightarrow> 'p \<Rightarrow> server \<Rightarrow> 'p remote_result" where
  "GetNameRemote S reply sv =
     (case bufferQueue (sv_prod sv) of None \<Rightarrow> Inl NullDeref
      | Some q \<Rightarrow>
          (let (sret, nm) = bq_GetName q; reply = WriteInt32 (se_parcel S) sret reply
           in Inr (0, if gs_eq sret GSERROR_OK then put (se_parcel S) (P_String nm) reply else reply, sv)))"

definition GetNameAndUniqueIdRemote :: "'p server_env \<Rightarrow> 'p \<Rightarrow> server \<Rightarrow> 'p remote_result" where
  "GetNameAndUniqueIdRemote S reply sv =
     (let (ret, nm, uid) = p_GetNameAndUniqueId (sv_prod sv); reply = WriteInt32 (se_parcel S) ret reply
      in Inr (0, if gs_eq ret GSERROR_OK
                 then WriteUint64 (se_parcel S) (case uid of None \<Rightarrow> 0 | Some u \<Rightarrow> u)
                        (put (se_parcel S) (P_String (case nm of None \<Rightarrow> ''not init'' | Some s \<Rightarrow> s)) reply)
                 else reply, sv))"

definition GetDefaultWidthRemote :: "'p server_env \<Rightarrow> 'p \<Rightarrow> server \<Rightarrow> 'p remote_result" where
  "GetDefaultWidthRemote S reply sv = Inr (0, WriteInt32 (se_parcel S) (p_GetDefaultWidth (sv_prod sv)) reply, sv)"
definition GetDefaultHeightRemote :: "'p server_env \<Rightarrow> 'p \<Rightarrow> server \<Rightarrow> 'p remote_result" where
  "GetDefaultHeightRemote S reply sv = Inr (0, WriteInt32 (se_parcel S) (p_GetDefaultHeight (sv_prod sv)) reply, sv)"
definition GetDefaultUsageRemote :: "'p server_env \<Rightarrow> 'p \<Rightarrow> server \<Rightarrow> 'p remote_result" where
  "GetDefaultUsageRemote S reply sv = Inr (0, WriteUint32 (se_parcel S) (p_GetDefaultUsage (sv_prod sv)) reply, sv)"
definition GetUniqueIdRemote :: "'p server_env \<Rightarrow> 'p \<Rightarrow> server \<Rightarrow> 'p remote_result" where
  "GetUniqueIdRemote S reply sv = Inr (0, WriteUint64 (se_parcel S) (p_GetUniqueId (sv_prod sv)) reply, sv)"

definition CleanCacheRemote :: "'p server_env \<Rightarrow> int \<Rightarrow> 'p \<Rightarrow> server \<Rightarrow> 'p remote_result" where
  "CleanCacheRemote S pid reply sv = reply_ret S reply sv (p_CleanCache pid (sv_prod sv))"

definition SetTransformRemote :: "'p server_env \<Rightarrow> 'p \<Rightarrow> 'p \<Rightarrow> server \<Rightarrow> 'p remote_result" where
  "SetTransformRemote S arguments reply sv =
     (let (t, _) = ReadUint32 (se_parcel S) arguments
      in reply_ret S reply sv (p_SetTransform (uint t) (sv_prod sv)))"

definition IsSupportedAllocRemote :: "'p server_env \<Rightarrow> 'p \<Rightarrow> 'p \<Rightarrow> server \<Rightarrow> 'p remote_result" where
  "IsSupportedAllocRemote S arguments reply sv =
     (let P = se_parcel S; (infos, _) = ReadVerifyAllocInfo P arguments;
          (sret, supporteds) = p_IsSupportedAlloc (disp (se_bq S)) infos (sv_prod sv);
          reply = WriteInt32 P sret reply
      in Inr (0, if gs_eq sret GSERROR_OK then put P (P_BoolVector supporteds) reply else reply, sv))"

definition DisconnectRemote :: "'p server_env \<Rightarrow> int \<Rightarrow> 'p \<Rightarrow> server \<Rightarrow> 'p remote_result" where
  "DisconnectRemote S pid reply sv = reply_ret S reply sv (p_Disconnect pid (sv_prod sv))"

text \<open>The codes of the interface, as \<open>ibuffer_producer.h\<close> numbers them.\<close>

datatype producer_code = BUFFER_PRODUCER_REQUEST_BUFFER | BUFFER_PRODUCER_CANCEL_BUFFER
  | BUFFER_PRODUCER_FLUSH_BUFFER | BUFFER_PRODUCER_GET_QUEUE_SIZE | BUFFER_PRODUCER_SET_QUEUE_SIZE
  | BUFFER_PRODUCER_GET_NAME | BUFFER_PRODUCER_GET_DEFAULT_WIDTH | BUFFER_PRODUCER_GET_DEFAULT_HEIGHT
  | BUFFER_PRODUCER_GET_DEFAULT_USAGE | BUFFER_PRODUCER_CLEAN_CACHE | BUFFER_PRODUCER_ATTACH_BUFFER
  | BUFFER_PRODUCER_DETACH_BUFFER | BUFFER_PRODUCER_REGISTER_RELEASE_LISTENER | BUFFER_PRODUCER_GET_UNIQUE_ID
  | BUFFER_PRODUCER_SET_TRANSFORM | BUFFER_PRODUCER_IS_SUPPORTED_ALLOC | BUFFER_PRODUCER_GET_NAMEANDUNIQUEDID
  | BUFFER_PRODUCER_DISCONNECT

definition producer_codes :: "producer_code list" where
  "producer_codes = [BUFFER_PRODUCER_REQUEST_BUFFER, BUFFER_PRODUCER_CANCEL_BUFFER, BUFFER_PRODUCER_FLUSH_BUFFER,
     BUFFER_PRODUCER_GET_QUEUE_SIZE, BUFFER_PRODUCER_SET_QUEUE_SIZE, BUFFER_PRODUCER_GET_NAME,
     BUFFER_PRODUCER_GET_DEFAULT_WIDTH, BUFFER_PRODUCER_GET_DEFAULT_HEIGHT, BUFFER_PRODUCER_GET_DEFAULT_USAGE,
     BUFFER_PRODUCER_CLEAN_CACHE, BUFFER_PRODUCER_ATTACH_BUFFER, BUFFER_PRODUCER_DETACH_BUFFER,
     BUFFER_PRODUCER_REGISTER_RELEASE_LISTENER, BUFFER_PRODUCER_GET_UNIQUE_ID, BUFFER_PRODUCER_SET_TRANSFORM,
     BUFFER_PRODUCER_IS_SUPPORTED_ALLOC, BUFFER_PRODUCER_GET_NAMEANDUNIQUEDID, BUFFER_PRODUCER_DISCONNECT]"

fun producer_code_value :: "producer_code \<Rightarrow> 32 word" where
  "producer_code_value BUFFER_PRODUCER_REQUEST_BUFFER = 0"
| "producer_code_value BUFFER_PRODUCER_CANCEL_BUFFER = 1"
| "producer_code_value BUFFER_PRODUCER_FLUSH_BUFFER = 2"
| "producer_code_value BUFFER_PRODUCER_GET_QUEUE_SIZE = 3"
| "producer_code_value BUFFER_PRODUCER_SET_QUEUE_SIZE = 4"
| "producer_code_value BUFFER_PRODUCER_GET_NAME = 5"
| "producer_code_value BUFFER_PRODUCER_GET_DEFAULT_WIDTH = 6"
| "producer_code_value BUFFER_PRODUCER_GET_DEFAULT_HEIGHT = 7"
| "producer_code_value BUFFER_PRODUCER_GET_DEFAULT_USAGE = 8"
| "producer_code_value BUFFER_PRODUCER_CLEAN_CACHE = 9"
| "producer_code_value BUFFER_PRODUCER_ATTACH_BUFFER = 10"
| "producer_code_value BUFFER_PRODUCER_DETACH_BUFFER = 11"
| "producer_code_value BUFFER_PRODUCER_REGISTER_RELEASE_LISTENER = 12"
| "producer_code_value BUFFER_PRODUCER_GET_UNIQUE_ID = 13"
| "producer_code_value BUFFER_PRODUCER_SET_TRANSFORM = 14"
| "producer_code_value BUFFER_PRODUCER_IS_SUPPORTED_ALLOC = 15"
| "producer_code_value BUFFER_PRODUCER_GET_NAMEANDUNIQUEDID = 16"
| "producer_code_value BUFFER_PRODUCER_DISCONNECT = 17"

fun handle_code :: "'p server_env \<Rightarrow> int \<Rightarrow> nat \<Rightarrow> producer_code \<Rightarrow> 'p \<Rightarrow> 'p \<Rightarrow> server \<Rightarrow> 'p remote_result" where
  "handle_code S pid bd BUFFER_PRODUCER_REQUEST_BUFFER arguments reply sv = RequestBufferRemote S pid arguments reply sv"
| "handle_code S pid bd BUFFER_PRODUCER_CANCEL_BUFFER arguments reply sv = CancelBufferRemote S bd arguments reply sv"
| "handle_code S pid bd BUFFER_PRODUCER_FLUSH_BUFFER arguments reply sv = FlushBufferRemote S bd arguments reply sv"
| "handle_code S pid bd BUFFER_PRODUCER_GET_QUEUE_SIZE arguments reply sv = GetQueueSizeRemote S reply sv"
| "handle_code S pid bd BUFFER_PRODUCER_SET_QUEUE_SIZE arguments reply sv = SetQueueSizeRemote S arguments reply sv"
| "handle_code S pid bd BUFFER_PRODUCER_GET_NAME arguments reply sv = GetNameRemote S reply sv"
| "handle_code S pid bd BUFFER_PRODUCER_GET_DEFAULT_WIDTH arguments reply sv = GetDefaultWidthRemote S reply sv"
| "handle_code S pid bd BUFFER_PRODUCER_GET_DEFAULT_HEIGHT arguments reply sv = GetDefaultHeightRemote S reply sv"
| "handle_code S pid bd BUFFER_PRODUCER_GET_DEFAULT_USAGE arguments reply sv = GetDefaultUsageRemote S reply sv"
| "handle_code S pid bd BUFFER_PRODUCER_CLEAN_CACHE arguments reply sv = CleanCacheRemote S pid reply sv"
| "handle_code S pid bd BUFFER_PRODUCER_ATTACH_BUFFER arguments reply sv = AttachBufferRemote reply sv"
| "handle_code S pid bd BUFFER_PRODUCER_DETACH_BUFFER arguments reply sv = DetachBufferRemote reply sv"
| "handle_code S pid bd BUFFER_PRODUCER_REGISTER_RELEASE_LISTENER arguments reply sv = RegisterReleaseListenerRemote reply sv"
| "handle_code S pid bd BUFFER_PRODUCER_GET_UNIQUE_ID arguments reply sv = GetUniqueIdRemote S reply sv"
| "handle_code S pid bd BUFFER_PRODUCER_SET_TRANSFORM arguments reply sv = SetTransformRemote S arguments reply sv"
| "handle_code S pid bd BUFFER_PRODUCER_IS_SUPPORTED_ALLOC arguments reply sv = IsSupportedAllocRemote S arguments reply sv"
| "handle_code S pid bd BUFFER_PRODUCER_GET_NAMEANDUNIQUEDID arguments reply sv = GetNameAndUniqueIdRemote S reply sv"
| "handle_code S pid bd BUFFER_PRODUCER_DISCONNECT arguments reply sv = DisconnectRemote S pid reply sv"

definition OnRemoteRequest :: "'p server_env \<Rightarrow> int \<Rightarrow> nat \<Rightarrow> 32 word \<Rightarrow> 'p \<Rightarrow> 'p \<Rightarrow> server \<Rightarrow> 'p remote_result" where
  "OnRemoteRequest S pid bd code arguments reply sv =
     (if unat code \<ge> length producer_codes then Inr (0, reply, sv)
      else
        (let (remoteDescriptor, arguments) = ReadInterfaceToken (se_parcel S) arguments
         in if se_token S \<noteq> remoteDescriptor then Inr (ERR_INVALID_STATE S, reply, sv)
            else handle_code S pid bd (producer_codes ! unat code) arguments reply sv))"

lemma producer_codes_value [simp]:
  "unat (producer_code_value c) < length producer_codes" "producer_codes ! unat (producer_code_value c) = c"
  by (cases c; simp add: producer_codes_def)+

end
