(* ===== verification/Buffer_Client_Producer.thy ===== *)
theory Buffer_Client_Producer
  imports Buffer_Queue_Producer
begin

text \<open>
  \<open>BufferClientProducer\<close> (\<open>frameworks/surface/src/buffer_client_producer.cpp\<close>): the interface in the
  process of a remote producer. The transport \<open>Remote()->SendRequest\<close> is a parameter over an abstract
  world \<open>'w\<close>; a result other than 0 (\<open>ERR_NONE\<close>) is a failure. Functions that have to return a number
  return \<open>GSERROR_BINDER\<close> as that number when the transport fails.
\<close>

record ('p, 'w) transport =
  tr_parcel :: "'p parcel_ops"
  tr_token :: string
  tr_send :: "32 word \<Rightarrow> 'p \<Rightarrow> 'w \<Rightarrow> int \<times> 'p \<times> 'w"

text \<open>\<open>invalidFenceFd\<close> is the descriptor in the static object \<open>INVALID_FENCE\<close> of the process.\<close>

record buffer_client =
  cname :: string
  cuniqueId :: "64 word"
  invalidFenceFd :: int

definition new_BufferClientProducer :: "int \<Rightarrow> buffer_client" where
  "new_BufferClientProducer fd = \<lparr>cname = ''not init'', cuniqueId = 0, invalidFenceFd = fd\<rparr>"

definition new_arguments :: "('p, 'w) transport \<Rightarrow> 'p" where
  "new_arguments T = put (tr_parcel T) (P_Token (tr_token T)) (pl_new (tr_parcel T))"

text \<open>\<open>SEND_REQUEST\<close>: \<open>fail\<close> is what the function returns when the transport fails.\<close>

definition SEND_REQUEST :: "('p, 'w) transport \<Rightarrow> producer_code \<Rightarrow> 'p \<Rightarrow> 'a \<Rightarrow> ('p \<Rightarrow> 'a) \<Rightarrow> 'w \<Rightarrow> 'a \<times> 'w" where
  "SEND_REQUEST T code arguments fail k w =
     (let (ret, reply, w) = tr_send T (producer_code_value code) arguments w
      in if ret \<noteq> 0 then (fail, w) else (k reply, w))"

text \<open>\<open>CHECK_RETVAL_WITH_SEQ\<close>, and the same test written out in the other functions.\<close>

definition check_retval :: "'p parcel_ops \<Rightarrow> 'p \<Rightarrow> gserror" where
  "check_retval P reply = (let (ret, _) = ReadInt32 P reply in if ret \<noteq> GSERROR_OK then ret else GSERROR_OK)"

record client_retval =
  cr_sequence :: int
  cr_buffer :: "surface_buffer option"
  cr_deletingBuffers :: "int list"

text \<open>The result: the error, the values returned, the extra data read into \<open>bedata\<close>, the client.\<close>

definition c_RequestBuffer ::
    "('p, 'w) transport \<Rightarrow> display_consts \<Rightarrow> bool \<Rightarrow> nat \<Rightarrow> buffer_request_config \<Rightarrow> extra_map \<Rightarrow> client_retval \<Rightarrow>
     buffer_client \<Rightarrow> 'w \<Rightarrow> (gserror \<times> client_retval \<times> extra_map \<times> buffer_client) \<times> 'w" where
  "c_RequestBuffer T k malloc_ok bd config datas retval c w =
     (let P = tr_parcel T; arguments = WriteRequestConfig P config (new_arguments T)
      in SEND_REQUEST T BUFFER_PRODUCER_REQUEST_BUFFER arguments (GSERROR_BINDER, retval, datas, c)
           (\<lambda>reply. let (ret, reply) = ReadInt32 P reply
              in if ret \<noteq> GSERROR_OK then (ret, retval, datas, c)
                 else
                   (let (sequence, buffer, reply) = ReadSurfaceBufferImpl P k malloc_ok bd (cr_buffer retval) reply;
                        (_, datas, reply) = ReadFromParcel P reply datas;
                        (fd, reply) = fence_ReadFromMessageParcel P (invalidFenceFd c) reply;
                        (v, _) = ReadInt32Vector P reply;
                        retval = \<lparr>cr_sequence = sequence, cr_buffer = buffer,
                                  cr_deletingBuffers = (case v of None \<Rightarrow> cr_deletingBuffers retval | Some bs \<Rightarrow> bs)\<rparr>
                    in (GSERROR_OK, retval, datas, c\<lparr>invalidFenceFd := fd\<rparr>))) w)"

definition c_CancelBuffer :: "('p, 'w) transport \<Rightarrow> int \<Rightarrow> extra_map \<Rightarrow> 'w \<Rightarrow> gserror \<times> 'w" where
  "c_CancelBuffer T sequence datas w =
     (let P = tr_parcel T; arguments = WriteInt32 P sequence (new_arguments T);
          (_, arguments) = WriteToParcel P datas arguments
      in SEND_REQUEST T BUFFER_PRODUCER_CANCEL_BUFFER arguments GSERROR_BINDER (check_retval P) w)"

definition c_FlushBuffer ::
    "('p, 'w) transport \<Rightarrow> (int \<Rightarrow> bool) \<Rightarrow> int \<Rightarrow> extra_map \<Rightarrow> int \<Rightarrow> buffer_flush_config \<Rightarrow> 'w \<Rightarrow> gserror \<times> 'w" where
  "c_FlushBuffer T bad_fd sequence datas fenceFd config w =
     (let P = tr_parcel T; arguments = WriteInt32 P sequence (new_arguments T);
          (_, arguments) = WriteToParcel P datas arguments;
          arguments = fence_WriteToMessageParcel P bad_fd fenceFd arguments;
          arguments = WriteFlushConfig P config arguments
      in SEND_REQUEST T BUFFER_PRODUCER_FLUSH_BUFFER arguments GSERROR_BINDER (check_retval P) w)"

definition c_AttachBuffer :: gserror where "c_AttachBuffer = GSERROR_NOT_SUPPORT"
definition c_DetachBuffer :: gserror where "c_DetachBuffer = GSERROR_NOT_SUPPORT"
definition c_RegisterReleaseListener :: gserror where "c_RegisterReleaseListener = GSERROR_NOT_SUPPORT"

definition c_GetQueueSize :: "('p, 'w) transport \<Rightarrow> 'w \<Rightarrow> 32 word \<times> 'w" where
  "c_GetQueueSize T w = SEND_REQUEST T BUFFER_PRODUCER_GET_QUEUE_SIZE (new_arguments T) (word_of_int GSERROR_BINDER)
     (\<lambda>reply. fst (ReadUint32 (tr_parcel T) reply)) w"

definition c_SetQueueSize :: "('p, 'w) transport \<Rightarrow> 32 word \<Rightarrow> 'w \<Rightarrow> gserror \<times> 'w" where
  "c_SetQueueSize T n w =
     (let P = tr_parcel T; arguments = WriteInt32 P (sint n) (new_arguments T)
      in SEND_REQUEST T BUFFER_PRODUCER_SET_QUEUE_SIZE arguments GSERROR_BINDER (check_retval P) w)"

text \<open>\<open>GetName\<close>: the error, the name given (none when the caller's stays), the client.\<close>

definition c_GetName :: "('p, 'w) transport \<Rightarrow> buffer_client \<Rightarrow> 'w \<Rightarrow> (gserror \<times> string option \<times> buffer_client) \<times> 'w" where
  "c_GetName T c w =
     (if cname c \<noteq> ''not init'' then ((GSERROR_OK, Some (cname c), c), w)
      else SEND_REQUEST T BUFFER_PRODUCER_GET_NAME (new_arguments T) (GSERROR_BINDER, None, c)
        (\<lambda>reply. let (ret, reply) = ReadInt32 (tr_parcel T) reply
           in if ret \<noteq> GSERROR_OK then (ret, None, c)
              else case pl_read (tr_parcel T) K_String reply of
                     (Some (P_String nm), _) \<Rightarrow> (ret, Some nm, c\<lparr>cname := nm\<rparr>)
                   | _ \<Rightarrow> (GSERROR_BINDER, None, c)) w)"

definition c_GetUniqueId :: "('p, 'w) transport \<Rightarrow> buffer_client \<Rightarrow> 'w \<Rightarrow> (64 word \<times> buffer_client) \<times> 'w" where
  "c_GetUniqueId T c w =
     (if cuniqueId c \<noteq> 0 then ((cuniqueId c, c), w)
      else SEND_REQUEST T BUFFER_PRODUCER_GET_UNIQUE_ID (new_arguments T) (word_of_int GSERROR_BINDER, c)
        (\<lambda>reply. let (uid, _) = ReadUint64 (tr_parcel T) reply in (uid, c\<lparr>cuniqueId := uid\<rparr>)) w)"

definition c_GetNameAndUniqueId ::
    "('p, 'w) transport \<Rightarrow> buffer_client \<Rightarrow> 'w \<Rightarrow> (gserror \<times> (string \<times> 64 word) option \<times> buffer_client) \<times> 'w" where
  "c_GetNameAndUniqueId T c w =
     (if cuniqueId c \<noteq> 0 \<and> cname c \<noteq> ''not init'' then ((GSERROR_OK, Some (cname c, cuniqueId c), c), w)
      else SEND_REQUEST T BUFFER_PRODUCER_GET_NAMEANDUNIQUEDID (new_arguments T) (GSERROR_BINDER, None, c)
        (\<lambda>reply. let (ret, reply) = ReadInt32 (tr_parcel T) reply
           in if ret \<noteq> GSERROR_OK then (ret, None, c)
              else case pl_read (tr_parcel T) K_String reply of
                     (Some (P_String nm), reply) \<Rightarrow>
                       (let (uid, _) = ReadUint64 (tr_parcel T) reply
                        in (ret, Some (nm, uid), c\<lparr>cname := nm, cuniqueId := uid\<rparr>))
                   | _ \<Rightarrow> (GSERROR_BINDER, None, c)) w)"

definition c_GetDefaultWidth :: "('p, 'w) transport \<Rightarrow> 'w \<Rightarrow> int \<times> 'w" where
  "c_GetDefaultWidth T w = SEND_REQUEST T BUFFER_PRODUCER_GET_DEFAULT_WIDTH (new_arguments T) GSERROR_BINDER
     (\<lambda>reply. fst (ReadInt32 (tr_parcel T) reply)) w"

definition c_GetDefaultHeight :: "('p, 'w) transport \<Rightarrow> 'w \<Rightarrow> int \<times> 'w" where
  "c_GetDefaultHeight T w = SEND_REQUEST T BUFFER_PRODUCER_GET_DEFAULT_HEIGHT (new_arguments T) GSERROR_BINDER
     (\<lambda>reply. fst (ReadInt32 (tr_parcel T) reply)) w"

definition c_GetDefaultUsage :: "('p, 'w) transport \<Rightarrow> 'w \<Rightarrow> 32 word \<times> 'w" where
  "c_GetDefaultUsage T w = SEND_REQUEST T BUFFER_PRODUCER_GET_DEFAULT_USAGE (new_arguments T) (word_of_int GSERROR_BINDER)
     (\<lambda>reply. fst (ReadUint32 (tr_parcel T) reply)) w"

definition c_CleanCache :: "('p, 'w) transport \<Rightarrow> 'w \<Rightarrow> gserror \<times> 'w" where
  "c_CleanCache T w = SEND_REQUEST T BUFFER_PRODUCER_CLEAN_CACHE (new_arguments T) GSERROR_BINDER (check_retval (tr_parcel T)) w"

definition c_SetTransform :: "('p, 'w) transport \<Rightarrow> int \<Rightarrow> 'w \<Rightarrow> gserror \<times> 'w" where
  "c_SetTransform T t w =
     (let arguments = WriteUint32 (tr_parcel T) (word_of_int t) (new_arguments T)
      in SEND_REQUEST T BUFFER_PRODUCER_SET_TRANSFORM arguments GSERROR_BINDER (check_retval (tr_parcel T)) w)"

text \<open>The answers are none when the vector could not be read or the remote reported an error.\<close>

definition c_IsSupportedAlloc ::
    "('p, 'w) transport \<Rightarrow> verify_alloc_info list \<Rightarrow> 'w \<Rightarrow> (gserror \<times> bool list option) \<times> 'w" where
  "c_IsSupportedAlloc T infos w =
     (let P = tr_parcel T; arguments = WriteVerifyAllocInfo P infos (new_arguments T)
      in SEND_REQUEST T BUFFER_PRODUCER_IS_SUPPORTED_ALLOC arguments (GSERROR_BINDER, None)
        (\<lambda>reply. let (ret, reply) = ReadInt32 P reply
           in if ret \<noteq> GSERROR_OK then (ret, None)
              else case ReadBoolVector P reply of
                     (None, _) \<Rightarrow> (GSERROR_BINDER, None)
                   | (Some bs, _) \<Rightarrow> (ret, Some bs)) w)"

definition c_Disconnect :: "('p, 'w) transport \<Rightarrow> 'w \<Rightarrow> gserror \<times> 'w" where
  "c_Disconnect T w = SEND_REQUEST T BUFFER_PRODUCER_DISCONNECT (new_arguments T) GSERROR_BINDER (check_retval (tr_parcel T)) w"

section \<open>The stub behind the transport\<close>

text \<open>
  \<open>stub_transport\<close> connects a client with the process id \<open>pid\<close> to the server; \<open>fresh\<close> numbers the object
  a handler makes. A fault stops the server, and the client sees the transport's error \<open>dead\<close>.
\<close>

definition stub_transport ::
    "'p server_env \<Rightarrow> int \<Rightarrow> (server \<Rightarrow> nat) \<Rightarrow> int \<Rightarrow> ('p, server) transport" where
  "stub_transport S pid fresh dead =
     \<lparr>tr_parcel = se_parcel S, tr_token = se_token S,
      tr_send = (\<lambda>code arguments sv.
        case OnRemoteRequest S pid (fresh sv) code arguments (pl_new (se_parcel S)) sv of
          Inl _ \<Rightarrow> (dead, pl_new (se_parcel S), sv) | Inr r \<Rightarrow> r)\<rparr>"

lemma stub_parcel [simp]: "tr_parcel (stub_transport S pid fresh dead) = se_parcel S"
  and stub_token [simp]: "tr_token (stub_transport S pid fresh dead) = se_token S"
  by (simp_all add: stub_transport_def)

lemma view_new_arguments:
  "parcel_fifo (tr_parcel T) view xfd \<Longrightarrow> view (new_arguments T) = [P_Token (tr_token T)]"
  by (simp add: new_arguments_def fifo_put fifo_new)

text \<open>A request reaches the handler of its code with the arguments written after the token.\<close>

lemma stub_handles:
  assumes F: "parcel_fifo (se_parcel S) view xfd" and v: "view arguments = P_Token (se_token S) # its"
  shows "\<exists>args. view args = its \<and>
    SEND_REQUEST (stub_transport S pid fresh dead) code arguments fail k sv =
     (case handle_code S pid (fresh sv) code args (pl_new (se_parcel S)) sv of
        Inl _ \<Rightarrow> if dead \<noteq> 0 then (fail, sv) else (k (pl_new (se_parcel S)), sv)
      | Inr (ret, reply, sv') \<Rightarrow> if ret \<noteq> 0 then (fail, sv') else (k reply, sv'))"
proof -
  from read_Token [OF F v] obtain args where
    "ReadInterfaceToken (se_parcel S) arguments = (se_token S, args)" "view args = its" by blast
  moreover have "\<not> length producer_codes \<le> unat (producer_code_value code)" by (simp add: not_le)
  ultimately show ?thesis
    by (intro exI [of _ args]) (simp add: SEND_REQUEST_def stub_transport_def OnRemoteRequest_def split: sum.splits)
qed

end
