(* ===== verification/Producer_Remote.thy ===== *)
theory Producer_Remote
  imports Buffer_Client_Producer Buffer_Queue_Props
begin

text \<open>
  The remote producer: a call through \<open>BufferClientProducer\<close> and the stub does what the same call on
  \<open>BufferQueueProducer\<close> does, except that every fence ends in one shared object; a connection
  keeps other processes out; and the buffer itself is sent to a process once.
\<close>

lemmas settings_defs = p_SetQueueSize_def p_SetTransform_def p_CleanCache_def p_Disconnect_def p_CancelBuffer_def
  p_FlushBuffer_def on_queue_def

section \<open>Answers of one number\<close>

lemma check_retval_answer:
  assumes "parcel_fifo P view xfd" and "view reply = [P_Word32 (word_of_int ret)]" and "int32_ok ret"
  shows "check_retval P reply = ret"
proof -
  from read_Int32 [OF assms(1,2)] obtain p' where "ReadInt32 P reply = (sint (word_of_int ret :: 32 word), p')" by blast
  with assms(3) show ?thesis by (simp add: check_retval_def sint_int32)
qed

lemma call_answer:
  assumes F: "parcel_fifo (se_parcel S) view xfd" and v: "view arguments = P_Token (se_token S) # its"
    and h: "\<And>args. view args = its \<Longrightarrow> handle_code S pid (fresh sv) code args (pl_new (se_parcel S)) sv =
       reply_ret S (pl_new (se_parcel S)) sv' (Inr (ret, pr))"
    and r: "int32_ok ret"
  shows "SEND_REQUEST (stub_transport S pid fresh dead) code arguments GSERROR_BINDER (check_retval (se_parcel S)) sv =
    (ret, sv'\<lparr>sv_prod := pr\<rparr>)"
proof -
  from stub_handles [OF F v, of pid fresh dead code GSERROR_BINDER "check_retval (se_parcel S)" sv] h have
    "SEND_REQUEST (stub_transport S pid fresh dead) code arguments GSERROR_BINDER (check_retval (se_parcel S)) sv =
      (check_retval (se_parcel S) (WriteInt32 (se_parcel S) ret (pl_new (se_parcel S))), sv'\<lparr>sv_prod := pr\<rparr>)"
    by (auto simp: reply_ret_def)
  moreover have "view (WriteInt32 (se_parcel S) ret (pl_new (se_parcel S))) = [P_Word32 (word_of_int ret)]"
    by (simp add: WriteInt32_def fifo_put [OF F] fifo_new [OF F])
  ultimately show ?thesis using check_retval_answer [OF F _ r] by simp
qed

lemma int32_codes [simp]: "int32_ok GSERROR_OK" "int32_ok GSERROR_INVALID_ARGUMENTS" "int32_ok GSERROR_INVALID_OPERATING"
  by (simp_all add: int32_ok_def gs)

lemma p_SetQueueSize_returns: "\<exists>ret pr'. p_SetQueueSize n pr = Inr (ret, pr') \<and> int32_ok ret"
  by (auto simp: settings_defs SetQueueSize_eq split: option.splits)

lemma p_SetTransform_returns: "\<exists>ret pr'. p_SetTransform t pr = Inr (ret, pr') \<and> int32_ok ret"
  by (auto simp: settings_defs bq_SetTransform_def split: option.splits)

lemma CheckConnect_cases: "CheckConnectLocked pid pr \<in> {GSERROR_OK, GSERROR_INVALID_OPERATING}"
  by (simp add: CheckConnectLocked_def)

lemma p_CleanCache_returns: "\<exists>ret pr'. p_CleanCache pid pr = Inr (ret, pr') \<and> int32_ok ret"
  using CheckConnect_cases [of pid pr] by (auto simp: settings_defs bq_CleanCache_def Let_def split: option.splits)

lemma p_Disconnect_returns: "\<exists>ret pr'. p_Disconnect pid pr = Inr (ret, pr') \<and> int32_ok ret"
  using CheckConnect_cases [of pid pr] by (auto simp: settings_defs bq_CleanCache_def Let_def split: option.splits)

section \<open>Settings\<close>

lemma c_SetQueueSize_eq:
  assumes F: "parcel_fifo (se_parcel S) view xfd" and r: "p_SetQueueSize n (sv_prod sv) = Inr (ret, pr)"
  shows "c_SetQueueSize (stub_transport S pid fresh dead) n sv = (ret, sv\<lparr>sv_prod := pr\<rparr>)"
proof -
  let ?T = "stub_transport S pid fresh dead"
  have v: "view (WriteInt32 (se_parcel S) (sint n) (new_arguments ?T)) = P_Token (se_token S) # [P_Word32 (word_of_int (sint n))]"
    by (simp add: WriteInt32_def fifo_put [OF F] view_new_arguments [of ?T, simplified, OF F])
  have "int32_ok ret" using p_SetQueueSize_returns [of n "sv_prod sv"] r by auto
  moreover have "handle_code S pid b BUFFER_PRODUCER_SET_QUEUE_SIZE args p sv = reply_ret S p sv (Inr (ret, pr))"
    if "view args = [P_Word32 (word_of_int (sint n))]" for args b p
    using read_Int32 [OF F that] r by (auto simp: SetQueueSizeRemote_def)
  ultimately show ?thesis unfolding c_SetQueueSize_def stub_parcel Let_def by (intro call_answer [OF F v]) auto
qed

lemma c_SetTransform_eq:
  assumes F: "parcel_fifo (se_parcel S) view xfd" and t: "0 \<le> t" "t < 2 ^ 32"
    and r: "p_SetTransform t (sv_prod sv) = Inr (ret, pr)"
  shows "c_SetTransform (stub_transport S pid fresh dead) t sv = (ret, sv\<lparr>sv_prod := pr\<rparr>)"
proof -
  let ?T = "stub_transport S pid fresh dead"
  have v: "view (WriteUint32 (se_parcel S) (word_of_int t) (new_arguments ?T)) = P_Token (se_token S) # [P_Word32 (word_of_int t)]"
    by (simp add: WriteUint32_def fifo_put [OF F] view_new_arguments [of ?T, simplified, OF F])
  have u: "uint (word_of_int t :: 32 word) = t" using t by (simp add: uint_word_of_int take_bit_int_eq_self)
  have "int32_ok ret" using p_SetTransform_returns [of t "sv_prod sv"] r by auto
  moreover have "handle_code S pid b BUFFER_PRODUCER_SET_TRANSFORM args p sv = reply_ret S p sv (Inr (ret, pr))"
    if "view args = [P_Word32 (word_of_int t)]" for args b p
    using read_Uint32 [OF F that] r u by (auto simp: SetTransformRemote_def)
  ultimately show ?thesis unfolding c_SetTransform_def stub_parcel Let_def by (intro call_answer [OF F v]) auto
qed

lemma c_CleanCache_eq:
  assumes F: "parcel_fifo (se_parcel S) view xfd" and r: "p_CleanCache pid (sv_prod sv) = Inr (ret, pr)"
  shows "c_CleanCache (stub_transport S pid fresh dead) sv = (ret, sv\<lparr>sv_prod := pr\<rparr>)"
proof -
  let ?T = "stub_transport S pid fresh dead"
  have v: "view (new_arguments ?T) = P_Token (se_token S) # []" by (simp add: view_new_arguments [of ?T, simplified, OF F])
  have "int32_ok ret" using p_CleanCache_returns [of pid "sv_prod sv"] r by auto
  then show ?thesis unfolding c_CleanCache_def stub_parcel
    by (intro call_answer [OF F v]) (auto simp: CleanCacheRemote_def r)
qed

lemma c_Disconnect_eq:
  assumes F: "parcel_fifo (se_parcel S) view xfd" and r: "p_Disconnect pid (sv_prod sv) = Inr (ret, pr)"
  shows "c_Disconnect (stub_transport S pid fresh dead) sv = (ret, sv\<lparr>sv_prod := pr\<rparr>)"
proof -
  let ?T = "stub_transport S pid fresh dead"
  have v: "view (new_arguments ?T) = P_Token (se_token S) # []" by (simp add: view_new_arguments [of ?T, simplified, OF F])
  have "int32_ok ret" using p_Disconnect_returns [of pid "sv_prod sv"] r by auto
  then show ?thesis unfolding c_Disconnect_def stub_parcel
    by (intro call_answer [OF F v]) (auto simp: DisconnectRemote_def r)
qed

section \<open>Getters\<close>

text \<open>A handler that always answers \<open>reply\<close> and changes nothing.\<close>

lemma getter_answer:
  assumes F: "parcel_fifo (se_parcel S) view xfd"
    and h: "\<And>args. handle_code S pid (fresh sv) code args (pl_new (se_parcel S)) sv = Inr (0, reply, sv)"
  shows "SEND_REQUEST (stub_transport S pid fresh dead) code (new_arguments (stub_transport S pid fresh dead)) fail k sv = (k reply, sv)"
  using stub_handles [OF F, of "new_arguments (stub_transport S pid fresh dead)" "[]" pid fresh dead code fail k sv] h
    view_new_arguments [of "stub_transport S pid fresh dead", simplified, OF F] by auto

lemma view_answer:
  assumes F: "parcel_fifo (se_parcel S) view xfd"
  shows "view (WriteInt32 (se_parcel S) x (pl_new (se_parcel S))) = [P_Word32 (word_of_int x)]"
    "view (WriteUint32 (se_parcel S) w (pl_new (se_parcel S))) = [P_Word32 w]"
    "view (WriteUint64 (se_parcel S) u (pl_new (se_parcel S))) = [P_Word64 u]"
  by (simp_all add: WriteInt32_def WriteUint32_def WriteUint64_def fifo_put [OF F] fifo_new [OF F])

lemma c_GetQueueSize_eq:
  assumes F: "parcel_fifo (se_parcel S) view xfd"
  shows "c_GetQueueSize (stub_transport S pid fresh dead) sv = (p_GetQueueSize (sv_prod sv), sv)"
proof -
  have "c_GetQueueSize (stub_transport S pid fresh dead) sv = (fst (ReadUint32 (se_parcel S) (WriteUint32 (se_parcel S) (p_GetQueueSize (sv_prod sv)) (pl_new (se_parcel S)))), sv)"
    unfolding c_GetQueueSize_def stub_parcel by (rule getter_answer [OF F]) (simp add: GetQueueSizeRemote_def)
  then show ?thesis using read_Uint32 [OF F view_answer(2) [OF F, of "p_GetQueueSize (sv_prod sv)"]] by auto
qed

lemma c_GetDefaultUsage_eq:
  assumes F: "parcel_fifo (se_parcel S) view xfd"
  shows "c_GetDefaultUsage (stub_transport S pid fresh dead) sv = (p_GetDefaultUsage (sv_prod sv), sv)"
proof -
  have "c_GetDefaultUsage (stub_transport S pid fresh dead) sv = (fst (ReadUint32 (se_parcel S) (WriteUint32 (se_parcel S) (p_GetDefaultUsage (sv_prod sv)) (pl_new (se_parcel S)))), sv)"
    unfolding c_GetDefaultUsage_def stub_parcel by (rule getter_answer [OF F]) (simp add: GetDefaultUsageRemote_def)
  then show ?thesis using read_Uint32 [OF F view_answer(2) [OF F, of "p_GetDefaultUsage (sv_prod sv)"]] by auto
qed

lemma c_GetDefaultWidth_eq:
  assumes F: "parcel_fifo (se_parcel S) view xfd" and w: "int32_ok (p_GetDefaultWidth (sv_prod sv))"
  shows "c_GetDefaultWidth (stub_transport S pid fresh dead) sv = (p_GetDefaultWidth (sv_prod sv), sv)"
proof -
  have "c_GetDefaultWidth (stub_transport S pid fresh dead) sv = (fst (ReadInt32 (se_parcel S) (WriteInt32 (se_parcel S) (p_GetDefaultWidth (sv_prod sv)) (pl_new (se_parcel S)))), sv)"
    unfolding c_GetDefaultWidth_def stub_parcel by (rule getter_answer [OF F]) (simp add: GetDefaultWidthRemote_def)
  then show ?thesis using read_Int32 [OF F view_answer(1) [OF F, of "p_GetDefaultWidth (sv_prod sv)"]] sint_int32 [OF w] by auto
qed

lemma c_GetDefaultHeight_eq:
  assumes F: "parcel_fifo (se_parcel S) view xfd" and w: "int32_ok (p_GetDefaultHeight (sv_prod sv))"
  shows "c_GetDefaultHeight (stub_transport S pid fresh dead) sv = (p_GetDefaultHeight (sv_prod sv), sv)"
proof -
  have "c_GetDefaultHeight (stub_transport S pid fresh dead) sv = (fst (ReadInt32 (se_parcel S) (WriteInt32 (se_parcel S) (p_GetDefaultHeight (sv_prod sv)) (pl_new (se_parcel S)))), sv)"
    unfolding c_GetDefaultHeight_def stub_parcel by (rule getter_answer [OF F]) (simp add: GetDefaultHeightRemote_def)
  then show ?thesis using read_Int32 [OF F view_answer(1) [OF F, of "p_GetDefaultHeight (sv_prod sv)"]] sint_int32 [OF w] by auto
qed

text \<open>What the client remembers is right.\<close>

definition client_ok :: "buffer_queue \<Rightarrow> buffer_client \<Rightarrow> bool" where
  "client_ok q c \<longleftrightarrow> (cuniqueId c = 0 \<or> cuniqueId c = uniqueId q) \<and> (cname c = ''not init'' \<or> cname c = qname q)"

lemma c_GetUniqueId_eq:
  assumes F: "parcel_fifo (se_parcel S) view xfd" and q: "bufferQueue (sv_prod sv) = Some q" and c: "client_ok q c"
  shows "\<exists>c'. c_GetUniqueId (stub_transport S pid fresh dead) c sv = ((uniqueId q, c'), sv) \<and> client_ok q c'"
proof (cases "cuniqueId c = 0")
  case True
  let ?reply = "WriteUint64 (se_parcel S) (uniqueId q) (pl_new (se_parcel S))"
  have "SEND_REQUEST (stub_transport S pid fresh dead) BUFFER_PRODUCER_GET_UNIQUE_ID (new_arguments (stub_transport S pid fresh dead))
      fail k sv = (k ?reply, sv)" for fail and k :: "_ \<Rightarrow> 64 word \<times> buffer_client"
    by (rule getter_answer [OF F]) (simp add: GetUniqueIdRemote_def p_GetUniqueId_def q)
  with True c show ?thesis using read_Uint64 [OF F view_answer(3) [OF F, of "uniqueId q"]]
    by (auto simp: c_GetUniqueId_def client_ok_def)
next
  case False
  with c show ?thesis by (auto simp: c_GetUniqueId_def client_ok_def)
qed

lemma c_GetName_eq:
  assumes F: "parcel_fifo (se_parcel S) view xfd" and q: "bufferQueue (sv_prod sv) = Some q" and c: "client_ok q c"
  shows "\<exists>c'. c_GetName (stub_transport S pid fresh dead) c sv = ((GSERROR_OK, Some (qname q), c'), sv) \<and> client_ok q c'"
proof (cases "cname c = ''not init''")
  case True
  let ?reply = "put (se_parcel S) (P_String (qname q)) (WriteInt32 (se_parcel S) GSERROR_OK (pl_new (se_parcel S)))"
  have v: "view ?reply = [P_Word32 (word_of_int GSERROR_OK), P_String (qname q)]"
    by (simp add: fifo_put [OF F] view_answer [OF F])
  from read_Int32 [OF F v] obtain p1 where 1: "ReadInt32 (se_parcel S) ?reply = (GSERROR_OK, p1)" "view p1 = [P_String (qname q)]"
    by (auto simp: sint_int32)
  from fifo_read [OF F 1(2)] obtain p2 where 2: "pl_read (se_parcel S) K_String p1 = (Some (P_String (qname q)), p2)" by auto
  have "SEND_REQUEST (stub_transport S pid fresh dead) BUFFER_PRODUCER_GET_NAME (new_arguments (stub_transport S pid fresh dead))
      fail k sv = (k ?reply, sv)" for fail and k :: "_ \<Rightarrow> gserror \<times> string option \<times> buffer_client"
    by (rule getter_answer [OF F]) (simp add: GetNameRemote_def bq_GetName_def q)
  with True c 1(1) 2 show ?thesis by (auto simp: c_GetName_def client_ok_def)
next
  case False
  with c show ?thesis by (auto simp: c_GetName_def client_ok_def)
qed

section \<open>Buffers\<close>

text \<open>A message that carries a sequence number and extra data, as cancelling and flushing send it.\<close>

lemma read_sequence_extra:
  assumes F: "parcel_fifo P view xfd" and v: "view args = P_Word32 (word_of_int s) # extra_items datas @ rest"
    and s: "int32_ok s" and d: "extra_ok datas"
  shows "\<exists>p1 p2. ReadInt32 P args = (s, p1) \<and> ReadFromParcel P p1 [] = (GSERROR_OK, datas, p2) \<and> view p2 = rest"
proof -
  from read_Int32 [OF F v] s obtain p1 where 1: "ReadInt32 P args = (s, p1)" "view p1 = extra_items datas @ rest"
    by (auto simp: sint_int32)
  from read_extra_map [OF F 1(2) d] 1(1) show ?thesis by auto
qed

lemma view_sequence_extra:
  assumes F: "parcel_fifo (se_parcel S) view xfd" and d: "extra_ok datas"
  shows "view (snd (WriteToParcel (se_parcel S) datas
      (WriteInt32 (se_parcel S) s (new_arguments (stub_transport S pid fresh dead))))) =
    P_Token (se_token S) # P_Word32 (word_of_int s) # extra_items datas"
proof -
  let ?p = "WriteInt32 (se_parcel S) s (new_arguments (stub_transport S pid fresh dead))"
  have "view ?p = [P_Token (se_token S), P_Word32 (word_of_int s)]"
    by (simp add: WriteInt32_def fifo_put [OF F] view_new_arguments [of "stub_transport S pid fresh dead", simplified, OF F])
  with write_extra_map [OF F d, of ?p] show ?thesis by auto
qed

lemma c_CancelBuffer_eq:
  assumes F: "parcel_fifo (se_parcel S) view xfd" and s: "int32_ok s" and d: "extra_ok datas"
    and r: "p_CancelBuffer (se_bq S) s (Some (fresh sv)) (sv_prod sv) = Inr (ret, pr)" and ret: "int32_ok ret"
  shows "c_CancelBuffer (stub_transport S pid fresh dead) s datas sv =
    (ret, sv\<lparr>extras := (extras sv)(fresh sv := datas), sv_prod := pr\<rparr>)"
proof -
  let ?sv = "sv\<lparr>extras := (extras sv)(fresh sv := datas)\<rparr>"
  note v = view_sequence_extra [OF F d, of s pid fresh dead]
  have "handle_code S pid (fresh sv) BUFFER_PRODUCER_CANCEL_BUFFER args p sv = reply_ret S p ?sv (Inr (ret, pr))"
    if "view args = P_Word32 (word_of_int s) # extra_items datas" for args p
  proof -
    from read_sequence_extra [OF F _ s d, of args "[]"] that obtain p1 p2 where
      "ReadInt32 (se_parcel S) args = (s, p1)" "ReadFromParcel (se_parcel S) p1 [] = (GSERROR_OK, datas, p2)" by auto
    with r show ?thesis by (simp add: CancelBufferRemote_def)
  qed
  from call_answer [where fresh = fresh and sv = sv and sv' = ?sv, OF F v this ret] show ?thesis
    by (simp add: c_CancelBuffer_def split_beta)
qed

definition flushed_fence :: "(int \<Rightarrow> int) \<Rightarrow> (int \<Rightarrow> bool) \<Rightarrow> int \<Rightarrow> server \<Rightarrow> int" where
  "flushed_fence xfd bad_fd fd sv = (if 0 \<le> fd \<and> \<not> bad_fd fd then xfd fd else fences sv 0)"

lemma c_FlushBuffer_eq:
  assumes F: "parcel_fifo (se_parcel S) view xfd" and s: "int32_ok s" and d: "extra_ok datas" and fd: "int32_ok fd"
    and c: "flush_typed config"
    and r: "p_FlushBuffer (se_bq S) s (Some (fresh sv)) INVALID_FENCE config (sv_prod sv) = Inr (ret, pr)" and ret: "int32_ok ret"
  shows "c_FlushBuffer (stub_transport S pid fresh dead) bad_fd s datas fd config sv =
    (ret, sv\<lparr>extras := (extras sv)(fresh sv := datas), fences := (fences sv)(0 := flushed_fence xfd bad_fd fd sv), sv_prod := pr\<rparr>)"
proof -
  let ?sv = "sv\<lparr>extras := (extras sv)(fresh sv := datas), fences := (fences sv)(0 := flushed_fence xfd bad_fd fd sv)\<rparr>"
  let ?its = "P_Word32 (word_of_int s) # extra_items datas @ fence_items xfd bad_fd fd @ flush_items config"
  have v: "view (WriteFlushConfig (se_parcel S) config (fence_WriteToMessageParcel (se_parcel S) bad_fd fd
      (snd (WriteToParcel (se_parcel S) datas (WriteInt32 (se_parcel S) s (new_arguments (stub_transport S pid fresh dead))))))) =
    P_Token (se_token S) # ?its"
    by (simp add: view_WriteFlushConfig [OF F] view_fence_Write [OF F] view_sequence_extra [OF F d])
  have "handle_code S pid (fresh sv) BUFFER_PRODUCER_FLUSH_BUFFER args p sv = reply_ret S p ?sv (Inr (ret, pr))"
    if "view args = ?its" for args p
  proof -
    from read_sequence_extra [OF F that s d] obtain p1 p2 where 1:
      "ReadInt32 (se_parcel S) args = (s, p1)" "ReadFromParcel (se_parcel S) p1 [] = (GSERROR_OK, datas, p2)"
      "view p2 = fence_items xfd bad_fd fd @ flush_items config" by blast
    from read_fence [OF F 1(3) fd, of "fences sv 0"] obtain p3 where 2:
      "fence_ReadFromMessageParcel (se_parcel S) (fences sv 0) p2 = (flushed_fence xfd bad_fd fd sv, p3)" "view p3 = flush_items config"
      by (auto simp: flushed_fence_def)
    from read_FlushConfig [OF F _ c, of p3 "[]"] 2(2) obtain p4 where "ReadFlushConfig (se_parcel S) p3 = (config, p4)" by auto
    with r 1 2(1) show ?thesis by (simp add: FlushBufferRemote_def INVALID_FENCE_def)
  qed
  from call_answer [where fresh = fresh and sv = sv and sv' = ?sv, OF F v this ret] show ?thesis
    by (simp add: c_FlushBuffer_def split_beta)
qed

section \<open>Requests\<close>

definition request_reply_items ::
    "(int \<Rightarrow> int) \<Rightarrow> (int \<Rightarrow> bool) \<Rightarrow> request_retval \<Rightarrow> surface_buffer option \<Rightarrow> extra_map \<Rightarrow> int \<Rightarrow> item list" where
  "request_reply_items xfd bad_fd rv buffer datas fd =
     P_Word32 (word_of_int GSERROR_OK) # buffer_items xfd (rsequence rv) buffer @ extra_items datas @
     fence_items xfd bad_fd fd @ [P_Int32Vector (rdeletingBuffers rv)]"

lemma RequestBufferRemote_reply:
  assumes F: "parcel_fifo (se_parcel S) view xfd" and a: "view args = request_items config" "request_typed config"
    and r: "p_RequestBuffer (se_bq S) (se_promote S) (se_wait S) (se_self S) pid config (sv_tables sv) (sv_prod sv) =
       Inr (GSERROR_OK, Some b, rv, tb, pr)"
    and q: "bufferQueue pr = Some q" "rfence rv = Some f"
    and t: "buffer_typed (deref q (rbuffer rv))" "extra_ok (extras sv b)"
  shows "\<exists>reply. RequestBufferRemote S pid args (pl_new (se_parcel S)) sv = Inr (0, reply, sv\<lparr>sv_prod := pr, sv_tables := tb\<rparr>) \<and>
    view reply = request_reply_items xfd (se_bad_fd S) rv (deref q (rbuffer rv)) (extras sv b) (fences sv f)"
proof -
  let ?P = "se_parcel S"
  let ?r1 = "WriteSurfaceBufferImpl ?P (rsequence rv) (deref q (rbuffer rv)) (WriteInt32 ?P GSERROR_OK (pl_new ?P))"
  from read_RequestConfig [OF F _ a(2), of args "[]"] a(1) obtain p1 where p1: "ReadRequestConfig ?P args = (config, p1)" by auto
  from write_extra_map [OF F t(2), of ?r1] obtain r2 where r2: "WriteToParcel ?P (extras sv b) ?r1 = (GSERROR_OK, r2)"
    "view r2 = view ?r1 @ extra_items (extras sv b)" by blast
  let ?reply = "put ?P (P_Int32Vector (rdeletingBuffers rv)) (fence_WriteToMessageParcel ?P (se_bad_fd S) (fences sv f) r2)"
  have "RequestBufferRemote S pid args (pl_new ?P) sv = Inr (0, ?reply, sv\<lparr>sv_prod := pr, sv_tables := tb\<rparr>)"
    using p1 r q r2(1) by (simp add: RequestBufferRemote_def Let_def)
  moreover have "view ?reply = request_reply_items xfd (se_bad_fd S) rv (deref q (rbuffer rv)) (extras sv b) (fences sv f)"
    by (simp add: fifo_put [OF F] view_fence_Write [OF F] r2(2) view_WriteSurfaceBufferImpl [OF F t(1)] view_answer [OF F]
        request_reply_items_def)
  ultimately show ?thesis by blast
qed

text \<open>What the client has after a request that the server accepted.\<close>

definition client_result ::
    "(int \<Rightarrow> int) \<Rightarrow> (int \<Rightarrow> bool) \<Rightarrow> display_consts \<Rightarrow> nat \<Rightarrow> request_retval \<Rightarrow> surface_buffer option \<Rightarrow> client_retval \<Rightarrow> client_retval" where
  "client_result xfd bad_fd k bd rv buffer cr =
     \<lparr>cr_sequence = rsequence rv,
      cr_buffer = (case buffer of None \<Rightarrow> cr_buffer cr | Some sb \<Rightarrow> Some (received_buffer k xfd bd (rsequence rv) sb)),
      cr_deletingBuffers = rdeletingBuffers rv\<rparr>"

lemma c_RequestBuffer_eq:
  assumes F: "parcel_fifo (se_parcel S) view xfd" and c: "request_typed config"
    and r: "p_RequestBuffer (se_bq S) (se_promote S) (se_wait S) (se_self S) pid config (sv_tables sv) (sv_prod sv) =
       Inr (GSERROR_OK, Some b, rv, tb, pr)"
    and q: "bufferQueue pr = Some q" "rfence rv = Some f"
    and t: "buffer_typed (deref q (rbuffer rv))" "extra_ok (extras sv b)" "int32_ok (rsequence rv)" "int32_ok (fences sv f)"
  shows "c_RequestBuffer (stub_transport S pid fresh dead) k True bd config [] cr cl sv =
    ((GSERROR_OK, client_result xfd (se_bad_fd S) k bd rv (deref q (rbuffer rv)) cr, extras sv b,
      cl\<lparr>invalidFenceFd := (if 0 \<le> fences sv f \<and> \<not> se_bad_fd S (fences sv f) then xfd (fences sv f) else invalidFenceFd cl)\<rparr>),
     sv\<lparr>sv_prod := pr, sv_tables := tb\<rparr>)"
proof -
  let ?P = "se_parcel S" and ?buffer = "deref q (rbuffer rv)" and ?sv = "sv\<lparr>sv_prod := pr, sv_tables := tb\<rparr>"
  let ?T = "stub_transport S pid fresh dead"
  have v: "view (WriteRequestConfig ?P config (new_arguments ?T)) = P_Token (se_token S) # request_items config"
    by (simp add: view_WriteRequestConfig [OF F] view_new_arguments [of ?T, simplified, OF F])
  define K where "K = (\<lambda>reply. let (ret, reply) = ReadInt32 ?P reply
     in if ret \<noteq> GSERROR_OK then (ret, cr, [], cl)
        else
          (let (sequence, buffer, reply) = ReadSurfaceBufferImpl ?P k True bd (cr_buffer cr) reply;
               (_, datas, reply) = ReadFromParcel ?P reply [];
               (fd, reply) = fence_ReadFromMessageParcel ?P (invalidFenceFd cl) reply;
               (v, _) = ReadInt32Vector ?P reply;
               retval = \<lparr>cr_sequence = sequence, cr_buffer = buffer,
                         cr_deletingBuffers = (case v of None \<Rightarrow> cr_deletingBuffers cr | Some bs \<Rightarrow> bs)\<rparr>
           in (GSERROR_OK, retval, datas, cl\<lparr>invalidFenceFd := fd\<rparr>)))"
  have C: "c_RequestBuffer ?T k True bd config [] cr cl sv = SEND_REQUEST ?T BUFFER_PRODUCER_REQUEST_BUFFER
      (WriteRequestConfig ?P config (new_arguments ?T)) (GSERROR_BINDER, cr, [], cl) K sv"
    unfolding c_RequestBuffer_def K_def stub_parcel Let_def ..
  from stub_handles [OF F v, of pid fresh dead BUFFER_PRODUCER_REQUEST_BUFFER "(GSERROR_BINDER, cr, [], cl)" K sv, folded C]
  obtain args where args: "view args = request_items config"
    "c_RequestBuffer ?T k True bd config [] cr cl sv =
      (case RequestBufferRemote S pid args (pl_new ?P) sv of
         Inl _ \<Rightarrow> if dead \<noteq> 0 then ((GSERROR_BINDER, cr, [], cl), sv) else (K (pl_new ?P), sv)
       | Inr (ret, reply, sv') \<Rightarrow> if ret \<noteq> 0 then ((GSERROR_BINDER, cr, [], cl), sv') else (K reply, sv'))"
    by auto
  from RequestBufferRemote_reply [OF F args(1) c r q t(1,2)] obtain reply where
    rr: "RequestBufferRemote S pid args (pl_new ?P) sv = Inr (0, reply, ?sv)"
    and reply: "view reply = request_reply_items xfd (se_bad_fd S) rv ?buffer (extras sv b) (fences sv f)" by blast
  from args(2) rr have req: "c_RequestBuffer ?T k True bd config [] cr cl sv = (K reply, ?sv)" by simp
  from reply obtain p1 where 1: "ReadInt32 ?P reply = (GSERROR_OK, p1)" "view p1 = buffer_items xfd (rsequence rv) ?buffer @
      extra_items (extras sv b) @ fence_items xfd (se_bad_fd S) (fences sv f) @ [P_Int32Vector (rdeletingBuffers rv)]"
    using read_Int32 [OF F, of reply "word_of_int GSERROR_OK"] by (auto simp: request_reply_items_def sint_int32)
  from read_SurfaceBufferImpl [OF F 1(2) t(1,3)] obtain p2 where 2: "ReadSurfaceBufferImpl ?P k True bd (cr_buffer cr) p1 =
      (rsequence rv, (case ?buffer of None \<Rightarrow> cr_buffer cr | Some sb \<Rightarrow> Some (received_buffer k xfd bd (rsequence rv) sb)), p2)"
    "view p2 = extra_items (extras sv b) @ fence_items xfd (se_bad_fd S) (fences sv f) @ [P_Int32Vector (rdeletingBuffers rv)]"
    by blast
  from read_extra_map [OF F 2(2) t(2)] obtain p3 where 3: "ReadFromParcel ?P p2 [] = (GSERROR_OK, extras sv b, p3)"
    "view p3 = fence_items xfd (se_bad_fd S) (fences sv f) @ [P_Int32Vector (rdeletingBuffers rv)]" by blast
  from read_fence [OF F 3(2) t(4), of "invalidFenceFd cl"] obtain p4 where 4:
    "fence_ReadFromMessageParcel ?P (invalidFenceFd cl) p3 =
      (if 0 \<le> fences sv f \<and> \<not> se_bad_fd S (fences sv f) then xfd (fences sv f) else invalidFenceFd cl, p4)"
    "view p4 = [P_Int32Vector (rdeletingBuffers rv)]" by blast
  from fifo_read [OF F 4(2), of K_Int32Vector] obtain p5 where 5: "ReadInt32Vector ?P p4 = (Some (rdeletingBuffers rv), p5)"
    by (auto simp: ReadInt32Vector_def)
  show ?thesis unfolding req K_def by (simp add: 1(1) 2(1) 3(1) 4(1) 5 client_result_def)
qed

end
