(* ===== verification/Producer_Surface.thy ===== *)
theory Producer_Surface
  imports Buffer_Client_Producer
begin

text \<open>
  \<open>ProducerSurface\<close> (\<open>frameworks/surface/src/producer_surface.cpp\<close>), the object an application draws
  through. It holds an \<open>IBufferProducer\<close>, local or remote, and the buffers it has been given.

  \<open>producer_if\<close> is that interface over a world \<open>'w\<close>: \<open>'b\<close> are the pointers to buffers of the process,
  \<open>'x\<close> its extra data, \<open>'f\<close> its fences and \<open>'e\<close> the faults of a local queue. \<open>remote_if\<close> is the
  interface of a \<open>BufferClientProducer\<close> behind a stub.
\<close>

record ('b, 'x, 'f) request_answer =
  ra_sequence :: int
  ra_buffer :: "'b option"
  ra_fence :: 'f
  ra_deletingBuffers :: "int list"
  ra_extra :: 'x

record ('e, 'w, 'b, 'x, 'f) producer_if =
  if_RequestBuffer :: "buffer_request_config \<Rightarrow> 'w \<Rightarrow> 'e + (gserror \<times> ('b, 'x, 'f) request_answer) \<times> 'w"
  if_CancelBuffer :: "int \<Rightarrow> 'x \<Rightarrow> 'w \<Rightarrow> 'e + gserror \<times> 'w"
  if_FlushBuffer :: "int \<Rightarrow> 'x \<Rightarrow> 'f \<Rightarrow> buffer_flush_config \<Rightarrow> 'w \<Rightarrow> 'e + gserror \<times> 'w"
  if_AttachBuffer :: "'b \<Rightarrow> 'w \<Rightarrow> 'e + gserror \<times> 'w"
  if_DetachBuffer :: "'b \<Rightarrow> 'w \<Rightarrow> 'e + gserror \<times> 'w"
  if_GetQueueSize :: "'w \<Rightarrow> 32 word \<times> 'w"
  if_SetQueueSize :: "32 word \<Rightarrow> 'w \<Rightarrow> 'e + gserror \<times> 'w"
  if_GetNameAndUniqueId :: "'w \<Rightarrow> (gserror \<times> (string \<times> 64 word) option) \<times> 'w"
  if_GetDefaultWidth :: "'w \<Rightarrow> int \<times> 'w"
  if_GetDefaultHeight :: "'w \<Rightarrow> int \<times> 'w"
  if_GetDefaultUsage :: "'w \<Rightarrow> 32 word \<times> 'w"
  if_CleanCache :: "'w \<Rightarrow> 'e + gserror \<times> 'w"
  if_RegisterReleaseListener :: "nat option \<Rightarrow> 'w \<Rightarrow> 'e + gserror \<times> 'w"
  if_SetTransform :: "int \<Rightarrow> 'w \<Rightarrow> 'e + gserror \<times> 'w"
  if_IsSupportedAlloc :: "verify_alloc_info list \<Rightarrow> 'w \<Rightarrow> (gserror \<times> bool list option) \<times> 'w"
  if_Disconnect :: "'w \<Rightarrow> 'e + gserror \<times> 'w"
  if_IsProxyObject :: bool
  b_GetSeqNum :: "'b \<Rightarrow> 'w \<Rightarrow> int"
  b_GetExtraData :: "'b \<Rightarrow> 'w \<Rightarrow> 'x"
  b_SetExtraData :: "'b \<Rightarrow> 'x \<Rightarrow> 'w \<Rightarrow> 'w"
  b_InvalidateCache :: "'b \<Rightarrow> 'w \<Rightarrow> gserror \<times> 'w"
  f_new :: "int \<Rightarrow> 'w \<Rightarrow> 'f \<times> 'w"
  f_Dup :: "'f \<Rightarrow> 'w \<Rightarrow> int"

record 'b producer_surface =
  bufferProducerCache :: "(int, 'b) omap"
  psInited :: bool
  psName :: string
  queueId :: "64 word"
  psUserData :: "(string, string) omap"

definition new_ProducerSurface :: "'b producer_surface" where
  "new_ProducerSurface = \<lparr>bufferProducerCache = [], psInited = False, psName = ''not init'', queueId = 0, psUserData = []\<rparr>"

definition ps_Init :: "('e, 'w, 'b, 'x, 'f) producer_if \<Rightarrow> 'b producer_surface \<Rightarrow> 'w \<Rightarrow> gserror \<times> 'b producer_surface \<times> 'w" where
  "ps_Init I ps w =
     (if psInited ps then (GSERROR_OK, ps, w)
      else
        (let ((_, nu), w) = if_GetNameAndUniqueId I w;
             ps = (case nu of None \<Rightarrow> ps | Some (nm, uid) \<Rightarrow> ps\<lparr>psName := nm, queueId := uid\<rparr>)
         in (GSERROR_OK, ps\<lparr>psInited := True\<rparr>, w)))"

text \<open>The destructor.\<close>

definition ps_destroy :: "('e, 'w, 'b, 'x, 'f) producer_if \<Rightarrow> 'w \<Rightarrow> 'e + gserror \<times> 'w" where
  "ps_destroy I w = if_Disconnect I w"

section \<open>Buffers\<close>

fun erase_all :: "int list \<Rightarrow> (int, 'b) omap \<Rightarrow> (int, 'b) omap" where
  "erase_all [] m = m"
| "erase_all (s # ss) m = erase_all ss (om_del s m)"

text \<open>The buffer of an answer: the one it carries, or the one kept under its number.\<close>

definition ps_lookup :: "('b, 'x, 'f) request_answer \<Rightarrow> 'b producer_surface \<Rightarrow> 'b option \<times> 'b producer_surface" where
  "ps_lookup a ps =
     (case ra_buffer a of
        Some b \<Rightarrow> (Some b, ps\<lparr>bufferProducerCache := om_put (ra_sequence a) b (bufferProducerCache ps)\<rparr>)
      | None \<Rightarrow> (map_of (bufferProducerCache ps) (ra_sequence a), ps))"

definition ps_RequestBuffer ::
    "('e, 'w, 'b, 'x, 'f) producer_if \<Rightarrow> display_consts \<Rightarrow> buffer_request_config \<Rightarrow> 'b producer_surface \<Rightarrow> 'w \<Rightarrow>
     'e + (gserror \<times> ('b \<times> 'f) option) \<times> 'b producer_surface \<times> 'w" where
  "ps_RequestBuffer I k config ps w =
     (case if_RequestBuffer I config w of
        Inl e \<Rightarrow> Inl e
      | Inr ((ret, a), w) \<Rightarrow>
          (if gs_ne ret GSERROR_OK then Inr ((ret, None), ps, w)
           else
             (case ps_lookup a ps of
                (None, ps) \<Rightarrow> Inr ((GSERROR_API_FAILED, None), ps, w)
              | (Some buffer, ps) \<Rightarrow>
                  (let w = (if and (word_of_int (usage config) :: 32 word) (HBM_USE_CPU_WRITE k) \<noteq> 0
                            then snd (b_InvalidateCache I buffer w) else w);
                       w = b_SetExtraData I buffer (ra_extra a) w;
                       ps = ps\<lparr>bufferProducerCache := erase_all (ra_deletingBuffers a) (bufferProducerCache ps)\<rparr>
                   in Inr ((GSERROR_OK, Some (buffer, ra_fence a)), ps, w)))))"

definition ps_FlushBuffer ::
    "('e, 'w, 'b, 'x, 'f) producer_if \<Rightarrow> 'b option \<Rightarrow> 'f \<Rightarrow> buffer_flush_config \<Rightarrow> 'w \<Rightarrow> 'e + gserror \<times> 'w" where
  "ps_FlushBuffer I buffer fence config w =
     (case buffer of None \<Rightarrow> Inr (GSERROR_INVALID_ARGUMENTS, w)
      | Some b \<Rightarrow> if_FlushBuffer I (b_GetSeqNum I b w) (b_GetExtraData I b w) fence config w)"

definition ps_AcquireBuffer :: gserror where "ps_AcquireBuffer = GSERROR_NOT_SUPPORT"
definition ps_ReleaseBuffer :: gserror where "ps_ReleaseBuffer = GSERROR_NOT_SUPPORT"

text \<open>The overloads with a descriptor instead of a fence.\<close>

definition ps_RequestBuffer_fd ::
    "('e, 'w, 'b, 'x, 'f) producer_if \<Rightarrow> display_consts \<Rightarrow> buffer_request_config \<Rightarrow> 'b producer_surface \<Rightarrow> 'w \<Rightarrow>
     'e + (gserror \<times> 'b option \<times> int) \<times> 'b producer_surface \<times> 'w" where
  "ps_RequestBuffer_fd I k config ps w =
     (case ps_RequestBuffer I k config ps w of
        Inl e \<Rightarrow> Inl e
      | Inr ((ret, None), ps, w) \<Rightarrow> Inr ((ret, None, -1), ps, w)
      | Inr ((ret, Some (b, f)), ps, w) \<Rightarrow>
          (if gs_ne ret GSERROR_OK then Inr ((ret, Some b, -1), ps, w)
           else Inr ((GSERROR_OK, Some b, f_Dup I f w), ps, w)))"

definition ps_FlushBuffer_fd ::
    "('e, 'w, 'b, 'x, 'f) producer_if \<Rightarrow> 'b option \<Rightarrow> int \<Rightarrow> buffer_flush_config \<Rightarrow> 'w \<Rightarrow> 'e + gserror \<times> 'w" where
  "ps_FlushBuffer_fd I buffer fence config w =
     (let (syncFence, w) = f_new I fence w in ps_FlushBuffer I buffer syncFence config w)"

definition ps_CancelBuffer :: "('e, 'w, 'b, 'x, 'f) producer_if \<Rightarrow> 'b option \<Rightarrow> 'w \<Rightarrow> 'e + gserror \<times> 'w" where
  "ps_CancelBuffer I buffer w =
     (case buffer of None \<Rightarrow> Inr (GSERROR_INVALID_ARGUMENTS, w)
      | Some b \<Rightarrow> if_CancelBuffer I (b_GetSeqNum I b w) (b_GetExtraData I b w) w)"

definition ps_AttachBuffer :: "('e, 'w, 'b, 'x, 'f) producer_if \<Rightarrow> 'b option \<Rightarrow> 'w \<Rightarrow> 'e + gserror \<times> 'w" where
  "ps_AttachBuffer I buffer w =
     (case buffer of None \<Rightarrow> Inr (GSERROR_INVALID_ARGUMENTS, w) | Some b \<Rightarrow> if_AttachBuffer I b w)"

definition ps_DetachBuffer :: "('e, 'w, 'b, 'x, 'f) producer_if \<Rightarrow> 'b option \<Rightarrow> 'w \<Rightarrow> 'e + gserror \<times> 'w" where
  "ps_DetachBuffer I buffer w =
     (case buffer of None \<Rightarrow> Inr (GSERROR_INVALID_ARGUMENTS, w) | Some b \<Rightarrow> if_DetachBuffer I b w)"

section \<open>Settings\<close>

definition ps_GetQueueSize :: "('e, 'w, 'b, 'x, 'f) producer_if \<Rightarrow> 'w \<Rightarrow> 32 word \<times> 'w" where
  "ps_GetQueueSize I = if_GetQueueSize I"
definition ps_SetQueueSize :: "('e, 'w, 'b, 'x, 'f) producer_if \<Rightarrow> 32 word \<Rightarrow> 'w \<Rightarrow> 'e + gserror \<times> 'w" where
  "ps_SetQueueSize I = if_SetQueueSize I"
definition ps_GetName :: "'b producer_surface \<Rightarrow> string" where "ps_GetName ps = psName ps"
definition ps_SetDefaultWidthAndHeight :: gserror where "ps_SetDefaultWidthAndHeight = GSERROR_NOT_SUPPORT"
definition ps_GetDefaultWidth :: "('e, 'w, 'b, 'x, 'f) producer_if \<Rightarrow> 'w \<Rightarrow> int \<times> 'w" where
  "ps_GetDefaultWidth I = if_GetDefaultWidth I"
definition ps_GetDefaultHeight :: "('e, 'w, 'b, 'x, 'f) producer_if \<Rightarrow> 'w \<Rightarrow> int \<times> 'w" where
  "ps_GetDefaultHeight I = if_GetDefaultHeight I"
definition ps_SetDefaultUsage :: gserror where "ps_SetDefaultUsage = GSERROR_NOT_SUPPORT"
definition ps_GetDefaultUsage :: "('e, 'w, 'b, 'x, 'f) producer_if \<Rightarrow> 'w \<Rightarrow> 32 word \<times> 'w" where
  "ps_GetDefaultUsage I = if_GetDefaultUsage I"

definition ps_SetUserData :: "string \<Rightarrow> string \<Rightarrow> 'b producer_surface \<Rightarrow> gserror \<times> 'b producer_surface" where
  "ps_SetUserData key val ps =
     (if length (psUserData ps) \<ge> SURFACE_MAX_USER_DATA_COUNT then (GSERROR_OUT_OF_RANGE, ps)
      else (GSERROR_OK, ps\<lparr>psUserData := om_put key val (psUserData ps)\<rparr>))"

definition ps_GetUserData :: "string \<Rightarrow> 'b producer_surface \<Rightarrow> string" where
  "ps_GetUserData key ps = (case map_of (psUserData ps) key of Some val \<Rightarrow> val | None \<Rightarrow> '''')"

definition ps_RegisterConsumerListener :: gserror where "ps_RegisterConsumerListener = GSERROR_NOT_SUPPORT"
definition ps_RegisterConsumerListenerClazz :: gserror where "ps_RegisterConsumerListenerClazz = GSERROR_NOT_SUPPORT"
definition ps_UnregisterConsumerListener :: gserror where "ps_UnregisterConsumerListener = GSERROR_NOT_SUPPORT"
definition ps_RegisterReleaseListener :: "('e, 'w, 'b, 'x, 'f) producer_if \<Rightarrow> nat option \<Rightarrow> 'w \<Rightarrow> 'e + gserror \<times> 'w" where
  "ps_RegisterReleaseListener I = if_RegisterReleaseListener I"
definition ps_RegisterDeleteBufferListener :: gserror where "ps_RegisterDeleteBufferListener = GSERROR_NOT_SUPPORT"

definition ps_CleanCache ::
    "('e, 'w, 'b, 'x, 'f) producer_if \<Rightarrow> 'b producer_surface \<Rightarrow> 'w \<Rightarrow> 'b producer_surface \<times> ('e + gserror \<times> 'w)" where
  "ps_CleanCache I ps w =
     (let ps = (if if_IsProxyObject I then ps\<lparr>bufferProducerCache := []\<rparr> else ps) in (ps, if_CleanCache I w))"

definition ps_GetUniqueId :: "'b producer_surface \<Rightarrow> 64 word" where "ps_GetUniqueId ps = queueId ps"
definition ps_SetTransform :: "('e, 'w, 'b, 'x, 'f) producer_if \<Rightarrow> int \<Rightarrow> 'w \<Rightarrow> 'e + gserror \<times> 'w" where
  "ps_SetTransform I = if_SetTransform I"
definition ps_GetTransform :: "display_consts \<Rightarrow> int" where "ps_GetTransform k = ROTATE_BUTT k"

definition ps_IsSupportedAlloc ::
    "('e, 'w, 'b, 'x, 'f) producer_if \<Rightarrow> verify_alloc_info list \<Rightarrow> bool list \<Rightarrow> 'w \<Rightarrow> (gserror \<times> bool list option) \<times> 'w" where
  "ps_IsSupportedAlloc I infos supporteds w =
     (if length infos = 0 \<or> length infos \<noteq> length supporteds then ((GSERROR_INVALID_ARGUMENTS, None), w)
      else if_IsSupportedAlloc I infos w)"

section \<open>The interface of a remote producer\<close>

text \<open>A fence of the client's process: the shared object \<open>INVALID_FENCE\<close>, or one of its own.\<close>

datatype client_fence = SharedFence | OwnFence int

fun fence_fd :: "buffer_client \<Rightarrow> client_fence \<Rightarrow> int" where
  "fence_fd c SharedFence = invalidFenceFd c"
| "fence_fd c (OwnFence fd) = fd"

text \<open>
  The world of a remote producer: its client object, the buffer objects of its process, the extra data
  of each, the descriptors of its fences, and the server's process. \<open>rg\<close> is the driver as the process of
  the client sees it, \<open>rbad\<close> and \<open>rdup\<close> its kernel.
\<close>

record remote_world =
  rw_client :: buffer_client
  rw_objs :: "surface_buffer list"
  rw_extras :: "nat \<Rightarrow> extra_map"
  rw_server :: server

definition lift_call :: "(server \<Rightarrow> 'a \<times> server) \<Rightarrow> remote_world \<Rightarrow> 'a \<times> remote_world" where
  "lift_call f w = (let (x, sv) = f (rw_server w) in (x, w\<lparr>rw_server := sv\<rparr>))"

definition lift_client :: "(buffer_client \<Rightarrow> server \<Rightarrow> ('a \<times> 'c \<times> buffer_client) \<times> server) \<Rightarrow> remote_world \<Rightarrow> ('a \<times> 'c) \<times> remote_world" where
  "lift_client f w = (let ((x, y, c), sv) = f (rw_client w) (rw_server w) in ((x, y), w\<lparr>rw_client := c, rw_server := sv\<rparr>))"

definition remote_request ::
    "('p, server) transport \<Rightarrow> display_consts \<Rightarrow> buffer_request_config \<Rightarrow> remote_world \<Rightarrow>
     (gserror \<times> (nat, extra_map, client_fence) request_answer) \<times> remote_world" where
  "remote_request T k config w =
     (let n = length (rw_objs w); retval = \<lparr>cr_sequence = 0, cr_buffer = None, cr_deletingBuffers = []\<rparr>;
          ((ret, retval, datas, c), sv) = c_RequestBuffer T k True n config [] retval (rw_client w) (rw_server w);
          w = w\<lparr>rw_client := c, rw_server := sv\<rparr>;
          w = (case cr_buffer retval of None \<Rightarrow> w | Some sb \<Rightarrow> w\<lparr>rw_objs := rw_objs w @ [sb], rw_extras := (rw_extras w)(n := [])\<rparr>)
      in ((ret, \<lparr>ra_sequence = cr_sequence retval, ra_buffer = map_option (\<lambda>_. n) (cr_buffer retval),
                ra_fence = SharedFence, ra_deletingBuffers = cr_deletingBuffers retval, ra_extra = datas\<rparr>), w))"

definition remote_if ::
    "('p, server) transport \<Rightarrow> display_consts \<Rightarrow> gralloc \<Rightarrow> (int \<Rightarrow> bool) \<Rightarrow> (int \<Rightarrow> int) \<Rightarrow>
     (bq_fault, remote_world, nat, extra_map, client_fence) producer_if" where
  "remote_if T k rg rbad rdup =
     \<lparr>if_RequestBuffer = (\<lambda>config w. Inr (remote_request T k config w)),
      if_CancelBuffer = (\<lambda>s x w. Inr (lift_call (c_CancelBuffer T s x) w)),
      if_FlushBuffer = (\<lambda>s x f config w. Inr (lift_call (c_FlushBuffer T rbad s x (fence_fd (rw_client w) f) config) w)),
      if_AttachBuffer = (\<lambda>b w. Inr (c_AttachBuffer, w)), if_DetachBuffer = (\<lambda>b w. Inr (c_DetachBuffer, w)),
      if_GetQueueSize = lift_call (c_GetQueueSize T), if_SetQueueSize = (\<lambda>n w. Inr (lift_call (c_SetQueueSize T n) w)),
      if_GetNameAndUniqueId = lift_client (c_GetNameAndUniqueId T),
      if_GetDefaultWidth = lift_call (c_GetDefaultWidth T), if_GetDefaultHeight = lift_call (c_GetDefaultHeight T),
      if_GetDefaultUsage = lift_call (c_GetDefaultUsage T),
      if_CleanCache = (\<lambda>w. Inr (lift_call (c_CleanCache T) w)),
      if_RegisterReleaseListener = (\<lambda>f w. Inr (c_RegisterReleaseListener, w)),
      if_SetTransform = (\<lambda>t w. Inr (lift_call (c_SetTransform T t) w)),
      if_IsSupportedAlloc = (\<lambda>vs w. lift_call (c_IsSupportedAlloc T vs) w),
      if_Disconnect = (\<lambda>w. Inr (lift_call (c_Disconnect T) w)),
      if_IsProxyObject = True,
      b_GetSeqNum = (\<lambda>b w. sequenceNumber (rw_objs w ! b)), b_GetExtraData = (\<lambda>b w. rw_extras w b),
      b_SetExtraData = (\<lambda>b x w. w\<lparr>rw_extras := (rw_extras w)(b := x)\<rparr>),
      b_InvalidateCache = (\<lambda>b w. (sb_InvalidateCache rg 0 (rw_objs w ! b), w)),
      f_new = (\<lambda>fd w. (OwnFence fd, w)), f_Dup = (\<lambda>f w. rdup (fence_fd (rw_client w) f))\<rparr>"

end
