(* ===== verification/Producer_Tables.thy ===== *)
theory Producer_Tables
  imports Producer_Remote Producer_Surface
begin

text \<open>
  The two tables of \<open>BufferQueueProducer::RequestBuffer\<close> and the buffers a \<open>ProducerSurface\<close> keeps: the server
  sends a buffer to a process once, and the surface of that process finds it under its number later.

  \<open>tables_ok\<close>: the server's table knows the object of every buffer in the queue. \<open>covered\<close>: the surface has
  every buffer that counts as sent to its process.
\<close>

definition tables_ok :: "buffer_queue \<Rightarrow> request_tables \<Rightarrow> bool" where
  "tables_ok q tb \<longleftrightarrow> (\<forall>s e. map_of (bufferQueueCache q) s = Some e \<longrightarrow> map_of (pcache tb) s = Some (ebuffer e))"

definition deleted_gone :: "buffer_queue \<Rightarrow> bool" where
  "deleted_gone q \<longleftrightarrow> (\<forall>d \<in> set (deletingList q). map_of (bufferQueueCache q) d = None \<and> d < seqCounter q)"

text \<open>What the code relies on in \<open>wptr::promote\<close>: an object that the queue holds is alive.\<close>

definition promote_ok :: "(buffer_queue \<Rightarrow> nat \<Rightarrow> buffer_ref) \<Rightarrow> bool" where
  "promote_ok promote \<longleftrightarrow> (\<forall>q s e r. map_of (bufferQueueCache q) s = Some e \<longrightarrow> ebuffer e = Some r \<longrightarrow> promote q r = Some r)"

definition covered :: "int \<Rightarrow> request_tables \<Rightarrow> 'b producer_surface \<Rightarrow> bool" where
  "covered pid tb ps \<longleftrightarrow> (\<forall>s \<in> sended_of pid tb. map_of (bufferProducerCache ps) s \<noteq> None)"

lemma sended_of_upd [simp]: "sended_of p (upd_sended pid f tb) = (if p = pid then f (sended_of pid tb) else sended_of p tb)"
  by (simp add: sended_of_def upd_sended_def)

lemma sended_of_pcache [simp]: "sended_of p (tb\<lparr>pcache := c\<rparr>) = sended_of p tb"
  by (simp add: sended_of_def)

lemma pcache_upd [simp]: "pcache (upd_sended pid f tb) = pcache tb"
  by (simp add: upd_sended_def)

lemma forget_sended: "sended_of p (forget_deleted pid bs tb) = (if p = pid then sended_of pid tb - set bs else sended_of p tb)"
  by (induction pid bs tb rule: forget_deleted.induct) auto

lemma forget_pcache: "map_of (pcache (forget_deleted pid bs tb)) s = (if s \<in> set bs then None else map_of (pcache tb) s)"
  by (induction pid bs tb rule: forget_deleted.induct) auto

lemma map_of_erase_all: "map_of (erase_all ss m) s = (if s \<in> set ss then None else map_of m s)"
  by (induction ss m rule: erase_all.induct) auto

section \<open>The server's step\<close>

text \<open>
  \<open>request_lookup\<close> for a caller of another process, when the table knows the buffer that was reused: the
  caller is given no buffer only when it was sent already.
\<close>

lemma lookup_remote:
  assumes l: "request_lookup promote self pid rv0 tb = (rv, tb1)" and ne: "pid \<noteq> self"
    and reused: "rbuffer rv0 = None \<Longrightarrow> \<exists>r. map_of (pcache tb) (rsequence rv0) = Some (Some r) \<and> promote r = Some r"
  shows "rsequence rv = rsequence rv0 \<and> rdeletingBuffers rv = rdeletingBuffers rv0 \<and>
    (rbuffer rv = None \<longrightarrow> rsequence rv0 \<in> sended_of pid tb) \<and>
    sended_of pid tb1 = insert (rsequence rv0) (sended_of pid tb) \<and>
    (\<forall>s. map_of (pcache tb1) s = (if s = rsequence rv0 \<and> rbuffer rv0 \<noteq> None then Some (rbuffer rv0) else map_of (pcache tb) s)) \<and>
    (rbuffer rv \<noteq> None \<longrightarrow> map_of (pcache tb1) (rsequence rv0) = Some (rbuffer rv))"
proof (cases "rbuffer rv0 = None")
  case False
  with l show ?thesis by (auto simp: request_lookup_def Let_def)
next
  case True
  then obtain r where r: "map_of (pcache tb) (rsequence rv0) = Some (Some r)" "promote r = Some r" using reused by blast
  with l ne True show ?thesis
    by (auto simp: request_lookup_def promote_cached_def Let_def insert_absorb split: if_splits)
qed

lemma request_server:
  assumes q: "bufferQueue pr = Some q" and ok: "\<And>q0. q0 \<in> {q, wait q} \<Longrightarrow> bq_inv q0 \<and> tables_ok q0 tb \<and> deleted_gone q0"
    and pm: "promote_ok promote" and ne: "pid \<noteq> self"
    and r: "p_RequestBuffer env promote wait self pid config tb pr = Inr (GSERROR_OK, bd, rv, tb', pr')"
  shows "\<exists>q'. bufferQueue pr' = Some q' \<and> bq_inv q' \<and> tables_ok q' tb' \<and>
    (rbuffer rv = None \<longrightarrow> rsequence rv \<in> sended_of pid tb) \<and>
    (rbuffer rv \<noteq> None \<longrightarrow> deref q' (rbuffer rv) \<noteq> None) \<and>
    sended_of pid tb' = insert (rsequence rv) (sended_of pid tb) - set (rdeletingBuffers rv)"
proof -
  obtain ret0 bd0 rv0 q' q0 where b: "bq_RequestBuffer env wait config q = Inr (ret0, bd0, rv0, q')"
    and q0: "q0 \<in> {q, wait q}" and post: "request_post config q0 ret0 rv0 q'"
    using RequestBuffer_post [of q wait env config] ok by blast
  have g: "GSERROR_INVALID_OPERATING \<noteq> GSERROR_OK" by (simp add: gs)
  obtain tb1 where l: "request_lookup (promote q') self pid rv0 tb = (rv, tb1)" and ret0: "ret0 = GSERROR_OK"
    and tb': "tb' = forget_deleted pid (rdeletingBuffers rv) tb1" and pr': "bufferQueue pr' = Some q'"
    using r q b g by (auto simp: p_RequestBuffer_def Let_def split: if_splits prod.splits)
  let ?s = "rsequence rv0"
  note o = ok [OF q0]
  obtain e' where e': "map_of (bufferQueueCache q') ?s = Some e'" and
    eb: "if rbuffer rv0 = None then Some (ebuffer e') = map_option ebuffer (map_of (bufferQueueCache q0) ?s)
         else ebuffer e' = rbuffer rv0 \<and> ?s = seqCounter q0" and inv': "bq_inv q'"
    and del: "\<forall>d \<in> set (rdeletingBuffers rv0). d \<in> set (deletingList q0) \<or> map_of (bufferQueueCache q') d = None"
    and frame: "\<And>s. s \<noteq> ?s \<Longrightarrow> map_of (bufferQueueCache q') s = map_of (bufferQueueCache q0) s \<or> map_of (bufferQueueCache q') s = None"
  proof -
    note post = post [unfolded request_post_def ret0]
    from post have p: "\<exists>e. map_of (bufferQueueCache q') ?s = Some e" "bq_inv q'" by auto
    from post have ebs: "if rbuffer rv0 = None
       then map_option ebuffer (map_of (bufferQueueCache q') ?s) = map_option ebuffer (map_of (bufferQueueCache q0) ?s)
       else map_option ebuffer (map_of (bufferQueueCache q') ?s) = Some (rbuffer rv0) \<and> ?s = seqCounter q0"
      by (simp only: gs_eq_refl simp_thms) (elim conjE, assumption)
    from post have dels: "\<forall>d \<in> set (rdeletingBuffers rv0). d \<in> set (deletingList q0) \<or> map_of (bufferQueueCache q') d = None"
      by (simp only: gs_eq_refl simp_thms) (elim conjE, assumption)
    from post have "\<forall>s. \<not> (gs_eq GSERROR_OK GSERROR_OK \<and> s = ?s) \<longrightarrow> map_of (bufferQueueCache q') s = map_of (bufferQueueCache q0) s \<or>
        (state_of q0 s = Some BUFFER_STATE_RELEASED \<and> map_of (bufferQueueCache q') s = None)"
      by - (elim conjE, assumption)
    then have fr: "\<And>s. s \<noteq> ?s \<Longrightarrow> map_of (bufferQueueCache q') s = map_of (bufferQueueCache q0) s \<or> map_of (bufferQueueCache q') s = None"
      by auto
    from p(1) obtain e where e: "map_of (bufferQueueCache q') ?s = Some e" ..
    show thesis by (rule that [OF e _ p(2) dels fr]) (use ebs e in \<open>auto split: if_splits\<close>)
  qed
  obtain i where i: "ebuffer e' = Some i" "i < length (objs q')" using inv_entry [OF inv' e'] by metis
  have reused: "\<exists>r. map_of (pcache tb) ?s = Some (Some r) \<and> promote q' r = Some r" if "rbuffer rv0 = None"
  proof -
    from that eb obtain e0 where "map_of (bufferQueueCache q0) ?s = Some e0" "ebuffer e0 = ebuffer e'"
      by (cases "map_of (bufferQueueCache q0) ?s") auto
    with o i(1) e' pm show ?thesis by (auto simp: tables_ok_def promote_ok_def)
  qed
  note L = lookup_remote [OF l ne reused]
  have known: "map_of (pcache tb1) ?s = Some (ebuffer e')"
  proof (cases "rbuffer rv0 = None")
    case True
    with eb obtain e0 where "map_of (bufferQueueCache q0) ?s = Some e0" "ebuffer e0 = ebuffer e'"
      by (cases "map_of (bufferQueueCache q0) ?s") auto
    with o True L show ?thesis by (auto simp: tables_ok_def)
  next
    case False
    with eb L show ?thesis by auto
  qed
  have gone: "map_of (bufferQueueCache q') d = None" if "d \<in> set (rdeletingBuffers rv0)" for d
  proof (cases "d \<in> set (deletingList q0)")
    case True
    with o have d: "map_of (bufferQueueCache q0) d = None" "d < seqCounter q0" by (auto simp: deleted_gone_def)
    with eb have "d \<noteq> ?s" by (auto split: if_splits)
    with frame d(1) show ?thesis by metis
  next
    case False
    with del that show ?thesis by blast
  qed
  have "tables_ok q' tb'"
    unfolding tables_ok_def
  proof (intro allI impI)
    fix s e assume s: "map_of (bufferQueueCache q') s = Some e"
    with gone have nd: "s \<notin> set (rdeletingBuffers rv0)" by auto
    show "map_of (pcache tb') s = Some (ebuffer e)"
    proof (cases "s = ?s")
      case True
      with s e' known nd L show ?thesis by (simp add: tb' forget_pcache)
    next
      case False
      with frame s have "map_of (bufferQueueCache q0) s = Some e" by fastforce
      with o False nd L show ?thesis by (simp add: tb' forget_pcache tables_ok_def)
    qed
  qed
  moreover have "deref q' (rbuffer rv) \<noteq> None" if "rbuffer rv \<noteq> None"
    using that L known i by (auto simp: deref_def)
  ultimately show ?thesis using pr' inv' L by (simp add: tb' forget_sended)
qed

section \<open>The surface's step\<close>

lemma ps_lookup_covered:
  assumes "covered pid tb ps" and "ra_buffer a = None \<Longrightarrow> ra_sequence a \<in> sended_of pid tb"
    and "sended_of pid tb' = insert (ra_sequence a) (sended_of pid tb) - set (ra_deletingBuffers a)"
  shows "\<exists>b ps1. ps_lookup a ps = (Some b, ps1) \<and>
    covered pid tb' (ps1\<lparr>bufferProducerCache := erase_all (ra_deletingBuffers a) (bufferProducerCache ps1)\<rparr>)"
  using assms by (cases "ra_buffer a") (auto simp: ps_lookup_def covered_def map_of_erase_all split: option.splits)

end
