(* ===== verification/Consumer_Surface.thy ===== *)
theory Consumer_Surface
  imports Producer_Surface
begin

text \<open>
  The consumer's side: \<open>BufferQueueConsumer\<close> (\<open>frameworks/surface/src/buffer_queue_consumer.cpp\<close>), which
  passes each call on to the queue it holds, and \<open>ConsumerSurface\<close>
  (\<open>frameworks/surface/src/consumer_surface.cpp\<close>), which owns the queue together with a producer and a
  consumer on it. \<open>producer_\<close> and \<open>consumer_\<close> share one queue: the record holds the producer, and the
  consumer is its queue.
\<close>

section \<open>The consumer\<close>

definition on_consumer :: "(buffer_queue \<Rightarrow> gserror \<times> buffer_queue) \<Rightarrow> buffer_queue option \<Rightarrow> gserror \<times> buffer_queue option" where
  "on_consumer f bq = (case bq of None \<Rightarrow> (GSERROR_INVALID_ARGUMENTS, None) | Some q \<Rightarrow> (let (ret, q) = f q in (ret, Some q)))"

definition bc_AcquireBuffer ::
    "bq_env \<Rightarrow> buffer_queue option \<Rightarrow> bq_fault + gserror \<times> (buffer_ref \<times> fence_ref \<times> int \<times> rect) option \<times> buffer_queue option" where
  "bc_AcquireBuffer env bq =
     (case bq of None \<Rightarrow> Inr (GSERROR_INVALID_ARGUMENTS, None, None)
      | Some q \<Rightarrow> (case bq_AcquireBuffer env q of Inl e \<Rightarrow> Inl e | Inr (ret, a, q) \<Rightarrow> Inr (ret, a, Some q)))"

definition bc_ReleaseBuffer :: "bq_env \<Rightarrow> buffer_ref \<Rightarrow> fence_ref \<Rightarrow> buffer_queue option \<Rightarrow> gserror \<times> buffer_queue option" where
  "bc_ReleaseBuffer env buffer fence = on_consumer (bq_ReleaseBuffer env buffer fence)"

definition bc_AttachBuffer :: "bq_env \<Rightarrow> buffer_ref \<Rightarrow> buffer_queue option \<Rightarrow> bq_fault + gserror \<times> buffer_queue option" where
  "bc_AttachBuffer env buffer bq =
     (case bq of None \<Rightarrow> Inr (GSERROR_INVALID_ARGUMENTS, None)
      | Some q \<Rightarrow> (case bq_AttachBuffer env buffer q of Inl e \<Rightarrow> Inl e | Inr (ret, q) \<Rightarrow> Inr (ret, Some q)))"

definition bc_DetachBuffer :: "buffer_ref \<Rightarrow> buffer_queue option \<Rightarrow> gserror \<times> buffer_queue option" where
  "bc_DetachBuffer buffer = on_consumer (bq_DetachBuffer buffer)"
definition bc_RegisterConsumerListener :: "nat option \<Rightarrow> buffer_queue option \<Rightarrow> gserror \<times> buffer_queue option" where
  "bc_RegisterConsumerListener l = on_consumer (bq_RegisterConsumerListener l)"
definition bc_RegisterConsumerListenerClazz :: "nat option \<Rightarrow> buffer_queue option \<Rightarrow> gserror \<times> buffer_queue option" where
  "bc_RegisterConsumerListenerClazz l = on_consumer (bq_RegisterConsumerListenerClazz l)"
definition bc_RegisterReleaseListener :: "nat option \<Rightarrow> buffer_queue option \<Rightarrow> gserror \<times> buffer_queue option" where
  "bc_RegisterReleaseListener func = on_consumer (bq_RegisterReleaseListener func)"
definition bc_RegisterDeleteBufferListener :: "nat option \<Rightarrow> buffer_queue option \<Rightarrow> gserror \<times> buffer_queue option" where
  "bc_RegisterDeleteBufferListener func = on_consumer (bq_RegisterDeleteBufferListener func)"
definition bc_UnregisterConsumerListener :: "buffer_queue option \<Rightarrow> gserror \<times> buffer_queue option" where
  "bc_UnregisterConsumerListener = on_consumer bq_UnregisterConsumerListener"
definition bc_SetDefaultWidthAndHeight :: "int \<Rightarrow> int \<Rightarrow> buffer_queue option \<Rightarrow> gserror \<times> buffer_queue option" where
  "bc_SetDefaultWidthAndHeight w h = on_consumer (bq_SetDefaultWidthAndHeight w h)"
definition bc_SetDefaultUsage :: "32 word \<Rightarrow> buffer_queue option \<Rightarrow> gserror \<times> buffer_queue option" where
  "bc_SetDefaultUsage u = on_consumer (bq_SetDefaultUsage u)"
definition bc_GetTransform :: "display_consts \<Rightarrow> buffer_queue option \<Rightarrow> int" where
  "bc_GetTransform k bq = (case bq of None \<Rightarrow> ROTATE_BUTT k | Some q \<Rightarrow> qtransform q)"

section \<open>The surface\<close>

record consumer_surface =
  csName :: string
  csProducer :: producer
  csUserData :: "(string, string) omap"
  csFences :: "nat \<Rightarrow> int"

text \<open>Constructor and \<open>Init\<close>; \<open>uid\<close> is the unique id the queue takes.\<close>

definition new_ConsumerSurface :: "display_consts \<Rightarrow> string \<Rightarrow> bool \<Rightarrow> 64 word \<Rightarrow> (nat \<Rightarrow> int) \<Rightarrow> consumer_surface" where
  "new_ConsumerSurface k nm shared uid fds =
     \<lparr>csName = nm, csProducer = new_BufferQueueProducer (Some (new_BufferQueue k nm shared uid)),
      csUserData = [], csFences = fds\<rparr>"

definition with_queue :: "(buffer_queue option \<Rightarrow> gserror \<times> buffer_queue option) \<Rightarrow> consumer_surface \<Rightarrow> gserror \<times> consumer_surface" where
  "with_queue f cs =
     (let (ret, bq) = f (bufferQueue (csProducer cs)) in (ret, cs\<lparr>csProducer := (csProducer cs)\<lparr>bufferQueue := bq\<rparr>\<rparr>))"

definition with_producer ::
    "(producer \<Rightarrow> bq_fault + gserror \<times> producer) \<Rightarrow> consumer_surface \<Rightarrow> bq_fault + gserror \<times> consumer_surface" where
  "with_producer f cs = (case f (csProducer cs) of Inl e \<Rightarrow> Inl e | Inr (ret, pr) \<Rightarrow> Inr (ret, cs\<lparr>csProducer := pr\<rparr>))"

definition cs_RequestBuffer :: gserror where "cs_RequestBuffer = GSERROR_NOT_SUPPORT"
definition cs_RequestBuffer_fd :: gserror where "cs_RequestBuffer_fd = GSERROR_NOT_SUPPORT"
definition cs_FlushBuffer :: gserror where "cs_FlushBuffer = GSERROR_NOT_SUPPORT"
definition cs_FlushBuffer_fd :: gserror where "cs_FlushBuffer_fd = GSERROR_NOT_SUPPORT"
definition cs_CancelBuffer :: gserror where "cs_CancelBuffer = GSERROR_NOT_SUPPORT"
definition cs_IsSupportedAlloc :: gserror where "cs_IsSupportedAlloc = GSERROR_NOT_SUPPORT"

definition cs_AcquireBuffer ::
    "bq_env \<Rightarrow> consumer_surface \<Rightarrow> bq_fault + gserror \<times> (buffer_ref \<times> fence_ref \<times> int \<times> rect) option \<times> consumer_surface" where
  "cs_AcquireBuffer env cs =
     (case bc_AcquireBuffer env (bufferQueue (csProducer cs)) of
        Inl e \<Rightarrow> Inl e
      | Inr (ret, a, bq) \<Rightarrow> Inr (ret, a, cs\<lparr>csProducer := (csProducer cs)\<lparr>bufferQueue := bq\<rparr>\<rparr>))"

text \<open>
  The overload with a descriptor: a duplicate of the fence's, or -1. \<open>syncFence\<close> may be null when
  the buffer was attached.
\<close>

definition cs_AcquireBuffer_fd ::
    "bq_env \<Rightarrow> (int \<Rightarrow> int) \<Rightarrow> consumer_surface \<Rightarrow> bq_fault + gserror \<times> int \<times> (buffer_ref \<times> int \<times> rect) option \<times> consumer_surface" where
  "cs_AcquireBuffer_fd env dup_fd cs =
     (case cs_AcquireBuffer env cs of
        Inl e \<Rightarrow> Inl e
      | Inr (ret, a, cs) \<Rightarrow>
          (if gs_ne ret GSERROR_OK then Inr (ret, -1, map_option (\<lambda>(b, f, t, d). (b, t, d)) a, cs)
           else case a of
             Some (b, Some f, t, d) \<Rightarrow> Inr (GSERROR_OK, dup_fd (csFences cs f), Some (b, t, d), cs)
           | _ \<Rightarrow> Inl NullDeref))"

definition cs_ReleaseBuffer :: "bq_env \<Rightarrow> buffer_ref \<Rightarrow> fence_ref \<Rightarrow> consumer_surface \<Rightarrow> gserror \<times> consumer_surface" where
  "cs_ReleaseBuffer env buffer fence = with_queue (bc_ReleaseBuffer env buffer fence)"

text \<open>\<open>new SyncFence(fence)\<close> is the object numbered \<open>n\<close>.\<close>

definition cs_ReleaseBuffer_fd :: "bq_env \<Rightarrow> nat \<Rightarrow> buffer_ref \<Rightarrow> int \<Rightarrow> consumer_surface \<Rightarrow> gserror \<times> consumer_surface" where
  "cs_ReleaseBuffer_fd env n buffer fence cs =
     cs_ReleaseBuffer env buffer (Some n) (cs\<lparr>csFences := (csFences cs)(n := fence)\<rparr>)"

definition cs_AttachBuffer :: "bq_env \<Rightarrow> buffer_ref \<Rightarrow> consumer_surface \<Rightarrow> bq_fault + gserror \<times> consumer_surface" where
  "cs_AttachBuffer env buffer cs =
     (case bc_AttachBuffer env buffer (bufferQueue (csProducer cs)) of
        Inl e \<Rightarrow> Inl e
      | Inr (ret, bq) \<Rightarrow> Inr (ret, cs\<lparr>csProducer := (csProducer cs)\<lparr>bufferQueue := bq\<rparr>\<rparr>))"
definition cs_DetachBuffer :: "buffer_ref \<Rightarrow> consumer_surface \<Rightarrow> gserror \<times> consumer_surface" where
  "cs_DetachBuffer buffer = with_queue (bc_DetachBuffer buffer)"

definition cs_GetQueueSize :: "consumer_surface \<Rightarrow> 32 word" where "cs_GetQueueSize cs = p_GetQueueSize (csProducer cs)"
definition cs_SetQueueSize :: "32 word \<Rightarrow> consumer_surface \<Rightarrow> bq_fault + gserror \<times> consumer_surface" where
  "cs_SetQueueSize n = with_producer (p_SetQueueSize n)"
definition cs_GetName :: "consumer_surface \<Rightarrow> string" where "cs_GetName cs = csName cs"
definition cs_SetDefaultWidthAndHeight :: "int \<Rightarrow> int \<Rightarrow> consumer_surface \<Rightarrow> gserror \<times> consumer_surface" where
  "cs_SetDefaultWidthAndHeight w h = with_queue (bc_SetDefaultWidthAndHeight w h)"
definition cs_GetDefaultWidth :: "consumer_surface \<Rightarrow> int" where "cs_GetDefaultWidth cs = p_GetDefaultWidth (csProducer cs)"
definition cs_GetDefaultHeight :: "consumer_surface \<Rightarrow> int" where "cs_GetDefaultHeight cs = p_GetDefaultHeight (csProducer cs)"
definition cs_SetDefaultUsage :: "32 word \<Rightarrow> consumer_surface \<Rightarrow> gserror \<times> consumer_surface" where
  "cs_SetDefaultUsage u = with_queue (bc_SetDefaultUsage u)"
definition cs_GetDefaultUsage :: "consumer_surface \<Rightarrow> 32 word" where "cs_GetDefaultUsage cs = p_GetDefaultUsage (csProducer cs)"

definition cs_SetUserData :: "string \<Rightarrow> string \<Rightarrow> consumer_surface \<Rightarrow> gserror \<times> consumer_surface" where
  "cs_SetUserData key val cs =
     (if length (csUserData cs) \<ge> SURFACE_MAX_USER_DATA_COUNT then (GSERROR_OUT_OF_RANGE, cs)
      else (GSERROR_OK, cs\<lparr>csUserData := om_put key val (csUserData cs)\<rparr>))"

definition cs_GetUserData :: "string \<Rightarrow> consumer_surface \<Rightarrow> string" where
  "cs_GetUserData key cs = (case map_of (csUserData cs) key of Some val \<Rightarrow> val | None \<Rightarrow> '''')"

definition cs_RegisterConsumerListener :: "nat option \<Rightarrow> consumer_surface \<Rightarrow> gserror \<times> consumer_surface" where
  "cs_RegisterConsumerListener l = with_queue (bc_RegisterConsumerListener l)"
definition cs_RegisterConsumerListenerClazz :: "nat option \<Rightarrow> consumer_surface \<Rightarrow> gserror \<times> consumer_surface" where
  "cs_RegisterConsumerListenerClazz l = with_queue (bc_RegisterConsumerListenerClazz l)"
definition cs_RegisterReleaseListener :: "nat option \<Rightarrow> consumer_surface \<Rightarrow> gserror \<times> consumer_surface" where
  "cs_RegisterReleaseListener func = with_queue (bc_RegisterReleaseListener func)"
definition cs_RegisterDeleteBufferListener :: "nat option \<Rightarrow> consumer_surface \<Rightarrow> gserror \<times> consumer_surface" where
  "cs_RegisterDeleteBufferListener func = with_queue (bc_RegisterDeleteBufferListener func)"
definition cs_UnregisterConsumerListener :: "consumer_surface \<Rightarrow> gserror \<times> consumer_surface" where
  "cs_UnregisterConsumerListener = with_queue bc_UnregisterConsumerListener"
definition cs_CleanCache :: "int \<Rightarrow> consumer_surface \<Rightarrow> bq_fault + gserror \<times> consumer_surface" where
  "cs_CleanCache pid = with_producer (p_CleanCache pid)"
definition cs_GetUniqueId :: "consumer_surface \<Rightarrow> 64 word" where "cs_GetUniqueId cs = p_GetUniqueId (csProducer cs)"
definition cs_SetTransform :: "int \<Rightarrow> consumer_surface \<Rightarrow> bq_fault + gserror \<times> consumer_surface" where
  "cs_SetTransform t = with_producer (p_SetTransform t)"
definition cs_GetTransform :: "display_consts \<Rightarrow> consumer_surface \<Rightarrow> int" where
  "cs_GetTransform k cs = bc_GetTransform k (bufferQueue (csProducer cs))"

end
