(* ===== verification/Producer_Props.thy ===== *)
theory Producer_Props
  imports Producer_Tables Consumer_Surface
begin

text \<open>
  The properties of the producer's interface: remote calls are local calls; the queue size is the last
  one accepted, whichever way it is set; a connection keeps other processes out; a surface alone in
  its process always finds the buffer of an answer, two surfaces do not; and the fences of remote
  flushes share one object.
\<close>

section \<open>A concrete server\<close>

definition demo_server_env :: "item list server_env" where
  "demo_server_env = \<lparr>se_bq = demo_env, se_parcel = list_parcel, se_promote = (\<lambda>q r. Some r), se_wait = id, se_self = 1,
     se_bad_fd = (\<lambda>_. False), se_token = ''surf.IBufferProducer'', ERR_INVALID_STATE = 5\<rparr>"

definition demo_server :: "buffer_queue \<Rightarrow> server" where
  "demo_server q = \<lparr>sv_prod = \<lparr>bufferQueue = Some q, connectedPid = 0\<rparr>, sv_tables = \<lparr>pcache = [], sendeds = []\<rparr>,
     fences = (\<lambda>_. -1), extras = (\<lambda>_. [])\<rparr>"

definition demo_transport :: "(item list, server) transport" where
  "demo_transport = stub_transport demo_server_env 7 (\<lambda>_. 100) (-1)"

lemma demo_fifo: "parcel_fifo (se_parcel demo_server_env) id id"
  using list_parcel_fifo by (simp add: demo_server_env_def)

text \<open>A queue of two buffers, requested, and flushed one after the other.\<close>

definition demo_elem :: "nat \<Rightarrow> buffer_state \<Rightarrow> int \<Rightarrow> rect \<Rightarrow> buffer_element" where
  "demo_elem r st ts dmg = \<lparr>ebuffer = Some r, estate = st, isDeleting = False, econfig = demo_config,
     efence = INVALID_FENCE, etimestamp = ts, edamage = dmg\<rparr>"

definition demo_object :: "int \<Rightarrow> extra_ref \<Rightarrow> surface_buffer" where
  "demo_object s bd = \<lparr>sequenceNumber = s, handle = Some (demo_handle\<lparr>bh_virAddr := 4096\<rparr>), bedata = bd,
     surfaceBufferColorGamut = 4, stransform = 0, surfaceBufferScalingMode = 1,
     surfaceBufferWidth = 64, surfaceBufferHeight = 64\<rparr>"

definition demo_pair :: "buffer_element \<Rightarrow> buffer_element \<Rightarrow> surface_buffer \<Rightarrow> surface_buffer \<Rightarrow> int list \<Rightarrow> nat \<Rightarrow> bq_event list \<Rightarrow> buffer_queue" where
  "demo_pair e0 e1 b0 b1 dl n evs = demo_start\<lparr>dirtyList := dl, bufferQueueCache := [(0, e0), (1, e1)], objs := [b0, b1],
     seqCounter := 2, calls := n, events := evs\<rparr>"

definition demo_pair0 :: buffer_queue where
  "demo_pair0 = demo_pair (demo_elem 0 BUFFER_STATE_REQUESTED 0 zero_rect) (demo_elem 1 BUFFER_STATE_REQUESTED 0 zero_rect)
     (demo_object 0 (Some 0)) (demo_object 1 (Some 1)) [] 4 []"
definition demo_pair1 :: buffer_queue where
  "demo_pair1 = demo_pair (demo_elem 0 BUFFER_STATE_FLUSHED 1000 (damage demo_flush_config)) (demo_elem 1 BUFFER_STATE_REQUESTED 0 zero_rect)
     (demo_object 0 (Some 100)) (demo_object 1 (Some 1)) [0] 6 [BufferAvailable]"
definition demo_pair2 :: buffer_queue where
  "demo_pair2 = demo_pair (demo_elem 0 BUFFER_STATE_FLUSHED 1000 (damage demo_flush_config)) (demo_elem 1 BUFFER_STATE_FLUSHED 1000 (damage demo_flush_config))
     (demo_object 0 (Some 100)) (demo_object 1 (Some 100)) [0, 1] 8 [BufferAvailable, BufferAvailable]"

lemma demo_pair_flush0: "bq_FlushBuffer demo_env 0 (Some 100) INVALID_FENCE demo_flush_config demo_pair0 = Inr (GSERROR_OK, demo_pair1)"
  by code_simp
lemma demo_pair_flush1: "bq_FlushBuffer demo_env 1 (Some 100) INVALID_FENCE demo_flush_config demo_pair1 = Inr (GSERROR_OK, demo_pair2)"
  by code_simp

lemma demo_pair_inv: "bq_inv demo_pair0"
  by (simp add: bq_inv_def om_wf_def entries_ok_def store_ok_def lists_ok_def sizes_ok_def demo_pair0_def demo_pair_def demo_elem_def demo_object_def
    demo_start_def bq_set.simps demo_new_def new_BufferQueue_def state_of_def SURFACE_MAX_QUEUE_SIZE_def SURFACE_DEFAULT_QUEUE_SIZE_def bq_RegisterConsumerListener_def)
section \<open>Remote settings\<close>

text \<open>The remote calls of a client with process id \<open>pid\<close>, and the local ones, on the same server.\<close>

definition as_local :: "server \<Rightarrow> bq_fault + gserror \<times> producer \<Rightarrow> gserror \<times> server \<Rightarrow> bool" where
  "as_local sv r remote \<longleftrightarrow> (\<exists>ret pr. r = Inr (ret, pr) \<and> remote = (ret, sv\<lparr>sv_prod := pr\<rparr>))"

text \<open>
  C20. Setting the queue size or the transform, cleaning the cache and disconnecting through the remote
  client have the result and the effect of the same call on the producer in the server, never fault
  and change nothing else; the queue size, the unique id and the name read remotely are the queue's,
  also when the client answers them from what it remembers. (The other settings are not covered:
  attaching, detaching and registering a release listener are refused by the client itself.)
\<close>

theorem remote_settings_are_local:
  assumes "parcel_fifo (se_parcel S) view xfd" and "0 \<le> t" and "t < 2 ^ 32"
    and "bufferQueue (sv_prod sv) = Some q" and "client_ok q c" and "T = stub_transport S pid fresh dead"
  shows "as_local sv (p_SetQueueSize n (sv_prod sv)) (c_SetQueueSize T n sv) \<and>
    as_local sv (p_SetTransform t (sv_prod sv)) (c_SetTransform T t sv) \<and>
    as_local sv (p_CleanCache pid (sv_prod sv)) (c_CleanCache T sv) \<and>
    as_local sv (p_Disconnect pid (sv_prod sv)) (c_Disconnect T sv) \<and>
    c_GetQueueSize T sv = (queueSize q, sv) \<and>
    (\<exists>c'. c_GetUniqueId T c sv = ((uniqueId q, c'), sv) \<and> client_ok q c') \<and>
    (\<exists>c'. c_GetName T c sv = ((GSERROR_OK, Some (qname q), c'), sv) \<and> client_ok q c')"
proof -
  note F = assms(1)
  have "as_local sv (p_SetQueueSize n (sv_prod sv)) (c_SetQueueSize T n sv)"
    using p_SetQueueSize_returns [of n "sv_prod sv"] c_SetQueueSize_eq [OF F] assms(6) by (fastforce simp: as_local_def)
  moreover have "as_local sv (p_SetTransform t (sv_prod sv)) (c_SetTransform T t sv)"
    using p_SetTransform_returns [of t "sv_prod sv"] c_SetTransform_eq [OF F assms(2,3)] assms(6) by (fastforce simp: as_local_def)
  moreover have "as_local sv (p_CleanCache pid (sv_prod sv)) (c_CleanCache T sv)"
    using p_CleanCache_returns [of pid "sv_prod sv"] c_CleanCache_eq [OF F] assms(6) by (fastforce simp: as_local_def)
  moreover have "as_local sv (p_Disconnect pid (sv_prod sv)) (c_Disconnect T sv)"
    using p_Disconnect_returns [of pid "sv_prod sv"] c_Disconnect_eq [OF F] assms(6) by (fastforce simp: as_local_def)
  ultimately show ?thesis
    using c_GetQueueSize_eq [OF F] c_GetUniqueId_eq [OF F assms(4,5)] c_GetName_eq [OF F assms(4,5)] assms(4,6)
    by (simp add: p_GetQueueSize_def GetQueueSize_def)
qed

lemma remote_settings_are_local_witness:
  "as_local (demo_server demo_start) (p_SetQueueSize 5 (sv_prod (demo_server demo_start)))
     (c_SetQueueSize demo_transport 5 (demo_server demo_start)) \<and>
   c_GetQueueSize demo_transport (demo_server demo_start) = (queueSize demo_start, demo_server demo_start)"
proof -
  have "bufferQueue (sv_prod (demo_server demo_start)) = Some demo_start" by (simp add: demo_server_def)
  moreover have "client_ok demo_start (new_BufferClientProducer (-1))" by (simp add: client_ok_def new_BufferClientProducer_def)
  ultimately show ?thesis
    using remote_settings_are_local [OF demo_fifo, of 1 "demo_server demo_start" demo_start _ demo_transport 7 "\<lambda>_. 100" "-1" 5]
    by (simp add: demo_transport_def)
qed

section \<open>The queue size\<close>

text \<open>An interface that sets and reads the size of a queue, with its promises.\<close>

locale sized_queue =
  fixes inv :: "'s \<Rightarrow> bool" and set_size :: "32 word \<Rightarrow> 's \<Rightarrow> gserror \<times> 's" and get_size :: "'s \<Rightarrow> 32 word"
  assumes keeps: "inv s \<Longrightarrow> inv (snd (set_size n s))"
    and accepts: "inv s \<Longrightarrow> fst (set_size n s) = (if 1 \<le> n \<and> n \<le> SURFACE_MAX_QUEUE_SIZE then GSERROR_OK else GSERROR_INVALID_ARGUMENTS)"
    and takes_effect: "inv s \<Longrightarrow> get_size (snd (set_size n s)) = (if 1 \<le> n \<and> n \<le> SURFACE_MAX_QUEUE_SIZE then n else get_size s)"
begin

lemma size_after: "inv s \<Longrightarrow> get_size (fold (\<lambda>n s. snd (set_size n s)) ns s) =
   last (get_size s # filter (\<lambda>n. 1 \<le> n \<and> n \<le> SURFACE_MAX_QUEUE_SIZE) ns)"
  by (induction ns arbitrary: s) (auto simp: keeps takes_effect)

end

definition local_set :: "32 word \<Rightarrow> producer \<Rightarrow> gserror \<times> producer" where
  "local_set n pr = projr (p_SetQueueSize n pr)"

definition sound_producer :: "producer \<Rightarrow> bool" where
  "sound_producer pr \<longleftrightarrow> (\<exists>q. bufferQueue pr = Some q \<and> bq_inv q)"

lemma local_set_result:
  assumes "sound_producer pr"
  shows "\<exists>pr'. p_SetQueueSize n pr = Inr (if 1 \<le> n \<and> n \<le> SURFACE_MAX_QUEUE_SIZE then GSERROR_OK else GSERROR_INVALID_ARGUMENTS, pr') \<and>
    sound_producer pr' \<and> p_GetQueueSize pr' = (if 1 \<le> n \<and> n \<le> SURFACE_MAX_QUEUE_SIZE then n else p_GetQueueSize pr)"
proof -
  from assms obtain q where q: "bufferQueue pr = Some q" "bq_inv q" by (auto simp: sound_producer_def)
  obtain ret q' where s: "bq_SetQueueSize n q = (ret, q')" by fastforce
  have ns: "\<not> isShared q" using q(2) by (simp add: bq_inv_def)
  have z: "n \<le> 0 \<longleftrightarrow> \<not> 1 \<le> n" by (simp add: word_le_nat_alt) linarith
  have i: "bq_inv q'" using SetQueueSize_inv [OF q(2)] s by auto
  have r: "ret = (if 1 \<le> n \<and> n \<le> SURFACE_MAX_QUEUE_SIZE then GSERROR_OK else GSERROR_INVALID_ARGUMENTS)"
    "queueSize q' = (if 1 \<le> n \<and> n \<le> SURFACE_MAX_QUEUE_SIZE then n else queueSize q)"
    using s ns z by (auto simp: SetQueueSize_eq split: if_splits)
  from q(1) s have "p_SetQueueSize n pr = Inr (ret, pr\<lparr>bufferQueue := Some q'\<rparr>)"
    by (simp add: p_SetQueueSize_def on_queue_def)
  with r i q(1) show ?thesis by (simp add: sound_producer_def p_GetQueueSize_def GetQueueSize_def)
qed

lemma local_set_laws:
  assumes "sound_producer pr"
  shows "sound_producer (snd (local_set n pr))"
    "fst (local_set n pr) = (if 1 \<le> n \<and> n \<le> SURFACE_MAX_QUEUE_SIZE then GSERROR_OK else GSERROR_INVALID_ARGUMENTS)"
    "p_GetQueueSize (snd (local_set n pr)) = (if 1 \<le> n \<and> n \<le> SURFACE_MAX_QUEUE_SIZE then n else p_GetQueueSize pr)"
  using local_set_result [OF assms, of n] by (auto simp: local_set_def)

interpretation local_size: sized_queue sound_producer local_set p_GetQueueSize
  by unfold_locales (rule local_set_laws, assumption)+

text \<open>The same promises hold through a client, its transport and the stub.\<close>

definition sound_server :: "'p server_env \<Rightarrow> ('p \<Rightarrow> item list) \<Rightarrow> (int \<Rightarrow> int) \<Rightarrow> server \<Rightarrow> bool" where
  "sound_server S view xfd sv \<longleftrightarrow> parcel_fifo (se_parcel S) view xfd \<and> sound_producer (sv_prod sv)"

lemma remote_set_result:
  assumes "sound_server S view xfd sv"
  shows "\<exists>sv'. c_SetQueueSize (stub_transport S pid fresh dead) n sv =
     (if 1 \<le> n \<and> n \<le> SURFACE_MAX_QUEUE_SIZE then GSERROR_OK else GSERROR_INVALID_ARGUMENTS, sv') \<and>
    sound_server S view xfd sv' \<and>
    fst (c_GetQueueSize (stub_transport S pid fresh dead) sv') = (if 1 \<le> n \<and> n \<le> SURFACE_MAX_QUEUE_SIZE then n
      else fst (c_GetQueueSize (stub_transport S pid fresh dead) sv))"
proof -
  from assms have F: "parcel_fifo (se_parcel S) view xfd" and p: "sound_producer (sv_prod sv)"
    by (simp_all add: sound_server_def)
  from local_set_result [OF p, of n] obtain ret pr' where r: "p_SetQueueSize n (sv_prod sv) = Inr (ret, pr')"
    "ret = (if 1 \<le> n \<and> n \<le> SURFACE_MAX_QUEUE_SIZE then GSERROR_OK else GSERROR_INVALID_ARGUMENTS)"
    "sound_producer pr'" "p_GetQueueSize pr' = (if 1 \<le> n \<and> n \<le> SURFACE_MAX_QUEUE_SIZE then n else p_GetQueueSize (sv_prod sv))"
    by blast
  from c_SetQueueSize_eq [OF F r(1)] r(2-4) F show ?thesis
    by (simp add: c_GetQueueSize_eq [OF F] sound_server_def)
qed

lemma remote_set_laws:
  assumes "sound_server S view xfd sv"
  shows "sound_server S view xfd (snd (c_SetQueueSize (stub_transport S pid fresh dead) n sv))"
    "fst (c_SetQueueSize (stub_transport S pid fresh dead) n sv) =
      (if 1 \<le> n \<and> n \<le> SURFACE_MAX_QUEUE_SIZE then GSERROR_OK else GSERROR_INVALID_ARGUMENTS)"
    "fst (c_GetQueueSize (stub_transport S pid fresh dead) (snd (c_SetQueueSize (stub_transport S pid fresh dead) n sv))) =
      (if 1 \<le> n \<and> n \<le> SURFACE_MAX_QUEUE_SIZE then n else fst (c_GetQueueSize (stub_transport S pid fresh dead) sv))"
  using remote_set_result [OF assms, of pid fresh dead n] by (auto split: if_splits)

interpretation remote_size: sized_queue "sound_server S view xfd" "c_SetQueueSize (stub_transport S pid fresh dead)"
    "\<lambda>sv. fst (c_GetQueueSize (stub_transport S pid fresh dead) sv)"
  for S :: "'p server_env" and view xfd pid fresh dead
  by unfold_locales (rule remote_set_laws, assumption)+

text \<open>
  After any sequence of size settings through the remote client the size read back remotely is the
  last one between 1 and 32, or the size before when there was none.
\<close>

theorem queue_size_is_last_accepted:
  assumes "parcel_fifo (se_parcel S) view xfd" and "bufferQueue (sv_prod sv) = Some q" and "bq_inv q"
    and "T = stub_transport S pid fresh dead"
  shows "fst (c_GetQueueSize T (fold (\<lambda>n sv. snd (c_SetQueueSize T n sv)) ns sv)) = last (queueSize q # filter (\<lambda>n. 1 \<le> n \<and> n \<le> 32) ns)"
proof -
  have i: "sound_server S view xfd sv" using assms(1-3) by (auto simp: sound_server_def sound_producer_def)
  have "fst (c_GetQueueSize T sv) = queueSize q"
    using c_GetQueueSize_eq [OF assms(1)] assms(2,4) by (simp add: p_GetQueueSize_def GetQueueSize_def)
  with remote_size.size_after [OF i, of pid fresh dead ns] assms(4) show ?thesis
    by (simp add: SURFACE_MAX_QUEUE_SIZE_def)
qed

lemma queue_size_is_last_accepted_witness:
  "fst (c_GetQueueSize demo_transport (fold (\<lambda>n sv. snd (c_SetQueueSize demo_transport n sv)) [5, 40, 0] (demo_server demo_start))) = 5"
proof -
  have "bq_inv demo_start" using demo_reachable(1) reachable_inv by blast
  moreover have "bufferQueue (sv_prod (demo_server demo_start)) = Some demo_start" by (simp add: demo_server_def)
  ultimately show ?thesis
    using queue_size_is_last_accepted [OF demo_fifo _ _ demo_transport_def, of "demo_server demo_start" demo_start "[5, 40, 0]"]
    by simp
qed

section \<open>Flushing\<close>

text \<open>
  C19. A buffer cancelled or flushed by a remote producer is cancelled or flushed in the server with the
  same result, and its extra data arrives unchanged, as a new object. The fence arrives as the
  server's own descriptor of the same fence, in the object \<open>INVALID_FENCE\<close>, for every buffer.
\<close>

theorem remote_flush_is_local:
  assumes "parcel_fifo (se_parcel S) view xfd" and "T = stub_transport S pid fresh dead"
    and "int32_ok s" and "extra_ok datas" and "int32_ok fd" and "flush_typed config"
  shows "(\<forall>ret pr. p_CancelBuffer (se_bq S) s (Some (fresh sv)) (sv_prod sv) = Inr (ret, pr) \<longrightarrow> int32_ok ret \<longrightarrow>
      c_CancelBuffer T s datas sv = (ret, sv\<lparr>extras := (extras sv)(fresh sv := datas), sv_prod := pr\<rparr>)) \<and>
    (\<forall>ret pr. p_FlushBuffer (se_bq S) s (Some (fresh sv)) INVALID_FENCE config (sv_prod sv) = Inr (ret, pr) \<longrightarrow> int32_ok ret \<longrightarrow>
      c_FlushBuffer T bad_fd s datas fd config sv =
        (ret, sv\<lparr>extras := (extras sv)(fresh sv := datas),
                fences := (fences sv)(the INVALID_FENCE := (if 0 \<le> fd \<and> \<not> bad_fd fd then xfd fd else fences sv (the INVALID_FENCE))),
                sv_prod := pr\<rparr>))"
  using c_CancelBuffer_eq [OF assms(1,3,4)] c_FlushBuffer_eq [OF assms(1,3-6)] assms(2)
  by (simp add: INVALID_FENCE_def flushed_fence_def)

lemma flush_config_demo: "flush_typed demo_flush_config"
  by (simp add: flush_typed_def demo_flush_config_def int32_ok_def int64_ok_def)

definition demo_producer :: "buffer_queue \<Rightarrow> producer" where
  "demo_producer q = \<lparr>bufferQueue = Some q, connectedPid = 0\<rparr>"

lemma demo_server_prod: "sv_prod (demo_server q) = demo_producer q"
  by (simp add: demo_server_def demo_producer_def)

lemma demo_p_flush:
  "p_FlushBuffer demo_env 0 (Some 100) INVALID_FENCE demo_flush_config (demo_producer demo_pair0) = Inr (GSERROR_OK, demo_producer demo_pair1)"
  "p_FlushBuffer demo_env 1 (Some 100) INVALID_FENCE demo_flush_config (demo_producer demo_pair1) = Inr (GSERROR_OK, demo_producer demo_pair2)"
  by (simp_all add: p_FlushBuffer_def on_queue_def demo_producer_def demo_pair_flush0 demo_pair_flush1)

lemma demo_se_bq: "se_bq demo_server_env = demo_env" by (simp add: demo_server_env_def)

lemma int32_demo: "int32_ok 0" "int32_ok 1" "int32_ok 30" "int32_ok 31" by (simp_all add: int32_ok_def)

lemma remote_flush_is_local_witness:
  "fst (c_FlushBuffer demo_transport (\<lambda>_. False) 0 demo_extra 30 demo_flush_config (demo_server demo_pair0)) = GSERROR_OK"
  using remote_flush_is_local [OF demo_fifo demo_transport_def int32_demo(1) extra_ok_demo int32_demo(3) flush_config_demo,
      of "demo_server demo_pair0" "\<lambda>_. False"]
  by (simp add: demo_se_bq demo_server_prod demo_p_flush)

text \<open>
  Two buffers flushed remotely one after the other, each with a fence of its own, wait for the
  consumer with one and the same fence object, and that object holds the second fence: the fence of the
  first frame is lost.
\<close>

theorem second_flush_replaces_first_fence:
  assumes "parcel_fifo (se_parcel S) view xfd" and "T = stub_transport S pid fresh dead"
    and "bufferQueue (sv_prod sv) = Some q" and "bq_inv q" and "s1 \<noteq> s2" and "int32_ok s1" and "int32_ok s2"
    and "extra_ok d1" and "extra_ok d2" and "flush_typed c1" and "flush_typed c2"
    and "int32_ok f1" and "int32_ok f2" and "0 \<le> f2" and "\<not> bad_fd f2"
    and "p_FlushBuffer (se_bq S) s1 (Some (fresh sv)) INVALID_FENCE c1 (sv_prod sv) = Inr (GSERROR_OK, pr1)"
    and "c_FlushBuffer T bad_fd s1 d1 f1 c1 sv = (r1, sv1)"
    and "p_FlushBuffer (se_bq S) s2 (Some (fresh sv1)) INVALID_FENCE c2 pr1 = Inr (GSERROR_OK, pr2)"
    and "bufferQueue pr2 = Some q2" and "state_of q2 s1 = Some BUFFER_STATE_FLUSHED" and "state_of q2 s2 = Some BUFFER_STATE_FLUSHED"
  shows "\<exists>sv2 e1 e2. c_FlushBuffer T bad_fd s2 d2 f2 c2 sv1 = (GSERROR_OK, sv2) \<and> sv_prod sv2 = pr2 \<and>
    map_of (bufferQueueCache q2) s1 = Some e1 \<and> map_of (bufferQueueCache q2) s2 = Some e2 \<and>
    efence e1 = efence e2 \<and> fences sv2 (the (efence e1)) = xfd f2"
proof -
  from c_FlushBuffer_eq [where fresh = fresh and sv = sv, OF assms(1,6,8,12,10,16)] assms(2,17)
  have sv1: "sv_prod sv1 = pr1" by auto
  from c_FlushBuffer_eq [where fresh = fresh and sv = sv1, OF assms(1,7,9,13,11), unfolded sv1, OF assms(18)] assms(2,14,15)
  obtain sv2 where sv2: "c_FlushBuffer T bad_fd s2 d2 f2 c2 sv1 = (GSERROR_OK, sv2)" "sv_prod sv2 = pr2" "fences sv2 0 = xfd f2"
    by (simp add: flushed_fence_def)
  have no: "GSERROR_NO_CONSUMER \<noteq> GSERROR_OK" by (simp add: gs)
  obtain q1 where q1: "bufferQueue pr1 = Some q1" "bq_FlushBuffer (se_bq S) s1 (Some (fresh sv)) INVALID_FENCE c1 q = Inr (GSERROR_OK, q1)"
    using assms(3,16) by (auto simp: p_FlushBuffer_def on_queue_def split: sum.splits)
  have i1: "bq_inv q1" using FlushBuffer_inv [OF assms(4) q1(2)] .
  have q2: "bq_FlushBuffer (se_bq S) s2 (Some (fresh sv1)) INVALID_FENCE c2 q1 = Inr (GSERROR_OK, q2)"
    using assms(18,19) q1(1) by (auto simp: p_FlushBuffer_def on_queue_def split: sum.splits)
  from FlushBuffer_cases [OF i1, of "se_bq S" s2 "Some (fresh sv1)" INVALID_FENCE c2] q2 no assms(21)
  have f2: "\<exists>e2. map_of (bufferQueueCache q2) s2 = Some e2 \<and> efence e2 = INVALID_FENCE"
    and keep: "map_of (bufferQueueCache q2) s1 = map_of (bufferQueueCache q1) s1"
    using assms(5) by (auto simp: moves_def)
  from keep assms(20) have st1: "state_of q1 s1 = Some BUFFER_STATE_FLUSHED" by (simp add: state_of_def)
  from FlushBuffer_cases [OF assms(4), of "se_bq S" s1 "Some (fresh sv)" INVALID_FENCE c1] q1(2) no st1 keep
  have "\<exists>e1. map_of (bufferQueueCache q2) s1 = Some e1 \<and> efence e1 = INVALID_FENCE"
    by (auto simp: moves_def)
  with f2 sv2 show ?thesis by (auto simp: INVALID_FENCE_def)
qed

lemma second_flush_replaces_first_fence_witness:
  "\<exists>sv1 sv2. c_FlushBuffer demo_transport (\<lambda>_. False) 0 [] 30 demo_flush_config (demo_server demo_pair0) = (GSERROR_OK, sv1) \<and>
    c_FlushBuffer demo_transport (\<lambda>_. False) 1 [] 31 demo_flush_config sv1 = (GSERROR_OK, sv2) \<and>
    fences sv2 (the (efence (demo_elem 0 BUFFER_STATE_FLUSHED 1000 (damage demo_flush_config)))) = 31"
proof -
  have x: "extra_ok []" by (simp add: extra_ok_def)
  obtain sv1 where 1: "c_FlushBuffer demo_transport (\<lambda>_. False) 0 [] 30 demo_flush_config (demo_server demo_pair0) = (GSERROR_OK, sv1)"
    using c_FlushBuffer_eq [where fresh = "\<lambda>_. 100", OF demo_fifo int32_demo(1) x int32_demo(3) flush_config_demo, of "demo_server demo_pair0"]
    by (simp add: demo_transport_def demo_se_bq demo_server_prod demo_p_flush)
  have q: "bufferQueue (sv_prod (demo_server demo_pair0)) = Some demo_pair0" "bufferQueue (demo_producer demo_pair2) = Some demo_pair2"
    by (simp_all add: demo_server_def demo_producer_def)
  have st: "state_of demo_pair2 0 = Some BUFFER_STATE_FLUSHED" "state_of demo_pair2 1 = Some BUFFER_STATE_FLUSHED"
    by (simp_all add: state_of_def demo_pair2_def demo_pair_def demo_elem_def)
  have "\<exists>sv2 e1 e2. c_FlushBuffer demo_transport (\<lambda>_. False) 1 [] 31 demo_flush_config sv1 = (GSERROR_OK, sv2) \<and>
      sv_prod sv2 = demo_producer demo_pair2 \<and> map_of (bufferQueueCache demo_pair2) 0 = Some e1 \<and>
      map_of (bufferQueueCache demo_pair2) 1 = Some e2 \<and> efence e1 = efence e2 \<and> fences sv2 (the (efence e1)) = id 31"
    by (rule second_flush_replaces_first_fence [where ?pr1.0 = "demo_producer demo_pair1", OF demo_fifo demo_transport_def q(1) demo_pair_inv _ int32_demo(1,2) x x
          flush_config_demo flush_config_demo int32_demo(3,4) _ _ _ 1 _ q(2) st])
      (simp_all add: demo_se_bq demo_server_prod demo_p_flush)
  with 1 show ?thesis by (auto simp: demo_pair2_def demo_pair_def)
qed

section \<open>Connections\<close>

text \<open>
  C35. A request connects its caller, even when it fails, unless another process is connected, which is
  refused and changes nothing; and while a process is connected the requests, cache cleanings and
  disconnections of every other one are refused and change nothing.
\<close>

theorem connection_is_exclusive:
  assumes "bufferQueue pr = Some q" and "p_RequestBuffer env promote wait self pid config tb pr = Inr (ret, bd, rv, tb', pr')"
    and "pid \<noteq> 0"
  shows "(if connectedPid pr \<noteq> 0 \<and> connectedPid pr \<noteq> pid then ret = GSERROR_INVALID_OPERATING \<and> tb' = tb \<and> pr' = pr
          else connectedPid pr' = pid \<and>
            (\<forall>other config2. other \<noteq> pid \<longrightarrow>
               p_CleanCache other pr' = Inr (GSERROR_INVALID_OPERATING, pr') \<and>
               p_Disconnect other pr' = Inr (GSERROR_INVALID_OPERATING, pr') \<and>
               (\<exists>rv2. p_RequestBuffer env promote wait self other config2 tb' pr' = Inr (GSERROR_INVALID_OPERATING, None, rv2, tb', pr'))))"
proof (cases "connectedPid pr \<noteq> 0 \<and> connectedPid pr \<noteq> pid")
  case True
  with assms(1,2) show ?thesis by (auto simp: p_RequestBuffer_def Let_def)
next
  case False
  with assms(1,2) obtain q' where pr': "connectedPid pr' = pid" "bufferQueue pr' = Some q'"
    by (auto simp: p_RequestBuffer_def Let_def split: if_splits prod.splits sum.splits)
  have c: "CheckConnectLocked other pr' = GSERROR_INVALID_OPERATING" if "other \<noteq> pid" for other
    using that pr'(1) assms(3) by (simp add: CheckConnectLocked_def)
  have "\<not> gs_eq GSERROR_INVALID_OPERATING GSERROR_OK" by simp
  with False pr' c assms(3) show ?thesis
    by (auto simp: p_CleanCache_def p_Disconnect_def p_RequestBuffer_def Let_def)
qed

lemma connection_is_exclusive_witness:
  "\<exists>ret bd rv tb' pr'. p_RequestBuffer demo_env (\<lambda>q r. Some r) id 1 7 demo_config (sv_tables (demo_server demo_start))
      (sv_prod (demo_server demo_start)) = Inr (ret, bd, rv, tb', pr') \<and>
    p_Disconnect 8 pr' = Inr (GSERROR_INVALID_OPERATING, pr')"
proof -
  have q: "bufferQueue (sv_prod (demo_server demo_start)) = Some demo_start" and n: "connectedPid (sv_prod (demo_server demo_start)) = 0"
    by (simp_all add: demo_server_def)
  moreover obtain rv1 tb1 where "request_lookup Some 1 7 demo_ret (sv_tables (demo_server demo_start)) = (rv1, tb1)" by fastforce
  ultimately obtain ret bd rv tb' pr' where r: "p_RequestBuffer demo_env (\<lambda>q r. Some r) id 1 7 demo_config (sv_tables (demo_server demo_start))
      (sv_prod (demo_server demo_start)) = Inr (ret, bd, rv, tb', pr')"
    by (auto simp: p_RequestBuffer_def demo_request_eq Let_def split: prod.splits)
  from connection_is_exclusive [OF q r] n r show ?thesis by auto
qed

section \<open>The buffers of a surface\<close>

text \<open>
  The premises of a request that the server accepts, at the world \<open>w\<close> of a remote surface: \<open>rv\<close>, \<open>tb'\<close> and
  \<open>pr'\<close> are its local results, and what is sent fits its types.
\<close>

definition accepted_request ::
    "'p server_env \<Rightarrow> int \<Rightarrow> buffer_request_config \<Rightarrow> remote_world \<Rightarrow> request_retval \<Rightarrow> request_tables \<Rightarrow> producer \<Rightarrow> bool" where
  "accepted_request S pid config w rv tb' pr' \<longleftrightarrow> request_typed config \<and> int32_ok (rsequence rv) \<and>
     (\<exists>b f q'. p_RequestBuffer (se_bq S) (se_promote S) (se_wait S) (se_self S) pid config (sv_tables (rw_server w))
          (sv_prod (rw_server w)) = Inr (GSERROR_OK, Some b, rv, tb', pr') \<and>
        rfence rv = Some f \<and> bufferQueue pr' = Some q' \<and> buffer_typed (deref q' (rbuffer rv)) \<and>
        extra_ok (extras (rw_server w) b) \<and> int32_ok (fences (rw_server w) f))"

lemma remote_request_answer:
  assumes F: "parcel_fifo (se_parcel S) view xfd" and T: "T = stub_transport S pid fresh dead"
    and a: "accepted_request S pid config w rv tb' pr'" and q': "bufferQueue pr' = Some q'"
  shows "\<exists>x w'. remote_request T k config w = ((GSERROR_OK, \<lparr>ra_sequence = rsequence rv,
      ra_buffer = (if deref q' (rbuffer rv) = None then None else Some (length (rw_objs w))),
      ra_fence = SharedFence, ra_deletingBuffers = rdeletingBuffers rv, ra_extra = x\<rparr>), w') \<and>
    rw_server w' = (rw_server w)\<lparr>sv_prod := pr', sv_tables := tb'\<rparr>"
proof -
  from a q' obtain b f where p: "request_typed config" "int32_ok (rsequence rv)"
    "p_RequestBuffer (se_bq S) (se_promote S) (se_wait S) (se_self S) pid config (sv_tables (rw_server w))
      (sv_prod (rw_server w)) = Inr (GSERROR_OK, Some b, rv, tb', pr')"
    "rfence rv = Some f" "buffer_typed (deref q' (rbuffer rv))" "extra_ok (extras (rw_server w) b)" "int32_ok (fences (rw_server w) f)"
    by (auto simp: accepted_request_def)
  from c_RequestBuffer_eq [OF F p(1,3) q' p(4-6,2,7), of fresh dead k "length (rw_objs w)"
      "\<lparr>cr_sequence = 0, cr_buffer = None, cr_deletingBuffers = []\<rparr>" "rw_client w"] T
  show ?thesis by (auto simp: remote_request_def client_result_def Let_def split: option.splits)
qed

definition server_sound :: "'p server_env \<Rightarrow> server \<Rightarrow> bool" where
  "server_sound S sv \<longleftrightarrow> (\<exists>q. bufferQueue (sv_prod sv) = Some q \<and>
     (\<forall>q0 \<in> {q, se_wait S q}. bq_inv q0 \<and> tables_ok q0 (sv_tables sv) \<and> deleted_gone q0))"

text \<open>A queue whose only buffer is free, its server, and a process to which the buffer was sent.\<close>

definition demo_free :: buffer_queue where
  "demo_free = demo_at [0] [] BUFFER_STATE_RELEASED (Some 3) 1000 zero_rect (Some 0) 4 []"
definition demo_again :: buffer_queue where
  "demo_again = demo_at [] [] BUFFER_STATE_REQUESTED (Some 3) 1000 zero_rect (Some 0) 4 []"

definition demo_tables :: request_tables where
  "demo_tables = \<lparr>pcache = [(0, Some 0)], sendeds = [(7, {0})]\<rparr>"

definition demo_world :: remote_world where
  "demo_world = \<lparr>rw_client = new_BufferClientProducer (-1), rw_objs = [], rw_extras = (\<lambda>_. []),
     rw_server = (demo_server demo_free)\<lparr>sv_tables := demo_tables\<rparr>\<rparr>"

definition demo_again_ret :: request_retval where
  "demo_again_ret = \<lparr>rsequence = 0, rbuffer = None, rfence = Some 3, rdeletingBuffers = []\<rparr>"

lemma demo_again_eq: "bq_RequestBuffer demo_env id demo_config demo_free = Inr (GSERROR_OK, Some 0, demo_again_ret, demo_again)"
  by code_simp

lemma demo_free_inv: "bq_inv demo_free" "bq_inv demo_again" "deleted_gone demo_free"
  by (simp_all add: bq_inv_def om_wf_def entries_ok_def store_ok_def lists_ok_def sizes_ok_def demo_free_def demo_again_def
      demo_at_def state_of_def SURFACE_MAX_QUEUE_SIZE_def deleted_gone_def)

lemma demo_accepted: "accepted_request demo_server_env 7 demo_config demo_world demo_again_ret demo_tables
   \<lparr>bufferQueue = Some demo_again, connectedPid = 7\<rparr>"
proof -
  have r: "p_RequestBuffer demo_env (\<lambda>q r. Some r) id 1 7 demo_config demo_tables \<lparr>bufferQueue = Some demo_free, connectedPid = 0\<rparr> =
      Inr (GSERROR_OK, Some 0, demo_again_ret, demo_tables, \<lparr>bufferQueue = Some demo_again, connectedPid = 7\<rparr>)"
    by (simp add: p_RequestBuffer_def demo_again_eq request_lookup_def demo_again_ret_def demo_tables_def sended_of_def upd_sended_def)
  have "request_typed demo_config" by (simp add: request_typed_def demo_config_def int32_ok_def)
  with r show ?thesis
    by (simp add: accepted_request_def demo_world_def demo_server_env_def demo_server_def demo_again_ret_def int32_ok_def
        buffer_typed_def deref_def extra_ok_def)
qed

text \<open>
  C26. A remote surface that has every buffer sent to its process finds the buffer of every request the
  server accepts, also when the answer carries none, and has every buffer sent again afterwards; the
  server's table then knows every buffer of its queue again.
\<close>

theorem lone_surface_finds_buffer:
  assumes "parcel_fifo (se_parcel S) view xfd" and "T = stub_transport S pid fresh dead" and "pid \<noteq> se_self S"
    and "promote_ok (se_promote S)" and "server_sound S (rw_server w)" and "covered pid (sv_tables (rw_server w)) ps"
    and "accepted_request S pid config w rv tb' pr'"
  shows "\<exists>b ps' w'. ps_RequestBuffer (remote_if T k rg rbad rdup) k config ps w = Inr ((GSERROR_OK, Some (b, SharedFence)), ps', w') \<and>
    sv_tables (rw_server w') = tb' \<and> sv_prod (rw_server w') = pr' \<and> covered pid tb' ps' \<and>
    (\<forall>q'. bufferQueue pr' = Some q' \<longrightarrow> tables_ok q' tb')"
proof -
  from assms(5) obtain q where q: "bufferQueue (sv_prod (rw_server w)) = Some q"
    and ok: "\<And>q0. q0 \<in> {q, se_wait S q} \<Longrightarrow> bq_inv q0 \<and> tables_ok q0 (sv_tables (rw_server w)) \<and> deleted_gone q0"
    by (auto simp: server_sound_def)
  from assms(7) obtain bd where r: "p_RequestBuffer (se_bq S) (se_promote S) (se_wait S) (se_self S) pid config
      (sv_tables (rw_server w)) (sv_prod (rw_server w)) = Inr (GSERROR_OK, bd, rv, tb', pr')"
    by (auto simp: accepted_request_def)
  obtain q' where q': "bufferQueue pr' = Some q'" "tables_ok q' tb'"
    "rbuffer rv = None \<longrightarrow> rsequence rv \<in> sended_of pid (sv_tables (rw_server w))"
    "rbuffer rv \<noteq> None \<longrightarrow> deref q' (rbuffer rv) \<noteq> None"
    "sended_of pid tb' = insert (rsequence rv) (sended_of pid (sv_tables (rw_server w))) - set (rdeletingBuffers rv)"
    using request_server [OF q ok assms(4,3) r] by auto
  from remote_request_answer [OF assms(1,2,7) q'(1), of k] obtain a w1 where
    a: "remote_request T k config w = ((GSERROR_OK, a), w1)" "ra_sequence a = rsequence rv"
      "ra_buffer a = (if deref q' (rbuffer rv) = None then None else Some (length (rw_objs w)))"
      "ra_fence a = SharedFence" "ra_deletingBuffers a = rdeletingBuffers rv"
      "rw_server w1 = (rw_server w)\<lparr>sv_prod := pr', sv_tables := tb'\<rparr>"
    by auto
  from ps_lookup_covered [OF assms(6), of a tb'] q'(3-5) a(2,3,5) obtain b ps1 where
    b: "ps_lookup a ps = (Some b, ps1)"
      "covered pid tb' (ps1\<lparr>bufferProducerCache := erase_all (ra_deletingBuffers a) (bufferProducerCache ps1)\<rparr>)"
    by (metis option.distinct(1))
  show ?thesis
    using a b q' by (auto simp: ps_RequestBuffer_def remote_if_def Let_def)
qed

lemma lone_surface_finds_buffer_witness:
  "\<exists>b ps' w'. ps_RequestBuffer (remote_if demo_transport demo_disp demo_gralloc (\<lambda>_. False) id) demo_disp demo_config
      (new_ProducerSurface\<lparr>bufferProducerCache := [(0, 5 :: nat)]\<rparr>) demo_world = Inr ((GSERROR_OK, Some (b, SharedFence)), ps', w')"
proof -
  have s: "server_sound demo_server_env (rw_server demo_world)"
    using demo_free_inv by (simp add: server_sound_def demo_world_def demo_server_def demo_server_env_def tables_ok_def demo_tables_def
        demo_free_def demo_at_def)
  have p: "promote_ok (se_promote demo_server_env)" "7 \<noteq> se_self demo_server_env" by (simp_all add: promote_ok_def demo_server_env_def)
  have c: "covered 7 (sv_tables (rw_server demo_world)) (new_ProducerSurface\<lparr>bufferProducerCache := [(0, 5 :: nat)]\<rparr>)"
    by (simp add: covered_def demo_world_def demo_tables_def sended_of_def)
  from lone_surface_finds_buffer [OF demo_fifo demo_transport_def p(2,1) s c demo_accepted] show ?thesis by blast
qed

text \<open>
  A second surface of the same process, to which the buffer was not sent because it counts as sent
  to the process, fails with \<open>GSERROR_API_FAILED\<close>, while the server has handed the buffer out: it stays
  in the requested state, off both lists.
\<close>

theorem second_surface_loses_buffer:
  assumes "parcel_fifo (se_parcel S) view xfd" and "T = stub_transport S pid fresh dead"
    and "accepted_request S pid config w rv tb' pr'" and "bufferQueue pr' = Some q'" and "bq_inv q'"
    and "rbuffer rv = None" and "map_of (bufferProducerCache ps) (rsequence rv) = None"
    and "state_of q' (rsequence rv) = Some BUFFER_STATE_REQUESTED"
  shows "\<exists>w'. ps_RequestBuffer (remote_if T k rg rbad rdup) k config ps w = Inr ((GSERROR_API_FAILED, None), ps, w') \<and>
    sv_prod (rw_server w') = pr' \<and> rsequence rv \<notin> set (freeList q') \<and> rsequence rv \<notin> set (dirtyList q')"
proof -
  from remote_request_answer [OF assms(1-4), of k] assms(6) obtain a w1 where
    a: "remote_request T k config w = ((GSERROR_OK, a), w1)" "ra_sequence a = rsequence rv" "ra_buffer a = None"
      "rw_server w1 = (rw_server w)\<lparr>sv_prod := pr', sv_tables := tb'\<rparr>"
    by (auto simp: deref_def)
  have "rsequence rv \<notin> set (freeList q')" "rsequence rv \<notin> set (dirtyList q')"
    using assms(5,8) by (auto simp: bq_inv_def lists_ok_def)
  with a assms(7) show ?thesis
    by (auto simp: ps_RequestBuffer_def remote_if_def ps_lookup_def Let_def)
qed

lemma second_surface_loses_buffer_witness:
  "\<exists>w'. ps_RequestBuffer (remote_if demo_transport demo_disp demo_gralloc (\<lambda>_. False) id) demo_disp demo_config
      new_ProducerSurface demo_world = Inr ((GSERROR_API_FAILED, None), new_ProducerSurface, w')"
proof -
  have "state_of demo_again (rsequence demo_again_ret) = Some BUFFER_STATE_REQUESTED"
    by (simp add: state_of_def demo_again_def demo_at_def demo_again_ret_def)
  moreover have "rbuffer demo_again_ret = None" by (simp add: demo_again_ret_def)
  moreover have "map_of (bufferProducerCache new_ProducerSurface) (rsequence demo_again_ret) = None"
    by (simp add: new_ProducerSurface_def)
  moreover have "bufferQueue \<lparr>bufferQueue = Some demo_again, connectedPid = 7\<rparr> = Some demo_again" by simp
  ultimately show ?thesis
    using second_surface_loses_buffer [OF demo_fifo demo_transport_def demo_accepted _ demo_free_inv(2)] by blast
qed

end
