(* ===== verification/Render_Tree.thy ===== *)
theory Render_Tree
  imports Prelude Complex_Main
begin

text \<open>
  The tree of render nodes: \<open>rs_base_render_node.cpp\<close> with the parts of \<open>rs_render_node.h\<close> and
  \<open>rs_display_render_node.h\<close> it calls (\<open>HasTransition\<close>), and \<open>IsInstanceOf\<close>.

  Nodes are objects of a heap, named by an object number that is never used again. An owning pointer
  and a weak pointer to a node are both its number; a weak pointer whose object is gone is a number
  outside the heap, so \<open>lock()\<close> is a look-up. An object goes away in a step of its own
  (\<open>Render_Context_Inv\<close>), which owning pointers prevent. A function that may recurse for ever returns an
  option: \<open>None\<close> stands for a call that does not return.
\<close>

section \<open>Node types\<close>

datatype rtype = BASE_NODE | DISPLAY_NODE | RS_NODE | SURFACE_NODE | CANVAS_NODE | ROOT_NODE

fun rtype_value :: "rtype \<Rightarrow> 32 word" where
  "rtype_value BASE_NODE = 0x00011"
| "rtype_value DISPLAY_NODE = 0x00111"
| "rtype_value RS_NODE = 0x00211"
| "rtype_value SURFACE_NODE = 0x01211"
| "rtype_value CANVAS_NODE = 0x02211"
| "rtype_value ROOT_NODE = 0x12211"

definition IsInstanceOf :: "rtype \<Rightarrow> rtype \<Rightarrow> bool" where
  "IsInstanceOf target t \<longleftrightarrow> and (rtype_value t) (rtype_value target) = rtype_value target"

section \<open>Nodes and the heap\<close>

record rnode =
  nid :: "64 word"
  ntype :: rtype
  parent :: "nat option"
  isOnTheTree :: bool
  children :: "nat list"
  disappearing :: "(nat \<times> 32 word) list"
  sortedChildren :: "nat list"
  dirty :: bool
  animTransition :: bool
  positionZ :: rat

type_synonym heap = "nat \<Rightarrow> rnode option"

definition new_node :: "64 word \<Rightarrow> rtype \<Rightarrow> bool \<Rightarrow> rnode" where
  "new_node i t onTree =
     \<lparr>nid = i, ntype = t, parent = None, isOnTheTree = onTree, children = [], disappearing = [], sortedChildren = [],
      dirty = True, animTransition = False, positionZ = 0\<rparr>"

abbreviation node :: "heap \<Rightarrow> nat \<Rightarrow> rnode" where
  "node h a \<equiv> the (h a)"

definition upd :: "nat \<Rightarrow> (rnode \<Rightarrow> rnode) \<Rightarrow> heap \<Rightarrow> heap" where
  "upd a f h = (\<lambda>x. if x = a then map_option f (h a) else h x)"

definition lock :: "heap \<Rightarrow> nat option \<Rightarrow> nat option" where
  "lock h w = (case w of None \<Rightarrow> None | Some a \<Rightarrow> if h a = None then None else Some a)"

section \<open>Transitions and the tree flag\<close>

text \<open>
  \<open>HasTransition(false)\<close>: the base class and the display node say no, an \<open>RSRenderNode\<close> asks its
  animations. \<open>HasTransition(true)\<close> of the base class and of \<open>RSRenderNode\<close> goes on to the parent.
\<close>

definition own_transition :: "rnode \<Rightarrow> bool" where
  "own_transition n \<longleftrightarrow> IsInstanceOf RS_NODE (ntype n) \<and> animTransition n"

partial_function (option) HasTransition :: "heap \<Rightarrow> nat \<Rightarrow> bool option" where
  "HasTransition h a =
     (if ntype (node h a) = DISPLAY_NODE then Some False
      else if own_transition (node h a) then Some True
      else (case lock h (parent (node h a)) of None \<Rightarrow> Some False | Some p \<Rightarrow> HasTransition h p))"

partial_function (option) SetIsOnTheTree :: "bool \<Rightarrow> nat \<Rightarrow> heap \<Rightarrow> heap option" where
  "SetIsOnTheTree flag a h =
     (if \<not> flag \<and> \<not> isOnTheTree (node h a) then Some h
      else ofold (\<lambda>c h. if h c = None then Some h else SetIsOnTheTree flag c h)
             (children (node h a)) (upd a (isOnTheTree_update (\<lambda>_. flag)) h))"

declare HasTransition.simps [code] and SetIsOnTheTree.simps [code]

definition ResetParent :: "nat \<Rightarrow> heap \<Rightarrow> heap option" where
  "ResetParent a h = SetIsOnTheTree False a (upd a (parent_update (\<lambda>_. None)) h)"

section \<open>Changing the children\<close>

text \<open>The index of the first occurrence, the distance from \<open>begin\<close> to the iterator found.\<close>

fun index_of :: "'a \<Rightarrow> 'a list \<Rightarrow> nat" where
  "index_of x [] = 0"
| "index_of x (y # ys) = (if x = y then 0 else Suc (index_of x ys))"

definition forget_disappearing :: "nat \<Rightarrow> nat \<Rightarrow> heap \<Rightarrow> heap" where
  "forget_disappearing this c = upd this (disappearing_update (filter (\<lambda>d. fst d \<noteq> c)))"

definition RemoveChild :: "nat \<Rightarrow> nat option \<Rightarrow> heap \<Rightarrow> heap option" where
  "RemoveChild this child h =
     (case child of None \<Rightarrow> Some h
      | Some c \<Rightarrow>
        (if c \<notin> set (children (node h this)) then Some h
         else
           (let h = forget_disappearing this c h
            in Option.bind (HasTransition h c) (\<lambda>t.
               Option.bind
                 (if t then
                    (let origPos = word_of_nat (index_of c (children (node h this)))
                     in Some (upd this (disappearing_update (\<lambda>ds. ds @ [(c, origPos)])) h))
                  else ResetParent c h)
                 (\<lambda>h. Some (upd this (\<lambda>n. n\<lparr>children := remove1 c (children n), dirty := True\<rparr>) h))))))"

definition insert_child :: "nat \<Rightarrow> int \<Rightarrow> nat list \<Rightarrow> nat list" where
  "insert_child c index cs =
     (if index < 0 \<or> index \<ge> int (length cs) then cs @ [c] else take (nat index) cs @ c # drop (nat index) cs)"

definition AddChild :: "nat \<Rightarrow> nat option \<Rightarrow> int \<Rightarrow> heap \<Rightarrow> heap option" where
  "AddChild this child index h =
     (case child of None \<Rightarrow> Some h
      | Some c \<Rightarrow>
        Option.bind (case lock h (parent (node h c)) of None \<Rightarrow> Some h | Some p \<Rightarrow> RemoveChild p (Some c) h)
          (\<lambda>h. let h = upd c (parent_update (\<lambda>_. Some this)) h;
                   h = upd this (children_update (insert_child c index)) h;
                   h = forget_disappearing this c h
               in if isOnTheTree (node h this) then SetIsOnTheTree True c h else Some h))"

definition RemoveFromTree :: "nat \<Rightarrow> heap \<Rightarrow> heap option" where
  "RemoveFromTree this h =
     (case lock h (parent (node h this)) of None \<Rightarrow> Some h | Some p \<Rightarrow> RemoveChild p (Some this) h)"

definition clear_child :: "nat \<Rightarrow> bool \<Rightarrow> nat \<times> nat \<Rightarrow> heap \<Rightarrow> heap option" where
  "clear_child this parentHasTransition cp h =
     (let (c, pos) = cp
      in if h c = None then Some h
         else
           (let h = forget_disappearing this c h
            in if parentHasTransition \<or> own_transition (node h c)
               then Some (upd this (disappearing_update (\<lambda>ds. ds @ [(c, word_of_nat pos)])) h)
               else ResetParent c h))"

definition ClearChildren :: "nat \<Rightarrow> heap \<Rightarrow> heap option" where
  "ClearChildren this h =
     (if children (node h this) = [] then Some h
      else
        Option.bind (HasTransition h this) (\<lambda>t.
        Option.bind (ofold (clear_child this t) (zip (children (node h this)) [0..<length (children (node h this))]) h)
          (\<lambda>h. Some (upd this (\<lambda>n. n\<lparr>children := [], dirty := True\<rparr>) h))))"

section \<open>Sorted children\<close>

text \<open>
  \<open>std::list::sort\<close> is stable; for a comparison that orders the elements weakly its result is the stable
  insertion sort. The comparison takes a node that is no \<open>RSRenderNode\<close> as equal to everything.
\<close>

fun insert_sorted :: "('a \<Rightarrow> 'a \<Rightarrow> bool) \<Rightarrow> 'a \<Rightarrow> 'a list \<Rightarrow> 'a list" where
  "insert_sorted lt x [] = [x]"
| "insert_sorted lt x (y # ys) = (if lt y x then y # insert_sorted lt x ys else x # y # ys)"

definition list_sort :: "('a \<Rightarrow> 'a \<Rightarrow> bool) \<Rightarrow> 'a list \<Rightarrow> 'a list" where
  "list_sort lt xs = foldr (insert_sorted lt) xs []"

definition z_before :: "heap \<Rightarrow> nat \<Rightarrow> nat \<Rightarrow> bool" where
  "z_before h a b \<longleftrightarrow>
     IsInstanceOf RS_NODE (ntype (node h a)) \<and> IsInstanceOf RS_NODE (ntype (node h b)) \<and>
     positionZ (node h a) < positionZ (node h b)"

text \<open>One disappearing child: the entries kept so far and the heap.\<close>

definition place_disappearing ::
    "nat \<Rightarrow> bool \<Rightarrow> nat \<times> 32 word \<Rightarrow> (nat \<times> 32 word) list \<times> heap \<Rightarrow> ((nat \<times> 32 word) list \<times> heap) option" where
  "place_disappearing this parentHasTransition d kh =
     (let (c, origPos) = d; (kept, h) = kh
      in if \<not> parentHasTransition \<and> \<not> own_transition (node h c) then
           Option.bind (if parent (node h c) = Some this then ResetParent c h else Some h) (\<lambda>h. Some (kept, h))
         else
           (let place = (\<lambda>ss. if unat origPos < length ss then take (unat origPos) ss @ c # drop (unat origPos) ss else ss @ [c])
            in Some (kept @ [d], upd this (sortedChildren_update place) h)))"

definition GenerateSortedChildren :: "nat \<Rightarrow> heap \<Rightarrow> heap option" where
  "GenerateSortedChildren this h =
     (let alive = filter (\<lambda>c. h c \<noteq> None) (children (node h this));
          h = upd this (\<lambda>n. n\<lparr>children := alive, sortedChildren := alive\<rparr>) h;
          ds = disappearing (node h this)
      in Option.bind (if ds = [] then Some False else HasTransition h this) (\<lambda>t.
         Option.bind (ofold (place_disappearing this t) ds ([], h)) (\<lambda>(kept, h).
         Some (upd this (\<lambda>n. n\<lparr>disappearing := kept, sortedChildren := list_sort (z_before h) (sortedChildren n)\<rparr>) h))))"

definition GetSortedChildren :: "nat \<Rightarrow> heap \<Rightarrow> (nat list \<times> heap) option" where
  "GetSortedChildren this h =
     Option.bind
       (if sortedChildren (node h this) = [] \<and> (children (node h this) \<noteq> [] \<or> disappearing (node h this) \<noteq> [])
        then GenerateSortedChildren this h else Some h)
       (\<lambda>h. Some (sortedChildren (node h this), h))"

definition ResetSortedChildren :: "nat \<Rightarrow> heap \<Rightarrow> heap" where
  "ResetSortedChildren this = upd this (sortedChildren_update (\<lambda>_. []))"

end
