(* ===== verification/Render_Tree_Inv.thy ===== *)
theory Render_Tree_Inv
  imports Render_Tree
begin

text \<open>
  The invariant of the render tree, \<open>tree_ok\<close>, and the lemmas on the two recursive functions: on a finite
  tree without cycles \<open>HasTransition\<close> and \<open>SetIsOnTheTree\<close> return, and the latter changes nothing but the
  flags of the subtree. A heap with other flags is written \<open>flagged g h\<close>.
\<close>

section \<open>Edges\<close>

definition alive :: "heap \<Rightarrow> nat \<Rightarrow> bool" where
  "alive h a \<longleftrightarrow> h a \<noteq> None"

definition child_edges :: "heap \<Rightarrow> (nat \<times> nat) set" where
  "child_edges h = {(c, p). alive h p \<and> alive h c \<and> c \<in> set (children (node h p))}"

definition up_edges :: "heap \<Rightarrow> (nat \<times> nat) set" where
  "up_edges h = {(c, p). alive h c \<and> alive h p \<and> parent (node h c) = Some p}"

definition lists_ok :: "rnode \<Rightarrow> bool" where
  "lists_ok n \<longleftrightarrow> distinct (children n) \<and> distinct (map fst (disappearing n)) \<and>
     set (children n) \<inter> fst ` set (disappearing n) = {}"

text \<open>
  Children know their parent, and a node with a parent is among its children or its disappearing
  children; the lists have no repetition; what a node owns is there; the parents have no cycle; and the
  children of a node on the tree are on the tree.
\<close>

definition tree_ok :: "heap \<Rightarrow> bool" where
  "tree_ok h \<longleftrightarrow> finite {a. alive h a} \<and> acyclic (up_edges h) \<and>
     (\<forall>c p. alive h c \<longrightarrow> alive h p \<longrightarrow> c \<in> set (children (node h p)) \<longrightarrow>
        parent (node h c) = Some p \<and> (isOnTheTree (node h p) \<longrightarrow> isOnTheTree (node h c))) \<and>
     (\<forall>a. alive h a \<longrightarrow> lists_ok (node h a)) \<and>
     (\<forall>a c. alive h a \<longrightarrow> c \<in> fst ` set (disappearing (node h a)) \<or> c \<in> set (sortedChildren (node h a)) \<longrightarrow> alive h c) \<and>
     (\<forall>c p. alive h c \<longrightarrow> alive h p \<longrightarrow> parent (node h c) = Some p \<longrightarrow>
        c \<in> set (children (node h p)) \<or> c \<in> fst ` set (disappearing (node h p)))"

lemma tree_okD:
  assumes "tree_ok h"
  shows "finite {a. alive h a}" and "acyclic (up_edges h)"
    and "alive h c \<Longrightarrow> alive h p \<Longrightarrow> c \<in> set (children (node h p)) \<Longrightarrow> parent (node h c) = Some p"
    and "alive h c \<Longrightarrow> alive h p \<Longrightarrow> c \<in> set (children (node h p)) \<Longrightarrow> isOnTheTree (node h p) \<Longrightarrow> isOnTheTree (node h c)"
    and "alive h a \<Longrightarrow> lists_ok (node h a)"
    and "alive h a \<Longrightarrow> c \<in> fst ` set (disappearing (node h a)) \<or> c \<in> set (sortedChildren (node h a)) \<Longrightarrow> alive h c"
    and "alive h c \<Longrightarrow> alive h p \<Longrightarrow> parent (node h c) = Some p \<Longrightarrow>
        c \<in> set (children (node h p)) \<or> c \<in> fst ` set (disappearing (node h p))"
  using assms unfolding tree_ok_def by (elim conjE, assumption | elim conjE, (thin_tac "acyclic _")?, (thin_tac "finite _")?, metis)+

lemma single_valued_up: "single_valued (up_edges h)"
  by (auto simp: single_valued_def up_edges_def)

lemma finite_up: "finite {a. alive h a} \<Longrightarrow> finite (up_edges h)"
  by (rule finite_subset[of _ "{a. alive h a} \<times> {a. alive h a}"]) (auto simp: up_edges_def)

lemma child_edges_iff: "(c, p) \<in> child_edges h \<longleftrightarrow> alive h p \<and> alive h c \<and> c \<in> set (children (node h p))"
  by (simp add: child_edges_def)

lemma up_edges_iff: "(c, p) \<in> up_edges h \<longleftrightarrow> alive h c \<and> alive h p \<and> parent (node h c) = Some p"
  by (simp add: up_edges_def)

lemma tree_ok_edges:
  assumes "tree_ok h"
  shows "single_valued (child_edges h)" and "wf (child_edges h)" and "wf ((up_edges h)\<inverse>)"
proof -
  have sub: "child_edges h \<subseteq> up_edges h"
    using tree_okD(3)[OF assms] by (auto simp: child_edges_iff up_edges_iff)
  have f: "finite (up_edges h)" using finite_up tree_okD(1)[OF assms] by blast
  show "wf (child_edges h)" using sub finite_acyclic_wf[OF f] tree_okD(2)[OF assms] by (blast intro: wf_subset)
  show "wf ((up_edges h)\<inverse>)" using finite_acyclic_wf_converse[OF f] tree_okD(2)[OF assms] by blast
  show "single_valued (child_edges h)" using sub single_valued_up single_valued_subset by blast
qed

section \<open>Transitions\<close>

lemma HasTransition_total:
  assumes "wf ((up_edges h)\<inverse>)" and "alive h a"
  shows "\<exists>t. HasTransition h a = Some t"
  using assms
proof (induction a rule: wf_induct_rule)
  case (less a)
  have "\<exists>t. HasTransition h p = Some t" if p: "lock h (parent (node h a)) = Some p" for p
  proof -
    have "(a, p) \<in> up_edges h" and "alive h p"
      using p less.prems by (auto simp: lock_def up_edges_iff alive_def split: option.splits if_splits)
    then show ?thesis using less.IH by auto
  qed
  then show ?case by (subst HasTransition.simps) (auto split: option.split)
qed

section \<open>Flags\<close>

definition flagged :: "(nat \<Rightarrow> bool) \<Rightarrow> heap \<Rightarrow> heap" where
  "flagged g h = (\<lambda>x. map_option (isOnTheTree_update (\<lambda>_. g x)) (h x))"

abbreviation flags :: "heap \<Rightarrow> nat \<Rightarrow> bool" where
  "flags h \<equiv> (\<lambda>x. isOnTheTree (node h x))"

lemma alive_flagged [simp]: "alive (flagged g h) x \<longleftrightarrow> alive h x"
  by (simp add: flagged_def alive_def)

lemma flagged_fields [simp]:
  "alive h x \<Longrightarrow> isOnTheTree (node (flagged g h) x) = g x"
  "alive h x \<Longrightarrow> children (node (flagged g h) x) = children (node h x)"
  "alive h x \<Longrightarrow> disappearing (node (flagged g h) x) = disappearing (node h x)"
  "alive h x \<Longrightarrow> sortedChildren (node (flagged g h) x) = sortedChildren (node h x)"
  "alive h x \<Longrightarrow> parent (node (flagged g h) x) = parent (node h x)"
  by (auto simp: flagged_def alive_def)

lemma flagged_flags [simp]: "flagged (flags h) h = h"
proof
  show "flagged (flags h) h x = h x" for x by (cases "h x") (auto simp: flagged_def)
qed

lemma edges_flagged [simp]: "child_edges (flagged g h) = child_edges h" "up_edges (flagged g h) = up_edges h"
  by (auto simp: child_edges_def up_edges_def)

lemma upd_flag: "upd a (isOnTheTree_update (\<lambda>_. b)) (flagged f h) = flagged (f(a := b)) h"
  by (auto simp: upd_def flagged_def fun_eq_iff option.map_comp o_def)

text \<open>What \<open>SetIsOnTheTree flag a\<close> does to the flags \<open>f\<close>.\<close>

definition marks :: "(nat \<times> nat) set \<Rightarrow> bool \<Rightarrow> nat set \<Rightarrow> (nat \<Rightarrow> bool) \<Rightarrow> (nat \<Rightarrow> bool) \<Rightarrow> bool" where
  "marks E flag A f g \<longleftrightarrow>
     (\<forall>x. g x \<noteq> f x \<longrightarrow> g x = flag \<and> (\<exists>a \<in> A. (x, a) \<in> E\<^sup>*)) \<and>
     (\<forall>(c, p) \<in> E. g c \<noteq> f c \<longrightarrow> c \<in> A \<or> g p = flag) \<and>
     (flag \<longrightarrow> (\<forall>a \<in> A. \<forall>x. (x, a) \<in> E\<^sup>* \<longrightarrow> g x))"

lemma marks_refl [simp]: "\<not> flag \<or> A = {} \<Longrightarrow> marks E flag A f f"
  by (auto simp: marks_def)

lemma marksD:
  assumes "marks E flag A f g"
  shows "g x \<noteq> f x \<Longrightarrow> g x = flag" and "g x \<noteq> f x \<Longrightarrow> \<exists>a \<in> A. (x, a) \<in> E\<^sup>*"
    and "(c, p) \<in> E \<Longrightarrow> g c \<noteq> f c \<Longrightarrow> c \<in> A \<or> g p = flag"
    and "flag \<Longrightarrow> a \<in> A \<Longrightarrow> (x, a) \<in> E\<^sup>* \<Longrightarrow> g x"
    and "f x = flag \<Longrightarrow> g x = flag"
  using assms unfolding marks_def by auto

lemma marks_trans:
  assumes m1: "marks E flag A f g" and m2: "marks E flag B g k"
  shows "marks E flag (A \<union> B) f k"
proof -
  have "k x = flag \<and> (\<exists>a \<in> A \<union> B. (x, a) \<in> E\<^sup>*)" if x: "k x \<noteq> f x" for x
  proof (cases "k x = g x")
    case True
    then show ?thesis using x marksD(1,2)[OF m1, of x] by auto
  next
    case False
    then show ?thesis using marksD(1,2)[OF m2, of x] by auto
  qed
  moreover have "c \<in> A \<union> B \<or> k p = flag" if "(c, p) \<in> E" "k c \<noteq> f c" for c p
  proof (cases "k c = g c")
    case True
    then have "c \<in> A \<or> g p = flag" using that marksD(3)[OF m1] by auto
    then show ?thesis using marksD(5)[OF m2] by auto
  next
    case False
    then show ?thesis using that marksD(3)[OF m2] by auto
  qed
  moreover have "k x" if "flag" "a \<in> A \<union> B" "(x, a) \<in> E\<^sup>*" for a x
    using that marksD(4)[OF m1] marksD(4)[OF m2] marksD(5)[OF m2, of x] by (cases "a \<in> A") auto
  ultimately show ?thesis unfolding marks_def by blast
qed

text \<open>The loop over the children, and the recursion.\<close>

lemma None_alive: "flagged g h c = None \<longleftrightarrow> \<not> alive h c"
  by (simp add: flagged_def alive_def)

lemma marks_children:
  assumes "\<And>c f. c \<in> set cs \<Longrightarrow> alive h c \<Longrightarrow>
      \<exists>g. SetIsOnTheTree flag c (flagged f h) = Some (flagged g h) \<and> marks E flag {c} f g"
  shows "\<exists>g. ofold (\<lambda>c h. if h c = None then Some h else SetIsOnTheTree flag c h) cs (flagged f h) = Some (flagged g h) \<and>
    marks E flag {c \<in> set cs. alive h c} f g"
  using assms
proof (induction cs arbitrary: f)
  case (Cons c cs)
  show ?case
  proof (cases "alive h c")
    case False
    then have "{d \<in> set (c # cs). alive h d} = {d \<in> set cs. alive h d}" by auto
    then show ?thesis using Cons False by (simp add: None_alive)
  next
    case True
    obtain g where g: "SetIsOnTheTree flag c (flagged f h) = Some (flagged g h)" "marks E flag {c} f g"
      using Cons.prems True by auto
    obtain k where k: "ofold (\<lambda>c h. if h c = None then Some h else SetIsOnTheTree flag c h) cs (flagged g h) = Some (flagged k h)"
        "marks E flag {c \<in> set cs. alive h c} g k"
      using Cons by fastforce
    have "{d \<in> set (c # cs). alive h d} = {c} \<union> {d \<in> set cs. alive h d}" using True by auto
    then show ?thesis using True g k marks_trans[OF g(2) k(2)] by (auto simp: None_alive)
  qed
next
  case Nil
  show ?case by (rule exI[of _ f]) simp
qed

lemma SetIsOnTheTree_marks:
  assumes "wf (child_edges h)" and "single_valued (child_edges h)" and "alive h a"
  shows "\<exists>g. SetIsOnTheTree flag a (flagged f h) = Some (flagged g h) \<and> marks (child_edges h) flag {a} f g \<and> g a = flag"
  using assms(1,3)
proof (induction a arbitrary: f rule: wf_induct_rule)
  case (less a)
  let ?E = "child_edges h" and ?cs = "children (node h a)"
  show ?case
  proof (cases "\<not> flag \<and> \<not> f a")
    case True
    then show ?thesis using less.prems by (intro exI[of _ f]) (subst SetIsOnTheTree.simps, simp)
  next
    case False
    have edge: "(c, a) \<in> ?E" if "c \<in> set ?cs" "alive h c" for c
      using that less.prems by (auto simp: child_edges_def)
    have "\<exists>g. SetIsOnTheTree flag c (flagged f' h) = Some (flagged g h) \<and> marks ?E flag {c} f' g"
      if "c \<in> set ?cs" "alive h c" for c f'
      using less.IH[OF edge[OF that] that(2)] by blast
    from marks_children[where cs = ?cs and E = ?E, OF this]
    obtain g where g: "ofold (\<lambda>c h. if h c = None then Some h else SetIsOnTheTree flag c h) ?cs (flagged (f(a := flag)) h) = Some (flagged g h)"
        "marks ?E flag {c \<in> set ?cs. alive h c} (f(a := flag)) g"
      by blast
    have eq: "SetIsOnTheTree flag a (flagged f h) = Some (flagged g h)"
      using False less.prems g(1) by (subst SetIsOnTheTree.simps) (auto simp: upd_flag)
    have ga: "g a = flag" using marksD(5)[OF g(2), of a] by simp
    have "g x = flag \<and> (x, a) \<in> ?E\<^sup>*" if "g x \<noteq> f x" for x
    proof (cases "x = a")
      case False
      then have "g x \<noteq> (f(a := flag)) x" using that by simp
      then show ?thesis using marksD(1,2)[OF g(2), of x] edge by (auto intro: rtrancl_into_rtrancl)
    qed (use ga in simp)
    moreover have "c = a \<or> g p = flag" if "(c, p) \<in> ?E" "g c \<noteq> f c" for c p
    proof (rule disjCI)
      assume "g p \<noteq> flag"
      show "c = a"
      proof (rule ccontr)
        assume "c \<noteq> a"
        then have "c \<in> set ?cs \<and> alive h c" using marksD(3)[OF g(2) that(1)] that(2) \<open>g p \<noteq> flag\<close> by auto
        then have "p = a" using edge that(1) assms(2) by (auto dest: single_valuedD)
        then show False using ga \<open>g p \<noteq> flag\<close> by simp
      qed
    qed
    moreover have "g x" if fl: "flag" and xa: "(x, a) \<in> ?E\<^sup>*" for x
    proof (cases "x = a")
      case False
      then obtain c where "(x, c) \<in> ?E\<^sup>*" and "(c, a) \<in> ?E" using xa by (auto elim: rtranclE)
      then show ?thesis using marksD(4)[OF g(2) fl, of c x] less.prems by (auto simp: child_edges_def)
    qed (use ga fl in simp)
    ultimately have "marks ?E flag {a} f g" unfolding marks_def by auto
    then show ?thesis using eq ga by blast
  qed
qed

section \<open>Updates\<close>

lemma alive_upd [simp]: "alive (upd a f h) x \<longleftrightarrow> alive h x"
  by (simp add: upd_def alive_def)

lemma node_upd: "alive h a \<Longrightarrow> node (upd a f h) x = (if x = a then f (node h a) else node h x)"
  by (auto simp: upd_def alive_def)

end
