(* ===== verification/Render_Tree_Ops.thy ===== *)
theory Render_Tree_Ops
  imports Render_Tree_Inv
begin

text \<open>
  Every operation on the tree returns and keeps \<open>tree_ok\<close>. The loops of \<open>ClearChildren\<close> and
  \<open>GenerateSortedChildren\<close> pass through heaps that do not satisfy it; the lemmas then speak of the heap
  with the list in question replaced by what the loop has left of it, \<open>with_children\<close> and
  \<open>with_disappearing\<close>.
\<close>

lemma tree_okI:
  assumes "finite {a. alive h a}" and "acyclic (up_edges h)"
    and "\<And>c p. alive h c \<Longrightarrow> alive h p \<Longrightarrow> c \<in> set (children (node h p)) \<Longrightarrow>
      parent (node h c) = Some p \<and> (isOnTheTree (node h p) \<longrightarrow> isOnTheTree (node h c))"
    and "\<And>a. alive h a \<Longrightarrow> lists_ok (node h a)"
    and "\<And>a c. alive h a \<Longrightarrow> c \<in> fst ` set (disappearing (node h a)) \<or> c \<in> set (sortedChildren (node h a)) \<Longrightarrow> alive h c"
    and "\<And>c p. alive h c \<Longrightarrow> alive h p \<Longrightarrow> parent (node h c) = Some p \<Longrightarrow>
        c \<in> set (children (node h p)) \<or> c \<in> fst ` set (disappearing (node h p))"
  shows "tree_ok h"
  unfolding tree_ok_def using assms by (intro conjI allI impI) auto

abbreviation with_children :: "nat \<Rightarrow> nat list \<Rightarrow> heap \<Rightarrow> heap" where
  "with_children a L h \<equiv> upd a (children_update (\<lambda>_. L)) h"

abbreviation no_parent :: "nat \<Rightarrow> heap \<Rightarrow> heap" where
  "no_parent c h \<equiv> upd c (parent_update (\<lambda>_. None)) h"

lemma tree_ok_alive_child:
  assumes "tree_ok h" and "alive h p" and "c \<in> set (children (node h p))" and "alive h c"
  shows "parent (node h c) = Some p" and "c \<notin> fst ` set (disappearing (node h p))"
    and "\<And>q. alive h q \<Longrightarrow> c \<in> set (children (node h q)) \<Longrightarrow> q = p"
  using tree_okD(3)[OF assms(1) assms(4,2,3)] tree_okD(3)[OF assms(1) assms(4)] tree_okD(5)[OF assms(1,2)] assms(3)
  by (auto simp: lists_ok_def)

section \<open>Taking a child off\<close>

text \<open>\<open>ResetParent c\<close> where \<open>c\<close> is at once taken from the list \<open>L\<close> of its parent.\<close>

lemma ResetParent_flagged:
  assumes "wf (child_edges h)" and "single_valued (child_edges h)" and "alive h c"
  shows "\<exists>g. ResetParent c h = Some (flagged g (no_parent c h)) \<and> marks (child_edges h) False {c} (flags h) g"
proof -
  let ?h = "no_parent c h"
  have E: "child_edges ?h = child_edges h" using assms(3) by (auto simp: child_edges_def node_upd)
  have f: "flags ?h = flags h" using assms(3) by (auto simp: fun_eq_iff node_upd)
  from SetIsOnTheTree_marks[of ?h c False "flags ?h"] assms show ?thesis
    unfolding ResetParent_def E f flagged_flags[of ?h, unfolded f] by auto
qed

lemma flags_keep:
  assumes m: "marks E False {c} f g" and e: "(x, p) \<in> E" "x \<noteq> c" and f: "f p \<Longrightarrow> f x" and g: "g p"
  shows "g x"
proof (cases "g x = f x")
  case True
  have "f p" using marksD(1)[OF m, of p] g by auto
  then show ?thesis using f True by simp
next
  case False
  then show ?thesis using marksD(3)[OF m e(1)] e(2) g by auto
qed

lemma drop_child:
  assumes v: "tree_ok (with_children this L h)" and ta: "alive h this" and c: "c \<in> set L" "alive h c"
    and m: "marks E False {c} (flags h) g" and E: "child_edges (with_children this L h) \<subseteq> E"
  shows "tree_ok (with_children this (remove1 c L) (flagged g (no_parent c h)))" (is "tree_ok ?w")
proof -
  let ?v = "with_children this L h"
  note ok = tree_okD[OF v]
  have aw [simp]: "alive ?w x \<longleftrightarrow> alive h x" for x by simp
  have av [simp]: "alive ?v x \<longleftrightarrow> alive h x" for x by simp
  have nw: "parent (node ?w x) = (if x = c then None else parent (node ?v x))"
      "children (node ?w x) = (if x = this then remove1 c L else children (node ?v x))"
      "disappearing (node ?w x) = disappearing (node ?v x)" "sortedChildren (node ?w x) = sortedChildren (node ?v x)"
      "isOnTheTree (node ?w x) = g x" "flags h x = isOnTheTree (node ?v x)"
    if "alive h x" for x
    using that ta c by (auto simp: node_upd)
  have L: "children (node ?v this) = L" using ta by (simp add: node_upd)
  note uniq = tree_ok_alive_child[OF v, of this c, unfolded L av, OF ta c]
  have dL: "distinct L" and lv: "\<And>x. alive h x \<Longrightarrow> lists_ok (node ?v x)"
    using ok(5)[of this] ta L ok(5) by (auto simp: lists_ok_def)
  have sub: "x \<in> set (children (node ?v p)) \<and> x \<noteq> c" if "alive h x" "alive h p" "x \<in> set (children (node ?w p))" for x p
    using that nw(2)[of p] L dL uniq(3)[of p] by (auto split: if_splits)
  show ?thesis
  proof (rule tree_okI)
    show "finite {a. alive ?w a}" using ok(1) by simp
    have "up_edges ?w \<subseteq> up_edges ?v" using nw(1) by (auto simp: up_edges_iff split: if_splits)
    then show "acyclic (up_edges ?w)" using ok(2) acyclic_subset by blast
  next
    fix x p assume x: "alive ?w x" and p: "alive ?w p" and i: "x \<in> set (children (node ?w p))"
    then have s: "x \<in> set (children (node ?v p))" "x \<noteq> c" using sub by auto
    then have "(x, p) \<in> E" using E x p by (auto simp: child_edges_iff)
    then have "g p \<longrightarrow> g x" using flags_keep[OF m _ s(2), of p] ok(4)[of x p] s(1) x p nw(6)[of x] nw(6)[of p] by auto
    then show "parent (node ?w x) = Some p \<and> (isOnTheTree (node ?w p) \<longrightarrow> isOnTheTree (node ?w x))"
      using nw(1,5)[of x] nw(5)[of p] s ok(3)[of x p] x p by auto
  next
    fix a assume "alive ?w a"
    then have a: "alive h a" by simp
    have "set (remove1 c L) \<subseteq> set L" by (rule set_remove1_subset)
    then have "set (children (node ?w a)) \<subseteq> set (children (node ?v a))" and "distinct (children (node ?w a))"
      using nw(2)[OF a] L dL lv[OF a] by (auto simp: lists_ok_def)
    then show "lists_ok (node ?w a)" using lv[OF a] nw(3)[OF a] unfolding lists_ok_def by auto
  next
    fix a x assume "alive ?w a" and "x \<in> fst ` set (disappearing (node ?w a)) \<or> x \<in> set (sortedChildren (node ?w a))"
    then show "alive ?w x" using ok(6)[of a x] nw(3,4)[of a] by auto
  next
    fix x p assume x: "alive ?w x" and p: "alive ?w p" and i: "parent (node ?w x) = Some p"
    then show "x \<in> set (children (node ?w p)) \<or> x \<in> fst ` set (disappearing (node ?w p))"
      using nw(1)[of x] nw(2,3)[of p] ok(7)[of x p] L by (auto split: if_splits)
  qed
qed

lemma tree_ok_cong:
  assumes "tree_ok h" and "\<And>x. alive k x \<longleftrightarrow> alive h x"
    and "\<And>x. alive h x \<Longrightarrow> parent (node k x) = parent (node h x) \<and> children (node k x) = children (node h x) \<and>
      disappearing (node k x) = disappearing (node h x) \<and> sortedChildren (node k x) = sortedChildren (node h x) \<and>
      isOnTheTree (node k x) = isOnTheTree (node h x)"
  shows "tree_ok k"
proof -
  have "up_edges k = up_edges h" using assms(2,3) by (auto simp: up_edges_iff)
  then show ?thesis using assms(2,3) tree_okD[OF assms(1)]
    by (intro tree_okI) (simp_all add: lists_ok_def)
qed

lemma upd_same: "alive h a \<Longrightarrow> f (node h a) = node h a \<Longrightarrow> upd a f h = h"
  by (auto simp: upd_def alive_def fun_eq_iff)

lemma forget_id:
  assumes "alive h a" and "c \<notin> fst ` set (disappearing (node h a))"
  shows "forget_disappearing a c h = h"
proof -
  have "filter (\<lambda>d. fst d \<noteq> c) (disappearing (node h a)) = disappearing (node h a)"
    using assms(2) by (intro filter_True) auto
  then show ?thesis unfolding forget_disappearing_def using assms(1) by (intro upd_same) simp_all
qed

lemma keep_child:
  assumes v: "tree_ok (with_children this L h)" and ta: "alive h this" and c: "c \<in> set L" "alive h c"
  shows "tree_ok (with_children this (remove1 c L) (upd this (disappearing_update (\<lambda>ds. ds @ [(c, pos)])) h))" (is "tree_ok ?w")
proof -
  let ?v = "with_children this L h"
  note ok = tree_okD[OF v]
  have aw [simp]: "alive ?w x \<longleftrightarrow> alive h x" "alive ?v x \<longleftrightarrow> alive h x" for x by simp_all
  have nw: "parent (node ?w x) = parent (node ?v x)"
      "children (node ?w x) = (if x = this then remove1 c L else children (node ?v x))"
      "disappearing (node ?w x) = disappearing (node ?v x) @ (if x = this then [(c, pos)] else [])"
      "sortedChildren (node ?w x) = sortedChildren (node ?v x)" "isOnTheTree (node ?w x) = isOnTheTree (node ?v x)"
    if "alive h x" for x
    using that ta by (auto simp: node_upd)
  have L: "children (node ?v this) = L" using ta by (simp add: node_upd)
  have lt: "lists_ok (node ?v this)" using ok(5)[of this] ta by simp
  then have dL: "distinct L" and fresh: "c \<notin> fst ` set (disappearing (node ?v this))"
    using c L unfolding lists_ok_def by auto
  have sub: "x \<in> set (children (node ?v p))" if "alive h p" "x \<in> set (children (node ?w p))" for x p
    using that nw(2)[of p] L dL by (auto split: if_splits)
  have E: "up_edges ?w = up_edges ?v" using nw(1) by (auto simp: up_edges_iff)
  show ?thesis
  proof (rule tree_okI)
    show "finite {a. alive ?w a}" and "acyclic (up_edges ?w)" using ok(1,2) E by simp_all
  next
    fix x p assume "alive ?w x" and "alive ?w p" and "x \<in> set (children (node ?w p))"
    then show "parent (node ?w x) = Some p \<and> (isOnTheTree (node ?w p) \<longrightarrow> isOnTheTree (node ?w x))"
      using sub[of p x] ok(3,4)[of x p] nw(1,5)[of x] nw(5)[of p] by auto
  next
    fix a assume "alive ?w a"
    then have a: "alive h a" by simp
    show "lists_ok (node ?w a)"
    proof (cases "a = this")
      case True
      then show ?thesis using lt nw(2,3)[OF a] L dL fresh unfolding lists_ok_def by auto
    next
      case False
      then show ?thesis using ok(5)[of a] a nw(2,3)[OF a] unfolding lists_ok_def by simp
    qed
  next
    fix a x assume "alive ?w a" and "x \<in> fst ` set (disappearing (node ?w a)) \<or> x \<in> set (sortedChildren (node ?w a))"
    then show "alive ?w x" using ok(6)[of a x] nw(3,4)[of a] c by (auto split: if_splits)
  next
    fix x p assume "alive ?w x" and p: "alive ?w p" and "parent (node ?w x) = Some p"
    then have "x \<in> set (children (node ?v p)) \<or> x \<in> fst ` set (disappearing (node ?v p))"
      using nw(1)[of x] ok(7)[of x p] by auto
    then show "x \<in> set (children (node ?w p)) \<or> x \<in> fst ` set (disappearing (node ?w p))"
      using nw(2,3)[of p] L p by (cases "x = c") (auto split: if_splits)
  qed
qed

text \<open>What every call leaves alone: which objects there are, and their kind.\<close>

definition same_objects :: "heap \<Rightarrow> heap \<Rightarrow> bool" where
  "same_objects h k \<longleftrightarrow> (\<forall>x. (alive k x \<longleftrightarrow> alive h x) \<and> (alive h x \<longrightarrow> nid (node k x) = nid (node h x) \<and>
     ntype (node k x) = ntype (node h x) \<and> animTransition (node k x) = animTransition (node h x) \<and>
     positionZ (node k x) = positionZ (node h x)))"

lemma same_objects_refl [simp]: "same_objects h h"
  by (simp add: same_objects_def)

lemma same_objects_trans: "same_objects h k \<Longrightarrow> same_objects k l \<Longrightarrow> same_objects h l"
  by (simp add: same_objects_def)

lemma same_objects_alive: "same_objects h k \<Longrightarrow> alive k x \<longleftrightarrow> alive h x"
  by (simp add: same_objects_def)

lemma same_objects_flagged: "same_objects h (flagged g h)"
  by (auto simp: same_objects_def flagged_def alive_def)

lemma same_objects_upd:
  assumes "\<And>n. nid (f n) = nid n \<and> ntype (f n) = ntype n \<and> animTransition (f n) = animTransition n \<and> positionZ (f n) = positionZ n"
  shows "same_objects h (upd a f h)"
proof -
  have "node (upd a f h) x = (if x = a then f (node h a) else node h x)" if "alive h x" for x
    using that by (auto simp: upd_def alive_def)
  then show ?thesis unfolding same_objects_def by (simp add: assms)
qed

text \<open>What the operations that only take nodes off keep: no new parent, no new child.\<close>

definition shrinks :: "heap \<Rightarrow> heap \<Rightarrow> bool" where
  "shrinks h k \<longleftrightarrow> same_objects h k \<and> (\<forall>x. alive h x \<longrightarrow>
     (parent (node k x) = parent (node h x) \<or> parent (node k x) = None) \<and> set (children (node k x)) \<subseteq> set (children (node h x)))"

lemma shrinks_refl [simp]: "shrinks h h"
  by (simp add: shrinks_def)

lemma shrinks_trans:
  assumes "shrinks h k" and "shrinks k l"
  shows "shrinks h l"
proof -
  have "(parent (node l x) = parent (node h x) \<or> parent (node l x) = None) \<and> set (children (node l x)) \<subseteq> set (children (node h x))"
    if x: "alive h x" for x
  proof -
    have "alive k x" using assms(1) x by (simp add: shrinks_def same_objects_def)
    then have "parent (node l x) = parent (node k x) \<or> parent (node l x) = None" "set (children (node l x)) \<subseteq> set (children (node k x))"
      using assms(2) unfolding shrinks_def by simp_all
    moreover have "parent (node k x) = parent (node h x) \<or> parent (node k x) = None" "set (children (node k x)) \<subseteq> set (children (node h x))"
      using assms(1) x unfolding shrinks_def by simp_all
    ultimately show ?thesis by auto
  qed
  then show ?thesis using assms same_objects_trans unfolding shrinks_def by blast
qed

lemma shrinks_objects: "shrinks h k \<Longrightarrow> same_objects h k"
  by (simp add: shrinks_def)

lemma shrinks_alive: "shrinks h k \<Longrightarrow> alive k x \<longleftrightarrow> alive h x"
  by (simp add: shrinks_def same_objects_def)

lemma shrinks_up: "shrinks h k \<Longrightarrow> up_edges k \<subseteq> up_edges h"
  by (auto simp: shrinks_def same_objects_def up_edges_iff)

lemma shrinks_upd:
  assumes "\<And>n. nid (f n) = nid n \<and> ntype (f n) = ntype n \<and> animTransition (f n) = animTransition n \<and> positionZ (f n) = positionZ n"
    and "parent (f (node h a)) = parent (node h a) \<or> parent (f (node h a)) = None"
    and "set (children (f (node h a))) \<subseteq> set (children (node h a))"
  shows "shrinks h (upd a f h)"
proof -
  have "node (upd a f h) x = (if x = a then f (node h a) else node h x)" if "alive h x" for x
    using that by (auto simp: upd_def alive_def)
  then show ?thesis unfolding shrinks_def using assms by (simp add: same_objects_upd)
qed

lemma shrinks_reset: "shrinks h (flagged g (no_parent c h))"
proof -
  have "shrinks h (no_parent c h)" by (rule shrinks_upd) simp_all
  moreover have "shrinks k (flagged g k)" for k by (simp add: shrinks_def same_objects_flagged)
  ultimately show ?thesis using shrinks_trans by blast
qed

section \<open>The operations\<close>

lemma RemoveChild_ok:
  assumes ok: "tree_ok h" and a: "alive h this" and c: "alive h c"
  shows "\<exists>k. RemoveChild this (Some c) h = Some k \<and> tree_ok k \<and> shrinks h k \<and> c \<notin> set (children (node k this)) \<and>
    (\<forall>q. alive h q \<longrightarrow> q \<noteq> this \<longrightarrow> children (node k q) = children (node h q))"
proof (cases "c \<in> set (children (node h this))")
  case False
  then show ?thesis using ok by (intro exI[of _ h]) (simp add: RemoveChild_def)
next
  case True
  let ?L = "children (node h this)"
  have fid: "forget_disappearing this c h = h"
    using tree_ok_alive_child(2)[OF ok a True c] by (rule forget_id[OF a])
  have hL: "with_children this ?L h = h" by (rule upd_same[OF a]) simp
  have dL: "distinct ?L" using tree_okD(5)[OF ok a] by (simp add: lists_ok_def)
  let ?fin = "upd this (\<lambda>n. n\<lparr>children := remove1 c (children n), dirty := True\<rparr>)"
  have fin: "tree_ok (?fin k) \<and> shrinks h (?fin k) \<and> c \<notin> set (children (node (?fin k) this)) \<and>
      (\<forall>q. alive h q \<longrightarrow> q \<noteq> this \<longrightarrow> children (node (?fin k) q) = children (node h q))"
    if k: "tree_ok (with_children this (remove1 c ?L) k)" "shrinks h k"
       "\<And>q. alive h q \<Longrightarrow> children (node k q) = children (node h q)" for k
  proof (intro conjI)
    have ak: "alive k this" using a shrinks_alive[OF k(2)] by simp
    show "tree_ok (?fin k)" using k(3)[OF a] ak by (intro tree_ok_cong[OF k(1)]) (simp_all add: node_upd)
    show "shrinks h (?fin k)" by (rule shrinks_trans[OF k(2)], rule shrinks_upd) (simp_all add: set_remove1_subset)
    show "c \<notin> set (children (node (?fin k) this))" using k(3)[OF a] ak dL by (simp add: node_upd)
    show "\<forall>q. alive h q \<longrightarrow> q \<noteq> this \<longrightarrow> children (node (?fin k) q) = children (node h q)"
      using k(3) ak by (simp add: node_upd)
  qed
  obtain t where t: "HasTransition h c = Some t" using HasTransition_total[OF tree_ok_edges(3)[OF ok] c] by blast
  show ?thesis
  proof (cases t)
    case True
    let ?k = "upd this (disappearing_update (\<lambda>ds. ds @ [(c, word_of_nat (index_of c ?L))])) h"
    have "RemoveChild this (Some c) h = Some (?fin ?k)"
      using \<open>c \<in> set ?L\<close> t True by (simp add: RemoveChild_def fid Let_def)
    moreover have "tree_ok (with_children this (remove1 c ?L) ?k)" by (rule keep_child[OF _ a \<open>c \<in> set ?L\<close> c]) (simp add: hL ok)
    moreover have "shrinks h ?k" by (rule shrinks_upd) simp_all
    moreover have "children (node ?k q) = children (node h q)" for q using a by (simp add: node_upd)
    ultimately show ?thesis using fin by blast
  next
    case False
    obtain g where g: "ResetParent c h = Some (flagged g (no_parent c h))" and m: "marks (child_edges h) False {c} (flags h) g"
      using ResetParent_flagged[OF tree_ok_edges(2,1)[OF ok] c] by blast
    let ?k = "flagged g (no_parent c h)"
    have "RemoveChild this (Some c) h = Some (?fin ?k)"
      using \<open>c \<in> set ?L\<close> t False g by (simp add: RemoveChild_def fid Let_def)
    moreover have "tree_ok (with_children this (remove1 c ?L) ?k)" by (rule drop_child[OF _ a \<open>c \<in> set ?L\<close> c m]) (simp_all add: hL ok)
    moreover have "shrinks h ?k" by (rule shrinks_reset)
    moreover have "children (node ?k q) = children (node h q)" if "alive h q" for q using that c by (simp add: node_upd)
    ultimately show ?thesis using fin by blast
  qed
qed

lemma RemoveFromTree_ok:
  assumes "tree_ok h" and "alive h a"
  shows "\<exists>k. RemoveFromTree a h = Some k \<and> tree_ok k \<and> shrinks h k"
proof (cases "lock h (parent (node h a))")
  case None
  then show ?thesis using assms by (simp add: RemoveFromTree_def)
next
  case (Some p)
  then have "alive h p" by (auto simp: lock_def alive_def split: option.splits if_splits)
  then show ?thesis using RemoveChild_ok[OF assms(1), of p a] assms(2) Some by (auto simp: RemoveFromTree_def)
qed

text \<open>The first half of \<open>AddChild\<close>: afterwards the child is on no list of children.\<close>

lemma detach_ok:
  assumes ok: "tree_ok h" and c: "alive h c"
  shows "\<exists>k. (case lock h (parent (node h c)) of None \<Rightarrow> Some h | Some p \<Rightarrow> RemoveChild p (Some c) h) = Some k \<and>
    tree_ok k \<and> shrinks h k \<and> (\<forall>q. alive k q \<longrightarrow> c \<notin> set (children (node k q)))"
proof (cases "lock h (parent (node h c))")
  case None
  then have "parent (node h c) \<noteq> Some q" if "alive h q" for q using that by (auto simp: lock_def alive_def)
  then have "c \<notin> set (children (node h q))" if "alive h q" for q using that tree_okD(3)[OF ok c that] by blast
  then show ?thesis using None ok by simp
next
  case (Some p)
  then have p: "alive h p" "parent (node h c) = Some p" by (auto simp: lock_def alive_def split: option.splits if_splits)
  obtain k where k: "RemoveChild p (Some c) h = Some k" "tree_ok k" "shrinks h k" "c \<notin> set (children (node k p))"
      "\<And>q. alive h q \<Longrightarrow> q \<noteq> p \<Longrightarrow> children (node k q) = children (node h q)"
    using RemoveChild_ok[OF ok p(1) c] by blast
  have "c \<notin> set (children (node k q))" if "alive k q" for q
  proof (cases "q = p")
    case False
    have "alive h q" using that shrinks_alive[OF k(3)] by simp
    then show ?thesis using k(5)[of q] False tree_okD(3)[OF ok c, of q] p(2) by auto
  qed (use k(4) in simp)
  then show ?thesis using Some k by auto
qed

lemma set_insert_child: "set (insert_child c i cs) = insert c (set cs)"
proof (cases "i < 0 \<or> i \<ge> int (length cs)")
  case False
  have "set (take (nat i) cs) \<union> set (drop (nat i) cs) = set cs" by (metis append_take_drop_id set_append)
  then show ?thesis using False by (simp add: insert_child_def)
qed (auto simp: insert_child_def)

lemma distinct_insert_child: "distinct cs \<Longrightarrow> c \<notin> set cs \<Longrightarrow> distinct (insert_child c i cs)"
  using set_take_disj_set_drop_if_distinct[of cs "nat i" "nat i"]
  by (auto simp: insert_child_def dest: in_set_takeD in_set_dropD)

lemma attach_ok:
  assumes ok: "tree_ok h" and a: "alive h this" and c: "alive h c" and orphan: "\<forall>q. alive h q \<longrightarrow> c \<notin> set (children (node h q))"
    and acyc: "(this, c) \<notin> (up_edges h)\<^sup>*"
    and k: "k = forget_disappearing this c (upd this (children_update (insert_child c i)) (upd c (parent_update (\<lambda>_. Some this)) h))"
  shows "\<exists>l. (if isOnTheTree (node k this) then SetIsOnTheTree True c k else Some k) = Some l \<and> tree_ok l \<and> same_objects h l \<and>
    parent (node l c) = Some this \<and> set (children (node l this)) = insert c (set (children (node h this))) \<and>
    (\<forall>x. alive h x \<longrightarrow> (x \<noteq> c \<longrightarrow> parent (node l x) = parent (node h x)) \<and>
      set (children (node l x)) \<subseteq> insert c (set (children (node h x))) \<and>
      set (disappearing (node l x)) \<subseteq> set (disappearing (node h x)) \<and> sortedChildren (node l x) = sortedChildren (node h x))"
proof -
  note okD = tree_okD[OF ok]
  have ne: "this \<noteq> c" using acyc by auto
  have ak: "alive k x \<longleftrightarrow> alive h x" for x by (simp add: k forget_disappearing_def)
  have nk: "parent (node k x) = (if x = c then Some this else parent (node h x))"
      "children (node k x) = (if x = this then insert_child c i (children (node h x)) else children (node h x))"
      "disappearing (node k x) = (if x = this then filter (\<lambda>d. fst d \<noteq> c) (disappearing (node h x)) else disappearing (node h x))"
      "sortedChildren (node k x) = sortedChildren (node h x)" "isOnTheTree (node k x) = isOnTheTree (node h x)"
    for x
    using a c by (auto simp: k forget_disappearing_def node_upd)
  have Ek: "child_edges k = insert (c, this) (child_edges h)"
    using a c by (auto simp: child_edges_iff ak nk set_insert_child split: if_splits)
  have Uk: "up_edges k \<subseteq> insert (c, this) (up_edges h)"
    by (auto simp: up_edges_iff ak nk split: if_splits)
  have acu: "acyclic (up_edges k)"
    by (rule acyclic_subset[OF _ Uk]) (simp add: acyclic_insert okD(2) acyc)
  have Esub: "child_edges k \<subseteq> up_edges k"
    using okD(3) a c orphan by (auto simp: child_edges_iff up_edges_iff ak nk set_insert_child split: if_splits)
  have fin: "finite {x. alive k x}" using okD(1) by (simp add: ak)
  have wfk: "wf (child_edges k)"
    using Esub finite_acyclic_wf[OF finite_up[OF fin] acu] by (blast intro: wf_subset)
  have sv: "single_valued (child_edges k)" using Esub single_valued_up single_valued_subset by blast
  have tree: "tree_ok (flagged g k)" if g: "\<And>x p. (x, p) \<in> child_edges k \<Longrightarrow> g p \<Longrightarrow> g x" for g
  proof (rule tree_okI)
    show "finite {x. alive (flagged g k) x}" and "acyclic (up_edges (flagged g k))" using fin acu by simp_all
  next
    fix x p assume x: "alive (flagged g k) x" "alive (flagged g k) p" "x \<in> set (children (node (flagged g k) p))"
    then have e: "(x, p) \<in> child_edges k" by (simp add: child_edges_iff)
    then have "parent (node k x) = Some p" using Esub by (auto simp: up_edges_iff)
    then show "parent (node (flagged g k) x) = Some p \<and> (isOnTheTree (node (flagged g k) p) \<longrightarrow> isOnTheTree (node (flagged g k) x))"
      using x g[OF e] by simp
  next
    fix x assume x: "alive (flagged g k) x"
    then have "lists_ok (node h x)" and "x = this \<Longrightarrow> c \<notin> set (children (node h x))" using okD(5) orphan ak by auto
    then show "lists_ok (node (flagged g k) x)"
      using x by (auto simp: lists_ok_def nk set_insert_child distinct_insert_child distinct_map_filter)
  next
    fix x y assume "alive (flagged g k) x"
      and "y \<in> fst ` set (disappearing (node (flagged g k) x)) \<or> y \<in> set (sortedChildren (node (flagged g k) x))"
    then show "alive (flagged g k) y" using okD(6)[of x y] ak by (auto simp: nk split: if_splits)
  next
    fix x p assume x: "alive (flagged g k) x" "alive (flagged g k) p" "parent (node (flagged g k) x) = Some p"
    show "x \<in> set (children (node (flagged g k) p)) \<or> x \<in> fst ` set (disappearing (node (flagged g k) p))"
    proof (cases "x = c")
      case True
      then show ?thesis using x by (simp add: nk set_insert_child)
    next
      case False
      then have "x \<in> set (children (node h p)) \<or> x \<in> fst ` set (disappearing (node h p))"
        using x okD(7)[of x p] ak by (simp add: nk)
      then show ?thesis using False x by (auto simp: nk set_insert_child)
    qed
  qed
  have so: "same_objects h k"
    unfolding k forget_disappearing_def by (rule same_objects_trans, rule same_objects_trans; rule same_objects_upd) simp_all
  have close: "\<exists>l. Some (flagged g k) = Some l \<and> tree_ok l \<and> same_objects h l \<and>
    parent (node l c) = Some this \<and> set (children (node l this)) = insert c (set (children (node h this))) \<and>
    (\<forall>x. alive h x \<longrightarrow> (x \<noteq> c \<longrightarrow> parent (node l x) = parent (node h x)) \<and>
      set (children (node l x)) \<subseteq> insert c (set (children (node h x))) \<and>
      set (disappearing (node l x)) \<subseteq> set (disappearing (node h x)) \<and> sortedChildren (node l x) = sortedChildren (node h x))"
    if "\<And>x p. (x, p) \<in> child_edges k \<Longrightarrow> g p \<Longrightarrow> g x" for g
    using tree[OF that] same_objects_trans[OF so same_objects_flagged] a c by (auto simp: nk ak set_insert_child)
  have old: "isOnTheTree (node k p) \<Longrightarrow> isOnTheTree (node k x)" if "(x, p) \<in> child_edges k" "x \<noteq> c" for x p
    using that okD(4)[of x p] by (auto simp: Ek child_edges_iff nk)
  show ?thesis
  proof (cases "isOnTheTree (node k this)")
    case False
    have "isOnTheTree (node k x)" if e: "(x, p) \<in> child_edges k" "isOnTheTree (node k p)" for x p
    proof (cases "x = c")
      case True
      then have "p = this" using e(1) orphan by (auto simp: Ek child_edges_iff)
      then show ?thesis using False e(2) by simp
    qed (use old e in blast)
    from close[of "flags k", OF this] show ?thesis using False by simp
  next
    case True
    obtain g where g: "SetIsOnTheTree True c k = Some (flagged g k)" and m: "marks (child_edges k) True {c} (flags k) g" and gc: "g c"
      using SetIsOnTheTree_marks[OF wfk sv, of c True "flags k"] c ak by auto
    have "g x" if e: "(x, p) \<in> child_edges k" "g p" for x p
    proof (cases "flags k p")
      case True
      then show ?thesis using old[OF e(1)] marksD(5)[OF m, of x] gc by (cases "x = c") auto
    next
      case False
      then have "(p, c) \<in> (child_edges k)\<^sup>*" using marksD(2)[OF m, of p] e(2) by auto
      then show ?thesis using marksD(4)[OF m, of c x] e(1) by (auto intro: converse_rtrancl_into_rtrancl)
    qed
    from close[of g, OF this] show ?thesis using True g by simp
  qed
qed

lemma AddChild_ok:
  assumes ok: "tree_ok h" and a: "alive h this" and c: "alive h c" and acyc: "(this, c) \<notin> (up_edges h)\<^sup>*"
  shows "\<exists>k. AddChild this (Some c) i h = Some k \<and> tree_ok k \<and> same_objects h k \<and>
    parent (node k c) = Some this \<and> c \<in> set (children (node k this)) \<and>
    (\<forall>x. alive h x \<longrightarrow> x \<noteq> c \<longrightarrow> parent (node k x) = parent (node h x) \<or> parent (node k x) = None) \<and>
    (\<forall>x. alive h x \<longrightarrow> set (children (node k x)) \<subseteq> insert c (set (children (node h x)))) \<and>
    (parent (node h c) = None \<longrightarrow> (\<forall>x. alive h x \<longrightarrow>
      set (disappearing (node k x)) \<subseteq> set (disappearing (node h x)) \<and> sortedChildren (node k x) = sortedChildren (node h x)))"
proof -
  obtain k where k: "(case lock h (parent (node h c)) of None \<Rightarrow> Some h | Some p \<Rightarrow> RemoveChild p (Some c) h) = Some k"
      "tree_ok k" "shrinks h k" "\<forall>q. alive k q \<longrightarrow> c \<notin> set (children (node k q))"
    using detach_ok[OF ok c] by blast
  have "alive k this" "alive k c" "(this, c) \<notin> (up_edges k)\<^sup>*"
    using a c acyc shrinks_alive[OF k(3)] rtrancl_mono[OF shrinks_up[OF k(3)]] by auto
  from attach_ok[OF k(2) this(1,2) k(4) this(3) refl, of i]
  obtain l where l: "AddChild this (Some c) i h = Some l" "tree_ok l" "same_objects k l" "parent (node l c) = Some this"
      "c \<in> set (children (node l this))"
      "\<And>x. alive k x \<Longrightarrow> x \<noteq> c \<Longrightarrow> parent (node l x) = parent (node k x)"
      "\<And>x. alive k x \<Longrightarrow> set (children (node l x)) \<subseteq> insert c (set (children (node k x)))"
      "\<And>x. alive k x \<Longrightarrow> set (disappearing (node l x)) \<subseteq> set (disappearing (node k x)) \<and> sortedChildren (node l x) = sortedChildren (node k x)"
    unfolding AddChild_def option.case k(1) Option.bind.bind_lunit Let_def by blast
  have p: "parent (node l x) = parent (node h x) \<or> parent (node l x) = None" if "alive h x" "x \<noteq> c" for x
    using that l(6)[of x] k(3) shrinks_alive[OF k(3), of x] unfolding shrinks_def by metis
  have q: "\<forall>x. alive h x \<longrightarrow> set (disappearing (node l x)) \<subseteq> set (disappearing (node h x)) \<and> sortedChildren (node l x) = sortedChildren (node h x)"
    if "parent (node h c) = None"
  proof -
    have "k = h" using k(1) that by (simp add: lock_def)
    then show ?thesis using l(8) by simp
  qed
  show ?thesis
  proof (rule exI[of _ l], intro conjI)
    show "AddChild this (Some c) i h = Some l" "tree_ok l" "parent (node l c) = Some this" "c \<in> set (children (node l this))"
      by (rule l)+
    show "same_objects h l" by (rule same_objects_trans[OF shrinks_objects[OF k(3)] l(3)])
    show "\<forall>x. alive h x \<longrightarrow> x \<noteq> c \<longrightarrow> parent (node l x) = parent (node h x) \<or> parent (node l x) = None"
      using p by blast
    show "\<forall>x. alive h x \<longrightarrow> set (children (node l x)) \<subseteq> insert c (set (children (node h x)))"
      using l(7) k(3) shrinks_alive[OF k(3)] unfolding shrinks_def by blast
    show "parent (node h c) = None \<longrightarrow> (\<forall>x. alive h x \<longrightarrow>
      set (disappearing (node l x)) \<subseteq> set (disappearing (node h x)) \<and> sortedChildren (node l x) = sortedChildren (node h x))"
      using q by blast
  qed
qed

end
