(* ===== verification/Render_Tree_Lists.thy ===== *)
theory Render_Tree_Lists
  imports Render_Tree_Ops "HOL-Library.Multiset"
begin

text \<open>
  \<open>ClearChildren\<close>, \<open>GenerateSortedChildren\<close> and \<open>GetSortedChildren\<close> return and keep \<open>tree_ok\<close>, and what
  the sorted list holds.
\<close>

text \<open>Dropping expired children, and any change of the sorted list within the living nodes.\<close>

lemma tree_ok_prune:
  assumes ok: "tree_ok h" and al: "\<And>x. alive k x \<longleftrightarrow> alive h x"
    and f: "\<And>x. alive h x \<Longrightarrow> parent (node k x) = parent (node h x) \<and> isOnTheTree (node k x) = isOnTheTree (node h x) \<and>
      disappearing (node k x) = disappearing (node h x)"
    and ch: "\<And>x. alive h x \<Longrightarrow> distinct (children (node k x)) \<and> set (children (node k x)) \<subseteq> set (children (node h x)) \<and>
      {c \<in> set (children (node h x)). alive h c} \<subseteq> set (children (node k x))"
    and so: "\<And>x c. alive h x \<Longrightarrow> c \<in> set (sortedChildren (node k x)) \<Longrightarrow> alive h c"
  shows "tree_ok k"
proof -
  note okD = tree_okD[OF ok]
  have up: "up_edges k = up_edges h" using f al by (auto simp: up_edges_iff)
  show ?thesis
  proof (rule tree_okI)
    show "finite {a. alive k a}" and "acyclic (up_edges k)" using okD(1,2) al up by simp_all
  next
    fix c p assume c: "alive k c" "alive k p" "c \<in> set (children (node k p))"
    then have "c \<in> set (children (node h p))" using ch[of p] al by auto
    then show "parent (node k c) = Some p \<and> (isOnTheTree (node k p) \<longrightarrow> isOnTheTree (node k c))"
      using okD(3,4)[of c p] f[of c] f[of p] al c by simp
  next
    fix a assume "alive k a"
    then have a: "alive h a" using al by simp
    show "lists_ok (node k a)" using okD(5)[OF a] f[OF a] ch[OF a] unfolding lists_ok_def by auto
  next
    fix a c assume "alive k a" and "c \<in> fst ` set (disappearing (node k a)) \<or> c \<in> set (sortedChildren (node k a))"
    then show "alive k c" using okD(6)[of a c] f[of a] so[of a c] al by auto
  next
    fix c p assume c: "alive k c" "alive k p" "parent (node k c) = Some p"
    then have "alive h c" "alive h p" "parent (node h c) = Some p" using f[of c] al by auto
    from okD(7)[OF this] show "c \<in> set (children (node k p)) \<or> c \<in> fst ` set (disappearing (node k p))"
      using f[OF \<open>alive h p\<close>] ch[OF \<open>alive h p\<close>] \<open>alive h c\<close> by auto
  qed
qed

section \<open>Clearing\<close>

lemma clear_child_ok:
  assumes v: "tree_ok (with_children this (c # cs) h)" and a: "alive h this"
    and E: "wf (child_edges h)" "single_valued (child_edges h)" and sub: "set (c # cs) \<subseteq> set (children (node h this))"
  shows "\<exists>k. clear_child this t (c, pos) h = Some k \<and> tree_ok (with_children this cs k) \<and> shrinks h k \<and>
    child_edges k = child_edges h \<and> children (node k this) = children (node h this)"
proof (cases "alive h c")
  case False
  have "tree_ok (with_children this cs h)"
  proof (rule tree_ok_prune[OF v])
    fix x assume "alive (with_children this (c # cs) h) x"
    then show "distinct (children (node (with_children this cs h) x)) \<and>
        set (children (node (with_children this cs h) x)) \<subseteq> set (children (node (with_children this (c # cs) h) x)) \<and>
        {d \<in> set (children (node (with_children this (c # cs) h) x)). alive (with_children this (c # cs) h) d}
          \<subseteq> set (children (node (with_children this cs h) x))"
      using tree_okD(5)[OF v, of x] a False by (auto simp: node_upd lists_ok_def)
  qed (use a tree_okD(6)[OF v] in \<open>auto simp: node_upd split: if_splits\<close>)
  then show ?thesis using False by (simp add: clear_child_def alive_def)
next
  case True
  have L: "c \<in> set (c # cs)" by simp
  have "c \<notin> fst ` set (disappearing (node h this))"
    using tree_okD(5)[OF v, of this] a by (auto simp: lists_ok_def node_upd)
  then have fid: "forget_disappearing this c h = h" by (rule forget_id[OF a])
  show ?thesis
  proof (cases "t \<or> own_transition (node h c)")
    case keep: True
    let ?k = "upd this (disappearing_update (\<lambda>ds. ds @ [(c, word_of_nat pos)])) h"
    have "clear_child this t (c, pos) h = Some ?k"
      using True keep by (auto simp: clear_child_def fid alive_def)
    moreover have "tree_ok (with_children this cs ?k)" using keep_child[OF v a L True] by simp
    moreover have "shrinks h ?k" by (rule shrinks_upd) simp_all
    moreover have "child_edges ?k = child_edges h" and "children (node ?k this) = children (node h this)"
      using a by (auto simp: child_edges_iff node_upd split: if_splits)
    ultimately show ?thesis by blast
  next
    case drop: False
    obtain g where g: "ResetParent c h = Some (flagged g (no_parent c h))" and m: "marks (child_edges h) False {c} (flags h) g"
      using ResetParent_flagged[OF E True] by blast
    let ?k = "flagged g (no_parent c h)"
    have "child_edges (with_children this (c # cs) h) \<subseteq> child_edges h"
      using sub a by (auto simp: child_edges_iff node_upd split: if_splits)
    then have "tree_ok (with_children this cs ?k)" using drop_child[OF v a L True m] by simp
    moreover have "clear_child this t (c, pos) h = Some ?k"
      using True drop g by (auto simp: clear_child_def fid alive_def)
    moreover have "child_edges ?k = child_edges h" and "children (node ?k this) = children (node h this)"
      using True a by (auto simp: child_edges_iff node_upd split: if_splits)
    ultimately show ?thesis using shrinks_reset by blast
  qed
qed

lemma clear_loop_ok:
  assumes "tree_ok (with_children this cs h)" and "alive h this"
    and "wf (child_edges h)" and "single_valued (child_edges h)" and "set cs \<subseteq> set (children (node h this))"
    and "length ps = length cs"
  shows "\<exists>k. ofold (clear_child this t) (zip cs ps) h = Some k \<and> tree_ok (with_children this [] k) \<and> shrinks h k"
  using assms
proof (induction cs arbitrary: h ps)
  case (Cons c cs)
  obtain p ps' where ps: "ps = p # ps'" and len: "length ps' = length cs" using Cons.prems(6) by (cases ps) auto
  obtain k where k: "clear_child this t (c, p) h = Some k" "tree_ok (with_children this cs k)" "shrinks h k"
      "child_edges k = child_edges h" "children (node k this) = children (node h this)"
    using clear_child_ok[OF Cons.prems(1-5), where pos = p and t = t] by blast
  have "alive k this" using Cons.prems(2) shrinks_alive[OF k(3)] by simp
  then obtain l where "ofold (clear_child this t) (zip cs ps') k = Some l" "tree_ok (with_children this [] l)" "shrinks k l"
    using Cons.IH[OF k(2) _ _ _ _ len] Cons.prems k(4,5) by auto
  then show ?case using k(1) shrinks_trans[OF k(3)] by (auto simp: ps)
qed auto

lemma ClearChildren_ok:
  assumes ok: "tree_ok h" and a: "alive h this"
  shows "\<exists>k. ClearChildren this h = Some k \<and> tree_ok k \<and> shrinks h k \<and> children (node k this) = []"
proof (cases "children (node h this) = []")
  case True
  then show ?thesis using ok by (simp add: ClearChildren_def)
next
  case False
  let ?cs = "children (node h this)"
  obtain t where t: "HasTransition h this = Some t" using HasTransition_total[OF tree_ok_edges(3)[OF ok] a] by blast
  have "with_children this ?cs h = h" by (rule upd_same[OF a]) simp
  then obtain k where k: "ofold (clear_child this t) (zip ?cs [0..<length ?cs]) h = Some k"
      "tree_ok (with_children this [] k)" "shrinks h k"
    using clear_loop_ok[where cs = ?cs and h = h, OF _ a tree_ok_edges(2,1)[OF ok] subset_refl, of "[0..<length ?cs]" t] ok by auto
  let ?l = "upd this (\<lambda>n. n\<lparr>children := [], dirty := True\<rparr>) k"
  have ak: "alive k this" using a shrinks_alive[OF k(3)] by simp
  have "tree_ok ?l" using ak by (intro tree_ok_cong[OF k(2)]) (simp_all add: node_upd)
  moreover have "shrinks h ?l" by (rule shrinks_trans[OF k(3)], rule shrinks_upd) simp_all
  moreover have "children (node ?l this) = []" using ak by (simp add: node_upd)
  ultimately show ?thesis using False t k(1) by (simp add: ClearChildren_def)
qed

section \<open>Sorting\<close>

lemma list_sort_key:
  assumes "\<forall>a \<in> set xs. IsInstanceOf RS_NODE (ntype (node h a))"
  shows "list_sort (z_before h) xs = sort_key (\<lambda>a. positionZ (node h a)) xs"
proof -
  let ?z = "\<lambda>a. positionZ (node h a)" and ?rs = "\<lambda>a. IsInstanceOf RS_NODE (ntype (node h a))"
  have ins: "insert_sorted (z_before h) x ys = insort_key ?z x ys" if "?rs x" "\<forall>a \<in> set ys. ?rs a" for x ys
    using that by (induction ys) (auto simp: z_before_def)
  have "foldr (insert_sorted (z_before h)) xs [] = foldr (insort_key ?z) xs [] \<and> set (foldr (insort_key ?z) xs []) = set xs"
    using assms by (induction xs) (auto simp: ins set_insort_key)
  then show ?thesis by (simp add: list_sort_def sort_key_def)
qed

lemma sort_key_agree:
  assumes "\<forall>a \<in> set xs. f a = g a"
  shows "sort_key f xs = sort_key g xs"
proof -
  have ins: "insort_key f x ys = insort_key g x ys" if "\<forall>a \<in> insert x (set ys). f a = g a" for x ys
    using that by (induction ys) auto
  show ?thesis using assms by (induction xs) (auto intro!: ins)
qed

lemma mset_list_sort [simp]: "mset (list_sort lt xs) = mset xs"
proof -
  have ins: "mset (insert_sorted lt x ys) = add_mset x (mset ys)" for x ys
    by (induction lt x ys rule: insert_sorted.induct) auto
  show ?thesis unfolding list_sort_def by (induction xs) (simp_all add: ins)
qed

section \<open>Disappearing children\<close>

abbreviation with_disappearing :: "nat \<Rightarrow> (nat \<times> 32 word) list \<Rightarrow> heap \<Rightarrow> heap" where
  "with_disappearing a ds h \<equiv> upd a (disappearing_update (\<lambda>_. ds)) h"

lemma lists_ok_sub:
  assumes "lists_ok n" and "distinct (children m)" and "distinct (map fst (disappearing m))"
    and "set (children m) \<subseteq> set (children n)" and "fst ` set (disappearing m) \<subseteq> fst ` set (disappearing n)"
  shows "lists_ok m"
  using assms unfolding lists_ok_def by blast

lemma tree_ok_undisappear:
  assumes v: "tree_ok (with_disappearing this (kept @ (c, pos) # ds) h)" and a: "alive h this"
    and k: "(parent (node h c) \<noteq> Some this \<and> k = h) \<or>
      (\<exists>g. parent (node h c) = Some this \<and> k = flagged g (no_parent c h) \<and> marks (child_edges h) False {c} (flags h) g)"
  shows "tree_ok (with_disappearing this (kept @ ds) k)" (is "tree_ok ?w")
proof -
  let ?v = "with_disappearing this (kept @ (c, pos) # ds) h"
  note okD = tree_okD[OF v]
  have c: "alive h c" using okD(6)[of this c] a by (simp add: node_upd)
  have al: "alive k x \<longleftrightarrow> alive h x" for x using k by auto
  have nv: "parent (node ?v x) = parent (node h x)" "children (node ?v x) = children (node h x)"
      "isOnTheTree (node ?v x) = isOnTheTree (node h x)" "sortedChildren (node ?v x) = sortedChildren (node h x)"
      "disappearing (node ?v x) = (if x = this then kept @ (c, pos) # ds else disappearing (node h x))" for x
    using a by (auto simp: node_upd)
  have nk: "children (node k x) = children (node h x)" "sortedChildren (node k x) = sortedChildren (node h x)"
      "disappearing (node k x) = disappearing (node h x)"
      "parent (node k x) = parent (node h x) \<or> x = c \<and> parent (node k x) = None"
      "x = c \<Longrightarrow> parent (node k x) \<noteq> Some this" if "alive h x" for x
    using k that c by (auto simp: node_upd split: if_splits)
  have nw: "children (node ?w x) = children (node h x)" "sortedChildren (node ?w x) = sortedChildren (node h x)"
      "disappearing (node ?w x) = (if x = this then kept @ ds else disappearing (node h x))"
      "parent (node ?w x) = parent (node k x)" "isOnTheTree (node ?w x) = isOnTheTree (node k x)" if "alive h x" for x
    using that nk(1-3)[of x] nk(1,2)[OF a] a al by (auto simp: node_upd)
  have lists: "lists_ok (node ?v x)" if "alive h x" for x using okD(5) that by simp
  have cn: "c \<notin> set (children (node h this))" using lists[OF a] by (auto simp: lists_ok_def nv)
  have up: "up_edges ?w \<subseteq> up_edges ?v"
  proof
    fix e assume "e \<in> up_edges ?w"
    moreover obtain x p where "e = (x, p)" by (cases e)
    ultimately show "e \<in> up_edges ?v" using nk(4)[of x] nw(4)[of x] by (auto simp: up_edges_iff nv al)
  qed
  have edge: "x \<noteq> c" if "alive h p" "x \<in> set (children (node h p))" "k \<noteq> h" for x p
    using okD(3)[of c p] that k c cn by (auto simp: nv)
  have flag: "isOnTheTree (node k x)" if x: "alive h x" "alive h p" "x \<in> set (children (node h p))" "isOnTheTree (node k p)" for x p
  proof (cases "k = h")
    case False
    then obtain g where g: "k = flagged g (no_parent c h)" "marks (child_edges h) False {c} (flags h) g" using k by blast
    have "(x, p) \<in> child_edges h" using x by (simp add: child_edges_iff)
    then have "g x" using flags_keep[OF g(2) _ edge[OF x(2,3) False]] okD(4)[of x p] x g(1) by (auto simp: nv)
    then show ?thesis using g(1) x(1) by simp
  qed (use okD(4)[of x p] x nv in auto)
  show ?thesis
  proof (rule tree_okI)
    show "finite {x. alive ?w x}" using okD(1) al by simp
    show "acyclic (up_edges ?w)" using okD(2) up acyclic_subset by blast
  next
    fix x p assume "alive ?w x" "alive ?w p" "x \<in> set (children (node ?w p))"
    then have x: "alive h x" "alive h p" "x \<in> set (children (node h p))" using al nw(1) by auto
    have "parent (node h x) = Some p" using okD(3)[of x p] x by (simp add: nv)
    then have "parent (node k x) = Some p" using nk(4)[OF x(1)] edge[OF x(2,3)] by auto
    then show "parent (node ?w x) = Some p \<and> (isOnTheTree (node ?w p) \<longrightarrow> isOnTheTree (node ?w x))"
      using flag[OF x] nw(4,5)[OF x(1)] nw(5)[OF x(2)] by simp
  next
    fix x assume "alive ?w x"
    then have x: "alive h x" using al by simp
    have "distinct (children (node ?v x))" "distinct (map fst (disappearing (node ?v x)))"
      using lists[OF x] by (simp_all add: lists_ok_def)
    then show "lists_ok (node ?w x)"
      using nw(1,3)[OF x] by (intro lists_ok_sub[OF lists[OF x]]) (auto simp: nv split: if_splits)
  next
    fix x y assume "alive ?w x" "y \<in> fst ` set (disappearing (node ?w x)) \<or> y \<in> set (sortedChildren (node ?w x))"
    moreover from this(1) have x: "alive h x" using al by simp
    ultimately have "y \<in> fst ` set (disappearing (node ?v x)) \<or> y \<in> set (sortedChildren (node ?v x))"
      using nw(2,3)[OF x] by (auto simp: nv split: if_splits)
    then show "alive ?w y" using okD(6)[of x y] x al by simp
  next
    fix x p assume "alive ?w x" "alive ?w p" "parent (node ?w x) = Some p"
    then have x: "alive h x" "alive h p" "parent (node k x) = Some p" using al nw(4) by auto
    then have "parent (node h x) = Some p" using nk(4)[OF x(1)] by auto
    then have "x \<in> set (children (node h p)) \<or> x \<in> fst ` set (disappearing (node ?v p))"
      using okD(7)[of x p] x by (auto simp: nv)
    moreover have "p = this \<Longrightarrow> x \<noteq> c" using nk(5)[OF x(1)] x(3) by auto
    ultimately show "x \<in> set (children (node ?w p)) \<or> x \<in> fst ` set (disappearing (node ?w p))"
      using nw(1,3)[OF x(2)] by (auto simp: nv split: if_splits)
  qed
qed

lemma place_disappearing_ok:
  assumes v: "tree_ok (with_disappearing this (kept @ d # ds) h)" and a: "alive h this"
    and E: "wf (child_edges h)" "single_valued (child_edges h)" and P_def: "P \<longleftrightarrow> t \<or> own_transition (node h (fst d))"
  shows "\<exists>k. place_disappearing this t d (kept, h) = Some (kept @ (if P then [d] else []), k) \<and>
    tree_ok (with_disappearing this (kept @ (if P then [d] else []) @ ds) k) \<and> shrinks h k \<and> child_edges k = child_edges h \<and>
    mset (sortedChildren (node k this)) = mset (sortedChildren (node h this)) + (if P then {#fst d#} else {#}) \<and>
    (\<not> P \<longrightarrow> sortedChildren (node k this) = sortedChildren (node h this)) \<and>
    children (node k this) = children (node h this)"
proof -
  obtain c pos where d: "d = (c, pos)" by (cases d)
  have c: "alive h c" using tree_okD(6)[OF v, of this c] a by (simp add: node_upd d)
  show ?thesis
  proof (cases P)
    case True
    let ?place = "\<lambda>ss. if unat pos < length ss then take (unat pos) ss @ c # drop (unat pos) ss else ss @ [c]"
    let ?k = "upd this (sortedChildren_update ?place) h"
    have "mset (take n ss) + mset (drop n ss) = mset ss" for n and ss :: "nat list"
      by (metis append_take_drop_id mset_append)
    then have ms: "mset (?place ss) = mset ss + {#c#}" for ss by simp
    have ch: "parent (node ?k x) = parent (node h x)" "children (node ?k x) = children (node h x)"
        "isOnTheTree (node ?k x) = isOnTheTree (node h x)" "disappearing (node ?k x) = disappearing (node h x)"
        "sortedChildren (node ?k x) = (if x = this then ?place (sortedChildren (node h x)) else sortedChildren (node h x))" for x
      using a by (auto simp: node_upd)
    have "tree_ok (with_disappearing this (kept @ d # ds) ?k)" (is "tree_ok ?w")
    proof (rule tree_ok_prune[OF v])
      let ?v = "with_disappearing this (kept @ d # ds) h"
      have nw: "parent (node ?w x) = parent (node ?v x)" "isOnTheTree (node ?w x) = isOnTheTree (node ?v x)"
          "disappearing (node ?w x) = disappearing (node ?v x)" "children (node ?w x) = children (node ?v x)"
          "sortedChildren (node ?w x) = (if x = this then ?place (sortedChildren (node ?v x)) else sortedChildren (node ?v x))" for x
        using a by (simp_all add: node_upd)
      show "alive ?w x \<longleftrightarrow> alive ?v x" for x by simp
      fix x assume x: "alive ?v x"
      show "parent (node ?w x) = parent (node ?v x) \<and> isOnTheTree (node ?w x) = isOnTheTree (node ?v x) \<and>
          disappearing (node ?w x) = disappearing (node ?v x)" by (simp only: nw)
      show "distinct (children (node ?w x)) \<and> set (children (node ?w x)) \<subseteq> set (children (node ?v x)) \<and>
          {c \<in> set (children (node ?v x)). alive ?v c} \<subseteq> set (children (node ?w x))"
        using tree_okD(5)[OF v x] unfolding nw lists_ok_def by blast
      fix y assume "y \<in> set (sortedChildren (node ?w x))"
      then have "y = c \<or> y \<in> set (sortedChildren (node ?v x))" unfolding nw(5) by (auto dest: in_set_takeD in_set_dropD split: if_splits)
      then show "alive ?v y" using tree_okD(6)[OF v x, of y] c by auto
    qed
    moreover have "shrinks h ?k" by (rule shrinks_upd) simp_all
    moreover have "child_edges ?k = child_edges h" by (simp add: child_edges_def ch)
    moreover have "place_disappearing this t d (kept, h) = Some (kept @ [d], ?k)"
    proof -
      have "\<not> (\<not> t \<and> \<not> own_transition (node h c))" using True by (auto simp: P_def d)
      then show ?thesis unfolding place_disappearing_def d by (simp only: Let_def prod.case if_False)
    qed
    moreover have "mset (sortedChildren (node ?k this)) = mset (sortedChildren (node h this)) + {#fst d#}"
      using ms[of "sortedChildren (node h this)"] ch(5)[of this] by (simp only: d fst_conv if_True simp_thms)
    ultimately show ?thesis using True ch(2)[of this] by (simp only: if_True append_Cons append_Nil) blast
  next
    case False
    then have nP: "\<not> t \<and> \<not> own_transition (node h c)" by (simp add: P_def d)
    obtain g where g: "ResetParent c h = Some (flagged g (no_parent c h))" and m: "marks (child_edges h) False {c} (flags h) g"
      using ResetParent_flagged[OF E c] by blast
    let ?k = "if parent (node h c) = Some this then flagged g (no_parent c h) else h"
    have eq: "place_disappearing this t d (kept, h) = Some (kept, ?k)"
      using nP g by (simp add: place_disappearing_def d)
    have "tree_ok (with_disappearing this (kept @ ds) ?k)"
      by (rule tree_ok_undisappear[OF v[unfolded d] a]) (use m in auto)
    moreover have "shrinks h ?k" using shrinks_reset[of h g c] by simp
    moreover have "child_edges ?k = child_edges h" "sortedChildren (node ?k this) = sortedChildren (node h this)"
        "children (node ?k this) = children (node h this)"
      using a c by (auto simp: child_edges_iff node_upd split: if_splits)
    ultimately show ?thesis using False eq by auto
  qed
qed

lemma place_loop_ok:
  assumes "tree_ok (with_disappearing this (kept @ ds) h)" and "alive h this"
    and "wf (child_edges h)" and "single_valued (child_edges h)"
    and "\<forall>d \<in> set ds. Q d \<longleftrightarrow> t \<or> own_transition (node h (fst d))"
  shows "\<exists>k. ofold (place_disappearing this t) ds (kept, h) = Some (kept @ filter Q ds, k) \<and>
    tree_ok (with_disappearing this (kept @ filter Q ds) k) \<and> shrinks h k \<and>
    mset (sortedChildren (node k this)) = mset (sortedChildren (node h this)) + mset (map fst (filter Q ds)) \<and>
    (filter Q ds = [] \<longrightarrow> sortedChildren (node k this) = sortedChildren (node h this)) \<and>
    children (node k this) = children (node h this)"
  using assms
proof (induction ds arbitrary: kept h)
  case (Cons d ds)
  let ?e = "if Q d then [d] else []"
  obtain k where k: "place_disappearing this t d (kept, h) = Some (kept @ ?e, k)"
      "tree_ok (with_disappearing this ((kept @ ?e) @ ds) k)" "shrinks h k" "child_edges k = child_edges h"
      "mset (sortedChildren (node k this)) = mset (sortedChildren (node h this)) + (if Q d then {#fst d#} else {#})"
      "\<not> Q d \<Longrightarrow> sortedChildren (node k this) = sortedChildren (node h this)"
      "children (node k this) = children (node h this)"
    using place_disappearing_ok[OF Cons.prems(1-4), of "Q d" t] Cons.prems(5) by auto
  have "alive k this" using Cons.prems(2) shrinks_alive[OF k(3)] by simp
  moreover have "\<forall>e \<in> set ds. Q e \<longleftrightarrow> t \<or> own_transition (node k (fst e))"
  proof
    fix e assume e: "e \<in> set ds"
    then have "alive h (fst e)" using tree_okD(6)[OF Cons.prems(1), of this "fst e"] Cons.prems(2) by (auto simp: node_upd)
    then have "own_transition (node k (fst e)) \<longleftrightarrow> own_transition (node h (fst e))"
      using k(3) by (simp add: own_transition_def shrinks_def same_objects_def)
    then show "Q e \<longleftrightarrow> t \<or> own_transition (node k (fst e))" using Cons.prems(5) e by simp
  qed
  ultimately obtain l where "ofold (place_disappearing this t) ds (kept @ ?e, k) = Some ((kept @ ?e) @ filter Q ds, l)"
      "tree_ok (with_disappearing this ((kept @ ?e) @ filter Q ds) l)" "shrinks k l"
      "mset (sortedChildren (node l this)) = mset (sortedChildren (node k this)) + mset (map fst (filter Q ds))"
      "filter Q ds = [] \<Longrightarrow> sortedChildren (node l this) = sortedChildren (node k this)"
      "children (node l this) = children (node k this)"
    using Cons.IH[OF k(2)] Cons.prems(3,4) unfolding k(4) by blast
  then show ?case using k(1,5,6,7) shrinks_trans[OF k(3)] by (auto split: if_splits)
qed auto

section \<open>The sorted list\<close>

lemma HasTransition_cong:
  assumes "wf ((up_edges h)\<inverse>)" and "alive h a" and "\<And>x. alive k x \<longleftrightarrow> alive h x"
    and "\<And>x. alive h x \<Longrightarrow> parent (node k x) = parent (node h x) \<and> own_transition (node k x) = own_transition (node h x) \<and>
      ntype (node k x) = ntype (node h x)"
  shows "HasTransition k a = HasTransition h a"
  using assms(1,2)
proof (induction a rule: wf_induct_rule)
  case (less a)
  have "k x = None \<longleftrightarrow> h x = None" for x using assms(3)[of x] by (auto simp: alive_def)
  then have lk: "lock k w = lock h w" for w by (simp add: lock_def split: option.split)
  have "HasTransition k p = HasTransition h p" if p: "lock h (parent (node h a)) = Some p" for p
  proof -
    have "(a, p) \<in> up_edges h" and "alive h p"
      using p less.prems by (auto simp: lock_def up_edges_iff alive_def split: option.splits if_splits)
    then show ?thesis using less.IH by auto
  qed
  then show ?case
    using assms(4)[OF less.prems] by (subst (1 2) HasTransition.simps) (auto simp: lk split: option.split)
qed

definition alive_children :: "heap \<Rightarrow> nat \<Rightarrow> nat list" where
  "alive_children h a = filter (\<lambda>c. h c \<noteq> None) (children (node h a))"

text \<open>The disappearing children that stay: their own transition or one above is running.\<close>

definition kept_disappearing :: "heap \<Rightarrow> nat \<Rightarrow> (nat \<times> 32 word) list" where
  "kept_disappearing h a =
     filter (\<lambda>d. HasTransition h a = Some True \<or> own_transition (node h (fst d))) (disappearing (node h a))"

lemma GenerateSortedChildren_ok:
  assumes ok: "tree_ok h" and a: "alive h this"
  shows "\<exists>k. GenerateSortedChildren this h = Some k \<and> tree_ok k \<and> shrinks h k \<and>
    children (node k this) = alive_children h this \<and> disappearing (node k this) = kept_disappearing h this \<and>
    mset (sortedChildren (node k this)) = mset (alive_children h this) + mset (map fst (kept_disappearing h this)) \<and>
    ((\<forall>c \<in> set (sortedChildren (node k this)). IsInstanceOf RS_NODE (ntype (node h c))) \<longrightarrow>
      sorted (map (\<lambda>c. positionZ (node h c)) (sortedChildren (node k this)))) \<and>
    (kept_disappearing h this = [] \<longrightarrow> (\<forall>c \<in> set (alive_children h this). IsInstanceOf RS_NODE (ntype (node h c))) \<longrightarrow>
      sortedChildren (node k this) = sort_key (\<lambda>c. positionZ (node h c)) (alive_children h this))"
proof -
  let ?al = "alive_children h this" and ?ds = "disappearing (node h this)"
  let ?h1 = "upd this (\<lambda>n. n\<lparr>children := ?al, sortedChildren := ?al\<rparr>) h"
  have n1: "parent (node ?h1 x) = parent (node h x)" "isOnTheTree (node ?h1 x) = isOnTheTree (node h x)"
      "disappearing (node ?h1 x) = disappearing (node h x)" "ntype (node ?h1 x) = ntype (node h x)"
      "own_transition (node ?h1 x) = own_transition (node h x)"
      "children (node ?h1 x) = (if x = this then ?al else children (node h x))"
      "sortedChildren (node ?h1 x) = (if x = this then ?al else sortedChildren (node h x))" for x
    using a by (simp_all add: node_upd own_transition_def)
  have al: "set ?al = {c \<in> set (children (node h this)). alive h c}" by (auto simp: alive_children_def alive_def)
  have ok1: "tree_ok ?h1"
  proof (rule tree_ok_prune[OF ok])
    fix x assume x: "alive h x"
    show "parent (node ?h1 x) = parent (node h x) \<and> isOnTheTree (node ?h1 x) = isOnTheTree (node h x) \<and>
      disappearing (node ?h1 x) = disappearing (node h x)" by (simp only: n1)
    have d: "distinct (children (node h x))" using tree_okD(5)[OF ok x] by (simp add: lists_ok_def)
    show "distinct (children (node ?h1 x)) \<and> set (children (node ?h1 x)) \<subseteq> set (children (node h x)) \<and>
      {c \<in> set (children (node h x)). alive h c} \<subseteq> set (children (node ?h1 x))"
      unfolding n1 using d al by (auto simp: alive_children_def)
    fix c assume "c \<in> set (sortedChildren (node ?h1 x))"
    then show "alive h c" using tree_okD(6)[OF ok x, of c] al unfolding n1 by (auto split: if_splits)
  qed simp
  have a1: "alive ?h1 this" using a by simp
  have s1: "shrinks h ?h1" by (rule shrinks_upd) (simp_all add: alive_children_def)
  obtain t where t: "HasTransition h this = Some t" using HasTransition_total[OF tree_ok_edges(3)[OF ok] a] by blast
  have t1: "HasTransition ?h1 this = Some t"
    using HasTransition_cong[OF tree_ok_edges(3)[OF ok] a, of ?h1] n1 t by simp
  define b where "b = (?ds \<noteq> [] \<and> t)"
  have t2: "(if ?ds = [] then Some False else HasTransition ?h1 this) = Some b" using t1 by (simp add: b_def)
  define Q where "Q = (\<lambda>d :: nat \<times> 32 word. HasTransition h this = Some True \<or> own_transition (node h (fst d)))"
  have Q: "\<forall>d \<in> set ?ds. Q d \<longleftrightarrow> b \<or> own_transition (node ?h1 (fst d))"
    using t by (auto simp: Q_def b_def n1)
  have kd: "kept_disappearing h this = filter Q ?ds" by (simp add: kept_disappearing_def Q_def)
  have "with_disappearing this ([] @ ?ds) ?h1 = ?h1" by (rule upd_same[OF a1]) (simp add: n1(3)[symmetric])
  then obtain k where k: "ofold (place_disappearing this b) ?ds ([], ?h1) = Some ([] @ filter Q ?ds, k)"
      "tree_ok (with_disappearing this ([] @ filter Q ?ds) k)" "shrinks ?h1 k"
      "mset (sortedChildren (node k this)) = mset (sortedChildren (node ?h1 this)) + mset (map fst (filter Q ?ds))"
      "children (node k this) = children (node ?h1 this)"
      "filter Q ?ds = [] \<Longrightarrow> sortedChildren (node k this) = sortedChildren (node ?h1 this)"
    using place_loop_ok[of this "[]" ?ds ?h1 Q b, OF _ a1 tree_ok_edges(2,1)[OF ok1] Q] ok1 by auto
  let ?fin = "upd this (\<lambda>n. n\<lparr>disappearing := filter Q ?ds, sortedChildren := list_sort (z_before k) (sortedChildren n)\<rparr>) k"
  let ?v = "with_disappearing this ([] @ filter Q ?ds) k"
  have ak: "alive k this" using a1 shrinks_alive[OF k(3)] by simp
  have nf: "parent (node ?fin x) = parent (node ?v x)" "isOnTheTree (node ?fin x) = isOnTheTree (node ?v x)"
      "disappearing (node ?fin x) = disappearing (node ?v x)" "children (node ?fin x) = children (node ?v x)"
      "sortedChildren (node ?fin x) = (if x = this then list_sort (z_before k) (sortedChildren (node ?v x)) else sortedChildren (node ?v x))" for x
    using ak by (simp_all add: node_upd)
  have srt: "set (list_sort lt xs) = set xs" for lt and xs :: "nat list" by (metis mset_list_sort set_mset_mset)
  have "tree_ok ?fin"
  proof (rule tree_ok_prune[OF k(2)])
    fix x assume x: "alive ?v x"
    show "parent (node ?fin x) = parent (node ?v x) \<and> isOnTheTree (node ?fin x) = isOnTheTree (node ?v x) \<and>
      disappearing (node ?fin x) = disappearing (node ?v x)" by (simp only: nf)
    show "distinct (children (node ?fin x)) \<and> set (children (node ?fin x)) \<subseteq> set (children (node ?v x)) \<and>
      {c \<in> set (children (node ?v x)). alive ?v c} \<subseteq> set (children (node ?fin x))"
      using tree_okD(5)[OF k(2) x] unfolding nf lists_ok_def by blast
    fix c assume "c \<in> set (sortedChildren (node ?fin x))"
    then have "c \<in> set (sortedChildren (node ?v x))" unfolding nf by (auto simp: srt split: if_splits)
    then show "alive ?v c" using tree_okD(6)[OF k(2) x, of c] by blast
  qed simp
  note f1 = this
  have sk: "shrinks h ?fin" by (rule shrinks_trans[OF shrinks_trans[OF s1 k(3)]], rule shrinks_upd) simp_all
  have f2: "GenerateSortedChildren this h = Some ?fin"
    unfolding GenerateSortedChildren_def Let_def alive_children_def[symmetric] n1(3) t2 Option.bind.bind_lunit k(1) by simp
  have f3: "children (node ?fin this) = ?al" using ak k(5) by (simp add: node_upd n1(6))
  have f4: "disappearing (node ?fin this) = kept_disappearing h this" using ak by (simp add: node_upd kd)
  have f5: "mset (sortedChildren (node ?fin this)) = mset ?al + mset (map fst (kept_disappearing h this))"
    using ak k(4) by (simp add: node_upd n1(7) kd)
  have fs: "sortedChildren (node ?fin this) = list_sort (z_before k) (sortedChildren (node k this))"
    using ak by (simp add: node_upd)
  have zk: "positionZ (node k c) = positionZ (node h c) \<and> ntype (node k c) = ntype (node h c)" if "alive h c" for c
    using that shrinks_trans[OF s1 k(3)] by (simp add: shrinks_def same_objects_def)
  have alive_s: "alive h c" if "c \<in> set (sortedChildren (node ?fin this))" for c
    using tree_okD(6)[OF \<open>tree_ok ?fin\<close>, of this c] that ak shrinks_alive[OF sk] by auto
  have key: "sortedChildren (node ?fin this) = sort_key (\<lambda>c. positionZ (node k c)) (sortedChildren (node k this))"
    if "\<forall>c \<in> set (sortedChildren (node ?fin this)). IsInstanceOf RS_NODE (ntype (node h c))"
    using that alive_s zk unfolding fs by (intro list_sort_key) (metis srt)
  have f6: "sorted (map (\<lambda>c. positionZ (node h c)) (sortedChildren (node ?fin this)))"
    if "\<forall>c \<in> set (sortedChildren (node ?fin this)). IsInstanceOf RS_NODE (ntype (node h c))"
  proof -
    have "map (\<lambda>c. positionZ (node h c)) (sortedChildren (node ?fin this)) = map (\<lambda>c. positionZ (node k c)) (sortedChildren (node ?fin this))"
      by (rule map_cong[OF refl]) (use alive_s zk in simp)
    then show ?thesis using sorted_sort_key[of "\<lambda>c. positionZ (node k c)" "sortedChildren (node k this)"]
      unfolding key[OF that, symmetric] by argo
  qed
  have f7: "sortedChildren (node ?fin this) = sort_key (\<lambda>c. positionZ (node h c)) ?al"
    if e: "kept_disappearing h this = []" and rs: "\<forall>c \<in> set ?al. IsInstanceOf RS_NODE (ntype (node h c))"
  proof -
    have "sortedChildren (node k this) = ?al" using k(6) e by (simp add: kd n1(7))
    moreover have "sort_key (\<lambda>c. positionZ (node k c)) ?al = sort_key (\<lambda>c. positionZ (node h c)) ?al"
      by (rule sort_key_agree) (use zk al in simp)
    moreover have "\<forall>c \<in> set ?al. IsInstanceOf RS_NODE (ntype (node k c))"
    proof
      fix c assume c: "c \<in> set ?al"
      then have "alive h c" using al by blast
      from zk[OF this] rs c show "IsInstanceOf RS_NODE (ntype (node k c))" by metis
    qed
    ultimately show ?thesis unfolding fs by (metis list_sort_key)
  qed
  show ?thesis
  proof (intro exI[of _ ?fin] conjI)
    show "GenerateSortedChildren this h = Some ?fin" by (rule f2)
    show "tree_ok ?fin" by (rule f1)
    show "shrinks h ?fin" by (rule sk)
    show "children (node ?fin this) = ?al" by (rule f3)
    show "disappearing (node ?fin this) = kept_disappearing h this" by (rule f4)
    show "mset (sortedChildren (node ?fin this)) = mset ?al + mset (map fst (kept_disappearing h this))" by (rule f5)
    show "(\<forall>c \<in> set (sortedChildren (node ?fin this)). IsInstanceOf RS_NODE (ntype (node h c))) \<longrightarrow>
      sorted (map (\<lambda>c. positionZ (node h c)) (sortedChildren (node ?fin this)))" by (rule impI, rule f6)
    show "kept_disappearing h this = [] \<longrightarrow> (\<forall>c \<in> set ?al. IsInstanceOf RS_NODE (ntype (node h c))) \<longrightarrow>
      sortedChildren (node ?fin this) = sort_key (\<lambda>c. positionZ (node h c)) ?al" by (intro impI, rule f7)
  qed
qed

lemma GetSortedChildren_ok:
  assumes ok: "tree_ok h" and a: "alive h this"
  shows "\<exists>ss k. GetSortedChildren this h = Some (ss, k) \<and> tree_ok k \<and> shrinks h k \<and> ss = sortedChildren (node k this)"
proof (cases "sortedChildren (node h this) = [] \<and> (children (node h this) \<noteq> [] \<or> disappearing (node h this) \<noteq> [])")
  case True
  then show ?thesis using GenerateSortedChildren_ok[OF ok a] by (auto simp: GetSortedChildren_def)
next
  case False
  then have "GetSortedChildren this h = Some (sortedChildren (node h this), h)" unfolding GetSortedChildren_def by auto
  then show ?thesis using ok by auto
qed

lemma ResetSortedChildren_ok:
  assumes "tree_ok h" and "alive h this"
  shows "tree_ok (ResetSortedChildren this h)" and "shrinks h (ResetSortedChildren this h)"
proof -
  have n: "parent (node (ResetSortedChildren this h) x) = parent (node h x)"
      "isOnTheTree (node (ResetSortedChildren this h) x) = isOnTheTree (node h x)"
      "disappearing (node (ResetSortedChildren this h) x) = disappearing (node h x)"
      "children (node (ResetSortedChildren this h) x) = children (node h x)"
      "set (sortedChildren (node (ResetSortedChildren this h) x)) \<subseteq> set (sortedChildren (node h x))" for x
    using assms(2) by (simp_all add: ResetSortedChildren_def node_upd)
  show "tree_ok (ResetSortedChildren this h)"
  proof (rule tree_ok_prune[OF assms(1)])
    fix x assume x: "alive h x"
    show "distinct (children (node (ResetSortedChildren this h) x)) \<and>
        set (children (node (ResetSortedChildren this h) x)) \<subseteq> set (children (node h x)) \<and>
        {c \<in> set (children (node h x)). alive h c} \<subseteq> set (children (node (ResetSortedChildren this h) x))"
      using tree_okD(5)[OF assms(1) x] unfolding n lists_ok_def by blast
    show "parent (node (ResetSortedChildren this h) x) = parent (node h x) \<and>
      isOnTheTree (node (ResetSortedChildren this h) x) = isOnTheTree (node h x) \<and>
      disappearing (node (ResetSortedChildren this h) x) = disappearing (node h x)" by (simp only: n)
    fix c assume "c \<in> set (sortedChildren (node (ResetSortedChildren this h) x))"
    then show "alive h c" using n(5) tree_okD(6)[OF assms(1) x, of c] by blast
  qed (simp add: ResetSortedChildren_def)
  show "shrinks h (ResetSortedChildren this h)" unfolding ResetSortedChildren_def by (rule shrinks_upd) simp_all
qed

end
