(* ===== verification/Render_Context.thy ===== *)
theory Render_Context
  imports Render_Tree_Lists
begin

text \<open>
  The render service's context: the map of nodes by id (\<open>rs_render_node_map.cpp\<close>), the global root
  (\<open>rs_context.h\<close>) and the commands clients send for the tree (\<open>rs_base_node_command.cpp\<close> and the
  \<open>Create\<close> and \<open>Attach\<close> commands of the canvas, root, surface and display nodes, \<open>SetParentSurface\<close> and \<open>RemoveSelf\<close>). The map owns its nodes.
  The mirror source of a display node is no part of the tree and left out.
\<close>

section \<open>The context and its map\<close>

record rs_context =
  nodes :: heap
  nodeMap :: "(64 word, nat) omap"
  globalRoot :: nat
  nextObject :: nat

definition new_context :: rs_context where
  "new_context =
     \<lparr>nodes = (\<lambda>_. None)(1 \<mapsto> new_node 0 CANVAS_NODE False, 0 \<mapsto> new_node 0 BASE_NODE True),
      nodeMap = [(0, 1)], globalRoot = 0, nextObject = 2\<rparr>"

definition RegisterRenderNode :: "nat \<Rightarrow> rs_context \<Rightarrow> bool \<times> rs_context" where
  "RegisterRenderNode a ctx =
     (let i = nid (node (nodes ctx) a)
      in if om_has i (nodeMap ctx) then (False, ctx) else (True, ctx\<lparr>nodeMap := om_put i a (nodeMap ctx)\<rparr>))"

definition UnregisterRenderNode :: "64 word \<Rightarrow> rs_context \<Rightarrow> rs_context" where
  "UnregisterRenderNode i ctx = ctx\<lparr>nodeMap := om_del i (nodeMap ctx)\<rparr>"

definition GetRenderNode :: "rtype \<Rightarrow> 64 word \<Rightarrow> rs_context \<Rightarrow> nat option" where
  "GetRenderNode t i ctx =
     (case map_of (nodeMap ctx) i of
        None \<Rightarrow> None
      | Some a \<Rightarrow> if IsInstanceOf t (ntype (node (nodes ctx) a)) then Some a else None)"

definition GetAnimationFallbackNode :: "rs_context \<Rightarrow> nat option" where
  "GetAnimationFallbackNode ctx = map_of (nodeMap ctx) 0"

definition node_pid :: "64 word \<Rightarrow> int" where
  "node_pid i = sint (ucast (drop_bit 32 i) :: 32 word)"

definition in_nodes :: "(heap \<Rightarrow> heap option) \<Rightarrow> rs_context \<Rightarrow> rs_context option" where
  "in_nodes f ctx = Option.bind (f (nodes ctx)) (\<lambda>h. Some (ctx\<lparr>nodes := h\<rparr>))"

text \<open>The hash map is visited in some order of its entries.\<close>

definition filter_node :: "int \<Rightarrow> 64 word \<times> nat \<Rightarrow> rs_context \<Rightarrow> rs_context option" where
  "filter_node pid e ctx =
     (if node_pid (fst e) \<noteq> pid then Some ctx
      else Option.bind (in_nodes (RemoveFromTree (snd e)) ctx) (\<lambda>ctx. Some (ctx\<lparr>nodeMap := om_del (fst e) (nodeMap ctx)\<rparr>)))"

definition FilterNodeByPid :: "(64 word \<times> nat) list \<Rightarrow> int \<Rightarrow> rs_context \<Rightarrow> rs_context option" where
  "FilterNodeByPid order pid ctx = ofold (filter_node pid) order ctx"

section \<open>Commands\<close>

datatype node_command =
    Create_Canvas "64 word" | Create_Root "64 word" | Create_Surface "64 word" | Create_Display "64 word"
  | Destroy "64 word" | Add_Child "64 word" "64 word" int | Remove_Child "64 word" "64 word"
  | Remove_From_Tree "64 word" | Clear_Children "64 word"
  | Attach_RSSurfaceNode "64 word" "64 word" | Attach_To_UniSurfaceNode "64 word" "64 word"
  | Set_Parent_Surface "64 word" "64 word" | Remove_Self "64 word"

text \<open>A new object; when the id is taken the last pointer to it goes at the end of the command.\<close>

definition make_shared :: "rnode \<Rightarrow> rs_context \<Rightarrow> nat \<times> rs_context" where
  "make_shared n ctx =
     (let a = nextObject ctx in (a, ctx\<lparr>nodes := (nodes ctx)(a \<mapsto> n), nextObject := Suc a\<rparr>))"

definition release_local :: "nat \<Rightarrow> bool \<Rightarrow> rs_context \<Rightarrow> rs_context" where
  "release_local a registered ctx = (if registered then ctx else ctx\<lparr>nodes := (nodes ctx)(a := None)\<rparr>)"

definition create_node :: "rtype \<Rightarrow> 64 word \<Rightarrow> rs_context \<Rightarrow> rs_context" where
  "create_node t i ctx =
     (let (a, ctx) = make_shared (new_node i t False) ctx; (registered, ctx) = RegisterRenderNode a ctx
      in release_local a registered ctx)"

definition create_display :: "64 word \<Rightarrow> rs_context \<Rightarrow> rs_context option" where
  "create_display i ctx =
     (let (a, ctx) = make_shared (new_node i DISPLAY_NODE False) ctx; (registered, ctx) = RegisterRenderNode a ctx
      in Option.bind (in_nodes (AddChild (globalRoot ctx) (Some a) (-1)) ctx) (\<lambda>ctx. Some (release_local a registered ctx)))"

definition destroy_node :: "64 word \<Rightarrow> rs_context \<Rightarrow> rs_context option" where
  "destroy_node i ctx =
     (case GetRenderNode BASE_NODE i ctx of
        None \<Rightarrow> Some ctx
      | Some a \<Rightarrow>
          Option.bind (in_nodes (ClearChildren a) ctx) (\<lambda>ctx.
          Option.bind (in_nodes (RemoveFromTree a) ctx) (\<lambda>ctx.
          Some (UnregisterRenderNode (nid (node (nodes ctx) a)) ctx))))"

text \<open>
  The two commands of a surface node (\<open>rs_surface_node_command.cpp\<close>) that change the tree. \<open>SetParentSurface\<close> also
  notes the parent's id in the node, which nothing of the tree reads.
\<close>

definition SetParentSurface :: "64 word \<Rightarrow> 64 word \<Rightarrow> rs_context \<Rightarrow> rs_context option" where
  "SetParentSurface i parentId ctx =
     (case (GetRenderNode SURFACE_NODE i ctx, GetRenderNode BASE_NODE parentId ctx) of
        (Some c, Some a) \<Rightarrow> in_nodes (AddChild a (Some c) (-1)) ctx
      | _ \<Rightarrow> Some ctx)"

definition RemoveSelf :: "64 word \<Rightarrow> rs_context \<Rightarrow> rs_context option" where
  "RemoveSelf i ctx = (case GetRenderNode BASE_NODE i ctx of None \<Rightarrow> Some ctx | Some a \<Rightarrow> in_nodes (RemoveFromTree a) ctx)"

fun process_command :: "node_command \<Rightarrow> rs_context \<Rightarrow> rs_context option" where
  "process_command (Create_Canvas i) ctx = Some (create_node CANVAS_NODE i ctx)"
| "process_command (Create_Root i) ctx = Some (create_node ROOT_NODE i ctx)"
| "process_command (Create_Surface i) ctx = Some (create_node SURFACE_NODE i ctx)"
| "process_command (Create_Display i) ctx = create_display i ctx"
| "process_command (Destroy i) ctx = destroy_node i ctx"
| "process_command (Add_Child i j index) ctx =
     (case (GetRenderNode BASE_NODE i ctx, GetRenderNode BASE_NODE j ctx) of
        (Some a, Some c) \<Rightarrow> in_nodes (AddChild a (Some c) index) ctx
      | _ \<Rightarrow> Some ctx)"
| "process_command (Remove_Child i j) ctx =
     (case (GetRenderNode BASE_NODE i ctx, GetRenderNode BASE_NODE j ctx) of
        (Some a, Some c) \<Rightarrow> in_nodes (RemoveChild a (Some c)) ctx
      | _ \<Rightarrow> Some ctx)"
| "process_command (Remove_From_Tree i) ctx =
     (case GetRenderNode BASE_NODE i ctx of None \<Rightarrow> Some ctx | Some a \<Rightarrow> in_nodes (RemoveFromTree a) ctx)"
| "process_command (Clear_Children i) ctx =
     (case GetRenderNode BASE_NODE i ctx of None \<Rightarrow> Some ctx | Some a \<Rightarrow> in_nodes (ClearChildren a) ctx)"
| "process_command (Attach_RSSurfaceNode i s) ctx =
     (case GetRenderNode ROOT_NODE i ctx of None \<Rightarrow> Some ctx
      | Some c \<Rightarrow> in_nodes (AddChild (globalRoot ctx) (Some c) (-1)) ctx)"
| "process_command (Attach_To_UniSurfaceNode i s) ctx =
     (case (GetRenderNode SURFACE_NODE s ctx, GetRenderNode ROOT_NODE i ctx) of
        (Some a, Some c) \<Rightarrow> in_nodes (AddChild a (Some c) (-1)) ctx
      | _ \<Rightarrow> Some ctx)"
| "process_command (Set_Parent_Surface i parentId) ctx = SetParentSurface i parentId ctx"
| "process_command (Remove_Self i) ctx = RemoveSelf i ctx"

text \<open>\<open>RSTransactionData::Process\<close>.\<close>

definition process_transaction :: "node_command list \<Rightarrow> rs_context \<Rightarrow> rs_context option" where
  "process_transaction = ofold process_command"

end
