(* ===== verification/Render_Context_Inv.thy ===== *)
theory Render_Context_Inv
  imports Render_Context
begin

text \<open>
  The invariant of the context, the steps it makes, and that every step keeps the invariant. A command
  of a client is a step when it does not put a node below itself; the theorems of \<open>Render_Tree_Props\<close>
  show what happens otherwise.
\<close>

text \<open>Every number in use, also of an expired pointer, is below the next one.\<close>

definition numbers_below :: "nat \<Rightarrow> nat \<Rightarrow> rnode \<Rightarrow> bool" where
  "numbers_below m a n \<longleftrightarrow> a < m \<and> (\<forall>c \<in> set (children n). c < m) \<and> (\<forall>p. parent n = Some p \<longrightarrow> p < m)"

definition ctx_ok :: "rs_context \<Rightarrow> bool" where
  "ctx_ok ctx \<longleftrightarrow> tree_ok (nodes ctx) \<and> (\<forall>a. alive (nodes ctx) a \<longrightarrow> numbers_below (nextObject ctx) a (node (nodes ctx) a)) \<and>
     alive (nodes ctx) (globalRoot ctx) \<and> parent (node (nodes ctx) (globalRoot ctx)) = None \<and>
     globalRoot ctx \<notin> snd ` set (nodeMap ctx) \<and> om_wf (nodeMap ctx) \<and>
     (\<forall>(i, a) \<in> set (nodeMap ctx). alive (nodes ctx) a \<and> nid (node (nodes ctx) a) = i)"

lemma ctx_okD:
  assumes "ctx_ok ctx"
  shows "tree_ok (nodes ctx)" and "alive (nodes ctx) a \<Longrightarrow> numbers_below (nextObject ctx) a (node (nodes ctx) a)" and "alive (nodes ctx) (globalRoot ctx)"
    and "parent (node (nodes ctx) (globalRoot ctx)) = None" and "globalRoot ctx \<notin> snd ` set (nodeMap ctx)"
    and "om_wf (nodeMap ctx)" and "(i, a) \<in> set (nodeMap ctx) \<Longrightarrow> alive (nodes ctx) a \<and> nid (node (nodes ctx) a) = i"
  using assms by (auto simp: ctx_ok_def)

lemma ctx_ok_nodes:
  assumes ok: "ctx_ok ctx" and k: "tree_ok k" "same_objects (nodes ctx) k" "parent (node k (globalRoot ctx)) = None"
    and c: "alive (nodes ctx) c" and p: "alive (nodes ctx) p"
    and old: "\<And>x. alive (nodes ctx) x \<Longrightarrow> parent (node k x) \<in> {parent (node (nodes ctx) x), None, Some p}"
      "\<And>x. alive (nodes ctx) x \<Longrightarrow> set (children (node k x)) \<subseteq> insert c (set (children (node (nodes ctx) x)))"
  shows "ctx_ok (ctx\<lparr>nodes := k\<rparr>)"
proof -
  have al: "alive k x \<longleftrightarrow> alive (nodes ctx) x" for x using k(2) by (simp add: same_objects_def)
  have "numbers_below (nextObject ctx) x (node k x)" if x: "alive (nodes ctx) x" for x
    using ctx_okD(2)[OF ok x] ctx_okD(2)[OF ok c] ctx_okD(2)[OF ok p] old[OF x] by (auto simp: numbers_below_def)
  moreover have "nid (node k x) = nid (node (nodes ctx) x)" if "alive (nodes ctx) x" for x
    using k(2) that by (simp add: same_objects_def)
  ultimately show ?thesis using ok k(1,3) unfolding ctx_ok_def by (auto simp: al)
qed

lemma ctx_ok_shrinks:
  assumes ok: "ctx_ok ctx" and k: "tree_ok k" "shrinks (nodes ctx) k"
  shows "ctx_ok (ctx\<lparr>nodes := k\<rparr>)"
proof (rule ctx_ok_nodes[OF ok k(1) _ _ ctx_okD(3)[OF ok] ctx_okD(3)[OF ok]])
  show "same_objects (nodes ctx) k" using k(2) by (simp add: shrinks_def)
  show "parent (node k (globalRoot ctx)) = None"
    using k(2) ctx_okD(3,4)[OF ok] unfolding shrinks_def by metis
qed (use k(2) in \<open>auto simp: shrinks_def\<close>)

lemma GetRenderNode_Some:
  assumes "ctx_ok ctx" and "GetRenderNode t i ctx = Some a"
  shows "alive (nodes ctx) a" and "nid (node (nodes ctx) a) = i" and "a \<noteq> globalRoot ctx"
    and "(i, a) \<in> set (nodeMap ctx)" and "IsInstanceOf t (ntype (node (nodes ctx) a))"
proof -
  have m: "map_of (nodeMap ctx) i = Some a" and t: "IsInstanceOf t (ntype (node (nodes ctx) a))"
    using assms(2) by (auto simp: GetRenderNode_def split: option.splits if_splits)
  from m show e: "(i, a) \<in> set (nodeMap ctx)" by (rule map_of_SomeD)
  show "alive (nodes ctx) a" and "nid (node (nodes ctx) a) = i" using ctx_okD(7)[OF assms(1) e] by simp_all
  show "a \<noteq> globalRoot ctx" using ctx_okD(5)[OF assms(1)] e by force
  show "IsInstanceOf t (ntype (node (nodes ctx) a))" by (rule t)
qed

section \<open>New and dying objects\<close>

definition fresh_node :: "rnode \<Rightarrow> bool" where
  "fresh_node n \<longleftrightarrow> parent n = None \<and> children n = [] \<and> disappearing n = [] \<and> sortedChildren n = []"

lemma fresh_new_node [simp]: "fresh_node (new_node i t b)"
  by (simp add: fresh_node_def new_node_def)

text \<open>Some node has \<open>a\<close> as child or parent, alive or not.\<close>

definition listed :: "heap \<Rightarrow> nat \<Rightarrow> bool" where
  "listed h a \<longleftrightarrow> (\<exists>b. alive h b \<and> (a \<in> set (children (node h b)) \<or> parent (node h b) = Some a))"

lemma tree_ok_new:
  assumes ok: "tree_ok h" and new: "\<not> alive h a" "\<not> listed h a" and n: "fresh_node n"
  shows "tree_ok (h(a \<mapsto> n))"
proof -
  note okD = tree_okD[OF ok]
  have al: "alive (h(a \<mapsto> n)) x \<longleftrightarrow> x = a \<or> alive h x" for x by (simp add: alive_def)
  have nd: "node (h(a \<mapsto> n)) x = (if x = a then n else node h x)" for x by simp
  have nl: "a \<notin> set (children (node h b))" "parent (node h b) \<noteq> Some a" if "alive h b" for b
    using new(2) that by (auto simp: listed_def)
  have up: "up_edges (h(a \<mapsto> n)) = up_edges h"
    using n nl new(1) by (auto simp: up_edges_iff al nd fresh_node_def split: if_splits)
  show ?thesis
  proof (rule tree_okI)
    show "finite {x. alive (h(a \<mapsto> n)) x}" using okD(1) by (simp add: al Collect_disj_eq)
    show "acyclic (up_edges (h(a \<mapsto> n)))" using okD(2) up by simp
  next
    fix c p assume "alive (h(a \<mapsto> n)) c" "alive (h(a \<mapsto> n)) p" "c \<in> set (children (node (h(a \<mapsto> n)) p))"
    then have "p \<noteq> a" "alive h p" "c \<noteq> a" "alive h c" "c \<in> set (children (node h p))"
      using n nl by (auto simp: al nd fresh_node_def split: if_splits)
    then show "parent (node (h(a \<mapsto> n)) c) = Some p \<and> (isOnTheTree (node (h(a \<mapsto> n)) p) \<longrightarrow> isOnTheTree (node (h(a \<mapsto> n)) c))"
      using okD(3,4)[of c p] by (simp add: nd)
  next
    fix x assume "alive (h(a \<mapsto> n)) x"
    then show "lists_ok (node (h(a \<mapsto> n)) x)" using okD(5)[of x] n by (auto simp: al nd lists_ok_def fresh_node_def)
  next
    fix x c assume "alive (h(a \<mapsto> n)) x" "c \<in> fst ` set (disappearing (node (h(a \<mapsto> n)) x)) \<or> c \<in> set (sortedChildren (node (h(a \<mapsto> n)) x))"
    then show "alive (h(a \<mapsto> n)) c" using okD(6)[of x c] n by (auto simp: al nd fresh_node_def split: if_splits)
  next
    fix c p assume "alive (h(a \<mapsto> n)) c" "alive (h(a \<mapsto> n)) p" "parent (node (h(a \<mapsto> n)) c) = Some p"
    then have "c \<noteq> a" "alive h c" "p \<noteq> a" "alive h p" "parent (node h c) = Some p"
      using n nl by (auto simp: al nd fresh_node_def split: if_splits)
    then show "c \<in> set (children (node (h(a \<mapsto> n)) p)) \<or> c \<in> fst ` set (disappearing (node (h(a \<mapsto> n)) p))"
      using okD(7)[of c p] by (simp add: nd)
  qed
qed

lemma tree_ok_die:
  assumes ok: "tree_ok h"
    and free: "\<And>b. alive h b \<Longrightarrow> b \<noteq> a \<Longrightarrow> a \<notin> fst ` set (disappearing (node h b)) \<and> a \<notin> set (sortedChildren (node h b))"
  shows "tree_ok (h(a := None))"
proof -
  note okD = tree_okD[OF ok]
  have al: "alive (h(a := None)) x \<longleftrightarrow> x \<noteq> a \<and> alive h x" for x by (simp add: alive_def)
  have nd: "node (h(a := None)) x = node h x" if "x \<noteq> a" for x using that by simp
  have "up_edges (h(a := None)) \<subseteq> up_edges h" by (auto simp: up_edges_iff al nd)
  then have ac: "acyclic (up_edges (h(a := None)))" using okD(2) acyclic_subset by blast
  show ?thesis
  proof (rule tree_okI[OF _ ac])
    show "finite {x. alive (h(a := None)) x}" using okD(1) by (simp add: al)
    show "alive (h(a := None)) c"
      if "alive (h(a := None)) x" "c \<in> fst ` set (disappearing (node (h(a := None)) x)) \<or> c \<in> set (sortedChildren (node (h(a := None)) x))" for x c
      using that okD(6)[of x c] free[of x] by (auto simp: al nd)
  qed (use okD(3-5,7) in \<open>auto simp: al nd\<close>)
qed

section \<open>Commands keep the invariant\<close>

lemma ctx_ok_registered:
  assumes ok: "ctx_ok ctx" and f: "fresh_node n" and a: "a = nextObject ctx"
    and c: "c = ctx\<lparr>nodes := (nodes ctx)(a \<mapsto> n), nextObject := Suc a\<rparr>"
    and r: "RegisterRenderNode a c = (reg, c')"
  shows "ctx_ok c'" and "nodes c' = nodes c" and "globalRoot c' = globalRoot ctx" and "nextObject c' = Suc a"
    and "\<not> reg \<Longrightarrow> nodeMap c' = nodeMap ctx"
proof -
  have na: "\<not> alive (nodes ctx) a" using ctx_okD(2)[OF ok] a by (auto simp: numbers_below_def)
  have nl: "\<not> listed (nodes ctx) a" using ctx_okD(2)[OF ok] a by (force simp: listed_def numbers_below_def)
  have tree: "tree_ok (nodes c)" using tree_ok_new[OF ctx_okD(1)[OF ok] na nl f] by (simp add: c)
  have al: "alive (nodes c) x \<longleftrightarrow> x = a \<or> alive (nodes ctx) x" for x by (simp add: c alive_def)
  have nd: "node (nodes c) x = (if x = a then n else node (nodes ctx) x)" for x by (simp add: c)
  have ra: "globalRoot ctx \<noteq> a" using ctx_okD(3)[OF ok] na by auto
  have ma: "x \<noteq> a" if "(i, x) \<in> set (nodeMap ctx)" for i x using ctx_okD(7)[OF ok that] na by auto
  have num: "numbers_below (nextObject c) x (node (nodes c) x)" if "alive (nodes c) x" for x
  proof -
    have "nextObject c = Suc (nextObject ctx)" by (simp add: c a)
    then show ?thesis using ctx_okD(2)[OF ok, of x] that[unfolded al] f a unfolding nd
      by (auto simp: numbers_below_def fresh_node_def less_Suc_eq)
  qed
  have c': "c' = (if reg then c\<lparr>nodeMap := om_put (nid n) a (nodeMap ctx)\<rparr> else c)" and reg: "reg \<longleftrightarrow> \<not> om_has (nid n) (nodeMap ctx)"
    using r by (auto simp: RegisterRenderNode_def c Let_def split: if_splits)
  note keys = set_om_put[of "nid n" a "nodeMap ctx"]
  have map: "(\<forall>(i, x) \<in> set (nodeMap c'). alive (nodes c) x \<and> nid (node (nodes c) x) = i) \<and> globalRoot ctx \<notin> snd ` set (nodeMap c') \<and> om_wf (nodeMap c')"
  proof -
    have old: "(i, x) = (nid n, a) \<or> (i, x) \<in> set (nodeMap ctx)" if "(i, x) \<in> set (nodeMap c')" for i x
      using that keys by (auto simp: c' c split: if_splits)
    then have "alive (nodes c) x \<and> nid (node (nodes c) x) = i \<and> x \<noteq> globalRoot ctx" if e: "(i, x) \<in> set (nodeMap c')" for i x
    proof (cases "(i, x) = (nid n, a)")
      case True
      then show ?thesis using ra by (auto simp: al nd)
    next
      case False
      then have m: "(i, x) \<in> set (nodeMap ctx)" using e old by blast
      then have "x \<in> snd ` set (nodeMap ctx)" by force
      then have "x \<noteq> globalRoot ctx" using ctx_okD(5)[OF ok] by metis
      then show ?thesis using ctx_okD(7)[OF ok m] ma[OF m] unfolding al nd by simp
    qed
    moreover have "om_wf (nodeMap c')" using ctx_okD(6)[OF ok] by (simp add: c' c)
    ultimately show ?thesis by force
  qed
  show e: "nodes c' = nodes c" "globalRoot c' = globalRoot ctx" "nextObject c' = Suc a" "\<not> reg \<Longrightarrow> nodeMap c' = nodeMap ctx"
    by (simp_all add: c' c)
  have nx: "nextObject c = Suc a" by (simp add: c)
  have ar: "alive (nodes c) (globalRoot ctx)" using ctx_okD(3)[OF ok] by (simp add: al)
  have pr: "parent (node (nodes c) (globalRoot ctx)) = None" using ctx_okD(4)[OF ok] ra unfolding nd by simp
  show "ctx_ok c'" unfolding ctx_ok_def e(1-3) using tree num[unfolded nx] map ar pr by blast
qed

lemma ctx_ok_die:
  assumes ok: "ctx_ok ctx" and r: "a \<noteq> globalRoot ctx" and m: "a \<notin> snd ` set (nodeMap ctx)"
    and free: "\<And>b. alive (nodes ctx) b \<Longrightarrow> b \<noteq> a \<Longrightarrow>
      a \<notin> fst ` set (disappearing (node (nodes ctx) b)) \<and> a \<notin> set (sortedChildren (node (nodes ctx) b))"
  shows "ctx_ok (ctx\<lparr>nodes := (nodes ctx)(a := None)\<rparr>)"
proof -
  have al: "alive ((nodes ctx)(a := None)) x \<longleftrightarrow> x \<noteq> a \<and> alive (nodes ctx) x" for x by (simp add: alive_def)
  have "x \<noteq> a" if "(i, x) \<in> set (nodeMap ctx)" for i x using m that by force
  then show ?thesis
    using tree_ok_die[OF ctx_okD(1)[OF ok] free] ctx_okD(2-7)[OF ok] r m unfolding ctx_ok_def by (auto simp: al)
qed

lemma create_node_ok:
  assumes ok: "ctx_ok ctx"
  shows "ctx_ok (create_node t i ctx)"
proof -
  let ?a = "nextObject ctx" and ?n = "new_node i t False"
  let ?c = "ctx\<lparr>nodes := (nodes ctx)(?a \<mapsto> ?n), nextObject := Suc ?a\<rparr>"
  obtain reg c' where r: "RegisterRenderNode ?a ?c = (reg, c')" by (cases "RegisterRenderNode ?a ?c")
  note R = ctx_ok_registered[OF ok fresh_new_node refl refl r]
  have eq: "create_node t i ctx = release_local ?a reg c'"
    using r by (simp add: create_node_def make_shared_def Let_def)
  show ?thesis
  proof (cases reg)
    case True
    then show ?thesis using R(1) eq by (simp add: release_local_def)
  next
    case False
    have dead: "\<not> alive (nodes ctx) ?a" using ctx_okD(2)[OF ok] by (auto simp: numbers_below_def)
    have "ctx_ok (c'\<lparr>nodes := (nodes c')(?a := None)\<rparr>)"
    proof (rule ctx_ok_die[OF R(1)])
      show "?a \<noteq> globalRoot c'" using ctx_okD(3)[OF ok] dead R(3) by auto
      show "?a \<notin> snd ` set (nodeMap c')" using ctx_okD(7)[OF ok] dead R(5)[OF False] by force
      fix b assume b: "alive (nodes c') b" "b \<noteq> ?a"
      then have "alive (nodes ctx) b" by (simp add: R(2) alive_def)
      then show "?a \<notin> fst ` set (disappearing (node (nodes c') b)) \<and> ?a \<notin> set (sortedChildren (node (nodes c') b))"
        using tree_okD(6)[OF ctx_okD(1)[OF ok], of b ?a] dead b(2) by (auto simp: R(2))
    qed
    then show ?thesis using False eq by (simp add: release_local_def)
  qed
qed

lemma in_nodes_Some: "f (nodes ctx) = Some k \<Longrightarrow> in_nodes f ctx = Some (ctx\<lparr>nodes := k\<rparr>)"
  by (simp add: in_nodes_def)

lemma AddChild_ctx:
  assumes ok: "ctx_ok ctx" and a: "alive (nodes ctx) a" and c: "alive (nodes ctx) c" "c \<noteq> globalRoot ctx"
    and acyc: "(a, c) \<notin> (up_edges (nodes ctx))\<^sup>*"
  shows "\<exists>k. in_nodes (AddChild a (Some c) i) ctx = Some (ctx\<lparr>nodes := k\<rparr>) \<and> ctx_ok (ctx\<lparr>nodes := k\<rparr>) \<and>
    same_objects (nodes ctx) k \<and> (parent (node (nodes ctx) c) = None \<longrightarrow> (\<forall>x. alive (nodes ctx) x \<longrightarrow>
      set (disappearing (node k x)) \<subseteq> set (disappearing (node (nodes ctx) x)) \<and> sortedChildren (node k x) = sortedChildren (node (nodes ctx) x)))"
proof -
  obtain k where k: "AddChild a (Some c) i (nodes ctx) = Some k" "tree_ok k" "same_objects (nodes ctx) k" "parent (node k c) = Some a"
      "\<forall>x. alive (nodes ctx) x \<longrightarrow> x \<noteq> c \<longrightarrow> parent (node k x) = parent (node (nodes ctx) x) \<or> parent (node k x) = None"
      "\<forall>x. alive (nodes ctx) x \<longrightarrow> set (children (node k x)) \<subseteq> insert c (set (children (node (nodes ctx) x)))"
      "parent (node (nodes ctx) c) = None \<longrightarrow> (\<forall>x. alive (nodes ctx) x \<longrightarrow>
      set (disappearing (node k x)) \<subseteq> set (disappearing (node (nodes ctx) x)) \<and> sortedChildren (node k x) = sortedChildren (node (nodes ctx) x))"
    using AddChild_ok[OF ctx_okD(1)[OF ok] a c(1) acyc, of i] by (elim exE conjE) (rule that; assumption)
  have "ctx_ok (ctx\<lparr>nodes := k\<rparr>)"
  proof (rule ctx_ok_nodes[OF ok k(2,3) _ c(1) a])
    show "parent (node k (globalRoot ctx)) = None"
      using k(5)[rule_format, OF ctx_okD(3)[OF ok]] c(2) ctx_okD(4)[OF ok] by auto
    show "parent (node k x) \<in> {parent (node (nodes ctx) x), None, Some a}" if "alive (nodes ctx) x" for x
      using k(4) k(5)[rule_format, OF that] by (cases "x = c") auto
  qed (use k(6) in blast)
  then show ?thesis
    using k(3) k(7) in_nodes_Some[of "AddChild a (Some c) i", OF k(1)] by (intro exI[of _ k] conjI) assumption+
qed

lemma root_not_below:
  assumes ok: "ctx_ok ctx" and "c \<noteq> globalRoot ctx"
  shows "(globalRoot ctx, c) \<notin> (up_edges (nodes ctx))\<^sup>*"
proof
  assume "(globalRoot ctx, c) \<in> (up_edges (nodes ctx))\<^sup>*"
  then show False
    using assms(2) ctx_okD(4)[OF ok] by (cases rule: converse_rtranclE) (auto simp: up_edges_iff)
qed

lemma create_display_ok:
  assumes ok: "ctx_ok ctx"
  shows "\<exists>ctx'. create_display i ctx = Some ctx' \<and> ctx_ok ctx'"
proof -
  let ?a = "nextObject ctx" and ?n = "new_node i DISPLAY_NODE False"
  let ?c = "ctx\<lparr>nodes := (nodes ctx)(?a \<mapsto> ?n), nextObject := Suc ?a\<rparr>"
  obtain reg c' where r: "RegisterRenderNode ?a ?c = (reg, c')" by (cases "RegisterRenderNode ?a ?c")
  note R = ctx_ok_registered[OF ok fresh_new_node refl refl r]
  have dead: "\<not> alive (nodes ctx) ?a" using ctx_okD(2)[OF ok] by (auto simp: numbers_below_def)
  have ar: "?a \<noteq> globalRoot c'" using ctx_okD(3)[OF ok] dead R(3) by auto
  have pa: "parent (node (nodes c') ?a) = None" by (simp add: R(2) new_node_def)
  obtain k where k: "in_nodes (AddChild (globalRoot c') (Some ?a) (-1)) c' = Some (c'\<lparr>nodes := k\<rparr>)" "ctx_ok (c'\<lparr>nodes := k\<rparr>)"
      "same_objects (nodes c') k" "\<And>x. alive (nodes c') x \<Longrightarrow>
      set (disappearing (node k x)) \<subseteq> set (disappearing (node (nodes c') x)) \<and> sortedChildren (node k x) = sortedChildren (node (nodes c') x)"
    using AddChild_ctx[OF R(1) ctx_okD(3)[OF R(1)] _ ar root_not_below[OF R(1) ar], of "-1"] pa
    by (auto simp: R(2) alive_def)
  have eq: "create_display i ctx = Some (release_local ?a reg (c'\<lparr>nodes := k\<rparr>))"
    using r k(1) by (simp add: create_display_def make_shared_def Let_def)
  show ?thesis
  proof (cases reg)
    case True
    then show ?thesis using k(2) eq by (simp add: release_local_def)
  next
    case False
    have "ctx_ok (c'\<lparr>nodes := k\<rparr>\<lparr>nodes := (nodes (c'\<lparr>nodes := k\<rparr>))(?a := None)\<rparr>)"
    proof (rule ctx_ok_die[OF k(2)])
      show "?a \<noteq> globalRoot (c'\<lparr>nodes := k\<rparr>)" using ar by simp
      show "?a \<notin> snd ` set (nodeMap (c'\<lparr>nodes := k\<rparr>))" using ctx_okD(7)[OF ok] dead R(5)[OF False] by force
      fix b assume b: "alive (nodes (c'\<lparr>nodes := k\<rparr>)) b" "b \<noteq> ?a"
      then have bc: "alive (nodes c') b" using k(3) by (simp add: same_objects_def)
      then have "alive (nodes ctx) b" using b(2) by (simp add: R(2) alive_def)
      then have "?a \<notin> fst ` set (disappearing (node (nodes c') b)) \<and> ?a \<notin> set (sortedChildren (node (nodes c') b))"
        using tree_okD(6)[OF ctx_okD(1)[OF ok], of b ?a] dead b(2) by (auto simp: R(2))
      then show "?a \<notin> fst ` set (disappearing (node (nodes (c'\<lparr>nodes := k\<rparr>)) b)) \<and> ?a \<notin> set (sortedChildren (node (nodes (c'\<lparr>nodes := k\<rparr>)) b))"
        using k(4)[OF bc] by auto
    qed
    then show ?thesis using False eq by (simp add: release_local_def)
  qed
qed

section \<open>Every command\<close>

definition not_below :: "nat \<Rightarrow> nat \<Rightarrow> rs_context \<Rightarrow> bool" where
  "not_below a c ctx \<longleftrightarrow> (a, c) \<notin> (up_edges (nodes ctx))\<^sup>*"

text \<open>The command does not put a node below itself.\<close>

fun no_cycle :: "node_command \<Rightarrow> rs_context \<Rightarrow> bool" where
  "no_cycle (Add_Child i j index) ctx \<longleftrightarrow>
     (\<forall>a c. GetRenderNode BASE_NODE i ctx = Some a \<longrightarrow> GetRenderNode BASE_NODE j ctx = Some c \<longrightarrow> not_below a c ctx)"
| "no_cycle (Attach_To_UniSurfaceNode i s) ctx \<longleftrightarrow>
     (\<forall>a c. GetRenderNode SURFACE_NODE s ctx = Some a \<longrightarrow> GetRenderNode ROOT_NODE i ctx = Some c \<longrightarrow> not_below a c ctx)"
| "no_cycle (Set_Parent_Surface i p) ctx \<longleftrightarrow>
     (\<forall>a c. GetRenderNode BASE_NODE p ctx = Some a \<longrightarrow> GetRenderNode SURFACE_NODE i ctx = Some c \<longrightarrow> not_below a c ctx)"
| "no_cycle _ ctx \<longleftrightarrow> True"

lemma shrink_ctx:
  assumes "ctx_ok ctx" and "\<exists>k. f (nodes ctx) = Some k \<and> tree_ok k \<and> shrinks (nodes ctx) k"
  shows "\<exists>k. in_nodes f ctx = Some (ctx\<lparr>nodes := k\<rparr>) \<and> ctx_ok (ctx\<lparr>nodes := k\<rparr>) \<and> shrinks (nodes ctx) k"
  using assms ctx_ok_shrinks by (auto simp: in_nodes_def)

lemma ctx_ok_unregister:
  assumes "ctx_ok ctx"
  shows "ctx_ok (ctx\<lparr>nodeMap := om_del i (nodeMap ctx)\<rparr>)"
  using assms unfolding ctx_ok_def by (auto simp: om_del_def image_iff om_wf_del[unfolded om_del_def])

lemma RemoveChild_ctx:
  assumes "ctx_ok ctx" and "alive (nodes ctx) a" and "alive (nodes ctx) c"
  shows "\<exists>k. in_nodes (RemoveChild a (Some c)) ctx = Some (ctx\<lparr>nodes := k\<rparr>) \<and> ctx_ok (ctx\<lparr>nodes := k\<rparr>) \<and> shrinks (nodes ctx) k"
  using RemoveChild_ok[OF ctx_okD(1)[OF assms(1)] assms(2,3)] by (intro shrink_ctx[OF assms(1)]) blast

lemma RemoveFromTree_ctx:
  assumes "ctx_ok ctx" and "alive (nodes ctx) a"
  shows "\<exists>k. in_nodes (RemoveFromTree a) ctx = Some (ctx\<lparr>nodes := k\<rparr>) \<and> ctx_ok (ctx\<lparr>nodes := k\<rparr>) \<and> shrinks (nodes ctx) k"
  using RemoveFromTree_ok[OF ctx_okD(1)[OF assms(1)] assms(2)] by (intro shrink_ctx[OF assms(1)]) blast

lemma ClearChildren_ctx:
  assumes "ctx_ok ctx" and "alive (nodes ctx) a"
  shows "\<exists>k. in_nodes (ClearChildren a) ctx = Some (ctx\<lparr>nodes := k\<rparr>) \<and> ctx_ok (ctx\<lparr>nodes := k\<rparr>) \<and> shrinks (nodes ctx) k"
  using ClearChildren_ok[OF ctx_okD(1)[OF assms(1)] assms(2)] by (intro shrink_ctx[OF assms(1)]) blast

lemma destroy_node_ok:
  assumes ok: "ctx_ok ctx"
  shows "\<exists>ctx'. destroy_node i ctx = Some ctx' \<and> ctx_ok ctx'"
proof (cases "GetRenderNode BASE_NODE i ctx")
  case None
  then show ?thesis using ok by (simp add: destroy_node_def)
next
  case (Some a)
  obtain k where k: "in_nodes (ClearChildren a) ctx = Some (ctx\<lparr>nodes := k\<rparr>)" "ctx_ok (ctx\<lparr>nodes := k\<rparr>)" "shrinks (nodes ctx) k"
    using ClearChildren_ctx[OF ok GetRenderNode_Some(1)[OF ok Some]] by blast
  have "alive (nodes (ctx\<lparr>nodes := k\<rparr>)) a" using GetRenderNode_Some(1)[OF ok Some] shrinks_alive[OF k(3)] by simp
  then obtain l where l: "in_nodes (RemoveFromTree a) (ctx\<lparr>nodes := k\<rparr>) = Some (ctx\<lparr>nodes := k\<rparr>\<lparr>nodes := l\<rparr>)" "ctx_ok (ctx\<lparr>nodes := k\<rparr>\<lparr>nodes := l\<rparr>)"
    using RemoveFromTree_ctx[OF k(2)] by blast
  show ?thesis
    using Some k(1) l(1) ctx_ok_unregister[OF l(2)] by (simp add: destroy_node_def UnregisterRenderNode_def)
qed

lemma process_command_ok:
  assumes ok: "ctx_ok ctx" and nc: "no_cycle cmd ctx"
  shows "\<exists>ctx'. process_command cmd ctx = Some ctx' \<and> ctx_ok ctx'"
proof (cases cmd)
  case (Add_Child i j index)
  show ?thesis
  proof (cases "GetRenderNode BASE_NODE i ctx = None \<or> GetRenderNode BASE_NODE j ctx = None")
    case True
    then show ?thesis using ok Add_Child by (auto split: option.split)
  next
    case False
    then obtain a c where ac: "GetRenderNode BASE_NODE i ctx = Some a" "GetRenderNode BASE_NODE j ctx = Some c" by auto
    then have "(a, c) \<notin> (up_edges (nodes ctx))\<^sup>*" using nc Add_Child by (simp add: not_below_def)
    from AddChild_ctx[OF ok GetRenderNode_Some(1)[OF ok ac(1)] GetRenderNode_Some(1,3)[OF ok ac(2)] this, of index]
    show ?thesis using ac Add_Child by auto
  qed
next
  case (Attach_To_UniSurfaceNode i s)
  show ?thesis
  proof (cases "GetRenderNode SURFACE_NODE s ctx = None \<or> GetRenderNode ROOT_NODE i ctx = None")
    case True
    then show ?thesis using ok Attach_To_UniSurfaceNode by (auto split: option.split)
  next
    case False
    then obtain a c where ac: "GetRenderNode SURFACE_NODE s ctx = Some a" "GetRenderNode ROOT_NODE i ctx = Some c" by auto
    then have "(a, c) \<notin> (up_edges (nodes ctx))\<^sup>*" using nc Attach_To_UniSurfaceNode by (simp add: not_below_def)
    from AddChild_ctx[OF ok GetRenderNode_Some(1)[OF ok ac(1)] GetRenderNode_Some(1,3)[OF ok ac(2)] this, of "-1"]
    show ?thesis using ac Attach_To_UniSurfaceNode by auto
  qed
next
  case (Set_Parent_Surface i p)
  show ?thesis
  proof (cases "GetRenderNode BASE_NODE p ctx = None \<or> GetRenderNode SURFACE_NODE i ctx = None")
    case True
    then show ?thesis using ok Set_Parent_Surface by (auto simp: SetParentSurface_def split: option.split)
  next
    case False
    then obtain a c where ac: "GetRenderNode BASE_NODE p ctx = Some a" "GetRenderNode SURFACE_NODE i ctx = Some c" by auto
    then have "(a, c) \<notin> (up_edges (nodes ctx))\<^sup>*" using nc Set_Parent_Surface by (simp add: not_below_def)
    from AddChild_ctx[OF ok GetRenderNode_Some(1)[OF ok ac(1)] GetRenderNode_Some(1,3)[OF ok ac(2)] this, of "-1"]
    show ?thesis using ac Set_Parent_Surface by (auto simp: SetParentSurface_def)
  qed
next
  case (Remove_Self i)
  then show ?thesis using ok RemoveFromTree_ctx[OF ok GetRenderNode_Some(1)[OF ok]]
    by (cases "GetRenderNode BASE_NODE i ctx") (fastforce simp: RemoveSelf_def)+
next
  case (Attach_RSSurfaceNode i s)
  show ?thesis
  proof (cases "GetRenderNode ROOT_NODE i ctx")
    case None
    then show ?thesis using ok Attach_RSSurfaceNode by simp
  next
    case (Some c)
    note c = GetRenderNode_Some(1,3)[OF ok Some]
    from AddChild_ctx[OF ok ctx_okD(3)[OF ok] c root_not_below[OF ok c(2)], of "-1"]
    show ?thesis using Some Attach_RSSurfaceNode by auto
  qed
next
  case (Remove_Child i j)
  show ?thesis
  proof (cases "GetRenderNode BASE_NODE i ctx = None \<or> GetRenderNode BASE_NODE j ctx = None")
    case True
    then show ?thesis using ok Remove_Child by (auto split: option.split)
  next
    case False
    then obtain a c where ac: "GetRenderNode BASE_NODE i ctx = Some a" "GetRenderNode BASE_NODE j ctx = Some c" by auto
    from RemoveChild_ctx[OF ok GetRenderNode_Some(1)[OF ok ac(1)] GetRenderNode_Some(1)[OF ok ac(2)]]
    show ?thesis using ac Remove_Child by auto
  qed
next
  case (Remove_From_Tree i)
  then show ?thesis using ok RemoveFromTree_ctx[OF ok GetRenderNode_Some(1)[OF ok]] by (cases "GetRenderNode BASE_NODE i ctx") fastforce+
next
  case (Clear_Children i)
  then show ?thesis using ok ClearChildren_ctx[OF ok GetRenderNode_Some(1)[OF ok]] by (cases "GetRenderNode BASE_NODE i ctx") fastforce+
qed (use create_node_ok[OF ok] create_display_ok[OF ok] destroy_node_ok[OF ok] in simp_all)

section \<open>Losing a process\<close>

lemma filter_node_ok:
  assumes ok: "ctx_ok ctx" and a: "alive (nodes ctx) (snd e)"
  shows "\<exists>ctx'. filter_node pid e ctx = Some ctx' \<and> ctx_ok ctx' \<and> shrinks (nodes ctx) (nodes ctx') \<and>
    nodeMap ctx' = (if node_pid (fst e) = pid then om_del (fst e) (nodeMap ctx) else nodeMap ctx)"
proof (cases "node_pid (fst e) = pid")
  case False
  then show ?thesis using ok by (simp add: filter_node_def)
next
  case True
  obtain k where k: "in_nodes (RemoveFromTree (snd e)) ctx = Some (ctx\<lparr>nodes := k\<rparr>)" "ctx_ok (ctx\<lparr>nodes := k\<rparr>)" "shrinks (nodes ctx) k"
    using RemoveFromTree_ctx[OF ok a] by blast
  then show ?thesis using True ctx_ok_unregister[OF k(2)] by (simp add: filter_node_def)
qed

lemma FilterNodeByPid_ok:
  assumes "ctx_ok ctx" and "\<forall>e \<in> set order. alive (nodes ctx) (snd e)"
  shows "\<exists>ctx'. FilterNodeByPid order pid ctx = Some ctx' \<and> ctx_ok ctx' \<and> shrinks (nodes ctx) (nodes ctx') \<and>
    nodeMap ctx' = filter (\<lambda>e. fst e \<notin> fst ` {e \<in> set order. node_pid (fst e) = pid}) (nodeMap ctx)"
  using assms unfolding FilterNodeByPid_def
proof (induction order arbitrary: ctx)
  case (Cons e es)
  obtain c' where c': "filter_node pid e ctx = Some c'" "ctx_ok c'" "shrinks (nodes ctx) (nodes c')"
      "nodeMap c' = (if node_pid (fst e) = pid then om_del (fst e) (nodeMap ctx) else nodeMap ctx)"
    using filter_node_ok[OF Cons.prems(1), of e pid] Cons.prems(2) by auto
  have "\<forall>d \<in> set es. alive (nodes c') (snd d)" using Cons.prems(2) shrinks_alive[OF c'(3)] by simp
  from Cons.IH[OF c'(2) this] obtain c2 where c2: "ofold (filter_node pid) es c' = Some c2" "ctx_ok c2" "shrinks (nodes c') (nodes c2)"
      "nodeMap c2 = filter (\<lambda>d. fst d \<notin> fst ` {d \<in> set es. node_pid (fst d) = pid}) (nodeMap c')" by blast
  have "nodeMap c2 = filter (\<lambda>d. fst d \<notin> fst ` {d \<in> set (e # es). node_pid (fst d) = pid}) (nodeMap ctx)"
  proof -
    have "fst ` {d \<in> set (e # es). node_pid (fst d) = pid} =
        (if node_pid (fst e) = pid then insert (fst e) (fst ` {d \<in> set es. node_pid (fst d) = pid})
         else fst ` {d \<in> set es. node_pid (fst d) = pid})" by auto
    then show ?thesis unfolding c2(4) c'(4) by (simp add: om_del_def conj_commute)
  qed
  then show ?case using c'(1) c2(1,2) shrinks_trans[OF c'(3) c2(3)] by auto
qed simp

section \<open>Steps\<close>

text \<open>An object is owned by the context, the map, or as a disappearing or sorted child.\<close>

definition owned :: "nat \<Rightarrow> rs_context \<Rightarrow> bool" where
  "owned a ctx \<longleftrightarrow> a = globalRoot ctx \<or> a \<in> snd ` set (nodeMap ctx) \<or>
     (\<exists>b. alive (nodes ctx) b \<and> (a \<in> fst ` set (disappearing (node (nodes ctx) b)) \<or> a \<in> set (sortedChildren (node (nodes ctx) b))))"

inductive ctx_step :: "rs_context \<Rightarrow> rs_context \<Rightarrow> bool" where
  command: "no_cycle cmd ctx \<Longrightarrow> process_command cmd ctx = Some ctx' \<Longrightarrow> ctx_step ctx ctx'"
| lose_process: "set order = set (nodeMap ctx) \<Longrightarrow> FilterNodeByPid order pid ctx = Some ctx' \<Longrightarrow> ctx_step ctx ctx'"
| visit: "alive (nodes ctx) a \<Longrightarrow> GetSortedChildren a (nodes ctx) = Some (ss, h) \<Longrightarrow> ctx_step ctx (ctx\<lparr>nodes := h\<rparr>)"
| forget_sorted: "alive (nodes ctx) a \<Longrightarrow> ctx_step ctx (ctx\<lparr>nodes := ResetSortedChildren a (nodes ctx)\<rparr>)"
| animate: "alive (nodes ctx) a \<Longrightarrow>
    ctx_step ctx (ctx\<lparr>nodes := upd a (\<lambda>n. n\<lparr>animTransition := b, positionZ := z\<rparr>) (nodes ctx)\<rparr>)"
| die: "\<not> owned a ctx \<Longrightarrow> ctx_step ctx (ctx\<lparr>nodes := (nodes ctx)(a := None)\<rparr>)"

inductive_cases ctx_stepE: "ctx_step ctx ctx'"

definition ctx_reachable :: "rs_context \<Rightarrow> bool" where
  "ctx_reachable ctx \<longleftrightarrow> ctx_step\<^sup>*\<^sup>* new_context ctx"

lemma tree_ok_animate:
  assumes ok: "tree_ok h" and a: "alive h a"
  shows "tree_ok (upd a (\<lambda>n. n\<lparr>animTransition := b, positionZ := z\<rparr>) h)"
  using a by (intro tree_ok_cong[OF ok]) (simp_all add: node_upd)

lemma ctx_step_ok:
  assumes "ctx_step ctx ctx'" and ok: "ctx_ok ctx"
  shows "ctx_ok ctx'"
  using assms(1)
proof cases
  case (command cmd)
  then show ?thesis using process_command_ok[OF ok command(1)] by auto
next
  case (lose_process order pid)
  have "\<forall>e \<in> set order. alive (nodes ctx) (snd e)" using ctx_okD(7)[OF ok] lose_process(1) by auto
  then show ?thesis using FilterNodeByPid_ok[OF ok, of order pid] lose_process(2) by auto
next
  case (visit a ss h)
  then show ?thesis using GetSortedChildren_ok[OF ctx_okD(1)[OF ok] visit(2)] ctx_ok_shrinks[OF ok] by auto
next
  case (forget_sorted a)
  then show ?thesis using ResetSortedChildren_ok[OF ctx_okD(1)[OF ok] forget_sorted(2)] ctx_ok_shrinks[OF ok] by auto
next
  case (animate a z b)
  let ?f = "\<lambda>n. n\<lparr>animTransition := b, positionZ := z\<rparr>"
  have al: "alive (upd a ?f (nodes ctx)) x \<longleftrightarrow> alive (nodes ctx) x" for x by simp
  have nd: "parent (node (upd a ?f (nodes ctx)) x) = parent (node (nodes ctx) x)"
      "children (node (upd a ?f (nodes ctx)) x) = children (node (nodes ctx) x)"
      "nid (node (upd a ?f (nodes ctx)) x) = nid (node (nodes ctx) x)" for x
    using animate(2) by (simp_all add: node_upd)
  show ?thesis
    unfolding animate(1) ctx_ok_def using ctx_okD(2-7)[OF ok] tree_ok_animate[OF ctx_okD(1)[OF ok] animate(2)]
    by (auto simp: al nd numbers_below_def)
next
  case (die a)
  then show ?thesis using ctx_ok_die[OF ok, of a] by (auto simp: owned_def)
qed

lemma ctx_ok_new: "ctx_ok new_context"
proof -
  have al: "alive (nodes new_context) a \<longleftrightarrow> a = 0 \<or> a = 1" for a by (auto simp: new_context_def alive_def)
  have nd: "children (node (nodes new_context) a) = []" "parent (node (nodes new_context) a) = None"
      "disappearing (node (nodes new_context) a) = []" "sortedChildren (node (nodes new_context) a) = []"
    if "alive (nodes new_context) a" for a
    using that unfolding al by (auto simp: new_context_def new_node_def)
  have "up_edges (nodes new_context) = {}" using nd(2) by (auto simp: up_edges_iff)
  moreover have "{a. alive (nodes new_context) a} = {0, 1}" using al by auto
  ultimately have "tree_ok (nodes new_context)"
    by (intro tree_okI) (simp_all add: nd lists_ok_def acyclic_def)
  moreover have "nodeMap new_context = [(0, 1)]" "globalRoot new_context = 0" "nextObject new_context = 2"
      "nid (node (nodes new_context) 1) = 0"
    by (simp_all add: new_context_def) (simp add: new_node_def)
  moreover have "numbers_below 2 a (node (nodes new_context) a)" if "alive (nodes new_context) a" for a
    using that nd[OF that] by (auto simp: al numbers_below_def)
  ultimately show ?thesis using nd(2)[of 0] al[of 0] al[of 1] unfolding ctx_ok_def by (simp add: om_wf_def)
qed

lemma ctx_reachable_ok: "ctx_reachable ctx \<Longrightarrow> ctx_ok ctx"
  unfolding ctx_reachable_def
proof (induction rule: rtranclp_induct)
  case (step y z)
  then show ?case using ctx_step_ok by blast
qed (rule ctx_ok_new)

end
