(* ===== verification/Render_Tree_Props.thy ===== *)
theory Render_Tree_Props
  imports Render_Context_Inv
begin

text \<open>
  The properties of the render tree, with the contexts they are shown on: a canvas node 1 with children,
  made by commands from the new context.
\<close>

section \<open>Helpers\<close>

lemma top_not_below: "parent (node (nodes ctx) a) = None \<Longrightarrow> a \<noteq> c \<Longrightarrow> not_below a c ctx"
  unfolding not_below_def by (auto simp: up_edges_iff elim: converse_rtranclE)

lemma under_top_not_below:
  assumes "parent (node (nodes ctx) a) = Some r" and "parent (node (nodes ctx) r) = None" and "c \<noteq> a" and "c \<noteq> r"
  shows "not_below a c ctx"
  unfolding not_below_def
proof
  assume "(a, c) \<in> (up_edges (nodes ctx))\<^sup>*"
  then show False using assms(3)
  proof (cases rule: converse_rtranclE)
    case (step y)
    then have "(r, c) \<in> (up_edges (nodes ctx))\<^sup>*" using assms(1) by (auto simp: up_edges_iff)
    then show False using assms(2,4) by (auto simp: up_edges_iff elim: converse_rtranclE)
  qed simp
qed

lemma reachable_command:
  assumes "ctx_reachable ctx" and "no_cycle cmd ctx" and "process_command cmd ctx = Some ctx'"
  shows "ctx_reachable ctx'"
  using assms ctx_step.command unfolding ctx_reachable_def by (metis rtranclp.rtrancl_into_rtrancl)

definition demo1 :: rs_context where
  "demo1 = create_node CANVAS_NODE 2 (create_node CANVAS_NODE 1 new_context)"

definition demo2 :: rs_context where
  "demo2 = the (process_command (Add_Child 1 2 (-1)) demo1)"

lemma demo1_reachable: "ctx_reachable demo1"
proof -
  have n: "ctx_reachable new_context" by (simp add: ctx_reachable_def)
  have "ctx_reachable (create_node CANVAS_NODE 1 new_context)"
    by (rule reachable_command[OF n, of "Create_Canvas 1"]) simp_all
  then show ?thesis unfolding demo1_def by (rule reachable_command[of _ "Create_Canvas 2"]) simp_all
qed

lemma demo1_nodes:
  "GetRenderNode BASE_NODE 1 demo1 = Some 2" "GetRenderNode BASE_NODE 2 demo1 = Some 3"
  "parent (node (nodes demo1) 2) = None"
  by code_simp+

lemma demo2_eq: "process_command (Add_Child 1 2 (-1)) demo1 = Some demo2"
proof -
  have "no_cycle (Add_Child 1 2 (-1)) demo1" using top_not_below[OF demo1_nodes(3)] demo1_nodes by simp
  from process_command_ok[OF ctx_reachable_ok[OF demo1_reachable] this] show ?thesis unfolding demo2_def by auto
qed

lemma demo2_reachable: "ctx_reachable demo2"
proof -
  have "no_cycle (Add_Child 1 2 (-1)) demo1" using top_not_below[OF demo1_nodes(3)] demo1_nodes by simp
  from reachable_command[OF demo1_reachable this demo2_eq] show ?thesis .
qed

lemma demo2_nodes:
  "children (node (nodes demo2) 2) = [3]" "alive (nodes demo2) 2" "alive (nodes demo2) 3"
  "nodeMap demo2 = [(0, 1), (1, 2), (2, 3)]"
  by (code_simp, code_simp, code_simp, code_simp)

section \<open>The tree stays a tree\<close>



text \<open>
  C14. In a reachable context every command that puts no node below itself returns, and so do the
  sorting of the children of any node and the loss of a process: no recursion over the tree runs for
  ever. The context reached is reachable again.
\<close>

theorem tree_operations_return:
  assumes "ctx_reachable ctx"
  shows "(no_cycle cmd ctx \<longrightarrow> (\<exists>ctx'. process_command cmd ctx = Some ctx' \<and> ctx_reachable ctx')) \<and>
    (alive (nodes ctx) a \<longrightarrow> (\<exists>ss h. GetSortedChildren a (nodes ctx) = Some (ss, h) \<and> ctx_reachable (ctx\<lparr>nodes := h\<rparr>))) \<and>
    (set order = set (nodeMap ctx) \<longrightarrow> (\<exists>ctx'. FilterNodeByPid order pid ctx = Some ctx' \<and> ctx_reachable ctx'))"
proof (intro conjI impI)
  note ok = ctx_reachable_ok[OF assms]
  have reach: "ctx_reachable ctx'" if "ctx_step ctx ctx'" for ctx'
    using assms that unfolding ctx_reachable_def by simp
  show "\<exists>ctx'. process_command cmd ctx = Some ctx' \<and> ctx_reachable ctx'" if "no_cycle cmd ctx"
    using process_command_ok[OF ok that] reach[OF command[OF that]] by blast
  show "\<exists>ss h. GetSortedChildren a (nodes ctx) = Some (ss, h) \<and> ctx_reachable (ctx\<lparr>nodes := h\<rparr>)" if a: "alive (nodes ctx) a"
    using GetSortedChildren_ok[OF ctx_okD(1)[OF ok] a] reach[OF visit[OF a]] by blast
  show "\<exists>ctx'. FilterNodeByPid order pid ctx = Some ctx' \<and> ctx_reachable ctx'" if o: "set order = set (nodeMap ctx)"
  proof -
    have "\<forall>e \<in> set order. alive (nodes ctx) (snd e)" using o ctx_okD(7)[OF ok] by auto
    then show ?thesis using FilterNodeByPid_ok[OF ok, of order pid] reach[OF lose_process[OF o]] by blast
  qed
qed

theorem tree_operations_return_witness:
  "\<exists>ctx'. process_command (Remove_Child 1 2) demo2 = Some ctx' \<and> ctx_reachable ctx'"
  using tree_operations_return[OF demo2_reachable, of "Remove_Child 1 2"] by simp

text \<open>
  C28. Sorting the children of a node of a consistent tree gives each living child and each disappearing
  child whose own transition or one above it runs exactly once, and drops the other disappearing
  children. When all the children given are render nodes they come in the order of their z positions, and
  when in addition there are no disappearing children in the stable sort of the children.
\<close>

theorem sorted_children_are_those_shown:
  assumes "tree_ok h" and "alive h a"
  shows "\<exists>k. GenerateSortedChildren a h = Some k \<and>
    mset (sortedChildren (node k a)) = mset (filter (\<lambda>c. h c \<noteq> None) (children (node h a))) +
      mset (map fst (filter (\<lambda>d. HasTransition h a = Some True \<or> own_transition (node h (fst d))) (disappearing (node h a)))) \<and>
    disappearing (node k a) = filter (\<lambda>d. HasTransition h a = Some True \<or> own_transition (node h (fst d))) (disappearing (node h a)) \<and>
    distinct (sortedChildren (node k a)) \<and>
    ((\<forall>c \<in> set (sortedChildren (node k a)). IsInstanceOf RS_NODE (ntype (node h c))) \<longrightarrow>
      sorted (map (\<lambda>c. positionZ (node h c)) (sortedChildren (node k a))) \<and>
      (disappearing (node h a) = [] \<longrightarrow>
        sortedChildren (node k a) = sort_key (\<lambda>c. positionZ (node h c)) (filter (\<lambda>c. h c \<noteq> None) (children (node h a)))))"
proof -
  let ?al = "alive_children h a" and ?kd = "kept_disappearing h a"
  obtain k where k: "GenerateSortedChildren a h = Some k" "disappearing (node k a) = ?kd"
      "mset (sortedChildren (node k a)) = mset ?al + mset (map fst ?kd)"
      "(\<forall>c \<in> set (sortedChildren (node k a)). IsInstanceOf RS_NODE (ntype (node h c))) \<longrightarrow>
        sorted (map (\<lambda>c. positionZ (node h c)) (sortedChildren (node k a)))"
      "?kd = [] \<longrightarrow> (\<forall>c \<in> set ?al. IsInstanceOf RS_NODE (ntype (node h c))) \<longrightarrow>
        sortedChildren (node k a) = sort_key (\<lambda>c. positionZ (node h c)) ?al"
    using GenerateSortedChildren_ok[OF assms] by (elim exE conjE) (rule that; assumption)
  have l: "lists_ok (node h a)" using tree_okD(5)[OF assms] .
  have "distinct (?al @ map fst ?kd)"
    using l unfolding lists_ok_def alive_children_def kept_disappearing_def by (auto simp: distinct_map_filter)
  then have d: "distinct (sortedChildren (node k a))" using k(3) by (metis mset_append mset_eq_imp_distinct_iff)
  have sets: "set ?al \<subseteq> set (sortedChildren (node k a))" using k(3) by (metis mset_subset_eq_add_left set_mset_mono set_mset_mset)
  have "disappearing (node h a) = [] \<Longrightarrow> ?kd = []" by (simp add: kept_disappearing_def)
  then show ?thesis
    using k d sets unfolding alive_children_def kept_disappearing_def by (intro exI[of _ k]) auto
qed

theorem sorted_children_are_those_shown_witness:
  "\<exists>k. GenerateSortedChildren 2 (nodes demo2) = Some k \<and> mset (sortedChildren (node k 2)) = mset [3]"
proof -
  have "filter (\<lambda>c. nodes demo2 c \<noteq> None) (children (node (nodes demo2) 2)) = [3]" "disappearing (node (nodes demo2) 2) = []"
    by (code_simp, code_simp)
  then show ?thesis
    using sorted_children_are_those_shown[OF ctx_okD(1)[OF ctx_reachable_ok[OF demo2_reachable]] demo2_nodes(2)] by auto
qed

section \<open>A process that is gone\<close>

lemma RemoveFromTree_unlists:
  assumes "tree_ok h" and "alive h a"
  shows "\<exists>k. RemoveFromTree a h = Some k \<and> (\<forall>q. alive k q \<longrightarrow> a \<notin> set (children (node k q)))"
  using detach_ok[OF assms] unfolding RemoveFromTree_def by blast

lemma filter_unlists:
  assumes "ctx_ok ctx" and "\<forall>e \<in> set order. alive (nodes ctx) (snd e)" and "FilterNodeByPid order pid ctx = Some ctx'"
    and "(i, a) \<in> set order" and "node_pid i = pid"
  shows "\<forall>q. alive (nodes ctx') q \<longrightarrow> a \<notin> set (children (node (nodes ctx') q))"
  using assms
proof (induction order arbitrary: ctx)
  case (Cons e es)
  obtain c' where c': "filter_node pid e ctx = Some c'" "ctx_ok c'" "shrinks (nodes ctx) (nodes c')"
    using filter_node_ok[OF Cons.prems(1), of e pid] Cons.prems(2) by auto
  have al: "\<forall>d \<in> set es. alive (nodes c') (snd d)" using Cons.prems(2) shrinks_alive[OF c'(3)] by simp
  have rest: "FilterNodeByPid es pid c' = Some ctx'" using Cons.prems(3) c'(1) by (simp add: FilterNodeByPid_def)
  show ?case
  proof (cases "(i, a) \<in> set es")
    case True
    then show ?thesis using Cons.IH[OF c'(2) al rest _ Cons.prems(5)] by blast
  next
    case False
    then have e: "e = (i, a)" using Cons.prems(4) by auto
    obtain k where k: "RemoveFromTree a (nodes ctx) = Some k" "\<forall>q. alive k q \<longrightarrow> a \<notin> set (children (node k q))"
      using RemoveFromTree_unlists[OF ctx_okD(1)[OF Cons.prems(1)], of a] Cons.prems(2) e by auto
    then have "nodes c' = k" using c'(1) e Cons.prems(5) by (simp add: filter_node_def in_nodes_def) (metis rs_context.select_convs(1) rs_context.surjective rs_context.update_convs(1,2))
    moreover have "shrinks (nodes c') (nodes ctx')" using FilterNodeByPid_ok[OF c'(2) al, of pid] rest by auto
    ultimately show ?thesis using k(2) unfolding shrinks_def same_objects_def by blast
  qed
qed simp

text \<open>
  C29. When a process is lost, exactly the entries of its nodes leave the map, and none of its nodes is on
  any list of children afterwards, in whatever order the map is visited.
\<close>

theorem lost_process_leaves_the_tree:
  assumes "ctx_reachable ctx" and "set order = set (nodeMap ctx)" and "FilterNodeByPid order pid ctx = Some ctx'"
  shows "nodeMap ctx' = filter (\<lambda>e. node_pid (fst e) \<noteq> pid) (nodeMap ctx) \<and>
    (\<forall>i a q. map_of (nodeMap ctx) i = Some a \<longrightarrow> node_pid i = pid \<longrightarrow> alive (nodes ctx') q \<longrightarrow> a \<notin> set (children (node (nodes ctx') q)))"
proof
  note ok = ctx_reachable_ok[OF assms(1)]
  have al: "\<forall>e \<in> set order. alive (nodes ctx) (snd e)" using assms(2) ctx_okD(7)[OF ok] by auto
  have "nodeMap ctx' = filter (\<lambda>e. fst e \<notin> fst ` {e \<in> set (nodeMap ctx). node_pid (fst e) = pid}) (nodeMap ctx)"
    using FilterNodeByPid_ok[OF ok al, of pid] assms(2,3) by auto
  then show "nodeMap ctx' = filter (\<lambda>e. node_pid (fst e) \<noteq> pid) (nodeMap ctx)"
    by (auto intro!: filter_cong simp: image_iff)
  show "\<forall>i a q. map_of (nodeMap ctx) i = Some a \<longrightarrow> node_pid i = pid \<longrightarrow> alive (nodes ctx') q \<longrightarrow> a \<notin> set (children (node (nodes ctx') q))"
    using filter_unlists[OF ok al assms(3)] assms(2) by (blast dest: map_of_SomeD)
qed

theorem lost_process_leaves_the_tree_witness:
  "\<exists>ctx'. FilterNodeByPid (nodeMap demo2) 0 demo2 = Some ctx' \<and> nodeMap ctx' = []"
proof -
  note ok = ctx_reachable_ok[OF demo2_reachable]
  obtain ctx' where "FilterNodeByPid (nodeMap demo2) 0 demo2 = Some ctx'"
  proof -
    have "\<forall>e \<in> set (nodeMap demo2). alive (nodes demo2) (snd e)" using ctx_okD(7)[OF ok] by auto
    from FilterNodeByPid_ok[OF ok this, of 0] that show ?thesis by blast
  qed
  moreover have "filter (\<lambda>e. node_pid (fst e) \<noteq> 0) (nodeMap demo2) = []" unfolding demo2_nodes(4) by code_simp
  ultimately show ?thesis using lost_process_leaves_the_tree[OF demo2_reachable refl] by auto
qed

section \<open>A node below itself\<close>

text \<open>The parent of a node is the node itself and no transition stops the way up.\<close>

definition own_parent :: "heap \<Rightarrow> nat \<Rightarrow> bool" where
  "own_parent h a \<longleftrightarrow> alive h a \<and> parent (node h a) = Some a \<and> ntype (node h a) \<noteq> DISPLAY_NODE \<and> \<not> own_transition (node h a)"

lemma HasTransition_own_parent:
  assumes "own_parent h a"
  shows "HasTransition h a = None"
proof (rule ccontr)
  assume "HasTransition h a \<noteq> None"
  then obtain t where t: "HasTransition h a = Some t" by blast
  have "\<not> own_parent h a"
  proof (rule HasTransition.raw_induct[where P = "\<lambda>h a t. \<not> own_parent h a", OF _ t])
    fix F h a t
    assume IH: "\<And>h a t. F h a = Some t \<Longrightarrow> \<not> own_parent h a"
      and body: "(if ntype (node h a) = DISPLAY_NODE then Some False
      else if own_transition (node h a) then Some True
      else (case lock h (parent (node h a)) of None \<Rightarrow> Some False | Some p \<Rightarrow> F h p)) = Some t"
    show "\<not> own_parent h a"
    proof
      assume o: "own_parent h a"
      then have "lock h (parent (node h a)) = Some a" by (auto simp: own_parent_def lock_def alive_def)
      then have "F h a = Some t" using body o by (simp add: own_parent_def)
      then show False using IH o by blast
    qed
  qed
  then show False using assms by blast
qed

text \<open>\<open>SetIsOnTheTree\<close> changes no list; it does not return from a node that is its own child.\<close>

lemma ofold_same_lists:
  assumes "ofold (\<lambda>c h. if h c = None then Some h else F c h) cs h = Some k"
    and "\<And>c h k. F c h = Some k \<Longrightarrow> (\<forall>x. alive k x = alive h x \<and> children (node k x) = children (node h x)) \<and> \<not> stuck c h"
    and "\<And>c h k. \<forall>x. alive k x = alive h x \<and> children (node k x) = children (node h x) \<Longrightarrow> stuck c h = stuck c k"
    and "\<And>c h. stuck c h \<Longrightarrow> h c \<noteq> None"
  shows "(\<forall>x. alive k x = alive h x \<and> children (node k x) = children (node h x)) \<and> (\<forall>c \<in> set cs. \<not> stuck c h)"
  using assms(1)
proof (induction cs arbitrary: h)
  case (Cons c cs)
  show ?case
  proof (cases "h c = None")
    case True
    then show ?thesis using Cons assms(4)[of c h] by auto
  next
    case False
    then obtain h1 where h1: "F c h = Some h1" "ofold (\<lambda>c h. if h c = None then Some h else F c h) cs h1 = Some k"
      using Cons.prems by (cases "F c h") auto
    note s = assms(2)[OF h1(1)]
    have "stuck d h = stuck d h1" for d using s assms(3)[of h1 h] by blast
    then show ?thesis using Cons.IH[OF h1(2)] s by auto
  qed
qed simp

lemma SetIsOnTheTree_same_lists:
  assumes "SetIsOnTheTree flag a h = Some k"
  shows "(\<forall>x. alive k x = alive h x \<and> children (node k x) = children (node h x)) \<and> \<not> (flag \<and> alive h a \<and> a \<in> set (children (node h a)))"
proof (rule SetIsOnTheTree.raw_induct[where P = "\<lambda>flag a h k. (\<forall>x. alive k x = alive h x \<and> children (node k x) = children (node h x)) \<and>
    \<not> (flag \<and> alive h a \<and> a \<in> set (children (node h a)))", OF _ assms])
  fix F flag a h k
  assume IH: "\<And>flag a h k. F flag a h = Some k \<Longrightarrow> (\<forall>x. alive k x = alive h x \<and> children (node k x) = children (node h x)) \<and>
      \<not> (flag \<and> alive h a \<and> a \<in> set (children (node h a)))"
    and body: "(if \<not> flag \<and> \<not> isOnTheTree (node h a) then Some h
      else ofold (\<lambda>c h. if h c = None then Some h else F flag c h)
             (children (node h a)) (upd a (isOnTheTree_update (\<lambda>_. flag)) h)) = Some k"
  let ?h = "upd a (isOnTheTree_update (\<lambda>_. flag)) h"
  have same: "alive ?h x = alive h x" "children (node ?h x) = children (node h x)" for x
    by simp (cases "h x"; auto simp: upd_def)
  show "(\<forall>x. alive k x = alive h x \<and> children (node k x) = children (node h x)) \<and> \<not> (flag \<and> alive h a \<and> a \<in> set (children (node h a)))"
  proof (cases "\<not> flag \<and> \<not> isOnTheTree (node h a)")
    case True
    then show ?thesis using body by simp
  next
    case False
    then have b: "ofold (\<lambda>c h. if h c = None then Some h else F flag c h) (children (node h a)) ?h = Some k"
      using body by (auto split: if_splits)
    have "(\<forall>x. alive k x = alive ?h x \<and> children (node k x) = children (node ?h x)) \<and>
      (\<forall>c \<in> set (children (node h a)). \<not> (flag \<and> alive ?h c \<and> c \<in> set (children (node ?h c))))"
      by (rule ofold_same_lists[where F = "F flag" and stuck = "\<lambda>c h. flag \<and> alive h c \<and> c \<in> set (children (node h c))", OF b])
        (use IH in \<open>auto simp: alive_def\<close>)
    then have lists: "alive k x = alive h x \<and> children (node k x) = children (node h x)"
      and below: "c \<in> set (children (node h a)) \<Longrightarrow> \<not> (flag \<and> alive h c \<and> c \<in> set (children (node h c)))" for x c
      unfolding same by blast+
    show ?thesis using lists below by blast
  qed
qed

lemma SetIsOnTheTree_own_child:
  "alive h a \<Longrightarrow> a \<in> set (children (node h a)) \<Longrightarrow> SetIsOnTheTree True a h = None"
  using SetIsOnTheTree_same_lists[of True a h] by (cases "SetIsOnTheTree True a h") auto

lemma own_parent_upd:
  assumes "own_parent h a" and "\<And>n. parent (f n) = parent n \<and> ntype (f n) = ntype n \<and> animTransition (f n) = animTransition n"
  shows "own_parent (upd b f h) a"
proof -
  have "node (upd b f h) a = (if a = b then f (node h a) else node h a)" using assms(1) by (auto simp: own_parent_def upd_def alive_def)
  then show ?thesis using assms by (auto simp: own_parent_def own_transition_def)
qed

lemma RemoveFromTree_own_parent:
  assumes "own_parent h a" and "a \<in> set (children (node h a))"
  shows "RemoveFromTree a h = None"
proof -
  have "lock h (parent (node h a)) = Some a" using assms(1) by (auto simp: own_parent_def lock_def alive_def)
  moreover have "HasTransition (forget_disappearing a a h) a = None"
    unfolding forget_disappearing_def by (rule HasTransition_own_parent[OF own_parent_upd[OF assms(1)]]) simp
  ultimately show ?thesis using assms(2) by (simp add: RemoveFromTree_def RemoveChild_def Let_def)
qed

text \<open>
  The service does not refuse to put a node below itself. Two commands of a client, which add a node
  to itself and take it off the tree, make it recurse for ever: unless the node has a transition of its
  own or is a display node, one of the two commands does not return.
\<close>

theorem self_child_never_returns:
  assumes "ctx_reachable ctx" and "GetRenderNode BASE_NODE i ctx = Some a"
    and "ntype (node (nodes ctx) a) \<noteq> DISPLAY_NODE" and "\<not> own_transition (node (nodes ctx) a)"
  shows "process_transaction [Add_Child i i index, Remove_From_Tree i] ctx = None"
proof -
  note ok = ctx_reachable_ok[OF assms(1)] and ga = assms(2)
  let ?h = "nodes ctx"
  have a: "alive ?h a" by (rule GetRenderNode_Some(1)[OF ok ga])
  obtain k where k: "(case lock ?h (parent (node ?h a)) of None \<Rightarrow> Some ?h | Some p \<Rightarrow> RemoveChild p (Some a) ?h) = Some k" "shrinks ?h k"
    using detach_ok[OF ctx_okD(1)[OF ok] a] by blast
  have ak: "alive k a" using a shrinks_alive[OF k(2)] by simp
  define l where "l = forget_disappearing a a (upd a (children_update (insert_child a index)) (upd a (parent_update (\<lambda>_. Some a)) k))"
  have nl: "parent (node l a) = Some a" "a \<in> set (children (node l a))" "ntype (node l a) = ntype (node ?h a)"
      "animTransition (node l a) = animTransition (node ?h a)"
    using ak a k(2) by (simp_all add: l_def forget_disappearing_def node_upd set_insert_child shrinks_def same_objects_def)
  have al: "alive l a" using ak by (simp add: l_def forget_disappearing_def)
  have own: "own_parent l a" using al nl assms(3,4) by (simp add: own_parent_def own_transition_def)
  have add: "AddChild a (Some a) index ?h = (if isOnTheTree (node l a) then None else Some l)"
    unfolding AddChild_def option.case k(1) Option.bind.bind_lunit Let_def l_def[symmetric]
    using SetIsOnTheTree_own_child[OF al nl(2)] by simp
  have g: "GetRenderNode BASE_NODE i (ctx\<lparr>nodes := l\<rparr>) = Some a" using ga nl(3) by (auto simp: GetRenderNode_def split: option.splits if_splits)
  show ?thesis
    using ga g add RemoveFromTree_own_parent[OF own nl(2)] by (simp add: process_transaction_def in_nodes_def)
qed

theorem self_child_never_returns_witness:
  "process_transaction [Add_Child 2 2 0, Remove_From_Tree 2] demo1 = None"
  by (rule self_child_never_returns[OF demo1_reachable demo1_nodes(2)]) code_simp+

section \<open>Moved while it disappears\<close>

text \<open>
  A node that is removed while its own transition runs keeps its place on the tree; added then to a
  node that is not on the tree it stays marked as on the tree, below a parent that is not.
\<close>

theorem moved_in_transition_stays_on_tree:
  assumes "ctx_reachable ctx" and "GetRenderNode BASE_NODE ip ctx = Some p" and "GetRenderNode BASE_NODE iq ctx = Some q"
    and "GetRenderNode BASE_NODE ic ctx = Some c" and "c \<in> set (children (node (nodes ctx) p))"
    and "own_transition (node (nodes ctx) c)" and "isOnTheTree (node (nodes ctx) c)" and "\<not> isOnTheTree (node (nodes ctx) q)"
  shows "\<exists>ctx'. process_transaction [Remove_Child ip ic, Add_Child iq ic index] ctx = Some ctx' \<and>
    parent (node (nodes ctx') c) = Some q \<and> c \<in> set (children (node (nodes ctx') q)) \<and>
    isOnTheTree (node (nodes ctx') c) \<and> \<not> isOnTheTree (node (nodes ctx') q)"
proof -
  note ok = ctx_reachable_ok[OF assms(1)]
  let ?h = "nodes ctx"
  have al: "alive ?h p" "alive ?h q" "alive ?h c" using GetRenderNode_Some(1)[OF ok] assms(2-4) by blast+
  note tree = ctx_okD(1)[OF ok]
  have fid: "forget_disappearing p c ?h = ?h"
    using tree_ok_alive_child(2)[OF tree al(1) assms(5) al(3)] by (rule forget_id[OF al(1)])
  have par: "parent (node ?h c) = Some p" using tree_okD(3)[OF tree al(3,1) assms(5)] .
  have nd: "ntype (node ?h c) \<noteq> DISPLAY_NODE" using assms(6) by (auto simp: own_transition_def IsInstanceOf_def)
  have ht: "HasTransition ?h c = Some True" using assms(6) nd by (subst HasTransition.simps) simp
  define k where "k = upd p (\<lambda>n. n\<lparr>children := remove1 c (children n), dirty := True\<rparr>)
    (upd p (disappearing_update (\<lambda>ds. ds @ [(c, word_of_nat (index_of c (children (node ?h p))))])) ?h)"
  have rm: "RemoveChild p (Some c) ?h = Some k"
    using assms(5) ht by (simp add: RemoveChild_def fid Let_def k_def)
  have ak: "alive k x \<longleftrightarrow> alive ?h x" for x by (simp add: k_def)
  have nk: "parent (node k x) = parent (node ?h x)" "isOnTheTree (node k x) = isOnTheTree (node ?h x)" "ntype (node k x) = ntype (node ?h x)" for x
    using al(1) by (simp_all add: k_def node_upd)
  have dc: "distinct (children (node ?h p))" using tree_okD(5)[OF tree al(1)] by (simp add: lists_ok_def)
  have ck: "c \<notin> set (children (node k p))" using al(1) dc by (simp add: k_def node_upd)
  have lk: "lock k (parent (node k c)) = Some p" using par al(1) ak[of p] by (auto simp: nk lock_def alive_def)
  define l where "l = forget_disappearing q c (upd q (children_update (insert_child c index)) (upd c (parent_update (\<lambda>_. Some q)) k))"
  have nl: "parent (node l c) = Some q" "c \<in> set (children (node l q))" "isOnTheTree (node l x) = isOnTheTree (node ?h x)" for x
    using al ak by (simp_all add: l_def forget_disappearing_def node_upd set_insert_child nk)
  have ad: "AddChild q (Some c) index k = Some l"
    using lk ck nl(3)[of q] assms(8) by (simp add: AddChild_def RemoveChild_def Let_def l_def[symmetric])
  have g: "GetRenderNode BASE_NODE j (ctx\<lparr>nodes := k\<rparr>) = GetRenderNode BASE_NODE j ctx" for j
    by (simp add: GetRenderNode_def nk split: option.split)
  show ?thesis
    using assms(2-4,7,8) rm ad g nl by (simp add: process_transaction_def in_nodes_def)
qed

text \<open>A root node 1 on the tree with a canvas node 2 in transition below it; canvas node 3 is apart.\<close>

definition demo3 :: rs_context where
  "demo3 = create_node CANVAS_NODE 3 (create_node CANVAS_NODE 2 (create_node ROOT_NODE 1 new_context))"

definition demo3a :: rs_context where
  "demo3a = the (process_command (Attach_RSSurfaceNode 1 0) demo3)"

definition demo4 :: rs_context where
  "demo4 = the (process_command (Add_Child 1 2 (-1)) demo3a)"

definition demo5 :: rs_context where
  "demo5 = demo4\<lparr>nodes := upd 3 (\<lambda>n. n\<lparr>animTransition := True, positionZ := 0\<rparr>) (nodes demo4)\<rparr>"

lemma demo3_reachable: "ctx_reachable demo3"
proof -
  have n: "ctx_reachable new_context" by (simp add: ctx_reachable_def)
  have "ctx_reachable (create_node ROOT_NODE 1 new_context)"
    by (rule reachable_command[OF n, of "Create_Root 1"]) simp_all
  then have "ctx_reachable (create_node CANVAS_NODE 2 (create_node ROOT_NODE 1 new_context))"
    by (rule reachable_command[of _ "Create_Canvas 2"]) simp_all
  then show ?thesis unfolding demo3_def by (rule reachable_command[of _ "Create_Canvas 3"]) simp_all
qed

lemma demo3a_nodes:
  "GetRenderNode BASE_NODE 1 demo3a = Some 2" "GetRenderNode BASE_NODE 2 demo3a = Some 3"
  "parent (node (nodes demo3a) 2) = Some 0" "parent (node (nodes demo3a) 0) = None"
  by code_simp+

lemma demo5_reachable: "ctx_reachable demo5"
proof -
  obtain c where "process_command (Attach_RSSurfaceNode 1 0) demo3 = Some c"
    using process_command_ok[OF ctx_reachable_ok[OF demo3_reachable], of "Attach_RSSurfaceNode 1 0"] by auto
  then have c: "process_command (Attach_RSSurfaceNode 1 0) demo3 = Some demo3a" by (simp add: demo3a_def)
  have rc: "ctx_reachable demo3a" by (rule reachable_command[OF demo3_reachable _ c]) simp
  have nc: "no_cycle (Add_Child 1 2 (-1)) demo3a" using under_top_not_below[OF demo3a_nodes(3,4), of 3] demo3a_nodes by simp
  then obtain d where d: "process_command (Add_Child 1 2 (-1)) demo3a = Some d"
    using process_command_ok[OF ctx_reachable_ok[OF rc]] by blast
  have "demo4 = d" using d by (simp add: demo4_def)
  then have r: "ctx_reachable demo4" using reachable_command[OF rc nc d] by simp
  have "alive (nodes demo4) 3" by code_simp
  from ctx_step.animate[OF this, of 0 True] r show ?thesis
    unfolding demo5_def ctx_reachable_def by (meson rtranclp.rtrancl_into_rtrancl)
qed

theorem moved_in_transition_stays_on_tree_witness:
  "\<exists>ctx'. process_transaction [Remove_Child 1 2, Add_Child 3 2 0] demo5 = Some ctx' \<and>
    isOnTheTree (node (nodes ctx') 3) \<and> \<not> isOnTheTree (node (nodes ctx') 4)"
proof -
  have "GetRenderNode BASE_NODE 1 demo5 = Some 2" "GetRenderNode BASE_NODE 3 demo5 = Some 4" "GetRenderNode BASE_NODE 2 demo5 = Some 3"
    "3 \<in> set (children (node (nodes demo5) 2))" "own_transition (node (nodes demo5) 3)" "isOnTheTree (node (nodes demo5) 3)"
    "\<not> isOnTheTree (node (nodes demo5) 4)"
    by (code_simp, code_simp, code_simp, code_simp, code_simp, code_simp, code_simp)
  from moved_in_transition_stays_on_tree[OF demo5_reachable this, of 0] show ?thesis by blast
qed

section \<open>Typed look-ups\<close>

text \<open>The base class of each node class, from the class declarations of the node headers.\<close>

fun base_class :: "rtype \<Rightarrow> rtype option" where
  "base_class BASE_NODE = None"
| "base_class DISPLAY_NODE = Some BASE_NODE"
| "base_class RS_NODE = Some BASE_NODE"
| "base_class SURFACE_NODE = Some RS_NODE"
| "base_class CANVAS_NODE = Some RS_NODE"
| "base_class ROOT_NODE = Some CANVAS_NODE"

inductive derives :: "rtype \<Rightarrow> rtype \<Rightarrow> bool" where
  itself: "derives t t"
| base: "base_class t = Some b \<Longrightarrow> derives b c \<Longrightarrow> derives t c"

inductive_simps derives_simps: "derives t c"

lemma derives_iff: "derives t c \<longleftrightarrow> IsInstanceOf c t"
  by (cases t; cases c; (simp add: IsInstanceOf_def, (subst derives_simps, simp)+)[1])

text \<open>
  C32. The type bits follow the classes: a node counts as an instance of a class exactly when its class is
  that class or derives from it. So the typed look-up gives a pointer of a class only to nodes of it, and
  gives every such node the map holds.
\<close>

theorem typed_lookup_is_subclass:
  "GetRenderNode c i ctx = Some a \<longleftrightarrow>
    map_of (nodeMap ctx) i = Some a \<and> derives (ntype (node (nodes ctx) a)) c"
  unfolding derives_iff by (auto simp: GetRenderNode_def split: option.split)

text \<open>
  The fallback for animations is cast without this check: after a client destroyed node 0 and made a
  display node of that number, which is no render node, the cast gives it out as one.
\<close>

lemma fallback_node_is_no_render_node:
  "\<exists>ctx a. process_transaction [Destroy 0, Create_Display 0] new_context = Some ctx \<and>
    GetAnimationFallbackNode ctx = Some a \<and> \<not> derives (ntype (node (nodes ctx) a)) RS_NODE"
proof -
  have "\<not> IsInstanceOf RS_NODE DISPLAY_NODE" by code_simp
  moreover have "map_option (\<lambda>ctx. map_option (\<lambda>a. ntype (node (nodes ctx) a)) (GetAnimationFallbackNode ctx))
      (process_transaction [Destroy 0, Create_Display 0] new_context) = Some (Some DISPLAY_NODE)" by code_simp
  ultimately show ?thesis by (auto simp: derives_iff)
qed

end
