(* ===== verification/Window_Region.thy ===== *)
theory Window_Region
  imports Window_Rects
begin

text \<open>
  What the lists of rectangles mean: a set of points. Subtraction is difference of point sets on lists
  without overlap, and keeps them free of overlap; no coordinate leaves the box of the operands.
\<close>

section \<open>Points\<close>

definition pts :: "wrect \<Rightarrow> (int \<times> int) set" where
  "pts r = {wr_x r..<wr_x r + wr_w r} \<times> {wr_y r..<wr_y r + wr_h r}"

definition region :: "rects \<Rightarrow> (int \<times> int) set" where
  "region rs = (\<Union>r \<in> set rs. pts r)"

fun apart :: "rects \<Rightarrow> bool" where
  "apart [] \<longleftrightarrow> True"
| "apart (r # rs) \<longleftrightarrow> (\<forall>s \<in> set rs. \<not> meets r s) \<and> apart rs"

lemma region_simps [simp]: "region [] = {}" "region (r # rs) = pts r \<union> region rs" "region (rs @ ss) = region rs \<union> region ss"
  by (auto simp: region_def)

lemma pts_Intersect: "pts (Intersect a b) = pts a \<inter> pts b"
  by (auto simp: pts_def Intersect_def Let_def)

lemma meets_pts: "meets a b \<longleftrightarrow> pts a \<inter> pts b \<noteq> {}"
  by (subst pts_Intersect[symmetric]) (auto simp: meets_def pts_def)

lemma meets_commute: "meets a b \<longleftrightarrow> meets b a"
  by (auto simp: meets_pts)

lemma apart_append: "apart (rs @ ss) \<longleftrightarrow> apart rs \<and> apart ss \<and> (\<forall>r \<in> set rs. \<forall>s \<in> set ss. \<not> meets r s)"
  by (induction rs) auto

lemma inside_pts: "inside i r \<Longrightarrow> pts i \<subseteq> pts r"
  by (auto simp: inside_def pts_def)

section \<open>One subtraction\<close>

text \<open>The pieces lie in the outer rectangle, cover all but the inner one, and are apart.\<close>

lemma Subtrace_append: "Subtrace r i rs = rs @ Subtrace r i []"
  by (simp add: Subtrace_def Let_def)

lemma region_pieces:
  assumes "inside i r"
  shows "region (Subtrace r i []) = pts r - pts i"
proof -
  have b: "wr_x r \<le> wr_x i" "wr_y r \<le> wr_y i" "wr_x i + wr_w i \<le> wr_x r + wr_w r" "wr_y i + wr_h i \<le> wr_y r + wr_h r" "0 < wr_w i" "0 < wr_h i"
    using assms by (auto simp: inside_def)
  show ?thesis
  proof (rule set_eqI)
    fix p :: "int \<times> int"
    obtain x y where p: "p = (x, y)" by fastforce
    show "p \<in> region (Subtrace r i []) \<longleftrightarrow> p \<in> pts r - pts i"
      using b unfolding p by (simp add: Subtrace_def Let_def pts_def) linarith
  qed
qed

lemma apart_pieces:
  assumes "inside i r"
  shows "apart (Subtrace r i [])"
  using assms by (auto simp: Subtrace_def Let_def meets_def Intersect_def inside_def)

lemma piece_inside:
  assumes "inside i r" and "p \<in> set (Subtrace r i [])"
  shows "inside p r"
proof -
  let ?t = "wr_y i - wr_y r" and ?b = "wr_y r + wr_h r - wr_y i - wr_h i" and ?l = "wr_x i - wr_x r" and ?e = "wr_x r + wr_w r - wr_x i - wr_w i"
  consider "0 < ?t" "p = \<lparr>wr_x = wr_x r, wr_y = wr_y r, wr_w = wr_w r, wr_h = ?t\<rparr>"
    | "0 < ?b" "p = \<lparr>wr_x = wr_x r, wr_y = wr_y r + wr_h r - ?b, wr_w = wr_w r, wr_h = ?b\<rparr>"
    | "0 < ?l" "p = \<lparr>wr_x = wr_x r, wr_y = wr_y i, wr_w = ?l, wr_h = wr_h i\<rparr>"
    | "0 < ?e" "p = \<lparr>wr_x = wr_x i + wr_w i, wr_y = wr_y i, wr_w = ?e, wr_h = wr_h i\<rparr>"
    using assms(2) by (auto simp: Subtrace_def Let_def split: if_splits)
  then show ?thesis using assms(1) by cases (simp_all add: inside_def)
qed

lemma not_meets_sub:
  assumes "pts a \<subseteq> pts b" and "\<not> meets b c"
  shows "\<not> meets a c"
  using assms by (auto simp: meets_pts)

lemma apart_Subtrace:
  assumes i: "inside i l" and ap: "apart (ls1 @ l # ls2)"
  shows "apart (Subtrace l i (ls1 @ ls2))"
proof -
  have pc: "pts p \<subseteq> pts l" if "p \<in> set (Subtrace l i [])" for p
    using inside_pts[OF piece_inside[OF i that]] .
  have nm: "\<not> meets s p" if "p \<in> set (Subtrace l i [])" and "s \<in> set (ls1 @ ls2)" for p s
  proof -
    have "\<not> meets l s" using ap that(2) by (auto simp: apart_append meets_commute)
    from not_meets_sub[OF pc[OF that(1)] this] show ?thesis by (simp add: meets_commute)
  qed
  show ?thesis
    unfolding Subtrace_append[of l i "ls1 @ ls2"] apart_append[of "ls1 @ ls2"]
    using ap apart_pieces[OF i] nm by (auto simp: apart_append)
qed

section \<open>Subtracting lists\<close>

lemma RectsSubtrace_cases [case_names Nil Pass Cut]:
  assumes "\<And>ls. P ls []"
    and "\<And>ls r rs. \<forall>l \<in> set ls. \<not> meets r l \<Longrightarrow> RectsSubtrace ls (r # rs) = RectsSubtrace ls rs \<Longrightarrow> P ls rs \<Longrightarrow> P ls (r # rs)"
    and "\<And>ls1 l ls2 r rs i. i = Intersect r l \<Longrightarrow> inside i r \<Longrightarrow> inside i l \<Longrightarrow>
      RectsSubtrace (ls1 @ l # ls2) (r # rs) = RectsSubtrace (Subtrace l i (ls1 @ ls2)) (Subtrace r i rs) \<Longrightarrow>
      P (Subtrace l i (ls1 @ ls2)) (Subtrace r i rs) \<Longrightarrow> P (ls1 @ l # ls2) (r # rs)"
  shows "P ls rs"
proof (induction ls rs rule: RectsSubtrace.induct)
  case (2 ls r rs)
  show ?case
  proof (cases "find_meeting r ls")
    case None
    then show ?thesis using assms(2)[of ls r rs] find_meeting_None[OF None] 2(1) by simp
  next
    case (Some p)
    obtain ls1 l ls2 where p: "p = (ls1, l, ls2)" by (cases p) auto
    note f = find_meeting_Some[OF Some[unfolded p]]
    have "P (Subtrace l (Intersect r l) (ls1 @ ls2)) (Subtrace r (Intersect r l) rs)"
      using 2(2)[OF Some, of ls1 "(l, ls2)" l ls2] p by simp
    moreover have "RectsSubtrace ls (r # rs) = RectsSubtrace (Subtrace l (Intersect r l) (ls1 @ ls2)) (Subtrace r (Intersect r l) rs)"
      using Some p by (simp add: Let_def)
    ultimately show ?thesis using assms(3)[OF refl, of r l ls1 ls2 rs] meets_inside[of r l] f by simp
  qed
qed (rule assms(1))

text \<open>What holds of a rectangle and of every rectangle inside it holds of what is left.\<close>

lemma RectsSubtrace_inherits:
  assumes "\<And>p r. inside p r \<Longrightarrow> Q r \<Longrightarrow> Q p" and "\<forall>l \<in> set ls. Q l"
  shows "\<forall>l \<in> set (RectsSubtrace ls rs). Q l"
  using assms(2)
proof (induction ls rs rule: RectsSubtrace_cases)
  case (Cut ls1 l ls2 r rs i)
  have "\<forall>l \<in> set (Subtrace l i (ls1 @ ls2)). Q l"
    unfolding Subtrace_append[of l i "ls1 @ ls2"] using Cut(6) assms(1)[OF piece_inside[OF Cut(3)]] by auto
  then show ?case using Cut(4,5) by simp
qed simp_all

theorem region_RectsSubtrace:
  assumes "apart ls"
  shows "region (RectsSubtrace ls rs) = region ls - region rs \<and> apart (RectsSubtrace ls rs)"
  using assms
proof (induction ls rs rule: RectsSubtrace_cases)
  case (Pass ls r rs)
  have "pts r \<inter> region ls = {}" using Pass(1) by (auto simp: region_def meets_pts)
  then show ?case using Pass(2-4) by auto
next
  case (Cut ls1 l ls2 r rs i)
  have ap: "apart (Subtrace l i (ls1 @ ls2))" using apart_Subtrace[OF Cut(3)] Cut(6) by blast
  have sep: "pts l \<inter> region (ls1 @ ls2) = {}"
    using Cut(6) by (auto simp: region_def apart_append meets_pts)
  have "region (Subtrace l i (ls1 @ ls2)) = region (ls1 @ ls2) \<union> (pts l - pts r)"
    unfolding Subtrace_append[of l i "ls1 @ ls2"] using region_pieces[OF Cut(3)] Cut(1) by (auto simp: pts_Intersect)
  moreover have "region (Subtrace r i rs) = region rs \<union> (pts r - pts l)"
    unfolding Subtrace_append[of r i rs] using region_pieces[OF Cut(2)] Cut(1) by (auto simp: pts_Intersect)
  ultimately show ?case using Cut(4,5) ap sep by auto
qed simp

text \<open>The rectangles left over are not empty when those of the left operand were not.\<close>

definition solid :: "rects \<Rightarrow> bool" where
  "solid rs \<longleftrightarrow> (\<forall>r \<in> set rs. 0 < wr_w r \<and> 0 < wr_h r)"

lemma solid_RectsSubtrace: "solid ls \<Longrightarrow> solid (RectsSubtrace ls rs)"
  unfolding solid_def by (rule RectsSubtrace_inherits) (auto simp: inside_def)

lemma solid_empty: "solid rs \<Longrightarrow> region rs = {} \<Longrightarrow> rs = []"
  by (cases rs) (auto simp: solid_def pts_def)

section \<open>Staying in the box of the operands\<close>

definition in_box :: "int \<Rightarrow> int \<Rightarrow> rects \<Rightarrow> bool" where
  "in_box lo hi rs \<longleftrightarrow> (\<forall>r \<in> set rs. lo \<le> wr_x r \<and> lo \<le> wr_y r \<and> wr_x r + wr_w r \<le> hi \<and> wr_y r + wr_h r \<le> hi)"

lemma in_box_RectsSubtrace: "in_box lo hi ls \<Longrightarrow> in_box lo hi (RectsSubtrace ls rs)"
  unfolding in_box_def by (rule RectsSubtrace_inherits) (auto simp: inside_def)

section \<open>The difference operator\<close>

definition right :: "wrect \<Rightarrow> int" where "right r = wr_x r + wr_w r"
definition bottom :: "wrect \<Rightarrow> int" where "bottom r = wr_y r + wr_h r"

lemma bounds_fold:
  "wr_x (foldl bound_step t ls) = foldl min (wr_x t) (map wr_x ls)"
  "wr_y (foldl bound_step t ls) = foldl min (wr_y t) (map wr_y ls)"
  "wr_w (foldl bound_step t ls) = foldl max (wr_w t) (map right ls)"
  "wr_h (foldl bound_step t ls) = foldl max (wr_h t) (map bottom ls)"
  by (induction ls arbitrary: t) (simp_all add: bound_step_def right_def bottom_def)

lemma foldl_min: "foldl min (m::int) xs = Min (insert m (set xs))"
proof (induction xs arbitrary: m)
  case (Cons x xs)
  have "Min (insert (min m x) (set xs)) = Min (insert m (insert x (set xs)))"
    by (cases "xs = []") (simp_all add: Min_insert min.assoc)
  then show ?case using Cons[of "min m x"] by simp
qed simp

lemma foldl_max: "foldl max (m::int) xs = Max (insert m (set xs))"
proof (induction xs arbitrary: m)
  case (Cons x xs)
  have "Max (insert (max m x) (set xs)) = Max (insert m (insert x (set xs)))"
    by (cases "xs = []") (simp_all add: Max_insert max.assoc)
  then show ?case using Cons[of "max m x"] by simp
qed simp

lemma bounding_eq:
  "wr_x (bounding ls) = Min (insert 0 (wr_x ` set ls))" "wr_y (bounding ls) = Min (insert 0 (wr_y ` set ls))"
  "right (bounding ls) = Max (insert 0 (right ` set ls))" "bottom (bounding ls) = Max (insert 0 (bottom ` set ls))"
  by (simp_all add: bounding_def Let_def bounds_fold right_def bottom_def foldl_min foldl_max)

lemma pts_right: "pts r = {wr_x r..<right r} \<times> {wr_y r..<bottom r}"
  by (simp add: pts_def right_def bottom_def)

lemma bounding_covers: "region ls \<subseteq> pts (bounding ls)"
proof (clarsimp simp: region_def pts_right)
  fix x y r assume "r \<in> set ls" "wr_x r \<le> x" "x < right r" "wr_y r \<le> y" "y < bottom r"
  moreover from this(1) have "Min (insert 0 (wr_x ` set ls)) \<le> wr_x r" "Min (insert 0 (wr_y ` set ls)) \<le> wr_y r"
      "right r \<le> Max (insert 0 (right ` set ls))" "bottom r \<le> Max (insert 0 (bottom ` set ls))" by simp_all
  ultimately show "wr_x (bounding ls) \<le> x \<and> x < right (bounding ls) \<and> wr_y (bounding ls) \<le> y \<and> y < bottom (bounding ls)"
    unfolding bounding_eq by linarith
qed

lemma rects_minus_ok:
  assumes "apart a"
  shows "region (rects_minus a b) = region a - region b" and "apart (rects_minus a b)"
proof -
  let ?ls = "RectsSubtrace a b"
  note ls = region_RectsSubtrace[OF assms, of b]
  have "region (rects_minus a b) = region ?ls \<and> apart (rects_minus a b)"
  proof (cases "RectsSubtrace [bounding ?ls] ?ls = []")
    case True
    have "region (RectsSubtrace [bounding ?ls] ?ls) = pts (bounding ?ls) - region ?ls"
      using region_RectsSubtrace[of "[bounding ?ls]" ?ls] by simp
    then have "pts (bounding ?ls) \<subseteq> region ?ls" using True by auto
    then show ?thesis using True bounding_covers[of ?ls] by (simp add: rects_minus_def Let_def subset_antisym)
  next
    case False
    then show ?thesis using ls by (simp add: rects_minus_def Let_def)
  qed
  then show "region (rects_minus a b) = region a - region b" and "apart (rects_minus a b)" using ls by simp_all
qed

lemma solid_rects_minus:
  assumes "solid a"
  shows "solid (rects_minus a b)"
proof (cases "RectsSubtrace [bounding (RectsSubtrace a b)] (RectsSubtrace a b) = []")
  case True
  have "solid [bounding (RectsSubtrace a b)]"
  proof (rule ccontr)
    let ?t = "bounding (RectsSubtrace a b)"
    assume "\<not> solid [?t]"
    then have "\<not> meets r ?t" for r by (auto simp: solid_def meets_def Intersect_def Let_def)
    then have "RectsSubtrace [?t] rs = [?t]" for rs
      by (induction rs) (simp_all add: find_meeting_def)
    then show False using True by simp
  qed
  then show ?thesis using True by (simp add: rects_minus_def Let_def)
next
  case False
  then show ?thesis using solid_RectsSubtrace[OF assms] by (simp add: rects_minus_def Let_def)
qed

end
