(* ===== verification/Window_Layout.thy ===== *)
theory Window_Layout
  imports Window_Region Complex_Main
begin

text \<open>
  The layout controller of the window server (\<open>frameworks/wmserver/src/layout_controller.cpp\<close>): the
  default position of a window of some type and mode, beside the static bars.

  Doubles are rationals here; the code adds \<open>1e-6\<close> before every \<open>floor\<close> to absorb their rounding, and
  so does the model. A mode is an index of the array of maps; the caller
  (\<open>wmserver.c\<close>) refuses modes from \<open>WINDOW_MODE_MAX\<close> on, and the model gives them the empty map.
\<close>

section \<open>Data\<close>

datatype position_type = RELATIVE | STATIC | FIXED
datatype x_position = X_UNSET | LFT | MID | RGH
datatype y_position = Y_UNSET | TOP | Y_MID | BTM

record lrect =
  lx :: rat
  ly :: rat
  lw :: rat
  lh :: rat

record wlayout =
  zIndex :: int
  positionType :: position_type
  pTypeX :: x_position
  pTypeY :: y_position
  wrel :: lrect

definition WINDOW_MODE_UNSET :: nat where "WINDOW_MODE_UNSET = 0"
definition WINDOW_MODE_FREE :: nat where "WINDOW_MODE_FREE = 2"

definition WINDOW_TYPE_NORMAL :: nat where "WINDOW_TYPE_NORMAL = 0"
definition WINDOW_TYPE_STATUS_BAR :: nat where "WINDOW_TYPE_STATUS_BAR = 1"
definition WINDOW_TYPE_NAVI_BAR :: nat where "WINDOW_TYPE_NAVI_BAR = 2"
definition WINDOW_TYPE_ALARM_SCREEN :: nat where "WINDOW_TYPE_ALARM_SCREEN = 3"
definition WINDOW_TYPE_SYSTEM_UI :: nat where "WINDOW_TYPE_SYSTEM_UI = 4"
definition WINDOW_TYPE_LAUNCHER :: nat where "WINDOW_TYPE_LAUNCHER = 5"
definition WINDOW_TYPE_VIDEO :: nat where "WINDOW_TYPE_VIDEO = 6"
definition WINDOW_TYPE_INPUT_METHOD :: nat where "WINDOW_TYPE_INPUT_METHOD = 7"
definition WINDOW_TYPE_INPUT_METHOD_SELECTOR :: nat where "WINDOW_TYPE_INPUT_METHOD_SELECTOR = 8"
definition WINDOW_TYPE_VOLUME_OVERLAY :: nat where "WINDOW_TYPE_VOLUME_OVERLAY = 9"
definition WINDOW_TYPE_NOTIFICATION_SHADE :: nat where "WINDOW_TYPE_NOTIFICATION_SHADE = 10"
definition WINDOW_TYPE_FLOAT :: nat where "WINDOW_TYPE_FLOAT = 11"

lemmas window_types = WINDOW_TYPE_NORMAL_def WINDOW_TYPE_STATUS_BAR_def WINDOW_TYPE_NAVI_BAR_def
  WINDOW_TYPE_ALARM_SCREEN_def WINDOW_TYPE_SYSTEM_UI_def WINDOW_TYPE_LAUNCHER_def WINDOW_TYPE_VIDEO_def
  WINDOW_TYPE_INPUT_METHOD_def WINDOW_TYPE_INPUT_METHOD_SELECTOR_def WINDOW_TYPE_VOLUME_OVERLAY_def
  WINDOW_TYPE_NOTIFICATION_SHADE_def WINDOW_TYPE_FLOAT_def WINDOW_MODE_UNSET_def WINDOW_MODE_FREE_def

record layout_controller =
  initialised :: bool
  displayWidth :: int
  displayHeight :: int
  modeLayoutMap :: "nat \<Rightarrow> (nat, wlayout) omap"

definition new_LayoutController :: layout_controller where
  "new_LayoutController = \<lparr>initialised = False, displayWidth = 0, displayHeight = 0, modeLayoutMap = (\<lambda>_. [])\<rparr>"

section \<open>The default table\<close>

definition put_layout :: "nat \<Rightarrow> nat \<Rightarrow> wlayout \<Rightarrow> layout_controller \<Rightarrow> layout_controller" where
  "put_layout mode ty l c = c\<lparr>modeLayoutMap := (modeLayoutMap c)(mode := om_put ty l (modeLayoutMap c mode))\<rparr>"

definition DEF_LYT :: "position_type \<Rightarrow> x_position \<Rightarrow> y_position \<Rightarrow> rat \<Rightarrow> rat \<Rightarrow> rat \<Rightarrow> rat \<Rightarrow> nat \<Rightarrow> layout_controller \<Rightarrow> layout_controller" where
  "DEF_LYT lt ptx pty x y w h wt =
     put_layout WINDOW_MODE_UNSET wt
       \<lparr>zIndex = int wt, positionType = lt, pTypeX = ptx, pTypeY = pty, wrel = \<lparr>lx = x, ly = y, lw = w, lh = h\<rparr>\<rparr>"

definition DEF_POS_LYT :: "position_type \<Rightarrow> x_position \<Rightarrow> y_position \<Rightarrow> rat \<Rightarrow> rat \<Rightarrow> nat \<Rightarrow> layout_controller \<Rightarrow> layout_controller" where
  "DEF_POS_LYT lt ptx pty w h wt = DEF_LYT lt ptx pty 0 0 w h wt"

definition DEF_RCT_LYT :: "position_type \<Rightarrow> rat \<Rightarrow> rat \<Rightarrow> rat \<Rightarrow> rat \<Rightarrow> nat \<Rightarrow> layout_controller \<Rightarrow> layout_controller" where
  "DEF_RCT_LYT lt x y w h wt = DEF_LYT lt X_UNSET Y_UNSET x y w h wt"

definition InitByDefaultValue :: "layout_controller \<Rightarrow> layout_controller" where
  "InitByDefaultValue c =
     (let c = DEF_POS_LYT RELATIVE MID Y_MID 100 100 WINDOW_TYPE_NORMAL c;
          c = put_layout WINDOW_MODE_FREE WINDOW_TYPE_NORMAL
                \<lparr>zIndex = 51, positionType = FIXED, pTypeX = MID, pTypeY = Y_MID, wrel = \<lparr>lx = 0, ly = 0, lw = 100, lh = 100\<rparr>\<rparr> c;
          c = DEF_POS_LYT STATIC MID TOP 100 7 WINDOW_TYPE_STATUS_BAR c;
          c = DEF_POS_LYT STATIC MID BTM 100 7 WINDOW_TYPE_NAVI_BAR c;
          c = DEF_POS_LYT FIXED MID Y_MID 80 30 WINDOW_TYPE_ALARM_SCREEN c;
          c = DEF_POS_LYT FIXED MID Y_MID 100 100 WINDOW_TYPE_SYSTEM_UI c;
          c = DEF_POS_LYT RELATIVE MID Y_MID 100 100 WINDOW_TYPE_LAUNCHER c;
          c = DEF_POS_LYT FIXED MID Y_MID 100 100 WINDOW_TYPE_VIDEO c;
          c = DEF_POS_LYT RELATIVE MID BTM 100 (333 / 10) WINDOW_TYPE_INPUT_METHOD c;
          c = DEF_POS_LYT RELATIVE MID BTM 90 (333 / 10) WINDOW_TYPE_INPUT_METHOD_SELECTOR c;
          c = DEF_RCT_LYT FIXED (25 / 10) (25 / 10) 95 40 WINDOW_TYPE_VOLUME_OVERLAY c;
          c = DEF_POS_LYT FIXED MID TOP 100 50 WINDOW_TYPE_NOTIFICATION_SHADE c
      in DEF_RCT_LYT RELATIVE (75 / 10) (75 / 10) 85 50 WINDOW_TYPE_FLOAT c)"

text \<open>\<open>InitByParseSCSS\<close> returns at once.\<close>

definition LayoutController_Init :: "int \<Rightarrow> int \<Rightarrow> layout_controller \<Rightarrow> layout_controller" where
  "LayoutController_Init width height c =
     (let c = c\<lparr>displayWidth := width, displayHeight := height\<rparr>
      in if \<not> initialised c then (InitByDefaultValue c)\<lparr>initialised := True\<rparr> else c)"

section \<open>The layout of a window\<close>

definition eps :: rat where "eps = 1 / 1000000"

definition floor_eps :: "rat \<Rightarrow> rat" where
  "floor_eps r = of_int \<lfloor>r + eps\<rfloor>"

text \<open>A conversion from double to \<open>int32_t\<close> truncates.\<close>

definition to_int32 :: "rat \<Rightarrow> int" where
  "to_int32 r = (if 0 \<le> r then \<lfloor>r\<rfloor> else \<lceil>r\<rceil>)"

definition place_x :: "lrect \<Rightarrow> wlayout \<Rightarrow> rat \<Rightarrow> rat \<Rightarrow> rat" where
  "place_x rect l x w =
     (case pTypeX l of
        LFT \<Rightarrow> floor_eps (lx rect)
      | MID \<Rightarrow> floor_eps (lx rect + (lw rect - w) / 2)
      | RGH \<Rightarrow> floor_eps (lx rect + lw rect - w)
      | X_UNSET \<Rightarrow> x + floor_eps (lx rect))"

definition place_y :: "lrect \<Rightarrow> wlayout \<Rightarrow> rat \<Rightarrow> rat \<Rightarrow> rat" where
  "place_y rect l y h =
     (case pTypeY l of
        TOP \<Rightarrow> floor_eps (ly rect)
      | Y_MID \<Rightarrow> floor_eps (ly rect + (lh rect - h) / 2)
      | BTM \<Rightarrow> floor_eps (ly rect + lh rect - h)
      | Y_UNSET \<Rightarrow> y + floor_eps (ly rect))"

definition place :: "lrect \<Rightarrow> wlayout \<Rightarrow> wlayout" where
  "place rect l =
     (let x = floor_eps (lw rect * lx (wrel l) / 100);
          y = floor_eps (lh rect * ly (wrel l) / 100);
          w = floor_eps (lw rect * lw (wrel l) / 100);
          h = floor_eps (lh rect * lh (wrel l) / 100)
      in l\<lparr>wrel := \<lparr>lx = place_x rect l x w, ly = place_y rect l y h, lw = w, lh = h\<rparr>\<rparr>)"

definition find_layout :: "nat \<Rightarrow> nat \<Rightarrow> layout_controller \<Rightarrow> wlayout option" where
  "find_layout ty mode c =
     (case map_of (modeLayoutMap c mode) ty of
        None \<Rightarrow> if mode = WINDOW_MODE_UNSET then None else map_of (modeLayoutMap c WINDOW_MODE_UNSET) ty
      | Some l \<Rightarrow> Some l)"

definition display :: "layout_controller \<Rightarrow> lrect" where
  "display c = \<lparr>lx = 0, ly = 0, lw = of_int (displayWidth c), lh = of_int (displayHeight c)\<rparr>"

text \<open>The end of \<open>CalcNormalRect\<close>: the rectangle that is left, if it is one.\<close>

definition normal_rect :: "rects \<Rightarrow> lrect \<Rightarrow> lrect" where
  "normal_rect totalRects rect =
     (if GetSize totalRects = 1
      then \<lparr>lx = of_int (GetX totalRects 0), ly = of_int (GetY totalRects 0), lw = of_int (GetW totalRects 0), lh = of_int (GetH totalRects 0)\<rparr>
      else rect)"

definition layout_rects :: "wlayout \<Rightarrow> rects" where
  "layout_rects l =
     new_Rects (to_int32 (lx (wrel l) + eps)) (to_int32 (ly (wrel l) + eps)) (to_int32 (lw (wrel l) + eps)) (to_int32 (lh (wrel l) + eps))"

definition empty_layout :: wlayout where
  "empty_layout = \<lparr>zIndex = 0, positionType = RELATIVE, pTypeX = X_UNSET, pTypeY = Y_UNSET, wrel = \<lparr>lx = 0, ly = 0, lw = 0, lh = 0\<rparr>\<rparr>"

text \<open>
  \<open>CalcWindowDefaultLayout\<close> with \<open>CalcNormalRect\<close> in its place. They call each other, so whether the call
  returns is a question: \<open>None\<close> is a call that does not. The result is the return value and the layout
  written (\<open>out\<close> when none is).
\<close>

partial_function (option) CalcWindowDefaultLayout :: "layout_controller \<Rightarrow> nat \<Rightarrow> nat \<Rightarrow> wlayout \<Rightarrow> (int \<times> wlayout) option" where
  "CalcWindowDefaultLayout c ty mode out =
     (case find_layout ty mode c of
        None \<Rightarrow> Some (1, out)
      | Some l \<Rightarrow>
          if positionType l = RELATIVE then
            Option.bind
              (ofold (\<lambda>e totalRects.
                   if positionType (snd e) = STATIC then
                     Option.bind (CalcWindowDefaultLayout c (fst e) WINDOW_MODE_UNSET empty_layout) (\<lambda>now.
                       Some (rects_minus totalRects (layout_rects (snd now))))
                   else Some totalRects)
                 (modeLayoutMap c WINDOW_MODE_UNSET) (new_Rects 0 0 (displayWidth c) (displayHeight c)))
              (\<lambda>totalRects. Some (0, place (normal_rect totalRects (display c)) l))
          else Some (0, place (display c) l))"

declare CalcWindowDefaultLayout.simps [code]

section \<open>The call returns\<close>

text \<open>What the loop over the static types does, once the inner calls are known to return.\<close>

definition CalcNormalRect :: "layout_controller \<Rightarrow> rects" where
  "CalcNormalRect c =
     foldl (\<lambda>rs e. if positionType (snd e) = STATIC then rects_minus rs (layout_rects (place (display c) (snd e))) else rs)
       (new_Rects 0 0 (displayWidth c) (displayHeight c)) (modeLayoutMap c WINDOW_MODE_UNSET)"

lemma ofold_total:
  assumes "\<And>e s. e \<in> set es \<Longrightarrow> f e s = Some (g e s)"
  shows "ofold f es s = Some (foldl (\<lambda>s e. g e s) s es)"
  using assms by (induction es arbitrary: s) simp_all

lemma CalcWindowDefaultLayout_eq:
  assumes "distinct (map fst (modeLayoutMap c WINDOW_MODE_UNSET))"
  shows "CalcWindowDefaultLayout c ty mode out =
    Some (case find_layout ty mode c of
            None \<Rightarrow> (1, out)
          | Some l \<Rightarrow> (0, place (if positionType l = RELATIVE then normal_rect (CalcNormalRect c) (display c) else display c) l))"
proof (cases "find_layout ty mode c")
  case None
  then show ?thesis by (simp add: CalcWindowDefaultLayout.simps)
next
  case (Some l)
  let ?f = "\<lambda>e rs. if positionType (snd e) = STATIC then
      Option.bind (CalcWindowDefaultLayout c (fst e) WINDOW_MODE_UNSET empty_layout) (\<lambda>now. Some (rects_minus rs (layout_rects (snd now))))
      else Some rs"
  have "?f e rs = Some (if positionType (snd e) = STATIC then rects_minus rs (layout_rects (place (display c) (snd e))) else rs)"
    if "e \<in> set (modeLayoutMap c WINDOW_MODE_UNSET)" for e rs
  proof -
    have "find_layout (fst e) WINDOW_MODE_UNSET c = Some (snd e)"
      using map_of_is_SomeI[OF assms, of "fst e" "snd e"] that by (simp add: find_layout_def)
    then show ?thesis by (simp add: CalcWindowDefaultLayout.simps[of c "fst e"])
  qed
  from ofold_total[of "modeLayoutMap c WINDOW_MODE_UNSET" ?f, OF this]
  show ?thesis using Some by (simp add: CalcWindowDefaultLayout.simps[of c ty] CalcNormalRect_def)
qed

end
