(* ===== verification/Window_Props.thy ===== *)
theory Window_Props
  imports Window_Layout
begin

text \<open>The properties of the rectangle algebra and of the layout controller of the window server.\<close>

section \<open>Differences\<close>

text \<open>
  C13. On lists of rectangles without overlap the difference operator is the difference of point sets;
  it keeps the list free of overlap and of empty rectangles, and no coordinate leaves a box that holds
  the left operand and the origin, so nothing overflows for rectangles of a screen.
\<close>

theorem rects_difference:
  assumes "apart a" and "solid a" and "in_box lo hi a" and "lo \<le> 0" and "0 \<le> hi"
  shows "region (rects_minus a b) = region a - region b \<and> apart (rects_minus a b) \<and> solid (rects_minus a b) \<and>
    in_box lo hi (rects_minus a b)"
proof (intro conjI)
  show "region (rects_minus a b) = region a - region b" and "apart (rects_minus a b)" and "solid (rects_minus a b)"
    using rects_minus_ok[OF assms(1)] solid_rects_minus[OF assms(2)] by blast+
  let ?ls = "RectsSubtrace a b"
  have ls: "in_box lo hi ?ls" by (rule in_box_RectsSubtrace[OF assms(3)])
  have "lo \<le> wr_x (bounding ?ls)" "lo \<le> wr_y (bounding ?ls)" "right (bounding ?ls) \<le> hi" "bottom (bounding ?ls) \<le> hi"
    using ls assms(4,5) unfolding bounding_eq by (auto simp: in_box_def right_def bottom_def)
  then have "in_box lo hi [bounding ?ls]" by (simp add: in_box_def right_def bottom_def)
  then show "in_box lo hi (rects_minus a b)" using ls by (simp add: rects_minus_def Let_def)
qed

theorem rects_difference_witness:
  "region (rects_minus (new_Rects 0 0 4 4) (new_Rects 1 1 2 2)) = region (new_Rects 0 0 4 4) - region (new_Rects 1 1 2 2)"
  using rects_difference[of "new_Rects 0 0 4 4" 0 4 "new_Rects 1 1 2 2"] by (simp add: new_Rects_def solid_def in_box_def)

text \<open>
  A difference that fills a rectangle which begins at the origin (or before it) and is not left of or
  above it comes out as that one rectangle, however many pieces it was cut into.
\<close>

theorem difference_at_origin_is_merged:
  assumes "apart a" and "solid a" and "region a - region b = pts t"
    and "0 < wr_w t" and "0 < wr_h t" and "wr_x t \<le> 0" and "wr_y t \<le> 0" and "0 \<le> right t" and "0 \<le> bottom t"
  shows "rects_minus a b = [t]"
proof -
  let ?ls = "RectsSubtrace a b" and ?m = "bounding (RectsSubtrace a b)"
  have reg: "region ?ls = pts t" using region_RectsSubtrace[OF assms(1), of b] assms(3) by simp
  have sol: "solid ?ls" by (rule solid_RectsSubtrace[OF assms(2)])
  have le: "wr_x t \<le> wr_x r \<and> wr_y t \<le> wr_y r \<and> right r \<le> right t \<and> bottom r \<le> bottom t" if "r \<in> set ?ls" for r
  proof -
    have p: "0 < wr_w r" "0 < wr_h r" using sol that by (auto simp: solid_def)
    then have "(wr_x r, wr_y r) \<in> pts r" "(right r - 1, bottom r - 1) \<in> pts r" by (auto simp: pts_def right_def bottom_def)
    moreover have "pts r \<subseteq> pts t" using reg that unfolding region_def by blast
    ultimately have "(wr_x r, wr_y r) \<in> pts t" "(right r - 1, bottom r - 1) \<in> pts t" by blast+
    then show ?thesis by (auto simp: pts_right)
  qed
  have "(wr_x t, wr_y t) \<in> region ?ls" "(right t - 1, bottom t - 1) \<in> region ?ls"
    unfolding reg using assms(4,5) by (auto simp: pts_def right_def bottom_def)
  then obtain r s where r: "r \<in> set ?ls" "wr_x r \<le> wr_x t" "wr_y r \<le> wr_y t" and s: "s \<in> set ?ls" "right t \<le> right s" "bottom t \<le> bottom s"
    unfolding region_def pts_right by auto
  have "wr_x ?m = wr_x t" "wr_y ?m = wr_y t" "right ?m = right t" "bottom ?m = bottom t"
    unfolding bounding_eq using r s le assms(6-9)
    by (auto intro!: Min_eqI Max_eqI simp: image_iff dest: le) (metis le order_antisym)+
  then have m: "?m = t" by (cases ?m; cases t) (simp add: right_def bottom_def)
  have "region (RectsSubtrace [t] ?ls) = {}" using region_RectsSubtrace[of "[t]" ?ls] reg by simp
  moreover have "solid (RectsSubtrace [t] ?ls)" by (rule solid_RectsSubtrace) (simp add: solid_def assms(4,5))
  ultimately have "RectsSubtrace [t] ?ls = []" by (blast intro: solid_empty)
  then show ?thesis by (simp add: rects_minus_def Let_def m)
qed

theorem difference_at_origin_is_merged_witness:
  "rects_minus [\<lparr>wr_x = 0, wr_y = 0, wr_w = 2, wr_h = 2\<rparr>, \<lparr>wr_x = 2, wr_y = 0, wr_w = 2, wr_h = 2\<rparr>, \<lparr>wr_x = 0, wr_y = 2, wr_w = 4, wr_h = 2\<rparr>]
     [\<lparr>wr_x = 0, wr_y = 2, wr_w = 4, wr_h = 2\<rparr>] = [\<lparr>wr_x = 0, wr_y = 0, wr_w = 4, wr_h = 2\<rparr>]"
proof (rule difference_at_origin_is_merged)
  show "region [\<lparr>wr_x = 0, wr_y = 0, wr_w = 2, wr_h = 2\<rparr>, \<lparr>wr_x = 2, wr_y = 0, wr_w = 2, wr_h = 2\<rparr>, \<lparr>wr_x = 0, wr_y = 2, wr_w = 4, wr_h = 2\<rparr>] -
      region [\<lparr>wr_x = 0, wr_y = 2, wr_w = 4, wr_h = 2\<rparr>] = pts \<lparr>wr_x = 0, wr_y = 0, wr_w = 4, wr_h = 2\<rparr>"
    by (auto simp: pts_def)
qed (simp_all add: meets_def Intersect_def Let_def solid_def right_def bottom_def)

text \<open>
  The box is spanned from the origin, not from the pieces: a rectangle away from it stays in pieces.
\<close>

lemma difference_off_origin_stays_in_pieces:
  "GetSize (rects_minus (rects_minus (rects_minus (new_Rects 0 0 4 4) (new_Rects 0 1 2 2)) (new_Rects 0 0 2 1)) (new_Rects 0 3 2 1)) = 3 \<and>
   region (rects_minus (rects_minus (rects_minus (new_Rects 0 0 4 4) (new_Rects 0 1 2 2)) (new_Rects 0 0 2 1)) (new_Rects 0 3 2 1)) =
     pts \<lparr>wr_x = 2, wr_y = 0, wr_w = 2, wr_h = 4\<rparr>"
proof
  have "rects_minus (rects_minus (rects_minus (new_Rects 0 0 4 4) (new_Rects 0 1 2 2)) (new_Rects 0 0 2 1)) (new_Rects 0 3 2 1) =
      [\<lparr>wr_x = 2, wr_y = 1, wr_w = 2, wr_h = 2\<rparr>, \<lparr>wr_x = 2, wr_y = 0, wr_w = 2, wr_h = 1\<rparr>, \<lparr>wr_x = 2, wr_y = 3, wr_w = 2, wr_h = 1\<rparr>]"
    by code_simp
  then show "GetSize (rects_minus (rects_minus (rects_minus (new_Rects 0 0 4 4) (new_Rects 0 1 2 2)) (new_Rects 0 0 2 1)) (new_Rects 0 3 2 1)) = 3"
    and "region (rects_minus (rects_minus (rects_minus (new_Rects 0 0 4 4) (new_Rects 0 1 2 2)) (new_Rects 0 0 2 1)) (new_Rects 0 3 2 1)) =
      pts \<lparr>wr_x = 2, wr_y = 0, wr_w = 2, wr_h = 4\<rparr>"
    by (auto simp: GetSize_def pts_def)
qed

section \<open>The layout controller\<close>

text \<open>The controller after any number of initialisations with display sizes.\<close>

definition controller_after :: "(int \<times> int) list \<Rightarrow> layout_controller" where
  "controller_after sizes = foldl (\<lambda>c s. LayoutController_Init (fst s) (snd s) c) new_LayoutController sizes"

definition row :: "position_type \<Rightarrow> x_position \<Rightarrow> y_position \<Rightarrow> rat \<Rightarrow> rat \<Rightarrow> rat \<Rightarrow> rat \<Rightarrow> nat \<Rightarrow> nat \<times> wlayout" where
  "row lt ptx pty x y w h wt =
     (wt, \<lparr>zIndex = int wt, positionType = lt, pTypeX = ptx, pTypeY = pty, wrel = \<lparr>lx = x, ly = y, lw = w, lh = h\<rparr>\<rparr>)"

definition default_rows :: "(nat \<times> wlayout) list" where
  "default_rows =
     [row RELATIVE MID Y_MID 0 0 100 100 0, row STATIC MID TOP 0 0 100 7 1, row STATIC MID BTM 0 0 100 7 2,
      row FIXED MID Y_MID 0 0 80 30 3, row FIXED MID Y_MID 0 0 100 100 4, row RELATIVE MID Y_MID 0 0 100 100 5,
      row FIXED MID Y_MID 0 0 100 100 6, row RELATIVE MID BTM 0 0 100 (333 / 10) 7,
      row RELATIVE MID BTM 0 0 90 (333 / 10) 8, row FIXED X_UNSET Y_UNSET (25 / 10) (25 / 10) 95 40 9,
      row FIXED MID TOP 0 0 100 50 10, row RELATIVE X_UNSET Y_UNSET (75 / 10) (75 / 10) 85 50 11]"

lemma defaults:
  "modeLayoutMap (InitByDefaultValue c) = (if \<forall>m. modeLayoutMap c m = [] then
     (\<lambda>_. [])(0 := default_rows, 2 := [(0, \<lparr>zIndex = 51, positionType = FIXED, pTypeX = MID, pTypeY = Y_MID, wrel = \<lparr>lx = 0, ly = 0, lw = 100, lh = 100\<rparr>\<rparr>)])
     else modeLayoutMap (InitByDefaultValue c))"
  by (auto simp: fun_eq_iff InitByDefaultValue_def DEF_POS_LYT_def DEF_RCT_LYT_def DEF_LYT_def put_layout_def Let_def window_types default_rows_def row_def)

lemma init_display: "displayWidth (InitByDefaultValue c) = displayWidth c" "displayHeight (InitByDefaultValue c) = displayHeight c"
  by (simp_all add: InitByDefaultValue_def DEF_POS_LYT_def DEF_RCT_LYT_def DEF_LYT_def put_layout_def Let_def)

lemma controller_after_snoc:
  "initialised (controller_after (sizes @ [(w, h)])) \<and> displayWidth (controller_after (sizes @ [(w, h)])) = w \<and>
   displayHeight (controller_after (sizes @ [(w, h)])) = h \<and> modeLayoutMap (controller_after (sizes @ [(w, h)])) WINDOW_MODE_UNSET = default_rows"
proof (induction sizes arbitrary: w h rule: rev_induct)
  case Nil
  show ?case
    by (simp add: controller_after_def LayoutController_Init_def Let_def init_display)
      (subst defaults, simp add: new_LayoutController_def window_types)
next
  case (snoc s sizes)
  obtain a b where s: "s = (a, b)" by fastforce
  show ?case using snoc[of a b] unfolding s by (simp add: controller_after_def LayoutController_Init_def Let_def)
qed

lemma default_rows_distinct: "distinct (map fst default_rows)"
  by (simp add: default_rows_def row_def)

lemma controller_distinct: "distinct (map fst (modeLayoutMap (controller_after sizes) WINDOW_MODE_UNSET))"
proof (cases sizes rule: rev_cases)
  case (snoc ys y)
  then show ?thesis using controller_after_snoc[of ys "fst y" "snd y"] default_rows_distinct by simp
qed (simp add: controller_after_def new_LayoutController_def)

text \<open>
  C31. Though the calculation of a layout calls itself, it returns for every window type, mode and display:
  with 0 and a layout when the type has one in the mode or in the unset mode, otherwise with 1, leaving the output alone.
\<close>

theorem layout_calculation_returns:
  "\<exists>ret l. CalcWindowDefaultLayout (controller_after sizes) ty mode out = Some (ret, l) \<and>
     (if find_layout ty mode (controller_after sizes) = None then ret = 1 \<and> l = out else ret = 0)"
  unfolding CalcWindowDefaultLayout_eq[OF controller_distinct] by (auto split: option.split)

text \<open>One rectangle inside another, taken off.\<close>

lemma RectsSubtrace_inside:
  assumes "inside r l"
  shows "RectsSubtrace [l] [r] = Subtrace l r []"
proof -
  have i: "Intersect r l = r" using assms by (auto simp: inside_def Intersect_def Let_def max_def min_def)
  then have "meets r l" using assms by (simp add: meets_def inside_def)
  moreover have "Subtrace r r [] = []" by (simp add: Subtrace_def Let_def)
  ultimately show ?thesis by (simp add: find_meeting_def i)
qed

lemma RectsSubtrace_off: "\<not> meets r l \<Longrightarrow> RectsSubtrace [l] [r] = [l]"
  by (simp add: find_meeting_def)

lemma bounding_one: "bounding [l] = \<lparr>wr_x = min 0 (wr_x l), wr_y = min 0 (wr_y l), wr_w = max 0 (right l) - min 0 (wr_x l), wr_h = max 0 (bottom l) - min 0 (wr_y l)\<rparr>"
  by (simp add: bounding_def bound_step_def right_def bottom_def)

text \<open>The height of a bar, and what is left of a display between two of them.\<close>

definition bar :: "int \<Rightarrow> int" where
  "bar h = \<lfloor>of_int h * 7 / 100 + eps\<rfloor>"

lemma bar_bounds:
  assumes "0 \<le> h"
  shows "0 \<le> bar h" and "100 * bar h \<le> 7 * h"
proof -
  show "0 \<le> bar h" using assms by (simp add: bar_def eps_def)
  have "of_int (bar h) \<le> (of_int h * 7 / 100 + eps :: rat)" unfolding bar_def by (rule of_int_floor_le)
  then have "of_int (100 * bar h - 7 * h) < (1 :: rat)" by (simp add: eps_def field_simps)
  then have "100 * bar h - 7 * h < 1" by (simp only: of_int_less_1_iff)
  then show "100 * bar h \<le> 7 * h" by simp
qed

lemma take_off_top:
  assumes "0 < w" and "0 \<le> s" and "2 * s < h"
  shows "rects_minus (new_Rects 0 0 w h) (new_Rects 0 0 w s) = new_Rects 0 s w (h - s)"
proof (cases "s = 0")
  case True
  then show ?thesis using assms
    by (simp add: rects_minus_def new_Rects_def Let_def bounding_one right_def bottom_def
        RectsSubtrace_off[of "\<lparr>wr_x = 0, wr_y = 0, wr_w = w, wr_h = 0\<rparr>"] RectsSubtrace_inside inside_def Subtrace_def meets_def Intersect_def del: RectsSubtrace.simps)
next
  case False
  then show ?thesis using assms
    by (simp add: rects_minus_def new_Rects_def Let_def bounding_one right_def bottom_def RectsSubtrace_inside inside_def Subtrace_def del: RectsSubtrace.simps)
qed

lemma take_off_bottom:
  assumes "0 < w" and "0 \<le> s" and "2 * s < h"
  shows "rects_minus (new_Rects 0 s w (h - s)) (new_Rects 0 (h - s) w s) = new_Rects 0 s w (h - 2 * s)"
proof (cases "s = 0")
  case True
  then show ?thesis using assms
    by (simp add: rects_minus_def new_Rects_def Let_def bounding_one right_def bottom_def
        RectsSubtrace_off[of "\<lparr>wr_x = 0, wr_y = h, wr_w = w, wr_h = 0\<rparr>"] RectsSubtrace_inside inside_def Subtrace_def meets_def Intersect_def del: RectsSubtrace.simps)
next
  case False
  then show ?thesis using assms
    by (simp add: rects_minus_def new_Rects_def Let_def bounding_one right_def bottom_def RectsSubtrace_inside inside_def Subtrace_def del: RectsSubtrace.simps)
qed

lemma floor_eps_int [simp]: "floor_eps (of_int k) = of_int k"
proof -
  have "\<lfloor>(of_int k :: rat) + eps\<rfloor> = k" by (rule floor_unique) (simp_all add: eps_def)
  then show ?thesis by (simp add: floor_eps_def)
qed

lemma floor_eps_simps [simp]: "floor_eps 0 = 0" "floor_eps (of_int a - of_int b) = of_int a - of_int b" "floor_eps (of_int a + of_int b) = of_int a + of_int b"
  using floor_eps_int[of 0] floor_eps_int[of "a - b"] floor_eps_int[of "a + b"] by simp_all

lemma to_int32_eps [simp]: "0 \<le> k \<Longrightarrow> to_int32 (of_int k + eps) = k"
proof -
  have "\<lfloor>(of_int k :: rat) + eps\<rfloor> = k" by (rule floor_unique) (simp_all add: eps_def)
  moreover assume "0 \<le> k"
  ultimately show ?thesis by (simp add: to_int32_def eps_def)
qed

lemma bar_floor_eps: "floor_eps (of_int h * 7 / 100) = of_int (bar h)"
  by (simp add: floor_eps_def bar_def)

definition lrect_of :: "int \<Rightarrow> int \<Rightarrow> int \<Rightarrow> int \<Rightarrow> lrect" where
  "lrect_of x y w h = \<lparr>lx = of_int x, ly = of_int y, lw = of_int w, lh = of_int h\<rparr>"

lemma layout_rects_int: "0 \<le> x \<Longrightarrow> 0 \<le> y \<Longrightarrow> 0 \<le> w \<Longrightarrow> 0 \<le> h \<Longrightarrow> wrel l = lrect_of x y w h \<Longrightarrow> layout_rects l = new_Rects x y w h"
  by (simp add: layout_rects_def lrect_of_def)

lemma place_bars:
  "wrel (place (lrect_of 0 0 w h) (snd (row STATIC MID TOP 0 0 100 7 1))) = lrect_of 0 0 w (bar h)"
  "wrel (place (lrect_of 0 0 w h) (snd (row STATIC MID BTM 0 0 100 7 2))) = lrect_of 0 (h - bar h) w (bar h)"
  by (simp_all add: row_def place_def place_x_def place_y_def lrect_of_def Let_def bar_floor_eps)

lemma CalcNormalRect_default:
  assumes "modeLayoutMap c WINDOW_MODE_UNSET = default_rows" and "0 < displayWidth c" and "0 < displayHeight c"
  shows "CalcNormalRect c = new_Rects 0 (bar (displayHeight c)) (displayWidth c) (displayHeight c - 2 * bar (displayHeight c))"
proof -
  let ?w = "displayWidth c" and ?h = "displayHeight c"
  have s: "0 \<le> bar ?h" "2 * bar ?h < ?h" using bar_bounds[of ?h] assms(3) by linarith+
  have d: "display c = lrect_of 0 0 ?w ?h" by (simp add: display_def lrect_of_def)
  have "layout_rects (place (display c) (snd (row STATIC MID TOP 0 0 100 7 1))) = new_Rects 0 0 ?w (bar ?h)"
       "layout_rects (place (display c) (snd (row STATIC MID BTM 0 0 100 7 2))) = new_Rects 0 (?h - bar ?h) ?w (bar ?h)"
    unfolding d using s assms(2) by (intro layout_rects_int place_bars; linarith)+
  then show ?thesis
    unfolding CalcNormalRect_def assms(1) default_rows_def
    using take_off_top[OF assms(2) s] take_off_bottom[OF assms(2) s] by (simp add: row_def)
qed

lemma Calc_after:
  "CalcWindowDefaultLayout (controller_after (sizes @ [(w, h)])) ty mode out =
     Some (case find_layout ty mode (controller_after (sizes @ [(w, h)])) of
             None \<Rightarrow> (1, out)
           | Some l \<Rightarrow> (0, place (if positionType l = RELATIVE
                           then normal_rect (CalcNormalRect (controller_after (sizes @ [(w, h)]))) (lrect_of 0 0 w h) else lrect_of 0 0 w h) l))"
  unfolding CalcWindowDefaultLayout_eq[OF controller_distinct]
  using controller_after_snoc[of sizes w h] by (simp add: display_def lrect_of_def split: option.split)

lemma normal_rect_after:
  assumes "0 < w" and "0 < h"
  shows "normal_rect (CalcNormalRect (controller_after (sizes @ [(w, h)]))) rect = lrect_of 0 (bar h) w (h - 2 * bar h)"
  using CalcNormalRect_default[of "controller_after (sizes @ [(w, h)])"] controller_after_snoc[of sizes w h] assms
  by (simp add: normal_rect_def new_Rects_def GetSize_def GetX_def GetY_def GetW_def GetH_def rect_at_def lrect_of_def)

lemma find_default:
  "find_layout ty WINDOW_MODE_UNSET (controller_after (sizes @ [(w, h)])) = map_of default_rows ty"
  using controller_after_snoc[of sizes w h] by (simp add: find_layout_def split: option.split)

text \<open>
  C24. On a display of any size the status bar and the navigation bar take seven percent of the height at
  the top and at the bottom, and a normal window fills exactly what is between them.
\<close>

theorem normal_window_between_bars:
  assumes "0 < w" and "0 < h"
  shows "\<exists>status navi normal.
    CalcWindowDefaultLayout (controller_after (sizes @ [(w, h)])) WINDOW_TYPE_STATUS_BAR WINDOW_MODE_UNSET out = Some (0, status) \<and>
    CalcWindowDefaultLayout (controller_after (sizes @ [(w, h)])) WINDOW_TYPE_NAVI_BAR WINDOW_MODE_UNSET out = Some (0, navi) \<and>
    CalcWindowDefaultLayout (controller_after (sizes @ [(w, h)])) WINDOW_TYPE_NORMAL WINDOW_MODE_UNSET out = Some (0, normal) \<and>
    wrel status = lrect_of 0 0 w (bar h) \<and> wrel navi = lrect_of 0 (h - bar h) w (bar h) \<and>
    wrel normal = lrect_of 0 (bar h) w (h - 2 * bar h) \<and> 0 \<le> bar h \<and> 100 * bar h \<le> 7 * h"
proof -
  have "wrel (place (lrect_of 0 s w' h') (snd (row RELATIVE MID Y_MID 0 0 100 100 0))) = lrect_of 0 s w' h'" for s w' h'
    by (simp add: row_def place_def place_x_def place_y_def lrect_of_def Let_def)
  then show ?thesis
    unfolding Calc_after find_default
    using place_bars[of w h] bar_bounds[of h] assms by (simp add: default_rows_def normal_rect_after window_types row_def)
qed

theorem normal_window_between_bars_witness:
  "\<exists>normal. CalcWindowDefaultLayout (controller_after [(480, 960)]) WINDOW_TYPE_NORMAL WINDOW_MODE_UNSET empty_layout = Some (0, normal) \<and>
     wrel normal = lrect_of 0 67 480 826"
proof -
  have "bar 960 = 67" by code_simp
  then show ?thesis using normal_window_between_bars[of 480 960 "[]" empty_layout] by auto
qed

text \<open>A part of a whole number, rounded down.\<close>

lemma floor_eps_sum:
  assumes "0 \<le> x" and "0 \<le> w" and "x + w \<le> 100" and "0 \<le> n"
  shows "\<exists>a b. floor_eps (of_int n * x / 100) = of_int a \<and> floor_eps (of_int n * w / 100) = of_int b \<and> 0 \<le> a \<and> 0 \<le> b \<and> a + b \<le> n"
proof (intro exI conjI)
  let ?a = "\<lfloor>of_int n * x / 100 + eps\<rfloor>" and ?b = "\<lfloor>of_int n * w / 100 + eps\<rfloor>"
  show "floor_eps (of_int n * x / 100) = of_int ?a" "floor_eps (of_int n * w / 100) = of_int ?b" by (simp_all add: floor_eps_def)
  show "0 \<le> ?a" "0 \<le> ?b" using assms by (simp_all add: eps_def)
  have "of_int (?a + ?b) \<le> of_int n * x / 100 + eps + (of_int n * w / 100 + eps)"
    unfolding of_int_add by (intro add_mono of_int_floor_le)
  also have "\<dots> = of_int n * (x + w) / 100 + 2 * eps" by (simp add: algebra_simps add_divide_distrib)
  also have "of_int n * (x + w) \<le> of_int n * 100" using assms by (intro mult_left_mono) simp_all
  finally have "of_int (?a + ?b) < (of_int (n + 1) :: rat)" by (simp add: eps_def)
  then show "?a + ?b \<le> n" by (simp only: of_int_less_iff)
qed

lemma floor_eps_mid:
  assumes "0 \<le> b" and "b \<le> n"
  shows "\<exists>k. floor_eps (of_int p + (of_int n - of_int b) / 2) = of_int k \<and> p \<le> k \<and> k + b \<le> p + n"
proof (intro exI conjI)
  let ?r = "of_int p + (of_int n - of_int b) / 2 :: rat" and ?k = "\<lfloor>of_int p + (of_int n - of_int b) / 2 + eps\<rfloor>"
  show "floor_eps ?r = of_int ?k" by (simp add: floor_eps_def)
  have "(of_int p :: rat) \<le> ?r + eps" using assms by (simp add: eps_def)
  then show "p \<le> ?k" by (simp add: le_floor_iff)
  have "of_int ?k \<le> ?r + eps" by simp
  also have "\<dots> < of_int (p + n - b + 1)" using assms by (simp add: eps_def field_simps)
  finally show "?k + b \<le> p + n" by (simp only: of_int_less_iff)
qed

text \<open>A layout within its percentages is placed inside the rectangle.\<close>

definition percentages :: "wlayout \<Rightarrow> bool" where
  "percentages l \<longleftrightarrow> 0 \<le> lx (wrel l) \<and> 0 \<le> ly (wrel l) \<and> 0 \<le> lw (wrel l) \<and> 0 \<le> lh (wrel l) \<and>
     lx (wrel l) + lw (wrel l) \<le> 100 \<and> ly (wrel l) + lh (wrel l) \<le> 100"

lemma place_x_inside:
  assumes "0 \<le> a" and "0 \<le> b" and "a + b \<le> n"
  shows "\<exists>k. place_x \<lparr>lx = of_int p, ly = y, lw = of_int n, lh = z\<rparr> l (of_int a) (of_int b) = of_int k \<and> p \<le> k \<and> k + b \<le> p + n"
proof (cases "pTypeX l")
  case MID
  then show ?thesis using floor_eps_mid[of b n p] assms by (simp add: place_x_def)
next
  case RGH
  have "floor_eps (of_int p + of_int n - of_int b) = of_int (p + n - b)" using floor_eps_int[of "p + n - b"] by simp
  then show ?thesis using RGH assms by (intro exI[of _ "p + n - b"]) (simp add: place_x_def)
next
  case X_UNSET
  then show ?thesis using assms by (intro exI[of _ "a + p"]) (simp add: place_x_def)
next
  case LFT
  then show ?thesis using assms by (intro exI[of _ p]) (simp add: place_x_def)
qed

lemma place_y_inside:
  assumes "0 \<le> a" and "0 \<le> b" and "a + b \<le> n"
  shows "\<exists>k. place_y \<lparr>lx = x, ly = of_int p, lw = z, lh = of_int n\<rparr> l (of_int a) (of_int b) = of_int k \<and> p \<le> k \<and> k + b \<le> p + n"
proof (cases "pTypeY l")
  case Y_MID
  then show ?thesis using floor_eps_mid[of b n p] assms by (simp add: place_y_def)
next
  case BTM
  have "floor_eps (of_int p + of_int n - of_int b) = of_int (p + n - b)" using floor_eps_int[of "p + n - b"] by simp
  then show ?thesis using BTM assms by (intro exI[of _ "p + n - b"]) (simp add: place_y_def)
next
  case Y_UNSET
  then show ?thesis using assms by (intro exI[of _ "a + p"]) (simp add: place_y_def)
next
  case TOP
  then show ?thesis using assms by (intro exI[of _ p]) (simp add: place_y_def)
qed

lemma place_inside:
  assumes "percentages l" and "0 \<le> n" and "0 \<le> m"
  shows "\<exists>x y w h. wrel (place (lrect_of p q n m) l) = lrect_of x y w h \<and> 0 \<le> w \<and> 0 \<le> h \<and>
    p \<le> x \<and> x + w \<le> p + n \<and> q \<le> y \<and> y + h \<le> q + m"
proof -
  obtain a b where ab: "floor_eps (of_int n * lx (wrel l) / 100) = of_int a" "floor_eps (of_int n * lw (wrel l) / 100) = of_int b"
      "0 \<le> a" "0 \<le> b" "a + b \<le> n"
    using floor_eps_sum[of "lx (wrel l)" "lw (wrel l)" n] assms by (auto simp: percentages_def)
  obtain c d where cd: "floor_eps (of_int m * ly (wrel l) / 100) = of_int c" "floor_eps (of_int m * lh (wrel l) / 100) = of_int d"
      "0 \<le> c" "0 \<le> d" "c + d \<le> m"
    using floor_eps_sum[of "ly (wrel l)" "lh (wrel l)" m] assms by (auto simp: percentages_def)
  obtain x where x: "place_x (lrect_of p q n m) l (of_int a) (of_int b) = of_int x" "p \<le> x" "x + b \<le> p + n"
    using place_x_inside[OF ab(3-5), of p "of_int q" "of_int m" l] by (auto simp: lrect_of_def)
  obtain y where y: "place_y (lrect_of p q n m) l (of_int c) (of_int d) = of_int y" "q \<le> y" "y + d \<le> q + m"
    using place_y_inside[OF cd(3-5), of "of_int p" q "of_int n" l] by (auto simp: lrect_of_def)
  have "wrel (place (lrect_of p q n m) l) = lrect_of x y b d"
    using ab(1,2) cd(1,2) x(1) y(1) by (simp add: place_def Let_def lrect_of_def)
  then show ?thesis using ab(4) cd(4) x y by blast
qed

lemma default_percentages: "map_of default_rows ty = Some l \<Longrightarrow> percentages l"
  by (auto simp: default_rows_def row_def percentages_def split: if_splits dest!: map_of_SomeD)

text \<open>
  C37. On every display, every window whose type is laid out relative to the free space lies between the
  bars and inside the display, and every other window inside the display.
\<close>

theorem windows_stay_in_their_space:
  assumes "0 < w" and "0 < h" and "map_of default_rows ty = Some l"
  shows "\<exists>l' x y ww hh.
    CalcWindowDefaultLayout (controller_after (sizes @ [(w, h)])) ty WINDOW_MODE_UNSET out = Some (0, l') \<and>
    wrel l' = lrect_of x y ww hh \<and> 0 \<le> ww \<and> 0 \<le> hh \<and> 0 \<le> x \<and> x + ww \<le> w \<and>
    (if positionType l = RELATIVE then bar h \<le> y \<and> y + hh \<le> h - bar h else 0 \<le> y \<and> y + hh \<le> h)"
proof -
  note p = default_percentages[OF assms(3)]
  have "0 \<le> h - 2 * bar h" using bar_bounds[of h] assms(2) by linarith
  then show ?thesis
    unfolding Calc_after find_default assms(3) option.case
    using place_inside[OF p, of w "h - 2 * bar h" 0 "bar h"] place_inside[OF p, of w h 0 0] normal_rect_after[OF assms(1,2)] assms(1,2)
    by (cases "positionType l = RELATIVE") (auto simp: algebra_simps)
qed

theorem windows_stay_in_their_space_witness:
  "\<exists>l' x y ww hh. CalcWindowDefaultLayout (controller_after [(480, 960)]) WINDOW_TYPE_FLOAT WINDOW_MODE_UNSET empty_layout = Some (0, l') \<and>
     wrel l' = lrect_of x y ww hh \<and> 67 \<le> y \<and> y + hh \<le> 893"
proof -
  have "bar 960 = 67" by code_simp
  then show ?thesis
    using windows_stay_in_their_space[of 480 960 WINDOW_TYPE_FLOAT "snd (row RELATIVE X_UNSET Y_UNSET (75 / 10) (75 / 10) 85 50 11)" "[]" empty_layout]
    by (simp add: default_rows_def row_def window_types) blast
qed

end
