(* ===== verification/Hdi_Device.thy ===== *)
theory Hdi_Device
  imports Graphic_Error
begin

text \<open>
  The display driver as the composer sees it: \<open>HdiDevice\<close>
  (\<open>rosen/modules/composer/hdi_backend/src/hdi_device.cpp\<close>), which calls the vendor's function tables,
  and \<open>HdiScreen\<close> (\<open>hdi_screen.cpp\<close>), one physical screen of it; its \<open>OnVsync\<close> is with the sampler it feeds.

  The vendor's tables are outside the repository: \<open>vendor\<close> is the record of their functions over a state
  \<open>'d\<close> of the driver. A function missing from a table is \<open>None\<close>. A function that fills an array is
  called twice, first for the number of elements, then for the elements, and is two functions here. A
  function that reads gives its result code and the value written. Stopping the legacy VSync module when the
  initialisation fails is not modelled.
\<close>

section \<open>What the vendor reports\<close>

record display_mode =
  mode_width :: "32 word"
  mode_height :: "32 word"
  freshRate :: "32 word"
  mode_id :: "32 word"

record property =
  prop_name :: string
  propId :: "32 word"
  prop_value :: "64 word"

record capability =
  cap_name :: string
  cap_type :: "32 word"
  phyWidth :: "32 word"
  phyHeight :: "32 word"
  supportLayers :: "32 word"
  virtualDispCount :: "32 word"
  supportWriteBack :: bool
  props :: "property list"

record hdr_capability =
  formats :: "32 word list"
  maxLum :: "32 word"
  maxAverageLum :: "32 word"
  minLum :: "32 word"

record 'd vendor =
  codes :: disp_codes
  available :: bool
  DISP_INTF_MIPI :: "32 word"
  DISP_INTF_HDMI :: "32 word"
  DISP_POWER_STATUS_ON :: "32 word"
  HDI_COLOR_GAMUT_SRGB :: "32 word"
  HDI_GAMUT_MAP_CONSTANT :: "32 word"
  RegDisplayVBlankCallback :: "(32 word \<Rightarrow> 'd \<Rightarrow> int \<times> 'd) option"
  SetDisplayVsyncEnabled :: "(32 word \<Rightarrow> bool \<Rightarrow> 'd \<Rightarrow> int \<times> 'd) option"
  GetDisplayCapability :: "(32 word \<Rightarrow> capability \<Rightarrow> 'd \<Rightarrow> int \<times> capability) option"
  CountDisplayModes :: "(32 word \<Rightarrow> 'd \<Rightarrow> int \<times> 32 word) option"
  FillDisplayModes :: "32 word \<Rightarrow> 'd \<Rightarrow> int \<times> (nat \<Rightarrow> display_mode)"
  GetDisplayMode :: "(32 word \<Rightarrow> 'd \<Rightarrow> int \<times> 32 word) option"
  SetDisplayMode :: "(32 word \<Rightarrow> 32 word \<Rightarrow> 'd \<Rightarrow> int \<times> 'd) option"
  GetDisplayPowerStatus :: "(32 word \<Rightarrow> 'd \<Rightarrow> int \<times> 32 word) option"
  SetDisplayPowerStatus :: "(32 word \<Rightarrow> 32 word \<Rightarrow> 'd \<Rightarrow> int \<times> 'd) option"
  GetDisplayBacklight :: "(32 word \<Rightarrow> 'd \<Rightarrow> int \<times> 32 word) option"
  SetDisplayBacklight :: "(32 word \<Rightarrow> 32 word \<Rightarrow> 'd \<Rightarrow> int \<times> 'd) option"

definition success :: "('d, 'm) vendor_scheme \<Rightarrow> int" where "success v = DISPLAY_SUCCESS (codes v)"
definition null_ptr :: "('d, 'm) vendor_scheme \<Rightarrow> int" where "null_ptr v = DISPLAY_NULL_PTR (codes v)"

section \<open>HdiDevice\<close>

text \<open>\<open>CHECK_FUNC\<close> before a setter and before a getter; \<open>x\<close> is what the output holds before the call.\<close>

definition call_set :: "('d, 'm) vendor_scheme \<Rightarrow> ('d \<Rightarrow> int \<times> 'd) option \<Rightarrow> 'd \<Rightarrow> int \<times> 'd" where
  "call_set v f d = (case f of None \<Rightarrow> (null_ptr v, d) | Some g \<Rightarrow> g d)"

definition call_get :: "('d, 'm) vendor_scheme \<Rightarrow> ('d \<Rightarrow> int \<times> 'x) option \<Rightarrow> 'x \<Rightarrow> 'd \<Rightarrow> int \<times> 'x" where
  "call_get v f x d = (case f of None \<Rightarrow> (null_ptr v, x) | Some g \<Rightarrow> g d)"

definition hd_RegScreenVBlankCallback :: "('d, 'm) vendor_scheme \<Rightarrow> 32 word \<Rightarrow> 'd \<Rightarrow> int \<times> 'd" where
  "hd_RegScreenVBlankCallback v screenId = call_set v (map_option (\<lambda>f. f screenId) (RegDisplayVBlankCallback v))"

definition hd_SetScreenVsyncEnabled :: "('d, 'm) vendor_scheme \<Rightarrow> 32 word \<Rightarrow> bool \<Rightarrow> 'd \<Rightarrow> int \<times> 'd" where
  "hd_SetScreenVsyncEnabled v screenId enabled = call_set v (map_option (\<lambda>f. f screenId enabled) (SetDisplayVsyncEnabled v))"

definition hd_GetScreenCapability :: "('d, 'm) vendor_scheme \<Rightarrow> 32 word \<Rightarrow> capability \<Rightarrow> 'd \<Rightarrow> int \<times> capability" where
  "hd_GetScreenCapability v screenId info = call_get v (map_option (\<lambda>f. f screenId info) (GetDisplayCapability v)) info"

definition hd_GetScreenSupportedModes :: "('d, 'm) vendor_scheme \<Rightarrow> 32 word \<Rightarrow> display_mode list \<Rightarrow> 'd \<Rightarrow> int \<times> display_mode list" where
  "hd_GetScreenSupportedModes v screenId modes d =
     (case CountDisplayModes v of
        None \<Rightarrow> (null_ptr v, modes)
      | Some f \<Rightarrow>
          (let (ret, num) = f screenId d
           in if ret \<noteq> success v then (ret, modes)
              else if num > 0 then
                (let (ret, data) = FillDisplayModes v screenId d in (ret, map data [0..<unat num]))
              else (ret, modes)))"

definition hd_GetScreenMode :: "('d, 'm) vendor_scheme \<Rightarrow> 32 word \<Rightarrow> 32 word \<Rightarrow> 'd \<Rightarrow> int \<times> 32 word" where
  "hd_GetScreenMode v screenId modeId = call_get v (map_option (\<lambda>f. f screenId) (GetDisplayMode v)) modeId"

definition hd_SetScreenMode :: "('d, 'm) vendor_scheme \<Rightarrow> 32 word \<Rightarrow> 32 word \<Rightarrow> 'd \<Rightarrow> int \<times> 'd" where
  "hd_SetScreenMode v screenId modeId = call_set v (map_option (\<lambda>f. f screenId modeId) (SetDisplayMode v))"

definition hd_GetScreenPowerStatus :: "('d, 'm) vendor_scheme \<Rightarrow> 32 word \<Rightarrow> 32 word \<Rightarrow> 'd \<Rightarrow> int \<times> 32 word" where
  "hd_GetScreenPowerStatus v screenId status = call_get v (map_option (\<lambda>f. f screenId) (GetDisplayPowerStatus v)) status"

definition hd_SetScreenPowerStatus :: "('d, 'm) vendor_scheme \<Rightarrow> 32 word \<Rightarrow> 32 word \<Rightarrow> 'd \<Rightarrow> int \<times> 'd" where
  "hd_SetScreenPowerStatus v screenId status = call_set v (map_option (\<lambda>f. f screenId status) (SetDisplayPowerStatus v))"

definition hd_GetScreenBacklight :: "('d, 'm) vendor_scheme \<Rightarrow> 32 word \<Rightarrow> 32 word \<Rightarrow> 'd \<Rightarrow> int \<times> 32 word" where
  "hd_GetScreenBacklight v screenId level = call_get v (map_option (\<lambda>f. f screenId) (GetDisplayBacklight v)) level"

definition hd_SetScreenBacklight :: "('d, 'm) vendor_scheme \<Rightarrow> 32 word \<Rightarrow> 32 word \<Rightarrow> 'd \<Rightarrow> int \<times> 'd" where
  "hd_SetScreenBacklight v screenId level = call_set v (map_option (\<lambda>f. f screenId level) (SetDisplayBacklight v))"

text \<open>The colour functions do not reach the vendor.\<close>

definition hd_GetScreenSupportedColorGamuts :: "('d, 'm) vendor_scheme \<Rightarrow> 32 word \<Rightarrow> int \<times> 32 word list" where
  "hd_GetScreenSupportedColorGamuts v screenId = (success v, [HDI_COLOR_GAMUT_SRGB v])"

definition hd_SetScreenColorGamut :: "('d, 'm) vendor_scheme \<Rightarrow> 32 word \<Rightarrow> 32 word \<Rightarrow> int" where
  "hd_SetScreenColorGamut v screenId gamut = success v"

definition hd_GetScreenColorGamut :: "('d, 'm) vendor_scheme \<Rightarrow> 32 word \<Rightarrow> int \<times> 32 word" where
  "hd_GetScreenColorGamut v screenId = (success v, HDI_COLOR_GAMUT_SRGB v)"

definition hd_SetScreenGamutMap :: "('d, 'm) vendor_scheme \<Rightarrow> 32 word \<Rightarrow> 32 word \<Rightarrow> int" where
  "hd_SetScreenGamutMap v screenId gamutMap = success v"

definition hd_GetScreenGamutMap :: "('d, 'm) vendor_scheme \<Rightarrow> 32 word \<Rightarrow> int \<times> 32 word" where
  "hd_GetScreenGamutMap v screenId = (success v, HDI_GAMUT_MAP_CONSTANT v)"

definition hd_GetHDRCapabilityInfos :: "('d, 'm) vendor_scheme \<Rightarrow> 32 word \<Rightarrow> int \<times> hdr_capability" where
  "hd_GetHDRCapabilityInfos v screenId = (success v, \<lparr>formats = [], maxLum = 1000, maxAverageLum = 600, minLum = 200\<rparr>)"

section \<open>HdiScreen\<close>

text \<open>A physical screen: its id and whether it holds a device.\<close>

record hdi_screen =
  screenId :: "32 word"
  has_device :: bool

definition CreateHdiScreen :: "32 word \<Rightarrow> hdi_screen" where
  "CreateHdiScreen i = \<lparr>screenId = i, has_device = False\<rparr>"

text \<open>\<open>Init\<close> keeps the device also when the registration fails; only the answer differs.\<close>

definition hs_Init :: "('d, 'm) vendor_scheme \<Rightarrow> hdi_screen \<Rightarrow> 'd \<Rightarrow> bool \<times> hdi_screen \<times> 'd" where
  "hs_Init v s d =
     (if has_device s then (True, s, d)
      else if \<not> available v then (False, s, d)
      else
        (let s = s\<lparr>has_device := True\<rparr>; (ret, d) = hd_RegScreenVBlankCallback v (screenId s) d
         in if ret \<noteq> success v then (False, s, d)
            else
              (let (ret, d) = hd_SetScreenVsyncEnabled v (screenId s) True d
               in (ret = success v, s, d))))"

definition with_device :: "('d, 'm) vendor_scheme \<Rightarrow> hdi_screen \<Rightarrow> 'x \<Rightarrow> int \<times> 'x \<Rightarrow> int \<times> 'x" where
  "with_device v s x r = (if has_device s then r else (null_ptr v, x))"

definition hs_GetScreenCapability :: "('d, 'm) vendor_scheme \<Rightarrow> hdi_screen \<Rightarrow> capability \<Rightarrow> 'd \<Rightarrow> int \<times> capability" where
  "hs_GetScreenCapability v s dcap d = with_device v s dcap (hd_GetScreenCapability v (screenId s) dcap d)"

definition hs_GetScreenSupportedModes :: "('d, 'm) vendor_scheme \<Rightarrow> hdi_screen \<Rightarrow> display_mode list \<Rightarrow> 'd \<Rightarrow> int \<times> display_mode list" where
  "hs_GetScreenSupportedModes v s modes d = with_device v s modes (hd_GetScreenSupportedModes v (screenId s) modes d)"

definition hs_GetScreenMode :: "('d, 'm) vendor_scheme \<Rightarrow> hdi_screen \<Rightarrow> 32 word \<Rightarrow> 'd \<Rightarrow> int \<times> 32 word" where
  "hs_GetScreenMode v s modeId d = with_device v s modeId (hd_GetScreenMode v (screenId s) modeId d)"

definition hs_SetScreenMode :: "('d, 'm) vendor_scheme \<Rightarrow> hdi_screen \<Rightarrow> 32 word \<Rightarrow> 'd \<Rightarrow> int \<times> 'd" where
  "hs_SetScreenMode v s modeId d = with_device v s d (hd_SetScreenMode v (screenId s) modeId d)"

definition hs_GetScreenPowerStatus :: "('d, 'm) vendor_scheme \<Rightarrow> hdi_screen \<Rightarrow> 32 word \<Rightarrow> 'd \<Rightarrow> int \<times> 32 word" where
  "hs_GetScreenPowerStatus v s status d = with_device v s status (hd_GetScreenPowerStatus v (screenId s) status d)"

definition hs_SetScreenPowerStatus :: "('d, 'm) vendor_scheme \<Rightarrow> hdi_screen \<Rightarrow> 32 word \<Rightarrow> 'd \<Rightarrow> int \<times> 'd" where
  "hs_SetScreenPowerStatus v s status d = with_device v s d (hd_SetScreenPowerStatus v (screenId s) status d)"

definition hs_GetScreenBacklight :: "('d, 'm) vendor_scheme \<Rightarrow> hdi_screen \<Rightarrow> 32 word \<Rightarrow> 'd \<Rightarrow> int \<times> 32 word" where
  "hs_GetScreenBacklight v s level d = with_device v s level (hd_GetScreenBacklight v (screenId s) level d)"

definition hs_SetScreenBacklight :: "('d, 'm) vendor_scheme \<Rightarrow> hdi_screen \<Rightarrow> 32 word \<Rightarrow> 'd \<Rightarrow> int \<times> 'd" where
  "hs_SetScreenBacklight v s level d = with_device v s d (hd_SetScreenBacklight v (screenId s) level d)"

definition hs_SetScreenVsyncEnabled :: "('d, 'm) vendor_scheme \<Rightarrow> hdi_screen \<Rightarrow> bool \<Rightarrow> 'd \<Rightarrow> int \<times> 'd" where
  "hs_SetScreenVsyncEnabled v s enabled d = with_device v s d (hd_SetScreenVsyncEnabled v (screenId s) enabled d)"

definition hs_GetScreenSupportedColorGamuts :: "('d, 'm) vendor_scheme \<Rightarrow> hdi_screen \<Rightarrow> int \<times> 32 word list" where
  "hs_GetScreenSupportedColorGamuts v s = with_device v s [] (hd_GetScreenSupportedColorGamuts v (screenId s))"

definition hs_SetScreenColorGamut :: "('d, 'm) vendor_scheme \<Rightarrow> hdi_screen \<Rightarrow> 32 word \<Rightarrow> int" where
  "hs_SetScreenColorGamut v s gamut = (if has_device s then hd_SetScreenColorGamut v (screenId s) gamut else null_ptr v)"

definition hs_GetScreenColorGamut :: "('d, 'm) vendor_scheme \<Rightarrow> hdi_screen \<Rightarrow> int \<times> 32 word" where
  "hs_GetScreenColorGamut v s = with_device v s 0 (hd_GetScreenColorGamut v (screenId s))"

definition hs_SetScreenGamutMap :: "('d, 'm) vendor_scheme \<Rightarrow> hdi_screen \<Rightarrow> 32 word \<Rightarrow> int" where
  "hs_SetScreenGamutMap v s gamutMap = (if has_device s then hd_SetScreenGamutMap v (screenId s) gamutMap else null_ptr v)"

definition hs_GetScreenGamutMap :: "('d, 'm) vendor_scheme \<Rightarrow> hdi_screen \<Rightarrow> int \<times> 32 word" where
  "hs_GetScreenGamutMap v s = with_device v s 0 (hd_GetScreenGamutMap v (screenId s))"

definition hs_GetHDRCapabilityInfos :: "('d, 'm) vendor_scheme \<Rightarrow> hdi_screen \<Rightarrow> hdr_capability \<Rightarrow> int \<times> hdr_capability" where
  "hs_GetHDRCapabilityInfos v s info = with_device v s info (hd_GetHDRCapabilityInfos v (screenId s))"

lemmas hs_defs = with_device_def hs_GetScreenCapability_def hs_GetScreenSupportedModes_def hs_GetScreenMode_def
  hs_SetScreenMode_def hs_GetScreenPowerStatus_def hs_SetScreenPowerStatus_def hs_GetScreenBacklight_def
  hs_SetScreenBacklight_def hs_SetScreenVsyncEnabled_def hs_GetHDRCapabilityInfos_def

end
