(* ===== verification/Screen.thy ===== *)
theory Screen
  imports Hdi_Device
begin

text \<open>
  One screen of the render service, \<open>RSScreen\<close>
  (\<open>rosen/modules/render_service/core/screen_manager/rs_screen.cpp\<close>): a physical screen over the display
  driver or a virtual screen over a producer surface. A surface is its unique id, an output the id of its
  physical screen. Writing text (the dumps) is not modelled.
\<close>

section \<open>Identifiers and codes\<close>

type_synonym screen_id = "64 word"

definition INVALID_SCREEN_ID :: screen_id where "INVALID_SCREEN_ID = -1"
definition INVALID_BACKLIGHT_VALUE :: int where "INVALID_BACKLIGHT_VALUE = -1"

definition ToScreenId :: "32 word \<Rightarrow> screen_id" where "ToScreenId physicalId = ucast physicalId"
definition ToScreenPhysicalId :: "screen_id \<Rightarrow> 32 word" where "ToScreenPhysicalId i = ucast i"

datatype screen_rotation = ROTATION_0 | ROTATION_90 | ROTATION_180 | ROTATION_270 | INVALID_SCREEN_ROTATION
datatype screen_type = BUILT_IN_TYPE_SCREEN | EXTERNAL_TYPE_SCREEN | VIRTUAL_TYPE_SCREEN | UNKNOWN_TYPE_SCREEN

definition POWER_STATUS_ON :: "32 word" where "POWER_STATUS_ON = 0"
definition INVALID_POWER_STATUS :: "32 word" where "INVALID_POWER_STATUS = 5"

definition COLOR_GAMUT_SRGB :: "32 word" where "COLOR_GAMUT_SRGB = 4"
definition COLOR_GAMUT_DCI_P3 :: "32 word" where "COLOR_GAMUT_DCI_P3 = 3"
definition COLOR_GAMUT_ADOBE_RGB :: "32 word" where "COLOR_GAMUT_ADOBE_RGB = 5"
definition GAMUT_MAP_CONSTANT :: "32 word" where "GAMUT_MAP_CONSTANT = 0"

datatype status_code = SUCCESS | SCREEN_NOT_FOUND | RS_CONNECTION_ERROR | SURFACE_NOT_UNIQUE | RENDER_SERVICE_NULL
  | INVALID_ARGUMENTS | WRITE_PARCEL_ERR | HDI_ERROR | SCREEN_MANAGER_NULL

text \<open>A rotation matrix of Skia is named by what builds it: degrees, then a translation.\<close>

datatype rot_matrix = Identity | Rotated int int int

section \<open>The screen\<close>

record screen =
  scr_id :: screen_id
  mirrorId :: screen_id
  scr_name :: string
  scr_width :: "32 word"
  scr_height :: "32 word"
  rotation :: screen_rotation
  rotationMatrix :: rot_matrix
  isVirtual :: bool
  hdiOutput :: "32 word option"
  hdiScreen :: hdi_screen
  supportedModes :: "display_mode list"
  scr_capability :: capability
  hdrCapability :: hdr_capability
  producerSurface :: "64 word option"
  powerStatus :: "32 word"
  virtualGamutIdx :: int
  virtualGamutMap :: "32 word"
  screenType :: screen_type

text \<open>The members before a constructor sets them; a virtual screen never uses its \<open>hdiScreen\<close>.\<close>

definition blank_screen :: "('d, 'm) vendor_scheme \<Rightarrow> screen_id \<Rightarrow> screen" where
  "blank_screen v i =
     \<lparr>scr_id = i, mirrorId = INVALID_SCREEN_ID, scr_name = [], scr_width = 0, scr_height = 0, rotation = ROTATION_0,
      rotationMatrix = Identity, isVirtual = True, hdiOutput = None, hdiScreen = CreateHdiScreen 0, supportedModes = [],
      scr_capability = \<lparr>cap_name = [], cap_type = DISP_INTF_HDMI v, phyWidth = 0, phyHeight = 0, supportLayers = 0,
        virtualDispCount = 0, supportWriteBack = True, props = []\<rparr>,
      hdrCapability = \<lparr>formats = [], maxLum = 0, maxAverageLum = 0, minLum = 0\<rparr>, producerSurface = None,
      powerStatus = DISP_POWER_STATUS_ON v, virtualGamutIdx = 0, virtualGamutMap = GAMUT_MAP_CONSTANT, screenType = UNKNOWN_TYPE_SCREEN\<rparr>"

definition GetActiveMode :: "('d, 'm) vendor_scheme \<Rightarrow> screen \<Rightarrow> 'd \<Rightarrow> display_mode option" where
  "GetActiveMode v s d =
     (if isVirtual s then None
      else
        (let (ret, modeId) = hs_GetScreenMode v (hdiScreen s) 0 d
         in if ret < 0 then None else find (\<lambda>m. mode_id m = modeId) (supportedModes s)))"

definition adopt_mode :: "display_mode option \<Rightarrow> screen \<Rightarrow> screen" where
  "adopt_mode m s = (case m of None \<Rightarrow> s | Some m \<Rightarrow> s\<lparr>scr_width := mode_width m, scr_height := mode_height m\<rparr>)"

text \<open>
  \<open>PhysicalScreenInit\<close>: the results of failing queries are kept as the driver left them; the power status
  alone is replaced.
\<close>

definition PhysicalScreenInit :: "('d, 'm) vendor_scheme \<Rightarrow> screen \<Rightarrow> 'd \<Rightarrow> screen \<times> 'd" where
  "PhysicalScreenInit v s d =
     (let (_, hs, d) = hs_Init v (CreateHdiScreen (ToScreenPhysicalId (scr_id s))) d;
          s = s\<lparr>hdiScreen := hs\<rparr>;
          s = s\<lparr>supportedModes := snd (hs_GetScreenSupportedModes v hs (supportedModes s) d)\<rparr>;
          s = s\<lparr>scr_capability := snd (hs_GetScreenCapability v hs (scr_capability s) d)\<rparr>;
          s = s\<lparr>hdrCapability := snd (hs_GetHDRCapabilityInfos v hs (hdrCapability s))\<rparr>;
          (_, d) = hs_SetScreenPowerStatus v hs (DISP_POWER_STATUS_ON v) d;
          s = adopt_mode (GetActiveMode v s d) s;
          (ret, status) = hs_GetScreenPowerStatus v hs (powerStatus s) d;
          s = s\<lparr>powerStatus := (if ret < 0 then INVALID_POWER_STATUS else status)\<rparr>
      in (s\<lparr>screenType := (if cap_type (scr_capability s) = DISP_INTF_MIPI v then BUILT_IN_TYPE_SCREEN else EXTERNAL_TYPE_SCREEN)\<rparr>, d))"

text \<open>The constructors. The name is the decimal id behind \<open>Screen_\<close>; \<open>dec\<close> is \<open>std::to_string\<close>.\<close>

definition new_RSScreen ::
    "('d, 'm) vendor_scheme \<Rightarrow> (screen_id \<Rightarrow> string) \<Rightarrow> screen_id \<Rightarrow> bool \<Rightarrow> 32 word option \<Rightarrow> 64 word option \<Rightarrow> 'd \<Rightarrow> screen \<times> 'd" where
  "new_RSScreen v dec i virt output surface d =
     (let s = (blank_screen v i)\<lparr>isVirtual := virt, hdiOutput := output, producerSurface := surface\<rparr>
      in if \<not> isVirtual s then PhysicalScreenInit v (s\<lparr>scr_name := ''Screen_'' @ dec i\<rparr>) d else (s, d))"

definition new_RSScreen_virtual ::
    "('d, 'm) vendor_scheme \<Rightarrow> screen_id \<Rightarrow> screen_id \<Rightarrow> string \<Rightarrow> 32 word \<Rightarrow> 32 word \<Rightarrow> 64 word option \<Rightarrow> screen" where
  "new_RSScreen_virtual v i mirror nm width height surface =
     (blank_screen v i)\<lparr>mirrorId := mirror, scr_name := nm, scr_width := width, scr_height := height, isVirtual := True,
       producerSurface := surface, screenType := VIRTUAL_TYPE_SCREEN\<rparr>"

definition SetMirror :: "screen_id \<Rightarrow> screen \<Rightarrow> screen" where
  "SetMirror m = mirrorId_update (\<lambda>_. m)"

definition IsEnable :: "screen \<Rightarrow> bool" where
  "IsEnable s \<longleftrightarrow> scr_id s \<noteq> INVALID_SCREEN_ID \<and> (hdiOutput s \<noteq> None \<or> producerSurface s \<noteq> None)"

section \<open>Modes, power, backlight\<close>

definition sc_SetActiveMode :: "('d, 'm) vendor_scheme \<Rightarrow> 32 word \<Rightarrow> screen \<Rightarrow> 'd \<Rightarrow> screen \<times> 'd" where
  "sc_SetActiveMode v modeId s d =
     (if isVirtual s then (s, d)
      else if unat modeId \<ge> length (supportedModes s) then (s, d)
      else
        (let selectModeId = mode_id (supportedModes s ! unat modeId);
             (ret, d) = hs_SetScreenMode v (hdiScreen s) selectModeId d
         in if ret < 0 then (s, d) else (adopt_mode (GetActiveMode v s d) s, d)))"

definition sc_SetResolution :: "32 word \<Rightarrow> 32 word \<Rightarrow> screen \<Rightarrow> screen" where
  "sc_SetResolution width height s = (if \<not> isVirtual s then s else s\<lparr>scr_width := width, scr_height := height\<rparr>)"

fun mode_index :: "32 word \<Rightarrow> display_mode list \<Rightarrow> nat \<Rightarrow> int" where
  "mode_index modeId [] k = -1"
| "mode_index modeId (m # ms) k = (if mode_id m = modeId then int k else mode_index modeId ms (Suc k))"

definition GetActiveModePosByModeId :: "32 word \<Rightarrow> screen \<Rightarrow> int" where
  "GetActiveModePosByModeId modeId s = mode_index modeId (supportedModes s) 0"

definition sc_SetPowerStatus :: "('d, 'm) vendor_scheme \<Rightarrow> 32 word \<Rightarrow> screen \<Rightarrow> 'd \<Rightarrow> 'd" where
  "sc_SetPowerStatus v status s d =
     (if isVirtual s then d
      else
        (let (ret, d) = hs_SetScreenPowerStatus v (hdiScreen s) status d
         in if ret < 0 then d
            else if status = DISP_POWER_STATUS_ON v then snd (hs_SetScreenVsyncEnabled v (hdiScreen s) True d)
            else d))"

definition sc_GetPowerStatus :: "('d, 'm) vendor_scheme \<Rightarrow> screen \<Rightarrow> 'd \<Rightarrow> 32 word" where
  "sc_GetPowerStatus v s d =
     (if isVirtual s then INVALID_POWER_STATUS
      else (let (ret, status) = hs_GetScreenPowerStatus v (hdiScreen s) 0 d in if ret < 0 then INVALID_POWER_STATUS else status))"

definition SetProducerSurface :: "64 word option \<Rightarrow> screen \<Rightarrow> screen" where
  "SetProducerSurface surface = producerSurface_update (\<lambda>_. surface)"

definition sc_SetScreenBacklight :: "('d, 'm) vendor_scheme \<Rightarrow> 32 word \<Rightarrow> screen \<Rightarrow> 'd \<Rightarrow> 'd" where
  "sc_SetScreenBacklight v level s d =
     (if isVirtual s then d else snd (hs_SetScreenBacklight v (hdiScreen s) level d))"

definition sc_GetScreenBacklight :: "('d, 'm) vendor_scheme \<Rightarrow> screen \<Rightarrow> 'd \<Rightarrow> int" where
  "sc_GetScreenBacklight v s d =
     (if isVirtual s then INVALID_BACKLIGHT_VALUE
      else
        (let (ret, level) = hs_GetScreenBacklight v (hdiScreen s) 0 d
         in if ret < 0 then INVALID_BACKLIGHT_VALUE else sint level))"

section \<open>Colour gamuts\<close>

definition supportedVirtualColorGamuts :: "32 word list" where
  "supportedVirtualColorGamuts = [COLOR_GAMUT_SRGB, COLOR_GAMUT_DCI_P3, COLOR_GAMUT_ADOBE_RGB]"

text \<open>An index out of a vector's range is undefined behaviour: \<open>None\<close>.\<close>

definition vector_at :: "'a list \<Rightarrow> int \<Rightarrow> 'a option" where
  "vector_at xs i = (if 0 \<le> i \<and> i < int (length xs) then Some (xs ! nat i) else None)"

definition sc_GetScreenSupportedColorGamuts :: "('d, 'm) vendor_scheme \<Rightarrow> screen \<Rightarrow> 32 word list \<Rightarrow> status_code \<times> 32 word list" where
  "sc_GetScreenSupportedColorGamuts v s mode =
     (if isVirtual s then (SUCCESS, supportedVirtualColorGamuts)
      else
        (let (result, hdiMode) = hs_GetScreenSupportedColorGamuts v (hdiScreen s)
         in if result = success v then (SUCCESS, hdiMode) else (HDI_ERROR, mode)))"

definition sc_GetScreenColorGamut :: "('d, 'm) vendor_scheme \<Rightarrow> screen \<Rightarrow> 32 word \<Rightarrow> (status_code \<times> 32 word) option" where
  "sc_GetScreenColorGamut v s mode =
     (if isVirtual s then map_option (Pair SUCCESS) (vector_at supportedVirtualColorGamuts (virtualGamutIdx s))
      else
        (let (result, hdiMode) = hs_GetScreenColorGamut v (hdiScreen s)
         in Some (if result = success v then (SUCCESS, hdiMode) else (HDI_ERROR, mode))))"

definition sc_SetScreenColorGamut :: "('d, 'm) vendor_scheme \<Rightarrow> int \<Rightarrow> screen \<Rightarrow> (status_code \<times> screen) option" where
  "sc_SetScreenColorGamut v modeIdx s =
     (if isVirtual s then
        (if modeIdx \<ge> int (length supportedVirtualColorGamuts) then Some (INVALID_ARGUMENTS, s)
         else Some (SUCCESS, s\<lparr>virtualGamutIdx := modeIdx\<rparr>))
      else
        (let (ret, hdiMode) = hs_GetScreenSupportedColorGamuts v (hdiScreen s)
         in if ret \<noteq> success v then Some (HDI_ERROR, s)
            else if modeIdx \<ge> int (length hdiMode) then Some (INVALID_ARGUMENTS, s)
            else
              (case vector_at hdiMode modeIdx of
                 None \<Rightarrow> None
               | Some m \<Rightarrow> Some (if hs_SetScreenColorGamut v (hdiScreen s) m = success v then SUCCESS else HDI_ERROR, s))))"

definition sc_SetScreenGamutMap :: "('d, 'm) vendor_scheme \<Rightarrow> 32 word \<Rightarrow> screen \<Rightarrow> status_code \<times> screen" where
  "sc_SetScreenGamutMap v mode s =
     (if isVirtual s then (SUCCESS, s\<lparr>virtualGamutMap := mode\<rparr>)
      else (if hs_SetScreenGamutMap v (hdiScreen s) mode = success v then SUCCESS else HDI_ERROR, s))"

definition sc_GetScreenGamutMap :: "('d, 'm) vendor_scheme \<Rightarrow> screen \<Rightarrow> 32 word \<Rightarrow> status_code \<times> 32 word" where
  "sc_GetScreenGamutMap v s mode =
     (if isVirtual s then (SUCCESS, virtualGamutMap s)
      else
        (let (result, hdiMode) = hs_GetScreenGamutMap v (hdiScreen s)
         in if result = success v then (SUCCESS, hdiMode) else (HDI_ERROR, mode)))"

section \<open>Rotation\<close>

definition UpdateRotationMatrix :: "screen \<Rightarrow> screen" where
  "UpdateRotationMatrix s =
     s\<lparr>rotationMatrix :=
       (case rotation s of
          ROTATION_90 \<Rightarrow> Rotated (-90) 0 (sint (scr_height s))
        | ROTATION_180 \<Rightarrow> Rotated 180 (sint (scr_width s)) (sint (scr_height s))
        | ROTATION_270 \<Rightarrow> Rotated (-270) (sint (scr_width s)) 0
        | _ \<Rightarrow> Identity)\<rparr>"

definition SetRotation :: "screen_rotation \<Rightarrow> screen \<Rightarrow> bool \<times> screen" where
  "SetRotation r s = (True, if rotation s \<noteq> r then UpdateRotationMatrix (s\<lparr>rotation := r\<rparr>) else s)"

end
