(* ===== verification/Screen_Manager.thy ===== *)
theory Screen_Manager
  imports Screen
begin

text \<open>
  The screens of the render service, \<open>RSScreenManager\<close>
  (\<open>rosen/modules/render_service/core/screen_manager/rs_screen_manager.cpp\<close>): hot plugging, virtual
  screens, the default screen, the settings of a screen. An operation is one step: all
  that change the state hold the mutex, except \<open>SetVirtualScreenSurface\<close>, which takes no lock at all. It is
  modelled as its check and its store, with what other threads do in between as the argument \<open>gap\<close>.

  The driver's state is the field \<open>driver\<close>. A registered callback is a number; \<open>notified\<close> lists the calls
  of \<open>OnScreenChanged\<close>, newest last, and \<open>frames\<close> counts the requests to the main thread for a frame.
  \<open>screens_\<close> is an unordered map: a loop over it visits the entries in an order \<open>ord\<close> that nothing is known of.
  An operation that would read outside a container, dereference null or throw \<open>out_of_range\<close> gives \<open>None\<close>.
\<close>

section \<open>State\<close>

record 'd manager =
  defaultScreenId :: screen_id
  screens :: "(screen_id, screen) omap"
  freeVirtualScreenIds :: "screen_id list"
  maxVirtualScreenNum :: "32 word"
  screenChangeCallbacks :: "nat list"
  mipiCheck :: bool
  connectedIds :: "screen_id list"
  pendingEvents :: "(32 word option \<times> bool) list"
  driver :: 'd
  notified :: "(nat \<times> screen_id \<times> bool) list"
  frames :: nat

definition new_manager :: "'d \<Rightarrow> 'd manager" where
  "new_manager d =
     \<lparr>defaultScreenId = INVALID_SCREEN_ID, screens = [], freeVirtualScreenIds = [], maxVirtualScreenNum = 0,
      screenChangeCallbacks = [], mipiCheck = False, connectedIds = [], pendingEvents = [], driver = d, notified = [], frames = 0\<rparr>"

type_synonym visit_order = "(screen_id \<times> screen) list \<Rightarrow> (screen_id \<times> screen) list"

abbreviation the_screen :: "'d manager \<Rightarrow> screen_id \<Rightarrow> screen option" where
  "the_screen m i \<equiv> map_of (screens m) i"

definition set_screen :: "screen_id \<Rightarrow> screen \<Rightarrow> 'd manager \<Rightarrow> 'd manager" where
  "set_screen i s m = m\<lparr>screens := om_put i s (screens m)\<rparr>"

definition notify :: "screen_id \<Rightarrow> bool \<Rightarrow> 'd manager \<Rightarrow> 'd manager" where
  "notify i connected m = m\<lparr>notified := notified m @ map (\<lambda>cb. (cb, i, connected)) (screenChangeCallbacks m)\<rparr>"

section \<open>Hot plugging\<close>

definition OnHotPlugEvent :: "32 word option \<Rightarrow> bool \<Rightarrow> 'd manager \<Rightarrow> 'd manager" where
  "OnHotPlugEvent output connected m =
     (case output of None \<Rightarrow> m
      | Some _ \<Rightarrow> m\<lparr>pendingEvents := pendingEvents m @ [(output, connected)], frames := Suc (frames m)\<rparr>)"

definition ProcessScreenConnectedLocked ::
    "('d, 'm) vendor_scheme \<Rightarrow> (screen_id \<Rightarrow> string) \<Rightarrow> 32 word option \<Rightarrow> 'd manager \<Rightarrow> 'd manager" where
  "ProcessScreenConnectedLocked v dec output m =
     (case output of
        None \<Rightarrow> m
      | Some p \<Rightarrow>
          (let i = ToScreenId p;
               m = (if om_has i (screens m) then (notify i False m)\<lparr>screens := om_del i (screens m)\<rparr> else m);
               (s, d) = new_RSScreen v dec i False output None (driver m);
               m = (set_screen i s m)\<lparr>driver := d\<rparr>;
               m = (if cap_type (scr_capability s) = DISP_INTF_MIPI v
                    then (if \<not> mipiCheck m then m\<lparr>defaultScreenId := i\<rparr> else m)\<lparr>mipiCheck := True\<rparr>
                    else if defaultScreenId m = INVALID_SCREEN_ID then m\<lparr>defaultScreenId := i\<rparr> else m)
           in m\<lparr>connectedIds := connectedIds m @ [i]\<rparr>))"

definition HandleDefaultScreenDisConnectedLocked :: "visit_order \<Rightarrow> 'd manager \<Rightarrow> 'd manager" where
  "HandleDefaultScreenDisConnectedLocked ord m =
     m\<lparr>defaultScreenId :=
       (case find (\<lambda>e. \<not> isVirtual (snd e)) (ord (screens m)) of
          Some e \<Rightarrow> fst e
        | None \<Rightarrow> (case ord (screens m) of [] \<Rightarrow> INVALID_SCREEN_ID | e # _ \<Rightarrow> fst e))\<rparr>"

definition ProcessScreenDisConnectedLocked :: "visit_order \<Rightarrow> 32 word option \<Rightarrow> 'd manager \<Rightarrow> 'd manager option" where
  "ProcessScreenDisConnectedLocked ord output m =
     (case output of
        None \<Rightarrow> None
      | Some p \<Rightarrow>
          (let i = ToScreenId p;
               m = (if om_has i (screens m) then (notify i False m)\<lparr>screens := om_del i (screens m)\<rparr> else m)
           in Some (if i = defaultScreenId m then HandleDefaultScreenDisConnectedLocked ord m else m)))"

definition process_event ::
    "('d, 'm) vendor_scheme \<Rightarrow> (screen_id \<Rightarrow> string) \<Rightarrow> visit_order \<Rightarrow> 32 word option \<times> bool \<Rightarrow> 'd manager \<Rightarrow> 'd manager option" where
  "process_event v dec ord e m =
     (if snd e then Some (ProcessScreenConnectedLocked v dec (fst e) m) else ProcessScreenDisConnectedLocked ord (fst e) m)"

definition ProcessScreenHotPlugEvents ::
    "('d, 'm) vendor_scheme \<Rightarrow> (screen_id \<Rightarrow> string) \<Rightarrow> visit_order \<Rightarrow> 'd manager \<Rightarrow> 'd manager option" where
  "ProcessScreenHotPlugEvents v dec ord m =
     map_option (\<lambda>m. (fold (\<lambda>i. notify i True) (connectedIds m) m)\<lparr>mipiCheck := True, pendingEvents := [], connectedIds := []\<rparr>)
       (ofold (process_event v dec ord) (pendingEvents m) m)"

definition SetDefaultScreenId :: "screen_id \<Rightarrow> 'd manager \<Rightarrow> 'd manager" where
  "SetDefaultScreenId i m = m\<lparr>defaultScreenId := i\<rparr>"

definition SetScreenMirror :: "screen_id \<Rightarrow> screen_id \<Rightarrow> 'd manager \<Rightarrow> 'd manager" where
  "SetScreenMirror i toMirror m =
     (case the_screen m i of None \<Rightarrow> m | Some s \<Rightarrow> set_screen i (SetMirror toMirror s) m)"

section \<open>Virtual screens\<close>

definition virtual_id :: "32 word \<Rightarrow> screen_id" where
  "virtual_id n = or (push_bit 32 (ucast n)) 0xffffffff"

definition GenerateVirtualScreenIdLocked :: "'d manager \<Rightarrow> screen_id \<times> 'd manager" where
  "GenerateVirtualScreenIdLocked m =
     (case freeVirtualScreenIds m of
        i # is \<Rightarrow> (i, m\<lparr>freeVirtualScreenIds := is\<rparr>)
      | [] \<Rightarrow> (virtual_id (maxVirtualScreenNum m), m\<lparr>maxVirtualScreenNum := maxVirtualScreenNum m + 1\<rparr>))"

definition ReuseVirtualScreenIdLocked :: "screen_id \<Rightarrow> 'd manager \<Rightarrow> 'd manager" where
  "ReuseVirtualScreenIdLocked i m = m\<lparr>freeVirtualScreenIds := freeVirtualScreenIds m @ [i]\<rparr>"

text \<open>Some virtual screen, but the excepted one, has the surface.\<close>

definition surface_used :: "64 word \<Rightarrow> screen_id option \<Rightarrow> 'd manager \<Rightarrow> bool" where
  "surface_used surface except m \<longleftrightarrow>
     list_ex (\<lambda>(i, s). isVirtual s \<and> Some i \<noteq> except \<and> producerSurface s = Some surface) (screens m)"

definition CreateVirtualScreen ::
    "('d, 'm) vendor_scheme \<Rightarrow> string \<Rightarrow> 32 word \<Rightarrow> 32 word \<Rightarrow> 64 word option \<Rightarrow> screen_id \<Rightarrow> 'd manager \<Rightarrow> screen_id \<times> 'd manager" where
  "CreateVirtualScreen v nm width height surface mirror m =
     (if (case surface of None \<Rightarrow> False | Some u \<Rightarrow> surface_used u None m) then (INVALID_SCREEN_ID, m)
      else
        (let (newId, m) = GenerateVirtualScreenIdLocked m
         in (newId, set_screen newId (new_RSScreen_virtual v newId mirror nm width height surface) m)))"

definition SetVirtualScreenSurface_gap ::
    "('d manager \<Rightarrow> 'd manager) \<Rightarrow> screen_id \<Rightarrow> 64 word option \<Rightarrow> 'd manager \<Rightarrow> (status_code \<times> 'd manager) option" where
  "SetVirtualScreenSurface_gap gap i surface m =
     (case surface of
        None \<Rightarrow> None
      | Some u \<Rightarrow>
          if surface_used u (Some i) m then Some (SURFACE_NOT_UNIQUE, m)
          else
            (let m = gap m
             in case the_screen m i of
                  None \<Rightarrow> None
                | Some s \<Rightarrow> Some (SUCCESS, set_screen i (SetProducerSurface surface s) m)))"

definition SetVirtualScreenSurface :: "screen_id \<Rightarrow> 64 word option \<Rightarrow> 'd manager \<Rightarrow> (status_code \<times> 'd manager) option" where
  "SetVirtualScreenSurface = SetVirtualScreenSurface_gap id"

text \<open>
  The loop over the other screens declares an \<open>id\<close> of its own: it compares each screen's mirror with that
  screen's id, not with the id removed.
\<close>

definition RemoveVirtualScreenLocked :: "screen_id \<Rightarrow> 'd manager \<Rightarrow> 'd manager" where
  "RemoveVirtualScreenLocked i m =
     (if \<not> om_has i (screens m) then m
      else
        (let m = m\<lparr>screens := om_del i (screens m)\<rparr>;
             m = m\<lparr>screens := map (\<lambda>(j, s). (j, if mirrorId s = j then SetMirror INVALID_SCREEN_ID s else s)) (screens m)\<rparr>
         in ReuseVirtualScreenIdLocked i m))"

definition RemoveVirtualScreen :: "screen_id \<Rightarrow> 'd manager \<Rightarrow> 'd manager" where
  "RemoveVirtualScreen = RemoveVirtualScreenLocked"

definition SetVirtualScreenResolution :: "screen_id \<Rightarrow> 32 word \<Rightarrow> 32 word \<Rightarrow> 'd manager \<Rightarrow> status_code \<times> 'd manager" where
  "SetVirtualScreenResolution i width height m =
     (case the_screen m i of
        None \<Rightarrow> (SCREEN_NOT_FOUND, m)
      | Some s \<Rightarrow> (SUCCESS, set_screen i (sc_SetResolution width height s) m))"

definition GetVirtualScreenResolution :: "screen_id \<Rightarrow> 32 word \<times> 32 word \<Rightarrow> 'd manager \<Rightarrow> 32 word \<times> 32 word" where
  "GetVirtualScreenResolution i r m = (case the_screen m i of None \<Rightarrow> r | Some s \<Rightarrow> (scr_width s, scr_height s))"

section \<open>Settings of a screen\<close>

definition sm_SetScreenActiveMode :: "('d, 'm) vendor_scheme \<Rightarrow> screen_id \<Rightarrow> 32 word \<Rightarrow> 'd manager \<Rightarrow> 'd manager" where
  "sm_SetScreenActiveMode v i modeId m =
     (case the_screen m i of
        None \<Rightarrow> m
      | Some s \<Rightarrow> (let (s, d) = sc_SetActiveMode v modeId s (driver m) in (set_screen i s m)\<lparr>driver := d\<rparr>))"

definition sm_SetScreenPowerStatus :: "('d, 'm) vendor_scheme \<Rightarrow> screen_id \<Rightarrow> 32 word \<Rightarrow> 'd manager \<Rightarrow> 'd manager" where
  "sm_SetScreenPowerStatus v i status m =
     (case the_screen m i of
        None \<Rightarrow> m
      | Some s \<Rightarrow>
          (let m = m\<lparr>driver := sc_SetPowerStatus v status s (driver m)\<rparr>
           in if status = POWER_STATUS_ON then m\<lparr>frames := Suc (frames m)\<rparr> else m))"

definition sm_GetScreenPowerStatus :: "('d, 'm) vendor_scheme \<Rightarrow> screen_id \<Rightarrow> 'd manager \<Rightarrow> 32 word" where
  "sm_GetScreenPowerStatus v i m =
     (case the_screen m i of None \<Rightarrow> INVALID_POWER_STATUS | Some s \<Rightarrow> sc_GetPowerStatus v s (driver m))"

record mode_info =
  info_width :: "32 word"
  info_height :: "32 word"
  info_rate :: "32 word"
  info_id :: int

definition GetScreenActiveMode :: "('d, 'm) vendor_scheme \<Rightarrow> screen_id \<Rightarrow> mode_info \<Rightarrow> 'd manager \<Rightarrow> mode_info" where
  "GetScreenActiveMode v i info m =
     (case the_screen m i of
        None \<Rightarrow> info
      | Some s \<Rightarrow>
          (case GetActiveMode v s (driver m) of
             None \<Rightarrow> info
           | Some mi \<Rightarrow>
               \<lparr>info_width = mode_width mi, info_height = mode_height mi, info_rate = freshRate mi,
                info_id = GetActiveModePosByModeId (mode_id mi) s\<rparr>))"

definition GetScreenSupportedModes :: "screen_id \<Rightarrow> 'd manager \<Rightarrow> mode_info list" where
  "GetScreenSupportedModes i m =
     (case the_screen m i of
        None \<Rightarrow> []
      | Some s \<Rightarrow>
          map (\<lambda>mi. \<lparr>info_width = mode_width mi, info_height = mode_height mi, info_rate = freshRate mi, info_id = sint (mode_id mi)\<rparr>)
            (supportedModes s))"

text \<open>\<open>blank\<close> is a default-constructed \<open>RSScreenCapability\<close>.\<close>

definition GetScreenCapability :: "capability \<Rightarrow> screen_id \<Rightarrow> 'd manager \<Rightarrow> capability" where
  "GetScreenCapability blank i m =
     (case the_screen m i of
        None \<Rightarrow> blank
      | Some s \<Rightarrow> if isVirtual s then blank\<lparr>cap_name := scr_name s\<rparr> else scr_capability s)"

record screen_data =
  sd_capability :: capability
  sd_mode :: mode_info
  sd_modes :: "mode_info list"
  sd_power :: "32 word"

text \<open>\<open>blank\<close> is the default-constructed \<open>RSScreenData\<close>, with a default capability and mode in it.\<close>

definition GetScreenData :: "('d, 'm) vendor_scheme \<Rightarrow> screen_data \<Rightarrow> screen_id \<Rightarrow> 'd manager \<Rightarrow> screen_data" where
  "GetScreenData v blank i m =
     (if \<not> om_has i (screens m) then blank
      else
        \<lparr>sd_capability = GetScreenCapability (sd_capability blank) i m,
         sd_mode = GetScreenActiveMode v i (sd_mode blank) m,
         sd_modes = GetScreenSupportedModes i m,
         sd_power = sm_GetScreenPowerStatus v i m\<rparr>)"

definition GetAllScreenIds :: "visit_order \<Rightarrow> 'd manager \<Rightarrow> screen_id list" where
  "GetAllScreenIds ord m = map fst (ord (screens m))"

definition sm_GetScreenBacklight :: "('d, 'm) vendor_scheme \<Rightarrow> screen_id \<Rightarrow> 'd manager \<Rightarrow> int" where
  "sm_GetScreenBacklight v i m =
     (case the_screen m i of None \<Rightarrow> INVALID_BACKLIGHT_VALUE | Some s \<Rightarrow> sc_GetScreenBacklight v s (driver m))"

definition sm_SetScreenBacklight :: "('d, 'm) vendor_scheme \<Rightarrow> screen_id \<Rightarrow> 32 word \<Rightarrow> 'd manager \<Rightarrow> 'd manager" where
  "sm_SetScreenBacklight v i level m =
     (case the_screen m i of None \<Rightarrow> m | Some s \<Rightarrow> m\<lparr>driver := sc_SetScreenBacklight v level s (driver m)\<rparr>)"

datatype screen_state = HDI_OUTPUT_ENABLE | PRODUCER_SURFACE_ENABLE | SCREEN_DISABLED | NOT_EXISTED | SCREEN_UNKNOWN

record screen_info =
  si_width :: "32 word"
  si_height :: "32 word"
  si_gamut :: "32 word"
  si_state :: screen_state
  si_matrix :: rot_matrix

definition new_ScreenInfo :: screen_info where
  "new_ScreenInfo = \<lparr>si_width = 0, si_height = 0, si_gamut = COLOR_GAMUT_SRGB, si_state = SCREEN_UNKNOWN, si_matrix = Identity\<rparr>"

definition QueryScreenInfo :: "('d, 'm) vendor_scheme \<Rightarrow> screen_id \<Rightarrow> 'd manager \<Rightarrow> screen_info option" where
  "QueryScreenInfo v i m =
     (case the_screen m i of
        None \<Rightarrow> Some new_ScreenInfo
      | Some s \<Rightarrow>
          map_option (\<lambda>(_, gamut).
            \<lparr>si_width = scr_width s, si_height = scr_height s, si_gamut = gamut,
             si_state = (if \<not> IsEnable s then SCREEN_DISABLED else if \<not> isVirtual s then HDI_OUTPUT_ENABLE else PRODUCER_SURFACE_ENABLE),
             si_matrix = rotationMatrix s\<rparr>)
            (sc_GetScreenColorGamut v s (si_gamut new_ScreenInfo)))"

definition sm_GetProducerSurface :: "screen_id \<Rightarrow> 'd manager \<Rightarrow> 64 word option option" where
  "sm_GetProducerSurface i m = map_option producerSurface (the_screen m i)"

definition GetOutput :: "screen_id \<Rightarrow> 'd manager \<Rightarrow> 32 word option option" where
  "GetOutput i m = map_option hdiOutput (the_screen m i)"

definition AddScreenChangeCallback :: "visit_order \<Rightarrow> nat option \<Rightarrow> 'd manager \<Rightarrow> status_code \<times> 'd manager" where
  "AddScreenChangeCallback ord callback m =
     (case callback of
        None \<Rightarrow> (INVALID_ARGUMENTS, m)
      | Some cb \<Rightarrow>
          (SUCCESS, m\<lparr>notified := notified m @ map (\<lambda>e. (cb, fst e, True)) (filter (\<lambda>e. \<not> isVirtual (snd e)) (ord (screens m))),
                      screenChangeCallbacks := screenChangeCallbacks m @ [cb]\<rparr>))"

definition RemoveScreenChangeCallback :: "nat \<Rightarrow> 'd manager \<Rightarrow> 'd manager" where
  "RemoveScreenChangeCallback cb m = m\<lparr>screenChangeCallbacks := remove1 cb (screenChangeCallbacks m)\<rparr>"

definition sm_GetScreenSupportedColorGamuts :: "('d, 'm) vendor_scheme \<Rightarrow> screen_id \<Rightarrow> 32 word list \<Rightarrow> 'd manager \<Rightarrow> status_code \<times> 32 word list" where
  "sm_GetScreenSupportedColorGamuts v i mode m =
     (case the_screen m i of None \<Rightarrow> (SCREEN_NOT_FOUND, mode) | Some s \<Rightarrow> sc_GetScreenSupportedColorGamuts v s mode)"

definition sm_GetScreenColorGamut :: "('d, 'm) vendor_scheme \<Rightarrow> screen_id \<Rightarrow> 32 word \<Rightarrow> 'd manager \<Rightarrow> (status_code \<times> 32 word) option" where
  "sm_GetScreenColorGamut v i mode m =
     (case the_screen m i of None \<Rightarrow> Some (SCREEN_NOT_FOUND, mode) | Some s \<Rightarrow> sc_GetScreenColorGamut v s mode)"

definition sm_SetScreenColorGamut :: "('d, 'm) vendor_scheme \<Rightarrow> screen_id \<Rightarrow> int \<Rightarrow> 'd manager \<Rightarrow> (status_code \<times> 'd manager) option" where
  "sm_SetScreenColorGamut v i modeIdx m =
     (case the_screen m i of
        None \<Rightarrow> Some (SCREEN_NOT_FOUND, m)
      | Some s \<Rightarrow> map_option (\<lambda>(r, s). (r, set_screen i s m)) (sc_SetScreenColorGamut v modeIdx s))"

definition sm_SetScreenGamutMap :: "('d, 'm) vendor_scheme \<Rightarrow> screen_id \<Rightarrow> 32 word \<Rightarrow> 'd manager \<Rightarrow> status_code \<times> 'd manager" where
  "sm_SetScreenGamutMap v i mode m =
     (case the_screen m i of
        None \<Rightarrow> (SCREEN_NOT_FOUND, m)
      | Some s \<Rightarrow> (let (r, s) = sc_SetScreenGamutMap v mode s in (r, set_screen i s m)))"

definition sm_GetScreenGamutMap :: "('d, 'm) vendor_scheme \<Rightarrow> screen_id \<Rightarrow> 32 word \<Rightarrow> 'd manager \<Rightarrow> status_code \<times> 32 word" where
  "sm_GetScreenGamutMap v i mode m =
     (case the_screen m i of None \<Rightarrow> (SCREEN_NOT_FOUND, mode) | Some s \<Rightarrow> sc_GetScreenGamutMap v s mode)"

definition RequestRotation :: "screen_id \<Rightarrow> screen_rotation \<Rightarrow> 'd manager \<Rightarrow> bool \<times> 'd manager" where
  "RequestRotation i r m =
     (case the_screen m i of
        None \<Rightarrow> (False, m)
      | Some s \<Rightarrow> (let (ok, s) = SetRotation r s in (ok, set_screen i s m)))"

definition GetRotation :: "screen_id \<Rightarrow> 'd manager \<Rightarrow> screen_rotation" where
  "GetRotation i m = (case the_screen m i of None \<Rightarrow> INVALID_SCREEN_ROTATION | Some s \<Rightarrow> rotation s)"

definition GetScreenHDRCapability :: "screen_id \<Rightarrow> hdr_capability \<Rightarrow> 'd manager \<Rightarrow> status_code \<times> hdr_capability" where
  "GetScreenHDRCapability i hdr m =
     (case the_screen m i of None \<Rightarrow> (SCREEN_NOT_FOUND, hdr) | Some s \<Rightarrow> (SUCCESS, hdrCapability s))"

definition GetScreenType :: "screen_id \<Rightarrow> screen_type \<Rightarrow> 'd manager \<Rightarrow> status_code \<times> screen_type" where
  "GetScreenType i ty m =
     (case the_screen m i of None \<Rightarrow> (SCREEN_NOT_FOUND, ty) | Some s \<Rightarrow> (SUCCESS, screenType s))"

end
