(* ===== verification/Screen_Manager_Inv.thy ===== *)
theory Screen_Manager_Inv
  imports Screen_Manager
begin

text \<open>
  The consistency of the screen manager's state and that every operation keeps it, as long as only virtual
  screens are removed as virtual screens and fewer than \<open>2 ^ 32 - 1\<close> virtual ids were made.
\<close>

section \<open>Ids\<close>

lemma drop_virtual_id: "drop_bit 32 (virtual_id n) = (ucast n :: 64 word)"
  by (rule bit_word_eqI) (auto simp: virtual_id_def bit_simps dest: bit_imp_le_length)

lemma ucast_ucast_up: "(ucast (ucast (n :: 32 word) :: 64 word) :: 32 word) = n"
  by (rule bit_word_eqI) (simp add: bit_simps)

lemma low_bits: "k < 32 \<Longrightarrow> bit (0xffffffff :: 64 word) k"
proof -
  have "(0xffffffff :: 64 word) = mask 32" by (simp add: mask_eq_exp_minus_1)
  then show "k < 32 \<Longrightarrow> bit (0xffffffff :: 64 word) k" by (simp only: bit_mask_iff) simp
qed

lemma virtual_id_inj: "virtual_id n = virtual_id k \<longleftrightarrow> n = k"
proof
  assume "virtual_id n = virtual_id k"
  then have "(ucast n :: 64 word) = ucast k" using drop_virtual_id by metis
  then have "(ucast (ucast n :: 64 word) :: 32 word) = ucast (ucast k :: 64 word)" by simp
  then show "n = k" 
    unfolding ucast_ucast_up .
qed simp

text \<open>The id of a physical screen. The driver does not use the number \<open>2 ^ 32 - 1\<close>, which is also virtual id 0.\<close>

definition physical :: "screen_id \<Rightarrow> bool" where
  "physical i \<longleftrightarrow> (\<exists>p. p \<noteq> - 1 \<and> i = ToScreenId p)"

lemma not_physical_virtual: "\<not> physical (virtual_id n)"
proof
  assume "physical (virtual_id n)"
  then obtain p :: "32 word" where p: "p \<noteq> - 1" "virtual_id n = ucast p" unfolding physical_def ToScreenId_def by blast
  have "p = - 1"
  proof (rule bit_word_eqI)
    fix k assume k: "k < LENGTH(32)"
    have "bit (virtual_id n) k" using low_bits[of k] k unfolding virtual_id_def bit_or_iff by simp
    then show "bit p k = bit (- 1 :: 32 word) k" using k by (simp add: p(2) bit_simps)
  qed
  then show False using p(1) by simp
qed

lemma virtual_id_invalid: "virtual_id n = INVALID_SCREEN_ID \<longleftrightarrow> n = - 1"
proof -
  have "virtual_id (- 1) = INVALID_SCREEN_ID" by (simp add: virtual_id_def INVALID_SCREEN_ID_def) code_simp
  then show ?thesis by (metis virtual_id_inj)
qed

lemma physical_valid: "physical i \<Longrightarrow> i \<noteq> INVALID_SCREEN_ID"
  using not_physical_virtual virtual_id_invalid by metis

section \<open>Consistency\<close>

definition virtual_ids :: "('d, 'm) manager_scheme \<Rightarrow> screen_id set" where
  "virtual_ids m = virtual_id ` {n. n < maxVirtualScreenNum m}"

lemma virtual_ids_cong: "maxVirtualScreenNum m' = maxVirtualScreenNum m \<Longrightarrow> virtual_ids m' = virtual_ids m"
  by (simp add: virtual_ids_def)

lemma virtual_ids_simps [simp]:
  "virtual_ids (screens_update f m) = virtual_ids m" "virtual_ids (freeVirtualScreenIds_update g m) = virtual_ids m"
  by (simp_all add: virtual_ids_def)

definition screen_ok :: "('d, 'm) manager_scheme \<Rightarrow> screen_id \<Rightarrow> screen \<Rightarrow> bool" where
  "screen_ok m i s \<longleftrightarrow> scr_id s = i \<and> (if isVirtual s then i \<in> virtual_ids m else physical i)"

definition surfaces_apart :: "(screen_id, screen) omap \<Rightarrow> bool" where
  "surfaces_apart ss \<longleftrightarrow> (\<forall>i s j t u. map_of ss i = Some s \<longrightarrow> map_of ss j = Some t \<longrightarrow> isVirtual s \<longrightarrow> isVirtual t \<longrightarrow>
     producerSurface s = Some u \<longrightarrow> producerSurface t = Some u \<longrightarrow> i = j)"

definition manager_ok :: "'d manager \<Rightarrow> bool" where
  "manager_ok m \<longleftrightarrow> om_wf (screens m) \<and> (\<forall>i s. the_screen m i = Some s \<longrightarrow> screen_ok m i s) \<and>
     distinct (freeVirtualScreenIds m) \<and> set (freeVirtualScreenIds m) \<subseteq> virtual_ids m \<and>
     (\<forall>i \<in> set (freeVirtualScreenIds m). the_screen m i = None) \<and> surfaces_apart (screens m) \<and>
     (\<forall>e \<in> set (pendingEvents m). \<exists>p. fst e = Some p \<and> p \<noteq> - 1)"

lemma manager_okD:
  assumes "manager_ok m"
  shows "om_wf (screens m)" and "the_screen m i = Some s \<Longrightarrow> screen_ok m i s" and "distinct (freeVirtualScreenIds m)"
    and "i \<in> set (freeVirtualScreenIds m) \<Longrightarrow> i \<in> virtual_ids m \<and> the_screen m i = None" and "surfaces_apart (screens m)"
    and "e \<in> set (pendingEvents m) \<Longrightarrow> \<exists>p. fst e = Some p \<and> p \<noteq> - 1"
  using assms unfolding manager_ok_def by blast+

text \<open>What does not touch the screens, the ids and the pending events keeps the consistency.\<close>

lemma manager_ok_cong:
  assumes "manager_ok m" and "screens m' = screens m" and "freeVirtualScreenIds m' = freeVirtualScreenIds m"
    and "maxVirtualScreenNum m' = maxVirtualScreenNum m" and "set (pendingEvents m') \<subseteq> set (pendingEvents m)"
  shows "manager_ok m'"
  using assms unfolding manager_ok_def screen_ok_def virtual_ids_def by auto

lemma surfaces_apart_same:
  assumes "surfaces_apart ss" and "map_of ss i = Some s" and "isVirtual s' = isVirtual s" and "producerSurface s' = producerSurface s"
  shows "surfaces_apart (om_put i s' ss)"
  using assms unfolding surfaces_apart_def by (auto split: if_splits)

lemma manager_ok_set:
  assumes ok: "manager_ok m" and s: "the_screen m i = Some s"
    and same: "scr_id s' = scr_id s" "isVirtual s' = isVirtual s" "producerSurface s' = producerSurface s"
  shows "manager_ok (set_screen i s' m)"
proof -
  have "screen_ok m i s'" using manager_okD(2)[OF ok s] same(1,2) by (simp add: screen_ok_def)
  then show ?thesis
    using manager_okD[OF ok] surfaces_apart_same[OF manager_okD(5)[OF ok] s same(2,3)] s
    unfolding manager_ok_def set_screen_def by (auto simp: screen_ok_def split: if_splits)
qed

lemma manager_ok_del:
  assumes ok: "manager_ok m"
  shows "manager_ok (m\<lparr>screens := om_del i (screens m)\<rparr>)"
  using manager_okD[OF ok] unfolding manager_ok_def surfaces_apart_def
  by (auto simp: screen_ok_def split: if_splits)

text \<open>A physical screen put in.\<close>

lemma manager_ok_physical:
  assumes ok: "manager_ok m" and "physical i" and "scr_id s = i" and "\<not> isVirtual s"
  shows "manager_ok (set_screen i s m)"
proof -
  have "i \<notin> virtual_ids m" using not_physical_virtual assms(2) by (auto simp: virtual_ids_def)
  then have "i \<notin> set (freeVirtualScreenIds m)" using manager_okD(4)[OF ok] by blast
  moreover have "surfaces_apart (om_put i s (screens m))"
    using manager_okD(5)[OF ok] assms(4) unfolding surfaces_apart_def by (auto split: if_splits)
  ultimately show ?thesis
    using manager_okD[OF ok] assms(2-4) unfolding manager_ok_def set_screen_def
    by (auto simp: screen_ok_def split: if_splits)
qed

section \<open>Every operation keeps it\<close>

lemma adopt_mode_same: "scr_id (adopt_mode mo s) = scr_id s \<and> isVirtual (adopt_mode mo s) = isVirtual s \<and>
    producerSurface (adopt_mode mo s) = producerSurface s \<and> hdiOutput (adopt_mode mo s) = hdiOutput s"
  by (simp add: adopt_mode_def split: option.split)

lemma PhysicalScreenInit_same:
  assumes "PhysicalScreenInit v s d = (s', d')"
  shows "scr_id s' = scr_id s \<and> isVirtual s' = isVirtual s \<and> producerSurface s' = producerSurface s \<and> hdiOutput s' = hdiOutput s"
  using assms by (auto simp: PhysicalScreenInit_def Let_def adopt_mode_same split: prod.splits)

lemma new_physical:
  assumes "new_RSScreen v dec i False output None d = (s, d')"
  shows "scr_id s = i" and "\<not> isVirtual s" and "producerSurface s = None" and "hdiOutput s = output"
  using PhysicalScreenInit_same[of v _ d s d'] assms by (auto simp: new_RSScreen_def blank_screen_def Let_def)

lemma manager_ok_simps [simp]:
  "manager_ok (m\<lparr>driver := d\<rparr>) = manager_ok m" "manager_ok (m\<lparr>defaultScreenId := i\<rparr>) = manager_ok m"
  "manager_ok (m\<lparr>mipiCheck := b\<rparr>) = manager_ok m" "manager_ok (m\<lparr>connectedIds := is\<rparr>) = manager_ok m"
  "manager_ok (m\<lparr>frames := n\<rparr>) = manager_ok m" "manager_ok (m\<lparr>screenChangeCallbacks := cbs\<rparr>) = manager_ok m"
  "manager_ok (m\<lparr>notified := l\<rparr>) = manager_ok m" "manager_ok (notify i b m) = manager_ok m"
  by (simp_all add: manager_ok_def screen_ok_def virtual_ids_def notify_def)

lemma notify_simps [simp]: "screens (notify i b m) = screens m" "pendingEvents (notify i b m) = pendingEvents m" "connectedIds (notify i b m) = connectedIds m"
  by (simp_all add: notify_def)

lemma pending_screens [simp]:
  "pendingEvents (set_screen i s m) = pendingEvents m" "screens (set_screen i s m) = om_put i s (screens m)"
  by (simp_all add: set_screen_def)

lemma Connected_ok:
  assumes ok: "manager_ok m" and o: "output = Some p" "p \<noteq> - 1"
  shows "manager_ok (ProcessScreenConnectedLocked v dec output m)"
proof -
  let ?i = "ToScreenId p"
  define m1 where "m1 = (if om_has ?i (screens m) then (notify ?i False m)\<lparr>screens := om_del ?i (screens m)\<rparr> else m)"
  have m1: "manager_ok m1"
    using ok manager_ok_del[of "notify ?i False m" ?i] by (simp add: m1_def)
  obtain s d where sd: "new_RSScreen v dec ?i False (Some p) None (driver m1) = (s, d)" by fastforce
  have "manager_ok (set_screen ?i s m1)"
    using manager_ok_physical[OF m1, of ?i s] new_physical[OF sd] o(2) by (auto simp: physical_def)
  then show ?thesis
    unfolding ProcessScreenConnectedLocked_def o(1) option.case m1_def[symmetric] Let_def sd prod.case by simp
qed

lemma Disconnected_ok:
  assumes ok: "manager_ok m" and o: "output = Some p"
  shows "\<exists>m'. ProcessScreenDisConnectedLocked ord output m = Some m' \<and> manager_ok m'"
proof -
  let ?i = "ToScreenId p"
  define m1 where "m1 = (if om_has ?i (screens m) then (notify ?i False m)\<lparr>screens := om_del ?i (screens m)\<rparr> else m)"
  have m1: "manager_ok m1"
    using ok manager_ok_del[of "notify ?i False m" ?i] by (simp add: m1_def)
  then show ?thesis
    unfolding ProcessScreenDisConnectedLocked_def o option.case m1_def[symmetric] Let_def
    by (simp add: HandleDefaultScreenDisConnectedLocked_def)
qed

lemma process_event_ok:
  assumes "manager_ok m" and "fst e = Some p" and "p \<noteq> - 1"
  shows "\<exists>m'. process_event v dec ord e m = Some m' \<and> manager_ok m'"
  using Connected_ok[OF assms, of v dec] Disconnected_ok[OF assms(1,2), of ord] by (simp add: process_event_def)

lemma process_events_ok:
  assumes "manager_ok m" and "\<forall>e \<in> set es. \<exists>p. fst e = Some p \<and> p \<noteq> - 1"
  shows "\<exists>m'. ofold (process_event v dec ord) es m = Some m' \<and> manager_ok m'"
  using assms
proof (induction es arbitrary: m)
  case (Cons e es)
  obtain p where p: "fst e = Some p" "p \<noteq> - 1" using Cons.prems(2) by auto
  obtain m1 where m1: "process_event v dec ord e m = Some m1" "manager_ok m1" using process_event_ok[OF Cons.prems(1) p] by blast
  then show ?case using Cons.IH[OF m1(2)] Cons.prems(2) by simp
qed simp

lemma HotPlug_ok:
  assumes "manager_ok m"
  shows "\<exists>m'. ProcessScreenHotPlugEvents v dec ord m = Some m' \<and> manager_ok m'"
proof -
  obtain m1 where m1: "ofold (process_event v dec ord) (pendingEvents m) m = Some m1" "manager_ok m1"
    using process_events_ok[OF assms] manager_okD(6)[OF assms] by blast
  have "manager_ok (fold (\<lambda>i. notify i True) is m1)" for "is"
    using m1(2) by (induction "is" arbitrary: m1) simp_all
  then have "manager_ok ((fold (\<lambda>i. notify i True) (connectedIds m1) m1)\<lparr>mipiCheck := True, pendingEvents := [], connectedIds := []\<rparr>)"
    by (rule manager_ok_cong) simp_all
  then show ?thesis by (simp add: ProcessScreenHotPlugEvents_def m1(1))
qed

lemma OnHotPlugEvent_ok:
  assumes "manager_ok m" and "output \<noteq> Some (- 1)"
  shows "manager_ok (OnHotPlugEvent output connected m)"
proof (cases "output")
  case (Some p)
  have "manager_ok (m\<lparr>pendingEvents := pendingEvents m @ [(output, connected)]\<rparr>)"
    using assms Some unfolding manager_ok_def screen_ok_def virtual_ids_def by auto
  then show ?thesis using Some by (simp add: OnHotPlugEvent_def)
qed (simp add: OnHotPlugEvent_def assms)

text \<open>A new virtual screen: its id is valid, of no screen, and made once.\<close>

lemma Generate_ok:
  assumes ok: "manager_ok m" and b: "maxVirtualScreenNum m < - 1" and g: "GenerateVirtualScreenIdLocked m = (i, m')"
  shows "i \<in> virtual_ids m'" and "the_screen m i = None" and "i \<notin> set (freeVirtualScreenIds m')" and "i \<noteq> INVALID_SCREEN_ID"
    and "manager_ok m'" and "screens m' = screens m"
proof -
  note D = manager_okD[OF ok]
  have inc: "n < maxVirtualScreenNum m + 1 \<longleftrightarrow> n \<le> maxVirtualScreenNum m" for n
  proof -
    have "1 + maxVirtualScreenNum m \<noteq> 0" using b by (auto simp: add_eq_0_iff)
    from unatSuc[OF this] show ?thesis by (simp add: word_less_nat_alt word_le_nat_alt add.commute less_Suc_eq_le)
  qed
  have "i \<in> virtual_ids m' \<and> the_screen m i = None \<and> i \<notin> set (freeVirtualScreenIds m') \<and> i \<noteq> INVALID_SCREEN_ID \<and>
      manager_ok m' \<and> screens m' = screens m"
  proof (cases "freeVirtualScreenIds m")
    case Nil
    then have m': "m' = m\<lparr>maxVirtualScreenNum := maxVirtualScreenNum m + 1\<rparr>" and i: "i = virtual_id (maxVirtualScreenNum m)"
      using g by (simp_all add: GenerateVirtualScreenIdLocked_def)
    have sub: "virtual_ids m \<subseteq> virtual_ids m'" by (auto simp: virtual_ids_def m' inc)
    have new: "i \<notin> virtual_ids m" by (auto simp: virtual_ids_def i virtual_id_inj)
    have "the_screen m i = None"
    proof (rule ccontr)
      assume "the_screen m i \<noteq> None"
      then obtain s where "the_screen m i = Some s" by auto
      from D(2)[OF this] new not_physical_virtual show False by (auto simp: screen_ok_def i split: if_splits)
    qed
    moreover have "manager_ok m'"
      using D sub unfolding manager_ok_def m' screen_ok_def by (auto simp: Nil split: if_splits)
    moreover have "i \<in> virtual_ids m'" by (simp add: virtual_ids_def m' i inc)
    moreover have "i \<noteq> INVALID_SCREEN_ID" using b by (auto simp: i virtual_id_invalid)
    ultimately show "i \<in> virtual_ids m' \<and> the_screen m i = None \<and> i \<notin> set (freeVirtualScreenIds m') \<and> i \<noteq> INVALID_SCREEN_ID \<and>
        manager_ok m' \<and> screens m' = screens m" by (simp add: m' Nil)
  next
    case (Cons j js)
    then have m': "m' = m\<lparr>freeVirtualScreenIds := js\<rparr>" and i: "i = j"
      using g by (simp_all add: GenerateVirtualScreenIdLocked_def)
    have "i \<in> virtual_ids m \<and> the_screen m i = None" using D(4)[of j] by (simp add: Cons i)
    moreover have "i \<notin> set js" using D(3) by (simp add: Cons i)
    moreover have "manager_ok m'" using D unfolding manager_ok_def m' screen_ok_def by (auto simp: Cons)
    moreover have "i \<noteq> INVALID_SCREEN_ID"
      using calculation(1) b by (auto simp: virtual_ids_def virtual_id_invalid)
    ultimately show "i \<in> virtual_ids m' \<and> the_screen m i = None \<and> i \<notin> set (freeVirtualScreenIds m') \<and> i \<noteq> INVALID_SCREEN_ID \<and>
        manager_ok m' \<and> screens m' = screens m" by (simp add: m')
  qed
  then show "i \<in> virtual_ids m'" and "the_screen m i = None" and "i \<notin> set (freeVirtualScreenIds m')" and "i \<noteq> INVALID_SCREEN_ID"
    and "manager_ok m'" and "screens m' = screens m" by blast+
qed

lemma surface_used_iff:
  assumes "manager_ok m"
  shows "surface_used u ex m \<longleftrightarrow> (\<exists>i s. the_screen m i = Some s \<and> isVirtual s \<and> Some i \<noteq> ex \<and> producerSurface s = Some u)"
proof -
  have "set (screens m) = {(i, s). the_screen m i = Some s}"
    using om_wf_distinct[OF manager_okD(1)[OF assms]] by (auto simp: map_of_eq_Some_iff)
  then show ?thesis by (auto simp: surface_used_def list_ex_iff)
qed

lemma Create_ok:
  assumes ok: "manager_ok m" and b: "maxVirtualScreenNum m < - 1"
    and c: "CreateVirtualScreen v nm w h surface mirror m = (i, m')"
  shows "manager_ok m' \<and> (i \<noteq> INVALID_SCREEN_ID \<longrightarrow> the_screen m i = None \<and> (\<exists>s. the_screen m' i = Some s \<and> isVirtual s))"
proof (cases "case surface of None \<Rightarrow> False | Some u \<Rightarrow> surface_used u None m")
  case True
  then show ?thesis using c ok by (simp add: CreateVirtualScreen_def)
next
  case False
  obtain j m1 where g: "GenerateVirtualScreenIdLocked m = (j, m1)" by fastforce
  note G = Generate_ok[OF ok b g]
  let ?s = "new_RSScreen_virtual v j mirror nm w h surface"
  have s: "scr_id ?s = j" "isVirtual ?s" "producerSurface ?s = surface" by (simp_all add: new_RSScreen_virtual_def blank_screen_def)
  have m': "m' = set_screen j ?s m1" "i = j" using c False g by (auto simp: CreateVirtualScreen_def)
  have "surfaces_apart (om_put j ?s (screens m))"
    using manager_okD(5)[OF ok] False s(3) surface_used_iff[OF ok, of _ None] unfolding surfaces_apart_def
    by (auto split: if_splits option.splits)
  then have "manager_ok m'"
    using manager_okD[OF G(5)] G s unfolding manager_ok_def m' set_screen_def by (auto simp: screen_ok_def)
  then show ?thesis using G(2,6) s(2) by (simp add: m')
qed

lemma SetSurface_ok:
  assumes ok: "manager_ok m" and c: "SetVirtualScreenSurface i surface m = Some (r, m')"
  shows "manager_ok m'"
proof -
  obtain u where u: "surface = Some u" using c by (cases surface) (auto simp: SetVirtualScreenSurface_def SetVirtualScreenSurface_gap_def)
  show ?thesis
  proof (cases "surface_used u (Some i) m")
    case True
    then show ?thesis using c ok by (simp add: SetVirtualScreenSurface_def SetVirtualScreenSurface_gap_def u)
  next
    case False
    then obtain s where s: "the_screen m i = Some s" and m': "m' = set_screen i (SetProducerSurface surface s) m"
      using c by (auto simp: SetVirtualScreenSurface_def SetVirtualScreenSurface_gap_def u split: option.splits)
    have "surfaces_apart (om_put i (SetProducerSurface surface s) (screens m))"
      using manager_okD(5)[OF ok] False s surface_used_iff[OF ok, of u "Some i"] unfolding surfaces_apart_def
      by (auto simp: SetProducerSurface_def u split: if_splits)
    moreover have "screen_ok m i (SetProducerSurface surface s)"
      using manager_okD(2)[OF ok s] by (simp add: screen_ok_def SetProducerSurface_def)
    ultimately show ?thesis
      using manager_okD[OF ok] s unfolding manager_ok_def m' set_screen_def by (auto simp: screen_ok_def split: if_splits)
  qed
qed

text \<open>A virtual screen removed.\<close>

lemma map_of_map_snd: "map_of (map (\<lambda>(j, s). (j, f j s)) m) i = map_option (f i) (map_of m i)"
  by (induction m) auto

lemma Remove_ok:
  assumes ok: "manager_ok m" and virt: "\<And>s. the_screen m i = Some s \<Longrightarrow> isVirtual s"
  shows "manager_ok (RemoveVirtualScreen i m)"
proof (cases "the_screen m i")
  case None
  then show ?thesis using ok by (simp add: RemoveVirtualScreen_def RemoveVirtualScreenLocked_def om_has_def)
next
  case (Some s)
  let ?f = "\<lambda>j s. if mirrorId s = j then SetMirror INVALID_SCREEN_ID s else s"
  define m1 where "m1 = m\<lparr>screens := om_del i (screens m)\<rparr>"
  define m2 where "m2 = m1\<lparr>screens := map (\<lambda>(j, s). (j, ?f j s)) (screens m1)\<rparr>"
  have m1: "manager_ok m1" unfolding m1_def by (rule manager_ok_del[OF ok])
  have look: "the_screen m2 j = map_option (?f j) (the_screen m1 j)" for j
    by (simp add: m2_def map_of_map_snd)
  have same: "scr_id (?f j t) = scr_id t" "isVirtual (?f j t) = isVirtual t" "producerSurface (?f j t) = producerSurface t" for j t
    by (simp_all add: SetMirror_def)
  have wf: "om_wf (screens m2)" using manager_okD(1)[OF m1] by (simp add: m2_def om_wf_def case_prod_beta comp_def)
  have ok2: "screen_ok m2 j t" if j: "the_screen m2 j = Some t" for j t
  proof -
    obtain t1 where t1: "the_screen m1 j = Some t1" "t = ?f j t1" using j unfolding look by (auto simp: map_option_eq_Some)
    have "virtual_ids m2 = virtual_ids m1" by (simp add: m2_def)
    then show ?thesis using manager_okD(2)[OF m1 t1(1)] unfolding screen_ok_def t1(2) same by simp
  qed
  have apart: "surfaces_apart (screens m2)"
    unfolding surfaces_apart_def
  proof (intro allI impI)
    fix j t k u w
    assume a: "the_screen m2 j = Some t" "the_screen m2 k = Some u" "isVirtual t" "isVirtual u"
      "producerSurface t = Some w" "producerSurface u = Some w"
    obtain t1 u1 where "the_screen m1 j = Some t1" "t = ?f j t1" "the_screen m1 k = Some u1" "u = ?f k u1"
      using a(1,2) unfolding look by (auto simp: map_option_eq_Some)
    then show "j = k" using manager_okD(5)[OF m1] a(3-6) unfolding surfaces_apart_def by (simp only: same)
  qed
  have ids: "i \<in> virtual_ids m" using manager_okD(2)[OF ok Some] virt[OF Some] by (simp add: screen_ok_def)
  have nf: "i \<notin> set (freeVirtualScreenIds m)" using manager_okD(4)[OF ok] Some by auto
  have free: "freeVirtualScreenIds m2 = freeVirtualScreenIds m" "virtual_ids m2 = virtual_ids m" "pendingEvents m2 = pendingEvents m"
      "freeVirtualScreenIds m1 = freeVirtualScreenIds m"
    by (simp_all add: m2_def m1_def)
  have gone: "the_screen m2 j = None" if "j = i \<or> the_screen m j = None" for j
    using that by (auto simp: look m1_def)
  have "RemoveVirtualScreen i m = m2\<lparr>freeVirtualScreenIds := freeVirtualScreenIds m @ [i]\<rparr>"
    using Some free by (simp add: RemoveVirtualScreen_def RemoveVirtualScreenLocked_def om_has_def Let_def m1_def[symmetric] m2_def[symmetric] ReuseVirtualScreenIdLocked_def)
  then show ?thesis
    using wf ok2 apart ids nf gone manager_okD[OF ok] free unfolding manager_ok_def by (auto simp: screen_ok_def)
qed

section \<open>Reachable managers\<close>

text \<open>Settings of a screen that exists.\<close>

datatype setting = Mirror screen_id | Resolution "32 word" "32 word" | Active_Mode "32 word" | Power "32 word" | Backlight "32 word"
  | Gamut int | Gamut_Map "32 word" | Rotate screen_rotation

fun apply_setting :: "('d, 'm) vendor_scheme \<Rightarrow> screen_id \<Rightarrow> setting \<Rightarrow> 'd manager \<Rightarrow> 'd manager option" where
  "apply_setting v i (Mirror j) m = Some (SetScreenMirror i j m)"
| "apply_setting v i (Resolution w h) m = Some (snd (SetVirtualScreenResolution i w h m))"
| "apply_setting v i (Active_Mode k) m = Some (sm_SetScreenActiveMode v i k m)"
| "apply_setting v i (Power p) m = Some (sm_SetScreenPowerStatus v i p m)"
| "apply_setting v i (Backlight l) m = Some (sm_SetScreenBacklight v i l m)"
| "apply_setting v i (Gamut k) m = map_option snd (sm_SetScreenColorGamut v i k m)"
| "apply_setting v i (Gamut_Map k) m = Some (snd (sm_SetScreenGamutMap v i k m))"
| "apply_setting v i (Rotate r) m = Some (snd (RequestRotation i r m))"

lemma SetActiveMode_same:
  assumes "sc_SetActiveMode v k s d = (s', d')"
  shows "scr_id s' = scr_id s \<and> isVirtual s' = isVirtual s \<and> producerSurface s' = producerSurface s"
  using assms by (auto simp: sc_SetActiveMode_def Let_def adopt_mode_same split: if_splits prod.splits)

lemma SetColorGamut_same:
  assumes "sc_SetScreenColorGamut v k s = Some (r, s')"
  shows "scr_id s' = scr_id s \<and> isVirtual s' = isVirtual s \<and> producerSurface s' = producerSurface s"
  using assms by (auto simp: sc_SetScreenColorGamut_def split: if_splits prod.splits option.splits)

lemma apply_setting_ok:
  assumes ok: "manager_ok m" and a: "apply_setting v i st m = Some m'"
  shows "manager_ok m'"
proof (cases "the_screen m i")
  case None
  then show ?thesis using a ok
    by (cases st) (auto simp: SetScreenMirror_def SetVirtualScreenResolution_def sm_SetScreenActiveMode_def sm_SetScreenPowerStatus_def
        sm_SetScreenBacklight_def sm_SetScreenColorGamut_def sm_SetScreenGamutMap_def RequestRotation_def)
next
  case (Some s)
  note set = manager_ok_set[OF ok Some]
  show ?thesis
  proof (cases st)
    case (Active_Mode k)
    obtain s1 d1 where sd: "sc_SetActiveMode v k s (driver m) = (s1, d1)" by fastforce
    show ?thesis using a set[of s1] SetActiveMode_same[OF sd] by (auto simp: Active_Mode sm_SetScreenActiveMode_def Some sd)
  next
    case (Gamut k)
    then show ?thesis using a set SetColorGamut_same[of v k s] by (auto simp: sm_SetScreenColorGamut_def Some)
  qed (use a set ok in \<open>auto simp: SetScreenMirror_def SetMirror_def SetVirtualScreenResolution_def sc_SetResolution_def
      sm_SetScreenPowerStatus_def sm_SetScreenBacklight_def sm_SetScreenGamutMap_def sc_SetScreenGamutMap_def RequestRotation_def
      SetRotation_def UpdateRotationMatrix_def Let_def Some split: if_splits\<close>)
qed

text \<open>
  The operations, one after the other. Ids are made for fewer than \<open>2^32 - 1\<close> virtual screens, the driver
  does not use the number \<open>2^32 - 1\<close>, and \<open>RemoveVirtualScreen\<close> is called with the id of a virtual screen or
  of none: the code accepts that of a physical one too, which breaks the separation of the ids
  (\<open>removed_physical_id_is_reused\<close>).
\<close>

inductive sm_step :: "('d, 'm) vendor_scheme \<Rightarrow> (screen_id \<Rightarrow> string) \<Rightarrow> visit_order \<Rightarrow> 'd manager \<Rightarrow> 'd manager \<Rightarrow> bool"
  for v dec ord where
  plug: "output \<noteq> Some (- 1) \<Longrightarrow> sm_step v dec ord m (OnHotPlugEvent output connected m)"
| process: "ProcessScreenHotPlugEvents v dec ord m = Some m' \<Longrightarrow> sm_step v dec ord m m'"
| create: "maxVirtualScreenNum m < - 1 \<Longrightarrow> CreateVirtualScreen v nm w h surface mirror m = (i, m') \<Longrightarrow> sm_step v dec ord m m'"
| surface: "SetVirtualScreenSurface i surface m = Some (r, m') \<Longrightarrow> sm_step v dec ord m m'"
| remove: "(\<And>s. the_screen m i = Some s \<Longrightarrow> isVirtual s) \<Longrightarrow> sm_step v dec ord m (RemoveVirtualScreen i m)"
| setting: "apply_setting v i st m = Some m' \<Longrightarrow> sm_step v dec ord m m'"
| default: "sm_step v dec ord m (SetDefaultScreenId i m)"
| listen: "AddScreenChangeCallback ord cb m = (r, m') \<Longrightarrow> sm_step v dec ord m m'"
| unlisten: "sm_step v dec ord m (RemoveScreenChangeCallback k m)"

inductive_cases sm_stepE: "sm_step v dec ord m m'"

definition sm_reachable :: "('d, 'm) vendor_scheme \<Rightarrow> (screen_id \<Rightarrow> string) \<Rightarrow> visit_order \<Rightarrow> 'd manager \<Rightarrow> bool" where
  "sm_reachable v dec ord m \<longleftrightarrow> (\<exists>d. (sm_step v dec ord)\<^sup>*\<^sup>* (new_manager d) m)"

lemma new_manager_ok: "manager_ok (new_manager d)"
  by (simp add: manager_ok_def new_manager_def surfaces_apart_def)

lemma sm_step_ok: "sm_step v dec ord m m' \<Longrightarrow> manager_ok m \<Longrightarrow> manager_ok m'"
proof (induction rule: sm_step.induct)
  case (process m m')
  then show ?case using HotPlug_ok[of m v dec ord] by auto
next
  case (create m nm w h surface mirror i m')
  then show ?case using Create_ok by blast
next
  case (listen cb m r m')
  show ?case by (rule manager_ok_cong[OF listen(2)]) (use listen(1) in \<open>auto simp: AddScreenChangeCallback_def split: option.splits\<close>)
next
  case (plug output' m connected)
  then show ?case by (blast intro: OnHotPlugEvent_ok)
next
  case (surface i su m r m')
  then show ?case by (blast intro: SetSurface_ok)
next
  case (remove m i)
  then show ?case by (blast intro: Remove_ok)
next
  case (setting i st m m')
  then show ?case by (blast intro: apply_setting_ok)
qed (simp_all add: SetDefaultScreenId_def RemoveScreenChangeCallback_def)

lemma sm_reachable_ok: "sm_reachable v dec ord m \<Longrightarrow> manager_ok m"
proof -
  assume "sm_reachable v dec ord m"
  then obtain d where "(sm_step v dec ord)\<^sup>*\<^sup>* (new_manager d) m" by (auto simp: sm_reachable_def)
  then show "manager_ok m" by (induction rule: rtranclp_induct) (auto simp: new_manager_ok sm_step_ok)
qed

end
