(* ===== verification/Screen_Props.thy ===== *)
theory Screen_Props
  imports Screen_Manager_Inv
begin

text \<open>The properties of the screen manager, with a driver that offers nothing but a built-in panel.\<close>

section \<open>A driver to show them on\<close>

definition panel_cap :: "capability \<Rightarrow> capability" where
  "panel_cap c = c\<lparr>cap_type := 9\<rparr>"

definition panel :: "unit vendor" where
  "panel = \<lparr>codes = \<lparr>DISPLAY_SUCCESS = 0, DISPLAY_FAILURE = -1, DISPLAY_FD_ERR = -2, DISPLAY_PARAM_ERR = -3, DISPLAY_NULL_PTR = -4,
       DISPLAY_NOT_SUPPORT = -5, DISPLAY_NOMEM = -6, DISPLAY_SYS_BUSY = -7, DISPLAY_NOT_PERM = -8,
       EBADF = 9, EINVAL = 22, EOPNOTSUPP = 95, ENOMEM = 12, EBUSY = 16, EPERM = 1\<rparr>,
     available = True, DISP_INTF_MIPI = 9, DISP_INTF_HDMI = 0, DISP_POWER_STATUS_ON = 0, HDI_COLOR_GAMUT_SRGB = 4, HDI_GAMUT_MAP_CONSTANT = 0,
     RegDisplayVBlankCallback = None, SetDisplayVsyncEnabled = None, GetDisplayCapability = Some (\<lambda>_ c _. (0, panel_cap c)),
     CountDisplayModes = None, FillDisplayModes = (\<lambda>_ _. (0, \<lambda>_. \<lparr>mode_width = 0, mode_height = 0, freshRate = 0, mode_id = 0\<rparr>)),
     GetDisplayMode = None, SetDisplayMode = None, GetDisplayPowerStatus = None, SetDisplayPowerStatus = None,
     GetDisplayBacklight = None, SetDisplayBacklight = None\<rparr>"

definition no_dec :: "screen_id \<Rightarrow> string" where "no_dec i = []"
definition as_stored :: visit_order where "as_stored ss = ss"

lemma reach_new: "sm_reachable v dec ord (new_manager d)"
  by (auto simp: sm_reachable_def)

lemma reach_step: "sm_reachable v dec ord m \<Longrightarrow> sm_step v dec ord m m' \<Longrightarrow> sm_reachable v dec ord m'"
  unfolding sm_reachable_def by (meson rtranclp.rtrancl_into_rtrancl)

text \<open>Two virtual screens, the second a mirror of the first.\<close>

definition pair1 :: "unit manager" where
  "pair1 = snd (CreateVirtualScreen panel ''a'' 720 1280 (Some 1) INVALID_SCREEN_ID (new_manager ()))"

definition pair2 :: "unit manager" where
  "pair2 = snd (CreateVirtualScreen panel ''b'' 720 1280 (Some 2) (virtual_id 0) pair1)"

lemma reach_create:
  assumes "sm_reachable v dec ord m" and "maxVirtualScreenNum m < - 1"
  shows "sm_reachable v dec ord (snd (CreateVirtualScreen v nm w h surface mirror m))"
proof -
  obtain i m' where c: "CreateVirtualScreen v nm w h surface mirror m = (i, m')" by fastforce
  show ?thesis using reach_step[OF assms(1) sm_step.create[OF assms(2) c]] by (simp add: c)
qed

lemma generate_new: "GenerateVirtualScreenIdLocked (new_manager d) = (virtual_id 0, (new_manager d)\<lparr>maxVirtualScreenNum := 1\<rparr>)"
  by (simp add: GenerateVirtualScreenIdLocked_def new_manager_def)

lemma pair1_create:
  "CreateVirtualScreen panel ''a'' 720 1280 (Some 1) INVALID_SCREEN_ID (new_manager ()) = (virtual_id 0, pair1)"
  by (simp add: pair1_def CreateVirtualScreen_def generate_new surface_used_def) (simp add: new_manager_def)

lemma pair1_fields: "maxVirtualScreenNum pair1 = 1" "freeVirtualScreenIds pair1 = []"
    "the_screen pair1 i = (if i = virtual_id 0
       then Some (new_RSScreen_virtual panel (virtual_id 0) INVALID_SCREEN_ID ''a'' 720 1280 (Some 1)) else None)"
  by (simp_all add: pair1_def CreateVirtualScreen_def generate_new set_screen_def surface_used_def) (simp_all add: new_manager_def)

lemma below_bound: "(0::32 word) < - 1" "(1::32 word) < - 1"
  by code_simp+

lemma pair_reachable: "sm_reachable panel no_dec as_stored pair1" "sm_reachable panel no_dec as_stored pair2"
proof -
  show p1: "sm_reachable panel no_dec as_stored pair1"
    unfolding pair1_def by (rule reach_create[OF reach_new]) (simp add: new_manager_def below_bound)
  show "sm_reachable panel no_dec as_stored pair2"
    unfolding pair2_def by (rule reach_create[OF p1]) (simp add: pair1_fields below_bound)
qed

lemma virtual_ids_differ [simp]: "virtual_id 1 \<noteq> virtual_id 0" "virtual_id 0 \<noteq> virtual_id 1"
  by (simp_all add: virtual_id_inj)

abbreviation second :: screen where
  "second \<equiv> new_RSScreen_virtual panel (virtual_id 1) (virtual_id 0) ''b'' 720 1280 (Some 2)"

lemma create_second:
  "CreateVirtualScreen panel ''b'' 720 1280 (Some 2) (virtual_id 0) pair1 = (virtual_id 1, pair2)"
  "pair2 = set_screen (virtual_id 1) second (pair1\<lparr>maxVirtualScreenNum := 2\<rparr>)"
proof -
  have "\<not> surface_used 2 None pair1"
    using surface_used_iff[OF sm_reachable_ok[OF pair_reachable(1)], of 2 None]
    by (simp add: pair1_fields new_RSScreen_virtual_def)
  then have "CreateVirtualScreen panel ''b'' 720 1280 (Some 2) (virtual_id 0) pair1 =
      (virtual_id 1, set_screen (virtual_id 1) second (pair1\<lparr>maxVirtualScreenNum := 2\<rparr>))"
    by (simp add: CreateVirtualScreen_def GenerateVirtualScreenIdLocked_def pair1_fields)
  then show "CreateVirtualScreen panel ''b'' 720 1280 (Some 2) (virtual_id 0) pair1 = (virtual_id 1, pair2)"
    and "pair2 = set_screen (virtual_id 1) second (pair1\<lparr>maxVirtualScreenNum := 2\<rparr>)"
    by (simp_all add: pair2_def)
qed

lemma pair2_screen: "the_screen pair2 i = (if i = virtual_id 1 then Some second else the_screen pair1 i)"
  by (simp add: create_second(2) set_screen_def)

section \<open>Consistency\<close>

text \<open>
  C9. In every manager reached by operations one after the other in which \<open>RemoveVirtualScreen\<close> is never
  called with the id of a physical screen, fewer than \<open>2^32 - 1\<close> virtual ids are made and the driver does not
  use the number \<open>2^32 - 1\<close>: each screen is stored under its own id, the ids of virtual and physical
  screens are apart, no two virtual screens share a surface, and the ids kept for reuse are of no screen.
  So a virtual screen that is created never takes the place of another screen.
\<close>

theorem screen_manager_consistent:
  assumes "sm_reachable v dec ord m"
  shows "(\<forall>i s. the_screen m i = Some s \<longrightarrow> scr_id s = i \<and> isVirtual s = (i \<in> range virtual_id)) \<and>
    (\<forall>i s j t u. the_screen m i = Some s \<longrightarrow> the_screen m j = Some t \<longrightarrow> isVirtual s \<longrightarrow> isVirtual t \<longrightarrow>
       producerSurface s = Some u \<longrightarrow> producerSurface t = Some u \<longrightarrow> i = j) \<and>
    distinct (freeVirtualScreenIds m) \<and> (\<forall>i \<in> set (freeVirtualScreenIds m). the_screen m i = None) \<and>
    (maxVirtualScreenNum m < - 1 \<longrightarrow> CreateVirtualScreen v nm w h surface mirror m = (i, m') \<longrightarrow>
       i \<noteq> INVALID_SCREEN_ID \<longrightarrow> the_screen m i = None \<and> (\<exists>s. the_screen m' i = Some s \<and> isVirtual s) \<and>
       (\<forall>j. j \<noteq> i \<longrightarrow> the_screen m' j = the_screen m j))"
proof (intro conjI)
  note ok = sm_reachable_ok[OF assms]
  have "isVirtual s = (i \<in> range virtual_id)" if "the_screen m i = Some s" for i s
    using manager_okD(2)[OF ok that] not_physical_virtual by (auto simp: screen_ok_def virtual_ids_def split: if_splits)
  then show "\<forall>i s. the_screen m i = Some s \<longrightarrow> scr_id s = i \<and> isVirtual s = (i \<in> range virtual_id)"
    using manager_okD(2)[OF ok] by (auto simp: screen_ok_def)
  show "\<forall>i s j t u. the_screen m i = Some s \<longrightarrow> the_screen m j = Some t \<longrightarrow> isVirtual s \<longrightarrow> isVirtual t \<longrightarrow>
       producerSurface s = Some u \<longrightarrow> producerSurface t = Some u \<longrightarrow> i = j"
    using manager_okD(5)[OF ok] unfolding surfaces_apart_def .
  show "distinct (freeVirtualScreenIds m)" using manager_okD(3)[OF ok] .
  show "\<forall>i \<in> set (freeVirtualScreenIds m). the_screen m i = None" using manager_okD(4)[OF ok] by blast
  show "maxVirtualScreenNum m < - 1 \<longrightarrow> CreateVirtualScreen v nm w h surface mirror m = (i, m') \<longrightarrow>
       i \<noteq> INVALID_SCREEN_ID \<longrightarrow> the_screen m i = None \<and> (\<exists>s. the_screen m' i = Some s \<and> isVirtual s) \<and>
       (\<forall>j. j \<noteq> i \<longrightarrow> the_screen m' j = the_screen m j)"
  proof (intro impI)
    assume b: "maxVirtualScreenNum m < - 1" and c: "CreateVirtualScreen v nm w h surface mirror m = (i, m')" and i: "i \<noteq> INVALID_SCREEN_ID"
    have "the_screen m' j = the_screen m j" if "j \<noteq> i" for j
      using c i that by (auto simp: CreateVirtualScreen_def GenerateVirtualScreenIdLocked_def split: if_splits list.splits prod.splits)
    then show "the_screen m i = None \<and> (\<exists>s. the_screen m' i = Some s \<and> isVirtual s) \<and> (\<forall>j. j \<noteq> i \<longrightarrow> the_screen m' j = the_screen m j)"
      using Create_ok[OF ok b c] i by blast
  qed
qed

theorem screen_manager_consistent_witness:
  "the_screen pair1 (virtual_id 1) = None"
proof -
  have "maxVirtualScreenNum pair1 < - 1" by (simp add: pair1_fields below_bound)
  moreover have "virtual_id 1 \<noteq> INVALID_SCREEN_ID" by (simp add: virtual_id_invalid)
  ultimately show ?thesis
    using screen_manager_consistent[OF pair_reachable(1), of "''b''" 720 1280 "Some 2" "virtual_id 0" "virtual_id 1" pair2]
    using create_second(1) by blast
qed

section \<open>Hot plugging\<close>

definition last_event :: "32 word \<Rightarrow> (32 word option \<times> bool) list \<Rightarrow> bool option" where
  "last_event p es = map_option snd (find (\<lambda>e. fst e = Some p) (rev es))"

lemma ToScreenId_inj: "ToScreenId p = ToScreenId q \<longleftrightarrow> p = q"
  by (metis ToScreenId_def ucast_ucast_up)

lemma last_event_snoc: "last_event p (es @ [e]) = (if fst e = Some p then Some (snd e) else last_event p es)"
  by (simp add: last_event_def)

lemma Connected_screens:
  "the_screen (ProcessScreenConnectedLocked v dec (Some q) m) i =
     (if i = ToScreenId q then Some (fst (new_RSScreen v dec i False (Some q) None (driver m))) else the_screen m i)"
  by (auto simp: ProcessScreenConnectedLocked_def Let_def notify_def om_has_def set_screen_def split: prod.splits)

lemma Disconnected_screens:
  "ProcessScreenDisConnectedLocked ord (Some q) m = Some m' \<Longrightarrow> the_screen m' i = (if i = ToScreenId q then None else the_screen m i)"
  by (auto simp: ProcessScreenDisConnectedLocked_def Let_def notify_def om_has_def HandleDefaultScreenDisConnectedLocked_def)

lemma process_events_screens:
  assumes "ofold (process_event v dec ord) es m = Some m'" and "\<forall>e \<in> set es. fst e \<noteq> None"
  shows "(the_screen m' (ToScreenId p) \<noteq> None \<longleftrightarrow>
      (case last_event p es of None \<Rightarrow> the_screen m (ToScreenId p) \<noteq> None | Some c \<Rightarrow> c)) \<and>
    (\<forall>i. i \<notin> range ToScreenId \<longrightarrow> the_screen m' i = the_screen m i)"
  using assms
proof (induction es arbitrary: m' rule: rev_induct)
  case Nil
  then show ?case by (simp add: last_event_def)
next
  case (snoc e es)
  obtain m1 where m1: "ofold (process_event v dec ord) es m = Some m1" "process_event v dec ord e m1 = Some m'"
    using snoc.prems(1) by (auto simp: ofold_append bind_eq_Some_conv)
  obtain q where q: "fst e = Some q" using snoc.prems(2) by auto
  note IH = snoc.IH[OF m1(1)]
  show ?case
  proof (cases "snd e")
    case True
    then have "m' = ProcessScreenConnectedLocked v dec (Some q) m1" using m1(2) q by (simp add: process_event_def)
    then show ?thesis using IH snoc.prems(2) q True by (auto simp: last_event_snoc Connected_screens ToScreenId_inj)
  next
    case False
    then have "ProcessScreenDisConnectedLocked ord (Some q) m1 = Some m'" using m1(2) q by (simp add: process_event_def)
    from Disconnected_screens[OF this] show ?thesis using IH snoc.prems(2) q False by (auto simp: last_event_snoc ToScreenId_inj)
  qed
qed

lemma notify_default [simp]: "defaultScreenId (notify i b m) = defaultScreenId m"
    "screenChangeCallbacks (notify i b m) = screenChangeCallbacks m" "mipiCheck (notify i b m) = mipiCheck m" "driver (notify i b m) = driver m"
  by (simp_all add: notify_def)

lemma notify_all_screens: "screens (fold (\<lambda>i. notify i True) is m) = screens m"
  by (induction "is" arbitrary: m) simp_all

text \<open>
  C15. Processing the pending hot-plug events of a reachable manager always succeeds; afterwards a
  physical screen is there exactly when its last event connected it, or when it was there and had no
  event. Virtual screens are untouched and no event is left.
\<close>

theorem hotplug_batch_outcome:
  assumes "sm_reachable v dec ord m"
  shows "\<exists>m'. ProcessScreenHotPlugEvents v dec ord m = Some m' \<and> pendingEvents m' = [] \<and>
    (\<forall>p. the_screen m' (ToScreenId p) \<noteq> None \<longleftrightarrow>
      (case last_event p (pendingEvents m) of None \<Rightarrow> the_screen m (ToScreenId p) \<noteq> None | Some c \<Rightarrow> c)) \<and>
    (\<forall>i. i \<notin> range ToScreenId \<longrightarrow> the_screen m' i = the_screen m i)"
proof -
  note ok = sm_reachable_ok[OF assms]
  obtain m1 where m1: "ofold (process_event v dec ord) (pendingEvents m) m = Some m1"
    using process_events_ok[OF ok, of "pendingEvents m" v dec ord] manager_okD(6)[OF ok] by blast
  have "\<forall>e \<in> set (pendingEvents m). fst e \<noteq> None" using manager_okD(6)[OF ok] by force
  note E = process_events_screens[OF m1 this]
  show ?thesis
    using E by (simp add: ProcessScreenHotPlugEvents_def m1 notify_all_screens)
qed

text \<open>A listener, and the built-in panel plugged, or plugged and unplugged at once.\<close>

definition listening :: "unit manager" where
  "listening = snd (AddScreenChangeCallback as_stored (Some 5) (new_manager ()))"

definition blink :: "unit manager" where
  "blink = OnHotPlugEvent (Some 3) False (OnHotPlugEvent (Some 3) True listening)"

lemma listening_fields:
  "screens listening = []" "screenChangeCallbacks listening = [5]" "connectedIds listening = []" "pendingEvents listening = []"
  "mipiCheck listening = False" "defaultScreenId listening = INVALID_SCREEN_ID" "notified listening = []"
  by (simp_all add: listening_def AddScreenChangeCallback_def new_manager_def as_stored_def)

lemma listening_reachable: "sm_reachable panel no_dec as_stored listening"
proof -
  obtain r where "AddScreenChangeCallback as_stored (Some 5) (new_manager ()) = (r, listening)"
    by (simp add: listening_def prod_eq_iff)
  then show ?thesis by (rule reach_step[OF reach_new sm_step.listen])
qed

lemma blink_fields:
  "screens blink = []" "pendingEvents blink = [(Some 3, True), (Some 3, False)]" "connectedIds blink = []" "screenChangeCallbacks blink = [5]"
  by (simp_all add: blink_def OnHotPlugEvent_def listening_fields)

lemma blink_reachable: "sm_reachable panel no_dec as_stored blink"
  unfolding blink_def
  by (rule reach_step[OF reach_step[OF listening_reachable sm_step.plug] sm_step.plug]) simp_all

theorem hotplug_batch_outcome_witness:
  "\<exists>m'. ProcessScreenHotPlugEvents panel no_dec as_stored blink = Some m' \<and> the_screen m' (ToScreenId 3) = None"
  using hotplug_batch_outcome[OF blink_reachable] by (auto simp: blink_fields last_event_def)

text \<open>
  When a screen is unplugged and was the default, a physical screen that is left becomes the default,
  else a virtual one, else none; when it was not, the default stays. The visiting order of the map does
  not matter to this.
\<close>

theorem default_after_disconnect:
  assumes "sm_reachable v dec ord m" and perm: "\<And>ss. set (ord ss) = set ss"
    and d: "ProcessScreenDisConnectedLocked ord (Some p) m = Some m'"
  shows "if defaultScreenId m \<noteq> ToScreenId p then defaultScreenId m' = defaultScreenId m
    else if \<exists>i s. the_screen m' i = Some s \<and> \<not> isVirtual s
      then \<exists>s. the_screen m' (defaultScreenId m') = Some s \<and> \<not> isVirtual s
    else if \<exists>i. the_screen m' i \<noteq> None then the_screen m' (defaultScreenId m') \<noteq> None
    else defaultScreenId m' = INVALID_SCREEN_ID"
proof (cases "defaultScreenId m = ToScreenId p")
  case False
  then show ?thesis using d by (auto simp: ProcessScreenDisConnectedLocked_def Let_def notify_def split: if_splits)
next
  case True
  define m1 where "m1 = (if om_has (ToScreenId p) (screens m) then (notify (ToScreenId p) False m)\<lparr>screens := om_del (ToScreenId p) (screens m)\<rparr> else m)"
  have m': "m' = HandleDefaultScreenDisConnectedLocked ord m1"
    using d True by (cases "om_has (ToScreenId p) (screens m)") (simp_all add: ProcessScreenDisConnectedLocked_def m1_def Let_def)
  have "om_wf (screens m1)" using manager_okD(1)[OF sm_reachable_ok[OF assms(1)]] by (simp add: m1_def)
  then have mem: "(i, s) \<in> set (ord (screens m1)) \<longleftrightarrow> the_screen m1 i = Some s" for i s
    by (simp add: perm map_of_eq_Some_iff om_wf_distinct)
  have same: "the_screen m' i = the_screen m1 i" for i by (simp add: m' HandleDefaultScreenDisConnectedLocked_def)
  show ?thesis
  proof (cases "find (\<lambda>e. \<not> isVirtual (snd e)) (ord (screens m1))")
    case None
    then have virt: "\<not> (\<exists>i s. the_screen m1 i = Some s \<and> \<not> isVirtual s)" using mem by (auto simp: find_None_iff)
    show ?thesis
    proof (cases "ord (screens m1)")
      case Nil
      then have "the_screen m1 i = None" for i using mem[of i] by (cases "the_screen m1 i") auto
      then show ?thesis using True virt None Nil by (simp add: same) (simp add: m' HandleDefaultScreenDisConnectedLocked_def)
    next
      case (Cons e es)
      then have "the_screen m1 (fst e) = Some (snd e)" using mem[of "fst e" "snd e"] by simp
      then show ?thesis using True virt None Cons by (auto simp: same m' HandleDefaultScreenDisConnectedLocked_def)
    qed
  next
    case (Some e)
    then have "e \<in> set (ord (screens m1))" "\<not> isVirtual (snd e)" by (auto simp: find_Some_iff)
    then have "the_screen m1 (fst e) = Some (snd e)" using mem[of "fst e" "snd e"] by simp
    moreover have "defaultScreenId m' = fst e" using Some by (simp add: m' HandleDefaultScreenDisConnectedLocked_def)
    ultimately have "\<exists>s. the_screen m' (defaultScreenId m') = Some s \<and> \<not> isVirtual s"
      using \<open>\<not> isVirtual (snd e)\<close> by (simp add: same)
    then show ?thesis using True by auto
  qed
qed

definition chosen :: "unit manager" where
  "chosen = SetDefaultScreenId (ToScreenId 3) pair1"

theorem default_after_disconnect_witness:
  "\<exists>m'. ProcessScreenDisConnectedLocked as_stored (Some 3) chosen = Some m' \<and> the_screen m' (defaultScreenId m') \<noteq> None"
proof -
  have r: "sm_reachable panel no_dec as_stored chosen"
    unfolding chosen_def by (rule reach_step[OF pair_reachable(1) sm_step.default])
  have ids: "ToScreenId 3 \<noteq> virtual_id 0" using not_physical_virtual[of 0] unfolding physical_def by (auto dest!: spec[of _ 3])
  obtain m' where d: "ProcessScreenDisConnectedLocked as_stored (Some 3) chosen = Some m'"
    by (simp add: ProcessScreenDisConnectedLocked_def Let_def)
  have "the_screen m' i = (if i = ToScreenId 3 then None else the_screen pair1 i)" for i
    using Disconnected_screens[OF d] by (simp add: chosen_def SetDefaultScreenId_def)
  then have "the_screen m' (virtual_id 0) \<noteq> None" "\<not> (\<exists>i s. the_screen m' i = Some s \<and> \<not> isVirtual s)"
    using ids by (auto simp: pair1_fields new_RSScreen_virtual_def split: if_splits)
  moreover have "defaultScreenId chosen = ToScreenId 3" by (simp add: chosen_def SetDefaultScreenId_def)
  ultimately have "the_screen m' (defaultScreenId m') \<noteq> None"
    using default_after_disconnect[OF r _ d] by (auto simp: as_stored_def split: if_splits)
  then show ?thesis using d by blast
qed

section \<open>Where the code departs from what it promises\<close>

text \<open>
  Removing a screen leaves the screens that mirror it as they are, their mirror id now of no screen;
  only a screen that mirrors itself is reset. (The loop means to reset the mirrors of the screen removed.)
\<close>

theorem removed_screen_stays_mirrored:
  assumes "the_screen m i = Some r" and "j \<noteq> i" and "the_screen m j = Some s"
  shows "the_screen (RemoveVirtualScreen i m) i = None \<and>
    the_screen (RemoveVirtualScreen i m) j = Some (if mirrorId s = j then SetMirror INVALID_SCREEN_ID s else s) \<and>
    (mirrorId s = i \<longrightarrow> map_option mirrorId (the_screen (RemoveVirtualScreen i m) j) = Some i)"
  using assms
  by (simp add: RemoveVirtualScreen_def RemoveVirtualScreenLocked_def om_has_def ReuseVirtualScreenIdLocked_def Let_def map_of_map_snd)

theorem removed_screen_stays_mirrored_witness:
  "map_option mirrorId (the_screen (RemoveVirtualScreen (virtual_id 0) pair2) (virtual_id 1)) = Some (virtual_id 0)"
proof -
  have "the_screen pair2 (virtual_id 1) = Some second" by (simp add: pair2_screen)
  moreover obtain r where "the_screen pair2 (virtual_id 0) = Some r" by (simp add: pair2_screen pair1_fields)
  moreover have "mirrorId second = virtual_id 0" by (simp add: new_RSScreen_virtual_def)
  ultimately show ?thesis using removed_screen_stays_mirrored[of pair2 "virtual_id 0" r "virtual_id 1" second] by simp
qed

text \<open>
  A screen plugged and unplugged before the events are processed is gone afterwards, and yet the last
  call of every listener says that it is connected.
\<close>

theorem unplugged_screen_reported_connected:
  assumes "pendingEvents m = [(Some p, True), (Some p, False)]" and "connectedIds m = []" and "cb \<in> set (screenChangeCallbacks m)"
  shows "\<exists>m' calls. ProcessScreenHotPlugEvents v dec ord m = Some m' \<and> the_screen m' (ToScreenId p) = None \<and>
    notified m' = calls @ map (\<lambda>c. (c, ToScreenId p, True)) (screenChangeCallbacks m) \<and> (cb, ToScreenId p, True) \<in> set (notified m')"
proof -
  obtain m1 where m1: "ProcessScreenConnectedLocked v dec (Some p) m = m1" by simp
  obtain m2 where m2: "ProcessScreenDisConnectedLocked ord (Some p) m1 = Some m2" by (simp add: ProcessScreenDisConnectedLocked_def Let_def)
  have "connectedIds m1 = [ToScreenId p]" "screenChangeCallbacks m1 = screenChangeCallbacks m"
    using assms(2) m1[symmetric] by (auto simp: ProcessScreenConnectedLocked_def Let_def set_screen_def split: prod.splits)
  then have m2': "connectedIds m2 = [ToScreenId p]" "screenChangeCallbacks m2 = screenChangeCallbacks m"
    using m2 by (auto simp: ProcessScreenDisConnectedLocked_def Let_def HandleDefaultScreenDisConnectedLocked_def split: if_splits)
  have "ProcessScreenHotPlugEvents v dec ord m =
      Some ((notify (ToScreenId p) True m2)\<lparr>mipiCheck := True, pendingEvents := [], connectedIds := []\<rparr>)"
    by (simp add: ProcessScreenHotPlugEvents_def assms(1) process_event_def m1 m2 m2')
  then show ?thesis
    using Disconnected_screens[OF m2, of "ToScreenId p"] assms(3) by (auto simp: notify_def m2')
qed

theorem unplugged_screen_reported_connected_witness:
  "\<exists>m'. ProcessScreenHotPlugEvents panel no_dec as_stored blink = Some m' \<and> the_screen m' (ToScreenId 3) = None \<and>
    (5, ToScreenId 3, True) \<in> set (notified m')"
  using unplugged_screen_reported_connected[of blink 3 5 panel no_dec as_stored] by (auto simp: blink_fields)

text \<open>
  After the first batch of events a built-in screen no longer becomes the default, even when there is no
  default: unplugged and plugged again, it leaves the service without a default screen.
\<close>

lemma later_builtin_screen_is_no_default:
  assumes "mipiCheck m" and "cap_type (scr_capability (fst (new_RSScreen v dec (ToScreenId p) False (Some p) None (driver m)))) = DISP_INTF_MIPI v"
  shows "defaultScreenId (ProcessScreenConnectedLocked v dec (Some p) m) = defaultScreenId m \<and>
    the_screen (ProcessScreenConnectedLocked v dec (Some p) m) (ToScreenId p) \<noteq> None"
  using assms by (auto simp: ProcessScreenConnectedLocked_def Let_def set_screen_def split: prod.splits)

text \<open>Removing a physical screen as if it were virtual puts its id among the ids to hand out next.\<close>

lemma removed_physical_id_is_reused:
  assumes "the_screen m i = Some s" and "freeVirtualScreenIds m = []"
  shows "fst (GenerateVirtualScreenIdLocked (RemoveVirtualScreen i m)) = i"
  using assms by (simp add: RemoveVirtualScreen_def RemoveVirtualScreenLocked_def om_has_def ReuseVirtualScreenIdLocked_def
      GenerateVirtualScreenIdLocked_def Let_def)

text \<open>
  \<open>SetVirtualScreenSurface\<close> takes no lock: when another thread gives the same surface to another screen
  between its check and its store, both succeed and two virtual screens share the surface.
\<close>

lemma unlocked_surface_is_shared:
  assumes "the_screen m i = Some s" and "the_screen m j = Some t" and "i \<noteq> j"
    and "\<not> surface_used u (Some i) m" and "\<not> surface_used u (Some j) m"
  shows "\<exists>m1 m2 s2 t2. SetVirtualScreenSurface j (Some u) m = Some (SUCCESS, m1) \<and>
    SetVirtualScreenSurface_gap (\<lambda>_. m1) i (Some u) m = Some (SUCCESS, m2) \<and>
    the_screen m2 i = Some s2 \<and> the_screen m2 j = Some t2 \<and>
    producerSurface s2 = Some u \<and> producerSurface t2 = Some u"
  using assms
  by (simp add: SetVirtualScreenSurface_def SetVirtualScreenSurface_gap_def set_screen_def SetProducerSurface_def)

text \<open>Removing a screen never changes the default, which may be the screen removed.\<close>

lemma removed_default_stays_default: "defaultScreenId (RemoveVirtualScreen i m) = defaultScreenId m"
  by (simp add: RemoveVirtualScreen_def RemoveVirtualScreenLocked_def ReuseVirtualScreenIdLocked_def Let_def)

text \<open>A negative colour gamut index is accepted for a virtual screen and makes the next reading undefined.\<close>

lemma negative_gamut_accepted:
  assumes "isVirtual s" and "k < 0"
  shows "\<exists>s'. sc_SetScreenColorGamut v k s = Some (SUCCESS, s') \<and> sc_GetScreenColorGamut v s' x = None"
  using assms by (auto simp: sc_SetScreenColorGamut_def sc_GetScreenColorGamut_def vector_at_def)

end
