(* ===== verification/Rs_Rect.thy ===== *)
theory Rs_Rect
  imports Surface_Types
begin

text \<open>
  The rectangles of the render service, \<open>RectT<int>\<close>
  (\<open>rosen/modules/render_service_base/include/common/rs_rect.h\<close>). A sum, difference, product or quotient outside
  32 bits is undefined in the code and \<open>None\<close> here, as is a division by zero.
\<close>

section \<open>Arithmetic in 32 bits\<close>

definition i32 :: "int \<Rightarrow> int option" where
  "i32 x = (if - 2147483648 \<le> x \<and> x \<le> 2147483647 then Some x else None)"

definition i32_add :: "int \<Rightarrow> int \<Rightarrow> int option" where "i32_add a b = i32 (a + b)"
definition i32_sub :: "int \<Rightarrow> int \<Rightarrow> int option" where "i32_sub a b = i32 (a - b)"
definition i32_mul :: "int \<Rightarrow> int \<Rightarrow> int option" where "i32_mul a b = i32 (a * b)"
definition i32_div :: "int \<Rightarrow> int \<Rightarrow> int option" where "i32_div a b = (if b = 0 then None else i32 (cdiv a b))"

lemma i32_Some: "i32 x = Some y \<longleftrightarrow> y = x \<and> - 2147483648 \<le> x \<and> x \<le> 2147483647"
  by (auto simp: i32_def)

lemma i32_in: "- 2147483648 \<le> x \<Longrightarrow> x \<le> 2147483647 \<Longrightarrow> i32 x = Some x"
  by (simp add: i32_Some)

lemmas i32_ops = i32_add_def i32_sub_def i32_mul_def i32_div_def

section \<open>The operations\<close>

definition RectI0 :: rect where "RectI0 = \<lparr>rx = 0, ry = 0, rw = 0, rh = 0\<rparr>"

definition rt_GetRight :: "rect \<Rightarrow> int option" where "rt_GetRight r = i32_add (rx r) (rw r)"
definition rt_GetBottom :: "rect \<Rightarrow> int option" where "rt_GetBottom r = i32_add (ry r) (rh r)"
definition rt_SetRight :: "int \<Rightarrow> rect \<Rightarrow> rect option" where "rt_SetRight x r = map_option (\<lambda>w. r\<lparr>rw := w\<rparr>) (i32_sub x (rx r))"
definition rt_SetBottom :: "int \<Rightarrow> rect \<Rightarrow> rect option" where "rt_SetBottom y r = map_option (\<lambda>h. r\<lparr>rh := h\<rparr>) (i32_sub y (ry r))"
definition rt_Move :: "int \<Rightarrow> int \<Rightarrow> rect \<Rightarrow> rect option" where
  "rt_Move x y r = Option.bind (i32_add (rx r) x) (\<lambda>a. map_option (\<lambda>b. r\<lparr>rx := a, ry := b\<rparr>) (i32_add (ry r) y))"
definition rt_Clear :: "rect \<Rightarrow> rect" where "rt_Clear r = r\<lparr>rx := 0, ry := 0, rw := 0, rh := 0\<rparr>"
definition rt_IsEmpty :: "rect \<Rightarrow> bool" where "rt_IsEmpty r \<longleftrightarrow> rw r \<le> 0 \<or> rh r \<le> 0"

definition rt_Intersect :: "int \<Rightarrow> int \<Rightarrow> rect \<Rightarrow> bool option" where
  "rt_Intersect x y r =
     (if x < rx r then Some False
      else Option.bind (rt_GetRight r) (\<lambda>e.
        if \<not> x < e then Some False
        else if y < ry r then Some False
        else map_option (\<lambda>b. y < b) (rt_GetBottom r)))"

definition rt_IntersectRect :: "rect \<Rightarrow> rect \<Rightarrow> rect option" where
  "rt_IntersectRect a b =
     (let left = max (rx a) (rx b); top = max (ry a) (ry b) in
      Option.bind (rt_GetRight a) (\<lambda>ra. Option.bind (rt_GetRight b) (\<lambda>rb. Option.bind (i32_sub (min ra rb) left) (\<lambda>wd.
      Option.bind (rt_GetBottom a) (\<lambda>ba. Option.bind (rt_GetBottom b) (\<lambda>bb. Option.bind (i32_sub (min ba bb) top) (\<lambda>ht.
        Some (if wd \<le> 0 \<or> ht \<le> 0 then RectI0 else \<lparr>rx = left, ry = top, rw = wd, rh = ht\<rparr>))))))))"

definition rt_JoinRect :: "rect \<Rightarrow> rect \<Rightarrow> rect option" where
  "rt_JoinRect a b =
     (let left = min (rx a) (rx b); top = min (ry a) (ry b) in
      Option.bind (rt_GetRight a) (\<lambda>ra. Option.bind (rt_GetRight b) (\<lambda>rb. Option.bind (i32_sub (max ra rb) left) (\<lambda>wd.
      Option.bind (rt_GetBottom a) (\<lambda>ba. Option.bind (rt_GetBottom b) (\<lambda>bb. Option.bind (i32_sub (max ba bb) top) (\<lambda>ht.
        Some (if wd \<le> 0 \<or> ht \<le> 0 then RectI0 else \<lparr>rx = left, ry = top, rw = wd, rh = ht\<rparr>))))))))"

section \<open>Rectangles as sets of pixels\<close>

definition pixels :: "rect \<Rightarrow> (int \<times> int) set" where
  "pixels r = {(x, y). rx r \<le> x \<and> x < rx r + rw r \<and> ry r \<le> y \<and> y < ry r + rh r}"

text \<open>A rectangle whose coordinates are at most \<open>b\<close>; what a screen has is far below \<open>16384\<close>.\<close>

definition rect_in :: "int \<Rightarrow> rect \<Rightarrow> bool" where
  "rect_in b r \<longleftrightarrow> \<bar>rx r\<bar> \<le> b \<and> \<bar>ry r\<bar> \<le> b \<and> 0 \<le> rw r \<and> rw r \<le> b \<and> 0 \<le> rh r \<and> rh r \<le> b"

lemma pixels_empty: "pixels r = {} \<longleftrightarrow> rt_IsEmpty r"
proof
  assume e: "pixels r = {}"
  show "rt_IsEmpty r"
  proof (rule ccontr)
    assume "\<not> rt_IsEmpty r"
    then have "(rx r, ry r) \<in> pixels r" by (simp add: pixels_def rt_IsEmpty_def)
    then show False using e by simp
  qed
qed (auto simp: pixels_def rt_IsEmpty_def)

lemma IntersectRect_small:
  assumes "rect_in 16384 a" and "rect_in 16384 b"
  shows "\<exists>r. rt_IntersectRect a b = Some r \<and> pixels r = pixels a \<inter> pixels b \<and>
    (r = RectI0 \<or> \<not> rt_IsEmpty r \<and> rx a \<le> rx r \<and> ry a \<le> ry r \<and> rx r + rw r \<le> rx a + rw a \<and> ry r + rh r \<le> ry a + rh a \<and>
       rx b \<le> rx r \<and> ry b \<le> ry r \<and> rx r + rw r \<le> rx b + rw b \<and> ry r + rh r \<le> ry b + rh b)"
proof -
  let ?l = "max (rx a) (rx b)" and ?t = "max (ry a) (ry b)" and ?e = "min (rx a + rw a) (rx b + rw b)" and ?f = "min (ry a + rh a) (ry b + rh b)"
  let ?r = "if ?e - ?l \<le> 0 \<or> ?f - ?t \<le> 0 then RectI0 else \<lparr>rx = ?l, ry = ?t, rw = ?e - ?l, rh = ?f - ?t\<rparr>"
  note s = assms[unfolded rect_in_def]
  have "i32 (rx a + rw a) = Some (rx a + rw a)" "i32 (rx b + rw b) = Some (rx b + rw b)" "i32 (?e - ?l) = Some (?e - ?l)"
      "i32 (ry a + rh a) = Some (ry a + rh a)" "i32 (ry b + rh b) = Some (ry b + rh b)" "i32 (?f - ?t) = Some (?f - ?t)"
    by (rule i32_in; use s in linarith)+
  then have "rt_IntersectRect a b = Some ?r"
    by (simp add: rt_IntersectRect_def rt_GetRight_def rt_GetBottom_def i32_ops Let_def)
  moreover have "p \<in> pixels ?r \<longleftrightarrow> p \<in> pixels a \<inter> pixels b" for p
    by (cases p) (auto simp: pixels_def RectI0_def)
  moreover have "?r = RectI0 \<or> \<not> rt_IsEmpty ?r \<and> rx a \<le> rx ?r \<and> ry a \<le> ry ?r \<and> rx ?r + rw ?r \<le> rx a + rw a \<and> ry ?r + rh ?r \<le> ry a + rh a \<and>
       rx b \<le> rx ?r \<and> ry b \<le> ry ?r \<and> rx ?r + rw ?r \<le> rx b + rw b \<and> ry ?r + rh ?r \<le> ry b + rh b"
    by (simp add: rt_IsEmpty_def)
  ultimately show ?thesis by (intro exI[of _ ?r] conjI) (simp_all only: set_eq_iff, blast+)
qed

lemma JoinRect_small:
  assumes "rect_in 16384 a" and "rect_in 16384 b" and "\<not> rt_IsEmpty a"
  shows "\<exists>r. rt_JoinRect a b = Some r \<and> pixels a \<union> pixels b \<subseteq> pixels r"
proof -
  let ?l = "min (rx a) (rx b)" and ?t = "min (ry a) (ry b)" and ?e = "max (rx a + rw a) (rx b + rw b)" and ?f = "max (ry a + rh a) (ry b + rh b)"
  let ?r = "\<lparr>rx = ?l, ry = ?t, rw = ?e - ?l, rh = ?f - ?t\<rparr>"
  note s = assms(1,2)[unfolded rect_in_def]
  have "0 < ?e - ?l" "0 < ?f - ?t" using assms(3) by (auto simp: rt_IsEmpty_def)
  moreover have "i32 (rx a + rw a) = Some (rx a + rw a)" "i32 (rx b + rw b) = Some (rx b + rw b)" "i32 (?e - ?l) = Some (?e - ?l)"
      "i32 (ry a + rh a) = Some (ry a + rh a)" "i32 (ry b + rh b) = Some (ry b + rh b)" "i32 (?f - ?t) = Some (?f - ?t)"
    by (rule i32_in; use s in linarith)+
  ultimately have "rt_JoinRect a b = Some ?r"
    using assms(3) by (simp add: rt_IsEmpty_def rt_JoinRect_def rt_GetRight_def rt_GetBottom_def i32_ops Let_def)
  moreover have "pixels a \<union> pixels b \<subseteq> pixels ?r" by (auto simp: pixels_def)
  ultimately show ?thesis by blast
qed

end
