(* ===== verification/Hdi_Layer.thy ===== *)
theory Hdi_Layer
  imports Hdi_Device Surface_Types Sync_Fence
begin

text \<open>
  One layer of the hardware composer, \<open>HdiLayer\<close> (\<open>rosen/modules/composer/hdi_backend/src/hdi_layer.cpp\<close>):
  what the render service wants shown (\<open>HdiLayerInfo\<close>), the buffer shown now and the one before, and the
  layer of the driver that shows it.

  A fence is the descriptor behind its pointer, \<open>None\<close> the null pointer; a buffer is a number. The surfaces
  whose buffers are shown, the kernel's fences and the driver make up the state \<open>'d\<close> of the outside. A null
  pointer dereferenced gives \<open>None\<close>.
\<close>

section \<open>The driver's functions for layers\<close>

record layer_alpha =
  enGlobalAlpha :: bool
  enPixelAlpha :: bool
  alpha0 :: "8 word"
  alpha1 :: "8 word"
  gAlpha :: "8 word"

type_synonym ('x, 'd) layer_setter = "(32 word \<Rightarrow> 32 word \<Rightarrow> 'x \<Rightarrow> 'd \<Rightarrow> int \<times> 'd) option"

record 'd layer_vendor = "'d vendor" +
  TRANSFORM_BUTT :: int
  COMPOSITION_CLIENT :: int
  LF_SetLayerAlpha :: "(layer_alpha, 'd) layer_setter"
  LF_SetLayerSize :: "(rect, 'd) layer_setter"
  LF_SetTransformMode :: "(int, 'd) layer_setter"
  LF_SetLayerVisibleRegion :: "(32 word \<times> rect, 'd) layer_setter"
  LF_SetLayerDirtyRegion :: "(rect, 'd) layer_setter"
  LF_SetLayerBuffer :: "(nat \<times> int, 'd) layer_setter"
  LF_SetLayerCompositionType :: "(int, 'd) layer_setter"
  LF_SetLayerBlendType :: "(int, 'd) layer_setter"
  LF_SetLayerCrop :: "(rect, 'd) layer_setter"
  LF_SetLayerZorder :: "(32 word, 'd) layer_setter"
  LF_SetLayerPreMulti :: "(bool, 'd) layer_setter"
  LF_CreateLayer :: "(32 word \<Rightarrow> int \<times> int \<Rightarrow> 'd \<Rightarrow> int \<times> 32 word \<times> 'd) option"
  LF_CloseLayer :: "(32 word \<Rightarrow> 32 word \<Rightarrow> 'd \<Rightarrow> int \<times> 'd) option"
  kernel :: "'d \<Rightarrow> fence_kernel"
  surface_ReleaseBuffer :: "64 word \<Rightarrow> nat \<Rightarrow> int option \<Rightarrow> 'd \<Rightarrow> gserror \<times> 'd"

definition hd_setter :: "('d, 'm) vendor_scheme \<Rightarrow> ('x, 'd) layer_setter \<Rightarrow> 32 word \<Rightarrow> 32 word \<Rightarrow> 'x \<Rightarrow> 'd \<Rightarrow> int \<times> 'd" where
  "hd_setter v func sid lid x = call_set v (map_option (\<lambda>f. f sid lid x) func)"

definition hd_SetLayerAlpha :: "('d, 'm) layer_vendor_scheme \<Rightarrow> 32 word \<Rightarrow> 32 word \<Rightarrow> layer_alpha \<Rightarrow> 'd \<Rightarrow> int \<times> 'd" where
  "hd_SetLayerAlpha v = hd_setter v (LF_SetLayerAlpha v)"
definition hd_SetLayerSize :: "('d, 'm) layer_vendor_scheme \<Rightarrow> 32 word \<Rightarrow> 32 word \<Rightarrow> rect \<Rightarrow> 'd \<Rightarrow> int \<times> 'd" where
  "hd_SetLayerSize v = hd_setter v (LF_SetLayerSize v)"
definition hd_SetTransformMode :: "('d, 'm) layer_vendor_scheme \<Rightarrow> 32 word \<Rightarrow> 32 word \<Rightarrow> int \<Rightarrow> 'd \<Rightarrow> int \<times> 'd" where
  "hd_SetTransformMode v = hd_setter v (LF_SetTransformMode v)"
definition hd_SetLayerVisibleRegion :: "('d, 'm) layer_vendor_scheme \<Rightarrow> 32 word \<Rightarrow> 32 word \<Rightarrow> 32 word \<times> rect \<Rightarrow> 'd \<Rightarrow> int \<times> 'd" where
  "hd_SetLayerVisibleRegion v = hd_setter v (LF_SetLayerVisibleRegion v)"
definition hd_SetLayerDirtyRegion :: "('d, 'm) layer_vendor_scheme \<Rightarrow> 32 word \<Rightarrow> 32 word \<Rightarrow> rect \<Rightarrow> 'd \<Rightarrow> int \<times> 'd" where
  "hd_SetLayerDirtyRegion v = hd_setter v (LF_SetLayerDirtyRegion v)"
definition hd_SetLayerCompositionType :: "('d, 'm) layer_vendor_scheme \<Rightarrow> 32 word \<Rightarrow> 32 word \<Rightarrow> int \<Rightarrow> 'd \<Rightarrow> int \<times> 'd" where
  "hd_SetLayerCompositionType v = hd_setter v (LF_SetLayerCompositionType v)"
definition hd_SetLayerBlendType :: "('d, 'm) layer_vendor_scheme \<Rightarrow> 32 word \<Rightarrow> 32 word \<Rightarrow> int \<Rightarrow> 'd \<Rightarrow> int \<times> 'd" where
  "hd_SetLayerBlendType v = hd_setter v (LF_SetLayerBlendType v)"
definition hd_SetLayerCrop :: "('d, 'm) layer_vendor_scheme \<Rightarrow> 32 word \<Rightarrow> 32 word \<Rightarrow> rect \<Rightarrow> 'd \<Rightarrow> int \<times> 'd" where
  "hd_SetLayerCrop v = hd_setter v (LF_SetLayerCrop v)"
definition hd_SetLayerZorder :: "('d, 'm) layer_vendor_scheme \<Rightarrow> 32 word \<Rightarrow> 32 word \<Rightarrow> 32 word \<Rightarrow> 'd \<Rightarrow> int \<times> 'd" where
  "hd_SetLayerZorder v = hd_setter v (LF_SetLayerZorder v)"
definition hd_SetLayerPreMulti :: "('d, 'm) layer_vendor_scheme \<Rightarrow> 32 word \<Rightarrow> 32 word \<Rightarrow> bool \<Rightarrow> 'd \<Rightarrow> int \<times> 'd" where
  "hd_SetLayerPreMulti v = hd_setter v (LF_SetLayerPreMulti v)"

definition hd_SetLayerBuffer :: "('d, 'm) layer_vendor_scheme \<Rightarrow> 32 word \<Rightarrow> 32 word \<Rightarrow> nat \<Rightarrow> int option \<Rightarrow> 'd \<Rightarrow> int \<times> 'd" where
  "hd_SetLayerBuffer v sid lid handle acquireFence d =
     (case LF_SetLayerBuffer v of
        None \<Rightarrow> (null_ptr v, d)
      | Some f \<Rightarrow> (case acquireFence of None \<Rightarrow> (null_ptr v, d) | Some fenceFd \<Rightarrow> f sid lid (handle, fenceFd) d))"

definition hd_CreateLayer :: "('d, 'm) layer_vendor_scheme \<Rightarrow> 32 word \<Rightarrow> int \<times> int \<Rightarrow> 32 word \<Rightarrow> 'd \<Rightarrow> int \<times> 32 word \<times> 'd" where
  "hd_CreateLayer v sid wh lid d =
     (case LF_CreateLayer v of None \<Rightarrow> (null_ptr v, lid, d) | Some f \<Rightarrow> f sid wh d)"

definition hd_CloseLayer :: "('d, 'm) layer_vendor_scheme \<Rightarrow> 32 word \<Rightarrow> 32 word \<Rightarrow> 'd \<Rightarrow> int \<times> 'd" where
  "hd_CloseLayer v sid lid = call_set v (map_option (\<lambda>f. f sid lid) (LF_CloseLayer v))"

section \<open>What to show\<close>

record layer_info =
  li_surface :: "64 word"
  li_buffer :: "nat option"
  li_acquire :: "int option"
  li_preBuffer :: "nat option"
  li_preAcquire :: "int option"
  li_zorder :: "32 word"
  li_alpha :: layer_alpha
  li_transform :: int
  li_composition :: int
  li_blend :: int
  li_visibleNum :: "32 word"
  li_visible :: rect
  li_dirty :: rect
  li_crop :: rect
  li_size :: rect
  li_preMulti :: bool

definition li_SetBuffer :: "nat option \<Rightarrow> int option \<Rightarrow> nat option \<Rightarrow> int option \<Rightarrow> layer_info \<Rightarrow> layer_info" where
  "li_SetBuffer b acquire pre preAcquire i =
     i\<lparr>li_buffer := b, li_acquire := acquire, li_preBuffer := pre, li_preAcquire := preAcquire\<rparr>"

definition li_SetZorder :: "int \<Rightarrow> layer_info \<Rightarrow> layer_info" where
  "li_SetZorder z i = i\<lparr>li_zorder := word_of_int z\<rparr>"

section \<open>The layer\<close>

record layer_buffer =
  lb_buffer :: "nat option"
  lb_acquire :: "int option"
  lb_release :: "int option"

text \<open>\<open>INVALID_FENCE\<close> has the descriptor \<open>-1\<close>.\<close>

definition new_LayerBufferInfo :: layer_buffer where
  "new_LayerBufferInfo = \<lparr>lb_buffer = None, lb_acquire = Some INVALID_FD, lb_release = Some INVALID_FD\<rparr>"

definition INT_MAX :: "32 word" where "INT_MAX = 0x7fffffff"
definition FRAME_RECORDS_NUM :: nat where "FRAME_RECORDS_NUM = 128"

record hlayer =
  hl_screen :: "32 word"
  hl_id :: "32 word"
  hl_inUsing :: bool
  hl_curr :: "layer_buffer option"
  hl_prev :: "layer_buffer option"
  hl_info :: "layer_info option"
  hl_times :: "int list"
  hl_count :: nat

text \<open>The array of times is not initialised: \<open>junk\<close> is what it holds.\<close>

definition CreateHdiLayer :: "int list \<Rightarrow> 32 word \<Rightarrow> hlayer" where
  "CreateHdiLayer junk sid =
     \<lparr>hl_screen = sid, hl_id = INT_MAX, hl_inUsing = False, hl_curr = None, hl_prev = None, hl_info = None,
      hl_times = junk, hl_count = 0\<rparr>"

definition hl_CreateLayer :: "('d, 'm) layer_vendor_scheme \<Rightarrow> layer_info \<Rightarrow> hlayer \<Rightarrow> 'd \<Rightarrow> (int \<times> hlayer \<times> 'd) option" where
  "hl_CreateLayer v info l d =
     (if \<not> available v then None
      else
        (let (ret, lid, d) = hd_CreateLayer v (hl_screen l) (rw (li_size info), rh (li_size info)) 0 d
         in if ret \<noteq> success v then Some (ret, l, d) else Some (ret, l\<lparr>hl_id := lid\<rparr>, d)))"

definition hl_Init :: "('d, 'm) layer_vendor_scheme \<Rightarrow> layer_info option \<Rightarrow> hlayer \<Rightarrow> 'd \<Rightarrow> (bool \<times> hlayer \<times> 'd) option" where
  "hl_Init v info l d =
     (case info of
        None \<Rightarrow> Some (False, l, d)
      | Some i \<Rightarrow>
          Option.bind (hl_CreateLayer v i l d) (\<lambda>(ret, l, d).
            if ret \<noteq> success v then Some (False, l, d)
            else
              (let l = (if hl_prev l = None then l\<lparr>hl_prev := Some new_LayerBufferInfo\<rparr> else l);
                   l = (if hl_curr l = None then l\<lparr>hl_curr := Some new_LayerBufferInfo\<rparr> else l)
               in Some (True, l, d))))"

definition hl_CloseLayer :: "('d, 'm) layer_vendor_scheme \<Rightarrow> hlayer \<Rightarrow> 'd \<Rightarrow> 'd option" where
  "hl_CloseLayer v l d =
     (if hl_id l = INT_MAX then Some d
      else if \<not> available v then None
      else Some (snd (hd_CloseLayer v (hl_screen l) (hl_id l) d)))"

definition SetHdiLayerInfo :: "('d, 'm) layer_vendor_scheme \<Rightarrow> hlayer \<Rightarrow> 'd \<Rightarrow> 'd option" where
  "SetHdiLayerInfo v l d =
     (case hl_info l of
        None \<Rightarrow> Some d
      | Some i \<Rightarrow>
          if \<not> available v then Some d
          else
            (let s = hl_screen l; k = hl_id l;
                 d = snd (hd_SetLayerAlpha v s k (li_alpha i) d);
                 d = snd (hd_SetLayerSize v s k (li_size i) d);
                 d = (if li_transform i \<noteq> TRANSFORM_BUTT v then snd (hd_SetTransformMode v s k (li_transform i) d) else d);
                 d = snd (hd_SetLayerVisibleRegion v s k (li_visibleNum i, li_visible i) d);
                 d = snd (hd_SetLayerDirtyRegion v s k (li_dirty i) d)
             in case li_buffer i of
                  None \<Rightarrow> None
                | Some b \<Rightarrow>
                    (let d = snd (hd_SetLayerBuffer v s k b (li_acquire i) d);
                         d = snd (hd_SetLayerCompositionType v s k (li_composition i) d);
                         d = snd (hd_SetLayerBlendType v s k (li_blend i) d);
                         d = snd (hd_SetLayerCrop v s k (li_crop i) d);
                         d = snd (hd_SetLayerZorder v s k (li_zorder i) d)
                     in Some (snd (hd_SetLayerPreMulti v s k (li_preMulti i) d)))))"

definition SetLayerStatus :: "bool \<Rightarrow> hlayer \<Rightarrow> hlayer" where
  "SetLayerStatus b = hl_inUsing_update (\<lambda>_. b)"

definition UpdateLayerInfo :: "layer_info option \<Rightarrow> hlayer \<Rightarrow> hlayer option" where
  "UpdateLayerInfo info l =
     (case info of
        None \<Rightarrow> Some l
      | Some i \<Rightarrow>
          (case (hl_curr l, hl_prev l) of
             (Some c, Some p) \<Rightarrow>
               Some (l\<lparr>hl_inUsing := True, hl_info := Some i,
                       hl_curr := Some (c\<lparr>lb_buffer := li_buffer i, lb_acquire := li_acquire i\<rparr>),
                       hl_prev := Some (p\<lparr>lb_buffer := li_preBuffer i, lb_acquire := li_preAcquire i\<rparr>)\<rparr>)
           | _ \<Rightarrow> None))"

section \<open>Giving buffers back\<close>

definition hl_Merge :: "fence_kernel \<Rightarrow> int option \<Rightarrow> int option \<Rightarrow> int option" where
  "hl_Merge k fence1 fence2 =
     (case (fence1, fence2) of
        (Some a, Some b) \<Rightarrow> Some (case MergeFence k ''ReleaseFence'' a b of None \<Rightarrow> INVALID_FD | Some f \<Rightarrow> f)
      | _ \<Rightarrow> None)"

definition ReleasePrevBuffer :: "('d, 'm) layer_vendor_scheme \<Rightarrow> layer_buffer \<Rightarrow> hlayer \<Rightarrow> 'd \<Rightarrow> gserror \<times> layer_buffer \<times> 'd" where
  "ReleasePrevBuffer v prev l d =
     (case lb_buffer prev of
        None \<Rightarrow> (GSERROR_OK, prev, d)
      | Some b \<Rightarrow>
          (case hl_info l of
             None \<Rightarrow> (GSERROR_INVALID_ARGUMENTS, prev, d)
           | Some i \<Rightarrow>
               (let (ret, d) = surface_ReleaseBuffer v (li_surface i) b (lb_release prev) d
                in if ret \<noteq> GSERROR_OK then (ret, prev, d) else (ret, prev\<lparr>lb_buffer := None\<rparr>, d))))"

definition hl_ReleaseBuffer :: "('d, 'm) layer_vendor_scheme \<Rightarrow> hlayer \<Rightarrow> 'd \<Rightarrow> (hlayer \<times> 'd) option" where
  "hl_ReleaseBuffer v l d =
     (case (hl_curr l, hl_prev l) of
        (Some c, Some p) \<Rightarrow>
          if lb_buffer c \<noteq> lb_buffer p then
            (let (_, p, d) = ReleasePrevBuffer v p l d
             in Some (l\<lparr>hl_prev := Some (p\<lparr>lb_release := lb_release c\<rparr>)\<rparr>, d))
          else
            Option.bind (hl_Merge (kernel v d) (lb_acquire c) (lb_acquire p)) (\<lambda>a.
            Option.bind (hl_Merge (kernel v d) (lb_release c) (lb_release p)) (\<lambda>r.
              Some (l\<lparr>hl_prev := Some (p\<lparr>lb_acquire := Some a, lb_release := Some r\<rparr>)\<rparr>, d)))
      | _ \<Rightarrow> None)"

definition RecordPresentTime :: "int \<Rightarrow> hlayer \<Rightarrow> hlayer option" where
  "RecordPresentTime t l =
     (case (hl_curr l, hl_prev l) of
        (Some c, Some p) \<Rightarrow>
          Some (if lb_buffer c \<noteq> lb_buffer p
                then l\<lparr>hl_times := (hl_times l)[hl_count l := t], hl_count := (hl_count l + 1) mod FRAME_RECORDS_NUM\<rparr>
                else l)
      | _ \<Rightarrow> None)"

definition MergeWithFramebufferFence :: "fence_kernel \<Rightarrow> int option \<Rightarrow> hlayer \<Rightarrow> hlayer option" where
  "MergeWithFramebufferFence k fbAcquireFence l =
     (case fbAcquireFence of
        None \<Rightarrow> Some l
      | Some f \<Rightarrow>
          Option.bind (hl_curr l) (\<lambda>c. Option.bind (hl_Merge k (lb_release c) (Some f)) (\<lambda>r.
            Some (l\<lparr>hl_curr := Some (c\<lparr>lb_release := Some r\<rparr>)\<rparr>))))"

definition MergeWithLayerFence :: "fence_kernel \<Rightarrow> int option \<Rightarrow> hlayer \<Rightarrow> hlayer option" where
  "MergeWithLayerFence k layerReleaseFence l =
     (case layerReleaseFence of
        None \<Rightarrow> Some l
      | Some f \<Rightarrow>
          Option.bind (hl_prev l) (\<lambda>p. Option.bind (hl_Merge k (lb_release p) (Some f)) (\<lambda>r.
            Some (l\<lparr>hl_prev := Some (p\<lparr>lb_release := Some r\<rparr>)\<rparr>))))"

definition UpdateCompositionType :: "int \<Rightarrow> hlayer \<Rightarrow> hlayer" where
  "UpdateCompositionType ty l =
     (case hl_info l of None \<Rightarrow> l | Some i \<Rightarrow> l\<lparr>hl_info := Some (i\<lparr>li_composition := ty\<rparr>)\<rparr>)"

end
