(* ===== verification/Surface_Handler.thy ===== *)
theory Surface_Handler
  imports Hdi_Layer
begin

text \<open>
  The render service's side of a surface, \<open>RSSurfaceHandler\<close>
  (\<open>rosen/modules/render_service_base/src/pipeline/rs_surface_handler.cpp\<close>), and how a node takes its next buffer:
  \<open>DropFrameProcess\<close> and \<open>ConsumeAndUpdateBuffer\<close> of \<open>rs_render_service_util.cpp\<close>.

  The consumer's end of a surface is the record of its calls over a state \<open>'d\<close>; a buffer is a number, a fence
  its descriptor. What the last frames hold on to is what the properties are about: see \<open>consumer_end\<close>.
\<close>

section \<open>The handler\<close>

record 'd consumer_ops =
  co_AcquireBuffer :: "64 word \<Rightarrow> 'd \<Rightarrow> gserror \<times> (nat option \<times> int option \<times> rect) \<times> 'd"
  co_ReleaseBuffer :: "64 word \<Rightarrow> nat option \<Rightarrow> int option \<Rightarrow> 'd \<Rightarrow> gserror \<times> 'd"
  co_GetQueueSize :: "64 word \<Rightarrow> 'd \<Rightarrow> 32 word"

record handler =
  sh_consumer :: "64 word option"
  sh_damage :: rect
  sh_available :: int
  sh_buffer :: "nat option"
  sh_preBuffer :: "nat option"
  sh_fence :: "int option"
  sh_preFence :: "int option"

text \<open>The damage is not initialised: \<open>junk\<close>.\<close>

definition new_handler :: "rect \<Rightarrow> handler" where
  "new_handler junk = \<lparr>sh_consumer = None, sh_damage = junk, sh_available = 0, sh_buffer = None, sh_preBuffer = None, sh_fence = None, sh_preFence = None\<rparr>"

definition sh_SetConsumer :: "64 word option \<Rightarrow> 'a handler_scheme \<Rightarrow> 'a handler_scheme" where "sh_SetConsumer c n = n\<lparr>sh_consumer := c\<rparr>"

definition sh_SetBuffer :: "nat option \<Rightarrow> 'a handler_scheme \<Rightarrow> 'a handler_scheme" where
  "sh_SetBuffer buffer n = (if sh_buffer n \<noteq> None then n\<lparr>sh_preBuffer := sh_buffer n, sh_buffer := buffer\<rparr> else n\<lparr>sh_buffer := buffer\<rparr>)"

definition sh_SetFence :: "int option \<Rightarrow> 'a handler_scheme \<Rightarrow> 'a handler_scheme" where
  "sh_SetFence fence n = n\<lparr>sh_preFence := sh_fence n, sh_fence := fence\<rparr>"

definition sh_SetDamageRegion :: "rect \<Rightarrow> 'a handler_scheme \<Rightarrow> 'a handler_scheme" where "sh_SetDamageRegion r n = n\<lparr>sh_damage := r\<rparr>"

definition IncreaseAvailableBuffer :: "'a handler_scheme \<Rightarrow> 'a handler_scheme" where
  "IncreaseAvailableBuffer n = n\<lparr>sh_available := sh_available n + 1\<rparr>"

definition ReduceAvailableBuffer :: "'a handler_scheme \<Rightarrow> 'a handler_scheme" where
  "ReduceAvailableBuffer n = n\<lparr>sh_available := sh_available n - 1\<rparr>"

section \<open>The next buffer of a node\<close>

text \<open>When the queue is full of frames, the oldest one is taken and given back at once.\<close>

definition DropFrameProcess :: "'d consumer_ops \<Rightarrow> 'a handler_scheme \<Rightarrow> 'd \<Rightarrow> 'a handler_scheme \<times> 'd" where
  "DropFrameProcess C n d =
     (case sh_consumer n of
        None \<Rightarrow> (n, d)
      | Some c \<Rightarrow>
          if sh_available n \<ge> 2 \<and> co_GetQueueSize C c d = word_of_int (sh_available n) then
            (let (ret, (cbuffer, _), d) = co_AcquireBuffer C c d
             in if ret \<noteq> GSERROR_OK then (n, d)
                else (ReduceAvailableBuffer n, snd (co_ReleaseBuffer C c cbuffer (Some INVALID_FD) d)))
          else (n, d))"

text \<open>
  The second of the two variables \<open>acquireFence\<close> hides the first: what the queue gives with a buffer goes to
  the inner one, what is stored is the outer one. The answer is whether there is a buffer, and whether the next
  VSync is requested. A null pointer met is \<open>None\<close>.
\<close>

definition ConsumeAndUpdateBuffer :: "'d consumer_ops \<Rightarrow> bool \<Rightarrow> 'a handler_scheme \<Rightarrow> 'd \<Rightarrow> (bool \<times> bool \<times> 'a handler_scheme \<times> 'd) option" where
  "ConsumeAndUpdateBuffer C toReleaseBuffer n d =
     (let (n, d) = DropFrameProcess C n d;
          update = (\<lambda>buffer acquireFence damage n d.
            if buffer = None then Some (False, False, n, d)
            else
              Option.bind
                (if toReleaseBuffer \<and> sh_buffer n \<noteq> None \<and> sh_buffer n \<noteq> buffer then
                   map_option (\<lambda>c. co_ReleaseBuffer C c (sh_buffer n) (Some (-1)) d) (sh_consumer n)
                 else Some (GSERROR_OK, d))
                (\<lambda>(ret, d).
                  if ret \<noteq> GSERROR_OK then Some (False, False, n, d)
                  else Some (True, sh_available n > 0, sh_SetDamageRegion damage (sh_SetFence acquireFence (sh_SetBuffer buffer n)), d)))
      in if sh_available n = 0 then update (sh_buffer n) (sh_fence n) (sh_damage n) n d
         else
           (case sh_consumer n of
              None \<Rightarrow> Some (False, False, n, d)
            | Some c \<Rightarrow>
                (let (ret, (buffer, _, damage), d) = co_AcquireBuffer C c d
                 in if ret \<noteq> GSERROR_OK then update (sh_buffer n) (Some INVALID_FD) (sh_damage n) n d
                    else update buffer (Some INVALID_FD) damage (ReduceAvailableBuffer n) d)))"

section \<open>The other ways a node takes a buffer\<close>

text \<open>
  What \<open>RSSurfaceRenderNode\<close> adds that matters here: whether it is on the tree and visible, whether its clients
  were told that it has a buffer, which callbacks they set, and how often those of the two clients were called.
\<close>

record surface_node = handler +
  sn_onTree :: bool
  sn_visible :: bool
  isNotifyUIBufferAvailable :: bool
  isNotifyRTBufferAvailable :: bool
  callbackFromUI :: bool
  callbackFromRT :: bool
  callbackForRenderThreadRefresh :: bool
  sn_toldUI :: nat
  sn_toldRT :: nat
  sn_refreshed :: nat

definition NotifyUIBufferAvailable :: "'a surface_node_scheme \<Rightarrow> 'a surface_node_scheme" where
  "NotifyUIBufferAvailable n =
     (if isNotifyUIBufferAvailable n then n
      else if callbackFromUI n then n\<lparr>isNotifyUIBufferAvailable := True, sn_toldUI := sn_toldUI n + 1\<rparr>
      else n\<lparr>isNotifyUIBufferAvailable := False\<rparr>)"

definition NotifyRTBufferAvailable :: "'a surface_node_scheme \<Rightarrow> 'a surface_node_scheme" where
  "NotifyRTBufferAvailable n =
     (if isNotifyRTBufferAvailable n then n
      else
        (let n = n\<lparr>isNotifyRTBufferAvailable := True\<rparr>;
             n = (if callbackForRenderThreadRefresh n then n\<lparr>sn_refreshed := sn_refreshed n + 1\<rparr> else n);
             n = (if callbackFromRT n then n\<lparr>sn_toldRT := sn_toldRT n + 1\<rparr> else n)
         in if \<not> callbackForRenderThreadRefresh n \<and> \<not> callbackFromRT n then n\<lparr>isNotifyRTBufferAvailable := False\<rparr> else n))"

text \<open>
  \<open>RSRenderServiceListener::OnBufferAvailable\<close> for a node that is still there. The answer is whether a task is
  posted to the main thread, \<open>off_tree_task\<close>; the next VSync is requested in any case.
\<close>

definition rl_OnBufferAvailable :: "'a surface_node_scheme \<Rightarrow> bool \<times> 'a surface_node_scheme" where
  "rl_OnBufferAvailable n =
     (let off = \<not> sn_onTree n \<or> \<not> sn_visible n;
          n = (if off then n else IncreaseAvailableBuffer n)
      in (off, if \<not> isNotifyUIBufferAvailable n then NotifyUIBufferAvailable n else n))"

definition off_tree_task :: "'d consumer_ops \<Rightarrow> 'a handler_scheme \<Rightarrow> 'd \<Rightarrow> 'a handler_scheme \<times> 'd" where
  "off_tree_task C n d =
     (case sh_consumer n of
        None \<Rightarrow> (n, d)
      | Some c \<Rightarrow>
          (let (ret, (buffer, acquireFence, _), d) = co_AcquireBuffer C c d
           in if buffer = None \<or> ret \<noteq> GSERROR_OK then (n, d)
              else
                (let d = (if sh_buffer n \<noteq> None \<and> sh_buffer n \<noteq> buffer
                          then snd (co_ReleaseBuffer C c (sh_buffer n) (Some INVALID_FD) d) else d)
                 in (sh_SetFence acquireFence (sh_SetBuffer buffer n), d))))"

text \<open>\<open>RSSurfaceRenderNode::ConsumeNodeNotOnTree\<close>: the buffer is given back and stored all the same.\<close>

definition ConsumeNodeNotOnTree :: "'d consumer_ops \<Rightarrow> 'a handler_scheme \<Rightarrow> 'd \<Rightarrow> 'a handler_scheme \<times> 'd" where
  "ConsumeNodeNotOnTree C n d =
     (if sh_available n \<le> 0 then (n, d)
      else
        (case sh_consumer n of
           None \<Rightarrow> (n, d)
         | Some c \<Rightarrow>
             (let (ret, (cbuffer, acquireFence, _), d) = co_AcquireBuffer C c d
              in if cbuffer = None \<or> ret \<noteq> GSERROR_OK then (n, d)
                 else
                   (let d = snd (co_ReleaseBuffer C c cbuffer (Some INVALID_FD) d)
                    in (ReduceAvailableBuffer (sh_SetFence acquireFence (sh_SetBuffer cbuffer n)), d)))))"

text \<open>Over the surface nodes of the node map, in the order the map is visited.\<close>

fun ConsumeNodesNotOnTree :: "'d consumer_ops \<Rightarrow> 'a surface_node_scheme list \<Rightarrow> 'd \<Rightarrow> 'a surface_node_scheme list \<times> 'd" where
  "ConsumeNodesNotOnTree C [] d = ([], d)"
| "ConsumeNodesNotOnTree C (n # ns) d =
     (let (n, d) = (if \<not> sn_onTree n \<and> sh_consumer n \<noteq> None then ConsumeNodeNotOnTree C n d else (n, d));
          (ns, d) = ConsumeNodesNotOnTree C ns d
      in (n # ns, d))"

text \<open>
  The part of \<open>RSSoftwareProcessor::ProcessSurface\<close> before it draws: the buffer to draw, if any, and whether the
  next VSync is requested.
\<close>

definition software_take :: "'d consumer_ops \<Rightarrow> 'a handler_scheme \<Rightarrow> 'd \<Rightarrow> nat option \<times> bool \<times> 'a handler_scheme \<times> 'd" where
  "software_take C n d =
     (let (n, d) = DropFrameProcess C n d
      in case sh_consumer n of
           None \<Rightarrow> (None, False, n, d)
         | Some c \<Rightarrow>
             if sh_available n > 0 then
               (let (sret, (cbuffer, acquireFence, _), d) = co_AcquireBuffer C c d
                in if sret \<noteq> GSERROR_OK then (None, False, n, d)
                   else
                     (let (ret, d) = (if cbuffer \<noteq> sh_buffer n \<and> sh_buffer n \<noteq> None
                                      then co_ReleaseBuffer C c (sh_buffer n) (Some INVALID_FD) d else (GSERROR_OK, d))
                      in if ret \<noteq> GSERROR_OK then (None, False, n, d)
                         else
                           (let n = ReduceAvailableBuffer (sh_SetFence acquireFence (sh_SetBuffer cbuffer n))
                            in (cbuffer, sh_available n > 0, n, d))))
             else (sh_buffer n, False, n, d))"

text \<open>\<open>RSHardwareProcessor::ReleaseNodePrevBuffer\<close>, and a frame of a node that is taken but not composed.\<close>

definition ReleaseNodePrevBuffer :: "'d consumer_ops \<Rightarrow> 'a handler_scheme \<Rightarrow> 'd \<Rightarrow> 'd" where
  "ReleaseNodePrevBuffer C n d =
     (case sh_consumer n of
        None \<Rightarrow> d
      | Some c \<Rightarrow> if sh_preBuffer n = None then d else snd (co_ReleaseBuffer C c (sh_preBuffer n) (Some INVALID_FD) d))"

definition hidden_frame :: "'d consumer_ops \<Rightarrow> 'a handler_scheme \<Rightarrow> 'd \<Rightarrow> ('a handler_scheme \<times> 'd) option" where
  "hidden_frame C n d =
     map_option (\<lambda>(got, _, n, d). (n, if got then ReleaseNodePrevBuffer C n d else d)) (ConsumeAndUpdateBuffer C False n d)"

text \<open>The buffers of a node in the description of its layer, as \<open>ComposeSurface\<close> sets them.\<close>

definition node_layer_info :: "'a handler_scheme \<Rightarrow> layer_info \<Rightarrow> layer_info" where
  "node_layer_info n i = li_SetBuffer (sh_buffer n) (sh_fence n) (sh_preBuffer n) (sh_preFence n) i"

section \<open>Who holds the buffers\<close>

text \<open>
  The contract of the consumer's end of a surface: \<open>held\<close> is the set of buffers acquired and not given back. A
  buffer acquired was not held and comes with a fence; one that is held can be given back.
\<close>

locale consumer_end =
  fixes C :: "'d consumer_ops" and c :: "64 word" and held :: "'d \<Rightarrow> nat set" and ok :: "'d \<Rightarrow> bool"
  assumes acquire_law: "ok d \<Longrightarrow> co_AcquireBuffer C c d = (ret, (b, f, r), d') \<Longrightarrow>
      ok d' \<and> (if ret = GSERROR_OK then f \<noteq> None \<and> (\<exists>i. b = Some i \<and> i \<notin> held d \<and> held d' = insert i (held d)) else held d' = held d)"
    and release_law: "ok d \<Longrightarrow> i \<in> held d \<Longrightarrow> co_ReleaseBuffer C c (Some i) g d = (ret, d') \<Longrightarrow>
      ret = GSERROR_OK \<and> ok d' \<and> held d' = held d - {i}"
begin

lemma drop_keeps:
  assumes ok: "ok d" and c: "sh_consumer n = Some c" and D: "DropFrameProcess C n d = (n', d')"
  shows "ok d' \<and> held d' = held d \<and> (n' = n \<or> n' = ReduceAvailableBuffer n)"
proof (cases "sh_available n \<ge> 2 \<and> co_GetQueueSize C c d = word_of_int (sh_available n)")
  case False
  then show ?thesis using D ok c by (auto simp: DropFrameProcess_def)
next
  case True
  obtain ret b f r d1 where a: "co_AcquireBuffer C c d = (ret, (b, f, r), d1)" by (metis prod.exhaust)
  note A = acquire_law[OF ok a]
  show ?thesis
  proof (cases "ret = GSERROR_OK")
    case False
    then show ?thesis using D A True a c by (auto simp: DropFrameProcess_def)
  next
    case ret: True
    then obtain i where i: "b = Some i" "i \<notin> held d" "held d1 = insert i (held d)" using A by auto
    obtain q d2 where rel: "co_ReleaseBuffer C c (Some i) (Some INVALID_FD) d1 = (q, d2)" by fastforce
    have "ok d2 \<and> held d2 = held d" using release_law[OF _ _ rel] A i by auto
    then show ?thesis using D True a c ret i(1) rel by (auto simp: DropFrameProcess_def)
  qed
qed

text \<open>What a node that keeps its old buffer for the driver holds after it took its next one.\<close>

lemma consume_holds:
  assumes ok: "ok d" and c: "sh_consumer n = Some c" and own: "held d = set_option (sh_buffer n)"
  shows "\<exists>r vs n' d'. ConsumeAndUpdateBuffer C False n d = Some (r, vs, n', d') \<and> ok d' \<and> sh_consumer n' = Some c \<and>
    (if r then sh_buffer n' \<noteq> None \<and> sh_preBuffer n' = (if sh_buffer n = None then sh_preBuffer n else sh_buffer n) \<and>
       held d' = set_option (sh_buffer n) \<union> set_option (sh_buffer n')
     else sh_buffer n = None \<and> sh_buffer n' = None \<and> sh_preBuffer n' = sh_preBuffer n \<and> held d' = held d)"
proof -
  obtain n1 d1 where D: "DropFrameProcess C n d = (n1, d1)" by fastforce
  note K = drop_keeps[OF ok c D]
  have n1: "sh_buffer n1 = sh_buffer n" "sh_preBuffer n1 = sh_preBuffer n" "sh_consumer n1 = Some c"
    using K c by (auto simp: ReduceAvailableBuffer_def)
  show ?thesis
  proof (cases "sh_available n1 = 0")
    case True
    then show ?thesis using K n1 own
      by (cases "sh_buffer n") (auto simp: ConsumeAndUpdateBuffer_def D Let_def sh_SetDamageRegion_def sh_SetFence_def sh_SetBuffer_def)
  next
    case False
    obtain ret b f r d2 where a: "co_AcquireBuffer C c d1 = (ret, (b, f, r), d2)" by (metis prod.exhaust)
    have A: "ok d2" "if ret = GSERROR_OK then f \<noteq> None \<and> (\<exists>i. b = Some i \<and> i \<notin> held d1 \<and> held d2 = insert i (held d1)) else held d2 = held d1"
      using acquire_law[OF _ a] K by blast+
    show ?thesis
    proof (cases "ret = GSERROR_OK")
      case ret: True
      then obtain i where "b = Some i" "held d2 = insert i (held d)" using A(2) K by auto
      then show ?thesis using False ret a n1 A(1) own
        by (cases "sh_buffer n") (auto simp: ConsumeAndUpdateBuffer_def D Let_def sh_SetDamageRegion_def sh_SetFence_def sh_SetBuffer_def ReduceAvailableBuffer_def)
    next
      case ret: False
      then show ?thesis using False a n1 A own K
        by (cases "sh_buffer n") (auto simp: ConsumeAndUpdateBuffer_def D Let_def sh_SetDamageRegion_def sh_SetFence_def sh_SetBuffer_def)
    qed
  qed
qed

definition node_ok :: "'a handler_scheme \<Rightarrow> hlayer \<Rightarrow> 'd \<Rightarrow> bool" where
  "node_ok n l d \<longleftrightarrow> ok d \<and> sh_consumer n = Some c \<and> held d = set_option (sh_buffer n) \<and>
     (sh_buffer n = None \<longrightarrow> sh_preBuffer n = None) \<and> (sh_buffer n \<noteq> None \<longrightarrow> sh_fence n \<noteq> None) \<and>
     (\<exists>x y. hl_curr l = Some x \<and> lb_release x \<noteq> None \<and> hl_prev l = Some y \<and> lb_release y \<noteq> None)"

lemma consume_fence:
  assumes "ConsumeAndUpdateBuffer C False n d = Some (True, vs, n', d')" and "sh_buffer n \<noteq> None \<longrightarrow> sh_fence n \<noteq> None"
  shows "sh_fence n' \<noteq> None \<and> sh_preFence n' = sh_fence n"
  using assms
  by (auto simp: ConsumeAndUpdateBuffer_def DropFrameProcess_def ReduceAvailableBuffer_def sh_SetDamageRegion_def sh_SetFence_def sh_SetBuffer_def Let_def
      split: option.splits prod.splits if_splits)

lemma consume_failed_fence:
  assumes "ConsumeAndUpdateBuffer C False n d = Some (False, vs, n', d')"
  shows "sh_fence n' = sh_fence n"
  using assms
  by (auto simp: ConsumeAndUpdateBuffer_def DropFrameProcess_def ReduceAvailableBuffer_def Let_def split: option.splits prod.splits if_splits)

text \<open>
  A node that has taken its buffer: when its layer is updated with that buffer and releases the buffer before, the node
  has exactly one buffer again, the one it shows. A node that found none keeps none.
\<close>

lemma layer_keeps:
  assumes N: "node_ok n l d" and got: "ConsumeAndUpdateBuffer C False n d = Some (True, vs, n1, d1)"
    and v: "\<And>i f d. surface_ReleaseBuffer v c i f d = co_ReleaseBuffer C c (Some i) f d"
    and i: "li_surface i = c" "node_layer_info n1 i = i"
  shows "\<exists>l1 l' d'. UpdateLayerInfo (Some i) l = Some l1 \<and> hl_ReleaseBuffer v l1 d1 = Some (l', d') \<and> node_ok n1 l' d'"
proof -
  note N' = N[unfolded node_ok_def]
  obtain x y where l: "hl_curr l = Some x" "lb_release x \<noteq> None" "hl_prev l = Some y" "lb_release y \<noteq> None" using N' by blast
  obtain r vs' n' d' where c': "ConsumeAndUpdateBuffer C False n d = Some (r, vs', n', d')" "ok d'" "sh_consumer n' = Some c"
      and res': "if r then sh_buffer n' \<noteq> None \<and> sh_preBuffer n' = (if sh_buffer n = None then sh_preBuffer n else sh_buffer n) \<and>
         held d' = set_option (sh_buffer n) \<union> set_option (sh_buffer n')
       else sh_buffer n = None \<and> sh_buffer n' = None \<and> sh_preBuffer n' = sh_preBuffer n \<and> held d' = held d"
    using consume_holds[of d n] N' by blast
  have c1: "ok d1" "sh_consumer n1 = Some c"
      and res: "sh_buffer n1 \<noteq> None" "sh_preBuffer n1 = (if sh_buffer n = None then sh_preBuffer n else sh_buffer n)"
         "held d1 = set_option (sh_buffer n) \<union> set_option (sh_buffer n1)"
    using c' res' got by (auto split: if_splits)
  obtain b where b: "sh_buffer n1 = Some b" and pre: "sh_preBuffer n1 = sh_buffer n"
      and h1: "held d1 = set_option (sh_buffer n) \<union> {b}"
    using res N' by (auto split: if_splits)
  have f: "sh_fence n1 \<noteq> None" "sh_preFence n1 = sh_fence n" using consume_fence[of n d vs n1 d1] got N' by simp_all
  have io: "li_buffer i = Some b" "li_acquire i = sh_fence n1" "li_preBuffer i = sh_buffer n" "li_preAcquire i = sh_fence n"
    using arg_cong[OF i(2), of li_buffer] arg_cong[OF i(2), of li_acquire] arg_cong[OF i(2), of li_preBuffer] arg_cong[OF i(2), of li_preAcquire]
    by (simp_all add: node_layer_info_def li_SetBuffer_def b pre f)
  define l1 where "l1 = l\<lparr>hl_inUsing := True, hl_info := Some i,
    hl_curr := Some (x\<lparr>lb_buffer := Some b, lb_acquire := sh_fence n1\<rparr>), hl_prev := Some (y\<lparr>lb_buffer := sh_buffer n, lb_acquire := sh_fence n\<rparr>)\<rparr>"
  have u: "UpdateLayerInfo (Some i) l = Some l1" by (simp add: UpdateLayerInfo_def l l1_def io)
  have "\<exists>l' d'. hl_ReleaseBuffer v l1 d1 = Some (l', d') \<and> ok d' \<and> held d' = {b} \<and>
    (\<exists>x y. hl_curr l' = Some x \<and> lb_release x \<noteq> None \<and> hl_prev l' = Some y \<and> lb_release y \<noteq> None)"
  proof (cases "sh_buffer n")
    case None
    then show ?thesis using c1(1) h1 l by (simp add: hl_ReleaseBuffer_def ReleasePrevBuffer_def l1_def)
  next
    case (Some p)
    show ?thesis
    proof (cases "p = b")
      case True
      then show ?thesis using Some c1(1) h1 l f N' by (auto simp: hl_ReleaseBuffer_def hl_Merge_def l1_def)
    next
      case False
      obtain q d2 where rel: "co_ReleaseBuffer C c (Some p) (lb_release y) d1 = (q, d2)" by fastforce
      have "q = GSERROR_OK \<and> ok d2 \<and> held d2 = {b}" using release_law[OF c1(1) _ rel] h1 Some False by auto
      then show ?thesis using Some False l rel v i(1)
        by (simp add: hl_ReleaseBuffer_def ReleasePrevBuffer_def l1_def)
    qed
  qed
  then obtain l' d' where "hl_ReleaseBuffer v l1 d1 = Some (l', d')" "node_ok n1 l' d'"
    using b c1(2) f by (auto simp: node_ok_def)
  then show ?thesis using u by blast
qed

lemma no_buffer_keeps:
  assumes N: "node_ok n l d" and got: "ConsumeAndUpdateBuffer C False n d = Some (False, vs, n1, d1)"
  shows "node_ok n1 l d1"
proof -
  note N' = N[unfolded node_ok_def]
  obtain r vs' n' d' where "ConsumeAndUpdateBuffer C False n d = Some (r, vs', n', d')" "ok d'" "sh_consumer n' = Some c"
      "if r then sh_buffer n' \<noteq> None \<and> sh_preBuffer n' = (if sh_buffer n = None then sh_preBuffer n else sh_buffer n) \<and>
         held d' = set_option (sh_buffer n) \<union> set_option (sh_buffer n')
       else sh_buffer n = None \<and> sh_buffer n' = None \<and> sh_preBuffer n' = sh_preBuffer n \<and> held d' = held d"
    using consume_holds[of d n] N' by blast
  then show ?thesis using got N' consume_failed_fence[OF got] by (auto simp: node_ok_def)
qed

text \<open>The task posted while a node is not shown, and the software processor, keep the node with its one buffer.\<close>

lemma off_tree_keeps:
  assumes N: "node_ok n l d" and T: "off_tree_task C n d = (n', d')"
  shows "node_ok n' l d'"
proof -
  note N' = N[unfolded node_ok_def]
  obtain ret b f r d1 where a: "co_AcquireBuffer C c d = (ret, (b, f, r), d1)" by (metis prod.exhaust)
  have A: "ok d1" "if ret = GSERROR_OK then f \<noteq> None \<and> (\<exists>i. b = Some i \<and> i \<notin> held d \<and> held d1 = insert i (held d)) else held d1 = held d"
    using acquire_law[OF _ a] N' by blast+
  show ?thesis
  proof (cases "b = None \<or> ret \<noteq> GSERROR_OK")
    case True
    then have "held d1 = held d" using A(2) by (auto split: if_splits)
    moreover have "n' = n" "d' = d1" using T True a N' by (auto simp: off_tree_task_def)
    ultimately show ?thesis using N' A(1) by (simp add: node_ok_def)
  next
    case False
    then obtain i where i: "b = Some i" "i \<notin> held d" "held d1 = insert i (held d)" "f \<noteq> None" using A(2) by auto
    show ?thesis
    proof (cases "sh_buffer n")
      case None
      then show ?thesis using T False a N' i A(1) by (auto simp: off_tree_task_def node_ok_def sh_SetBuffer_def sh_SetFence_def)
    next
      case (Some p)
      then have p: "p \<noteq> i" "p \<in> held d1" using i N' by auto
      obtain q d2 where rel: "co_ReleaseBuffer C c (Some p) (Some INVALID_FD) d1 = (q, d2)" by fastforce
      have "ok d2" "held d2 = {i}" using release_law[OF A(1) p(2) rel] i Some N' p by auto
      moreover have con: "sh_consumer n = Some c" using N' by blast
      then have "n' = sh_SetFence f (sh_SetBuffer b n)" "d' = d2" using T False a i(1) Some p(1) rel by (simp_all add: off_tree_task_def)
      ultimately show ?thesis using N' i(1,4) Some by (simp add: node_ok_def sh_SetBuffer_def sh_SetFence_def)
    qed
  qed
qed

lemma software_keeps:
  assumes N: "node_ok n l d" and T: "software_take C n d = (b, vs, n', d')"
  shows "node_ok n' l d' \<and> (b = None \<or> b = sh_buffer n')"
proof -
  note N' = N[unfolded node_ok_def]
  obtain n1 d1 where D: "DropFrameProcess C n d = (n1, d1)" by fastforce
  have K: "ok d1 \<and> held d1 = held d \<and> (n1 = n \<or> n1 = ReduceAvailableBuffer n)" using drop_keeps[OF _ _ D] N' by blast
  then have "sh_buffer n1 = sh_buffer n" "sh_preBuffer n1 = sh_preBuffer n" "sh_fence n1 = sh_fence n" "sh_consumer n1 = sh_consumer n"
    by (auto simp: ReduceAvailableBuffer_def)
  then have n1: "node_ok n1 l d1" using N' K by (simp add: node_ok_def)
  note M = n1[unfolded node_ok_def]
  show ?thesis
  proof (cases "sh_available n1 > 0")
    case False
    have "sh_consumer n1 = Some c" using M by blast
    with False T D have "n' = n1" "d' = d1" "b = sh_buffer n1" by (auto simp: software_take_def)
    then show ?thesis using n1 by simp
  next
    case True
    have con: "sh_consumer n1 = Some c" using M by blast
    obtain ret x f r d2 where a: "co_AcquireBuffer C c d1 = (ret, (x, f, r), d2)" by (metis prod.exhaust)
    have A: "ok d2" "if ret = GSERROR_OK then f \<noteq> None \<and> (\<exists>i. x = Some i \<and> i \<notin> held d1 \<and> held d2 = insert i (held d1)) else held d2 = held d1"
      using acquire_law[OF _ a] M by blast+
    show ?thesis
    proof (cases "ret = GSERROR_OK")
      case False
      with T D True a con have "n' = n1" "d' = d2" "b = None" by (simp_all add: software_take_def)
      then show ?thesis using M A False by (simp add: node_ok_def)
    next
      case ret: True
      then obtain i where i: "x = Some i" "i \<notin> held d1" "held d2 = insert i (held d1)" "f \<noteq> None" using A(2) by auto
      show ?thesis
      proof (cases "sh_buffer n1")
        case None
        with T D True a con ret i(1) have "n' = ReduceAvailableBuffer (sh_SetFence f (sh_SetBuffer x n1))" "d' = d2" "b = x"
          by (auto simp: software_take_def Let_def)
        then show ?thesis using M A(1) i None by (simp add: node_ok_def sh_SetBuffer_def sh_SetFence_def ReduceAvailableBuffer_def)
      next
        case (Some p)
        then have p: "p \<noteq> i" "p \<in> held d2" using i M by auto
        obtain q d3 where rel: "co_ReleaseBuffer C c (Some p) (Some INVALID_FD) d2 = (q, d3)" by fastforce
        have "q = GSERROR_OK" "ok d3" "held d3 = {i}" using release_law[OF A(1) p(2) rel] i Some M p by auto
        with T D True a con ret i(1) Some p rel
        have "n' = ReduceAvailableBuffer (sh_SetFence f (sh_SetBuffer x n1))" "d' = d3" "b = x"
          by (auto simp: software_take_def Let_def)
        with \<open>ok d3\<close> \<open>held d3 = {i}\<close> show ?thesis using M i Some
          by (simp add: node_ok_def sh_SetBuffer_def sh_SetFence_def ReduceAvailableBuffer_def)
      qed
    qed
  qed
qed

text \<open>
  What goes wrong. A frame that is not composed gives back the buffer before, which is the node's own buffer when
  there is no new one; a node that is not on the tree stores a buffer it has given back, and forgets the one it has.
\<close>

lemma hidden_frame_gives_back:
  assumes N: "node_ok n l d" and b: "sh_buffer n = Some b" and z: "sh_available n = 0"
  shows "\<exists>n' d'. hidden_frame C n d = Some (n', d') \<and> sh_buffer n' = Some b \<and> ok d' \<and> held d' = {}"
proof -
  note N' = N[unfolded node_ok_def]
  have drop: "DropFrameProcess C n d = (n, d)" using z by (simp add: DropFrameProcess_def split: option.split)
  define n1 where "n1 = sh_SetDamageRegion (sh_damage n) (sh_SetFence (sh_fence n) (sh_SetBuffer (Some b) n))"
  have c: "ConsumeAndUpdateBuffer C False n d = Some (True, False, n1, d)"
    using drop z b by (simp add: ConsumeAndUpdateBuffer_def n1_def)
  have n1: "sh_buffer n1 = Some b" "sh_preBuffer n1 = Some b" "sh_consumer n1 = Some c"
    using b N' by (simp_all add: n1_def sh_SetDamageRegion_def sh_SetFence_def sh_SetBuffer_def)
  obtain q d1 where rel: "co_ReleaseBuffer C c (Some b) (Some INVALID_FD) d = (q, d1)" by fastforce
  have "ok d1" "held d1 = {}" using release_law[OF _ _ rel] N' b by auto
  then show ?thesis using c n1 rel by (auto simp: hidden_frame_def ReleaseNodePrevBuffer_def)
qed

lemma off_tree_forgets:
  assumes N: "node_ok n l d" and p: "sh_buffer n = Some p" and av: "0 < sh_available n"
    and a: "co_AcquireBuffer C c d = (GSERROR_OK, x, d1)"
  shows "\<exists>b n' d'. ConsumeNodeNotOnTree C n d = (n', d') \<and> b \<noteq> p \<and> sh_buffer n' = Some b \<and> sh_preBuffer n' = Some p \<and> ok d' \<and> held d' = {p}"
proof -
  note N' = N[unfolded node_ok_def]
  obtain y f r where x: "x = (y, f, r)" by (metis prod.exhaust)
  have "ok d1" and A: "\<exists>i. y = Some i \<and> i \<notin> held d \<and> held d1 = insert i (held d)"
    using acquire_law[OF _ a[unfolded x]] N' by (auto split: if_splits)
  then obtain i where i: "y = Some i" "i \<notin> held d" "held d1 = insert i (held d)" by blast
  obtain q d2 where rel: "co_ReleaseBuffer C c (Some i) (Some INVALID_FD) d1 = (q, d2)" by fastforce
  have "ok d2" "held d2 = {p}" using release_law[OF \<open>ok d1\<close> _ rel] i N' p by auto
  moreover have "i \<noteq> p" using i(2) N' p by auto
  ultimately show ?thesis using a x i(1) rel av p N'
    by (auto simp: ConsumeNodeNotOnTree_def ReduceAvailableBuffer_def sh_SetFence_def sh_SetBuffer_def)
qed

end

end
