(* ===== verification/Hdi_Output.thy ===== *)
theory Hdi_Output
  imports Hdi_Layer
begin

text \<open>
  The output of one screen, \<open>HdiOutput\<close> (\<open>rosen/modules/composer/hdi_backend/src/hdi_output.cpp\<close>): the layers
  shown on it by layer id and by surface, and its framebuffer surface, \<open>HdiFramebufferSurface\<close>
  (\<open>hdi_framebuffer_surface.cpp\<close>).

  The two maps hold shared pointers to layers: numbers into the store \<open>ho_layers\<close>. A layer no map names any
  more is destroyed, which closes the driver's layer (\<open>unref\<close>). The maps are unordered: a loop visits them in
  the order \<open>visits\<close> gives.
\<close>

section \<open>The framebuffer surface\<close>

text \<open>
  The surface made for the framebuffer lies outside, like those of the layers; \<open>fb_ops\<close> are the calls
  of it; \<open>fb_create\<close> makes it and registers the listener. \<open>wait_for\<close> is what happens while a thread waits for a buffer.
\<close>

record fb_entry =
  fe_buffer :: "nat option"
  fe_acquire :: "int option"
  fe_time :: int
  fe_damage :: rect

record fb_surface =
  fb_id :: "64 word"
  availableBuffers :: "fb_entry list"

record 'd fb_ops =
  fb_acquire :: "64 word \<Rightarrow> 'd \<Rightarrow> gserror \<times> fb_entry \<times> 'd"
  fb_release :: "64 word \<Rightarrow> nat \<Rightarrow> int option \<Rightarrow> 'd \<Rightarrow> gserror \<times> 'd"
  fb_create :: "'d \<Rightarrow> gserror \<times> 64 word \<times> 'd"
  fb_SetQueueSize :: "64 word \<Rightarrow> 32 word \<Rightarrow> 'd \<Rightarrow> gserror \<times> 'd"
  wait_for :: "fb_surface \<Rightarrow> 'd \<Rightarrow> fb_surface \<times> 'd"

definition MAX_BUFFER_SIZE :: "32 word" where "MAX_BUFFER_SIZE = 3"

definition CreateFramebufferSurface :: "'d fb_ops \<Rightarrow> 'd \<Rightarrow> fb_surface option \<times> 'd" where
  "CreateFramebufferSurface F d =
     (let (ret, i, d) = fb_create F d
      in if ret \<noteq> GSERROR_OK then (None, d)
         else
           (let (ret, d) = fb_SetQueueSize F i MAX_BUFFER_SIZE d
            in if ret \<noteq> GSERROR_OK then (None, d) else (Some \<lparr>fb_id = i, availableBuffers = []\<rparr>, d)))"

definition OnBufferAvailable :: "'d fb_ops \<Rightarrow> fb_surface \<Rightarrow> 'd \<Rightarrow> fb_surface \<times> 'd" where
  "OnBufferAvailable F fb d =
     (let (ret, e, d) = fb_acquire F (fb_id fb) d
      in if ret \<noteq> GSERROR_OK \<or> fe_buffer e = None then (fb, d)
         else (fb\<lparr>availableBuffers := availableBuffers fb @ [e]\<rparr>, d))"

definition fb_GetFramebuffer :: "'d fb_ops \<Rightarrow> fb_surface \<Rightarrow> 'd \<Rightarrow> fb_entry option \<times> fb_surface \<times> 'd" where
  "fb_GetFramebuffer F fb d =
     (let (fb, d) = (if availableBuffers fb = [] then wait_for F fb d else (fb, d))
      in case availableBuffers fb of
           [] \<Rightarrow> (None, fb, d)
         | e # es \<Rightarrow> (Some e, fb\<lparr>availableBuffers := es\<rparr>, d))"

text \<open>Waiting for the fence, at most three seconds, is without effect.\<close>

definition fb_ReleaseFramebuffer :: "'d fb_ops \<Rightarrow> nat option \<Rightarrow> int option \<Rightarrow> fb_surface \<Rightarrow> 'd \<Rightarrow> int \<times> 'd" where
  "fb_ReleaseFramebuffer F buffer releaseFence fb d =
     (case buffer of None \<Rightarrow> (0, d) | Some b \<Rightarrow> fb_release F (fb_id fb) b releaseFence d)"

section \<open>The output\<close>

record houtput =
  ho_screen :: "32 word"
  layerIdMap :: "(32 word, nat) omap"
  surfaceIdMap :: "(64 word, nat) omap"
  ho_layers :: "nat \<Rightarrow> hlayer option"
  ho_next :: nat
  ho_fb :: "fb_surface option"
  ho_damage :: rect
  ho_damageNum :: "32 word"
  ho_times :: "int list"
  ho_timeIdx :: nat

definition COMPOSITION_RECORDS_NUM :: nat where "COMPOSITION_RECORDS_NUM = 128"

text \<open>The damage is not initialised; \<open>junk\<close> and \<open>junkNum\<close> are what it holds.\<close>

definition CreateHdiOutput :: "rect \<Rightarrow> 32 word \<Rightarrow> 32 word \<Rightarrow> houtput" where
  "CreateHdiOutput junk junkNum sid =
     \<lparr>ho_screen = sid, layerIdMap = [], surfaceIdMap = [], ho_layers = (\<lambda>_. None), ho_next = 0, ho_fb = None,
      ho_damage = junk, ho_damageNum = junkNum, ho_times = replicate COMPOSITION_RECORDS_NUM 0, ho_timeIdx = 0\<rparr>"

definition ho_Init :: "'d fb_ops \<Rightarrow> houtput \<Rightarrow> 'd \<Rightarrow> bool \<times> houtput \<times> 'd" where
  "ho_Init F o1 d =
     (if ho_fb o1 \<noteq> None then (True, o1, d)
      else (let (fb, d) = CreateFramebufferSurface F d in (fb \<noteq> None, o1\<lparr>ho_fb := fb\<rparr>, d)))"

record visits =
  by_layer :: "(32 word \<times> nat) list \<Rightarrow> (32 word \<times> nat) list"
  by_surface :: "(64 word \<times> nat) list \<Rightarrow> (64 word \<times> nat) list"

definition referenced :: "nat \<Rightarrow> houtput \<Rightarrow> bool" where
  "referenced a o1 \<longleftrightarrow> a \<in> snd ` set (layerIdMap o1) \<or> a \<in> snd ` set (surfaceIdMap o1)"

text \<open>A pointer to the layer \<open>a\<close> went away.\<close>

definition unref :: "('d, 'm) layer_vendor_scheme \<Rightarrow> nat \<Rightarrow> houtput \<Rightarrow> 'd \<Rightarrow> (houtput \<times> 'd) option" where
  "unref v a o1 d =
     (if referenced a o1 then Some (o1, d)
      else
        (case ho_layers o1 a of
           None \<Rightarrow> Some (o1, d)
         | Some l \<Rightarrow> map_option (\<lambda>d. (o1\<lparr>ho_layers := (ho_layers o1)(a := None)\<rparr>, d)) (hl_CloseLayer v l d)))"

definition unref_old :: "('d, 'm) layer_vendor_scheme \<Rightarrow> nat option \<Rightarrow> houtput \<Rightarrow> 'd \<Rightarrow> (houtput \<times> 'd) option" where
  "unref_old v old o1 d = (case old of None \<Rightarrow> Some (o1, d) | Some a \<Rightarrow> unref v a o1 d)"

definition the_layer :: "houtput \<Rightarrow> nat \<Rightarrow> hlayer" where
  "the_layer o1 a = the (ho_layers o1 a)"

definition set_layer :: "nat \<Rightarrow> hlayer \<Rightarrow> houtput \<Rightarrow> houtput" where
  "set_layer a l o1 = o1\<lparr>ho_layers := (ho_layers o1)(a \<mapsto> l)\<rparr>"

text \<open>A layer that could not be initialised goes at once; it has no layer of the driver to close.\<close>

definition ho_CreateLayer ::
    "('d, 'm) layer_vendor_scheme \<Rightarrow> int list \<Rightarrow> 64 word \<Rightarrow> layer_info \<Rightarrow> houtput \<Rightarrow> 'd \<Rightarrow> (int \<times> houtput \<times> 'd) option" where
  "ho_CreateLayer v junk surfaceId info o1 d =
     Option.bind (hl_Init v (Some info) (CreateHdiLayer junk (ho_screen o1)) d) (\<lambda>(ok, l, d).
       if \<not> ok then map_option (\<lambda>d. (DISPLAY_FAILURE (codes v), o1, d)) (hl_CloseLayer v l d)
       else
         Option.bind (UpdateLayerInfo (Some info) l) (\<lambda>l.
           let a = ho_next o1;
               o1 = (set_layer a l o1)\<lparr>ho_next := Suc a\<rparr>;
               oldL = map_of (layerIdMap o1) (hl_id l);
               o1 = o1\<lparr>layerIdMap := om_put (hl_id l) a (layerIdMap o1)\<rparr>
           in Option.bind (unref_old v oldL o1 d) (\<lambda>(o1, d).
              let oldS = map_of (surfaceIdMap o1) surfaceId;
                  o1 = o1\<lparr>surfaceIdMap := om_put surfaceId a (surfaceIdMap o1)\<rparr>
              in map_option (\<lambda>(o1, d). (success v, o1, d)) (unref_old v oldS o1 d))))"

definition same_size :: "layer_info \<Rightarrow> layer_info \<Rightarrow> bool" where
  "same_size i j \<longleftrightarrow> rw (li_size i) = rw (li_size j) \<and> rh (li_size i) = rh (li_size j)"

text \<open>The loop of \<open>SetLayerInfo\<close>; the answer tells whether it came to its end.\<close>

fun set_layer_infos ::
    "('d, 'm) layer_vendor_scheme \<Rightarrow> int list \<Rightarrow> layer_info list \<Rightarrow> houtput \<Rightarrow> 'd \<Rightarrow> (bool \<times> houtput \<times> 'd) option" where
  "set_layer_infos v junk [] o1 d = Some (True, o1, d)"
| "set_layer_infos v junk (info # infos) o1 d =
     (let surfaceId = li_surface info;
          create = Option.bind (ho_CreateLayer v junk surfaceId info o1 d) (\<lambda>(ret, o1, d).
                     if ret \<noteq> success v then Some (False, o1, d) else set_layer_infos v junk infos o1 d)
      in case map_of (surfaceIdMap o1) surfaceId of
           None \<Rightarrow> create
         | Some a \<Rightarrow>
             Option.bind (hl_info (the_layer o1 a)) (\<lambda>old.
               if same_size old info
               then Option.bind (UpdateLayerInfo (Some info) (the_layer o1 a)) (\<lambda>l. set_layer_infos v junk infos (set_layer a l o1) d)
               else create))"

fun delete_surfaces :: "('d, 'm) layer_vendor_scheme \<Rightarrow> (64 word \<times> nat) list \<Rightarrow> houtput \<Rightarrow> 'd \<Rightarrow> (houtput \<times> 'd) option" where
  "delete_surfaces v [] o1 d = Some (o1, d)"
| "delete_surfaces v ((k, a) # es) o1 d =
     (if hl_inUsing (the_layer o1 a) then delete_surfaces v es o1 d
      else Option.bind (unref v a (o1\<lparr>surfaceIdMap := om_del k (surfaceIdMap o1)\<rparr>) d) (\<lambda>(o1, d). delete_surfaces v es o1 d))"

fun delete_layers :: "('d, 'm) layer_vendor_scheme \<Rightarrow> (32 word \<times> nat) list \<Rightarrow> houtput \<Rightarrow> 'd \<Rightarrow> (houtput \<times> 'd) option" where
  "delete_layers v [] o1 d = Some (o1, d)"
| "delete_layers v ((k, a) # es) o1 d =
     (if hl_inUsing (the_layer o1 a) then delete_layers v es o1 d
      else Option.bind (unref v a (o1\<lparr>layerIdMap := om_del k (layerIdMap o1)\<rparr>) d) (\<lambda>(o1, d). delete_layers v es o1 d))"

definition DeletePrevLayers :: "('d, 'm) layer_vendor_scheme \<Rightarrow> visits \<Rightarrow> houtput \<Rightarrow> 'd \<Rightarrow> (houtput \<times> 'd) option" where
  "DeletePrevLayers v vs o1 d =
     Option.bind (delete_surfaces v (by_surface vs (surfaceIdMap o1)) o1 d) (\<lambda>(o1, d).
       delete_layers v (by_layer vs (layerIdMap o1)) o1 d)"

definition ResetLayerStatus :: "houtput \<Rightarrow> houtput" where
  "ResetLayerStatus o1 = fold (\<lambda>a o1. set_layer a (SetLayerStatus False (the_layer o1 a)) o1) (map snd (layerIdMap o1)) o1"

definition SetLayerInfo ::
    "('d, 'm) layer_vendor_scheme \<Rightarrow> int list \<Rightarrow> visits \<Rightarrow> layer_info list \<Rightarrow> houtput \<Rightarrow> 'd \<Rightarrow> (houtput \<times> 'd) option" where
  "SetLayerInfo v junk vs layerInfos o1 d =
     Option.bind (set_layer_infos v junk layerInfos o1 d) (\<lambda>(ended, o1, d).
       if \<not> ended then Some (o1, d)
       else map_option (\<lambda>(o1, d). (ResetLayerStatus o1, d)) (DeletePrevLayers v vs o1 d))"

definition SetOutputDamage :: "32 word \<Rightarrow> rect \<Rightarrow> houtput \<Rightarrow> houtput" where
  "SetOutputDamage num outputDamage o1 = o1\<lparr>ho_damageNum := num, ho_damage := outputDamage\<rparr>"

definition ho_GetFramebuffer :: "'d fb_ops \<Rightarrow> houtput \<Rightarrow> 'd \<Rightarrow> fb_entry option \<times> houtput \<times> 'd" where
  "ho_GetFramebuffer F o1 d =
     (case ho_fb o1 of
        None \<Rightarrow> (None, o1, d)
      | Some fb \<Rightarrow> (let (e, fb, d) = fb_GetFramebuffer F fb d in (e, o1\<lparr>ho_fb := Some fb\<rparr>, d)))"

definition ho_ReleaseFramebuffer :: "'d fb_ops \<Rightarrow> nat option \<Rightarrow> int option \<Rightarrow> houtput \<Rightarrow> 'd \<Rightarrow> int \<times> 'd" where
  "ho_ReleaseFramebuffer F buffer releaseFence o1 d =
     (case ho_fb o1 of None \<Rightarrow> (-1, d) | Some fb \<Rightarrow> fb_ReleaseFramebuffer F buffer releaseFence fb d)"

definition RecordCompositionTime :: "int \<Rightarrow> houtput \<Rightarrow> houtput" where
  "RecordCompositionTime t o1 =
     o1\<lparr>ho_times := (ho_times o1)[ho_timeIdx o1 := t], ho_timeIdx := (ho_timeIdx o1 + 1) mod COMPOSITION_RECORDS_NUM\<rparr>"

end
