(* ===== verification/Hdi_Output_Inv.thy ===== *)
theory Hdi_Output_Inv
  imports Hdi_Output
begin

text \<open>
  The invariant of an output and the driver behind it: the two maps name living layers, each under its id and
  its surface, and the layers the driver has open for the screen are the layers the output holds. Setting
  the layers of a frame never faults and keeps it.
\<close>

section \<open>The driver's contract\<close>

text \<open>
  \<open>open\<close> reads off the driver's state which layers are open, by screen and id. A layer created gets an id that
  is not open on its screen, a layer that cannot be created changes nothing, and closing a layer always removes it: the code
  does not look at the result of \<open>CloseLayer\<close>, so a driver that refused to close one would keep it for good.
\<close>

definition layer_driver :: "('d, 'm) layer_vendor_scheme \<Rightarrow> ('d \<Rightarrow> (32 word \<times> 32 word) set) \<Rightarrow> bool" where
  "layer_driver v opened \<longleftrightarrow> available v \<and> DISPLAY_FAILURE (codes v) \<noteq> success v \<and>
     (\<forall>s wh d ret k d'. hd_CreateLayer v s wh 0 d = (ret, k, d') \<longrightarrow>
        (if ret = success v then k \<noteq> INT_MAX \<and> (s, k) \<notin> opened d \<and> opened d' = insert (s, k) (opened d) else opened d' = opened d)) \<and>
     (\<forall>s k d. opened (snd (hd_CloseLayer v s k d)) = opened d - {(s, k)})"

lemma layer_driverD:
  assumes "layer_driver v opened"
  shows "available v" and "DISPLAY_FAILURE (codes v) \<noteq> success v"
    and "hd_CreateLayer v s wh 0 d = (ret, k, d') \<Longrightarrow> ret = success v \<Longrightarrow> k \<noteq> INT_MAX \<and> (s, k) \<notin> opened d \<and> opened d' = insert (s, k) (opened d)"
    and "hd_CreateLayer v s wh 0 d = (ret, k, d') \<Longrightarrow> ret \<noteq> success v \<Longrightarrow> opened d' = opened d"
    and "opened (snd (hd_CloseLayer v s k d)) = opened d - {(s, k)}"
  using assms unfolding layer_driver_def by (blast, blast, metis (full_types), metis (full_types), blast)

section \<open>The invariant\<close>

abbreviation layer_of :: "houtput \<Rightarrow> 32 word \<Rightarrow> nat option" where "layer_of o1 k \<equiv> map_of (layerIdMap o1) k"
abbreviation shown_by :: "houtput \<Rightarrow> 64 word \<Rightarrow> nat option" where "shown_by o1 s \<equiv> map_of (surfaceIdMap o1) s"

definition layer_ok :: "houtput \<Rightarrow> 32 word \<Rightarrow> hlayer \<Rightarrow> bool" where
  "layer_ok o1 k l \<longleftrightarrow> hl_id l = k \<and> hl_screen l = ho_screen o1 \<and> k \<noteq> INT_MAX \<and>
     hl_curr l \<noteq> None \<and> hl_prev l \<noteq> None \<and> hl_info l \<noteq> None"

definition output_ok :: "houtput \<Rightarrow> bool" where
  "output_ok o1 \<longleftrightarrow> om_wf (layerIdMap o1) \<and> om_wf (surfaceIdMap o1) \<and>
     (\<forall>k a. layer_of o1 k = Some a \<longrightarrow> a < ho_next o1 \<and> (\<exists>l. ho_layers o1 a = Some l \<and> layer_ok o1 k l)) \<and>
     (\<forall>a l. ho_layers o1 a = Some l \<longrightarrow> layer_of o1 (hl_id l) = Some a) \<and>
     (\<forall>s a. shown_by o1 s = Some a \<longrightarrow> (\<exists>l i. ho_layers o1 a = Some l \<and> hl_info l = Some i \<and> li_surface i = s))"

lemma output_okD:
  assumes "output_ok o1"
  shows "om_wf (layerIdMap o1)" and "om_wf (surfaceIdMap o1)"
    and "layer_of o1 k = Some a \<Longrightarrow> a < ho_next o1 \<and> (\<exists>l. ho_layers o1 a = Some l \<and> layer_ok o1 k l)"
    and "ho_layers o1 a = Some l \<Longrightarrow> layer_of o1 (hl_id l) = Some a"
    and "shown_by o1 s = Some a \<Longrightarrow> \<exists>l i. ho_layers o1 a = Some l \<and> hl_info l = Some i \<and> li_surface i = s"
  using assms unfolding output_ok_def by blast+

definition open_here :: "houtput \<Rightarrow> (32 word \<times> 32 word) set \<Rightarrow> bool" where
  "open_here o1 op \<longleftrightarrow> (\<forall>k. (ho_screen o1, k) \<in> op \<longleftrightarrow> layer_of o1 k \<noteq> None)"

lemma om_entry: "om_wf m \<Longrightarrow> (k, a) \<in> set m \<longleftrightarrow> map_of m k = Some a"
  by (simp add: map_of_eq_Some_iff om_wf_distinct)

lemma om_vals: "om_wf m \<Longrightarrow> a \<in> snd ` set m \<longleftrightarrow> (\<exists>k. map_of m k = Some a)"
  by (auto simp: image_iff om_entry Bex_def)

lemma referenced_iff:
  assumes "om_wf (layerIdMap o1)" and "om_wf (surfaceIdMap o1)"
  shows "referenced a o1 \<longleftrightarrow> (\<exists>k. layer_of o1 k = Some a) \<or> (\<exists>s. shown_by o1 s = Some a)"
  by (simp add: referenced_def om_vals[OF assms(1)] om_vals[OF assms(2)])

lemma layer_of_fun:
  assumes "output_ok o1" and "layer_of o1 k = Some a" and "layer_of o1 j = Some a"
  shows "j = k"
  using output_okD(3)[OF assms(1,2)] output_okD(3)[OF assms(1,3)] by (auto simp: layer_ok_def)

text \<open>What the invariant reads.\<close>

lemma output_ok_set_layer:
  assumes ok: "output_ok o1" and l: "ho_layers o1 a = Some l"
    and same: "hl_id l' = hl_id l" "hl_screen l' = hl_screen l" "hl_curr l' \<noteq> None" "hl_prev l' \<noteq> None"
      "map_option li_surface (hl_info l') = map_option li_surface (hl_info l)"
  shows "output_ok (set_layer a l' o1)"
proof -
  have k: "layer_of o1 (hl_id l) = Some a" by (rule output_okD(4)[OF ok l])
  have lok: "layer_ok o1 (hl_id l) l" using output_okD(3)[OF ok k] l by auto
  then have info: "hl_info l' \<noteq> None" using same(5) by (auto simp: layer_ok_def)
  have other: "layer_of o1 j = Some a \<Longrightarrow> j = hl_id l" for j using layer_of_fun[OF ok k] .
  show ?thesis
    unfolding output_ok_def
  proof (intro conjI allI impI)
    show "om_wf (layerIdMap (set_layer a l' o1))" "om_wf (surfaceIdMap (set_layer a l' o1))"
      using output_okD(1,2)[OF ok] by (simp_all add: set_layer_def)
  next
    fix j b assume j: "layer_of (set_layer a l' o1) j = Some b"
    then show "b < ho_next (set_layer a l' o1)" using output_okD(3)[OF ok, of j b] by (simp add: set_layer_def)
    show "\<exists>x. ho_layers (set_layer a l' o1) b = Some x \<and> layer_ok (set_layer a l' o1) j x"
    proof (cases "b = a")
      case True
      then have "j = hl_id l" using j other by (simp add: set_layer_def)
      then show ?thesis using True lok same(1-4) info by (simp add: set_layer_def layer_ok_def)
    next
      case False
      then show ?thesis using output_okD(3)[OF ok, of j b] j by (simp add: set_layer_def layer_ok_def)
    qed
  next
    fix b x assume x: "ho_layers (set_layer a l' o1) b = Some x"
    show "layer_of (set_layer a l' o1) (hl_id x) = Some b"
    proof (cases "b = a")
      case True then show ?thesis using x k same(1) by (simp add: set_layer_def)
    next
      case False then show ?thesis using x output_okD(4)[OF ok, of b x] by (simp add: set_layer_def)
    qed
  next
    fix s b assume sb: "shown_by (set_layer a l' o1) s = Some b"
    then obtain x i where x: "ho_layers o1 b = Some x" "hl_info x = Some i" "li_surface i = s"
      using output_okD(5)[OF ok, of s b] by (auto simp: set_layer_def)
    show "\<exists>x i. ho_layers (set_layer a l' o1) b = Some x \<and> hl_info x = Some i \<and> li_surface i = s"
    proof (cases "b = a")
      case True then show ?thesis using x l same(5) by (auto simp: set_layer_def)
    next
      case False then show ?thesis using x by (simp add: set_layer_def)
    qed
  qed
qed

lemma open_here_set_layer [simp]: "open_here (set_layer a l o1) op = open_here o1 op"
  by (simp add: open_here_def set_layer_def)

section \<open>Creating a layer\<close>

lemma CreateLayer_outcome:
  assumes D: "layer_driver v opened" and ok: "output_ok o1" and op: "open_here o1 (opened d)"
  shows "\<exists>ret o2 d2. ho_CreateLayer v junk (li_surface info) info o1 d = Some (ret, o2, d2) \<and> output_ok o2 \<and> open_here o2 (opened d2) \<and>
    (if ret = success v
     then \<exists>l. ho_next o2 = Suc (ho_next o1) \<and> ho_layers o2 = (ho_layers o1)(ho_next o1 \<mapsto> l) \<and> hl_info l = Some info \<and> hl_inUsing l \<and>
       shown_by o2 = (shown_by o1)(li_surface info \<mapsto> ho_next o1) \<and> ho_screen o2 = ho_screen o1 \<and> ho_fb o2 = ho_fb o1
     else o2 = o1)"
proof -
  note av = layer_driverD(1)[OF D]
  obtain ret k d2 where c: "hd_CreateLayer v (ho_screen o1) (rw (li_size info), rh (li_size info)) 0 d = (ret, k, d2)"
    using prod_cases3 by blast
  show ?thesis
  proof (cases "ret = success v")
    case False
    then have "ho_CreateLayer v junk (li_surface info) info o1 d = Some (DISPLAY_FAILURE (codes v), o1, d2)"
      using av c by (simp add: ho_CreateLayer_def hl_Init_def hl_CreateLayer_def CreateHdiLayer_def hl_CloseLayer_def)
    then show ?thesis using layer_driverD(2)[OF D] layer_driverD(4)[OF D c False] ok op by auto
  next
    case True
    note new = layer_driverD(3)[OF D c True]
    let ?a = "ho_next o1"
    define l where "l = \<lparr>hl_screen = ho_screen o1, hl_id = k, hl_inUsing = True,
        hl_curr = Some (new_LayerBufferInfo\<lparr>lb_buffer := li_buffer info, lb_acquire := li_acquire info\<rparr>),
        hl_prev = Some (new_LayerBufferInfo\<lparr>lb_buffer := li_preBuffer info, lb_acquire := li_preAcquire info\<rparr>),
        hl_info = Some info, hl_times = junk, hl_count = 0\<rparr>"
    have lk: "hl_id l = k" by (simp add: l_def)
    have none: "layer_of o1 k = None" using new op by (simp add: open_here_def)
    define o2 where "o2 = (set_layer ?a l o1)\<lparr>ho_next := Suc ?a, layerIdMap := om_put k ?a (layerIdMap o1),
        surfaceIdMap := om_put (li_surface info) ?a (surfaceIdMap o1)\<rparr>"
    have wf: "om_wf (layerIdMap o2)" "om_wf (surfaceIdMap o2)" using output_okD(1,2)[OF ok] by (simp_all add: o2_def set_layer_def)
    have maps: "layer_of o2 = (layer_of o1)(k \<mapsto> ?a)" "shown_by o2 = (shown_by o1)(li_surface info \<mapsto> ?a)"
        "ho_layers o2 = (ho_layers o1)(?a \<mapsto> l)" "ho_screen o2 = ho_screen o1" "ho_next o2 = Suc ?a" "ho_fb o2 = ho_fb o1"
      by (simp_all add: o2_def set_layer_def fun_eq_iff)
    have fresh: "ho_layers o1 ?a = None"
    proof (rule ccontr)
      assume "ho_layers o1 ?a \<noteq> None"
      then obtain x where "ho_layers o1 ?a = Some x" by auto
      from output_okD(3)[OF ok output_okD(4)[OF ok this]] show False by simp
    qed
    have ok2: "output_ok o2"
      unfolding output_ok_def maps
    proof (intro conjI allI impI)
      fix j b assume "((layer_of o1)(k \<mapsto> ?a)) j = Some b"
      then show "b < Suc ?a" "\<exists>x. ((ho_layers o1)(?a \<mapsto> l)) b = Some x \<and> layer_ok o2 j x"
        using output_okD(3)[OF ok, of j b] fresh new by (auto simp: layer_ok_def maps l_def split: if_splits)
    next
      fix b x assume "((ho_layers o1)(?a \<mapsto> l)) b = Some x"
      then show "((layer_of o1)(k \<mapsto> ?a)) (hl_id x) = Some b"
        using output_okD(4)[OF ok, of b x] none by (auto simp: l_def split: if_splits)
    next
      fix s b assume "((shown_by o1)(li_surface info \<mapsto> ?a)) s = Some b"
      then show "\<exists>x i. ((ho_layers o1)(?a \<mapsto> l)) b = Some x \<and> hl_info x = Some i \<and> li_surface i = s"
        using output_okD(5)[OF ok, of s b] fresh by (auto simp: l_def split: if_splits)
    qed (use wf in auto)
    have "unref_old v (shown_by o1 (li_surface info)) o2 d2 = Some (o2, d2)"
    proof (cases "shown_by o1 (li_surface info)")
      case (Some b)
      then obtain x where "ho_layers o1 b = Some x" using output_okD(5)[OF ok Some] by blast
      with output_okD(4)[OF ok] have "layer_of o1 (hl_id x) = Some b" by blast
      then have "layer_of o2 (hl_id x) = Some b" using none by (auto simp: maps)
      then have "referenced b o2" using referenced_iff[OF wf] by blast
      then show ?thesis by (simp add: Some unref_old_def unref_def)
    qed (simp add: unref_old_def)
    then have "ho_CreateLayer v junk (li_surface info) info o1 d = Some (success v, o2, d2)"
      using av c True none
      by (simp add: ho_CreateLayer_def hl_Init_def hl_CreateLayer_def CreateHdiLayer_def UpdateLayerInfo_def Let_def
          unref_old_def[of v None] l_def[symmetric] lk o2_def set_layer_def)
    moreover have "open_here o2 (opened d2)" using op new by (auto simp: open_here_def maps)
    ultimately show ?thesis using ok2 maps by (auto simp: l_def)
  qed
qed

section \<open>The loop over the layers of a frame\<close>

text \<open>One layer of the frame: it updates the layer of its surface or creates one, unless the driver refuses.\<close>

definition one_layer_done :: "layer_info \<Rightarrow> houtput \<Rightarrow> houtput \<Rightarrow> bool" where
  "one_layer_done info o1 o2 \<longleftrightarrow> ho_screen o2 = ho_screen o1 \<and> ho_fb o2 = ho_fb o1 \<and>
     (\<exists>a l. shown_by o2 = (shown_by o1)(li_surface info \<mapsto> a) \<and> ho_layers o2 = (ho_layers o1)(a \<mapsto> l) \<and>
        hl_info l = Some info \<and> hl_inUsing l \<and> (\<forall>s. shown_by o1 s = Some a \<longrightarrow> s = li_surface info) \<and>
        (ho_layers o1 a = None \<or> shown_by o1 (li_surface info) = Some a))"

declare set_layer_infos.simps(2) [simp del]

lemma set_layer_infos_Cons:
  assumes D: "layer_driver v opened" and ok: "output_ok o1" and op: "open_here o1 (opened d)"
  shows "\<exists>o2 d2. output_ok o2 \<and> open_here o2 (opened d2) \<and>
    (set_layer_infos v junk (info # infos) o1 d = set_layer_infos v junk infos o2 d2 \<and> one_layer_done info o1 o2 \<or>
     set_layer_infos v junk (info # infos) o1 d = Some (False, o1, d2) \<and> o2 = o1 \<and>
       (\<exists>wh. fst (hd_CreateLayer v (ho_screen o1) wh 0 d) \<noteq> success v))"
proof -
  let ?s = "li_surface info" and ?g = "set_layer_infos v junk (info # infos) o1 d"
  define create where "create = Option.bind (ho_CreateLayer v junk ?s info o1 d) (\<lambda>(ret, o1, d).
      if ret \<noteq> success v then Some (False, o1, d) else set_layer_infos v junk infos o1 d)"
  have C: ?thesis if g: "?g = create"
  proof -
    obtain ret o2 d2 where c: "ho_CreateLayer v junk ?s info o1 d = Some (ret, o2, d2)" "output_ok o2" "open_here o2 (opened d2)"
      "if ret = success v
       then \<exists>l. ho_next o2 = Suc (ho_next o1) \<and> ho_layers o2 = (ho_layers o1)(ho_next o1 \<mapsto> l) \<and> hl_info l = Some info \<and> hl_inUsing l \<and>
         shown_by o2 = (shown_by o1)(?s \<mapsto> ho_next o1) \<and> ho_screen o2 = ho_screen o1 \<and> ho_fb o2 = ho_fb o1
       else o2 = o1"
      using CreateLayer_outcome[OF D ok op] by blast
    have new: "shown_by o1 s \<noteq> Some (ho_next o1)" for s
      using output_okD(5)[OF ok, of s "ho_next o1"] output_okD(3)[OF ok output_okD(4)[OF ok]] by blast
    show ?thesis
    proof (cases "ret = success v")
      case True
      have "ho_layers o1 (ho_next o1) = None"
        using output_okD(3)[OF ok output_okD(4)[OF ok, of "ho_next o1"]] by (cases "ho_layers o1 (ho_next o1)") auto
      then have "one_layer_done info o1 o2" using True c(4) new unfolding one_layer_done_def by auto
      then show ?thesis unfolding g create_def using c(1-3) True by (intro exI[of _ o2] exI[of _ d2]) simp
    next
      case False
      have "\<exists>wh. fst (hd_CreateLayer v (ho_screen o1) wh 0 d) \<noteq> success v"
      proof (rule ccontr)
        assume "\<not> ?thesis"
        then have "fst (hd_CreateLayer v (ho_screen o1) wh 0 d) = success v" for wh by blast
        then have "\<exists>k d2. hd_CreateLayer v (ho_screen o1) (rw (li_size info), rh (li_size info)) 0 d = (success v, k, d2)"
          by (metis prod.collapse)
        with c(1) False layer_driverD(1)[OF D] show False
          by (auto simp: ho_CreateLayer_def hl_Init_def hl_CreateLayer_def CreateHdiLayer_def UpdateLayerInfo_def Let_def bind_eq_Some_conv)
      qed
      then show ?thesis unfolding g create_def using c False ok by (intro exI[of _ o1] exI[of _ d2]) simp
    qed
  qed
  show ?thesis
  proof (cases "shown_by o1 ?s")
    case None
    then show ?thesis by (intro C) (simp add: set_layer_infos.simps(2) create_def Let_def)
  next
    case (Some a)
    then obtain l i where l: "ho_layers o1 a = Some l" "hl_info l = Some i" "li_surface i = ?s" using output_okD(5)[OF ok] by blast
    show ?thesis
    proof (cases "same_size i info")
      case False
      then show ?thesis by (intro C) (simp add: set_layer_infos.simps(2) create_def Let_def Some the_layer_def l)
    next
      case True
      have lok: "layer_ok o1 (hl_id l) l" using output_okD(3)[OF ok output_okD(4)[OF ok l(1)]] l(1) by auto
      then obtain c p where cp: "hl_curr l = Some c" "hl_prev l = Some p" by (auto simp: layer_ok_def)
      define l2 where "l2 = l\<lparr>hl_inUsing := True, hl_info := Some info,
        hl_curr := Some (c\<lparr>lb_buffer := li_buffer info, lb_acquire := li_acquire info\<rparr>),
        hl_prev := Some (p\<lparr>lb_buffer := li_preBuffer info, lb_acquire := li_preAcquire info\<rparr>)\<rparr>"
      have "?g = set_layer_infos v junk infos (set_layer a l2 o1) d"
        using True by (simp add: set_layer_infos.simps(2) Some the_layer_def l UpdateLayerInfo_def cp l2_def)
      note g1 = this
      have g2: "output_ok (set_layer a l2 o1)"
        by (rule output_ok_set_layer[OF ok l(1)]) (simp_all add: l2_def l)
      have only: "s = ?s" if "shown_by o1 s = Some a" for s using output_okD(5)[OF ok that] l by auto
      have upd: "shown_by (set_layer a l2 o1) = (shown_by o1)(?s \<mapsto> a)" "ho_layers (set_layer a l2 o1) = (ho_layers o1)(a \<mapsto> l2)"
        "hl_info l2 = Some info" "hl_inUsing l2" "ho_screen (set_layer a l2 o1) = ho_screen o1" "ho_fb (set_layer a l2 o1) = ho_fb o1"
        using Some by (simp_all add: set_layer_def l2_def fun_eq_iff)
      have g3: "one_layer_done info o1 (set_layer a l2 o1)"
        unfolding one_layer_done_def using upd only Some by blast
      have g4: "open_here (set_layer a l2 o1) (opened d)" using op by simp
      show ?thesis
        by (rule exI[of _ "set_layer a l2 o1"], rule exI[of _ d], intro conjI disjI1, rule g2, rule g4, rule g1, rule g3)
    qed
  qed
qed

text \<open>
  A driver that has room for \<open>cap\<close> layers on each screen refuses none below it. The old layers of the screen are
  still open when those of the frame are created.
\<close>

definition room :: "('d, 'm) layer_vendor_scheme \<Rightarrow> ('d \<Rightarrow> (32 word \<times> 32 word) set) \<Rightarrow> nat \<Rightarrow> bool" where
  "room v opened cap \<longleftrightarrow> (\<forall>s wh d. card {k. (s, k) \<in> opened d} < cap \<longrightarrow> fst (hd_CreateLayer v s wh 0 d) = success v)"

lemma layers_dom:
  assumes ok: "output_ok o1"
  shows "dom (ho_layers o1) = (\<lambda>k. the (layer_of o1 k)) ` dom (layer_of o1)"
proof
  show "dom (ho_layers o1) \<subseteq> (\<lambda>k. the (layer_of o1 k)) ` dom (layer_of o1)"
  proof
    fix a assume "a \<in> dom (ho_layers o1)"
    then obtain l where "ho_layers o1 a = Some l" by blast
    from output_okD(4)[OF ok this] show "a \<in> (\<lambda>k. the (layer_of o1 k)) ` dom (layer_of o1)" by force
  qed
  show "(\<lambda>k. the (layer_of o1 k)) ` dom (layer_of o1) \<subseteq> dom (ho_layers o1)"
    using output_okD(3)[OF ok] by fastforce
qed

lemma open_card:
  assumes ok: "output_ok o1" and op: "open_here o1 op"
  shows "card {k. (ho_screen o1, k) \<in> op} = card (dom (ho_layers o1))"
proof -
  have "{k. (ho_screen o1, k) \<in> op} = dom (layer_of o1)" using op by (auto simp: open_here_def)
  moreover have "inj_on (\<lambda>k. the (layer_of o1 k)) (dom (layer_of o1))" using layer_of_fun[OF ok] by (fastforce simp: inj_on_def)
  ultimately show ?thesis by (simp add: layers_dom[OF ok] card_image)
qed

lemma one_layer_more:
  assumes "output_ok o1" and "one_layer_done info o1 o2"
  shows "card (dom (ho_layers o2)) \<le> Suc (card (dom (ho_layers o1)))"
proof -
  obtain a l where "ho_layers o2 = (ho_layers o1)(a \<mapsto> l)" using assms(2) unfolding one_layer_done_def by blast
  moreover have "finite (dom (ho_layers o1))" by (simp add: layers_dom[OF assms(1)] finite_dom_map_of)
  ultimately show ?thesis by (simp add: card_insert_if)
qed

text \<open>The whole loop; what the frame shows is tracked when no surface comes twice.\<close>

definition frame_done :: "layer_info list \<Rightarrow> houtput \<Rightarrow> houtput \<Rightarrow> bool" where
  "frame_done infos o1 o2 \<longleftrightarrow>
     (\<forall>s. s \<notin> li_surface ` set infos \<longrightarrow> shown_by o2 s = shown_by o1 s) \<and>
     (\<forall>info \<in> set infos. \<exists>a l. shown_by o2 (li_surface info) = Some a \<and> ho_layers o2 a = Some l \<and> hl_info l = Some info \<and> hl_inUsing l) \<and>
     (\<forall>a l. ho_layers o2 a = Some l \<and> hl_inUsing l \<longrightarrow>
        (\<exists>info \<in> set infos. shown_by o2 (li_surface info) = Some a) \<or> ho_layers o1 a = Some l) \<and>
     (\<forall>a l. ho_layers o1 a = Some l \<and> (\<forall>info \<in> set infos. shown_by o1 (li_surface info) \<noteq> Some a) \<longrightarrow> ho_layers o2 a = Some l)"

lemma frame_done_Cons:
  assumes ok: "output_ok o2" and one: "one_layer_done info o1 o2" and rest: "frame_done infos o2 o3"
    and new: "li_surface info \<notin> li_surface ` set infos"
  shows "frame_done (info # infos) o1 o3"
proof -
  obtain a l where al: "shown_by o2 = (shown_by o1)(li_surface info \<mapsto> a)" "ho_layers o2 = (ho_layers o1)(a \<mapsto> l)"
      "hl_info l = Some info" "hl_inUsing l" "\<And>s. shown_by o1 s = Some a \<Longrightarrow> s = li_surface info"
      "ho_layers o1 a = None \<or> shown_by o1 (li_surface info) = Some a"
    using one unfolding one_layer_done_def by blast
  note R = rest[unfolded frame_done_def]
  have other: "\<forall>i \<in> set infos. shown_by o2 (li_surface i) \<noteq> Some a"
  proof
    fix i assume "i \<in> set infos"
    with new have "li_surface i \<noteq> li_surface info" by (metis image_eqI)
    then show "shown_by o2 (li_surface i) \<noteq> Some a" using al(5)[of "li_surface i"] by (auto simp: al(1))
  qed
  have a3: "ho_layers o3 a = Some l" using R other by (simp add: al(2))
  have s3: "shown_by o3 (li_surface info) = Some a" using R new by (simp add: al(1))
  show ?thesis
    unfolding frame_done_def
  proof (intro conjI allI impI ballI)
    fix s assume "s \<notin> li_surface ` set (info # infos)"
    then show "shown_by o3 s = shown_by o1 s" using R by (simp add: al(1))
  next
    fix i assume "i \<in> set (info # infos)"
    then show "\<exists>a l. shown_by o3 (li_surface i) = Some a \<and> ho_layers o3 a = Some l \<and> hl_info l = Some i \<and> hl_inUsing l"
      using R a3 s3 al(3,4) by auto
  next
    fix b x assume b: "ho_layers o3 b = Some x \<and> hl_inUsing x"
    then have "(\<exists>i \<in> set infos. shown_by o3 (li_surface i) = Some b) \<or> ho_layers o2 b = Some x" using R by blast
    then show "(\<exists>i \<in> set (info # infos). shown_by o3 (li_surface i) = Some b) \<or> ho_layers o1 b = Some x"
      using s3 by (auto simp: al(2) split: if_splits)
  next
    fix b x assume b: "ho_layers o1 b = Some x \<and> (\<forall>i \<in> set (info # infos). shown_by o1 (li_surface i) \<noteq> Some b)"
    then have "b \<noteq> a" using al(6) by auto
    then have "ho_layers o2 b = Some x" using b by (simp add: al(2))
    moreover have "shown_by o2 (li_surface i) \<noteq> Some b" if "i \<in> set infos" for i
      using b that \<open>b \<noteq> a\<close> by (auto simp: al(1))
    ultimately show "ho_layers o3 b = Some x" using R by blast
  qed
qed

lemma set_layer_infos_outcome:
  assumes D: "layer_driver v opened" and "output_ok o1" and "open_here o1 (opened d)"
  shows "\<exists>ended o2 d2. set_layer_infos v junk infos o1 d = Some (ended, o2, d2) \<and> output_ok o2 \<and> open_here o2 (opened d2) \<and>
    ho_screen o2 = ho_screen o1 \<and> ho_fb o2 = ho_fb o1 \<and>
    (distinct (map li_surface infos) \<and> ended \<longrightarrow> frame_done infos o1 o2) \<and>
    (room v opened cap \<and> card (dom (ho_layers o1)) + length infos \<le> cap \<longrightarrow> ended)"
  using assms(2,3)
proof (induction infos arbitrary: o1 d)
  case Nil
  then show ?case by (auto simp: frame_done_def)
next
  case (Cons info infos)
  obtain o2 d2 where o2: "output_ok o2" "open_here o2 (opened d2)"
    "set_layer_infos v junk (info # infos) o1 d = set_layer_infos v junk infos o2 d2 \<and> one_layer_done info o1 o2 \<or>
     set_layer_infos v junk (info # infos) o1 d = Some (False, o1, d2) \<and> o2 = o1 \<and>
       (\<exists>wh. fst (hd_CreateLayer v (ho_screen o1) wh 0 d) \<noteq> success v)"
    using set_layer_infos_Cons[OF D Cons.prems, of junk info infos] by (elim exE conjE) (rule that; assumption)
  from o2(3) show ?case
  proof
    assume step: "set_layer_infos v junk (info # infos) o1 d = set_layer_infos v junk infos o2 d2 \<and> one_layer_done info o1 o2"
    obtain ended o3 d3 where o3: "set_layer_infos v junk infos o2 d2 = Some (ended, o3, d3)" "output_ok o3" "open_here o3 (opened d3)"
      "ho_screen o3 = ho_screen o2" "ho_fb o3 = ho_fb o2"
      "distinct (map li_surface infos) \<and> ended \<longrightarrow> frame_done infos o2 o3"
      "room v opened cap \<and> card (dom (ho_layers o2)) + length infos \<le> cap \<longrightarrow> ended"
      using Cons.IH[OF o2(1,2)] by (elim exE conjE) (rule that; assumption)
    have "ho_screen o2 = ho_screen o1" "ho_fb o2 = ho_fb o1" using step unfolding one_layer_done_def by blast+
    moreover have "frame_done (info # infos) o1 o3" if "distinct (map li_surface (info # infos)) \<and> ended"
      by (rule frame_done_Cons[OF o2(1)]) (use step o3(6) that in auto)
    moreover have "room v opened cap \<and> card (dom (ho_layers o1)) + length (info # infos) \<le> cap \<longrightarrow> ended"
      using o3(7) one_layer_more[OF Cons.prems(1) conjunct2[OF step]] by auto
    ultimately show ?thesis using step o3(1-5) by (intro exI[of _ ended] exI[of _ o3] exI[of _ d3]) simp
  next
    assume "set_layer_infos v junk (info # infos) o1 d = Some (False, o1, d2) \<and> o2 = o1 \<and>
       (\<exists>wh. fst (hd_CreateLayer v (ho_screen o1) wh 0 d) \<noteq> success v)"
    note failed = this
    have f: "set_layer_infos v junk (info # infos) o1 d = Some (False, o1, d2)" "output_ok o1" "open_here o1 (opened d2)"
      using failed o2(1,2) by blast+
    have f2: "room v opened cap \<and> card (dom (ho_layers o1)) + length (info # infos) \<le> cap \<longrightarrow> False"
      using failed open_card[OF Cons.prems] unfolding room_def by auto
    have "distinct (map li_surface (info # infos)) \<and> False \<longrightarrow> frame_done (info # infos) o1 o1" by simp
    then show ?thesis
      by (intro exI[of _ False] exI[of _ o1] exI[of _ d2] conjI f f2 refl)
  qed
qed

section \<open>Deleting what the frame does not use\<close>

definition in_use :: "houtput \<Rightarrow> nat \<Rightarrow> bool" where
  "in_use o1 a \<longleftrightarrow> (\<exists>l. ho_layers o1 a = Some l \<and> hl_inUsing l)"

lemma in_use_the: "ho_layers o1 a = Some l \<Longrightarrow> hl_inUsing (the_layer o1 a) = in_use o1 a"
  by (simp add: in_use_def the_layer_def)

lemma output_ok_surfaces:
  assumes "output_ok o1" and "om_wf m" and "\<And>s a. map_of m s = Some a \<Longrightarrow> shown_by o1 s = Some a"
  shows "output_ok (o1\<lparr>surfaceIdMap := m\<rparr>)"
  using assms unfolding output_ok_def layer_ok_def by simp

lemma delete_surfaces_outcome:
  assumes "output_ok o1" and "distinct (map fst es)" and "\<forall>(k, a) \<in> set es. shown_by o1 k = Some a"
  shows "\<exists>m. delete_surfaces v es o1 d = Some (o1\<lparr>surfaceIdMap := m\<rparr>, d) \<and> om_wf m \<and>
    (\<forall>s. map_of m s = (if \<exists>a. (s, a) \<in> set es \<and> \<not> in_use o1 a then None else shown_by o1 s))"
  using assms
proof (induction es arbitrary: o1)
  case Nil
  then show ?case by (intro exI[of _ "surfaceIdMap o1"]) (simp add: output_okD(2))
next
  case (Cons e es)
  obtain k a where e: "e = (k, a)" by fastforce
  have ka: "shown_by o1 k = Some a" using Cons.prems(3) e by auto
  then obtain l where l: "ho_layers o1 a = Some l" using output_okD(5)[OF Cons.prems(1)] by blast
  have fresh: "(k, b) \<notin> set es" for b using Cons.prems(2) e by force
  show ?case
  proof (cases "in_use o1 a")
    case True
    obtain m where m: "delete_surfaces v es o1 d = Some (o1\<lparr>surfaceIdMap := m\<rparr>, d)" "om_wf m"
        "\<forall>s. map_of m s = (if \<exists>a. (s, a) \<in> set es \<and> \<not> in_use o1 a then None else shown_by o1 s)"
      using Cons.IH[OF Cons.prems(1)] Cons.prems(2,3) by auto
    then show ?thesis using True in_use_the[OF l] e fresh by (intro exI[of _ m]) auto
  next
    case False
    let ?o = "o1\<lparr>surfaceIdMap := om_del k (surfaceIdMap o1)\<rparr>"
    have ok: "output_ok ?o"
      by (rule output_ok_surfaces[OF Cons.prems(1)]) (auto simp: output_okD(2)[OF Cons.prems(1)] split: if_splits)
    have "referenced a ?o"
      using referenced_iff[of ?o a] output_okD(1,2)[OF ok] output_okD(4)[OF Cons.prems(1) l] by auto
    then have u: "unref v a ?o d = Some (?o, d)" by (simp add: unref_def)
    have "\<forall>(j, b) \<in> set es. shown_by ?o j = Some b" using Cons.prems(3) fresh by auto
    then obtain m where m: "delete_surfaces v es ?o d = Some (?o\<lparr>surfaceIdMap := m\<rparr>, d)" "om_wf m"
        "\<forall>s. map_of m s = (if \<exists>a. (s, a) \<in> set es \<and> \<not> in_use ?o a then None else shown_by ?o s)"
      using Cons.IH[OF ok] Cons.prems(2) by auto
    have "in_use ?o = in_use o1" by (simp add: in_use_def fun_eq_iff)
    then show ?thesis using m False u in_use_the[OF l] e by (intro exI[of _ m]) auto
  qed
qed

text \<open>A layer no surface shows is closed when its id goes.\<close>

lemma delete_one_layer:
  assumes D: "layer_driver v opened" and ok: "output_ok o1" and op: "open_here o1 (opened d)"
    and k: "layer_of o1 k = Some a" and unshown: "\<And>s. shown_by o1 s \<noteq> Some a"
  shows "\<exists>d2. unref v a (o1\<lparr>layerIdMap := om_del k (layerIdMap o1)\<rparr>) d =
      Some (o1\<lparr>layerIdMap := om_del k (layerIdMap o1), ho_layers := (ho_layers o1)(a := None)\<rparr>, d2) \<and>
    output_ok (o1\<lparr>layerIdMap := om_del k (layerIdMap o1), ho_layers := (ho_layers o1)(a := None)\<rparr>) \<and>
    open_here (o1\<lparr>layerIdMap := om_del k (layerIdMap o1), ho_layers := (ho_layers o1)(a := None)\<rparr>) (opened d2)"
proof -
  obtain l where l: "ho_layers o1 a = Some l" "layer_ok o1 k l" using output_okD(3)[OF ok k] by blast
  have only: "j = k" if "layer_of o1 j = Some a" for j using layer_of_fun[OF ok k that] .
  let ?m = "o1\<lparr>layerIdMap := om_del k (layerIdMap o1)\<rparr>"
  let ?o = "o1\<lparr>layerIdMap := om_del k (layerIdMap o1), ho_layers := (ho_layers o1)(a := None)\<rparr>"
  let ?d = "snd (hd_CloseLayer v (ho_screen o1) k d)"
  have "\<not> referenced a ?m"
    using referenced_iff[of ?m a] output_okD(1,2)[OF ok] only unshown by (auto split: if_splits)
  then have u: "unref v a ?m d = Some (?o, ?d)"
    using l layer_driverD(1)[OF D] by (simp add: unref_def hl_CloseLayer_def layer_ok_def)
  have o2: "output_ok ?o"
    unfolding output_ok_def
  proof (intro conjI allI impI)
    show "om_wf (layerIdMap ?o)" "om_wf (surfaceIdMap ?o)" using output_okD(1,2)[OF ok] by simp_all
  next
    fix j b assume jb: "layer_of ?o j = Some b"
    then have "layer_of o1 j = Some b" "j \<noteq> k" by (auto split: if_splits)
    moreover from this have "b \<noteq> a" using only by auto
    ultimately show "b < ho_next ?o" "\<exists>x. ho_layers ?o b = Some x \<and> layer_ok ?o j x"
      using output_okD(3)[OF ok, of j b] by (auto simp: layer_ok_def)
  next
    fix b x assume "ho_layers ?o b = Some x"
    then have b: "ho_layers o1 b = Some x" "b \<noteq> a" by (auto split: if_splits)
    then have "layer_of o1 (hl_id x) = Some b" using output_okD(4)[OF ok] by blast
    moreover have "hl_id x \<noteq> k" using calculation k b(2) by auto
    ultimately show "layer_of ?o (hl_id x) = Some b" by simp
  next
    fix s b assume sb: "shown_by ?o s = Some b"
    then have "b \<noteq> a" using unshown by auto
    then show "\<exists>x i. ho_layers ?o b = Some x \<and> hl_info x = Some i \<and> li_surface i = s"
      using sb output_okD(5)[OF ok, of s b] by simp
  qed
  have "open_here ?o (opened ?d)"
    using op layer_driverD(5)[OF D, of "ho_screen o1" k d] by (auto simp: open_here_def)
  then show ?thesis using u o2 by (intro exI[of _ ?d] conjI)
qed

lemma delete_layers_outcome:
  assumes D: "layer_driver v opened" and "output_ok o1" and "open_here o1 (opened d)" and "distinct (map fst es)"
    and "\<forall>(k, a) \<in> set es. layer_of o1 k = Some a" and "\<forall>s a. shown_by o1 s = Some a \<longrightarrow> in_use o1 a"
  shows "\<exists>o2 d2. delete_layers v es o1 d = Some (o2, d2) \<and> output_ok o2 \<and> open_here o2 (opened d2) \<and>
    surfaceIdMap o2 = surfaceIdMap o1 \<and> ho_screen o2 = ho_screen o1 \<and> ho_fb o2 = ho_fb o1 \<and>
    (\<forall>a. ho_layers o2 a = (if a \<in> snd ` set es \<and> \<not> in_use o1 a then None else ho_layers o1 a))"
  using assms(2-)
proof (induction es arbitrary: o1 d)
  case Nil
  then show ?case by auto
next
  case (Cons e es)
  obtain k a where e: "e = (k, a)" by fastforce
  have ka: "layer_of o1 k = Some a" using Cons.prems(4) e by auto
  then obtain l where l: "ho_layers o1 a = Some l" using output_okD(3)[OF Cons.prems(1)] by blast
  have rest: "distinct (map fst es)" "\<forall>(k, a) \<in> set es. layer_of o1 k = Some a" using Cons.prems(3,4) by auto
  show ?case
  proof (cases "in_use o1 a")
    case True
    obtain o2 d2 where o2: "delete_layers v es o1 d = Some (o2, d2)" "output_ok o2" "open_here o2 (opened d2)"
      "surfaceIdMap o2 = surfaceIdMap o1" "ho_screen o2 = ho_screen o1" "ho_fb o2 = ho_fb o1"
      "\<forall>a. ho_layers o2 a = (if a \<in> snd ` set es \<and> \<not> in_use o1 a then None else ho_layers o1 a)"
      using Cons.IH[OF Cons.prems(1,2) rest Cons.prems(5)] by (elim exE conjE) (rule that; assumption)
    have "delete_layers v (e # es) o1 d = Some (o2, d2)" using o2(1) True in_use_the[OF l] e by simp
    moreover have "\<forall>b. ho_layers o2 b = (if b \<in> snd ` set (e # es) \<and> \<not> in_use o1 b then None else ho_layers o1 b)"
      using o2(7) True e by simp
    ultimately show ?thesis by (intro exI[of _ o2] exI[of _ d2] conjI o2(2-6))
  next
    case False
    let ?o = "o1\<lparr>layerIdMap := om_del k (layerIdMap o1), ho_layers := (ho_layers o1)(a := None)\<rparr>"
    have uns: "shown_by o1 s \<noteq> Some a" for s using Cons.prems(5) False by auto
    obtain d1 where d1: "unref v a (o1\<lparr>layerIdMap := om_del k (layerIdMap o1)\<rparr>) d = Some (?o, d1)" "output_ok ?o" "open_here ?o (opened d1)"
      using delete_one_layer[OF D Cons.prems(1,2) ka uns] by (elim exE conjE) (rule that; assumption)
    have fresh: "k \<notin> fst ` set es" using Cons.prems(3) e by simp
    then have r2: "\<forall>(j, b) \<in> set es. layer_of ?o j = Some b" using rest(2) by (force split: if_splits)
    have use: "in_use ?o b = in_use o1 b" for b using False by (simp add: in_use_def)
    have r3: "\<forall>s b. shown_by ?o s = Some b \<longrightarrow> in_use ?o b" using Cons.prems(5) unfolding use by simp
    obtain o2 d2 where o2: "delete_layers v es ?o d1 = Some (o2, d2)" "output_ok o2" "open_here o2 (opened d2)"
      "surfaceIdMap o2 = surfaceIdMap ?o" "ho_screen o2 = ho_screen ?o" "ho_fb o2 = ho_fb ?o"
      "\<forall>a. ho_layers o2 a = (if a \<in> snd ` set es \<and> \<not> in_use ?o a then None else ho_layers ?o a)"
      using Cons.IH[OF d1(2,3) rest(1) r2 r3] by (elim exE conjE) (rule that; assumption)
    have "delete_layers v (e # es) o1 d = Some (o2, d2)" using o2(1) d1(1) False in_use_the[OF l] e by simp
    moreover have "\<forall>b. ho_layers o2 b = (if b \<in> snd ` set (e # es) \<and> \<not> in_use o1 b then None else ho_layers o1 b)"
      using o2(7) False unfolding use by (auto simp: e)
    moreover have "surfaceIdMap o2 = surfaceIdMap o1" "ho_screen o2 = ho_screen o1" "ho_fb o2 = ho_fb o1" using o2(4-6) by simp_all
    ultimately show ?thesis by (intro exI[of _ o2] exI[of _ d2] conjI o2(2,3))
  qed
qed

section \<open>A frame\<close>

text \<open>A loop over an unordered map visits every entry once.\<close>

definition visits_ok :: "visits \<Rightarrow> bool" where
  "visits_ok vs \<longleftrightarrow>
     (\<forall>es. set (by_layer vs es) = set es \<and> (distinct (map fst es) \<longrightarrow> distinct (map fst (by_layer vs es)))) \<and>
     (\<forall>es. set (by_surface vs es) = set es \<and> (distinct (map fst es) \<longrightarrow> distinct (map fst (by_surface vs es))))"

definition idle :: "houtput \<Rightarrow> bool" where
  "idle o1 \<longleftrightarrow> (\<forall>a. \<not> in_use o1 a)"

lemma DeletePrevLayers_outcome:
  assumes D: "layer_driver v opened" and ok: "output_ok o1" and op: "open_here o1 (opened d)" and vs: "visits_ok vs"
  shows "\<exists>o2 d2. DeletePrevLayers v vs o1 d = Some (o2, d2) \<and> output_ok o2 \<and> open_here o2 (opened d2) \<and>
    ho_screen o2 = ho_screen o1 \<and> ho_fb o2 = ho_fb o1 \<and>
    (\<forall>s. shown_by o2 s = (case shown_by o1 s of None \<Rightarrow> None | Some a \<Rightarrow> if in_use o1 a then Some a else None)) \<and>
    (\<forall>a. ho_layers o2 a = (if in_use o1 a then ho_layers o1 a else None))"
proof -
  note wf = output_okD(1,2)[OF ok]
  have s: "set (by_surface vs (surfaceIdMap o1)) = set (surfaceIdMap o1)" "distinct (map fst (by_surface vs (surfaceIdMap o1)))"
    using vs om_wf_distinct[OF wf(2)] unfolding visits_ok_def by blast+
  have "\<forall>(k, a) \<in> set (by_surface vs (surfaceIdMap o1)). shown_by o1 k = Some a"
    using om_entry[OF wf(2)] by (auto simp: s(1))
  from delete_surfaces_outcome[OF ok s(2) this, where v = v and d = d]
  obtain m where m: "delete_surfaces v (by_surface vs (surfaceIdMap o1)) o1 d = Some (o1\<lparr>surfaceIdMap := m\<rparr>, d)" "om_wf m"
      "\<forall>s. map_of m s = (if \<exists>a. (s, a) \<in> set (by_surface vs (surfaceIdMap o1)) \<and> \<not> in_use o1 a then None else shown_by o1 s)"
    by (elim exE conjE) (rule that; assumption)
  have ms: "map_of m t = (case shown_by o1 t of None \<Rightarrow> None | Some a \<Rightarrow> if in_use o1 a then Some a else None)" for t
    using m(3) by (auto simp: s(1) om_entry[OF wf(2)] split: option.split)
  let ?o = "o1\<lparr>surfaceIdMap := m\<rparr>"
  have ok2: "output_ok ?o" by (rule output_ok_surfaces[OF ok m(2)]) (simp add: ms split: option.splits if_splits)
  have op2: "open_here ?o (opened d)" using op by (simp add: open_here_def)
  have use: "in_use ?o = in_use o1" by (simp add: in_use_def fun_eq_iff)
  have l: "set (by_layer vs (layerIdMap ?o)) = set (layerIdMap o1)" "distinct (map fst (by_layer vs (layerIdMap ?o)))"
    using vs om_wf_distinct[OF wf(1)] unfolding visits_ok_def by simp_all
  have l2: "\<forall>(k, a) \<in> set (by_layer vs (layerIdMap ?o)). layer_of ?o k = Some a"
    using om_entry[OF wf(1)] unfolding l(1) by auto
  have u: "\<forall>s a. shown_by ?o s = Some a \<longrightarrow> in_use ?o a" unfolding use by (simp add: ms split: option.split)
  obtain o2 d2 where o2: "delete_layers v (by_layer vs (layerIdMap ?o)) ?o d = Some (o2, d2)" "output_ok o2" "open_here o2 (opened d2)"
      "surfaceIdMap o2 = surfaceIdMap ?o" "ho_screen o2 = ho_screen ?o" "ho_fb o2 = ho_fb ?o"
      "\<forall>a. ho_layers o2 a = (if a \<in> snd ` set (by_layer vs (layerIdMap ?o)) \<and> \<not> in_use ?o a then None else ho_layers ?o a)"
    using delete_layers_outcome[OF D ok2 op2 l(2) l2 u] by (elim exE conjE) (rule that; assumption)
  have "ho_layers o2 a = (if in_use o1 a then ho_layers o1 a else None)" for a
  proof (cases "ho_layers o1 a")
    case None
    then show ?thesis using o2(7) by simp
  next
    case (Some x)
    then have "a \<in> snd ` set (layerIdMap o1)" using output_okD(4)[OF ok Some] om_vals[OF wf(1)] by blast
    then show ?thesis using o2(7) unfolding l(1) use by simp
  qed
  moreover have "DeletePrevLayers v vs o1 d = Some (o2, d2)" using m(1) o2(1) by (simp add: DeletePrevLayers_def)
  ultimately show ?thesis using o2(2-6) ms by (intro exI[of _ o2] exI[of _ d2]) simp
qed

lemma reset_fold:
  assumes "\<forall>a \<in> set as. ho_layers o1 a \<noteq> None"
  shows "fold (\<lambda>a o1. set_layer a (SetLayerStatus False (the_layer o1 a)) o1) as o1 =
    o1\<lparr>ho_layers := (\<lambda>a. if a \<in> set as then map_option (SetLayerStatus False) (ho_layers o1 a) else ho_layers o1 a)\<rparr>"
  using assms
proof (induction as arbitrary: o1)
  case (Cons a as)
  obtain l where l: "ho_layers o1 a = Some l" using Cons.prems by auto
  let ?o = "set_layer a (SetLayerStatus False (the_layer o1 a)) o1"
  have "\<forall>b \<in> set as. ho_layers ?o b \<noteq> None" using Cons.prems by (simp add: set_layer_def)
  from Cons.IH[OF this] show ?case
    by (auto simp: set_layer_def the_layer_def l fun_eq_iff SetLayerStatus_def)
qed simp

lemma ResetLayerStatus_outcome:
  assumes ok: "output_ok o1"
  shows "ResetLayerStatus o1 = o1\<lparr>ho_layers := (\<lambda>a. map_option (SetLayerStatus False) (ho_layers o1 a))\<rparr>"
    and "output_ok (ResetLayerStatus o1)" and "idle (ResetLayerStatus o1)"
proof -
  note wf = output_okD(1)[OF ok]
  have vals: "a \<in> set (map snd (layerIdMap o1)) \<longleftrightarrow> ho_layers o1 a \<noteq> None" for a
  proof
    assume "a \<in> set (map snd (layerIdMap o1))"
    then obtain k where "layer_of o1 k = Some a" using om_vals[OF wf] by auto
    then show "ho_layers o1 a \<noteq> None" using output_okD(3)[OF ok] by blast
  next
    assume "ho_layers o1 a \<noteq> None"
    then obtain l where "ho_layers o1 a = Some l" by auto
    from output_okD(4)[OF ok this] show "a \<in> set (map snd (layerIdMap o1))" using om_vals[OF wf] by auto
  qed
  then show eq: "ResetLayerStatus o1 = o1\<lparr>ho_layers := (\<lambda>a. map_option (SetLayerStatus False) (ho_layers o1 a))\<rparr>"
    unfolding ResetLayerStatus_def by (subst reset_fold) (auto simp: fun_eq_iff)
  show "output_ok (ResetLayerStatus o1)"
    unfolding eq output_ok_def
  proof (intro conjI allI impI)
    fix k a assume "layer_of (o1\<lparr>ho_layers := (\<lambda>a. map_option (SetLayerStatus False) (ho_layers o1 a))\<rparr>) k = Some a"
    then have "layer_of o1 k = Some a" by simp
    from output_okD(3)[OF ok this]
    show "a < ho_next (o1\<lparr>ho_layers := (\<lambda>a. map_option (SetLayerStatus False) (ho_layers o1 a))\<rparr>)"
      and "\<exists>l. ho_layers (o1\<lparr>ho_layers := (\<lambda>a. map_option (SetLayerStatus False) (ho_layers o1 a))\<rparr>) a = Some l \<and>
        layer_ok (o1\<lparr>ho_layers := (\<lambda>a. map_option (SetLayerStatus False) (ho_layers o1 a))\<rparr>) k l"
      by (auto simp: layer_ok_def SetLayerStatus_def)
  next
    fix s a assume "shown_by (o1\<lparr>ho_layers := (\<lambda>a. map_option (SetLayerStatus False) (ho_layers o1 a))\<rparr>) s = Some a"
    then have "shown_by o1 s = Some a" by simp
    from output_okD(5)[OF ok this]
    show "\<exists>l i. ho_layers (o1\<lparr>ho_layers := (\<lambda>a. map_option (SetLayerStatus False) (ho_layers o1 a))\<rparr>) a = Some l \<and>
      hl_info l = Some i \<and> li_surface i = s" by (auto simp: SetLayerStatus_def)
  qed (use output_okD(1,2,4)[OF ok] in \<open>auto simp: SetLayerStatus_def\<close>)
  show "idle (ResetLayerStatus o1)" unfolding eq by (auto simp: idle_def in_use_def SetLayerStatus_def)
qed

lemma SetLayerInfo_ok:
  assumes D: "layer_driver v opened" and ok: "output_ok o1" and op: "open_here o1 (opened d)" and vs: "visits_ok vs"
  shows "\<exists>o2 d2. SetLayerInfo v junk vs infos o1 d = Some (o2, d2) \<and> output_ok o2 \<and> open_here o2 (opened d2) \<and>
    ho_screen o2 = ho_screen o1 \<and> ho_fb o2 = ho_fb o1"
proof -
  obtain ended o2 d2 where o2: "set_layer_infos v junk infos o1 d = Some (ended, o2, d2)" "output_ok o2" "open_here o2 (opened d2)"
    "ho_screen o2 = ho_screen o1" "ho_fb o2 = ho_fb o1"
    using set_layer_infos_outcome[OF D ok op, where junk = junk and infos = infos and cap = 0] by (elim exE conjE) (rule that; assumption)
  show ?thesis
  proof (cases ended)
    case False
    then show ?thesis using o2 by (simp add: SetLayerInfo_def)
  next
    case True
    obtain o3 d3 where o3: "DeletePrevLayers v vs o2 d2 = Some (o3, d3)" "output_ok o3" "open_here o3 (opened d3)"
      "ho_screen o3 = ho_screen o2" "ho_fb o3 = ho_fb o2"
      using DeletePrevLayers_outcome[OF D o2(2,3) vs] by (elim exE conjE) (rule that; assumption)
    note R = ResetLayerStatus_outcome[OF o3(2)]
    have "open_here (ResetLayerStatus o3) (opened d3)" using o3(3) unfolding R(1) by (simp add: open_here_def)
    moreover have "ho_screen (ResetLayerStatus o3) = ho_screen o1" "ho_fb (ResetLayerStatus o3) = ho_fb o1"
      using o3(4,5) o2(4,5) unfolding R(1) by simp_all
    ultimately show ?thesis using True o2(1) o3(1) R(2) by (simp add: SetLayerInfo_def)
  qed
qed

lemma SetLayerInfo_shows:
  assumes D: "layer_driver v opened" and ok: "output_ok o1" and op: "open_here o1 (opened d)" and vs: "visits_ok vs"
    and i: "idle o1" and dist: "distinct (map li_surface infos)" and good: "room v opened cap" "card (dom (ho_layers o1)) + length infos \<le> cap"
    and r: "SetLayerInfo v junk vs infos o1 d = Some (o2, d2)"
  shows "idle o2 \<and> (\<forall>s. shown_by o2 s \<noteq> None \<longleftrightarrow> s \<in> li_surface ` set infos) \<and>
    (\<forall>info \<in> set infos. \<exists>a l. shown_by o2 (li_surface info) = Some a \<and> ho_layers o2 a = Some l \<and> hl_info l = Some info) \<and>
    (\<forall>a. ho_layers o2 a \<noteq> None \<longrightarrow> (\<exists>s. shown_by o2 s = Some a))"
proof -
  obtain e o3 d3 where o3: "set_layer_infos v junk infos o1 d = Some (e, o3, d3)" "output_ok o3" "open_here o3 (opened d3)"
    "distinct (map li_surface infos) \<and> e \<longrightarrow> frame_done infos o1 o3"
    "room v opened cap \<and> card (dom (ho_layers o1)) + length infos \<le> cap \<longrightarrow> e"
    using set_layer_infos_outcome[OF D ok op, where junk = junk and infos = infos and cap = cap] by (elim exE conjE) (rule that; assumption)
  have e: e and F: "frame_done infos o1 o3" using o3(4,5) dist good by blast+
  obtain o4 d4 where o4: "DeletePrevLayers v vs o3 d3 = Some (o4, d4)" "output_ok o4" "open_here o4 (opened d4)"
    "\<forall>s. shown_by o4 s = (case shown_by o3 s of None \<Rightarrow> None | Some a \<Rightarrow> if in_use o3 a then Some a else None)"
    "\<forall>a. ho_layers o4 a = (if in_use o3 a then ho_layers o3 a else None)"
    using DeletePrevLayers_outcome[OF D o3(2,3) vs] by (elim exE conjE) (rule that; assumption)
  note R = ResetLayerStatus_outcome[OF o4(2)]
  have o2: "o2 = ResetLayerStatus o4" using r o3(1) e o4(1) by (simp add: SetLayerInfo_def)
  have show2: "shown_by o2 s = shown_by o4 s" and lay2: "ho_layers o2 a = map_option (SetLayerStatus False) (ho_layers o4 a)" for s a
    unfolding o2 R(1) by simp_all
  have used: "in_use o3 a \<longleftrightarrow> (\<exists>info \<in> set infos. shown_by o3 (li_surface info) = Some a)" for a
  proof
    assume "in_use o3 a"
    then show "\<exists>info \<in> set infos. shown_by o3 (li_surface info) = Some a"
      using F i unfolding frame_done_def idle_def in_use_def by blast
  next
    assume "\<exists>info \<in> set infos. shown_by o3 (li_surface info) = Some a"
    then obtain info where info: "info \<in> set infos" "shown_by o3 (li_surface info) = Some a" by blast
    then obtain b l where "shown_by o3 (li_surface info) = Some b" "ho_layers o3 b = Some l" "hl_inUsing l"
      using F unfolding frame_done_def by blast
    then show "in_use o3 a" using info(2) by (simp add: in_use_def)
  qed
  have shown: "\<exists>a l. shown_by o2 (li_surface info) = Some a \<and> ho_layers o2 a = Some l \<and> hl_info l = Some info" if "info \<in> set infos" for info
  proof -
    obtain a l where al: "shown_by o3 (li_surface info) = Some a" "ho_layers o3 a = Some l" "hl_info l = Some info"
      using F \<open>info \<in> set infos\<close> unfolding frame_done_def by blast
    then have "in_use o3 a" using used that by blast
    then show ?thesis using al o4(4,5) by (simp add: show2 lay2 SetLayerStatus_def)
  qed
  have "s \<in> li_surface ` set infos" if s: "shown_by o2 s \<noteq> None" for s
  proof -
    obtain a where a: "shown_by o3 s = Some a" "in_use o3 a"
      using s o4(4) by (auto simp: show2 split: option.splits if_splits)
    then obtain info where "info \<in> set infos" "shown_by o3 (li_surface info) = Some a" using used by blast
    then have "li_surface info = s" using a(1) output_okD(5)[OF o3(2), of s a] output_okD(5)[OF o3(2), of "li_surface info" a] by auto
    then show ?thesis using \<open>info \<in> set infos\<close> by blast
  qed
  moreover have "\<exists>s. shown_by o2 s = Some a" if a: "ho_layers o2 a \<noteq> None" for a
  proof -
    have "in_use o3 a" using a o4(5) by (auto simp: lay2 split: if_splits)
    then obtain info where "info \<in> set infos" "shown_by o3 (li_surface info) = Some a" using used by blast
    then show ?thesis using \<open>in_use o3 a\<close> o4(4) by (intro exI[of _ "li_surface info"]) (simp add: show2)
  qed
  ultimately show ?thesis using shown R(3) unfolding o2 by blast
qed

end
