(* ===== verification/Hdi_Backend.thy ===== *)
theory Hdi_Backend
  imports Hdi_Output_Inv VSync_Sampler
begin

text \<open>
  The composer's backend, \<open>HdiBackend\<close> (\<open>rosen/modules/composer/hdi_backend/src/hdi_backend.cpp\<close>): the outputs of
  the screens plugged in, and \<open>Repaint\<close>, which shows one frame on each output and gives the buffers of the
  last frame back.

  Outputs are shared with the screens of the render service: numbers into a store, where they stay (the model
  does not say when their last pointer goes). The callback that draws what the driver leaves to the render
  service is a function of the outside; it changes the framebuffer's surface and nothing of the backend.
\<close>

section \<open>The driver's functions for a frame\<close>

record 'd frame_vendor = "'d layer_vendor" +
  RegHotPlugCallback :: "('d \<Rightarrow> int \<times> 'd) option"
  PrepareDisplayLayers :: "(32 word \<Rightarrow> 'd \<Rightarrow> int \<times> bool \<times> 'd) option"
  CountCompChange :: "(32 word \<Rightarrow> 'd \<Rightarrow> int \<times> 32 word \<times> 'd) option"
  FillCompChange :: "32 word \<Rightarrow> 'd \<Rightarrow> int \<times> (nat \<Rightarrow> 32 word \<times> int) \<times> 'd"
  SetDisplayClientBuffer :: "(32 word \<Rightarrow> nat \<Rightarrow> int \<Rightarrow> 'd \<Rightarrow> int \<times> 'd) option"
  SetDisplayClientDamage :: "(32 word \<Rightarrow> 32 word \<Rightarrow> rect \<Rightarrow> 'd \<Rightarrow> int \<times> 'd) option"
  CountReleaseFence :: "(32 word \<Rightarrow> 'd \<Rightarrow> int \<times> 32 word \<times> 'd) option"
  FillReleaseFence :: "32 word \<Rightarrow> 'd \<Rightarrow> int \<times> (nat \<Rightarrow> 32 word \<times> int) \<times> 'd"
  CommitDisplay :: "(32 word \<Rightarrow> 'd \<Rightarrow> int \<times> int \<times> 'd) option"
  prepare_complete :: "bool \<Rightarrow> layer_info list \<Rightarrow> fb_surface option \<Rightarrow> 'd \<Rightarrow> fb_surface option \<times> 'd"

definition hd_PrepareScreenLayers :: "('d, 'm) frame_vendor_scheme \<Rightarrow> 32 word \<Rightarrow> bool \<Rightarrow> 'd \<Rightarrow> int \<times> bool \<times> 'd" where
  "hd_PrepareScreenLayers v sid needFlush d =
     (case PrepareDisplayLayers v of None \<Rightarrow> (null_ptr v, needFlush, d) | Some f \<Rightarrow> f sid d)"

definition hd_GetScreenCompChange :: "('d, 'm) frame_vendor_scheme \<Rightarrow> 32 word \<Rightarrow> 'd \<Rightarrow> int \<times> (32 word \<times> int) list \<times> 'd" where
  "hd_GetScreenCompChange v sid d =
     (case CountCompChange v of
        None \<Rightarrow> (null_ptr v, [], d)
      | Some f \<Rightarrow>
          (let (ret, layerNum, d) = f sid d
           in if ret \<noteq> success v then (ret, [], d)
              else if layerNum > 0 then (let (ret, data, d) = FillCompChange v sid d in (ret, map data [0..<unat layerNum], d))
              else (ret, [], d)))"

definition hd_SetScreenClientBuffer :: "('d, 'm) frame_vendor_scheme \<Rightarrow> 32 word \<Rightarrow> nat \<Rightarrow> int option \<Rightarrow> 'd \<Rightarrow> int \<times> 'd" where
  "hd_SetScreenClientBuffer v sid buffer fence d =
     (case SetDisplayClientBuffer v of
        None \<Rightarrow> (null_ptr v, d)
      | Some f \<Rightarrow> (case fence of None \<Rightarrow> (null_ptr v, d) | Some fenceFd \<Rightarrow> f sid buffer fenceFd d))"

definition hd_SetScreenClientDamage :: "('d, 'm) frame_vendor_scheme \<Rightarrow> 32 word \<Rightarrow> 32 word \<Rightarrow> rect \<Rightarrow> 'd \<Rightarrow> int \<times> 'd" where
  "hd_SetScreenClientDamage v sid num damageRect = call_set v (map_option (\<lambda>f. f sid num damageRect) (SetDisplayClientDamage v))"

definition hd_GetScreenReleaseFence :: "('d, 'm) frame_vendor_scheme \<Rightarrow> 32 word \<Rightarrow> 'd \<Rightarrow> int \<times> (32 word \<times> int) list \<times> 'd" where
  "hd_GetScreenReleaseFence v sid d =
     (case CountReleaseFence v of
        None \<Rightarrow> (null_ptr v, [], d)
      | Some f \<Rightarrow>
          (let (ret, layerNum, d) = f sid d
           in if ret \<noteq> success v then (ret, [], d)
              else if layerNum > 0 then
                (let (ret, data, d) = FillReleaseFence v sid d
                 in (ret, map (\<lambda>i. (fst (data i), if snd (data i) \<ge> 0 then snd (data i) else -1)) [0..<unat layerNum], d))
              else (ret, [], d)))"

definition hd_Commit :: "('d, 'm) frame_vendor_scheme \<Rightarrow> 32 word \<Rightarrow> int \<Rightarrow> 'd \<Rightarrow> int \<times> int \<times> 'd" where
  "hd_Commit v sid fence d =
     (case CommitDisplay v of
        None \<Rightarrow> (null_ptr v, fence, d)
      | Some f \<Rightarrow> (let (ret, fenceFd, d) = f sid d in (ret, if fenceFd \<ge> 0 then fenceFd else -1, d)))"

section \<open>State\<close>

record backend =
  be_device :: bool
  onScreenHotplugCb :: bool
  onPrepareCompleteCb :: bool
  be_outputs :: "(32 word, nat) omap"
  be_store :: "nat \<Rightarrow> houtput option"
  be_next :: nat
  be_sampler :: sampler
  lastFrameBuffers :: "(32 word, nat option) omap"
  lastPresentFence :: int
  plugged :: "(32 word \<times> bool) list"

text \<open>The sampler is the one instance of the process. \<open>plugged\<close> lists the calls of the hot-plug callback.\<close>

definition new_HdiBackend :: "sampler \<Rightarrow> backend" where
  "new_HdiBackend s =
     \<lparr>be_device = False, onScreenHotplugCb = False, onPrepareCompleteCb = False, be_outputs = [], be_store = (\<lambda>_. None), be_next = 0,
      be_sampler = s, lastFrameBuffers = [], lastPresentFence = INVALID_FD, plugged = []\<rparr>"

definition ROSEN_ERROR_OK :: int where "ROSEN_ERROR_OK = 0"
definition ROSEN_ERROR_INVALID_ARGUMENTS :: int where "ROSEN_ERROR_INVALID_ARGUMENTS = 40001000"
definition ROSEN_ERROR_NOT_INIT :: int where "ROSEN_ERROR_NOT_INIT = 41203000"
definition ROSEN_ERROR_API_FAILED :: int where "ROSEN_ERROR_API_FAILED = 50001000"

section \<open>Plugging\<close>

definition InitDevice :: "('d, 'm) frame_vendor_scheme \<Rightarrow> backend \<Rightarrow> 'd \<Rightarrow> int \<times> backend \<times> 'd" where
  "InitDevice v b d =
     (if be_device b then (ROSEN_ERROR_OK, b, d)
      else if \<not> available v then (ROSEN_ERROR_NOT_INIT, b, d)
      else
        (let b = b\<lparr>be_device := True\<rparr>; (ret, d) = call_set v (RegHotPlugCallback v) d
         in (if ret \<noteq> success v then ROSEN_ERROR_API_FAILED else ROSEN_ERROR_OK, b, d)))"

definition RegScreenHotplug :: "('d, 'm) frame_vendor_scheme \<Rightarrow> bool \<Rightarrow> backend \<Rightarrow> 'd \<Rightarrow> int \<times> backend \<times> 'd" where
  "RegScreenHotplug v func b d =
     (if \<not> func then (ROSEN_ERROR_INVALID_ARGUMENTS, b, d) else InitDevice v (b\<lparr>onScreenHotplugCb := True\<rparr>) d)"

definition RegPrepareComplete :: "bool \<Rightarrow> backend \<Rightarrow> int \<times> backend" where
  "RegPrepareComplete func b =
     (if \<not> func then (ROSEN_ERROR_INVALID_ARGUMENTS, b) else (ROSEN_ERROR_OK, b\<lparr>onPrepareCompleteCb := True\<rparr>))"

text \<open>\<open>emplace\<close> keeps the output a screen has already.\<close>

definition be_CreateHdiOutput :: "'d fb_ops \<Rightarrow> rect \<Rightarrow> 32 word \<Rightarrow> 32 word \<Rightarrow> backend \<Rightarrow> 'd \<Rightarrow> backend \<times> 'd" where
  "be_CreateHdiOutput F junk junkNum sid b d =
     (let (_, new, d) = ho_Init F (CreateHdiOutput junk junkNum sid) d
      in if om_has sid (be_outputs b) then (b, d)
         else (b\<lparr>be_outputs := om_put sid (be_next b) (be_outputs b), be_store := (be_store b)(be_next b \<mapsto> new), be_next := Suc (be_next b)\<rparr>, d))"

definition OnScreenHotplug :: "32 word \<Rightarrow> bool \<Rightarrow> backend \<Rightarrow> backend" where
  "OnScreenHotplug sid connected b =
     (if \<not> om_has sid (be_outputs b) then b
      else
        (let b = (if onScreenHotplugCb b then b\<lparr>plugged := plugged b @ [(sid, connected)]\<rparr> else b)
         in if \<not> connected then b\<lparr>be_outputs := om_del sid (be_outputs b)\<rparr> else b))"

definition OnHdiBackendConnected :: "'d fb_ops \<Rightarrow> rect \<Rightarrow> 32 word \<Rightarrow> 32 word \<Rightarrow> bool \<Rightarrow> backend \<Rightarrow> 'd \<Rightarrow> backend \<times> 'd" where
  "OnHdiBackendConnected F junk junkNum sid connected b d =
     (let (b, d) = (if connected then be_CreateHdiOutput F junk junkNum sid b d else (b, d))
      in (OnScreenHotplug sid connected b, d))"

section \<open>A frame\<close>

text \<open>\<open>set_output\<close> is a change of an output through its pointer.\<close>

definition set_output :: "nat \<Rightarrow> houtput \<Rightarrow> backend \<Rightarrow> backend" where
  "set_output a o1 b = b\<lparr>be_store := (be_store b)(a \<mapsto> o1)\<rparr>"

text \<open>A loop over the layers of an output: it changes them one by one, and the outside.\<close>

definition each_layer :: "(hlayer \<Rightarrow> 'd \<Rightarrow> (hlayer \<times> 'd) option) \<Rightarrow> visits \<Rightarrow> houtput \<Rightarrow> 'd \<Rightarrow> (houtput \<times> 'd) option" where
  "each_layer f vs o1 d =
     ofold (\<lambda>a (o1, d). map_option (\<lambda>(l, d). (set_layer a l o1, d)) (f (the_layer o1 a) d))
       (map snd (by_layer vs (layerIdMap o1))) (o1, d)"

text \<open>A loop over the layers the driver names; it skips unknown ones.\<close>

definition named_layers :: "('x \<Rightarrow> hlayer \<Rightarrow> hlayer option) \<Rightarrow> (32 word \<times> 'x) list \<Rightarrow> houtput \<Rightarrow> houtput option" where
  "named_layers f named =
     ofold (\<lambda>(k, x) o1.
       case map_of (layerIdMap o1) k of
         None \<Rightarrow> Some o1
       | Some a \<Rightarrow> map_option (\<lambda>l. set_layer a l o1) (f x (the_layer o1 a))) named"

definition UpdateLayerCompType :: "('d, 'm) frame_vendor_scheme \<Rightarrow> houtput \<Rightarrow> 'd \<Rightarrow> (int \<times> houtput \<times> 'd) option" where
  "UpdateLayerCompType v o1 d =
     (let (ret, changes, d) = hd_GetScreenCompChange v (ho_screen o1) d
      in if ret \<noteq> success v then Some (ret, o1, d)
         else map_option (\<lambda>o1. (ret, o1, d)) (named_layers (\<lambda>ty l. Some (UpdateCompositionType ty l)) changes o1))"

definition SetScreenClientInfo :: "('d, 'm) frame_vendor_scheme \<Rightarrow> fb_entry \<Rightarrow> houtput \<Rightarrow> 'd \<Rightarrow> int \<times> 'd" where
  "SetScreenClientInfo v fbEntry o1 d =
     (case fe_buffer fbEntry of
        None \<Rightarrow> (-1, d)
      | Some buf \<Rightarrow>
          (let (ret, d) = hd_SetScreenClientBuffer v (ho_screen o1) buf (fe_acquire fbEntry) d
           in if ret \<noteq> success v then (ret, d)
              else hd_SetScreenClientDamage v (ho_screen o1) (ho_damageNum o1) (ho_damage o1) d))"

definition FlushScreen ::
    "('d, 'm) frame_vendor_scheme \<Rightarrow> 'd fb_ops \<Rightarrow> nat list \<Rightarrow> houtput \<Rightarrow> backend \<Rightarrow> 'd \<Rightarrow> (int \<times> houtput \<times> backend \<times> 'd) option" where
  "FlushScreen v F compClientLayers o1 b d =
     (let (fbEntry, o1, d) = ho_GetFramebuffer F o1 d
      in case fbEntry of
           None \<Rightarrow> Some (-1, o1, b, d)
         | Some e \<Rightarrow>
             (let d = (case map_of (lastFrameBuffers b) (ho_screen o1) of
                         None \<Rightarrow> d
                       | Some shown \<Rightarrow> snd (ho_ReleaseFramebuffer F shown (Some (lastPresentFence b)) o1 d));
                  b = b\<lparr>lastFrameBuffers := om_put (ho_screen o1) (fe_buffer e) (lastFrameBuffers b)\<rparr>
              in Option.bind
                   (ofold (\<lambda>a o1. map_option (\<lambda>l. set_layer a l o1) (MergeWithFramebufferFence (kernel v d) (fe_acquire e) (the_layer o1 a)))
                      compClientLayers o1)
                   (\<lambda>o1. let (ret, d) = SetScreenClientInfo v e o1 d in Some (ret, o1, b, d))))"

definition ReleaseLayerBuffer :: "('d, 'm) frame_vendor_scheme \<Rightarrow> visits \<Rightarrow> houtput \<Rightarrow> 'd \<Rightarrow> (houtput \<times> 'd) option" where
  "ReleaseLayerBuffer v vs o1 d =
     (let (ret, fences, d) = hd_GetScreenReleaseFence v (ho_screen o1) d
      in if ret \<noteq> success v then Some (o1, d)
         else
           Option.bind (named_layers (\<lambda>f. MergeWithLayerFence (kernel v d) (Some f)) fences o1)
             (\<lambda>o1. each_layer (hl_ReleaseBuffer v) vs o1 d))"

text \<open>
  The present time of the frame before goes to the sampler, to each layer, and once per layer to the
  output. \<open>PENDING\<close> is a fence that has not signalled.
\<close>

definition record_present :: "('d, 'm) frame_vendor_scheme \<Rightarrow> visits \<Rightarrow> houtput \<Rightarrow> backend \<Rightarrow> 'd \<Rightarrow> (houtput \<times> backend) option" where
  "record_present v vs o1 b d =
     (let t = SyncFileReadTimestamp (kernel v d) (lastPresentFence b)
      in if t = FENCE_PENDING_TIMESTAMP then Some (o1, b)
         else
           Option.bind (vs_AddPresentFenceTime t (be_sampler b)) (\<lambda>(again, s).
           Option.bind
             (ofold (\<lambda>a o1. map_option (\<lambda>l. RecordCompositionTime t (set_layer a l o1)) (RecordPresentTime t (the_layer o1 a)))
                (map snd (by_layer vs (layerIdMap o1))) o1)
             (\<lambda>o1. Some (o1, b\<lparr>be_sampler := (if again then vs_BeginSample s else s)\<rparr>))))"

text \<open>
  One turn of \<open>Repaint\<close>; \<open>True\<close> goes on with the next output, \<open>False\<close> returns. \<open>by_z\<close> is \<open>std::sort\<close> by
  z order, which says nothing of equal ones.
\<close>

definition repaint_output ::
    "('d, 'm) frame_vendor_scheme \<Rightarrow> 'd fb_ops \<Rightarrow> visits \<Rightarrow> (layer_info list \<Rightarrow> layer_info list) \<Rightarrow> houtput \<Rightarrow> backend \<Rightarrow> 'd \<Rightarrow>
     (bool \<times> houtput \<times> backend \<times> 'd) option" where
  "repaint_output v F vs by_z o1 b d =
     (if layerIdMap o1 = [] then Some (True, o1, b, d)
      else
        Option.bind (each_layer (\<lambda>l d. map_option (Pair l) (SetHdiLayerInfo v l d)) vs o1 d) (\<lambda>(o1, d).
        let (ret, needFlush, d) = hd_PrepareScreenLayers v (ho_screen o1) False d
        in if ret \<noteq> success v then Some (False, o1, b, d)
           else
             Option.bind (UpdateLayerCompType v o1 d) (\<lambda>(ret, o1, d).
               if ret \<noteq> success v then Some (False, o1, b, d)
               else
                 (let as = map snd (by_layer vs (layerIdMap o1));
                      newLayerInfos = map (\<lambda>a. the (hl_info (the_layer o1 a))) as;
                      compClientLayers = filter (\<lambda>a. li_composition (the (hl_info (the_layer o1 a))) = COMPOSITION_CLIENT v) as;
                      needFlush = (needFlush \<or> compClientLayers \<noteq> []);
                      layers = (if needFlush then by_z newLayerInfos else newLayerInfos);
                      (fb, d) = (if onPrepareCompleteCb b then prepare_complete v needFlush layers (ho_fb o1) d else (ho_fb o1, d));
                      o1 = o1\<lparr>ho_fb := fb\<rparr>
                  in Option.bind (if needFlush then FlushScreen v F compClientLayers o1 b d else Some (0, o1, b, d)) (\<lambda>(_, o1, b, d).
                     let (_, fbFence, d) = hd_Commit v (ho_screen o1) INVALID_FD d
                     in Option.bind (ReleaseLayerBuffer v vs o1 d) (\<lambda>(o1, d).
                        map_option (\<lambda>(o1, b). (True, o1, b\<lparr>lastPresentFence := fbFence\<rparr>, d)) (record_present v vs o1 b d)))))))"

text \<open>\<open>outputs\<close> holds pointers, some null.\<close>

fun repaint_outputs ::
    "('d, 'm) frame_vendor_scheme \<Rightarrow> 'd fb_ops \<Rightarrow> visits \<Rightarrow> (layer_info list \<Rightarrow> layer_info list) \<Rightarrow> nat option list \<Rightarrow> backend \<Rightarrow> 'd \<Rightarrow>
     (backend \<times> 'd) option" where
  "repaint_outputs v F vs by_z [] b d = Some (b, d)"
| "repaint_outputs v F vs by_z (None # as) b d = repaint_outputs v F vs by_z as b d"
| "repaint_outputs v F vs by_z (Some a # as) b d =
     Option.bind (be_store b a) (\<lambda>o1.
     Option.bind (repaint_output v F vs by_z o1 b d) (\<lambda>(go, o1, b, d).
       if go then repaint_outputs v F vs by_z as (set_output a o1 b) d else Some (set_output a o1 b, d)))"

definition Repaint ::
    "('d, 'm) frame_vendor_scheme \<Rightarrow> 'd fb_ops \<Rightarrow> visits \<Rightarrow> (layer_info list \<Rightarrow> layer_info list) \<Rightarrow> nat option list \<Rightarrow> backend \<Rightarrow> 'd \<Rightarrow>
     (backend \<times> 'd) option" where
  "Repaint v F vs by_z outputs b d =
     (if \<not> be_device b then Some (b, d) else repaint_outputs v F vs by_z outputs b d)"

end
