(* ===== verification/Hardware_Processor.thy ===== *)
theory Hardware_Processor
  imports Complex_Main Rs_Rect Surface_Handler Screen Hdi_Backend
begin

text \<open>
  \<open>RSHardwareProcessor\<close> (\<open>rosen/modules/render_service/core/pipeline/rs_hardware_processor.cpp\<close>): it makes a layer
  of every node of a display that is shown and, at the end of the frame, turns the layers with the screen, crops
  them to it, adapts their crop to the shape they are shown in and hands them to the output.

  Coordinates are C's 32 bit numbers, see \<open>Rs_Rect\<close>. The enumerators of \<open>display_type.h\<close>, what is known of a
  buffer, and the positions of the nodes, which are floating point numbers and rationals here, are arguments.
\<close>

section \<open>State\<close>

record hw_consts =
  T_NONE :: int
  T_90 :: int
  T_180 :: int
  T_270 :: int
  T_BUTT :: int
  COMP_CLIENT :: int
  COMP_DEVICE :: int
  HW_BLEND_NONE :: int

record buffer_attr =
  ba_width :: int
  ba_height :: int
  ba_scaling :: int
  ba_gamut :: int

text \<open>
  A layer with what is behind \<open>additionalInfo_\<close>: no node, a node without a consumer, or the transform of its
  consumer.
\<close>

record hw_layer = layer_info +
  hw_node_transform :: "int option option"

record hw_node = surface_node +
  nd_boundsX :: rat
  nd_boundsY :: rat
  nd_absRect :: "rect option"
  nd_dstRect :: rect
  nd_zorder :: int
  nd_gAlpha :: "8 word"
  nd_blend :: int
  nd_needClient :: bool
  nd_transform :: int

record hw_processor =
  hp_offsetX :: int
  hp_offsetY :: int
  hp_rotation :: screen_rotation
  hp_width :: "32 word"
  hp_height :: "32 word"
  hp_gamut :: int
  hp_output :: "nat option"
  hp_layers :: "hw_layer list"

text \<open>
  \<open>Init\<close> with what the screen manager answers: the rotation, the output if there is one, and size and gamut of the
  screen.
\<close>

definition hw_Init ::
    "int \<Rightarrow> int \<Rightarrow> screen_rotation \<Rightarrow> nat option \<Rightarrow> 32 word \<times> 32 word \<times> int \<Rightarrow> hw_processor \<Rightarrow> backend \<Rightarrow> (hw_processor \<times> backend) option" where
  "hw_Init offsetX offsetY rot outp screen p b =
     (let p = p\<lparr>hp_offsetX := offsetX, hp_offsetY := offsetY, hp_rotation := rot, hp_output := outp\<rparr>;
          b = snd (RegPrepareComplete True b);
          (w, h, gamut) = screen
      in case outp of
           None \<Rightarrow> Some (p, b)
         | Some a \<Rightarrow>
             map_option (\<lambda>o1. (p\<lparr>hp_width := w, hp_height := h, hp_gamut := gamut\<rparr>,
                 set_output a (SetOutputDamage 1 \<lparr>rx = 0, ry = 0, rw = sint w, rh = sint h\<rparr> o1) b))
               (be_store b a))"

section \<open>Making layers\<close>

text \<open>
  The part of \<open>src\<close> shown where \<open>clip\<close> cuts \<open>origin\<close>; \<open>std::ceil\<close> of a quotient of integers is the quotient,
  rounded to zero.
\<close>

definition CalculateSrcRect :: "rect \<Rightarrow> rect \<Rightarrow> rect \<Rightarrow> rect option" where
  "CalculateSrcRect src clip origin =
     Option.bind (if rt_IsEmpty clip then Some 0
       else Option.bind (i32_sub (rx clip) (rx origin)) (\<lambda>a. Option.bind (i32_mul a (rw src)) (\<lambda>b. i32_div b (rw origin)))) (\<lambda>x.
     Option.bind (if rt_IsEmpty clip then Some 0
       else Option.bind (i32_sub (ry clip) (ry origin)) (\<lambda>a. Option.bind (i32_mul a (rh src)) (\<lambda>b. i32_div b (rh origin)))) (\<lambda>y.
     Option.bind (if rt_IsEmpty origin then Some 0 else Option.bind (i32_mul (rw src) (rw clip)) (\<lambda>a. i32_div a (rw origin))) (\<lambda>w.
     Option.bind (if rt_IsEmpty origin then Some 0 else Option.bind (i32_mul (rh src) (rh clip)) (\<lambda>a. i32_div a (rh origin))) (\<lambda>h.
       Some \<lparr>rx = x, ry = y, rw = w, rh = h\<rparr>))))"

text \<open>
  \<open>ComposeSurface\<close> on a new layer; \<open>fresh\<close> is what its constructor leaves, \<open>tr\<close> the transform of the node's consumer,
  which must be there for a node that has a buffer.
\<close>

record compose_info =
  ci_src :: rect
  ci_dst :: rect
  ci_visible :: rect
  ci_zorder :: int
  ci_alpha :: layer_alpha
  ci_blend :: int

definition ComposeSurface :: "hw_consts \<Rightarrow> layer_info \<Rightarrow> compose_info \<Rightarrow> 64 word \<Rightarrow> bool \<Rightarrow> int \<Rightarrow> 'a handler_scheme \<Rightarrow> hw_layer" where
  "ComposeSurface k fresh info consumer client tr n =
     (let i = node_layer_info n fresh;
          i = li_SetZorder (ci_zorder info) (i\<lparr>li_surface := consumer, li_transform := T_BUTT k\<rparr>);
          i = i\<lparr>li_alpha := ci_alpha info, li_size := ci_dst info,
                li_composition := (if client then COMP_CLIENT k else COMP_DEVICE k),
                li_visibleNum := 1, li_visible := ci_visible info, li_dirty := ci_src info,
                li_blend := ci_blend info, li_crop := ci_src info\<rparr>
      in layer_info.extend i \<lparr>hw_node_transform = Some (Some tr)\<rparr>)"

definition hw_bounds :: "hw_processor \<Rightarrow> rat \<times> rat" where
  "hw_bounds p =
     (let w = of_int (uint (hp_width p)); h = of_int (uint (hp_height p))
      in if hp_rotation p = ROTATION_90 \<or> hp_rotation p = ROTATION_270 then (h, w) else (w, h))"

text \<open>\<open>ProcessSurface\<close> of a surface node.\<close>

definition hw_ProcessSurface ::
    "'d consumer_ops \<Rightarrow> hw_consts \<Rightarrow> (nat \<Rightarrow> buffer_attr) \<Rightarrow> layer_info \<Rightarrow> hw_processor \<Rightarrow> hw_node \<Rightarrow> 'd \<Rightarrow> (hw_processor \<times> hw_node \<times> 'd) option" where
  "hw_ProcessSurface C k bufs fresh p n d =
     Option.bind (ConsumeAndUpdateBuffer C False n d) (\<lambda>(got, _, n, d).
       if \<not> got then Some (p, n, d)
       else if hp_output p = None then Some (p, n, ReleaseNodePrevBuffer C n d)
       else if nd_boundsX n \<ge> fst (hw_bounds p) \<or> nd_boundsY n \<ge> snd (hw_bounds p) then Some (p, n, ReleaseNodePrevBuffer C n d)
       else
         (case nd_absRect n of
            None \<Rightarrow> Some (p, n, ReleaseNodePrevBuffer C n d)
          | Some ar \<Rightarrow>
              (let n = (if \<not> isNotifyRTBufferAvailable n then NotifyRTBufferAvailable n else n)
               in case (sh_buffer n, sh_consumer n) of
                    (Some bf, Some c) \<Rightarrow>
                      (let attr = bufs bf; dst = nd_dstRect n
                       in if rw dst \<le> 0 \<or> rh dst \<le> 0 then Some (p, n, ReleaseNodePrevBuffer C n d)
                          else
                            Option.bind (i32_sub (rx ar) (hp_offsetX p)) (\<lambda>ox.
                            Option.bind (i32_sub (ry ar) (hp_offsetY p)) (\<lambda>oy.
                            Option.bind (CalculateSrcRect \<lparr>rx = 0, ry = 0, rw = ba_width attr, rh = ba_height attr\<rparr> dst \<lparr>rx = ox, ry = oy, rw = rw ar, rh = rh ar\<rparr>) (\<lambda>src.
                              (let info = \<lparr>ci_src = src, ci_dst = dst,
                                     ci_visible = \<lparr>rx = 0, ry = 0, rw = sint (hp_width p), rh = sint (hp_height p)\<rparr>,
                                     ci_zorder = nd_zorder n,
                                     ci_alpha = \<lparr>enGlobalAlpha = True, enPixelAlpha = False, alpha0 = 0, alpha1 = 0, gAlpha = nd_gAlpha n\<rparr>,
                                     ci_blend = nd_blend n\<rparr>;
                                   l = ComposeSurface k fresh info c (nd_needClient n) (nd_transform n) n;
                                   l = (if ba_gamut attr \<noteq> hp_gamut p then l\<lparr>li_composition := COMP_CLIENT k\<rparr> else l)
                               in Some (p\<lparr>hp_layers := hp_layers p @ [l]\<rparr>, n, d))))))
                  | _ \<Rightarrow> None)))"

text \<open>\<open>ProcessSurface\<close> of a display node, which the uni render composes itself.\<close>

definition hw_ProcessDisplay ::
    "'d consumer_ops \<Rightarrow> hw_consts \<Rightarrow> (nat \<Rightarrow> buffer_attr) \<Rightarrow> layer_info \<Rightarrow> int \<Rightarrow> int \<Rightarrow> hw_processor \<Rightarrow> 'a handler_scheme \<Rightarrow> 'd \<Rightarrow>
     (hw_processor \<times> 'a handler_scheme \<times> 'd) option" where
  "hw_ProcessDisplay C k bufs fresh z tr p n d =
     (if hp_output p = None then Some (p, n, d)
      else
        Option.bind (ConsumeAndUpdateBuffer C False n d) (\<lambda>(got, _, n, d).
          if \<not> got then Some (p, n, d)
          else
            (case (sh_buffer n, sh_consumer n) of
               (Some bf, Some c) \<Rightarrow>
                 (let attr = bufs bf; screen = \<lparr>rx = 0, ry = 0, rw = sint (hp_width p), rh = sint (hp_height p)\<rparr>;
                      info = \<lparr>ci_src = \<lparr>rx = 0, ry = 0, rw = ba_width attr, rh = ba_height attr\<rparr>, ci_dst = screen, ci_visible = screen, ci_zorder = z,
                              ci_alpha = \<lparr>enGlobalAlpha = False, enPixelAlpha = False, alpha0 = 0, alpha1 = 0, gAlpha = 0\<rparr>,
                              ci_blend = HW_BLEND_NONE k\<rparr>
                  in Some (p\<lparr>hp_layers := hp_layers p @ [ComposeSurface k fresh info c False tr n]\<rparr>, n, d))
             | _ \<Rightarrow> None)))"

section \<open>The end of a frame\<close>

fun map_layers :: "('l \<Rightarrow> 'l option) \<Rightarrow> 'l list \<Rightarrow> 'l list option" where
  "map_layers f [] = Some []"
| "map_layers f (l # ls) = Option.bind (f l) (\<lambda>l. map_option ((#) l) (map_layers f ls))"

fun rotate_rect :: "screen_rotation \<Rightarrow> int \<Rightarrow> int \<Rightarrow> rect \<Rightarrow> rect option" where
  "rotate_rect ROTATION_90 w h r =
     Option.bind (i32_sub h (rx r)) (\<lambda>a. map_option (\<lambda>y. \<lparr>rx = ry r, ry = y, rw = rh r, rh = rw r\<rparr>) (i32_sub a (rw r)))"
| "rotate_rect ROTATION_180 w h r =
     Option.bind (i32_sub w (rx r)) (\<lambda>a. Option.bind (i32_sub a (rw r)) (\<lambda>x.
     Option.bind (i32_sub h (ry r)) (\<lambda>b. map_option (\<lambda>y. \<lparr>rx = x, ry = y, rw = rw r, rh = rh r\<rparr>) (i32_sub b (rh r)))))"
| "rotate_rect ROTATION_270 w h r =
     Option.bind (i32_sub w (ry r)) (\<lambda>a. map_option (\<lambda>x. \<lparr>rx = x, ry = rx r, rw = rh r, rh = rw r\<rparr>) (i32_sub a (rh r)))"
| "rotate_rect _ w h r = Some r"

fun rotate_transform :: "hw_consts \<Rightarrow> screen_rotation \<Rightarrow> int \<Rightarrow> int" where
  "rotate_transform k ROTATION_90 t =
     (if t = T_90 k then T_180 k else if t = T_180 k then T_90 k else if t = T_270 k then T_NONE k else T_270 k)"
| "rotate_transform k ROTATION_180 t =
     (if t = T_90 k then T_90 k else if t = T_180 k then T_NONE k else if t = T_270 k then T_270 k else T_180 k)"
| "rotate_transform k ROTATION_270 t =
     (if t = T_90 k then T_NONE k else if t = T_180 k then T_270 k else if t = T_270 k then T_180 k else T_90 k)"
| "rotate_transform k _ t =
     (if t = T_90 k then T_270 k else if t = T_180 k then T_180 k else if t = T_270 k then T_90 k else T_NONE k)"

definition rotate_layer :: "hw_consts \<Rightarrow> screen_rotation \<Rightarrow> int \<Rightarrow> int \<Rightarrow> hw_layer \<Rightarrow> hw_layer option" where
  "rotate_layer k rot w h l =
     (case hw_node_transform l of
        Some (Some t) \<Rightarrow> map_option (\<lambda>r. l\<lparr>li_size := r, li_transform := rotate_transform k rot t\<rparr>) (rotate_rect rot w h (li_size l))
      | _ \<Rightarrow> Some l)"

text \<open>With the uni render on, the layers are not turned.\<close>

definition OnRotate :: "hw_consts \<Rightarrow> bool \<Rightarrow> hw_processor \<Rightarrow> hw_layer list \<Rightarrow> hw_layer list option" where
  "OnRotate k uni p ls =
     (if uni then Some ls else map_layers (rotate_layer k (hp_rotation p) (sint (hp_width p)) (sint (hp_height p))) ls)"

definition crop_layer :: "int \<Rightarrow> int \<Rightarrow> hw_layer \<Rightarrow> hw_layer option" where
  "crop_layer screenWidth screenHeight l =
     (let dstRectI = li_size l; src = li_crop l in
      Option.bind (rt_IntersectRect dstRectI \<lparr>rx = 0, ry = 0, rw = screenWidth, rh = screenHeight\<rparr>) (\<lambda>res.
        if res = dstRectI then Some l
        else map_option (\<lambda>src. l\<lparr>li_size := res, li_dirty := src, li_crop := src\<rparr>) (CalculateSrcRect src res dstRectI)))"

definition CropLayers :: "hw_processor \<Rightarrow> hw_layer list \<Rightarrow> hw_layer list option" where
  "CropLayers p = map_layers (crop_layer (sint (hp_width p)) (sint (hp_height p)))"

text \<open>The crop is made narrower or lower, in unsigned numbers, until it has the shape of the layer.\<close>

definition shrink_crop :: "rect \<Rightarrow> 32 word \<Rightarrow> 32 word \<Rightarrow> rect" where
  "shrink_crop src newWidth newHeight =
     (let currentWidth = word_of_int (rw src); currentHeight = word_of_int (rh src) in
      if newWidth < currentWidth
      then src\<lparr>rx := sint (word_of_int (rx src) + (currentWidth - newWidth) div 2 :: 32 word), rw := sint newWidth\<rparr>
      else src\<lparr>ry := sint (word_of_int (ry src) + (currentHeight - newHeight) div 2 :: 32 word), rh := sint newHeight\<rparr>)"

definition word_div :: "32 word \<Rightarrow> 32 word \<Rightarrow> 32 word option" where
  "word_div a b = (if b = 0 then None else Some (a div b))"

definition scale_down_layer :: "(nat \<Rightarrow> buffer_attr) \<Rightarrow> hw_layer \<Rightarrow> hw_layer option" where
  "scale_down_layer bufs l =
     (case li_buffer l of
        None \<Rightarrow> None
      | Some bf \<Rightarrow>
          if ba_scaling (bufs bf) \<noteq> scaling_mode_value SCALING_MODE_SCALE_CROP then Some l
          else
            (let src = li_crop l; dw = word_of_int (rw (li_size l)); dh = word_of_int (rh (li_size l));
                 newWidth = word_of_int (rw src); newHeight = word_of_int (rh src);
                 put = (\<lambda>s. l\<lparr>li_dirty := s, li_crop := s\<rparr>)
             in if newWidth * dh > newHeight * dw then map_option (\<lambda>w. put (shrink_crop src w newHeight)) (word_div (dw * newHeight) dh)
                else if newWidth * dh < newHeight * dw then map_option (\<lambda>h. put (shrink_crop src newWidth h)) (word_div (dh * newWidth) dw)
                else Some l))"

definition ScaleDownLayers :: "(nat \<Rightarrow> buffer_attr) \<Rightarrow> hw_layer list \<Rightarrow> hw_layer list option" where
  "ScaleDownLayers bufs = map_layers (scale_down_layer bufs)"

definition prepare_layers :: "hw_consts \<Rightarrow> bool \<Rightarrow> (nat \<Rightarrow> buffer_attr) \<Rightarrow> hw_processor \<Rightarrow> hw_layer list option" where
  "prepare_layers k uni bufs p =
     Option.bind (OnRotate k uni p (hp_layers p)) (\<lambda>ls. Option.bind (CropLayers p ls) (ScaleDownLayers bufs))"

definition hw_PostProcess ::
    "('d, 'm) frame_vendor_scheme \<Rightarrow> 'd fb_ops \<Rightarrow> int list \<Rightarrow> visits \<Rightarrow> (layer_info list \<Rightarrow> layer_info list) \<Rightarrow>
     hw_consts \<Rightarrow> bool \<Rightarrow> (nat \<Rightarrow> buffer_attr) \<Rightarrow> hw_processor \<Rightarrow> backend \<Rightarrow> 'd \<Rightarrow> (hw_processor \<times> backend \<times> 'd) option" where
  "hw_PostProcess v F junk vs by_z k uni bufs p b d =
     (case hp_output p of
        None \<Rightarrow> Some (p, b, d)
      | Some a \<Rightarrow>
          Option.bind (prepare_layers k uni bufs p) (\<lambda>ls.
          Option.bind (be_store b a) (\<lambda>o1.
          Option.bind (SetLayerInfo v junk vs (map layer_info.truncate ls) o1 d) (\<lambda>(o1, d).
            map_option (\<lambda>(b, d). (p\<lparr>hp_layers := ls\<rparr>, b, d)) (Repaint v F vs by_z [Some a] (set_output a o1 b) d)))))"

end
