(* ===== verification/Hdi_Repaint.thy ===== *)
theory Hdi_Repaint
  imports Hdi_Backend
begin

text \<open>
  \<open>Repaint\<close> keeps the invariant of an output and, when every layer of the frame has its buffer and fences, never
  meets a null pointer.
\<close>

section \<open>The contract of the outside\<close>

text \<open>Only creating and closing layers changes which are open.\<close>

definition keeps_set :: "('d \<Rightarrow> 'o) \<Rightarrow> ('d \<Rightarrow> int \<times> 'd) option \<Rightarrow> bool" where
  "keeps_set opened f \<longleftrightarrow> (\<forall>g d. f = Some g \<longrightarrow> opened (snd (g d)) = opened d)"

definition keeps_setter :: "('d \<Rightarrow> 'o) \<Rightarrow> ('x, 'd) layer_setter \<Rightarrow> bool" where
  "keeps_setter opened f \<longleftrightarrow> (\<forall>g s k x d. f = Some g \<longrightarrow> opened (snd (g s k x d)) = opened d)"

definition setters_keep :: "('d \<Rightarrow> 'o) \<Rightarrow> ('d, 'm) layer_vendor_scheme \<Rightarrow> bool" where
  "setters_keep opened v \<longleftrightarrow> keeps_setter opened (LF_SetLayerAlpha v) \<and> keeps_setter opened (LF_SetLayerSize v) \<and>
     keeps_setter opened (LF_SetTransformMode v) \<and> keeps_setter opened (LF_SetLayerVisibleRegion v) \<and>
     keeps_setter opened (LF_SetLayerDirtyRegion v) \<and> keeps_setter opened (LF_SetLayerBuffer v) \<and>
     keeps_setter opened (LF_SetLayerCompositionType v) \<and> keeps_setter opened (LF_SetLayerBlendType v) \<and>
     keeps_setter opened (LF_SetLayerCrop v) \<and> keeps_setter opened (LF_SetLayerZorder v) \<and> keeps_setter opened (LF_SetLayerPreMulti v) \<and>
     (\<forall>s b f d. opened (snd (surface_ReleaseBuffer v s b f d)) = opened d)"

definition frame_keeps :: "('d \<Rightarrow> 'o) \<Rightarrow> ('d, 'm) frame_vendor_scheme \<Rightarrow> 'd fb_ops \<Rightarrow> bool" where
  "frame_keeps opened v F \<longleftrightarrow>
     (\<forall>s x d. opened (snd (snd (hd_PrepareScreenLayers v s x d))) = opened d) \<and>
     (\<forall>s d. opened (snd (snd (hd_GetScreenCompChange v s d))) = opened d) \<and>
     (\<forall>s b f d. opened (snd (hd_SetScreenClientBuffer v s b f d)) = opened d) \<and>
     (\<forall>s n r d. opened (snd (hd_SetScreenClientDamage v s n r d)) = opened d) \<and>
     (\<forall>s d. opened (snd (snd (hd_GetScreenReleaseFence v s d))) = opened d) \<and>
     (\<forall>s f d. opened (snd (snd (hd_Commit v s f d))) = opened d) \<and>
     (\<forall>x ls fb d. opened (snd (prepare_complete v x ls fb d)) = opened d) \<and>
     (\<forall>s b f d. opened (snd (fb_release F s b f d)) = opened d) \<and> (\<forall>fb d. opened (snd (wait_for F fb d)) = opened d)"

definition composer_outside :: "('d, 'm) frame_vendor_scheme \<Rightarrow> 'd fb_ops \<Rightarrow> ('d \<Rightarrow> (32 word \<times> 32 word) set) \<Rightarrow> bool" where
  "composer_outside v F opened \<longleftrightarrow> layer_driver v opened \<and> setters_keep opened v \<and> frame_keeps opened v F"

lemma keeps_setterD: "keeps_setter opened f \<Longrightarrow> opened (snd (hd_setter v f s k x d)) = opened d"
  by (auto simp: keeps_setter_def hd_setter_def call_set_def split: option.split)

lemma SetLayerBuffer_keeps: "keeps_setter opened (LF_SetLayerBuffer v) \<Longrightarrow> opened (snd (hd_SetLayerBuffer v s k b f d)) = opened d"
  by (auto simp: keeps_setter_def hd_SetLayerBuffer_def split: option.split)

lemma SetHdiLayerInfo_keeps:
  assumes K: "setters_keep opened v" and s: "SetHdiLayerInfo v l d = Some d2"
  shows "opened d2 = opened d"
proof -
  note K = K[unfolded setters_keep_def, THEN conjunct1] K[unfolded setters_keep_def, THEN conjunct2]
  from K have "keeps_setter opened (LF_SetLayerAlpha v)" "keeps_setter opened (LF_SetLayerSize v)" "keeps_setter opened (LF_SetTransformMode v)"
      "keeps_setter opened (LF_SetLayerVisibleRegion v)" "keeps_setter opened (LF_SetLayerDirtyRegion v)" "keeps_setter opened (LF_SetLayerBuffer v)"
      "keeps_setter opened (LF_SetLayerCompositionType v)" "keeps_setter opened (LF_SetLayerBlendType v)" "keeps_setter opened (LF_SetLayerCrop v)"
      "keeps_setter opened (LF_SetLayerZorder v)" "keeps_setter opened (LF_SetLayerPreMulti v)"
    by blast+
  then show ?thesis
    using s unfolding SetHdiLayerInfo_def Let_def hd_SetLayerAlpha_def hd_SetLayerSize_def hd_SetTransformMode_def hd_SetLayerVisibleRegion_def
      hd_SetLayerDirtyRegion_def hd_SetLayerCompositionType_def hd_SetLayerBlendType_def hd_SetLayerCrop_def hd_SetLayerZorder_def hd_SetLayerPreMulti_def
    by (auto simp: keeps_setterD SetLayerBuffer_keeps split: option.splits if_splits)
qed

section \<open>Layers with all their pointers\<close>

definition buffer_full :: "layer_buffer \<Rightarrow> bool" where
  "buffer_full b \<longleftrightarrow> lb_acquire b \<noteq> None \<and> lb_release b \<noteq> None"

text \<open>The buffer shown before needs its acquire fence only while it is the one shown now.\<close>

definition layer_full :: "hlayer \<Rightarrow> bool" where
  "layer_full l \<longleftrightarrow> (\<exists>c p i. hl_curr l = Some c \<and> buffer_full c \<and> lb_buffer c \<noteq> None \<and> hl_prev l = Some p \<and> lb_release p \<noteq> None \<and>
     (lb_buffer p = lb_buffer c \<longrightarrow> lb_acquire p \<noteq> None) \<and> hl_info l = Some i \<and> li_buffer i \<noteq> None)"

definition info_full :: "layer_info \<Rightarrow> bool" where
  "info_full i \<longleftrightarrow> li_buffer i \<noteq> None \<and> li_acquire i \<noteq> None \<and> (li_preBuffer i = li_buffer i \<longrightarrow> li_preAcquire i \<noteq> None)"

definition output_full :: "houtput \<Rightarrow> bool" where
  "output_full o1 \<longleftrightarrow> (\<forall>a l. ho_layers o1 a = Some l \<longrightarrow> layer_full l)"

text \<open>What an operation of a frame does to a layer: the same layer of the driver, of the same surface.\<close>

definition same_layer :: "hlayer \<Rightarrow> hlayer \<Rightarrow> bool" where
  "same_layer l l' \<longleftrightarrow> hl_id l' = hl_id l \<and> hl_inUsing l' = hl_inUsing l \<and> hl_screen l' = hl_screen l \<and> hl_curr l' \<noteq> None \<and> hl_prev l' \<noteq> None \<and>
     map_option li_surface (hl_info l') = map_option li_surface (hl_info l)"

definition nonnull :: "hlayer \<Rightarrow> bool" where
  "nonnull l \<longleftrightarrow> hl_curr l \<noteq> None \<and> hl_prev l \<noteq> None"

text \<open>A change of a layer keeps it, and does not fail on a full one, which stays full.\<close>

definition gentle :: "(hlayer \<Rightarrow> hlayer option) \<Rightarrow> bool" where
  "gentle f \<longleftrightarrow> (\<forall>l. nonnull l \<longrightarrow> (\<forall>l'. f l = Some l' \<longrightarrow> same_layer l l')) \<and> (\<forall>l. layer_full l \<longrightarrow> (\<exists>l'. f l = Some l' \<and> layer_full l'))"

lemma full_nonnull: "layer_full l \<Longrightarrow> nonnull l"
  by (auto simp: layer_full_def nonnull_def)

definition merged :: "fence_kernel \<Rightarrow> int \<Rightarrow> int \<Rightarrow> int" where
  "merged k a b = (case MergeFence k ''ReleaseFence'' a b of None \<Rightarrow> INVALID_FD | Some f \<Rightarrow> f)"

lemma hl_Merge_simps [simp]:
  "hl_Merge k (Some a) (Some b) = Some (merged k a b)" "hl_Merge k None y = None" "hl_Merge k x None = None"
  by (auto simp: hl_Merge_def merged_def split: option.split)

lemma hl_Merge_Some: "hl_Merge k x y = Some r \<longleftrightarrow> (\<exists>a b. x = Some a \<and> y = Some b \<and> r = merged k a b)"
  by (cases x; cases y) auto

lemma full_cases:
  assumes "layer_full l"
  obtains c p i ca cr cb pr where "hl_curr l = Some c" "lb_acquire c = Some ca" "lb_release c = Some cr" "lb_buffer c = Some cb" "hl_prev l = Some p"
    "lb_buffer p = Some cb \<longrightarrow> lb_acquire p \<noteq> None" "lb_release p = Some pr" "hl_info l = Some i" "li_buffer i \<noteq> None"
  using assms unfolding layer_full_def buffer_full_def by auto

lemma gentleI:
  assumes "\<And>l l'. nonnull l \<Longrightarrow> f l = Some l' \<Longrightarrow> same_layer l l'" and "\<And>l. layer_full l \<Longrightarrow> \<exists>l'. f l = Some l' \<and> layer_full l'"
  shows "gentle f"
  using assms unfolding gentle_def by blast

lemma gentle_comp_type: "gentle (\<lambda>l. Some (UpdateCompositionType ty l))"
  by (rule gentleI) (auto simp: UpdateCompositionType_def same_layer_def nonnull_def layer_full_def split: option.splits)

lemma gentle_layer_fence: "gentle (MergeWithLayerFence k (Some f))"
proof (rule gentleI)
  fix l l' assume "nonnull l" "MergeWithLayerFence k (Some f) l = Some l'"
  then show "same_layer l l'"
    by (auto simp: MergeWithLayerFence_def same_layer_def nonnull_def bind_eq_Some_conv)
next
  fix l assume "layer_full l"
  then show "\<exists>l'. MergeWithLayerFence k (Some f) l = Some l' \<and> layer_full l'"
    by (rule full_cases) (simp add: MergeWithLayerFence_def layer_full_def buffer_full_def)
qed

lemma gentle_fb_fence: "gentle (MergeWithFramebufferFence k f)"
proof (cases f)
  case None
  then show ?thesis by (intro gentleI) (auto simp: MergeWithFramebufferFence_def same_layer_def nonnull_def)
next
  case (Some g)
  show ?thesis
  proof (rule gentleI)
    fix l l' assume "nonnull l" "MergeWithFramebufferFence k f l = Some l'"
    then show "same_layer l l'"
      by (auto simp: Some MergeWithFramebufferFence_def same_layer_def nonnull_def bind_eq_Some_conv)
  next
    fix l assume "layer_full l"
    then show "\<exists>l'. MergeWithFramebufferFence k f l = Some l' \<and> layer_full l'"
      by (rule full_cases) (simp add: Some MergeWithFramebufferFence_def layer_full_def buffer_full_def)
  qed
qed

lemma gentle_present: "gentle (RecordPresentTime t)"
  by (auto simp: gentle_def RecordPresentTime_def same_layer_def nonnull_def layer_full_def split: option.splits)

lemma ReleasePrevBuffer_keeps:
  assumes "ReleasePrevBuffer v p l d = (r, p', d')"
  shows "lb_acquire p' = lb_acquire p \<and> lb_release p' = lb_release p \<and> (lb_buffer p' = lb_buffer p \<or> lb_buffer p' = None)" and "setters_keep opened v \<Longrightarrow> opened d' = opened d"
proof -
  show "lb_acquire p' = lb_acquire p \<and> lb_release p' = lb_release p \<and> (lb_buffer p' = lb_buffer p \<or> lb_buffer p' = None)"
    using assms by (auto simp: ReleasePrevBuffer_def split: option.splits prod.splits if_splits)
  assume "setters_keep opened v"
  then have "\<forall>s b f d. opened (snd (surface_ReleaseBuffer v s b f d)) = opened d" unfolding setters_keep_def by blast
  then show "opened d' = opened d"
    using assms by (auto simp: ReleasePrevBuffer_def split: option.splits prod.splits if_splits) (metis snd_conv)+
qed

lemma ReleaseBuffer_same:
  assumes "hl_ReleaseBuffer v l d = Some (l', d')" 
  shows "same_layer l l'" and "setters_keep opened v \<Longrightarrow> opened d' = opened d" and "layer_full l \<Longrightarrow> layer_full l'"
proof -
  obtain c p where cp: "hl_curr l = Some c" "hl_prev l = Some p"
    using assms by (auto simp: hl_ReleaseBuffer_def split: option.splits)
  obtain r q d1 where R: "ReleasePrevBuffer v p l d = (r, q, d1)" using prod_cases3 by blast
  note RR = ReleasePrevBuffer_keeps[OF R]
  show "same_layer l l'" and "layer_full l \<Longrightarrow> layer_full l'"
    using assms RR(1) cp R by (auto simp: hl_ReleaseBuffer_def same_layer_def layer_full_def buffer_full_def bind_eq_Some_conv hl_Merge_Some
        split: if_splits)
  show "opened d' = opened d" if "setters_keep opened v"
    using assms RR(2)[OF that] cp R by (auto simp: hl_ReleaseBuffer_def bind_eq_Some_conv split: if_splits)
qed

lemma ReleaseBuffer_full: "layer_full l \<Longrightarrow> \<exists>l' d'. hl_ReleaseBuffer v l d = Some (l', d')"
  by (erule full_cases) (auto simp: hl_ReleaseBuffer_def split: prod.split)

lemma SetHdiLayerInfo_full: "layer_full l \<Longrightarrow> \<exists>d'. SetHdiLayerInfo v l d = Some d'"
  by (auto simp: layer_full_def SetHdiLayerInfo_def Let_def)

section \<open>Outputs\<close>

lemma ofold_keeps:
  assumes "ofold f xs s = Some s'" and "I s" and "\<And>x s s'. x \<in> set xs \<Longrightarrow> I s \<Longrightarrow> f x s = Some s' \<Longrightarrow> I s'"
  shows "I s'"
  using assms by (induction xs arbitrary: s) (auto simp: bind_eq_Some_conv)

lemma ofold_returns:
  assumes "I s" and "\<And>x s. x \<in> set xs \<Longrightarrow> I s \<Longrightarrow> \<exists>s'. f x s = Some s' \<and> I s'"
  shows "\<exists>s'. ofold f xs s = Some s' \<and> I s'"
  using assms
proof (induction xs arbitrary: s)
  case (Cons x xs)
  obtain s1 where "f x s = Some s1" "I s1" using Cons.prems(2)[of x s] Cons.prems(1) by auto
  moreover from this obtain s2 where "ofold f xs s1 = Some s2" "I s2" using Cons.IH[of s1] Cons.prems(2) by auto
  ultimately show ?case by simp
qed simp

text \<open>What a frame leaves alone.\<close>

definition kept :: "houtput \<Rightarrow> houtput \<Rightarrow> bool" where
  "kept o1 o2 \<longleftrightarrow> output_ok o2 \<and> layerIdMap o2 = layerIdMap o1 \<and> surfaceIdMap o2 = surfaceIdMap o1 \<and> ho_screen o2 = ho_screen o1 \<and>
     in_use o2 = in_use o1"

lemma kept_trans: "kept o1 o2 \<Longrightarrow> kept o2 o3 \<Longrightarrow> kept o1 o3"
  by (simp add: kept_def)

lemma output_ok_update [simp]:
  "output_ok (o2\<lparr>ho_fb := fb\<rparr>) = output_ok o2" "output_ok (RecordCompositionTime t o2) = output_ok o2"
  by (simp_all add: output_ok_def layer_ok_def RecordCompositionTime_def)

lemma kept_update:
  assumes "kept o1 o2"
  shows "kept o1 (o2\<lparr>ho_fb := fb\<rparr>)" and "kept o1 (RecordCompositionTime t o2)"
  using assms by (simp_all add: kept_def) (simp_all add: RecordCompositionTime_def in_use_def fun_eq_iff)

lemma kept_open: "kept o1 o2 \<Longrightarrow> open_here o1 op \<Longrightarrow> open_here o2 op"
  by (simp add: kept_def open_here_def)

lemma full_update:
  assumes "output_full o2"
  shows "output_full (o2\<lparr>ho_fb := fb\<rparr>)" and "output_full (RecordCompositionTime t o2)"
    and "layer_full l \<Longrightarrow> output_full (set_layer a l o2)"
  using assms by (simp_all add: output_full_def RecordCompositionTime_def set_layer_def)

lemma kept_layer:
  assumes k: "kept o1 o2" and a: "a \<in> snd ` set (layerIdMap o1)"
  shows "\<exists>l. ho_layers o2 a = Some l \<and> the_layer o2 a = l \<and> nonnull l \<and> hl_info l \<noteq> None"
proof -
  have ok: "output_ok o2" and m: "layerIdMap o2 = layerIdMap o1" using k by (simp_all add: kept_def)
  obtain j where "layer_of o2 j = Some a" using a om_vals[OF output_okD(1)[OF ok]] unfolding m by blast
  then show ?thesis using output_okD(3)[OF ok] by (fastforce simp: layer_ok_def nonnull_def the_layer_def)
qed

lemma kept_set:
  assumes k: "kept o1 o2" and l: "ho_layers o2 a = Some l" and s: "same_layer l l'"
  shows "kept o1 (set_layer a l' o2)"
proof -
  have "in_use (set_layer a l' o2) = in_use o2" using l s by (auto simp: in_use_def fun_eq_iff set_layer_def same_layer_def)
  moreover have "output_ok (set_layer a l' o2)" using output_ok_set_layer[of o2 a l l'] k l s by (simp add: kept_def same_layer_def)
  ultimately show ?thesis using k by (simp add: kept_def) (simp add: set_layer_def)
qed

text \<open>A gentle change of one layer of the output.\<close>

lemma gentle_step:
  assumes g: "gentle f" and k: "kept o1 o2" and a: "a \<in> snd ` set (layerIdMap o1)"
  shows "f (the_layer o2 a) = Some l' \<Longrightarrow> kept o1 (set_layer a l' o2)"
    and "output_full o2 \<Longrightarrow> \<exists>l'. f (the_layer o2 a) = Some l' \<and> kept o1 (set_layer a l' o2) \<and> output_full (set_layer a l' o2)"
proof -
  obtain l where l: "ho_layers o2 a = Some l" "the_layer o2 a = l" "nonnull l" using kept_layer[OF k a] by blast
  show 1: "kept o1 (set_layer a l' o2)" if "f (the_layer o2 a) = Some l'" for l'
    using kept_set[OF k l(1)] g l that unfolding gentle_def by blast
  show "\<exists>l'. f (the_layer o2 a) = Some l' \<and> kept o1 (set_layer a l' o2) \<and> output_full (set_layer a l' o2)" if "output_full o2"
  proof -
    have "layer_full l" using that l(1) by (simp add: output_full_def)
    then obtain l' where "f l = Some l'" "layer_full l'" using g unfolding gentle_def by blast
    then show ?thesis using 1 l(2) full_update(3)[OF that] by blast
  qed
qed

lemma named_layers_kept:
  fixes f :: "'x \<Rightarrow> hlayer \<Rightarrow> hlayer option"
  assumes g: "\<And>x. gentle (f x)" and k: "kept o1 o2"
  shows "named_layers f ns o2 = Some o3 \<Longrightarrow> kept o1 o3"
    and "output_full o2 \<Longrightarrow> \<exists>o3. named_layers f ns o2 = Some o3 \<and> kept o1 o3 \<and> output_full o3"
proof -
  have val: "a \<in> snd ` set (layerIdMap o1)" if "kept o1 o4" "layer_of o4 j = Some a" for o4 j a
  proof -
    from that(1) have ok: "output_ok o4" and m: "layerIdMap o4 = layerIdMap o1" by (simp_all add: kept_def)
    show ?thesis using that(2) om_vals[OF output_okD(1)[OF ok]] unfolding m by blast
  qed
  show "kept o1 o3" if "named_layers f ns o2 = Some o3"
  proof (rule ofold_keeps[where I = "kept o1", OF that[unfolded named_layers_def] k])
    fix x :: "32 word \<times> 'x" and o4 o5
    assume o4: "kept o1 o4" and st: "(case x of (k, x) \<Rightarrow> \<lambda>o1. case layer_of o1 k of None \<Rightarrow> Some o1
        | Some a \<Rightarrow> map_option (\<lambda>l. set_layer a l o1) (f x (the_layer o1 a))) o4 = Some o5"
    obtain j y where x: "x = (j, y)" by fastforce
    show "kept o1 o5"
    proof (cases "layer_of o4 j")
      case (Some a)
      then obtain l' where "f y (the_layer o4 a) = Some l'" "o5 = set_layer a l' o4" using st by (auto simp: x)
      then show ?thesis using gentle_step(1)[OF g o4 val[OF o4 Some]] by simp
    qed (use st o4 x in simp)
  qed
  show "\<exists>o3. named_layers f ns o2 = Some o3 \<and> kept o1 o3 \<and> output_full o3" if full: "output_full o2"
    unfolding named_layers_def
  proof (rule ofold_returns[where I = "\<lambda>o3. kept o1 o3 \<and> output_full o3"])
    fix x :: "32 word \<times> 'x" and o3 assume I: "kept o1 o3 \<and> output_full o3"
    obtain j y where x: "x = (j, y)" by fastforce
    show "\<exists>s'. (case x of (k, x) \<Rightarrow> \<lambda>o1. case layer_of o1 k of None \<Rightarrow> Some o1
        | Some a \<Rightarrow> map_option (\<lambda>l. set_layer a l o1) (f x (the_layer o1 a))) o3 = Some s' \<and> kept o1 s' \<and> output_full s'"
    proof (cases "layer_of o3 j")
      case (Some a)
      obtain l' where "f y (the_layer o3 a) = Some l'" "kept o1 (set_layer a l' o3)" "output_full (set_layer a l' o3)"
        using gentle_step(2)[OF g conjunct1[OF I] val[OF conjunct1[OF I] Some] conjunct2[OF I]] by blast
      then show ?thesis by (simp add: x Some)
    qed (use I x in simp)
  qed (use k full in simp)
qed

text \<open>A change of a layer that also changes the outside.\<close>

definition gentle_call :: "('d \<Rightarrow> 'o) \<Rightarrow> (hlayer \<Rightarrow> 'd \<Rightarrow> (hlayer \<times> 'd) option) \<Rightarrow> bool" where
  "gentle_call opened f \<longleftrightarrow>
     (\<forall>l d l' d'. nonnull l \<longrightarrow> f l d = Some (l', d') \<longrightarrow> same_layer l l' \<and> opened d' = opened d) \<and>
     (\<forall>l d. layer_full l \<longrightarrow> (\<exists>l' d'. f l d = Some (l', d') \<and> layer_full l'))"

lemma gentle_SetHdiLayerInfo:
  fixes v :: "('d, 'm) layer_vendor_scheme"
  assumes "setters_keep opened v"
  shows "gentle_call opened (\<lambda>l d. map_option (Pair l) (SetHdiLayerInfo v l d))"
  unfolding gentle_call_def
proof (intro conjI allI impI)
  fix l d l' d' assume "nonnull l" "map_option (Pair l) (SetHdiLayerInfo v l d) = Some (l', d')"
  then show "same_layer l l'" "opened d' = opened d" using SetHdiLayerInfo_keeps[OF assms] by (auto simp: same_layer_def nonnull_def)
next
  fix l and d :: 'd assume "layer_full l"
  then show "\<exists>l' d'. map_option (Pair l) (SetHdiLayerInfo v l d) = Some (l', d') \<and> layer_full l'"
    using SetHdiLayerInfo_full[of l v d] by auto
qed

lemma gentle_ReleaseBuffer:
  fixes v :: "('d, 'm) layer_vendor_scheme"
  assumes "setters_keep opened v"
  shows "gentle_call opened (hl_ReleaseBuffer v)"
  unfolding gentle_call_def
proof (intro conjI allI impI)
  fix l d l' d' assume r: "hl_ReleaseBuffer v l d = Some (l', d')"
  show "same_layer l l'" by (rule ReleaseBuffer_same(1)[OF r])
  show "opened d' = opened d" by (rule ReleaseBuffer_same(2)[OF r assms])
next
  fix l and d :: 'd assume l: "layer_full l"
  then obtain l' d' where r: "hl_ReleaseBuffer v l d = Some (l', d')" using ReleaseBuffer_full[of l v d] by blast
  show "\<exists>l' d'. hl_ReleaseBuffer v l d = Some (l', d') \<and> layer_full l'" using r ReleaseBuffer_same(3)[OF r l] by blast
qed

lemma each_layer_kept:
  fixes f :: "hlayer \<Rightarrow> 'd \<Rightarrow> (hlayer \<times> 'd) option"
  assumes g: "gentle_call opened f" and k: "kept o1 o2" and vs: "visits_ok vs"
  shows "each_layer f vs o2 d2 = Some (o3, d3) \<Longrightarrow> kept o1 o3 \<and> opened d3 = opened d2"
    and "output_full o2 \<Longrightarrow> \<exists>o3 d3. each_layer f vs o2 d2 = Some (o3, d3) \<and> output_full o3"
proof -
  let ?as = "map snd (by_layer vs (layerIdMap o2))"
  have m: "layerIdMap o2 = layerIdMap o1" using k by (simp add: kept_def)
  have as: "set ?as = snd ` set (layerIdMap o1)" using vs unfolding visits_ok_def m by simp
  show "kept o1 o3 \<and> opened d3 = opened d2" if r: "each_layer f vs o2 d2 = Some (o3, d3)"
  proof -
    have "case (o3, d3) of (o4, d4) \<Rightarrow> kept o1 o4 \<and> opened d4 = opened d2"
    proof (rule ofold_keeps[OF r[unfolded each_layer_def], where I = "\<lambda>(o4, d4). kept o1 o4 \<and> opened d4 = opened d2"])
      fix a s s'
      assume a: "a \<in> set ?as" and I: "case s of (o4, d4) \<Rightarrow> kept o1 o4 \<and> opened d4 = opened d2"
        and st: "(\<lambda>(o1, d). map_option (\<lambda>(l, d). (set_layer a l o1, d)) (f (the_layer o1 a) d)) s = Some s'"
      obtain o4 d4 where s: "s = (o4, d4)" by fastforce
      have k4: "kept o1 o4" and d4: "opened d4 = opened d2" using I s by simp_all
      obtain l where l: "ho_layers o4 a = Some l" "the_layer o4 a = l" "nonnull l" using kept_layer[OF k4] a as by blast
      obtain l' d' where f: "f l d4 = Some (l', d')" "s' = (set_layer a l' o4, d')" using st s l by auto
      have "same_layer l l' \<and> opened d' = opened d4" using g f(1) l(3) unfolding gentle_call_def by blast
      then show "case s' of (o4, d4) \<Rightarrow> kept o1 o4 \<and> opened d4 = opened d2" using kept_set[OF k4 l(1)] f(2) d4 by simp
    qed (use k in simp)
    then show ?thesis by simp
  qed
  show "\<exists>o3 d3. each_layer f vs o2 d2 = Some (o3, d3) \<and> output_full o3" if full: "output_full o2"
  proof -
    have "\<exists>s'. each_layer f vs o2 d2 = Some s' \<and> (case s' of (o4, d4) \<Rightarrow> kept o1 o4 \<and> output_full o4)"
      unfolding each_layer_def
    proof (rule ofold_returns[where I = "\<lambda>(o4, d4 :: 'd). kept o1 o4 \<and> output_full o4"])
      fix a and s :: "houtput \<times> 'd"
      assume a: "a \<in> set ?as" and I: "case s of (o4, d4) \<Rightarrow> kept o1 o4 \<and> output_full o4"
      obtain o4 d4 where s: "s = (o4, d4)" by fastforce
      have k4: "kept o1 o4" and f4: "output_full o4" using I s by simp_all
      obtain l where l: "ho_layers o4 a = Some l" "the_layer o4 a = l" "nonnull l" using kept_layer[OF k4] a as by blast
      have lf: "layer_full l" using f4 l(1) by (simp add: output_full_def)
      then obtain l' d' where f: "f l d4 = Some (l', d')" "layer_full l'" using g unfolding gentle_call_def by blast
      then have "same_layer l l'" using g l(3) unfolding gentle_call_def by blast
      then show "\<exists>s'. (\<lambda>(o1, d). map_option (\<lambda>(l, d). (set_layer a l o1, d)) (f (the_layer o1 a) d)) s = Some s' \<and>
          (case s' of (o4, d4) \<Rightarrow> kept o1 o4 \<and> output_full o4)"
        using f kept_set[OF k4 l(1)] full_update(3)[OF f4] s l(2) by simp
    qed (use k full in simp)
    then show ?thesis by auto
  qed
qed

section \<open>The sampler\<close>

definition sampler_safe :: "sampler \<Rightarrow> bool" where
  "sampler_safe s \<longleftrightarrow> (modeUpdated s \<longrightarrow> speriod s \<noteq> 0)"

lemma sum_sq_err_returns: "speriod s \<noteq> 0 \<Longrightarrow> sum_sq_err s ts acc \<noteq> None"
  by (induction ts arbitrary: acc) (auto simp: Let_def)

lemma AddPresentFenceTime_returns:
  assumes "sampler_safe s"
  shows "\<exists>r s'. vs_AddPresentFenceTime t s = Some (r, s') \<and> sampler_safe s'"
proof -
  define s1 where "s1 = s\<lparr>presentFenceTime := (presentFenceTime s)[presentFenceTimeOffset s := t],
    presentFenceTimeOffset := (presentFenceTimeOffset s + 1) mod NUM_PRESENT, numResyncSamplesSincePresent := 0\<rparr>"
  have s1: "sampler_safe s1" using assms by (simp add: sampler_safe_def s1_def)
  obtain s2 where s2: "UpdateErrorLocked s1 = Some s2" "sampler_safe s2"
  proof (cases "modeUpdated s1")
    case True
    then obtain sq num where "sum_sq_err s1 (presentFenceTime s1) (0, 0) = Some (sq, num)"
      using sum_sq_err_returns[of s1 "presentFenceTime s1" "(0, 0)"] s1 unfolding sampler_safe_def by auto
    then show ?thesis using that s1 True by (simp add: UpdateErrorLocked_def sampler_safe_def)
  next
    case False
    then show ?thesis using that s1 by (simp add: UpdateErrorLocked_def)
  qed
  then show ?thesis by (simp add: vs_AddPresentFenceTime_def Let_def s1_def)
qed

lemma sampler_safe_BeginSample [simp]: "sampler_safe (vs_BeginSample s)"
  by (simp add: sampler_safe_def vs_BeginSample_def)

section \<open>A frame\<close>

lemma loop_kept:
  fixes g :: "houtput \<Rightarrow> houtput"
  assumes f: "gentle f" and g: "\<And>o3. kept o1 o3 \<Longrightarrow> kept o1 (g o3)" "\<And>o3. output_full o3 \<Longrightarrow> output_full (g o3)"
    and k: "kept o1 o2" and as: "set as \<subseteq> snd ` set (layerIdMap o1)"
  shows "ofold (\<lambda>a o1. map_option (\<lambda>l. g (set_layer a l o1)) (f (the_layer o1 a))) as o2 = Some o3 \<Longrightarrow> kept o1 o3"
    and "output_full o2 \<Longrightarrow> \<exists>o3. ofold (\<lambda>a o1. map_option (\<lambda>l. g (set_layer a l o1)) (f (the_layer o1 a))) as o2 = Some o3 \<and> output_full o3"
proof -
  show "kept o1 o3" if r: "ofold (\<lambda>a o1. map_option (\<lambda>l. g (set_layer a l o1)) (f (the_layer o1 a))) as o2 = Some o3"
  proof (rule ofold_keeps[where I = "kept o1", OF r k])
    fix a o4 o5
    assume a: "a \<in> set as" and o4: "kept o1 o4" and st: "map_option (\<lambda>l. g (set_layer a l o4)) (f (the_layer o4 a)) = Some o5"
    then obtain l' where "f (the_layer o4 a) = Some l'" "o5 = g (set_layer a l' o4)" by auto
    moreover have "a \<in> snd ` set (layerIdMap o1)" using a as by blast
    ultimately show "kept o1 o5" using gentle_step(1)[OF f o4] g(1) by simp
  qed
  assume full: "output_full o2"
  have "\<exists>o3. ofold (\<lambda>a o1. map_option (\<lambda>l. g (set_layer a l o1)) (f (the_layer o1 a))) as o2 = Some o3 \<and> kept o1 o3 \<and> output_full o3"
  proof (rule ofold_returns[where I = "\<lambda>o4. kept o1 o4 \<and> output_full o4"])
    fix a o4 assume a: "a \<in> set as" and I: "kept o1 o4 \<and> output_full o4"
    have "a \<in> snd ` set (layerIdMap o1)" using a as by blast
    from gentle_step(2)[OF f conjunct1[OF I] this conjunct2[OF I]]
    show "\<exists>s'. map_option (\<lambda>l. g (set_layer a l o4)) (f (the_layer o4 a)) = Some s' \<and> kept o1 s' \<and> output_full s'"
      using g by fastforce
  qed (use k full in simp)
  then show "\<exists>o3. ofold (\<lambda>a o1. map_option (\<lambda>l. g (set_layer a l o1)) (f (the_layer o1 a))) as o2 = Some o3 \<and> output_full o3" by blast
qed

text \<open>The calls of the outside.\<close>

lemma frame_keepsD:
  assumes "frame_keeps opened v F"
  shows "hd_PrepareScreenLayers v s x d = (r1, x1, d1) \<Longrightarrow> opened d1 = opened d"
    and "hd_GetScreenCompChange v s d = (r2, cs, d2) \<Longrightarrow> opened d2 = opened d"
    and "opened (snd (SetScreenClientInfo v e o1 d)) = opened d"
    and "hd_GetScreenReleaseFence v s d = (r4, fs, d4) \<Longrightarrow> opened d4 = opened d"
    and "hd_Commit v s f d = (r5, f5, d5) \<Longrightarrow> opened d5 = opened d"
    and "prepare_complete v x ls fb d = (fb6, d6) \<Longrightarrow> opened d6 = opened d"
    and "opened (snd (ho_ReleaseFramebuffer F b g o1 d)) = opened d"
    and "ho_GetFramebuffer F o1 d = (e8, o8, d8) \<Longrightarrow> opened d8 = opened d"
proof -
  note K = assms[unfolded frame_keeps_def]
  show "opened d1 = opened d" if "hd_PrepareScreenLayers v s x d = (r1, x1, d1)" using K that by (metis snd_conv)
  show "opened d2 = opened d" if "hd_GetScreenCompChange v s d = (r2, cs, d2)" using K that by (metis snd_conv)
  show "opened d4 = opened d" if "hd_GetScreenReleaseFence v s d = (r4, fs, d4)" using K that by (metis snd_conv)
  show "opened d5 = opened d" if "hd_Commit v s f d = (r5, f5, d5)" using K that by (metis snd_conv)
  show "opened d6 = opened d" if "prepare_complete v x ls fb d = (fb6, d6)" using K that by (metis snd_conv)
  have cb: "opened (snd (hd_SetScreenClientBuffer v sid buf fd d)) = opened d" "opened (snd (hd_SetScreenClientDamage v sid n q d)) = opened d"
    for sid buf fd n q d using K by simp_all
  show "opened (snd (SetScreenClientInfo v e o1 d)) = opened d"
    using cb(1)[of "ho_screen o1" _ "fe_acquire e" d] by (auto simp: SetScreenClientInfo_def cb(2) Let_def split: option.split prod.split) (metis snd_conv)+
  have rel: "opened (snd (fb_release F i buf fd d)) = opened d" for i buf fd d using K by simp
  show "opened (snd (ho_ReleaseFramebuffer F b g o1 d)) = opened d"
    by (simp add: ho_ReleaseFramebuffer_def fb_ReleaseFramebuffer_def rel split: option.split)
  have wait: "opened (snd (wait_for F fb d)) = opened d" for fb d using K by simp
  show "opened d8 = opened d" if "ho_GetFramebuffer F o1 d = (e8, o8, d8)"
    using that wait by (auto simp: ho_GetFramebuffer_def fb_GetFramebuffer_def Let_def split: option.splits list.splits prod.splits if_splits) (metis snd_conv)+
qed

lemma UpdateLayerCompType_kept:
  assumes F: "frame_keeps opened v F" and k: "kept o1 o2"
  shows "UpdateLayerCompType v o2 d2 = Some (r, o3, d3) \<Longrightarrow> kept o1 o3 \<and> opened d3 = opened d2"
    and "output_full o2 \<Longrightarrow> \<exists>r o3 d3. UpdateLayerCompType v o2 d2 = Some (r, o3, d3) \<and> output_full o3"
proof -
  obtain q cs d where c: "hd_GetScreenCompChange v (ho_screen o2) d2 = (q, cs, d)" using prod_cases3 by blast
  note N = named_layers_kept[where f = "\<lambda>ty l. Some (UpdateCompositionType ty l)", OF gentle_comp_type k]
  show "kept o1 o3 \<and> opened d3 = opened d2" if "UpdateLayerCompType v o2 d2 = Some (r, o3, d3)"
    using that N(1) k frame_keepsD(2)[OF F c] by (auto simp: UpdateLayerCompType_def c split: if_splits)
  show "\<exists>r o3 d3. UpdateLayerCompType v o2 d2 = Some (r, o3, d3) \<and> output_full o3" if "output_full o2"
    using N(2)[OF that, of cs] that by (auto simp: UpdateLayerCompType_def c)
qed

lemma ReleaseLayerBuffer_kept:
  assumes F: "frame_keeps opened v F" and K: "setters_keep opened v" and k: "kept o1 o2" and vs: "visits_ok vs"
  shows "ReleaseLayerBuffer v vs o2 d2 = Some (o3, d3) \<Longrightarrow> kept o1 o3 \<and> opened d3 = opened d2"
    and "output_full o2 \<Longrightarrow> \<exists>o3 d3. ReleaseLayerBuffer v vs o2 d2 = Some (o3, d3) \<and> output_full o3"
proof -
  obtain q fs d where c: "hd_GetScreenReleaseFence v (ho_screen o2) d2 = (q, fs, d)" using prod_cases3 by blast
  have d: "opened d = opened d2" by (rule frame_keepsD(4)[OF F c])
  note N = named_layers_kept[where f = "\<lambda>f. MergeWithLayerFence (kernel v d) (Some f)" and ns = fs, OF gentle_layer_fence k]
  note E = each_layer_kept[OF gentle_ReleaseBuffer[OF K] _ vs, of o1]
  show "kept o1 o3 \<and> opened d3 = opened d2" if r: "ReleaseLayerBuffer v vs o2 d2 = Some (o3, d3)"
  proof (cases "q = success v")
    case True
    then obtain o4 where o4: "named_layers (\<lambda>f. MergeWithLayerFence (kernel v d) (Some f)) fs o2 = Some o4"
        "each_layer (hl_ReleaseBuffer v) vs o4 d = Some (o3, d3)"
      using r by (auto simp: ReleaseLayerBuffer_def c bind_eq_Some_conv)
    then show ?thesis using E(1)[OF N(1)[OF o4(1)] o4(2)] d by simp
  qed (use r k d in \<open>simp add: ReleaseLayerBuffer_def c\<close>)
  show "\<exists>o3 d3. ReleaseLayerBuffer v vs o2 d2 = Some (o3, d3) \<and> output_full o3" if full: "output_full o2"
  proof (cases "q = success v")
    case True
    obtain o4 where o4: "named_layers (\<lambda>f. MergeWithLayerFence (kernel v d) (Some f)) fs o2 = Some o4" "kept o1 o4" "output_full o4"
      using N(2)[OF full] by blast
    then obtain o5 d5 where "each_layer (hl_ReleaseBuffer v) vs o4 d = Some (o5, d5)" "output_full o5" using E(2) by blast
    then show ?thesis using True o4(1) by (simp add: ReleaseLayerBuffer_def c)
  qed (use full in \<open>simp add: ReleaseLayerBuffer_def c\<close>)
qed

text \<open>The rest of the backend.\<close>

definition same_outputs :: "backend \<Rightarrow> backend \<Rightarrow> bool" where
  "same_outputs b b' \<longleftrightarrow> be_outputs b' = be_outputs b \<and> be_store b' = be_store b \<and> be_next b' = be_next b \<and>
     be_device b' = be_device b \<and> plugged b' = plugged b \<and> onPrepareCompleteCb b' = onPrepareCompleteCb b"

lemma FlushScreen_kept:
  assumes F: "frame_keeps opened v F" and k: "kept o1 o2" and as: "set as \<subseteq> snd ` set (layerIdMap o1)"
  shows "FlushScreen v F as o2 b2 d2 = Some (r, o3, b3, d3) \<Longrightarrow>
      kept o1 o3 \<and> opened d3 = opened d2 \<and> same_outputs b2 b3 \<and> be_sampler b3 = be_sampler b2"
    and "output_full o2 \<Longrightarrow> \<exists>r o3 b3 d3. FlushScreen v F as o2 b2 d2 = Some (r, o3, b3, d3) \<and> output_full o3"
proof -
  obtain e o4 d4 where g: "ho_GetFramebuffer F o2 d2 = (e, o4, d4)" using prod_cases3 by blast
  have d4: "opened d4 = opened d2" by (rule frame_keepsD(8)[OF F g])
  obtain fb where "o4 = o2\<lparr>ho_fb := fb\<rparr> \<or> o4 = o2"
    using g by (auto simp: ho_GetFramebuffer_def Let_def split: option.splits prod.splits)
  then have k4: "kept o1 o4" and f4: "output_full o2 \<Longrightarrow> output_full o4" using k kept_update(1)[OF k] full_update(1) by auto
  define d5 where "d5 = (case map_of (lastFrameBuffers b2) (ho_screen o4) of None \<Rightarrow> d4
    | Some shown \<Rightarrow> snd (ho_ReleaseFramebuffer F shown (Some (lastPresentFence b2)) o4 d4))"
  have d5: "opened d5 = opened d4" by (simp add: d5_def frame_keepsD(7)[OF F] split: option.split)
  have L1: "ofold (\<lambda>a o1. map_option (\<lambda>l. set_layer a l o1) (MergeWithFramebufferFence kr fd (the_layer o1 a))) as o4 = Some o5 \<Longrightarrow> kept o1 o5"
    for kr fd o5 by (rule loop_kept(1)[where g = "\<lambda>x. x", OF gentle_fb_fence _ _ k4 as])
  have L2: "output_full o4 \<Longrightarrow> \<exists>o5. ofold (\<lambda>a o1. map_option (\<lambda>l. set_layer a l o1) (MergeWithFramebufferFence kr fd (the_layer o1 a))) as o4 = Some o5 \<and>
      output_full o5" for kr fd by (rule loop_kept(2)[where g = "\<lambda>x. x", OF gentle_fb_fence _ _ k4 as])
  show "kept o1 o3 \<and> opened d3 = opened d2 \<and> same_outputs b2 b3 \<and> be_sampler b3 = be_sampler b2"
    if r: "FlushScreen v F as o2 b2 d2 = Some (r, o3, b3, d3)"
  proof (cases e)
    case None
    then show ?thesis using r k4 d4 by (simp add: FlushScreen_def g same_outputs_def)
  next
    case (Some e1)
    define b5 where "b5 = b2\<lparr>lastFrameBuffers := om_put (ho_screen o4) (fe_buffer e1) (lastFrameBuffers b2)\<rparr>"
    obtain o5 where o5: "ofold (\<lambda>a o1. map_option (\<lambda>l. set_layer a l o1) (MergeWithFramebufferFence (kernel v d5) (fe_acquire e1) (the_layer o1 a))) as o4 = Some o5"
        and e5: "(let (ret, d) = SetScreenClientInfo v e1 o5 d5 in Some (ret, o5, b5, d)) = Some (r, o3, b3, d3)"
      using r by (auto simp: FlushScreen_def g Some Let_def d5_def[symmetric] b5_def[symmetric] bind_eq_Some_conv)
    have "kept o1 o5" by (rule L1[OF o5])
    then show ?thesis using e5 d4 d5 frame_keepsD(3)[OF F, of e1 o5 d5] by (auto simp: same_outputs_def b5_def split: prod.splits)
  qed
  show "\<exists>r o3 b3 d3. FlushScreen v F as o2 b2 d2 = Some (r, o3, b3, d3) \<and> output_full o3" if full: "output_full o2"
  proof (cases e)
    case None
    then show ?thesis using f4[OF full] by (simp add: FlushScreen_def g)
  next
    case (Some e1)
    obtain o5 where "ofold (\<lambda>a o1. map_option (\<lambda>l. set_layer a l o1) (MergeWithFramebufferFence (kernel v d5) (fe_acquire e1) (the_layer o1 a))) as o4 = Some o5"
        "output_full o5"
      using L2[OF f4[OF full]] by blast
    then show ?thesis by (simp add: FlushScreen_def g Some Let_def d5_def[symmetric] split: prod.split)
  qed
qed

lemma record_present_kept:
  assumes k: "kept o1 o2" and vs: "visits_ok vs"
  shows "record_present v vs o2 b2 d2 = Some (o3, b3) \<Longrightarrow> kept o1 o3 \<and> same_outputs b2 b3"
    and "output_full o2 \<Longrightarrow> sampler_safe (be_sampler b2) \<Longrightarrow>
      \<exists>o3 b3. record_present v vs o2 b2 d2 = Some (o3, b3) \<and> output_full o3 \<and> sampler_safe (be_sampler b3)"
proof -
  let ?as = "map snd (by_layer vs (layerIdMap o2))" and ?t = "SyncFileReadTimestamp (kernel v d2) (lastPresentFence b2)"
  have as: "set ?as \<subseteq> snd ` set (layerIdMap o1)" using vs k unfolding visits_ok_def kept_def by simp
  have L: "ofold (\<lambda>a o1. map_option (\<lambda>l. RecordCompositionTime ?t (set_layer a l o1)) (RecordPresentTime ?t (the_layer o1 a))) ?as o2 = Some o3 \<Longrightarrow> kept o1 o3"
    "output_full o2 \<Longrightarrow> \<exists>o3. ofold (\<lambda>a o1. map_option (\<lambda>l. RecordCompositionTime ?t (set_layer a l o1)) (RecordPresentTime ?t (the_layer o1 a))) ?as o2 = Some o3 \<and>
       output_full o3" for o3
    using loop_kept[where g = "RecordCompositionTime ?t", OF gentle_present kept_update(2) full_update(2) k as] by blast+
  show "kept o1 o3 \<and> same_outputs b2 b3" if r: "record_present v vs o2 b2 d2 = Some (o3, b3)"
  proof (cases "?t = FENCE_PENDING_TIMESTAMP")
    case False
    then show ?thesis using r L(1) by (auto simp: record_present_def Let_def bind_eq_Some_conv same_outputs_def)
  qed (use r k in \<open>simp add: record_present_def same_outputs_def\<close>)
  show "\<exists>o3 b3. record_present v vs o2 b2 d2 = Some (o3, b3) \<and> output_full o3 \<and> sampler_safe (be_sampler b3)"
    if full: "output_full o2" and s: "sampler_safe (be_sampler b2)"
  proof (cases "?t = FENCE_PENDING_TIMESTAMP")
    case False
    obtain r s' where "vs_AddPresentFenceTime ?t (be_sampler b2) = Some (r, s')" "sampler_safe s'" using AddPresentFenceTime_returns[OF s] by blast
    moreover obtain o3 where "ofold (\<lambda>a o1. map_option (\<lambda>l. RecordCompositionTime ?t (set_layer a l o1)) (RecordPresentTime ?t (the_layer o1 a))) ?as o2 = Some o3"
      "output_full o3" using L(2)[OF full] by blast
    ultimately show ?thesis using False by (simp add: record_present_def Let_def)
  qed (use full s in \<open>simp add: record_present_def\<close>)
qed

text \<open>The second half of a turn, after the layers are prepared.\<close>

definition show_frame ::
    "('d, 'm) frame_vendor_scheme \<Rightarrow> 'd fb_ops \<Rightarrow> visits \<Rightarrow> bool \<Rightarrow> nat list \<Rightarrow> houtput \<Rightarrow> backend \<Rightarrow> 'd \<Rightarrow> (bool \<times> houtput \<times> backend \<times> 'd) option" where
  "show_frame v F vs needFlush compClientLayers o1 b d =
     Option.bind (if needFlush then FlushScreen v F compClientLayers o1 b d else Some (0, o1, b, d)) (\<lambda>(_, o1, b, d).
       let (_, fbFence, d) = hd_Commit v (ho_screen o1) INVALID_FD d
       in Option.bind (ReleaseLayerBuffer v vs o1 d) (\<lambda>(o1, d).
          map_option (\<lambda>(o1, b). (True, o1, b\<lparr>lastPresentFence := fbFence\<rparr>, d)) (record_present v vs o1 b d)))"

lemma same_outputs_trans: "same_outputs a b \<Longrightarrow> same_outputs b c \<Longrightarrow> same_outputs a c"
  by (simp add: same_outputs_def)

lemma same_outputs_fence [simp]: "same_outputs a (b\<lparr>lastPresentFence := f\<rparr>) = same_outputs a b" "same_outputs a a"
  by (simp_all add: same_outputs_def)

lemma show_frame_kept:
  assumes C: "composer_outside v F opened" and k: "kept o1 o2" and vs: "visits_ok vs" and as: "set as \<subseteq> snd ` set (layerIdMap o1)"
  shows "show_frame v F vs n as o2 b2 d2 = Some (go, o3, b3, d3) \<Longrightarrow> kept o1 o3 \<and> opened d3 = opened d2 \<and> same_outputs b2 b3 \<and> go"
    and "output_full o2 \<Longrightarrow> sampler_safe (be_sampler b2) \<Longrightarrow>
      \<exists>o3 b3 d3. show_frame v F vs n as o2 b2 d2 = Some (True, o3, b3, d3) \<and> output_full o3 \<and> sampler_safe (be_sampler b3)"
proof -
  have K: "setters_keep opened v" and F: "frame_keeps opened v F" using C by (simp_all add: composer_outside_def)
  let ?F = "if n then FlushScreen v F as o2 b2 d2 else Some (0, o2, b2, d2)"
  have F1: "kept o1 o4 \<and> opened d4 = opened d2 \<and> same_outputs b2 b4 \<and> be_sampler b4 = be_sampler b2" if "?F = Some (r, o4, b4, d4)" for r o4 b4 d4
    using that FlushScreen_kept(1)[OF F k as] k by (cases n) auto
  have F2: "\<exists>r o4 b4 d4. ?F = Some (r, o4, b4, d4) \<and> output_full o4" if "output_full o2"
    using FlushScreen_kept(2)[OF F k as that] that by (cases n) auto
  show "kept o1 o3 \<and> opened d3 = opened d2 \<and> same_outputs b2 b3 \<and> go" if r: "show_frame v F vs n as o2 b2 d2 = Some (go, o3, b3, d3)"
  proof -
    obtain q o4 b4 d4 where f: "?F = Some (q, o4, b4, d4)" using r by (auto simp: show_frame_def bind_eq_Some_conv)
    obtain q2 fen d5 where c: "hd_Commit v (ho_screen o4) INVALID_FD d4 = (q2, fen, d5)" using prod_cases3 by blast
    obtain o6 d6 where l: "ReleaseLayerBuffer v vs o4 d5 = Some (o6, d6)" using r f c by (auto simp: show_frame_def bind_eq_Some_conv)
    obtain b7 where p: "record_present v vs o6 b4 d6 = Some (o3, b7)" "b3 = b7\<lparr>lastPresentFence := fen\<rparr>" "d3 = d6" go
      using r f c l by (auto simp: show_frame_def)
    have k4: "kept o1 o4" using F1[OF f] by simp
    note l2 = ReleaseLayerBuffer_kept(1)[OF F K k4 vs l]
    note p2 = record_present_kept(1)[OF conjunct1[OF l2] vs p(1)]
    have "same_outputs b2 b7" using F1[OF f] p2 by (blast intro: same_outputs_trans)
    then show ?thesis using F1[OF f] frame_keepsD(5)[OF F c] l2 p2 p(2-) by simp
  qed
  show "\<exists>o3 b3 d3. show_frame v F vs n as o2 b2 d2 = Some (True, o3, b3, d3) \<and> output_full o3 \<and> sampler_safe (be_sampler b3)"
    if full: "output_full o2" and s: "sampler_safe (be_sampler b2)"
  proof -
    obtain q o4 b4 d4 where f: "?F = Some (q, o4, b4, d4)" "output_full o4" using F2[OF full] by blast
    have k4: "kept o1 o4" and s4: "sampler_safe (be_sampler b4)" using F1[OF f(1)] s by simp_all
    obtain q2 fen d5 where c: "hd_Commit v (ho_screen o4) INVALID_FD d4 = (q2, fen, d5)" using prod_cases3 by blast
    obtain o6 d6 where l: "ReleaseLayerBuffer v vs o4 d5 = Some (o6, d6)" "output_full o6"
      using ReleaseLayerBuffer_kept(2)[OF F K k4 vs f(2)] by blast
    have k6: "kept o1 o6" using ReleaseLayerBuffer_kept(1)[OF F K k4 vs l(1)] by simp
    obtain o7 b7 where "record_present v vs o6 b4 d6 = Some (o7, b7)" "output_full o7" "sampler_safe (be_sampler b7)"
      using record_present_kept(2)[OF k6 vs l(2) s4, where v = v and ?d2.0 = d6] by blast
    moreover have "sampler_safe (be_sampler (b7\<lparr>lastPresentFence := fen\<rparr>))" using calculation(3) by simp
    ultimately show ?thesis unfolding show_frame_def f(1) by (simp add: c l(1))
  qed
qed

lemma repaint_output_eq:
  "repaint_output v F vs by_z o1 b d =
     (if layerIdMap o1 = [] then Some (True, o1, b, d)
      else
        Option.bind (each_layer (\<lambda>l d. map_option (Pair l) (SetHdiLayerInfo v l d)) vs o1 d) (\<lambda>(o1, d).
        let (ret, needFlush, d) = hd_PrepareScreenLayers v (ho_screen o1) False d
        in if ret \<noteq> success v then Some (False, o1, b, d)
           else
             Option.bind (UpdateLayerCompType v o1 d) (\<lambda>(ret, o1, d).
               if ret \<noteq> success v then Some (False, o1, b, d)
               else
                 (let as = map snd (by_layer vs (layerIdMap o1));
                      newLayerInfos = map (\<lambda>a. the (hl_info (the_layer o1 a))) as;
                      compClientLayers = filter (\<lambda>a. li_composition (the (hl_info (the_layer o1 a))) = COMPOSITION_CLIENT v) as;
                      needFlush = (needFlush \<or> compClientLayers \<noteq> []);
                      layers = (if needFlush then by_z newLayerInfos else newLayerInfos);
                      (fb, d) = (if onPrepareCompleteCb b then prepare_complete v needFlush layers (ho_fb o1) d else (ho_fb o1, d))
                  in show_frame v F vs needFlush compClientLayers (o1\<lparr>ho_fb := fb\<rparr>) b d))))"
  unfolding repaint_output_def show_frame_def by (simp only: Let_def)

lemma repaint_output_kept:
  assumes C: "composer_outside v F opened" and ok: "output_ok o1" and vs: "visits_ok vs"
  shows "repaint_output v F vs by_z o1 b d = Some (go, o2, b2, d2) \<Longrightarrow> kept o1 o2 \<and> opened d2 = opened d \<and> same_outputs b b2"
    and "output_full o1 \<Longrightarrow> sampler_safe (be_sampler b) \<Longrightarrow>
      \<exists>go o2 b2 d2. repaint_output v F vs by_z o1 b d = Some (go, o2, b2, d2) \<and> output_full o2 \<and> sampler_safe (be_sampler b2)"
proof -
  have K: "setters_keep opened v" and F: "frame_keeps opened v F" using C by (simp_all add: composer_outside_def)
  have k: "kept o1 o1" using ok by (simp add: kept_def)
  note E = each_layer_kept[OF gentle_SetHdiLayerInfo[OF K] k vs]
  have as: "set (filter P (map snd (by_layer vs (layerIdMap o4)))) \<subseteq> snd ` set (layerIdMap o1)" if "kept o1 o4" for P o4
    using vs that unfolding visits_ok_def kept_def by auto
  have cb: "opened d6 = opened d5" if "(if onPrepareCompleteCb b then prepare_complete v n ls fb d5 else (fb, d5)) = (fb6, d6)" for n ls fb d5 fb6 d6
    using that frame_keepsD(6)[OF F] by (auto split: if_splits)
  show "kept o1 o2 \<and> opened d2 = opened d \<and> same_outputs b b2" if r: "repaint_output v F vs by_z o1 b d = Some (go, o2, b2, d2)"
  proof (cases "layerIdMap o1 = []")
    case True
    then show ?thesis using r k by (simp add: repaint_output_def same_outputs_def)
  next
    case False
    obtain o3 d3 where e: "each_layer (\<lambda>l d. map_option (Pair l) (SetHdiLayerInfo v l d)) vs o1 d = Some (o3, d3)"
      using r False by (auto simp: repaint_output_eq bind_eq_Some_conv)
    note e1 = E(1)[OF e]
    obtain r4 n d4 where p: "hd_PrepareScreenLayers v (ho_screen o3) False d3 = (r4, n, d4)" using prod_cases3 by blast
    have d4: "opened d4 = opened d" using frame_keepsD(1)[OF F p] e1 by simp
    show ?thesis
    proof (cases "r4 = success v")
      case r4: True
      obtain r5 o5 d5 where u: "UpdateLayerCompType v o3 d4 = Some (r5, o5, d5)"
        using r False e p r4 by (auto simp: repaint_output_eq bind_eq_Some_conv)
      note u1 = UpdateLayerCompType_kept(1)[OF F conjunct1[OF e1] u]
      show ?thesis
      proof (cases "r5 = success v")
        case r5: True
        let ?as = "map snd (by_layer vs (layerIdMap o5))"
        let ?cl = "filter (\<lambda>a. li_composition (the (hl_info (the_layer o5 a))) = COMPOSITION_CLIENT v) ?as"
        let ?is = "map (\<lambda>a. the (hl_info (the_layer o5 a))) ?as" and ?n = "n \<or> ?cl \<noteq> []"
        obtain fb d6 where c: "(if onPrepareCompleteCb b then prepare_complete v ?n (if ?n then by_z ?is else ?is) (ho_fb o5) d5 else (ho_fb o5, d5)) = (fb, d6)"
          by fastforce
        have "show_frame v F vs ?n ?cl (o5\<lparr>ho_fb := fb\<rparr>) b d6 = Some (go, o2, b2, d2)"
          using r False e p r4 u r5 c by (simp add: repaint_output_eq Let_def)
        from show_frame_kept(1)[OF C kept_update(1)[OF conjunct1[OF u1]] vs as[OF conjunct1[OF u1]] this]
        show ?thesis using cb[OF c] d4 u1 by simp
      qed (use r False e p r4 u u1 d4 in \<open>auto simp: repaint_output_eq\<close>)
    qed (use r False e p e1 d4 in \<open>auto simp: repaint_output_eq\<close>)
  qed
  show "\<exists>go o2 b2 d2. repaint_output v F vs by_z o1 b d = Some (go, o2, b2, d2) \<and> output_full o2 \<and> sampler_safe (be_sampler b2)"
    if full: "output_full o1" and s: "sampler_safe (be_sampler b)"
  proof (cases "layerIdMap o1 = []")
    case True
    then show ?thesis using full s by (auto simp: repaint_output_def)
  next
    case False
    obtain o3 d3 where e: "each_layer (\<lambda>l d. map_option (Pair l) (SetHdiLayerInfo v l d)) vs o1 d = Some (o3, d3)" "output_full o3"
      using E(2)[OF full] by blast
    note e1 = E(1)[OF e(1)]
    obtain r4 n d4 where p: "hd_PrepareScreenLayers v (ho_screen o3) False d3 = (r4, n, d4)" using prod_cases3 by blast
    obtain r5 o5 d5 where u: "UpdateLayerCompType v o3 d4 = Some (r5, o5, d5)" "output_full o5"
      using UpdateLayerCompType_kept(2)[OF F conjunct1[OF e1] e(2)] by blast
    note u1 = UpdateLayerCompType_kept(1)[OF F conjunct1[OF e1] u(1)]
    let ?as = "map snd (by_layer vs (layerIdMap o5))"
    let ?cl = "filter (\<lambda>a. li_composition (the (hl_info (the_layer o5 a))) = COMPOSITION_CLIENT v) ?as"
    let ?is = "map (\<lambda>a. the (hl_info (the_layer o5 a))) ?as" and ?n = "n \<or> ?cl \<noteq> []"
    obtain fb d6 where c: "(if onPrepareCompleteCb b then prepare_complete v ?n (if ?n then by_z ?is else ?is) (ho_fb o5) d5 else (ho_fb o5, d5)) = (fb, d6)"
      by fastforce
    obtain o7 b7 d7 where "show_frame v F vs ?n ?cl (o5\<lparr>ho_fb := fb\<rparr>) b d6 = Some (True, o7, b7, d7)" "output_full o7" "sampler_safe (be_sampler b7)"
      using show_frame_kept(2)[OF C kept_update(1)[OF conjunct1[OF u1]] vs as[OF conjunct1[OF u1]] full_update(1)[OF u(2)] s] by blast
    then show ?thesis using False e p u c s by (auto simp: repaint_output_eq Let_def)
  qed
qed

section \<open>All the outputs\<close>

definition shown_ok :: "('d \<Rightarrow> (32 word \<times> 32 word) set) \<Rightarrow> 'd \<Rightarrow> backend \<Rightarrow> nat option list \<Rightarrow> bool" where
  "shown_ok opened d b outs \<longleftrightarrow>
     (\<forall>a. Some a \<in> set outs \<longrightarrow> (\<exists>o1. be_store b a = Some o1 \<and> output_ok o1 \<and> output_full o1 \<and> open_here o1 (opened d)))"

definition kept_all :: "backend \<Rightarrow> backend \<Rightarrow> bool" where
  "kept_all b b' \<longleftrightarrow> be_outputs b' = be_outputs b \<and> be_device b' = be_device b \<and> plugged b' = plugged b \<and>
     (\<forall>a o1. be_store b a = Some o1 \<longrightarrow> (\<exists>o2. be_store b' a = Some o2 \<and> (o2 = o1 \<or> kept o1 o2 \<and> output_full o2)))"

lemma kept_all_refl: "kept_all b b"
  by (simp add: kept_all_def)

lemma kept_all_trans:
  assumes x: "kept_all b c" and y: "kept_all c e"
  shows "kept_all b e"
  unfolding kept_all_def
proof (intro conjI allI impI)
  fix a o1 assume "be_store b a = Some o1"
  then obtain o2 where o2: "be_store c a = Some o2" "o2 = o1 \<or> kept o1 o2 \<and> output_full o2" using x unfolding kept_all_def by blast
  then obtain o3 where "be_store e a = Some o3" "o3 = o2 \<or> kept o2 o3 \<and> output_full o3" using y unfolding kept_all_def by blast
  then show "\<exists>o3. be_store e a = Some o3 \<and> (o3 = o1 \<or> kept o1 o3 \<and> output_full o3)" using o2(2) kept_trans by blast
qed (use x y in \<open>simp_all add: kept_all_def\<close>)

lemma shown_ok_kept:
  assumes s: "shown_ok opened d b outs" and k: "kept_all b b'" and d: "opened d' = opened d"
  shows "shown_ok opened d' b' outs"
  unfolding shown_ok_def
proof (intro allI impI)
  fix a assume "Some a \<in> set outs"
  then obtain o1 where o1: "be_store b a = Some o1" "output_ok o1" "output_full o1" "open_here o1 (opened d)"
    using s unfolding shown_ok_def by blast
  then obtain o2 where "be_store b' a = Some o2" "o2 = o1 \<or> kept o1 o2 \<and> output_full o2" using k unfolding kept_all_def by blast
  then show "\<exists>o1. be_store b' a = Some o1 \<and> output_ok o1 \<and> output_full o1 \<and> open_here o1 (opened d')"
    using o1(2-) kept_open unfolding d by (auto simp: kept_def)
qed

lemma repaint_outputs_returns:
  assumes C: "composer_outside v F opened" and vs: "visits_ok vs"
  shows "shown_ok opened d b outs \<Longrightarrow> sampler_safe (be_sampler b) \<Longrightarrow>
    \<exists>b2 d2. repaint_outputs v F vs by_z outs b d = Some (b2, d2) \<and> opened d2 = opened d \<and> kept_all b b2 \<and>
      shown_ok opened d2 b2 outs \<and> sampler_safe (be_sampler b2)"
proof (induction outs arbitrary: b d)
  case Nil
  then show ?case by (simp add: shown_ok_def kept_all_refl)
next
  case (Cons p outs)
  show ?case
  proof (cases p)
    case None
    have "shown_ok opened d b outs" using Cons.prems(1) by (simp add: shown_ok_def)
    from Cons.IH[OF this Cons.prems(2)] show ?thesis by (auto simp: None shown_ok_def)
  next
    case (Some a)
    obtain o1 where o1: "be_store b a = Some o1" "output_ok o1" "output_full o1" "open_here o1 (opened d)"
      using Cons.prems(1) unfolding shown_ok_def Some by auto
    obtain go o2 b2 d2 where r: "repaint_output v F vs by_z o1 b d = Some (go, o2, b2, d2)" "output_full o2" "sampler_safe (be_sampler b2)"
      using repaint_output_kept(2)[OF C o1(2) vs o1(3) Cons.prems(2)] by blast
    have k: "kept o1 o2" and d2: "opened d2 = opened d" and sb: "same_outputs b b2" using repaint_output_kept(1)[OF C o1(2) vs r(1)] by simp_all
    let ?b = "set_output a o2 b2"
    have ka: "kept_all b ?b" using k sb o1(1) r(2) by (auto simp: kept_all_def same_outputs_def set_output_def)
    have all: "shown_ok opened d2 ?b (p # outs)" by (rule shown_ok_kept[OF Cons.prems(1) ka d2])
    have s: "sampler_safe (be_sampler ?b)" using r(3) by (simp add: set_output_def)
    show ?thesis
    proof (cases go)
      case False
      then have "repaint_outputs v F vs by_z (p # outs) b d = Some (?b, d2)" using o1(1) r(1) Some by simp
      then show ?thesis using ka all s d2 by blast
    next
      case True
      have "shown_ok opened d2 ?b outs" using all by (simp add: shown_ok_def)
      from Cons.IH[OF this s] obtain b3 d3 where b3: "repaint_outputs v F vs by_z outs ?b d2 = Some (b3, d3)" "opened d3 = opened d2" "kept_all ?b b3"
        "shown_ok opened d3 b3 outs" "sampler_safe (be_sampler b3)" by blast
      have "shown_ok opened d3 b3 (p # outs)" by (rule shown_ok_kept[OF all b3(3,2)])
      moreover have "repaint_outputs v F vs by_z (p # outs) b d = Some (b3, d3)" using o1(1) r(1) Some True b3(1) by simp
      ultimately show ?thesis using kept_all_trans[OF ka b3(3)] b3 d2 by auto
    qed
  qed
qed

end
