(* ===== verification/Hdi_Props.thy ===== *)
theory Hdi_Props
  imports Hdi_Repaint
begin

text \<open>The properties of the composer, with a driver that has room for two layers on each screen.\<close>

section \<open>A frame of complete layers gives an output of complete layers\<close>

lemma unref_full: "unref v a o1 d = Some (o2, d2) \<Longrightarrow> output_full o1 \<Longrightarrow> output_full o2"
  by (auto simp: unref_def output_full_def split: if_splits option.splits)

lemma unref_old_full: "unref_old v a o1 d = Some (o2, d2) \<Longrightarrow> output_full o1 \<Longrightarrow> output_full o2"
  by (auto simp: unref_old_def split: option.splits dest: unref_full)

lemma output_full_maps [simp]:
  "output_full (o1\<lparr>layerIdMap := m\<rparr>) = output_full o1" "output_full (o1\<lparr>surfaceIdMap := n\<rparr>) = output_full o1"
  "output_full (o1\<lparr>ho_next := i\<rparr>) = output_full o1"
  by (simp_all add: output_full_def)

lemma UpdateLayerInfo_full:
  assumes u: "UpdateLayerInfo (Some i) l = Some l'" and i: "info_full i"
    and r: "\<And>x. hl_curr l = Some x \<Longrightarrow> lb_release x \<noteq> None" "\<And>x. hl_prev l = Some x \<Longrightarrow> lb_release x \<noteq> None"
  shows "layer_full l'"
proof -
  obtain c p where cp: "hl_curr l = Some c" "hl_prev l = Some p" using u by (auto simp: UpdateLayerInfo_def split: option.splits)
  with u r i show ?thesis by (auto simp: UpdateLayerInfo_def layer_full_def buffer_full_def info_full_def)
qed

lemma CreateLayer_full:
  assumes c: "ho_CreateLayer v junk s info o1 d = Some (ret, o2, d2)" and i: "info_full info" and full: "output_full o1"
  shows "output_full o2"
proof -
  obtain ok l d3 where l: "hl_Init v (Some info) (CreateHdiLayer junk (ho_screen o1)) d = Some (ok, l, d3)"
    using c by (auto simp: ho_CreateLayer_def bind_eq_Some_conv)
  show ?thesis
  proof (cases ok)
    case False
    then show ?thesis using c l full by (auto simp: ho_CreateLayer_def)
  next
    case True
    have new: "hl_curr l = Some new_LayerBufferInfo" "hl_prev l = Some new_LayerBufferInfo"
      using l True by (auto simp: hl_Init_def hl_CreateLayer_def CreateHdiLayer_def bind_eq_Some_conv Let_def split: if_splits prod.splits)
    obtain l2 where u: "UpdateLayerInfo (Some info) l = Some l2" using new by (simp add: UpdateLayerInfo_def)
    have "layer_full l2" using UpdateLayerInfo_full[OF u i] new by (simp add: new_LayerBufferInfo_def)
    then have f: "output_full ((set_layer (ho_next o1) l2 o1)\<lparr>ho_next := Suc (ho_next o1)\<rparr>)" using full_update(3)[OF full] by simp
    define o3 where "o3 = (set_layer (ho_next o1) l2 o1)\<lparr>ho_next := Suc (ho_next o1), layerIdMap := om_put (hl_id l2) (ho_next o1) (layerIdMap o1)\<rparr>"
    have "output_full o3" using f by (simp add: o3_def output_full_def)
    moreover obtain o4 d4 where "unref_old v (map_of (layerIdMap o1) (hl_id l2)) o3 d3 = Some (o4, d4)"
        "unref_old v (map_of (surfaceIdMap o4) s) (o4\<lparr>surfaceIdMap := om_put s (ho_next o1) (surfaceIdMap o4)\<rparr>) d4 = Some (o2, d2)"
      using c l True u by (auto simp: ho_CreateLayer_def Let_def bind_eq_Some_conv o3_def set_layer_def)
    ultimately show ?thesis by (metis unref_old_full output_full_maps(2))
  qed
qed

lemma set_layer_infos_full:
  assumes D: "layer_driver v opened" and "set_layer_infos v junk infos o1 d = Some (e, o2, d2)" and "\<forall>i \<in> set infos. info_full i"
    and "output_ok o1" and "open_here o1 (opened d)" and "output_full o1"
  shows "output_full o2"
  using assms(2-)
proof (induction infos arbitrary: o1 d)
  case Nil
  then show ?case by simp
next
  case (Cons info infos)
  let ?s = "li_surface info"
  have i: "info_full info" and rest: "\<forall>i \<in> set infos. info_full i" using Cons.prems(2) by simp_all
  have create: ?case
    if c: "Option.bind (ho_CreateLayer v junk ?s info o1 d) (\<lambda>(ret, o1, d).
        if ret \<noteq> success v then Some (False, o1, d) else set_layer_infos v junk infos o1 d) = Some (e, o2, d2)"
  proof -
    obtain ret o3 d3 where o3: "ho_CreateLayer v junk ?s info o1 d = Some (ret, o3, d3)" "output_ok o3" "open_here o3 (opened d3)"
      using CreateLayer_outcome[OF D Cons.prems(3,4)] by blast
    have f: "output_full o3" by (rule CreateLayer_full[OF o3(1) i Cons.prems(5)])
    show ?thesis using c o3(1) f Cons.IH[OF _ rest o3(2,3) f] by (auto split: if_splits)
  qed
  show ?case
  proof (cases "shown_by o1 ?s")
    case None
    then show ?thesis using Cons.prems(1) create by (simp add: set_layer_infos.simps(2) Let_def)
  next
    case (Some a)
    then obtain l j where l: "ho_layers o1 a = Some l" "hl_info l = Some j" "li_surface j = ?s" using output_okD(5)[OF Cons.prems(3)] by blast
    show ?thesis
    proof (cases "same_size j info")
      case False
      then show ?thesis using Cons.prems(1) create Some l by (simp add: set_layer_infos.simps(2) Let_def the_layer_def)
    next
      case True
      have lf: "layer_full l" using Cons.prems(5) l(1) by (simp add: output_full_def)
      obtain l2 where u: "UpdateLayerInfo (Some info) l = Some l2" "set_layer_infos v junk infos (set_layer a l2 o1) d = Some (e, o2, d2)"
        using Cons.prems(1) True Some l by (auto simp: set_layer_infos.simps(2) Let_def the_layer_def bind_eq_Some_conv)
      have l2: "layer_full l2" by (rule UpdateLayerInfo_full[OF u(1) i]) (use lf in \<open>auto simp: layer_full_def buffer_full_def\<close>)
      have "hl_id l2 = hl_id l" "hl_screen l2 = hl_screen l" "hl_curr l2 \<noteq> None" "hl_prev l2 \<noteq> None" "hl_info l2 = Some info"
        using u(1) by (auto simp: UpdateLayerInfo_def split: option.splits)
      then have "output_ok (set_layer a l2 o1)" using l by (intro output_ok_set_layer[OF Cons.prems(3) l(1)]) simp_all
      then show ?thesis using Cons.IH[OF u(2) rest _ _ full_update(3)[OF Cons.prems(5) l2]] Cons.prems(4) by simp
    qed
  qed
qed

lemma unref_maps_full:
  "unref v a (o1\<lparr>layerIdMap := m\<rparr>) d = Some (o2, d2) \<Longrightarrow> output_full o1 \<Longrightarrow> output_full o2"
  "unref v a (o1\<lparr>surfaceIdMap := n\<rparr>) d = Some (o2, d2) \<Longrightarrow> output_full o1 \<Longrightarrow> output_full o2"
  using unref_full output_full_maps by metis+

lemma delete_surfaces_full: "delete_surfaces v es o1 d = Some (o2, d2) \<Longrightarrow> output_full o1 \<Longrightarrow> output_full o2"
  by (induction es arbitrary: o1 d) (auto simp: bind_eq_Some_conv split: if_splits, metis unref_maps_full(2))

lemma delete_layers_full: "delete_layers v es o1 d = Some (o2, d2) \<Longrightarrow> output_full o1 \<Longrightarrow> output_full o2"
  by (induction es arbitrary: o1 d) (auto simp: bind_eq_Some_conv split: if_splits, metis unref_maps_full(1))

lemma SetLayerInfo_full:
  assumes D: "layer_driver v opened" and ok: "output_ok o1" and op: "open_here o1 (opened d)" and full: "output_full o1"
    and infos: "\<forall>i \<in> set infos. info_full i" and vs: "visits_ok vs" and r: "SetLayerInfo v junk vs infos o1 d = Some (o2, d2)"
  shows "output_full o2"
proof -
  obtain e o3 d3 where o3: "set_layer_infos v junk infos o1 d = Some (e, o3, d3)" "output_ok o3" "open_here o3 (opened d3)"
    using set_layer_infos_outcome[OF D ok op, where junk = junk and infos = infos and cap = 0] by (elim exE conjE) (rule that; assumption)
  have f3: "output_full o3" by (rule set_layer_infos_full[OF D o3(1) infos ok op full])
  show ?thesis
  proof (cases e)
    case True
    obtain o4 d4 where o4: "DeletePrevLayers v vs o3 d3 = Some (o4, d4)" "output_ok o4"
      using DeletePrevLayers_outcome[OF D o3(2,3) vs] by blast
    have "output_full o4" using o4(1) f3 unfolding DeletePrevLayers_def
      by (auto simp: bind_eq_Some_conv dest: delete_surfaces_full delete_layers_full)
    moreover have "o2 = ResetLayerStatus o4" using r o3(1) o4(1) True by (simp add: SetLayerInfo_def)
    moreover have "layer_full (SetLayerStatus False l) = layer_full l" for l by (simp add: layer_full_def SetLayerStatus_def)
    ultimately show ?thesis by (auto simp: ResetLayerStatus_outcome(1)[OF o4(2)] output_full_def)
  qed (use r o3(1) f3 in \<open>simp add: SetLayerInfo_def\<close>)
qed

section \<open>A frame\<close>

definition ready :: "('d \<Rightarrow> (32 word \<times> 32 word) set) \<Rightarrow> 'd \<Rightarrow> houtput \<Rightarrow> bool" where
  "ready opened d o1 \<longleftrightarrow> output_ok o1 \<and> output_full o1 \<and> idle o1 \<and> open_here o1 (opened d)"

definition frame_ok :: "layer_info list \<Rightarrow> bool" where
  "frame_ok infos \<longleftrightarrow> distinct (map li_surface infos) \<and> (\<forall>i \<in> set infos. info_full i)"

definition shows_frame :: "layer_info list \<Rightarrow> houtput \<Rightarrow> bool" where
  "shows_frame infos o1 \<longleftrightarrow> (\<forall>s. shown_by o1 s \<noteq> None \<longleftrightarrow> s \<in> li_surface ` set infos) \<and> card (dom (ho_layers o1)) \<le> length infos"

lemma SetLayerInfo_ready:
  assumes D: "layer_driver v opened" and vs: "visits_ok vs" and rd: "ready opened d o1" and fr: "frame_ok infos"
    and cap: "room v opened cap" "card (dom (ho_layers o1)) + length infos \<le> cap"
  shows "\<exists>o2 d2. SetLayerInfo v junk vs infos o1 d = Some (o2, d2) \<and> ready opened d2 o2 \<and> shows_frame infos o2"
proof -
  note R = rd[unfolded ready_def, THEN conjunct1] rd[unfolded ready_def, THEN conjunct2, THEN conjunct1]
    rd[unfolded ready_def, THEN conjunct2, THEN conjunct2, THEN conjunct1] rd[unfolded ready_def, THEN conjunct2, THEN conjunct2, THEN conjunct2]
  note F = fr[unfolded frame_ok_def, THEN conjunct1] fr[unfolded frame_ok_def, THEN conjunct2]
  obtain o2 d2 where o2: "SetLayerInfo v junk vs infos o1 d = Some (o2, d2)" "output_ok o2" "open_here o2 (opened d2)"
    using SetLayerInfo_ok[OF D R(1,4) vs, where junk = junk and infos = infos] by (elim exE conjE) (rule that; assumption)
  have S: "idle o2" "\<forall>s. shown_by o2 s \<noteq> None \<longleftrightarrow> s \<in> li_surface ` set infos" "\<forall>a. ho_layers o2 a \<noteq> None \<longrightarrow> (\<exists>s. shown_by o2 s = Some a)"
    using SetLayerInfo_shows[OF D R(1,4) vs R(3) F(1) cap o2(1)] by blast+
  have "dom (ho_layers o2) \<subseteq> (\<lambda>i. the (shown_by o2 (li_surface i))) ` set infos"
  proof
    fix a assume "a \<in> dom (ho_layers o2)"
    then obtain s where s: "shown_by o2 s = Some a" using S(3) by blast
    then obtain i where "i \<in> set infos" "s = li_surface i" using S(2) by blast
    then show "a \<in> (\<lambda>i. the (shown_by o2 (li_surface i))) ` set infos" using s by force
  qed
  from surj_card_le[OF finite_set this] have "card (dom (ho_layers o2)) \<le> card (set infos)" .
  also have "\<dots> \<le> length infos" by (rule card_length)
  finally show ?thesis
    using o2 S(1,2) SetLayerInfo_full[OF D R(1,4,2) F(2) vs o2(1)] by (auto simp: ready_def shows_frame_def)
qed

lemma kept_ready:
  assumes k: "kept o1 o2" and rd: "ready opened d o1" and f: "output_full o2" and d: "opened d2 = opened d" and s: "shows_frame infos o1"
  shows "ready opened d2 o2 \<and> shows_frame infos o2"
proof -
  have same: "output_ok o2" "layerIdMap o2 = layerIdMap o1" "surfaceIdMap o2 = surfaceIdMap o1" "in_use o2 = in_use o1"
    using k by (simp_all add: kept_def)
  have "output_ok o1" using rd by (simp add: ready_def)
  have "dom (ho_layers o2) = dom (ho_layers o1)" using layers_dom[OF same(1)] layers_dom[OF \<open>output_ok o1\<close>] same(2) by simp
  then show ?thesis
    using rd s f d same kept_open[OF k] by (simp add: ready_def shows_frame_def idle_def)
qed

lemma frame_outcome:
  assumes C: "composer_outside v F opened" and vs: "visits_ok vs" and o1: "be_store b a = Some o1" and rd: "ready opened d o1"
    and fr: "frame_ok infos" and cap: "room v opened cap" "card (dom (ho_layers o1)) + length infos \<le> cap" and sm: "sampler_safe (be_sampler b)"
  shows "\<exists>o2 d2 b3 d3 o3. SetLayerInfo v junk vs infos o1 d = Some (o2, d2) \<and>
    Repaint v F vs by_z [Some a] (set_output a o2 b) d2 = Some (b3, d3) \<and> be_store b3 a = Some o3 \<and>
    ready opened d3 o3 \<and> shows_frame infos o3 \<and> sampler_safe (be_sampler b3)"
proof -
  have D: "layer_driver v opened" using C by (simp add: composer_outside_def)
  obtain o2 d2 where o2: "SetLayerInfo v junk vs infos o1 d = Some (o2, d2)" "ready opened d2 o2" "shows_frame infos o2"
    using SetLayerInfo_ready[OF D vs rd fr cap] by blast
  let ?b = "set_output a o2 b"
  have st: "be_store ?b a = Some o2" by (simp add: set_output_def)
  have "shown_ok opened d2 ?b [Some a]" "sampler_safe (be_sampler ?b)"
    using o2(2) sm by (simp_all add: shown_ok_def ready_def set_output_def)
  from repaint_outputs_returns[OF C vs this, of by_z] obtain b3 d3 where r: "repaint_outputs v F vs by_z [Some a] ?b d2 = Some (b3, d3)"
    "opened d3 = opened d2" "kept_all ?b b3" "sampler_safe (be_sampler b3)" by blast
  show ?thesis
  proof (cases "be_device b")
    case False
    then have "Repaint v F vs by_z [Some a] ?b d2 = Some (?b, d2)" by (simp add: Repaint_def set_output_def)
    then show ?thesis using o2 st \<open>sampler_safe (be_sampler ?b)\<close> by blast
  next
    case True
    then have "Repaint v F vs by_z [Some a] ?b d2 = Some (b3, d3)" using r(1) by (simp add: Repaint_def set_output_def)
    moreover obtain o3 where "be_store b3 a = Some o3" "o3 = o2 \<or> kept o2 o3 \<and> output_full o3"
      using r(3) st unfolding kept_all_def by blast
    moreover from this(2) have "ready opened d3 o3 \<and> shows_frame infos o3"
    proof
      assume "o3 = o2"
      then show ?thesis using o2(2,3) r(2) by (simp add: ready_def)
    qed (use kept_ready[OF _ o2(2) _ r(2) o2(3)] in blast)
    ultimately show ?thesis using o2(1) r(4) by blast
  qed
qed

section \<open>A driver to show the properties on\<close>

text \<open>It names the layers of a screen 1 and 2 and refuses a third; its state is the layers open.\<close>

type_synonym open_layers = "(32 word \<times> 32 word) list"

definition two_layers :: "32 word \<Rightarrow> int \<times> int \<Rightarrow> open_layers \<Rightarrow> int \<times> 32 word \<times> open_layers" where
  "two_layers sid wh d =
     (if (sid, 1) \<notin> set d then (0, 1, (sid, 1) # d) else if (sid, 2) \<notin> set d then (0, 2, (sid, 2) # d) else (-1, 0, d))"

definition no_kernel :: fence_kernel where
  "no_kernel = \<lparr>fk_wait = (\<lambda>_ _. (0, 0)), fk_merge = (\<lambda>_ _ _. -1), fk_count = (\<lambda>_. (-1, 0)), fk_malloc = (\<lambda>_. False), fk_infos = (\<lambda>_ _. (-1, []))\<rparr>"

definition composer :: "open_layers frame_vendor" where
  "composer =
     \<lparr>codes = \<lparr>DISPLAY_SUCCESS = 0, DISPLAY_FAILURE = -1, DISPLAY_FD_ERR = -2, DISPLAY_PARAM_ERR = -3, DISPLAY_NULL_PTR = -4,
       DISPLAY_NOT_SUPPORT = -5, DISPLAY_NOMEM = -6, DISPLAY_SYS_BUSY = -7, DISPLAY_NOT_PERM = -8,
       EBADF = 9, EINVAL = 22, EOPNOTSUPP = 95, ENOMEM = 12, EBUSY = 16, EPERM = 1\<rparr>,
     available = True, DISP_INTF_MIPI = 9, DISP_INTF_HDMI = 0, DISP_POWER_STATUS_ON = 0, HDI_COLOR_GAMUT_SRGB = 4, HDI_GAMUT_MAP_CONSTANT = 0,
     RegDisplayVBlankCallback = None, SetDisplayVsyncEnabled = None, GetDisplayCapability = None,
     CountDisplayModes = None, FillDisplayModes = (\<lambda>_ _. (0, \<lambda>_. \<lparr>mode_width = 0, mode_height = 0, freshRate = 0, mode_id = 0\<rparr>)),
     GetDisplayMode = None, SetDisplayMode = None, GetDisplayPowerStatus = None, SetDisplayPowerStatus = None,
     GetDisplayBacklight = None, SetDisplayBacklight = None,
     TRANSFORM_BUTT = 8, COMPOSITION_CLIENT = 0,
     LF_SetLayerAlpha = None, LF_SetLayerSize = None, LF_SetTransformMode = None, LF_SetLayerVisibleRegion = None, LF_SetLayerDirtyRegion = None,
     LF_SetLayerBuffer = None, LF_SetLayerCompositionType = None, LF_SetLayerBlendType = None, LF_SetLayerCrop = None, LF_SetLayerZorder = None,
     LF_SetLayerPreMulti = None, LF_CreateLayer = Some two_layers,
     LF_CloseLayer = Some (\<lambda>sid k d. (0, filter (\<lambda>e. e \<noteq> (sid, k)) d)),
     kernel = (\<lambda>_. no_kernel), surface_ReleaseBuffer = (\<lambda>_ _ _ d. (GSERROR_OK, d)),
     RegHotPlugCallback = None, PrepareDisplayLayers = Some (\<lambda>_ d. (0, False, d)),
     CountCompChange = Some (\<lambda>_ d. (0, 0, d)), FillCompChange = (\<lambda>_ d. (0, \<lambda>_. (0, 0), d)),
     SetDisplayClientBuffer = None, SetDisplayClientDamage = None,
     CountReleaseFence = Some (\<lambda>_ d. (0, 0, d)), FillReleaseFence = (\<lambda>_ d. (0, \<lambda>_. (0, 0), d)),
     CommitDisplay = Some (\<lambda>_ d. (0, -1, d)), prepare_complete = (\<lambda>_ _ fb d. (fb, d))\<rparr>"

definition no_framebuffer :: "open_layers fb_ops" where
  "no_framebuffer = \<lparr>fb_acquire = (\<lambda>_ d. (GSERROR_NO_BUFFER, \<lparr>fe_buffer = None, fe_acquire = None, fe_time = 0, fe_damage = \<lparr>rx = 0, ry = 0, rw = 0, rh = 0\<rparr>\<rparr>, d)),
     fb_release = (\<lambda>_ _ _ d. (GSERROR_OK, d)), fb_create = (\<lambda>d. (GSERROR_OK, 1, d)), fb_SetQueueSize = (\<lambda>_ _ d. (GSERROR_OK, d)),
     wait_for = Pair\<rparr>"

lemma composer_outside_demo: "composer_outside composer no_framebuffer set"
proof -
  have "layer_driver composer set"
    by (auto simp: layer_driver_def composer_def success_def hd_CreateLayer_def hd_CloseLayer_def call_set_def two_layers_def INT_MAX_def split: if_splits)
  moreover have "setters_keep set composer" by (simp add: setters_keep_def keeps_setter_def composer_def)
  moreover have "frame_keeps set composer no_framebuffer"
    by (simp add: frame_keeps_def composer_def no_framebuffer_def hd_PrepareScreenLayers_def hd_GetScreenCompChange_def
        hd_SetScreenClientBuffer_def hd_SetScreenClientDamage_def hd_GetScreenReleaseFence_def hd_Commit_def call_set_def)
  ultimately show ?thesis by (simp add: composer_outside_def)
qed

lemma composer_room: "room composer set 2"
  unfolding room_def
proof (intro allI impI)
  fix s :: "32 word" and wh :: "int \<times> int" and d :: open_layers assume c: "card {k. (s, k) \<in> set d} < 2"
  have "(s, 1) \<notin> set d \<or> (s, 2) \<notin> set d"
  proof (rule ccontr)
    assume "\<not> ?thesis"
    then have "{1, 2} \<subseteq> {k. (s, k) \<in> set d}" by auto
    moreover have "finite {k. (s, k) \<in> set d}" by simp
    ultimately have "card {1 :: 32 word, 2} \<le> card {k. (s, k) \<in> set d}" by (rule card_mono[rotated])
    then show False using c by simp
  qed
  then show "fst (hd_CreateLayer composer s wh 0 d) = success composer"
    by (auto simp: hd_CreateLayer_def composer_def two_layers_def success_def)
qed

definition any_order :: visits where "any_order = \<lparr>by_layer = (\<lambda>es. es), by_surface = (\<lambda>es. es)\<rparr>"

lemma any_order_ok: "visits_ok any_order"
  by (simp add: visits_ok_def any_order_def)

definition some_rect :: rect where "some_rect = \<lparr>rx = 0, ry = 0, rw = 720, rh = 1280\<rparr>"

definition some_layer :: "64 word \<Rightarrow> layer_info" where
  "some_layer s = \<lparr>li_surface = s, li_buffer = Some 7, li_acquire = Some (-1), li_preBuffer = Some 6, li_preAcquire = Some (-1), li_zorder = 0,
     li_alpha = \<lparr>enGlobalAlpha = False, enPixelAlpha = False, alpha0 = 0, alpha1 = 0, gAlpha = 255\<rparr>, li_transform = 0, li_composition = 1, li_blend = 0,
     li_visibleNum = 1, li_visible = some_rect, li_dirty = some_rect, li_crop = some_rect, li_size = some_rect, li_preMulti = False\<rparr>"

definition empty_output :: houtput where "empty_output = CreateHdiOutput some_rect 0 5"

lemma ready_empty: "open_here empty_output (opened d) \<Longrightarrow> ready opened d empty_output" "card (dom (ho_layers empty_output)) = 0"
  by (simp_all add: ready_def output_ok_def output_full_def idle_def in_use_def empty_output_def CreateHdiOutput_def)

definition demo_backend :: backend where
  "demo_backend = (new_HdiBackend (new_VSyncSampler []))\<lparr>be_device := True, be_outputs := om_put 5 0 [], be_store := [0 \<mapsto> empty_output], be_next := 1\<rparr>"

lemma demo_backend_fields: "be_store demo_backend 0 = Some empty_output" "sampler_safe (be_sampler demo_backend)"
  by (simp_all add: demo_backend_def new_HdiBackend_def sampler_safe_def new_VSyncSampler_def)

lemma some_layer_surface [simp]: "li_surface (some_layer s) = s"
  by (simp add: some_layer_def)

lemma some_frame_ok: "distinct ss \<Longrightarrow> frame_ok (map some_layer ss)"
  by (auto simp: frame_ok_def info_full_def some_layer_def o_def)

section \<open>What is shown\<close>

text \<open>Frame after frame on one output, as the processors of the render service do it.\<close>

fun show_frames ::
    "('d, 'm) frame_vendor_scheme \<Rightarrow> 'd fb_ops \<Rightarrow> int list \<Rightarrow> visits \<Rightarrow> (layer_info list \<Rightarrow> layer_info list) \<Rightarrow> nat \<Rightarrow>
     layer_info list list \<Rightarrow> backend \<Rightarrow> 'd \<Rightarrow> (backend \<times> 'd) option" where
  "show_frames v F junk vs by_z a [] b d = Some (b, d)"
| "show_frames v F junk vs by_z a (infos # fs) b d =
     Option.bind (be_store b a) (\<lambda>o1.
     Option.bind (SetLayerInfo v junk vs infos o1 d) (\<lambda>(o2, d).
     Option.bind (Repaint v F vs by_z [Some a] (set_output a o2 b) d) (\<lambda>(b, d).
       show_frames v F junk vs by_z a fs b d)))"

text \<open>The layers of two frames in a row have room together.\<close>

fun fits :: "nat \<Rightarrow> nat \<Rightarrow> layer_info list list \<Rightarrow> bool" where
  "fits cap n [] = True"
| "fits cap n (infos # fs) = (n + length infos \<le> cap \<and> fits cap (length infos) fs)"

lemma fits_mono: "fits cap n fs \<Longrightarrow> m \<le> n \<Longrightarrow> fits cap m fs"
  by (cases fs) auto

text \<open>
  C4. When the driver has room for the layers of two frames in a row, any run of frames with complete layers
  and no surface twice succeeds; after it the output shows exactly the surfaces of the last frame, and the
  layers the driver has open for the screen are those of the output.
\<close>

theorem frames_shown:
  assumes C: "composer_outside v F opened" and vs: "visits_ok vs" and room: "room v opened cap"
    and "be_store b a = Some o1" and "ready opened d o1" and "sampler_safe (be_sampler b)"
    and "\<forall>infos \<in> set fs. frame_ok infos" and "fits cap (card (dom (ho_layers o1))) fs" and "fs \<noteq> []"
  shows "\<exists>b2 d2 o2. show_frames v F junk vs by_z a fs b d = Some (b2, d2) \<and> be_store b2 a = Some o2 \<and>
    (\<forall>s. shown_by o2 s \<noteq> None \<longleftrightarrow> s \<in> li_surface ` set (last fs)) \<and> open_here o2 (opened d2)"
  using assms(4-)
proof (induction fs arbitrary: b d o1)
  case (Cons infos fs)
  obtain o2 d2 b3 d3 o3 where st: "SetLayerInfo v junk vs infos o1 d = Some (o2, d2)"
      "Repaint v F vs by_z [Some a] (set_output a o2 b) d2 = Some (b3, d3)" "be_store b3 a = Some o3"
      and o3: "ready opened d3 o3" "shows_frame infos o3" "sampler_safe (be_sampler b3)"
    using frame_outcome[OF C vs Cons.prems(1,2) _ room _ Cons.prems(3), of infos junk by_z] Cons.prems(4,5) by auto
  have eq: "show_frames v F junk vs by_z a (infos # fs) b d = show_frames v F junk vs by_z a fs b3 d3"
    using Cons.prems(1) st(1,2) by simp
  show ?case
  proof (cases "fs = []")
    case True
    then show ?thesis using eq st(3) o3(1,2) by (simp add: shows_frame_def ready_def)
  next
    case False
    have "fits cap (card (dom (ho_layers o3))) fs"
      using Cons.prems(5) o3(2) by (auto simp: shows_frame_def intro: fits_mono)
    from Cons.IH[OF st(3) o3(1,3) _ this False] show ?thesis using eq Cons.prems(4) False by simp
  qed
qed simp

theorem frames_shown_witness:
  "\<exists>b2 d2 o2. show_frames composer no_framebuffer [] any_order (\<lambda>x. x) 0 [[some_layer 1], [some_layer 2]] demo_backend [] = Some (b2, d2) \<and>
    be_store b2 0 = Some o2 \<and> shown_by o2 1 = None \<and> shown_by o2 2 \<noteq> None"
proof -
  have r: "ready set [] empty_output" by (rule ready_empty(1)) (simp add: open_here_def empty_output_def CreateHdiOutput_def)
  have f: "\<forall>infos \<in> set [[some_layer 1], [some_layer 2]]. frame_ok infos"
    using some_frame_ok[of "[1]"] some_frame_ok[of "[2]"] by simp
  have c: "fits 2 (card (dom (ho_layers empty_output))) [[some_layer 1], [some_layer 2]]" by (simp only: ready_empty(2)) simp
  obtain b2 d2 o2 where o2: "show_frames composer no_framebuffer [] any_order (\<lambda>x. x) 0 [[some_layer 1], [some_layer 2]] demo_backend [] = Some (b2, d2)"
    "be_store b2 0 = Some o2" "\<forall>s. shown_by o2 s \<noteq> None \<longleftrightarrow> s \<in> li_surface ` set (last [[some_layer 1], [some_layer 2]])"
    using frames_shown[OF composer_outside_demo any_order_ok composer_room demo_backend_fields(1) r demo_backend_fields(2) f c] by blast
  have "shown_by o2 1 = None" "shown_by o2 2 \<noteq> None" using o2(3)[rule_format, of 1] o2(3)[rule_format, of 2] by simp_all
  then show ?thesis using o2(1,2) by blast
qed

text \<open>
  C12. \<open>Repaint\<close> of outputs whose layers are complete never meets a null pointer and never divides by zero. It
  keeps each output consistent, opens and closes no layer of the driver, and leaves the screens plugged in as they are.
\<close>

theorem repaint_keeps_outputs:
  assumes C: "composer_outside v F opened" and vs: "visits_ok vs" and "sampler_safe (be_sampler b)"
    and "\<And>a. Some a \<in> set outs \<Longrightarrow> \<exists>o1. be_store b a = Some o1 \<and> output_ok o1 \<and> output_full o1 \<and> open_here o1 (opened d)"
  shows "\<exists>b2 d2. Repaint v F vs by_z outs b d = Some (b2, d2) \<and> opened d2 = opened d \<and> be_outputs b2 = be_outputs b \<and>
    (\<forall>a. Some a \<in> set outs \<longrightarrow> (\<exists>o2. be_store b2 a = Some o2 \<and> output_ok o2 \<and> output_full o2 \<and> open_here o2 (opened d2)))"
proof -
  have s: "shown_ok opened d b outs" using assms(4) by (simp add: shown_ok_def)
  show ?thesis
  proof (cases "be_device b")
    case True
    from repaint_outputs_returns[OF C vs s assms(3), of by_z] True show ?thesis
      by (auto simp: Repaint_def kept_all_def shown_ok_def)
  qed (use s in \<open>simp add: Repaint_def shown_ok_def\<close>)
qed

definition shown_one :: "(houtput \<times> open_layers) option" where
  "shown_one = SetLayerInfo composer [] any_order [some_layer 1] empty_output []"

theorem repaint_keeps_outputs_witness:
  "\<exists>o1 d b2 d2. shown_one = Some (o1, d) \<and> o1 \<noteq> empty_output \<and>
    Repaint composer no_framebuffer any_order (\<lambda>x. x) [None, Some 0] (set_output 0 o1 demo_backend) d = Some (b2, d2)"
proof -
  have r: "ready set [] empty_output" by (rule ready_empty(1)) (simp add: open_here_def empty_output_def CreateHdiOutput_def)
  have f: "frame_ok [some_layer 1]" using some_frame_ok[of "[1]"] by simp
  have D: "layer_driver composer set" using composer_outside_demo by (simp add: composer_outside_def)
  obtain o1 d where o1: "shown_one = Some (o1, d)" "ready set d o1" "shows_frame [some_layer 1] o1"
    using SetLayerInfo_ready[OF D any_order_ok r f composer_room, of "[]"] by (auto simp: ready_empty(2) shown_one_def)
  have "shown_by o1 1 \<noteq> None" using o1(3) by (simp add: shows_frame_def some_layer_def)
  then have ne: "o1 \<noteq> empty_output" by (auto simp: empty_output_def CreateHdiOutput_def)
  have "sampler_safe (be_sampler (set_output 0 o1 demo_backend))" using demo_backend_fields(2) by (simp add: set_output_def)
  from repaint_keeps_outputs[OF composer_outside_demo any_order_ok this, of "[None, Some 0]" d "\<lambda>x. x"] o1(2) ne o1(1)
  show ?thesis by (auto simp: set_output_def ready_def)
qed

text \<open>A layer of the frame that needs a new layer of the driver: its surface is not shown, or in another size.\<close>

definition needs_layer :: "houtput \<Rightarrow> layer_info \<Rightarrow> bool" where
  "needs_layer o1 info \<longleftrightarrow>
     (case shown_by o1 (li_surface info) of
        None \<Rightarrow> True
      | Some a \<Rightarrow> (case hl_info (the_layer o1 a) of None \<Rightarrow> False | Some old \<Rightarrow> \<not> same_size old info))"

lemma set_layer_infos_append:
  "set_layer_infos v junk (pre @ rest) o1 d =
     Option.bind (set_layer_infos v junk pre o1 d) (\<lambda>(ended, o2, d2).
       if ended then set_layer_infos v junk rest o2 d2 else Some (False, o2, d2))"
proof (induction pre arbitrary: o1 d)
  case Nil
  then show ?case by simp
next
  case (Cons info pre)
  show ?case
  proof (cases "shown_by o1 (li_surface info)")
    case None
    then show ?thesis
      by (cases "ho_CreateLayer v junk (li_surface info) info o1 d")
        (auto simp: set_layer_infos.simps(2) Let_def Cons.IH split: prod.splits)
  next
    case (Some a)
    show ?thesis
    proof (cases "hl_info (the_layer o1 a)")
      case None
      with Some show ?thesis by (simp add: set_layer_infos.simps(2) Let_def)
    next
      case (Some old)
      with \<open>shown_by o1 (li_surface info) = Some a\<close> show ?thesis
        by (cases "ho_CreateLayer v junk (li_surface info) info o1 d"; cases "UpdateLayerInfo (Some info) (the_layer o1 a)")
          (auto simp: set_layer_infos.simps(2) Let_def Cons.IH split: prod.splits)
    qed
  qed
qed

lemma refused_layer_ends_loop:
  assumes D: "layer_driver v opened" and new: "needs_layer o2 info"
    and refused: "fst (hd_CreateLayer v (ho_screen o2) (rw (li_size info), rh (li_size info)) 0 d2) \<noteq> success v"
  shows "\<exists>d3. set_layer_infos v junk (info # post) o2 d2 = Some (False, o2, d3) \<and> opened d3 = opened d2"
proof -
  obtain ret k d3 where c: "hd_CreateLayer v (ho_screen o2) (rw (li_size info), rh (li_size info)) 0 d2 = (ret, k, d3)"
    using prod_cases3 by blast
  have ret: "ret \<noteq> success v" using refused c by simp
  have "ho_CreateLayer v junk (li_surface info) info o2 d2 = Some (DISPLAY_FAILURE (codes v), o2, d3)"
    using layer_driverD(1)[OF D] c ret by (simp add: ho_CreateLayer_def hl_Init_def hl_CreateLayer_def CreateHdiLayer_def hl_CloseLayer_def)
  then have "set_layer_infos v junk (info # post) o2 d2 = Some (False, o2, d3)"
    using new layer_driverD(2)[OF D]
    by (auto simp: set_layer_infos.simps(2) Let_def needs_layer_def split: option.splits)
  then show ?thesis using layer_driverD(4)[OF D c ret] by blast
qed

text \<open>
  C38. A frame is cut short at the first layer that needs a new layer of the driver and is refused one: the
  layers before it are shown as usual, the refused one and those after it are ignored, whatever they are,
  and no layer is closed, nor are the marks of the layers in use reset: the surfaces that should go, and
  the refused one if it was shown in another size, stay as they were. The layers of the frame before still
  count when the driver decides, for they are closed only after the new ones are created.
\<close>

theorem refused_layer_cuts_frame:
  assumes D: "layer_driver v opened" and ok: "output_ok o1" and op: "open_here o1 (opened d)"
    and pre: "set_layer_infos v junk pre o1 d = Some (True, o2, d2)" and dist: "distinct (map li_surface pre)"
    and new: "needs_layer o2 info"
    and refused: "fst (hd_CreateLayer v (ho_screen o2) (rw (li_size info), rh (li_size info)) 0 d2) \<noteq> success v"
  shows "\<exists>d3. SetLayerInfo v junk vs (pre @ info # post) o1 d = Some (o2, d3) \<and> opened d3 = opened d2 \<and>
    output_ok o2 \<and> open_here o2 (opened d3) \<and>
    (\<forall>i \<in> set pre. \<exists>a l. shown_by o2 (li_surface i) = Some a \<and> ho_layers o2 a = Some l \<and> hl_info l = Some i \<and> hl_inUsing l) \<and>
    (\<forall>s. s \<notin> li_surface ` set pre \<longrightarrow> shown_by o2 s = shown_by o1 s) \<and>
    (\<forall>s a. s \<notin> li_surface ` set pre \<longrightarrow> shown_by o1 s = Some a \<longrightarrow> ho_layers o2 a = ho_layers o1 a)"
proof -
  from set_layer_infos_outcome[OF D ok op, of junk pre] pre dist
  have o2: "output_ok o2" "open_here o2 (opened d2)" "frame_done pre o1 o2" by auto
  obtain d3 where d3: "set_layer_infos v junk (info # post) o2 d2 = Some (False, o2, d3)" "opened d3 = opened d2"
    using refused_layer_ends_loop[OF D new refused] by blast
  have "SetLayerInfo v junk vs (pre @ info # post) o1 d = Some (o2, d3)"
    using pre d3(1) by (simp add: SetLayerInfo_def set_layer_infos_append)
  moreover have "ho_layers o2 a = ho_layers o1 a" if s: "s \<notin> li_surface ` set pre" "shown_by o1 s = Some a" for s a
  proof -
    obtain l i where l: "ho_layers o1 a = Some l" "hl_info l = Some i" "li_surface i = s" using output_okD(5)[OF ok s(2)] by blast
    have "shown_by o1 (li_surface j) \<noteq> Some a" if "j \<in> set pre" for j
      using output_okD(5)[OF ok, of "li_surface j" a] l s(1) that by auto
    then show ?thesis using o2(3) l(1) unfolding frame_done_def by metis
  qed
  moreover have "\<forall>s. s \<notin> li_surface ` set pre \<longrightarrow> shown_by o2 s = shown_by o1 s"
      "\<forall>i \<in> set pre. \<exists>a l. shown_by o2 (li_surface i) = Some a \<and> ho_layers o2 a = Some l \<and> hl_info l = Some i \<and> hl_inUsing l"
    using o2(3) unfolding frame_done_def by blast+
  ultimately show ?thesis using d3(2) o2(1,2) by (intro exI[of _ d3]) simp
qed

text \<open>
  Two layers are shown on a screen with room for two. The next frame shows the first of them again, brings a new
  surface in place of the second, which would fit, and another one after it.
\<close>

definition two_shown :: "(houtput \<times> open_layers) option" where
  "two_shown = SetLayerInfo composer [] any_order [some_layer 1, some_layer 2] empty_output []"

lemma two_shown_computed:
  "Option.bind two_shown (\<lambda>(o1, d). Option.bind (set_layer_infos composer [] [some_layer 1] o1 d) (\<lambda>(e, o2, d2).
       Some (e, ho_screen o2, d2, needs_layer o2 (some_layer 3)))) = Some (True, 5, [(5, 2), (5, 1)], True)"
  by code_simp

theorem refused_layer_cuts_frame_witness:
  "\<exists>o1 d o2 d3. two_shown = Some (o1, d) \<and>
    SetLayerInfo composer [] any_order [some_layer 1, some_layer 3, some_layer 4] o1 d = Some (o2, d3) \<and>
    shown_by o2 3 = None \<and> shown_by o2 4 = None \<and> shown_by o2 2 \<noteq> None"
proof -
  have r: "ready set [] empty_output" by (rule ready_empty(1)) (simp add: open_here_def empty_output_def CreateHdiOutput_def)
  have f: "frame_ok [some_layer 1, some_layer 2]" using some_frame_ok[of "[1, 2]"] by simp
  have D: "layer_driver composer set" using composer_outside_demo by (simp add: composer_outside_def)
  obtain o1 d where o1: "two_shown = Some (o1, d)" "ready set d o1" "shows_frame [some_layer 1, some_layer 2] o1"
    using SetLayerInfo_ready[OF D any_order_ok r f composer_room, of "[]"] by (auto simp: ready_empty(2) two_shown_def)
  have sh: "shown_by o1 3 = None" "shown_by o1 4 = None" "shown_by o1 2 \<noteq> None"
    using o1(3)[unfolded shows_frame_def, THEN conjunct1, rule_format, of 2] o1(3)[unfolded shows_frame_def, THEN conjunct1, rule_format, of 3]
      o1(3)[unfolded shows_frame_def, THEN conjunct1, rule_format, of 4] by simp_all
  obtain o2 d2 where o2: "set_layer_infos composer [] [some_layer 1] o1 d = Some (True, o2, d2)" "ho_screen o2 = 5"
      "d2 = [(5, 2), (5, 1)]" "needs_layer o2 (some_layer 3)"
    using two_shown_computed by (auto simp: o1(1) bind_eq_Some_conv)
  have ref: "fst (hd_CreateLayer composer (ho_screen o2) (rw (li_size (some_layer 3)), rh (li_size (some_layer 3))) 0 d2) \<noteq> success composer"
    by (simp add: o2(2,3) hd_CreateLayer_def composer_def two_layers_def success_def)
  have rd: "output_ok o1" "open_here o1 (set d)" using o1(2) by (simp_all add: ready_def)
  from refused_layer_cuts_frame[OF D rd o2(1) _ o2(4) ref, of any_order "[some_layer 4]"] obtain d3 where
    "SetLayerInfo composer [] any_order [some_layer 1, some_layer 3, some_layer 4] o1 d = Some (o2, d3)"
    and same: "\<forall>s. s \<noteq> 1 \<longrightarrow> shown_by o2 s = shown_by o1 s" by auto
  then show ?thesis
    by (intro exI[of _ o1] exI[of _ d] exI[of _ o2] exI[of _ d3]) (simp add: o1(1) sh)
qed

end
