(* ===== verification/Hardware_Props.thy ===== *)
theory Hardware_Props
  imports Hardware_Processor Hdi_Props
begin

text \<open>
  What the hardware processor makes of the layers of a frame: turning a layer is turning its pixels, cropping leaves
  what lies on the screen and a crop inside the buffer, the shape of the crop becomes that of the layer, and the
  output shows the surfaces of the nodes.
\<close>

section \<open>Turning\<close>

text \<open>Where a pixel of the turned picture lies on a screen of \<open>w\<close> by \<open>h\<close> pixels.\<close>

fun turn :: "screen_rotation \<Rightarrow> int \<Rightarrow> int \<Rightarrow> int \<times> int \<Rightarrow> int \<times> int" where
  "turn ROTATION_90 w h (x, y) = (y, h - 1 - x)"
| "turn ROTATION_180 w h (x, y) = (w - 1 - x, h - 1 - y)"
| "turn ROTATION_270 w h (x, y) = (w - 1 - y, x)"
| "turn _ w h p = p"

fun rotation_quarters :: "screen_rotation \<Rightarrow> nat" where
  "rotation_quarters ROTATION_90 = 1" | "rotation_quarters ROTATION_180 = 2" | "rotation_quarters ROTATION_270 = 3" | "rotation_quarters _ = 0"

definition transform_quarters :: "hw_consts \<Rightarrow> int \<Rightarrow> nat" where
  "transform_quarters k t = (if t = T_90 k then 1 else if t = T_180 k then 2 else if t = T_270 k then 3 else 0)"

definition distinct_transforms :: "hw_consts \<Rightarrow> bool" where
  "distinct_transforms k \<longleftrightarrow> distinct [T_NONE k, T_90 k, T_180 k, T_270 k]"

lemma turn_id [simp]: "turn ROTATION_0 w h = (\<lambda>p. p)" "turn INVALID_SCREEN_ROTATION w h = (\<lambda>p. p)"
  by (simp_all add: fun_eq_iff)

lemma rotate_rect_pixels:
  assumes r: "rect_in 4096 r" and s: "0 \<le> w" "w \<le> 4096" "0 \<le> h" "h \<le> 4096"
  shows "\<exists>r'. rotate_rect rot w h r = Some r' \<and> pixels r' = turn rot w h ` pixels r \<and> rect_in 16384 r'"
proof -
  note b = r[unfolded rect_in_def]
  have i: "i32 (h - rx r) = Some (h - rx r)" "i32 (h - rx r - rw r) = Some (h - rx r - rw r)" "i32 (w - rx r) = Some (w - rx r)"
      "i32 (w - rx r - rw r) = Some (w - rx r - rw r)" "i32 (h - ry r) = Some (h - ry r)" "i32 (h - ry r - rh r) = Some (h - ry r - rh r)"
      "i32 (w - ry r) = Some (w - ry r)" "i32 (w - ry r - rh r) = Some (w - ry r - rh r)"
    by (rule i32_in; use b s in linarith)+
  have ab: "\<bar>h - rx r - rw r\<bar> \<le> 16384" "\<bar>w - rx r - rw r\<bar> \<le> 16384" "\<bar>h - ry r - rh r\<bar> \<le> 16384" "\<bar>w - ry r - rh r\<bar> \<le> 16384"
    using b s by linarith+
  have in4: "rect_in 16384 r" using b by (simp add: rect_in_def)
  note j = in4[unfolded rect_in_def]
  have img: "pixels r' = f ` pixels r"
    if "\<And>x y. (x, y) \<in> pixels r' \<longleftrightarrow> g (x, y) \<in> pixels r" "\<And>p. f (g p) = p" "\<And>p. g (f p) = p" for f g and r' :: rect
  proof (rule set_eqI)
    fix p
    have "p \<in> pixels r' \<longleftrightarrow> g p \<in> pixels r" using that(1) by (cases p) simp
    also have "\<dots> \<longleftrightarrow> p \<in> f ` pixels r" using that(2,3) by (metis image_iff)
    finally show "p \<in> pixels r' \<longleftrightarrow> p \<in> f ` pixels r" .
  qed
  show ?thesis
  proof (cases rot)
    case ROTATION_90
    have "pixels \<lparr>rx = ry r, ry = h - rx r - rw r, rw = rh r, rh = rw r\<rparr> = turn ROTATION_90 w h ` pixels r"
      by (rule img[where g = "\<lambda>(x, y). (h - 1 - y, x)"]) (auto simp: pixels_def)
    then show ?thesis using ROTATION_90 i ab j by (simp add: i32_ops rect_in_def)
  next
    case ROTATION_180
    have "pixels \<lparr>rx = w - rx r - rw r, ry = h - ry r - rh r, rw = rw r, rh = rh r\<rparr> = turn ROTATION_180 w h ` pixels r"
      by (rule img[where g = "\<lambda>(x, y). (w - 1 - x, h - 1 - y)"]) (auto simp: pixels_def)
    then show ?thesis using ROTATION_180 i ab j by (simp add: i32_ops rect_in_def)
  next
    case ROTATION_270
    have "pixels \<lparr>rx = w - ry r - rh r, ry = rx r, rw = rh r, rh = rw r\<rparr> = turn ROTATION_270 w h ` pixels r"
      by (rule img[where g = "\<lambda>(x, y). (y, w - 1 - x)"]) (auto simp: pixels_def)
    then show ?thesis using ROTATION_270 i ab j by (simp add: i32_ops rect_in_def)
  next
    case ROTATION_0
    then show ?thesis using in4 by simp
  next
    case INVALID_SCREEN_ROTATION
    then show ?thesis using in4 by simp
  qed
qed

lemma rotate_transform_quarters:
  "distinct_transforms k \<Longrightarrow> (transform_quarters k (rotate_transform k rot t) + transform_quarters k t + rotation_quarters rot) mod 4 = 0"
proof -
  assume "distinct_transforms k"
  then have d: "T_90 k \<noteq> T_180 k" "T_90 k \<noteq> T_270 k" "T_180 k \<noteq> T_270 k" "T_NONE k \<noteq> T_90 k" "T_NONE k \<noteq> T_180 k" "T_NONE k \<noteq> T_270 k"
    by (simp_all add: distinct_transforms_def)
  note d = d d[symmetric]
  consider "t = T_90 k" | "t = T_180 k" | "t = T_270 k" | "t \<noteq> T_90 k" "t \<noteq> T_180 k" "t \<noteq> T_270 k" by blast
  then show ?thesis by cases (cases rot; simp add: transform_quarters_def d)+
qed

lemma rotate_layer_turns:
  assumes "rect_in 4096 (li_size l)" and "0 \<le> w" "w \<le> 4096" "0 \<le> h" "h \<le> 4096"
  shows "\<exists>r t. rotate_layer k rot w h l = Some (l\<lparr>li_size := r, li_transform := t\<rparr>) \<and> rect_in 16384 r \<and>
    (hw_node_transform l \<noteq> None \<and> the (hw_node_transform l) \<noteq> None \<longrightarrow>
       pixels r = turn rot w h ` pixels (li_size l) \<and> t = rotate_transform k rot (the (the (hw_node_transform l))))"
proof (cases "\<exists>t. hw_node_transform l = Some (Some t)")
  case True
  then obtain t where t: "hw_node_transform l = Some (Some t)" by blast
  obtain r where "rotate_rect rot w h (li_size l) = Some r" "pixels r = turn rot w h ` pixels (li_size l)" "rect_in 16384 r"
    using rotate_rect_pixels[OF assms] by blast
  then show ?thesis using t
    by (intro exI[of _ r] exI[of _ "rotate_transform k rot t"]) (simp add: rotate_layer_def)
next
  case False
  have same: "rotate_layer k rot w h l = Some (l\<lparr>li_size := li_size l, li_transform := li_transform l\<rparr>)"
    using False by (auto simp: rotate_layer_def split: option.split)
  then show ?thesis using assms(1) False
    by (intro exI[of _ "li_size l"] exI[of _ "li_transform l"]) (auto simp: rect_in_def)
qed

section \<open>Cropping\<close>

text \<open>The crop of a buffer of \<open>w\<close> by \<open>h\<close>.\<close>

definition in_buffer :: "int \<Rightarrow> int \<Rightarrow> rect \<Rightarrow> bool" where
  "in_buffer w h r \<longleftrightarrow> 0 \<le> rx r \<and> 0 \<le> ry r \<and> 0 \<le> rw r \<and> 0 \<le> rh r \<and> rx r + rw r \<le> w \<and> ry r + rh r \<le> h"

lemma div_le_dividend_int: "0 \<le> (x::int) \<Longrightarrow> 0 < n \<Longrightarrow> x div n \<le> x"
  using zdiv_mono2[of x 1 n] by simp

text \<open>One side of \<open>CalculateSrcRect\<close>: \<open>a\<close> pixels are cut off, \<open>b\<close> of \<open>n\<close> are left, of \<open>s\<close> in the buffer.\<close>

lemma scaled_side:
  fixes a b n s :: int
  assumes "0 \<le> a" "0 \<le> b" "a + b \<le> n" "0 < n" "n \<le> 16384" "0 \<le> s" "s \<le> 16384"
  shows "i32_mul a s = Some (a * s)" "i32_mul s b = Some (s * b)" "i32_div (a * s) n = Some (a * s div n)" "i32_div (s * b) n = Some (s * b div n)"
    "0 \<le> a * s div n" "0 \<le> s * b div n" "a * s div n + s * b div n \<le> s"
proof -
  have "a * s \<le> 16384 * 16384" "s * b \<le> 16384 * 16384" by (rule mult_mono; use assms in simp)+
  moreover have p: "0 \<le> a * s" "0 \<le> s * b" using assms by simp_all
  ultimately show m: "i32_mul a s = Some (a * s)" "i32_mul s b = Some (s * b)" by (simp_all add: i32_mul_def i32_Some)
  have q: "0 \<le> a * s div n" "0 \<le> s * b div n" "a * s div n \<le> a * s" "s * b div n \<le> s * b"
    using p assms(4) div_le_dividend_int by (simp_all add: pos_imp_zdiv_nonneg_iff)
  then show "0 \<le> a * s div n" "0 \<le> s * b div n" by simp_all
  show "i32_div (a * s) n = Some (a * s div n)" "i32_div (s * b) n = Some (s * b div n)"
    using p q assms(4) \<open>a * s \<le> 16384 * 16384\<close> \<open>s * b \<le> 16384 * 16384\<close> by (simp_all add: i32_div_def cdiv_nonneg i32_Some)
  have "a * s div n + s * b div n \<le> (a * s + s * b) div n"
    using assms(4) by (simp add: div_add1_eq[of "a * s" "s * b" n] pos_imp_zdiv_nonneg_iff)
  also have "\<dots> = (a + b) * s div n" by (simp add: algebra_simps)
  also have "\<dots> \<le> n * s div n" using assms by (intro zdiv_mono1) (auto intro: mult_right_mono)
  also have "\<dots> = s" using assms(4) by simp
  finally show "a * s div n + s * b div n \<le> s" .
qed

lemma CalculateSrcRect_inside:
  assumes o: "rect_in 16384 origin" and c: "clip = RectI0 \<or> \<not> rt_IsEmpty clip \<and> rx origin \<le> rx clip \<and> ry origin \<le> ry clip \<and>
      rx clip + rw clip \<le> rx origin + rw origin \<and> ry clip + rh clip \<le> ry origin + rh origin"
    and s: "0 \<le> rw src" "rw src \<le> 16384" "0 \<le> rh src" "rh src \<le> 16384"
  shows "\<exists>r. CalculateSrcRect src clip origin = Some r \<and> in_buffer (rw src) (rh src) r"
  using c
proof
  assume c0: "clip = RectI0"
  then have e: "rt_IsEmpty clip" "rw clip = 0" "rh clip = 0" by (simp_all add: RectI0_def rt_IsEmpty_def)
  show ?thesis
  proof (cases "rt_IsEmpty origin")
    case True
    then show ?thesis using e s by (simp add: CalculateSrcRect_def in_buffer_def)
  next
    case False
    then have n: "0 < rw origin" "0 < rh origin" by (simp_all add: rt_IsEmpty_def)
    have d0: "i32_mul x 0 = Some 0" "i32_div 0 (rw origin) = Some 0" "i32_div 0 (rh origin) = Some 0" for x
      using n by (simp_all add: i32_mul_def i32_div_def cdiv_def i32_Some)
    show ?thesis using e False s by (simp add: CalculateSrcRect_def in_buffer_def d0)
  qed
next
  assume c1: "\<not> rt_IsEmpty clip \<and> rx origin \<le> rx clip \<and> ry origin \<le> ry clip \<and>
      rx clip + rw clip \<le> rx origin + rw origin \<and> ry clip + rh clip \<le> ry origin + rh origin"
  then have p: "0 < rw clip" "0 < rh clip" by (simp_all add: rt_IsEmpty_def)
  have ne: "\<not> rt_IsEmpty origin" "0 < rw origin" "0 < rh origin" using p c1 by (auto simp: rt_IsEmpty_def)
  let ?a = "rx clip - rx origin" and ?b = "ry clip - ry origin"
  have h: "0 \<le> ?a" "0 \<le> rw clip" "?a + rw clip \<le> rw origin" "rw origin \<le> 16384" and v: "0 \<le> ?b" "0 \<le> rh clip" "?b + rh clip \<le> rh origin" "rh origin \<le> 16384"
    using c1 p o by (simp_all add: rect_in_def)
  have sb: "i32_sub (rx clip) (rx origin) = Some ?a" "i32_sub (ry clip) (ry origin) = Some ?b"
    unfolding i32_sub_def by (rule i32_in; use h v p in linarith)+
  note H = scaled_side[OF h(1-3) ne(2) h(4) s(1,2)] and V = scaled_side[OF v(1-3) ne(3) v(4) s(3,4)]
  show ?thesis using c1 ne(1) H V by (simp add: CalculateSrcRect_def sb in_buffer_def)
qed

definition screen_rect :: "int \<Rightarrow> int \<Rightarrow> rect" where "screen_rect w h = \<lparr>rx = 0, ry = 0, rw = w, rh = h\<rparr>"

lemma crop_layer_fits:
  assumes l: "rect_in 16384 (li_size l)" and c: "in_buffer 16384 16384 (li_crop l)" and s: "0 \<le> w" "w \<le> 16384" "0 \<le> h" "h \<le> 16384"
  shows "\<exists>r src. crop_layer w h l = Some (if r = li_size l then l else l\<lparr>li_size := r, li_dirty := src, li_crop := src\<rparr>) \<and>
    pixels r = pixels (li_size l) \<inter> pixels (screen_rect w h) \<and> rect_in 16384 r \<and>
    in_buffer (rw (li_crop l)) (rh (li_crop l)) src"
proof -
  have sc: "rect_in 16384 (screen_rect w h)" using s by (simp add: rect_in_def screen_rect_def)
  obtain r where r: "rt_IntersectRect (li_size l) (screen_rect w h) = Some r" "pixels r = pixels (li_size l) \<inter> pixels (screen_rect w h)"
    and in1: "r = RectI0 \<or> \<not> rt_IsEmpty r \<and> rx (li_size l) \<le> rx r \<and> ry (li_size l) \<le> ry r \<and> rx r + rw r \<le> rx (li_size l) + rw (li_size l) \<and>
      ry r + rh r \<le> ry (li_size l) + rh (li_size l)"
    and in2: "r = RectI0 \<or> 0 \<le> rx r \<and> 0 \<le> ry r \<and> rx r + rw r \<le> w \<and> ry r + rh r \<le> h \<and> \<not> rt_IsEmpty r"
    using IntersectRect_small[OF l sc] by (auto simp: screen_rect_def)
  have q: "0 \<le> rw (li_crop l)" "rw (li_crop l) \<le> 16384" "0 \<le> rh (li_crop l)" "rh (li_crop l) \<le> 16384"
    using c by (simp_all add: in_buffer_def)
  obtain src where src: "CalculateSrcRect (li_crop l) r (li_size l) = Some src" "in_buffer (rw (li_crop l)) (rh (li_crop l)) src"
    using CalculateSrcRect_inside[OF l in1 q] by blast
  have "rect_in 16384 r"
    using in2
  proof
    assume "0 \<le> rx r \<and> 0 \<le> ry r \<and> rx r + rw r \<le> w \<and> ry r + rh r \<le> h \<and> \<not> rt_IsEmpty r"
    then show ?thesis using s by (auto simp: rect_in_def rt_IsEmpty_def)
  qed (simp add: RectI0_def rect_in_def)
  moreover have "crop_layer w h l = Some (if r = li_size l then l else l\<lparr>li_size := r, li_dirty := src, li_crop := src\<rparr>)"
    using r(1) src(1) by (simp add: crop_layer_def screen_rect_def Let_def)
  ultimately show ?thesis using r(2) src(2) by blast
qed

section \<open>The shape of the crop\<close>

lemma uint_w32: "0 \<le> a \<Longrightarrow> a < 4294967296 \<Longrightarrow> uint (word_of_int a :: 32 word) = a"
  by (simp add: unsigned_of_int take_bit_int_eq_self)

lemma sint_w32: "- 2147483648 \<le> a \<Longrightarrow> a < 2147483648 \<Longrightarrow> sint (word_of_int a :: 32 word) = a"
  by (simp add: signed_of_int signed_take_bit_int_eq_self)

lemma less_w32: "0 \<le> a \<Longrightarrow> a < 4294967296 \<Longrightarrow> 0 \<le> b \<Longrightarrow> b < 4294967296 \<Longrightarrow> (word_of_int a :: 32 word) < word_of_int b \<longleftrightarrow> a < b"
  by (simp add: word_less_def uint_w32)

lemma div_w32:
  assumes "0 \<le> a" "a < 4294967296" "0 < b" "b < 4294967296"
  shows "(word_of_int a :: 32 word) div word_of_int b = word_of_int (a div b)"
proof (rule word_uint_eqI)
  have "0 \<le> a div b" "a div b \<le> a" using assms div_le_dividend_int by (simp_all add: pos_imp_zdiv_nonneg_iff)
  then show "uint ((word_of_int a :: 32 word) div word_of_int b) = uint (word_of_int (a div b) :: 32 word)"
    using assms by (simp add: uint_div uint_w32)
qed

text \<open>Half of what is cut off, and where the crop begins then.\<close>

lemma half_w32:
  assumes "0 \<le> x" "0 \<le> n" "n \<le> w" "x + w \<le> 16384"
  shows "sint (word_of_int x + (word_of_int w - word_of_int n) div 2 :: 32 word) = x + (w - n) div 2"
proof -
  have two: "(2 :: 32 word) = word_of_int 2" by simp
  have h: "(word_of_int w - word_of_int n) div 2 = (word_of_int ((w - n) div 2) :: 32 word)"
    unfolding two wi_hom_sub by (rule div_w32) (use assms in simp_all)
  show ?thesis unfolding h wi_hom_add by (rule sint_w32) (use assms in linarith)+
qed

lemma shrink_width:
  assumes "0 \<le> rx src" "0 \<le> nw" "nw < rw src" "rx src + rw src \<le> 16384"
  shows "shrink_crop src (word_of_int nw) h = src\<lparr>rx := rx src + (rw src - nw) div 2, rw := nw\<rparr>"
proof -
  have lt: "(word_of_int nw :: 32 word) < word_of_int (rw src)" using assms by (simp add: less_w32)
  have n: "sint (word_of_int nw :: 32 word) = nw" by (rule sint_w32) (use assms in simp_all)
  have h: "sint (word_of_int (rx src) + (word_of_int (rw src) - word_of_int nw) div 2 :: 32 word) = rx src + (rw src - nw) div 2"
    by (rule half_w32) (use assms in simp_all)
  show ?thesis unfolding shrink_crop_def Let_def if_P[OF lt] h n ..
qed

lemma shrink_height:
  assumes "0 \<le> ry src" "0 \<le> nh" "nh \<le> rh src" "ry src + rh src \<le> 16384"
  shows "shrink_crop src (word_of_int (rw src)) (word_of_int nh) = src\<lparr>ry := ry src + (rh src - nh) div 2, rh := nh\<rparr>"
proof -
  have lt: "\<not> (word_of_int (rw src) :: 32 word) < word_of_int (rw src)" by simp
  have n: "sint (word_of_int nh :: 32 word) = nh" by (rule sint_w32) (use assms in simp_all)
  have h: "sint (word_of_int (ry src) + (word_of_int (rh src) - word_of_int nh) div 2 :: 32 word) = ry src + (rh src - nh) div 2"
    by (rule half_w32) (use assms in simp_all)
  show ?thesis unfolding shrink_crop_def Let_def if_not_P[OF lt] h n ..
qed

text \<open>\<open>s\<close> lies in \<open>r\<close>, in its middle.\<close>

definition crop_within :: "rect \<Rightarrow> rect \<Rightarrow> bool" where
  "crop_within s r \<longleftrightarrow> rx r \<le> rx s \<and> ry r \<le> ry s \<and> 0 \<le> rw s \<and> 0 \<le> rh s \<and> rx s + rw s \<le> rx r + rw r \<and> ry s + rh s \<le> ry r + rh r"

text \<open>Up to one pixel, \<open>s\<close> has the proportions of \<open>d\<close>.\<close>

definition same_shape :: "rect \<Rightarrow> rect \<Rightarrow> bool" where
  "same_shape s d \<longleftrightarrow> rw s * rh d = rh s * rw d \<or> rw s * rh d \<le> rh s * rw d \<and> rh s * rw d < (rw s + 1) * rh d \<or>
     rh s * rw d \<le> rw s * rh d \<and> rw s * rh d < (rh s + 1) * rw d"

lemma quotient_bounds: "0 < (n::int) \<Longrightarrow> (x div n) * n \<le> x \<and> x < (x div n + 1) * n"
proof -
  assume n: "0 < n"
  have "x div n * n + x mod n = x" by (rule div_mult_mod_eq)
  moreover have "0 \<le> x mod n" "x mod n < n" using n by simp_all
  ultimately show ?thesis by (simp only: distrib_right mult_1) linarith
qed

lemma quotient_less: "0 < (n::int) \<Longrightarrow> x < w * n \<Longrightarrow> x div n < w"
  using quotient_bounds[of n x] mult_less_cancel_right_pos[of n "x div n" w] by linarith

lemma scale_down_shape:
  assumes b: "li_buffer l = Some bf" and c: "in_buffer 16384 16384 (li_crop l)" and d: "rect_in 16384 (li_size l)"
  shows "\<exists>s t. scale_down_layer bufs l = Some (l\<lparr>li_dirty := t, li_crop := s\<rparr>) \<and> crop_within s (li_crop l) \<and>
    (ba_scaling (bufs bf) = 2 \<longrightarrow> same_shape s (li_size l))"
proof (cases "ba_scaling (bufs bf) = 2")
  case False
  then show ?thesis using b c
    by (intro exI[of _ "li_crop l"] exI[of _ "li_dirty l"]) (simp add: scale_down_layer_def crop_within_def in_buffer_def)
next
  case True
  let ?w = "rw (li_crop l)" and ?h = "rh (li_crop l)" and ?dw = "rw (li_size l)" and ?dh = "rh (li_size l)"
  have r: "0 \<le> ?w" "?w \<le> 16384" "0 \<le> ?h" "?h \<le> 16384" "0 \<le> ?dw" "?dw \<le> 16384" "0 \<le> ?dh" "?dh \<le> 16384"
      "0 \<le> rx (li_crop l)" "rx (li_crop l) + ?w \<le> 16384" "0 \<le> ry (li_crop l)" "ry (li_crop l) + ?h \<le> 16384"
    using c d by (simp_all add: in_buffer_def rect_in_def)
  have bound: "0 \<le> x * y \<and> x * y < 4294967296" if "0 \<le> x" "x \<le> 16384" "0 \<le> y" "y \<le> 16384" for x y :: int
  proof -
    have "x * y \<le> 16384 * 16384" by (rule mult_mono) (use that in simp_all)
    then show ?thesis using that by simp
  qed
  have cmp: "(word_of_int ?h * word_of_int ?dw < (word_of_int ?w * word_of_int ?dh :: 32 word)) = (?h * ?dw < ?w * ?dh)"
      "(word_of_int ?w * word_of_int ?dh < (word_of_int ?h * word_of_int ?dw :: 32 word)) = (?w * ?dh < ?h * ?dw)"
    unfolding wi_hom_mult by (rule less_w32; use bound[OF r(1,2,7,8)] bound[OF r(3,4,5,6)] in blast)+
  define put where "put s = l\<lparr>li_dirty := s, li_crop := s\<rparr>" for s
  have sd: "scale_down_layer bufs l =
      (if ?h * ?dw < ?w * ?dh then map_option (\<lambda>w. put (shrink_crop (li_crop l) w (word_of_int ?h))) (word_div (word_of_int ?dw * word_of_int ?h) (word_of_int ?dh))
       else if ?w * ?dh < ?h * ?dw then map_option (\<lambda>h. put (shrink_crop (li_crop l) (word_of_int ?w) h)) (word_div (word_of_int ?dh * word_of_int ?w) (word_of_int ?dw))
       else Some l)"
    using b True by (simp add: scale_down_layer_def Let_def cmp put_def)
  have wd: "word_div (word_of_int x * word_of_int y) (word_of_int n) = Some (word_of_int (x * y div n))"
    if "0 \<le> x" "x \<le> 16384" "0 \<le> y" "y \<le> 16384" "0 < n" "n \<le> 16384" for x y n
  proof -
    have "(word_of_int n :: 32 word) \<noteq> 0" using uint_w32[of n] that by auto
    moreover have "(word_of_int (x * y) :: 32 word) div word_of_int n = word_of_int (x * y div n)"
      by (rule div_w32) (use bound[OF that(1-4)] that in simp_all)
    ultimately show ?thesis unfolding word_div_def wi_hom_mult by simp
  qed
  consider "?h * ?dw < ?w * ?dh" | "\<not> ?h * ?dw < ?w * ?dh" "?w * ?dh < ?h * ?dw" | "?w * ?dh = ?h * ?dw" by linarith
  then show ?thesis
  proof cases
    case 1
    have n: "0 < ?dh" using 1 r bound[OF r(3,4,5,6)] by (cases "?dh = 0") auto
    let ?n = "?dw * ?h div ?dh"
    have q: "?n * ?dh \<le> ?h * ?dw" "?h * ?dw < (?n + 1) * ?dh" "?n < ?w" "0 \<le> ?n"
      using quotient_bounds[OF n, of "?dw * ?h"] quotient_less[OF n, of "?dw * ?h" ?w] 1 r n by (simp_all add: mult.commute pos_imp_zdiv_nonneg_iff)
    have "scale_down_layer bufs l = Some (put ((li_crop l)\<lparr>rx := rx (li_crop l) + (?w - ?n) div 2, rw := ?n\<rparr>))"
      using 1 wd[OF r(5,6,3,4) n r(8)] shrink_width[of "li_crop l" ?n] q r by (simp add: sd)
    moreover have "crop_within ((li_crop l)\<lparr>rx := rx (li_crop l) + (?w - ?n) div 2, rw := ?n\<rparr>) (li_crop l)"
      using q r by (simp add: crop_within_def)
    moreover have "same_shape ((li_crop l)\<lparr>rx := rx (li_crop l) + (?w - ?n) div 2, rw := ?n\<rparr>) (li_size l)"
      using q(1,2) by (simp add: same_shape_def)
    ultimately show ?thesis unfolding put_def by blast
  next
    case 2
    have n: "0 < ?dw" using 2 r bound[OF r(1,2,7,8)] by (cases "?dw = 0") auto
    let ?n = "?dh * ?w div ?dw"
    have q: "?n * ?dw \<le> ?w * ?dh" "?w * ?dh < (?n + 1) * ?dw" "?n < ?h" "0 \<le> ?n"
      using quotient_bounds[OF n, of "?dh * ?w"] quotient_less[OF n, of "?dh * ?w" ?h] 2 r n by (simp_all add: mult.commute pos_imp_zdiv_nonneg_iff)
    have "scale_down_layer bufs l = Some (put ((li_crop l)\<lparr>ry := ry (li_crop l) + (?h - ?n) div 2, rh := ?n\<rparr>))"
      using 2 wd[OF r(7,8,1,2) n r(6)] shrink_height[of "li_crop l" ?n] q r by (simp add: sd)
    moreover have "crop_within ((li_crop l)\<lparr>ry := ry (li_crop l) + (?h - ?n) div 2, rh := ?n\<rparr>) (li_crop l)"
      using q r by (simp add: crop_within_def)
    moreover have "same_shape ((li_crop l)\<lparr>ry := ry (li_crop l) + (?h - ?n) div 2, rh := ?n\<rparr>) (li_size l)"
      using q(1,2) by (simp add: same_shape_def)
    ultimately show ?thesis unfolding put_def by blast
  next
    case 3
    then have "scale_down_layer bufs l = Some (l\<lparr>li_dirty := li_dirty l, li_crop := li_crop l\<rparr>)" by (simp add: sd)
    moreover have "crop_within (li_crop l) (li_crop l)" using r by (simp add: crop_within_def)
    moreover have "same_shape (li_crop l) (li_size l)" using 3 by (simp add: same_shape_def)
    ultimately show ?thesis by blast
  qed
qed

section \<open>The layers of a frame\<close>

lemma map_layers_all2:
  "(\<And>l. l \<in> set ls \<Longrightarrow> \<exists>m. f l = Some m \<and> R l m) \<Longrightarrow> \<exists>ms. map_layers f ls = Some ms \<and> list_all2 R ls ms"
proof (induction ls)
  case (Cons l ls)
  obtain m ms where "f l = Some m" "R l m" "map_layers f ls = Some ms" "list_all2 R ls ms" using Cons by fastforce
  then show ?case by simp
qed simp

lemma all2_from: "list_all2 R ls ms \<Longrightarrow> m \<in> set ms \<Longrightarrow> \<exists>l \<in> set ls. R l m"
  by (induction rule: list_all2_induct) auto

lemma all2_chain:
  assumes "list_all2 P xs ys" and "list_all2 Q ys zs" and "\<And>x y z. P x y \<Longrightarrow> Q y z \<Longrightarrow> R x z"
  shows "list_all2 R xs zs"
  by (rule list_all2_trans[OF _ assms(1,2)]) (rule assms(3))

text \<open>A layer whose crop lies in its buffer, of the size of a screen.\<close>

definition layer_in :: "(nat \<Rightarrow> buffer_attr) \<Rightarrow> hw_layer \<Rightarrow> bool" where
  "layer_in bufs l \<longleftrightarrow> rect_in 4096 (li_size l) \<and>
     (\<exists>bf. li_buffer l = Some bf \<and> ba_width (bufs bf) \<le> 16384 \<and> ba_height (bufs bf) \<le> 16384 \<and>
        in_buffer (ba_width (bufs bf)) (ba_height (bufs bf)) (li_crop l))"

definition same_content :: "hw_layer \<Rightarrow> hw_layer \<Rightarrow> bool" where
  "same_content l m \<longleftrightarrow> li_surface m = li_surface l \<and> li_buffer m = li_buffer l \<and> li_acquire m = li_acquire l \<and>
     li_preBuffer m = li_preBuffer l \<and> li_preAcquire m = li_preAcquire l \<and> li_zorder m = li_zorder l"

definition turned_pixels :: "bool \<Rightarrow> hw_processor \<Rightarrow> hw_layer \<Rightarrow> (int \<times> int) set" where
  "turned_pixels uni p l =
     (case hw_node_transform l of
        Some (Some _) \<Rightarrow> if uni then pixels (li_size l) else turn (hp_rotation p) (sint (hp_width p)) (sint (hp_height p)) ` pixels (li_size l)
      | _ \<Rightarrow> pixels (li_size l))"

text \<open>
  What is handed to the output for a layer: the turned pixels that lie on the screen, a crop inside the buffer, of
  the shape of the layer where the scaling mode is to crop.
\<close>

definition layer_done :: "bool \<Rightarrow> (nat \<Rightarrow> buffer_attr) \<Rightarrow> hw_processor \<Rightarrow> hw_layer \<Rightarrow> hw_layer \<Rightarrow> bool" where
  "layer_done uni bufs p l m \<longleftrightarrow> same_content l m \<and>
     pixels (li_size m) = turned_pixels uni p l \<inter> pixels (screen_rect (sint (hp_width p)) (sint (hp_height p))) \<and>
     (\<exists>bf. li_buffer l = Some bf \<and> in_buffer (ba_width (bufs bf)) (ba_height (bufs bf)) (li_crop m) \<and>
        (if ba_scaling (bufs bf) = 2 then same_shape (li_crop m) (li_size m) else True))"

definition screen_in :: "hw_processor \<Rightarrow> bool" where
  "screen_in p \<longleftrightarrow> 0 \<le> sint (hp_width p) \<and> sint (hp_width p) \<le> 4096 \<and> 0 \<le> sint (hp_height p) \<and> sint (hp_height p) \<le> 4096"

lemma prepare_layers_done:
  assumes ls: "\<And>l. l \<in> set (hp_layers p) \<Longrightarrow> layer_in bufs l" and s: "screen_in p"
  shows "\<exists>ms. prepare_layers k uni bufs p = Some ms \<and> list_all2 (layer_done uni bufs p) (hp_layers p) ms"
proof -
  let ?w = "sint (hp_width p)" and ?h = "sint (hp_height p)"
  note s' = s[unfolded screen_in_def]
  have sw: "0 \<le> ?w" "?w \<le> 16384" "0 \<le> ?h" "?h \<le> 16384" using s' by simp_all
  define R1 where "R1 l m \<longleftrightarrow> layer_in bufs l \<and> same_content l m \<and> li_crop m = li_crop l \<and> rect_in 16384 (li_size m) \<and> pixels (li_size m) = turned_pixels uni p l" for l m
  define R2 where "R2 l m \<longleftrightarrow> (\<exists>l0. R1 l0 l) \<and> same_content l m \<and> rect_in 16384 (li_size m) \<and> pixels (li_size m) = pixels (li_size l) \<inter> pixels (screen_rect ?w ?h) \<and>
      (\<forall>W H. in_buffer W H (li_crop l) \<longrightarrow> in_buffer W H (li_crop m))" for l m
  define R3 where "R3 l m \<longleftrightarrow> same_content l m \<and> li_size m = li_size l \<and> crop_within (li_crop m) (li_crop l) \<and>
      (ba_scaling (bufs (the (li_buffer l))) = 2 \<longrightarrow> same_shape (li_crop m) (li_size l))" for l m
  have "\<exists>ms. OnRotate k uni p (hp_layers p) = Some ms \<and> list_all2 R1 (hp_layers p) ms"
  proof (cases uni)
    case True
    have "R1 l l" if "l \<in> set (hp_layers p)" for l
      using ls[OF that] True by (auto simp: R1_def same_content_def layer_in_def rect_in_def turned_pixels_def split: option.split)
    then show ?thesis using True by (simp add: OnRotate_def list.rel_refl_strong)
  next
    case False
    have "\<exists>m. rotate_layer k (hp_rotation p) ?w ?h l = Some m \<and> R1 l m" if "l \<in> set (hp_layers p)" for l
    proof -
      have l: "layer_in bufs l" "rect_in 4096 (li_size l)" using ls[OF that] by (simp_all add: layer_in_def)
      obtain r t where r: "rotate_layer k (hp_rotation p) ?w ?h l = Some (l\<lparr>li_size := r, li_transform := t\<rparr>)" "rect_in 16384 r"
          "hw_node_transform l \<noteq> None \<and> the (hw_node_transform l) \<noteq> None \<longrightarrow> pixels r = turn (hp_rotation p) ?w ?h ` pixels (li_size l)"
        using rotate_layer_turns[OF l(2), of ?w ?h k "hp_rotation p"] s' by blast
      show ?thesis
      proof (cases "hw_node_transform l \<noteq> None \<and> the (hw_node_transform l) \<noteq> None")
        case True
        then show ?thesis using r l(1) False by (auto simp: R1_def same_content_def turned_pixels_def)
      next
        case no: False
        then have "rotate_layer k (hp_rotation p) ?w ?h l = Some l" by (auto simp: rotate_layer_def split: option.split)
        then show ?thesis using l no by (auto simp: R1_def same_content_def turned_pixels_def rect_in_def split: option.split)
      qed
    qed
    then show ?thesis using map_layers_all2[of "hp_layers p" _ R1] False by (simp add: OnRotate_def)
  qed
  then obtain ms1 where m1: "OnRotate k uni p (hp_layers p) = Some ms1" "list_all2 R1 (hp_layers p) ms1" by blast
  have "\<exists>m. crop_layer ?w ?h l = Some m \<and> R2 l m" if mem: "l \<in> set ms1" for l
  proof -
    obtain l0 where l0: "R1 l0 l" using all2_from[OF m1(2) mem] by blast
    then have c: "in_buffer 16384 16384 (li_crop l)" "rect_in 16384 (li_size l)" by (auto simp: R1_def layer_in_def in_buffer_def)
    obtain r src where r: "crop_layer ?w ?h l = Some (if r = li_size l then l else l\<lparr>li_size := r, li_dirty := src, li_crop := src\<rparr>)"
        "pixels r = pixels (li_size l) \<inter> pixels (screen_rect ?w ?h)" "rect_in 16384 r" "in_buffer (rw (li_crop l)) (rh (li_crop l)) src"
      using crop_layer_fits[OF c(2,1) sw] by (elim exE conjE) (rule that; assumption)
    have "in_buffer W H src" if "in_buffer W H (li_crop l)" for W H
      using r(4) that by (auto simp: in_buffer_def)
    then show ?thesis using r l0 by (auto simp: R2_def same_content_def)
  qed
  then obtain ms2 where m2: "CropLayers p ms1 = Some ms2" "list_all2 R2 ms1 ms2" using map_layers_all2[of ms1 _ R2] by (auto simp: CropLayers_def)
  have "\<exists>m. scale_down_layer bufs l = Some m \<and> R3 l m" if mem: "l \<in> set ms2" for l
  proof -
    obtain l1 where l1: "R2 l1 l" using all2_from[OF m2(2) mem] by blast
    then obtain l0 where "R1 l0 l1" by (auto simp: R2_def)
    then obtain bf where "li_buffer l1 = Some bf" "in_buffer 16384 16384 (li_crop l1)" by (auto simp: R1_def layer_in_def same_content_def in_buffer_def)
    then have c: "li_buffer l = Some bf" "in_buffer 16384 16384 (li_crop l)" "rect_in 16384 (li_size l)" using l1 by (auto simp: R2_def same_content_def)
    show ?thesis using scale_down_shape[OF c, of bufs] c(1) by (auto simp: R3_def same_content_def)
  qed
  then obtain ms where m3: "ScaleDownLayers bufs ms2 = Some ms" "list_all2 R3 ms2 ms" using map_layers_all2[of ms2 _ R3] by (auto simp: ScaleDownLayers_def)
  have "layer_done uni bufs p l m" if rel: "R1 l l1" "R2 l1 l2" "R3 l2 m" for l l1 l2 m
  proof -
    obtain bf where bf: "li_buffer l = Some bf" "in_buffer (ba_width (bufs bf)) (ba_height (bufs bf)) (li_crop l)" using rel(1) by (auto simp: R1_def layer_in_def)
    have sc: "same_content l l1" "same_content l1 l2" "same_content l2 m" using rel by (auto simp: R1_def R2_def R3_def)
    then have "same_content l m" by (simp add: same_content_def)
    moreover have "li_buffer l2 = Some bf" using sc bf(1) by (simp add: same_content_def)
    moreover have "in_buffer (ba_width (bufs bf)) (ba_height (bufs bf)) (li_crop l2)" using rel(1,2) bf(2) by (simp add: R1_def R2_def)
    then have "in_buffer (ba_width (bufs bf)) (ba_height (bufs bf)) (li_crop m)" using rel(3) by (auto simp: R3_def crop_within_def in_buffer_def)
    moreover have "pixels (li_size m) = turned_pixels uni p l \<inter> pixels (screen_rect ?w ?h)" using rel by (simp add: R1_def R2_def R3_def)
    ultimately show ?thesis using rel(3) bf(1) by (auto simp: layer_done_def R3_def)
  qed
  note one = this
  have "list_all2 (layer_done uni bufs p) (hp_layers p) ms"
    by (rule all2_chain[OF m1(2) all2_chain[OF m2(2) m3(2), where R = "\<lambda>l1 m. \<exists>l2. R2 l1 l2 \<and> R3 l2 m"]]) (use one in blast)+
  then show ?thesis using m1(1) m2(1) m3(1) by (simp add: prepare_layers_def)
qed

section \<open>Layers of nodes\<close>

lemma handler_more [simp]:
  "handler.more (ReduceAvailableBuffer n) = handler.more n" "handler.more (sh_SetBuffer b n) = handler.more n"
  "handler.more (sh_SetFence f n) = handler.more n" "handler.more (sh_SetDamageRegion r n) = handler.more n"
  "sh_consumer (ReduceAvailableBuffer n) = sh_consumer n" "sh_consumer (sh_SetBuffer b n) = sh_consumer n"
  "sh_consumer (sh_SetFence f n) = sh_consumer n" "sh_consumer (sh_SetDamageRegion r n) = sh_consumer n"
  by (simp_all add: ReduceAvailableBuffer_def sh_SetBuffer_def sh_SetFence_def sh_SetDamageRegion_def)

lemma drop_more: "DropFrameProcess C n d = (n1, d1) \<Longrightarrow> handler.more n1 = handler.more n \<and> sh_consumer n1 = sh_consumer n"
  by (auto simp: DropFrameProcess_def Let_def split: option.splits prod.splits if_splits)

lemma consume_more:
  assumes "ConsumeAndUpdateBuffer C rel n d = Some (got, vs, n1, d1)"
  shows "handler.more n1 = handler.more n \<and> sh_consumer n1 = sh_consumer n"
proof -
  obtain m e where D: "DropFrameProcess C n d = (m, e)" by fastforce
  show ?thesis
    using assms drop_more[OF D] unfolding ConsumeAndUpdateBuffer_def D
    by (auto simp: Let_def bind_eq_Some_conv split: option.splits prod.splits if_splits)
qed

lemma place_of_more:
  fixes n m :: hw_node
  assumes "handler.more m = handler.more n"
  shows "nd_boundsX m = nd_boundsX n \<and> nd_boundsY m = nd_boundsY n \<and> nd_absRect m = nd_absRect n \<and> nd_dstRect m = nd_dstRect n \<and>
    nd_zorder m = nd_zorder n \<and> nd_gAlpha m = nd_gAlpha n \<and> nd_blend m = nd_blend n \<and> nd_needClient m = nd_needClient n \<and>
    nd_transform m = nd_transform n"
  using assms by (cases n; cases m) simp

lemmas consume_keeps_place = consume_more[THEN conjunct1, THEN place_of_more] consume_more[THEN conjunct2]

lemma told_keeps_place:
  "nd_dstRect (NotifyRTBufferAvailable n) = nd_dstRect n \<and> nd_zorder (NotifyRTBufferAvailable n) = nd_zorder n \<and>
   nd_gAlpha (NotifyRTBufferAvailable n) = nd_gAlpha n \<and> nd_blend (NotifyRTBufferAvailable n) = nd_blend n \<and>
   nd_needClient (NotifyRTBufferAvailable n) = nd_needClient n \<and> nd_transform (NotifyRTBufferAvailable n) = nd_transform n \<and>
   sh_consumer (NotifyRTBufferAvailable n) = sh_consumer n \<and> sh_buffer (NotifyRTBufferAvailable n) = sh_buffer n \<and>
   sh_preBuffer (NotifyRTBufferAvailable n) = sh_preBuffer n \<and> sh_fence (NotifyRTBufferAvailable n) = sh_fence n \<and>
   sh_preFence (NotifyRTBufferAvailable n) = sh_preFence n"
  by (simp add: NotifyRTBufferAvailable_def Let_def)

text \<open>Where a node lies: inside the rectangle of its contents, moved by the offset of the display.\<close>

definition node_rect :: "hw_processor \<Rightarrow> rect \<Rightarrow> rect" where
  "node_rect p ar = \<lparr>rx = rx ar - hp_offsetX p, ry = ry ar - hp_offsetY p, rw = rw ar, rh = rh ar\<rparr>"

definition placed :: "hw_processor \<Rightarrow> hw_node \<Rightarrow> bool" where
  "placed p n \<longleftrightarrow> (\<exists>ar. nd_absRect n = Some ar \<and> rect_in 16384 (node_rect p ar) \<and> \<not> rt_IsEmpty (nd_dstRect n) \<and>
     crop_within (nd_dstRect n) (node_rect p ar)) \<and> rect_in 4096 (nd_dstRect n) \<and>
     nd_boundsX n < fst (hw_bounds p) \<and> nd_boundsY n < snd (hw_bounds p)"

lemma ComposeSurface_fields:
  "li_surface (ComposeSurface k fresh info c client tr n) = c" "li_buffer (ComposeSurface k fresh info c client tr n) = sh_buffer n"
  "li_acquire (ComposeSurface k fresh info c client tr n) = sh_fence n" "li_preBuffer (ComposeSurface k fresh info c client tr n) = sh_preBuffer n"
  "li_preAcquire (ComposeSurface k fresh info c client tr n) = sh_preFence n" "li_size (ComposeSurface k fresh info c client tr n) = ci_dst info"
  "li_crop (ComposeSurface k fresh info c client tr n) = ci_src info" "hw_node_transform (ComposeSurface k fresh info c client tr n) = Some (Some tr)"
  by (simp_all add: ComposeSurface_def Let_def layer_info.extend_def node_layer_info_def li_SetBuffer_def li_SetZorder_def)

lemma ProcessSurface_layer:
  assumes got: "ConsumeAndUpdateBuffer C False n d = Some (True, vs, n1, d1)" and b: "sh_buffer n1 = Some bf" and c: "sh_consumer n = Some c"
    and p: "hp_output p = Some a" "placed p n"
    and attr: "0 \<le> ba_width (bufs bf)" "ba_width (bufs bf) \<le> 16384" "0 \<le> ba_height (bufs bf)" "ba_height (bufs bf) \<le> 16384"
  shows "\<exists>l n2. hw_ProcessSurface C k bufs fresh p n d = Some (p\<lparr>hp_layers := hp_layers p @ [l]\<rparr>, n2, d1) \<and> layer_in bufs l \<and>
    li_surface l = c \<and> li_size l = nd_dstRect n \<and> li_buffer l = Some bf \<and> li_acquire l = sh_fence n1 \<and> li_preBuffer l = sh_preBuffer n1 \<and>
    li_preAcquire l = sh_preFence n1 \<and> hw_node_transform l = Some (Some (nd_transform n)) \<and>
    n2 = (if \<not> isNotifyRTBufferAvailable n1 then NotifyRTBufferAvailable n1 else n1)"
proof -
  note K = consume_keeps_place[OF got]
  obtain ar where ar: "nd_absRect n = Some ar" "rect_in 16384 (node_rect p ar)" "\<not> rt_IsEmpty (nd_dstRect n)" "crop_within (nd_dstRect n) (node_rect p ar)"
    using p(2) unfolding placed_def by blast
  have dst: "rect_in 4096 (nd_dstRect n)" "nd_boundsX n < fst (hw_bounds p)" "nd_boundsY n < snd (hw_bounds p)" using p(2) by (auto simp: placed_def)
  define n2 where "n2 = (if \<not> isNotifyRTBufferAvailable n1 then NotifyRTBufferAvailable n1 else n1)"
  have n2: "nd_dstRect n2 = nd_dstRect n" "sh_consumer n2 = Some c" "sh_buffer n2 = Some bf" "sh_preBuffer n2 = sh_preBuffer n1" "sh_fence n2 = sh_fence n1"
      "sh_preFence n2 = sh_preFence n1" "nd_transform n2 = nd_transform n"
    using K b c told_keeps_place[of n1] by (simp_all add: n2_def)
  let ?buf = "\<lparr>rx = 0, ry = 0, rw = ba_width (bufs bf), rh = ba_height (bufs bf)\<rparr>"
  obtain src where src: "CalculateSrcRect ?buf (nd_dstRect n) (node_rect p ar) = Some src" "in_buffer (ba_width (bufs bf)) (ba_height (bufs bf)) src"
    using CalculateSrcRect_inside[OF ar(2), of "nd_dstRect n" ?buf] ar(3,4) attr by (auto simp: crop_within_def)
  have off: "i32_sub (rx ar) (hp_offsetX p) = Some (rx ar - hp_offsetX p)" "i32_sub (ry ar) (hp_offsetY p) = Some (ry ar - hp_offsetY p)"
    unfolding i32_sub_def by (rule i32_in; use ar(2)[unfolded rect_in_def node_rect_def, simplified] in linarith)+
  let ?info = "\<lparr>ci_src = src, ci_dst = nd_dstRect n, ci_visible = \<lparr>rx = 0, ry = 0, rw = sint (hp_width p), rh = sint (hp_height p)\<rparr>,
     ci_zorder = nd_zorder n2, ci_alpha = \<lparr>enGlobalAlpha = True, enPixelAlpha = False, alpha0 = 0, alpha1 = 0, gAlpha = nd_gAlpha n2\<rparr>, ci_blend = nd_blend n2\<rparr>"
  let ?l0 = "ComposeSurface k fresh ?info c (nd_needClient n2) (nd_transform n2) n2"
  define l where "l = (if ba_gamut (bufs bf) \<noteq> hp_gamut p then ?l0\<lparr>li_composition := COMP_CLIENT k\<rparr> else ?l0)"
  have "hw_ProcessSurface C k bufs fresh p n d = Some (p\<lparr>hp_layers := hp_layers p @ [l]\<rparr>, n2, d1)"
    using got K p(1) dst(2,3) ar(1,3) n2 off src(1)
    by (simp add: hw_ProcessSurface_def n2_def[symmetric] Let_def rt_IsEmpty_def node_rect_def l_def not_le)
  moreover have "layer_in bufs l" using src(2) dst(1) attr n2(3) by (simp add: layer_in_def l_def ComposeSurface_fields)
  moreover have "li_surface l = c" "li_size l = nd_dstRect n" "li_buffer l = Some bf" "li_acquire l = sh_fence n1" "li_preBuffer l = sh_preBuffer n1"
      "li_preAcquire l = sh_preFence n1" "hw_node_transform l = Some (Some (nd_transform n))"
    using n2 by (simp_all add: l_def ComposeSurface_fields)
  ultimately show ?thesis unfolding n2_def[symmetric] by blast
qed

section \<open>Properties\<close>

text \<open>
  C17. Turning the layers with the screen: the pixels of the turned layer are the turned pixels of the layer, and the
  transform given to the driver undoes the buffer's transform and the rotation of the screen, in quarter turns.
\<close>

theorem turned_layer:
  assumes "rect_in 4096 (li_size l)" and "0 \<le> w" "w \<le> 4096" "0 \<le> h" "h \<le> 4096" and "hw_node_transform l = Some (Some t)" and "distinct_transforms k"
  shows "\<exists>m. rotate_layer k rot w h l = Some m \<and> pixels (li_size m) = turn rot w h ` pixels (li_size l) \<and> same_content l m \<and>
    (transform_quarters k (li_transform m) + transform_quarters k t + rotation_quarters rot) mod 4 = 0"
proof -
  obtain r t' where r: "rotate_layer k rot w h l = Some (l\<lparr>li_size := r, li_transform := t'\<rparr>)" "pixels r = turn rot w h ` pixels (li_size l)"
      "t' = rotate_transform k rot t"
    using rotate_layer_turns[OF assms(1-5), of k rot] assms(6) by auto
  then show ?thesis using rotate_transform_quarters[OF assms(7), of rot t] by (simp add: same_content_def)
qed

definition demo_consts :: hw_consts where
  "demo_consts = \<lparr>T_NONE = 0, T_90 = 1, T_180 = 2, T_270 = 3, T_BUTT = 4, COMP_CLIENT = 0, COMP_DEVICE = 1, HW_BLEND_NONE = 0\<rparr>"

definition demo_attr :: "nat \<Rightarrow> buffer_attr" where
  "demo_attr b = \<lparr>ba_width = 720, ba_height = 1280, ba_scaling = 2, ba_gamut = 0\<rparr>"

definition hw_demo_layer :: "64 word \<Rightarrow> hw_layer" where
  "hw_demo_layer s = layer_info.extend (some_layer s) \<lparr>hw_node_transform = Some (Some 1)\<rparr>"

lemma hw_demo_fields:
  "li_size (hw_demo_layer s) = some_rect" "li_crop (hw_demo_layer s) = some_rect" "li_buffer (hw_demo_layer s) = Some 7"
  "li_surface (hw_demo_layer s) = s" "hw_node_transform (hw_demo_layer s) = Some (Some 1)" "layer_info.truncate (hw_demo_layer s) = some_layer s"
  by (simp_all add: hw_demo_layer_def some_layer_def layer_info.defs)

lemma turned_layer_witness:
  "\<exists>m. rotate_layer demo_consts ROTATION_90 1280 720 (hw_demo_layer 1) = Some m \<and> (0, 719) \<in> pixels (li_size m)"
proof -
  have "rect_in 4096 (li_size (hw_demo_layer 1))" "distinct_transforms demo_consts"
    by (simp_all add: hw_demo_fields some_rect_def rect_in_def distinct_transforms_def demo_consts_def)
  from turned_layer[OF this(1) _ _ _ _ hw_demo_fields(5) this(2), of 1280 720 ROTATION_90]
  obtain m where m: "rotate_layer demo_consts ROTATION_90 1280 720 (hw_demo_layer 1) = Some m"
      "pixels (li_size m) = turn ROTATION_90 1280 720 ` pixels (li_size (hw_demo_layer 1))" by auto
  have "(0, 0) \<in> pixels (li_size (hw_demo_layer 1))" by (simp add: hw_demo_fields some_rect_def pixels_def)
  then have "turn ROTATION_90 1280 720 (0, 0) \<in> pixels (li_size m)" unfolding m(2) by (rule imageI)
  then show ?thesis using m(1) by simp
qed


definition demo_hw :: hw_processor where
  "demo_hw = \<lparr>hp_offsetX = 0, hp_offsetY = 0, hp_rotation = ROTATION_90, hp_width = 1280, hp_height = 720, hp_gamut = 0, hp_output = Some 0,
     hp_layers = [hw_demo_layer 1, hw_demo_layer 2]\<rparr>"

lemma demo_hw_ok:
  "hp_output demo_hw = Some 0" "screen_in demo_hw" "\<forall>l \<in> set (hp_layers demo_hw). layer_in demo_attr l \<and> info_full (layer_info.truncate l)"
  "distinct (map li_surface (hp_layers demo_hw))" "hp_layers demo_hw = [hw_demo_layer 1, hw_demo_layer 2]"
proof -
  have "layer_in demo_attr (hw_demo_layer s) \<and> info_full (layer_info.truncate (hw_demo_layer s))" for s
    by (simp add: layer_in_def hw_demo_fields demo_attr_def some_rect_def rect_in_def in_buffer_def info_full_def) (simp add: some_layer_def)
  then show "\<forall>l \<in> set (hp_layers demo_hw). layer_in demo_attr l \<and> info_full (layer_info.truncate l)" by (auto simp: demo_hw_def)
  show "hp_output demo_hw = Some 0" "screen_in demo_hw" "distinct (map li_surface (hp_layers demo_hw))" "hp_layers demo_hw = [hw_demo_layer 1, hw_demo_layer 2]"
    by (simp_all add: demo_hw_def screen_in_def hw_demo_fields)
qed


section \<open>What cropping forgets\<close>

text \<open>
  \<open>CropLayers\<close> computes the crop from its size alone: where the crop began, which \<open>CalculateSrcRect\<close> has put there
  for a node that is cut off by its parent, is overwritten.
\<close>

lemma crop_forgets_where_it_began:
  assumes "li_size m = li_size l" and "rw (li_crop m) = rw (li_crop l)" and "rh (li_crop m) = rh (li_crop l)"
    and "crop_layer w h l = Some l2" and "li_size l2 \<noteq> li_size l" and "crop_layer w h m = Some m2"
  shows "li_crop m2 = li_crop l2"
proof -
  have "CalculateSrcRect (li_crop m) r q = CalculateSrcRect (li_crop l) r q" for r q
    using assms(2,3) by (simp add: CalculateSrcRect_def)
  then show ?thesis using assms by (auto simp: crop_layer_def Let_def bind_eq_Some_conv split: if_splits)
qed

end
