(* ===== verification/Node_Buffers.thy ===== *)
theory Node_Buffers
  imports Surface_Handler Consumer_Surface Buffer_Queue_Fifo
begin

text \<open>
  A node of the render service over the surface it consumes: the consumer's end of \<open>ConsumerSurface\<close> keeps the
  contract \<open>consumer_end\<close>, so a node shown frame after frame holds one buffer of the queue, while the
  producer goes on requesting, cancelling and flushing.
\<close>

section \<open>The buffers held\<close>

definition queue_held :: "buffer_queue \<Rightarrow> nat set" where
  "queue_held q = {r. \<exists>s e. map_of (bufferQueueCache q) s = Some e \<and> ebuffer e = Some r \<and> estate e = BUFFER_STATE_ACQUIRED}"

lemma queue_heldI: "map_of (bufferQueueCache q) s = Some e \<Longrightarrow> ebuffer e = Some r \<Longrightarrow> estate e = BUFFER_STATE_ACQUIRED \<Longrightarrow> r \<in> queue_held q"
  unfolding queue_held_def by blast

lemma entry_unique:
  assumes "bq_inv q" and "map_of (bufferQueueCache q) s = Some e" and "map_of (bufferQueueCache q) t = Some f" and "ebuffer e = ebuffer f"
  shows "s = t"
proof -
  obtain r where "ebuffer e = Some r" "sequenceNumber (objs q ! r) = s" using inv_entry[OF assms(1,2)] by metis
  moreover obtain r' where "ebuffer f = Some r'" "sequenceNumber (objs q ! r') = t" using inv_entry[OF assms(1,3)] by metis
  ultimately show ?thesis using assms(4) by simp
qed

text \<open>A change of one entry that neither was nor becomes acquired.\<close>

lemma held_unchanged:
  assumes "\<And>t. t \<noteq> s \<Longrightarrow> map_of (bufferQueueCache q') t = map_of (bufferQueueCache q) t"
    and "state_of q s \<noteq> Some BUFFER_STATE_ACQUIRED" and "state_of q' s \<noteq> Some BUFFER_STATE_ACQUIRED"
  shows "queue_held q' = queue_held q"
proof -
  have "r \<in> queue_held q' \<longleftrightarrow> r \<in> queue_held q" for r
  proof
    assume "r \<in> queue_held q'"
    then obtain t e where t: "map_of (bufferQueueCache q') t = Some e" "ebuffer e = Some r" "estate e = BUFFER_STATE_ACQUIRED"
      unfolding queue_held_def by blast
    then have "t \<noteq> s" using assms(3) by (auto simp: state_of_def)
    then show "r \<in> queue_held q" using t assms(1) queue_heldI by metis
  next
    assume "r \<in> queue_held q"
    then obtain t e where t: "map_of (bufferQueueCache q) t = Some e" "ebuffer e = Some r" "estate e = BUFFER_STATE_ACQUIRED"
      unfolding queue_held_def by blast
    then have "t \<noteq> s" using assms(2) by (auto simp: state_of_def)
    then show "r \<in> queue_held q'" using t assms(1) queue_heldI by metis
  qed
  then show ?thesis by blast
qed

lemma held_moves: "moves s a b q q' \<Longrightarrow> a \<noteq> Some BUFFER_STATE_ACQUIRED \<Longrightarrow> b \<noteq> Some BUFFER_STATE_ACQUIRED \<Longrightarrow> queue_held q' = queue_held q"
  by (rule held_unchanged[of s]) (auto simp: moves_def)

section \<open>The consumer's calls\<close>

text \<open>Every frame in the queue has a fence.\<close>

definition fenced :: "buffer_queue \<Rightarrow> bool" where
  "fenced q \<longleftrightarrow> (\<forall>s e. map_of (bufferQueueCache q) s = Some e \<and> estate e = BUFFER_STATE_FLUSHED \<longrightarrow> efence e \<noteq> None)"

lemma fenced_moves:
  assumes "moves s a b q q'" and "fenced q"
    and "b = Some BUFFER_STATE_FLUSHED \<Longrightarrow> \<exists>e. map_of (bufferQueueCache q') s = Some e \<and> efence e \<noteq> None"
  shows "fenced q'"
  unfolding fenced_def
proof (intro allI impI)
  fix t e assume e: "map_of (bufferQueueCache q') t = Some e \<and> estate e = BUFFER_STATE_FLUSHED"
  show "efence e \<noteq> None"
  proof (cases "t = s")
    case True
    have "state_of q' s = b" using assms(1) by (simp add: moves_def)
    then have "b = Some BUFFER_STATE_FLUSHED" using e True by (simp add: state_of_def)
    then show ?thesis using assms(3) e True by auto
  qed (use assms(1,2) e in \<open>auto simp: moves_def fenced_def\<close>)
qed

lemma idle_move:
  "moves s a b q q' \<Longrightarrow> a \<noteq> Some BUFFER_STATE_ACQUIRED \<Longrightarrow> b = None \<or> b = Some BUFFER_STATE_RELEASED \<Longrightarrow> fenced q \<Longrightarrow>
   queue_held q' = queue_held q \<and> fenced q'"
  by (metis held_moves fenced_moves buffer_state.distinct(3,5) option.distinct(1) option.inject)

definition queue_ok :: "buffer_queue \<Rightarrow> bool" where
  "queue_ok q \<longleftrightarrow> bq_inv q \<and> onBufferRelease q = None \<and> fenced q"

lemma Acquire_held:
  assumes ok: "queue_ok q" and A: "bq_AcquireBuffer env q = res"
  shows "\<exists>ret a q'. res = Inr (ret, a, q') \<and> queue_ok q' \<and>
    (case a of None \<Rightarrow> ret \<noteq> GSERROR_OK \<and> q' = q
     | Some (b, f, t, r) \<Rightarrow> ret = GSERROR_OK \<and> f \<noteq> None \<and> (\<exists>i. b = Some i \<and> i \<notin> queue_held q \<and> queue_held q' = insert i (queue_held q)))"
proof -
  have inv: "bq_inv q" and cb: "onBufferRelease q = None" using ok by (simp_all add: queue_ok_def)
  show ?thesis
  proof (cases "dirtyList q")
    case Nil
    then have "res = Inr (GSERROR_NO_BUFFER, None, q)" using AcquireBuffer_empty[OF inv, of env] A by simp
    moreover have "GSERROR_NO_BUFFER \<noteq> GSERROR_OK" by (simp add: gs)
    ultimately show ?thesis using ok by simp
  next
    case (Cons s ds)
    have st: "state_of q s = Some BUFFER_STATE_FLUSHED" using bq_invD(5)[OF inv] Cons by (auto simp: lists_ok_def)
    then obtain e where e: "map_of (bufferQueueCache q) s = Some e" "estate e = BUFFER_STATE_FLUSHED" by (auto simp: state_of_def)
    obtain r where r: "ebuffer e = Some r" "r < length (objs q)" "sequenceNumber (objs q ! r) = s" using inv_entry[OF inv e(1)] by metis
    obtain q' where q': "bq_AcquireBuffer env q = Inr (GSERROR_OK, Some (ebuffer e, efence e, etimestamp e, edamage e), q')"
        "moves s (Some BUFFER_STATE_FLUSHED) (Some BUFFER_STATE_ACQUIRED) q q'" using AcquireBuffer_ok[OF inv Cons e(1)] by blast
    let ?q2 = "cache_write (disp env) s (\<lambda>e. e\<lparr>estate := BUFFER_STATE_ACQUIRED\<rparr>) (q\<lparr>dirtyList := ds\<rparr>)"
    have "bq_AcquireBuffer env q = Inr (GSERROR_OK, Some (ebuffer e, efence e, etimestamp e, edamage e), ?q2)"
      using bq_invD(1)[OF inv] Cons r cache_elem_Some[OF e(1)]
      by (simp add: bq_AcquireBuffer_def PopFromDirtyList_def cache_touch_present[OF e(1)] deref_def Let_def)
    then have eq: "q' = ?q2" using q'(1) by simp
    have ce: "cache_elem (disp env) s (q\<lparr>dirtyList := ds\<rparr>) = e" by (rule cache_elem_Some) (simp add: e(1))
    have new: "map_of (bufferQueueCache q') = (map_of (bufferQueueCache q))(s \<mapsto> e\<lparr>estate := BUFFER_STATE_ACQUIRED\<rparr>)"
      unfolding eq using ce by simp
    have "r \<notin> queue_held q"
    proof
      assume "r \<in> queue_held q"
      then obtain t f where t: "map_of (bufferQueueCache q) t = Some f" "ebuffer f = Some r" "estate f = BUFFER_STATE_ACQUIRED"
        unfolding queue_held_def by blast
      have "s = t" by (rule entry_unique[OF inv e(1) t(1)]) (simp add: r(1) t(2))
      then show False using e t by simp
    qed
    moreover have "queue_held q' = insert r (queue_held q)"
    proof -
      have "queue_held q' = {x. \<exists>t f. t \<noteq> s \<and> map_of (bufferQueueCache q) t = Some f \<and> ebuffer f = Some x \<and> estate f = BUFFER_STATE_ACQUIRED} \<union> {r}"
        unfolding queue_held_def new using r(1) by (auto split: if_splits)
      have ns: "t \<noteq> s" if "map_of (bufferQueueCache q) t = Some f" "estate f = BUFFER_STATE_ACQUIRED" for t f using e that by auto
      note \<open>queue_held q' = _\<close>
      also have "{x. \<exists>t f. t \<noteq> s \<and> map_of (bufferQueueCache q) t = Some f \<and> ebuffer f = Some x \<and> estate f = BUFFER_STATE_ACQUIRED} = queue_held q"
        unfolding queue_held_def by (rule Collect_cong) (use ns in blast)
      finally show ?thesis by simp
    qed
    moreover have "queue_ok q'"
      using q'(2) cb fenced_moves[OF q'(2)] ok by (simp add: queue_ok_def moves_def eq)
    moreover have "efence e \<noteq> None" using ok e by (auto simp: queue_ok_def fenced_def)
    ultimately show ?thesis using A q'(1) r(1) by auto
  qed
qed

lemma Release_held:
  assumes ok: "queue_ok q" and h: "r \<in> queue_held q" and R: "bq_ReleaseBuffer env (Some r) fence q = (ret, q')"
  shows "ret = GSERROR_OK \<and> queue_ok q' \<and> queue_held q' = queue_held q - {r}"
proof -
  have inv: "bq_inv q" and cb: "onBufferRelease q = None" using ok by (simp_all add: queue_ok_def)
  obtain s e where e: "map_of (bufferQueueCache q) s = Some e" "ebuffer e = Some r" "estate e = BUFFER_STATE_ACQUIRED"
    using h unfolding queue_held_def by blast
  have r: "r < length (objs q)" "sequenceNumber (objs q ! r) = s" using inv_entry[OF inv e(1)] e(2) by force+
  have st: "state_of q s = Some BUFFER_STATE_ACQUIRED" using e by (simp add: state_of_def)
  have eq: "ret = GSERROR_OK" "q' = release_commit env s fence q"
    using R r cb st release_check_eq[OF bq_invD(1)[OF inv], of s] by (simp_all add: release_defs deref_def Let_def releasable_def)
  from release_commit_ok[OF inv e(1), of env fence] st e(3)
  obtain b where m: "moves s (Some BUFFER_STATE_ACQUIRED) b q q'" "b \<noteq> Some BUFFER_STATE_ACQUIRED" "b \<noteq> Some BUFFER_STATE_FLUSHED"
    unfolding eq(2)[symmetric] by (auto simp: releasable_def split: if_splits)
  have cb': "onBufferRelease q' = None"
    using cb unfolding eq(2) release_commit_def by (simp add: emit_def DeleteBufferInCache_def Let_def)
  have "x \<in> queue_held q' \<longleftrightarrow> x \<in> queue_held q \<and> x \<noteq> r" for x
  proof
    assume "x \<in> queue_held q'"
    then obtain t f where t: "map_of (bufferQueueCache q') t = Some f" "ebuffer f = Some x" "estate f = BUFFER_STATE_ACQUIRED"
      unfolding queue_held_def by blast
    have "state_of q' s = b" using m(1) by (simp add: moves_def)
    then have ts: "t \<noteq> s" using t m(2) by (auto simp: state_of_def)
    then have t': "map_of (bufferQueueCache q) t = Some f" using t(1) m(1) by (simp add: moves_def)
    moreover have "x \<noteq> r" using entry_unique[OF inv t' e(1)] t(2) e(2) ts by auto
    ultimately show "x \<in> queue_held q \<and> x \<noteq> r" using t queue_heldI by blast
  next
    assume x: "x \<in> queue_held q \<and> x \<noteq> r"
    then obtain t f where t: "map_of (bufferQueueCache q) t = Some f" "ebuffer f = Some x" "estate f = BUFFER_STATE_ACQUIRED"
      unfolding queue_held_def by blast
    then have "t \<noteq> s" using e x by auto
    then show "x \<in> queue_held q'" using t m(1) queue_heldI[of q' t f x] by (simp add: moves_def)
  qed
  moreover have "fenced q'" by (rule fenced_moves[OF m(1)]) (use ok m(3) in \<open>auto simp: queue_ok_def\<close>)
  ultimately show ?thesis using eq(1) m(1) cb' by (auto simp: queue_ok_def moves_def)
qed

section \<open>The producer's calls\<close>

lemma PopFromFreeList_cb: "PopFromFreeList k c q = (ret, buf, q') \<Longrightarrow> onBufferRelease q' = onBufferRelease q"
proof -
  have ct: "onBufferRelease (cache_touch k s q) = onBufferRelease q" for s q by (simp add: cache_touch_def)
  have ff: "find_free k c xs q = (x, q') \<Longrightarrow> onBufferRelease q' = onBufferRelease q" for xs x q q'
    by (induction xs arbitrary: q) (auto simp: Let_def ct split: if_splits)
  show "PopFromFreeList k c q = (ret, buf, q') \<Longrightarrow> onBufferRelease q' = onBufferRelease q"
    by (auto simp: PopFromFreeList_def Let_def ct split: if_splits prod.splits option.splits list.splits dest!: ff)
qed

lemma AllocBuffer_cb: "AllocBuffer env c q = (ret, buf, q') \<Longrightarrow> onBufferRelease q' = onBufferRelease q"
  by (drule AllocBuffer_cases) auto

lemma small_cb [simp]:
  "onBufferRelease (emit ev q) = onBufferRelease q" "onBufferRelease (DeleteBufferInCache s q) = onBufferRelease q"
  "onBufferRelease (cache_touch k s q) = onBufferRelease q"
  by (simp_all add: emit_def DeleteBufferInCache_def Let_def cache_touch_def)

lemma set_extra_cb: "set_extra r bd q = Some q' \<Longrightarrow> onBufferRelease q' = onBufferRelease q"
  by (auto simp: set_extra_def split: option.splits)

lemma request_alloc_cb: "request_alloc env c q = Inr (ret, bd, rv, q') \<Longrightarrow> onBufferRelease q' = onBufferRelease q"
  by (auto simp: request_alloc_def Let_def split: prod.splits if_splits option.splits dest: AllocBuffer_cb)

lemma ReuseBuffer_cb: "ReuseBuffer env c buf q = Inr (ret, bd, rv, q') \<Longrightarrow> onBufferRelease q' = onBufferRelease q"
  by (auto simp: ReuseBuffer_def Let_def split: prod.splits if_splits option.splits dest!: AllocBuffer_cb)

lemma RequestBuffer_cb: "bq_RequestBuffer env id c q = Inr (ret, bd, rv, q') \<Longrightarrow> onBufferRelease q' = onBufferRelease q"
  by (auto simp: bq_RequestBuffer_def Let_def split: prod.splits if_splits
      dest!: PopFromFreeList_cb ReuseBuffer_cb request_alloc_cb)

lemma CancelBuffer_cb: "bq_CancelBuffer env s bd q = Inr (ret, q') \<Longrightarrow> onBufferRelease q' = onBufferRelease q"
  by (auto simp: bq_CancelBuffer_def Let_def split: if_splits option.splits dest!: set_extra_cb)

lemma DoFlushBuffer_cb: "DoFlushBuffer env s bd fence fc q = Inr (ret, q') \<Longrightarrow> onBufferRelease q' = onBufferRelease q"
  by (auto simp: DoFlushBuffer_def flush_finish_def Let_def split: if_splits option.splits dest!: set_extra_cb)

lemma FlushBuffer_cb: "bq_FlushBuffer env s bd fence fc q = Inr (ret, q') \<Longrightarrow> onBufferRelease q' = onBufferRelease q"
  by (auto simp: flush_defs Let_def split: if_splits sum.splits dest!: CancelBuffer_cb DoFlushBuffer_cb)

lemma Request_held:
  assumes ok: "queue_ok q" and R: "bq_RequestBuffer env id c q = Inr (ret, bd, rv, q')"
  shows "queue_ok q' \<and> queue_held q' = queue_held q"
proof -
  have inv: "bq_inv q" using ok by (simp add: queue_ok_def)
  have post: "request_post c q ret rv q'" using RequestBuffer_post[OF inv, of id env c] inv R by auto
  note P = post[unfolded request_post_def]
  have ent: "map_of (bufferQueueCache q') t = Some e \<and> estate e = BUFFER_STATE_ACQUIRED \<longleftrightarrow>
      map_of (bufferQueueCache q) t = Some e \<and> estate e = BUFFER_STATE_ACQUIRED" for t e
  proof (cases "gs_eq ret GSERROR_OK \<and> t = rsequence rv")
    case True
    have "state_of q t \<noteq> Some BUFFER_STATE_ACQUIRED" using P True by auto
    moreover have "map_of (bufferQueueCache q') t = Some e \<Longrightarrow> estate e = BUFFER_STATE_REQUESTED" using P True by auto
    ultimately show ?thesis by (auto simp: state_of_def)
  next
    case False
    then have "map_of (bufferQueueCache q') t = map_of (bufferQueueCache q) t \<or>
        state_of q t = Some BUFFER_STATE_RELEASED \<and> map_of (bufferQueueCache q') t = None" using P by blast
    then show ?thesis by (auto simp: state_of_def)
  qed
  have "queue_held q' = queue_held q" unfolding queue_held_def using ent by metis
  moreover have "fenced q'" unfolding fenced_def
  proof (intro allI impI)
    fix t e assume e: "map_of (bufferQueueCache q') t = Some e \<and> estate e = BUFFER_STATE_FLUSHED"
    have "\<not> (gs_eq ret GSERROR_OK \<and> t = rsequence rv)" using P e by auto
    then have "map_of (bufferQueueCache q') t = map_of (bufferQueueCache q) t \<or>
        state_of q t = Some BUFFER_STATE_RELEASED \<and> map_of (bufferQueueCache q') t = None" using P by blast
    then have "map_of (bufferQueueCache q) t = Some e" using e by auto
    then show "efence e \<noteq> None" using e ok by (auto simp: queue_ok_def fenced_def)
  qed
  ultimately show ?thesis using P RequestBuffer_cb[OF R] ok by (simp add: queue_ok_def)
qed

lemma Cancel_held:
  assumes ok: "queue_ok q" and R: "bq_CancelBuffer env s bd q = Inr (ret, q')"
  shows "queue_ok q' \<and> queue_held q' = queue_held q"
proof -
  have inv: "bq_inv q" using ok by (simp add: queue_ok_def)
  have "queue_held q' = queue_held q \<and> fenced q'"
  proof (cases "state_of q s = Some BUFFER_STATE_REQUESTED")
    case True
    from CancelBuffer_ok[OF inv True, of env bd] R have "moves s (Some BUFFER_STATE_REQUESTED) (Some BUFFER_STATE_RELEASED) q q'" by auto
    then show ?thesis by (rule idle_move) (use ok in \<open>simp_all add: queue_ok_def\<close>)
  next
    case False
    then show ?thesis using CancelBuffer_rejected[OF inv False, of env bd] R ok by (auto simp: queue_ok_def)
  qed
  then show ?thesis using CancelBuffer_inv[OF inv R] CancelBuffer_cb[OF R] ok by (simp add: queue_ok_def)
qed

lemma Flush_held:
  assumes ok: "queue_ok q" and R: "bq_FlushBuffer env s bd fence fc q = Inr (ret, q')" and f: "fence \<noteq> None"
  shows "queue_ok q' \<and> queue_held q' = queue_held q"
proof -
  have inv: "bq_inv q" using ok by (simp add: queue_ok_def)
  from R FlushBuffer_cases[OF inv, of env s bd fence fc] consider "q' = q"
    | (cancelled) "moves s (Some BUFFER_STATE_REQUESTED) (Some BUFFER_STATE_RELEASED) q q'"
    | (gone) "flushable (state_of q s)" "moves s (state_of q s) None q q'"
    | (queued) e where "flushable (state_of q s)" "moves s (state_of q s) (Some BUFFER_STATE_FLUSHED) q q'"
        "map_of (bufferQueueCache q') s = Some e" "efence e = fence"
    by auto
  then have "queue_held q' = queue_held q \<and> fenced q'"
  proof cases
    case cancelled
    then show ?thesis by (rule idle_move) (use ok in \<open>simp_all add: queue_ok_def\<close>)
  next
    case gone
    show ?thesis by (rule idle_move[OF gone(2)]) (use ok gone(1) in \<open>auto simp: queue_ok_def flushable_def\<close>)
  next
    case queued
    have "queue_held q' = queue_held q" by (rule held_moves[OF queued(2)]) (use queued(1) in \<open>auto simp: flushable_def\<close>)
    moreover have "fenced q'" by (rule fenced_moves[OF queued(2)]) (use ok queued(3,4) f in \<open>auto simp: queue_ok_def\<close>)
    ultimately show ?thesis ..
  qed (use ok in \<open>simp add: queue_ok_def\<close>)
  then show ?thesis using FlushBuffer_inv[OF inv R] FlushBuffer_cb[OF R] ok by (simp add: queue_ok_def)
qed

section \<open>The surface a node consumes\<close>

text \<open>
  The calls a node makes on its \<open>ConsumerSurface\<close>. A fence handed over is its descriptor; giving one back makes
  a new fence object, numbered \<open>fresh\<close>.
\<close>

definition surface_ops :: "bq_env \<Rightarrow> (consumer_surface \<Rightarrow> nat) \<Rightarrow> consumer_surface consumer_ops" where
  "surface_ops env fresh =
     \<lparr>co_AcquireBuffer = (\<lambda>_ cs.
        case cs_AcquireBuffer env cs of
          Inl _ \<Rightarrow> (GSERROR_INTERNEL, (None, None, zero_rect), cs)
        | Inr (ret, None, cs) \<Rightarrow> (ret, (None, None, zero_rect), cs)
        | Inr (ret, Some (b, f, _, r), cs) \<Rightarrow> (ret, (b, map_option (csFences cs) f, r), cs)),
      co_ReleaseBuffer = (\<lambda>_ b f cs.
        case f of None \<Rightarrow> cs_ReleaseBuffer env b None cs | Some fd \<Rightarrow> cs_ReleaseBuffer_fd env (fresh cs) b fd cs),
      co_GetQueueSize = (\<lambda>_. cs_GetQueueSize)\<rparr>"

definition surface_ok :: "consumer_surface \<Rightarrow> bool" where
  "surface_ok cs \<longleftrightarrow> (\<exists>q. bufferQueue (csProducer cs) = Some q \<and> queue_ok q)"

definition surface_held :: "consumer_surface \<Rightarrow> nat set" where
  "surface_held cs = (case bufferQueue (csProducer cs) of None \<Rightarrow> {} | Some q \<Rightarrow> queue_held q)"

lemma surface_acquire_law:
  assumes "surface_ok d" and "co_AcquireBuffer (surface_ops env fresh) c d = (ret, (b, f, r), d')"
  shows "surface_ok d' \<and> (if ret = GSERROR_OK then f \<noteq> None \<and> (\<exists>i. b = Some i \<and> i \<notin> surface_held d \<and> surface_held d' = insert i (surface_held d))
    else surface_held d' = surface_held d)"
proof -
  obtain q where q: "bufferQueue (csProducer d) = Some q" "queue_ok q" using assms(1) unfolding surface_ok_def by blast
  obtain rt a q' where A: "bq_AcquireBuffer env q = Inr (rt, a, q')" "queue_ok q'"
      "case a of None \<Rightarrow> rt \<noteq> GSERROR_OK \<and> q' = q
       | Some (b, f, t, r) \<Rightarrow> rt = GSERROR_OK \<and> f \<noteq> None \<and> (\<exists>i. b = Some i \<and> i \<notin> queue_held q \<and> queue_held q' = insert i (queue_held q))"
    using Acquire_held[OF q(2) refl] by blast
  then show ?thesis using assms(2) q(1)
    by (cases a) (auto simp: surface_ops_def cs_AcquireBuffer_def bc_AcquireBuffer_def surface_ok_def surface_held_def)
qed

lemma surface_release_law:
  assumes "surface_ok d" and "i \<in> surface_held d" and "co_ReleaseBuffer (surface_ops env fresh) c (Some i) g d = (ret, d')"
  shows "ret = GSERROR_OK \<and> surface_ok d' \<and> surface_held d' = surface_held d - {i}"
proof -
  obtain q where q: "bufferQueue (csProducer d) = Some q" "queue_ok q" using assms(1) unfolding surface_ok_def by blast
  have h: "i \<in> queue_held q" using assms(2) q(1) by (simp add: surface_held_def)
  have rel: "\<exists>q'. bufferQueue (csProducer d') = Some q' \<and> bq_ReleaseBuffer env (Some i) fence q = (ret, q')"
    if "cs_ReleaseBuffer env (Some i) fence d1 = (ret, d')" "csProducer d1 = csProducer d" for fence d1
    using that q(1) by (auto simp: cs_ReleaseBuffer_def with_queue_def bc_ReleaseBuffer_def on_consumer_def Let_def split: prod.splits)
  obtain fence q' where "bufferQueue (csProducer d') = Some q'" "bq_ReleaseBuffer env (Some i) fence q = (ret, q')"
  proof (cases g)
    case None
    then show ?thesis using that assms(3) rel[of None d] by (auto simp: surface_ops_def)
  next
    case (Some fd)
    have "cs_ReleaseBuffer env (Some i) (Some (fresh d)) (d\<lparr>csFences := (csFences d)(fresh d := fd)\<rparr>) = (ret, d')"
      using assms(3) Some by (simp add: surface_ops_def cs_ReleaseBuffer_fd_def)
    from rel[OF this] that show ?thesis by auto
  qed
  with Release_held[OF q(2) h] q(1) show ?thesis by (simp add: surface_ok_def surface_held_def)
qed

interpretation surface_end: consumer_end "surface_ops env fresh" c surface_held surface_ok for env fresh c
  by unfold_locales (rule surface_acquire_law surface_release_law; assumption)+

section \<open>A node with its one buffer\<close>

definition node_sound :: "64 word \<Rightarrow> 'a handler_scheme \<times> hlayer \<times> consumer_surface \<Rightarrow> bool" where
  "node_sound c s = (case s of (n, l, cs) \<Rightarrow> consumer_end.node_ok c surface_held surface_ok n l cs)"

lemma node_soundD:
  "node_sound c (n, l, cs) \<Longrightarrow> surface_held cs = set_option (sh_buffer n)"
  by (simp add: node_sound_def surface_end.node_ok_def)

lemma node_sound_start:
  assumes "surface_ok cs" and "surface_held cs = {}" and "sh_consumer n = Some c" and "sh_buffer n = None" and "sh_preBuffer n = None"
    and "hl_curr l = Some new_LayerBufferInfo" and "hl_prev l = Some new_LayerBufferInfo"
  shows "node_sound c (n, l, cs)"
  using assms by (simp add: node_sound_def surface_end.node_ok_def new_LayerBufferInfo_def)

lemma node_sound_same:
  assumes "node_sound c (n, l, cs)" and "surface_ok cs'" and "surface_held cs' = surface_held cs"
    and "sh_consumer n' = sh_consumer n" "sh_buffer n' = sh_buffer n" "sh_preBuffer n' = sh_preBuffer n" "sh_fence n' = sh_fence n"
  shows "node_sound c (n', l, cs')"
  using assms by (simp add: node_sound_def surface_end.node_ok_def)

end
