(* ===== verification/Node_Run.thy ===== *)
theory Node_Run
  imports Node_Buffers Hardware_Props
begin

text \<open>
  The life of a node that shows a surface: its producer, the listener and its task, and the frames, which
  \<open>RSHardwareProcessor\<close> or \<open>RSSoftwareProcessor\<close> make. After every event but two kinds of frames and the task for nodes
  off the tree, the buffers acquired of the queue are exactly the one the node stores.
\<close>

section \<open>Events\<close>

text \<open>
  What happens to a node: its producer requests, cancels and flushes (a flush that is accepted calls the listener), the
  task the listener posted is run, the main thread runs \<open>ConsumeNodesNotOnTree\<close>, the node comes onto the tree or
  leaves it, it is drawn by the software processor, or a frame of the hardware processor takes it. Tasks may come
  at any moment.

  A frame, \<open>Framed p uni w completed\<close>: the node lies at the place that \<open>w\<close> gives, the processor \<open>p\<close> of the frame
  makes a layer of it (or none), turns, crops and shapes it; the output updates the layer of the surface, or a new one
  when the surface was not shown in this size; and \<open>Repaint\<close>, when it is \<open>completed\<close>, makes the layer give the buffer
  before back. (It is not when the driver fails to prepare the layers, or does not tell the release fences.) \<open>Framed_without\<close>
  is a frame the node has no part in.
\<close>

datatype node_event =
    Requested buffer_request_config | Cancelled int extra_ref | Flushed int extra_ref nat buffer_flush_config
  | Off_tree_task | Consumed_off_tree | On_tree bool bool | Drawn
  | Framed hw_processor bool hw_node bool | Framed_without

definition producer_call :: "(producer \<Rightarrow> bq_fault + gserror \<times> producer) \<Rightarrow> consumer_surface \<Rightarrow> (gserror \<times> consumer_surface) option" where
  "producer_call f cs = (case f (csProducer cs) of Inl _ \<Rightarrow> None | Inr (ret, pr) \<Rightarrow> Some (ret, cs\<lparr>csProducer := pr\<rparr>))"

definition request_only :: "bq_env \<Rightarrow> buffer_request_config \<Rightarrow> producer \<Rightarrow> bq_fault + gserror \<times> producer" where
  "request_only env config = on_queue (\<lambda>q. case bq_RequestBuffer env id config q of Inl e \<Rightarrow> Inl e | Inr (ret, _, _, q) \<Rightarrow> Inr (ret, q))"

definition place_node :: "hw_node \<Rightarrow> hw_node \<Rightarrow> hw_node" where
  "place_node w n = n\<lparr>nd_boundsX := nd_boundsX w, nd_boundsY := nd_boundsY w, nd_absRect := nd_absRect w, nd_dstRect := nd_dstRect w,
     nd_zorder := nd_zorder w, nd_gAlpha := nd_gAlpha w, nd_blend := nd_blend w, nd_needClient := nd_needClient w, nd_transform := nd_transform w\<rparr>"

text \<open>
  The layer of the output that shows the description: the one it has, or a new one. A frame without the node, whether
  it had no buffer or is not part of the frame, destroys the layer (\<open>DeletePrevLayers\<close>): the next one starts anew.
\<close>

definition fresh_layer :: "hlayer \<Rightarrow> hlayer" where
  "fresh_layer l = (CreateHdiLayer (hl_times l) (hl_screen l))\<lparr>hl_curr := Some new_LayerBufferInfo, hl_prev := Some new_LayerBufferInfo\<rparr>"

definition output_layer :: "layer_info \<Rightarrow> hlayer \<Rightarrow> hlayer" where
  "output_layer i l = (case hl_info l of Some old \<Rightarrow> if same_size old i then l else fresh_layer l | None \<Rightarrow> fresh_layer l)"

type_synonym 'm node_vendor = "(consumer_surface, 'm) layer_vendor_scheme"
type_synonym node_state = "hw_node \<times> hlayer \<times> consumer_surface"

text \<open>What the run is given: the two vendors, the constants, the attributes of the buffers, and a new layer's memory.\<close>

record 'm node_world =
  w_env :: bq_env
  w_fresh :: "consumer_surface \<Rightarrow> nat"
  w_vendor :: "'m node_vendor"
  w_consts :: hw_consts
  w_bufs :: "nat \<Rightarrow> buffer_attr"
  w_junk :: layer_info

abbreviation node_ops :: "'m node_world \<Rightarrow> consumer_surface consumer_ops" where
  "node_ops W \<equiv> surface_ops (w_env W) (w_fresh W)"

definition hw_frame :: "'m node_world \<Rightarrow> hw_processor \<Rightarrow> bool \<Rightarrow> bool \<Rightarrow> node_state \<Rightarrow> node_state option" where
  "hw_frame W p uni completed s =
     (let (n, l, cs) = s in
      Option.bind (hw_ProcessSurface (node_ops W) (w_consts W) (w_bufs W) (w_junk W) (p\<lparr>hp_layers := []\<rparr>) n cs) (\<lambda>(p, n, cs).
      Option.bind (prepare_layers (w_consts W) uni (w_bufs W) p) (\<lambda>ms.
        (case map layer_info.truncate ms of
           [] \<Rightarrow> Some (n, fresh_layer l, cs)
         | i # _ \<Rightarrow>
             Option.bind (UpdateLayerInfo (Some i) (output_layer i l)) (\<lambda>l.
               if completed then map_option (\<lambda>(l, cs). (n, l, cs)) (hl_ReleaseBuffer (w_vendor W) l cs)
               else Some (n, l, cs))))))"

fun node_step :: "'m node_world \<Rightarrow> node_event \<Rightarrow> node_state \<Rightarrow> node_state option" where
  "node_step W (Requested config) (n, l, cs) =
     map_option (\<lambda>(_, cs). (n, l, cs)) (producer_call (request_only (w_env W) config) cs)"
| "node_step W (Cancelled s bd) (n, l, cs) =
     map_option (\<lambda>(_, cs). (n, l, cs)) (producer_call (p_CancelBuffer (w_env W) s bd) cs)"
| "node_step W (Flushed s bd fence config) (n, l, cs) =
     map_option (\<lambda>(ret, cs). (if gs_eq ret GSERROR_OK then snd (rl_OnBufferAvailable n) else n, l, cs))
       (producer_call (p_FlushBuffer (w_env W) s bd (Some fence) config) cs)"
| "node_step W Off_tree_task (n, l, cs) = (let (n, cs) = off_tree_task (node_ops W) n cs in Some (n, l, cs))"
| "node_step W Consumed_off_tree (n, l, cs) = (let (ns, cs) = ConsumeNodesNotOnTree (node_ops W) [n] cs in Some (hd ns, l, cs))"
| "node_step W (On_tree tree vis) (n, l, cs) = Some (n\<lparr>sn_onTree := tree, sn_visible := vis\<rparr>, l, cs)"
| "node_step W Drawn (n, l, cs) = (let (_, _, n, cs) = software_take (node_ops W) n cs in Some (n, l, cs))"
| "node_step W (Framed p uni w completed) (n, l, cs) = hw_frame W p uni completed (place_node w n, l, cs)"
| "node_step W Framed_without (n, l, cs) = Some (n, fresh_layer l, cs)"

fun node_run :: "'m node_world \<Rightarrow> node_event list \<Rightarrow> node_state \<Rightarrow> node_state option" where
  "node_run W [] s = Some s"
| "node_run W (e # es) s = Option.bind (node_step W e s) (node_run W es)"

text \<open>
  The events after which a node has exactly its one buffer: the frames are on a screen that is there and of at most
  4096 pixels, the node lies on it with a visible rectangle of its contents, and \<open>Repaint\<close> is completed; and
  \<open>ConsumeNodesNotOnTree\<close> does not come. What the events left out do, the properties of kind error show.
\<close>

fun harmless :: "node_event \<Rightarrow> bool" where
  "harmless (Framed p uni w completed) = (hp_output p \<noteq> None \<and> screen_in p \<and> placed p w \<and> completed)"
| "harmless Consumed_off_tree = False"
| "harmless _ = True"

section \<open>Soundness\<close>

text \<open>A call of the producer that keeps the buffers held.\<close>

lemma producer_call_keeps:
  assumes s: "node_sound c (n, l, cs)" and no: "\<And>q e. queue_ok q \<Longrightarrow> f q \<noteq> Inl e"
    and keep: "\<And>q ret q'. queue_ok q \<Longrightarrow> f q = Inr (ret, q') \<Longrightarrow> queue_ok q' \<and> queue_held q' = queue_held q"
  shows "\<exists>ret cs'. producer_call (on_queue f) cs = Some (ret, cs') \<and> surface_ok cs' \<and> surface_held cs' = surface_held cs"
proof -
  have "surface_ok cs" using s by (simp add: node_sound_def surface_end.node_ok_def)
  then obtain q where q: "bufferQueue (csProducer cs) = Some q" "queue_ok q" unfolding surface_ok_def by blast
  obtain ret q' where r: "f q = Inr (ret, q')" using no[OF q(2)] by (metis sum.exhaust surj_pair)
  then show ?thesis using q keep[OF q(2) r] by (simp add: producer_call_def on_queue_def surface_ok_def surface_held_def)
qed

lemma rl_fields [simp]:
  "sh_consumer (snd (rl_OnBufferAvailable n)) = sh_consumer n" "sh_buffer (snd (rl_OnBufferAvailable n)) = sh_buffer n"
  "sh_preBuffer (snd (rl_OnBufferAvailable n)) = sh_preBuffer n" "sh_fence (snd (rl_OnBufferAvailable n)) = sh_fence n"
  by (simp_all add: rl_OnBufferAvailable_def NotifyUIBufferAvailable_def IncreaseAvailableBuffer_def Let_def)

lemma place_node_fields [simp]:
  "sh_consumer (place_node w n) = sh_consumer n" "sh_buffer (place_node w n) = sh_buffer n" "sh_preBuffer (place_node w n) = sh_preBuffer n"
  "sh_fence (place_node w n) = sh_fence n" "sh_available (place_node w n) = sh_available n"
  by (simp_all add: place_node_def)

lemma placed_place_node: "placed (p\<lparr>hp_layers := ls\<rparr>) (place_node w n) = placed p w"
  by (simp add: placed_def place_node_def node_rect_def hw_bounds_def)

lemma fresh_layer_sound: "node_sound c (n, l, cs) \<Longrightarrow> node_sound c (n, fresh_layer l, cs)"
  by (auto simp: node_sound_def surface_end.node_ok_def fresh_layer_def new_LayerBufferInfo_def)

lemma output_layer_sound: "node_sound c (n, l, cs) \<Longrightarrow> node_sound c (n, output_layer i l, cs)"
  by (simp add: output_layer_def fresh_layer_sound split: option.split)

lemma hw_frame_sound:
  assumes s: "node_sound c (n, l, cs)"
    and v: "\<And>b f d. surface_ReleaseBuffer (w_vendor W) c b f d = co_ReleaseBuffer (node_ops W) c (Some b) f d"
    and attr: "\<And>b. 0 \<le> ba_width (w_bufs W b) \<and> ba_width (w_bufs W b) \<le> 16384 \<and> 0 \<le> ba_height (w_bufs W b) \<and> ba_height (w_bufs W b) \<le> 16384"
    and fr: "hp_output p = Some a" "screen_in p" "placed p n"
  shows "\<exists>s'. hw_frame W p uni True (n, l, cs) = Some s' \<and> node_sound c s'"
proof -
  let ?C = "node_ops W" and ?p = "p\<lparr>hp_layers := []\<rparr>"
  have N: "consumer_end.node_ok c surface_held surface_ok n l cs" using s by (simp add: node_sound_def)
  note N' = N[unfolded surface_end.node_ok_def]
  obtain r vs n1 cs1 where got: "ConsumeAndUpdateBuffer ?C False n cs = Some (r, vs, n1, cs1)"
      and b1: "if r then sh_buffer n1 \<noteq> None else True"
    using surface_end.consume_holds[of cs n c "w_env W" "w_fresh W"] N' by (auto split: if_splits)
  show ?thesis
  proof (cases r)
    case False
    then have P: "hw_ProcessSurface ?C (w_consts W) (w_bufs W) (w_junk W) ?p n cs = Some (?p, n1, cs1)"
      using got by (simp add: hw_ProcessSurface_def)
    have "consumer_end.node_ok c surface_held surface_ok n1 l cs1"
      by (rule surface_end.no_buffer_keeps[OF N]) (use got False in simp)
    moreover obtain ms where "prepare_layers (w_consts W) uni (w_bufs W) ?p = Some ms" "list_all2 (layer_done uni (w_bufs W) ?p) (hp_layers ?p) ms"
      using prepare_layers_done[of ?p "w_bufs W" "w_consts W" uni] fr(2) by (auto simp: screen_in_def)
    ultimately show ?thesis using P fresh_layer_sound[of c n1 l cs1] by (simp add: hw_frame_def node_sound_def)
  next
    case True
    with got have got: "ConsumeAndUpdateBuffer ?C False n cs = Some (True, vs, n1, cs1)" by simp
    obtain bf where bf: "sh_buffer n1 = Some bf" using b1 True by auto
    have con: "sh_consumer n = Some c" using N' by blast
    have pl: "placed ?p n" using fr(3) by (simp add: placed_def node_rect_def hw_bounds_def)
    obtain m n2 where m: "hw_ProcessSurface ?C (w_consts W) (w_bufs W) (w_junk W) ?p n cs = Some (?p\<lparr>hp_layers := hp_layers ?p @ [m]\<rparr>, n2, cs1)"
        "layer_in (w_bufs W) m" "li_surface m = c" "li_buffer m = Some bf" "li_acquire m = sh_fence n1"
        "li_preBuffer m = sh_preBuffer n1" "li_preAcquire m = sh_preFence n1" "n2 = (if \<not> isNotifyRTBufferAvailable n1 then NotifyRTBufferAvailable n1 else n1)"
      using ProcessSurface_layer[OF got bf con _ pl, of a "w_bufs W" "w_consts W" "w_junk W"] attr fr(1) by auto
    let ?q = "?p\<lparr>hp_layers := [m]\<rparr>"
    obtain ms where ms: "prepare_layers (w_consts W) uni (w_bufs W) ?q = Some ms" "list_all2 (layer_done uni (w_bufs W) ?q) [m] ms"
      using prepare_layers_done[of ?q "w_bufs W" "w_consts W" uni] fr(2) m(2) by (auto simp: screen_in_def)
    then obtain m' where m': "ms = [m']" "same_content m m'" by (auto simp: list_all2_Cons1 layer_done_def)
    let ?i = "layer_info.truncate m'"
    have i: "li_surface ?i = c" "node_layer_info n1 ?i = ?i"
      using m'(2) m(3-7) bf by (simp_all add: same_content_def node_layer_info_def li_SetBuffer_def layer_info.defs)
    have N2: "consumer_end.node_ok c surface_held surface_ok n (output_layer ?i l) cs"
      using output_layer_sound[OF s, of ?i] by (simp add: node_sound_def)
    obtain l1 l' cs' where r: "UpdateLayerInfo (Some ?i) (output_layer ?i l) = Some l1" "hl_ReleaseBuffer (w_vendor W) l1 cs1 = Some (l', cs')"
        "consumer_end.node_ok c surface_held surface_ok n1 l' cs'"
      using surface_end.layer_keeps[OF N2 got v i] by blast
    have "node_sound c (n2, l', cs')"
      using r(3) m(8) told_keeps_place[of n1] by (simp add: node_sound_def surface_end.node_ok_def)
    then show ?thesis using m(1) ms(1) m'(1) r(1,2) by (simp add: hw_frame_def)
  qed
qed

lemma node_step_sound:
  assumes s: "node_sound c (n, l, cs)" and h: "harmless e"
    and v: "\<And>b f d. surface_ReleaseBuffer (w_vendor W) c b f d = co_ReleaseBuffer (node_ops W) c (Some b) f d"
    and attr: "\<And>b. 0 \<le> ba_width (w_bufs W b) \<and> ba_width (w_bufs W b) \<le> 16384 \<and> 0 \<le> ba_height (w_bufs W b) \<and> ba_height (w_bufs W b) \<le> 16384"
  shows "\<exists>n' l' cs'. node_step W e (n, l, cs) = Some (n', l', cs') \<and> node_sound c (n', l', cs')"
proof (cases e)
  case (Requested config)
  let ?f = "\<lambda>q. case bq_RequestBuffer (w_env W) id config q of Inl e \<Rightarrow> Inl e | Inr (ret, _, _, q) \<Rightarrow> Inr (ret, q)"
  have "?f q \<noteq> Inl x" if "queue_ok q" for q x
    using RequestBuffer_post[of q id "w_env W" config] that by (auto simp: queue_ok_def)
  moreover have "queue_ok q' \<and> queue_held q' = queue_held q" if "queue_ok q" "?f q = Inr (ret, q')" for q ret q'
    using that Request_held[OF that(1)] by (auto split: sum.splits prod.splits)
  ultimately obtain ret cs' where "producer_call (request_only (w_env W) config) cs = Some (ret, cs')" "surface_ok cs'" "surface_held cs' = surface_held cs"
    using producer_call_keeps[OF s, of ?f] unfolding request_only_def by blast
  then show ?thesis using Requested node_sound_same[OF s, of cs' n] by simp
next
  case (Cancelled sq bd)
  have "bq_CancelBuffer (w_env W) sq bd q \<noteq> Inl x" if "queue_ok q" for q x
  proof (cases "state_of q sq = Some BUFFER_STATE_REQUESTED")
    case True
    then show ?thesis using CancelBuffer_ok[of q sq "w_env W" bd] that by (auto simp: queue_ok_def)
  next
    case False
    then show ?thesis using CancelBuffer_rejected[of q sq "w_env W" bd] that by (auto simp: queue_ok_def)
  qed
  then obtain ret cs' where "producer_call (p_CancelBuffer (w_env W) sq bd) cs = Some (ret, cs')" "surface_ok cs'" "surface_held cs' = surface_held cs"
    using producer_call_keeps[OF s, of "bq_CancelBuffer (w_env W) sq bd"] Cancel_held unfolding p_CancelBuffer_def by blast
  then show ?thesis using Cancelled node_sound_same[OF s, of cs' n] by simp
next
  case (Flushed sq bd fence config)
  have "bq_FlushBuffer (w_env W) sq bd (Some fence) config q \<noteq> Inl x" if "queue_ok q" for q x
    using FlushBuffer_cases[of q "w_env W" sq bd "Some fence" config] that by (auto simp: queue_ok_def)
  moreover have "queue_ok q' \<and> queue_held q' = queue_held q" if "queue_ok q" "bq_FlushBuffer (w_env W) sq bd (Some fence) config q = Inr (ret, q')" for q ret q'
    using Flush_held[OF that] by simp
  ultimately obtain ret cs' where r: "producer_call (p_FlushBuffer (w_env W) sq bd (Some fence) config) cs = Some (ret, cs')"
      "surface_ok cs'" "surface_held cs' = surface_held cs"
    using producer_call_keeps[OF s, of "bq_FlushBuffer (w_env W) sq bd (Some fence) config"] unfolding p_FlushBuffer_def by blast
  then show ?thesis
    using Flushed node_sound_same[OF s r(2,3), of n] node_sound_same[OF s r(2,3), of "snd (rl_OnBufferAvailable n)"] by simp
next
  case Off_tree_task
  obtain n' cs' where t: "off_tree_task (surface_ops (w_env W) (w_fresh W)) n cs = (n', cs')" by fastforce
  have "node_sound c (n', l, cs')"
    using surface_end.off_tree_keeps[of c n l cs "w_env W" "w_fresh W", OF _ t] s by (simp add: node_sound_def)
  then show ?thesis using Off_tree_task t by simp
next
  case (On_tree tree vis)
  have "surface_ok cs" using s by (simp add: node_sound_def surface_end.node_ok_def)
  then show ?thesis using On_tree node_sound_same[OF s, of cs "n\<lparr>sn_onTree := tree, sn_visible := vis\<rparr>"] by simp
next
  case Drawn
  obtain b vs n' cs' where t: "software_take (surface_ops (w_env W) (w_fresh W)) n cs = (b, vs, n', cs')" by (metis prod.exhaust)
  have "node_sound c (n', l, cs')"
    using surface_end.software_keeps[of c n l cs "w_env W" "w_fresh W", OF _ t] s by (simp add: node_sound_def)
  then show ?thesis using Drawn t by simp
next
  case (Framed p uni w completed)
  then obtain a where p: "hp_output p = Some a" "screen_in p" "placed p w" "completed" using h by auto
  have "node_sound c (place_node w n, l, cs)" using s by (simp add: node_sound_def surface_end.node_ok_def)
  moreover have "placed p (place_node w n)" using p(3) placed_place_node[of "hp_layers p" p w n] by simp
  ultimately obtain s' where "hw_frame W p uni True (place_node w n, l, cs) = Some s'" "node_sound c s'"
    using hw_frame_sound[OF _ v attr p(1,2)] by blast
  then show ?thesis using Framed p(4) by (cases s') simp
next
  case Framed_without
  then show ?thesis using fresh_layer_sound[OF s] by simp
qed (use h in simp)

lemma node_run_sound:
  assumes "node_sound c s" and "list_all harmless es"
    and v: "\<And>b f d. surface_ReleaseBuffer (w_vendor W) c b f d = co_ReleaseBuffer (node_ops W) c (Some b) f d"
    and attr: "\<And>b. 0 \<le> ba_width (w_bufs W b) \<and> ba_width (w_bufs W b) \<le> 16384 \<and> 0 \<le> ba_height (w_bufs W b) \<and> ba_height (w_bufs W b) \<le> 16384"
  shows "\<exists>s'. node_run W es s = Some s' \<and> node_sound c s'"
  using assms(1,2)
proof (induction es arbitrary: s)
  case (Cons e es)
  obtain n l cs where "s = (n, l, cs)" by (metis prod_cases3)
  with node_step_sound[of c n l cs e W] Cons v attr show ?case by fastforce
qed simp

end
