(* ===== verification/Node_Props.thy ===== *)
theory Node_Props
  imports Node_Run Buffer_Queue_Props
begin

text \<open>The properties of the nodes that show a surface, and a node of the demonstration queue to show them on.\<close>

section \<open>A concrete node\<close>

definition demo_consumer :: consumer_surface where
  "demo_consumer = snd (cs_RegisterConsumerListener (Some 0) (new_ConsumerSurface demo_disp ''demo'' False 7 (\<lambda>_. -1)))"

definition demo_node :: hw_node where
  "demo_node = surface_node.extend
     \<lparr>sh_consumer = Some 9, sh_damage = zero_rect, sh_available = 0, sh_buffer = None, sh_preBuffer = None, sh_fence = None,
      sh_preFence = None, sn_onTree = True, sn_visible = True, isNotifyUIBufferAvailable = False, isNotifyRTBufferAvailable = False,
      callbackFromUI = True, callbackFromRT = False, callbackForRenderThreadRefresh = False, sn_toldUI = 0, sn_toldRT = 0, sn_refreshed = 0\<rparr>
     \<lparr>nd_boundsX = 0, nd_boundsY = 0, nd_absRect = Some \<lparr>rx = 0, ry = 0, rw = 64, rh = 64\<rparr>,
      nd_dstRect = \<lparr>rx = 10, ry = 20, rw = 54, rh = 30\<rparr>, nd_zorder = 1, nd_gAlpha = 255, nd_blend = 0, nd_needClient = False, nd_transform = 0\<rparr>"

lemma demo_node_placed: "placed demo_hw demo_node"
  by (simp add: placed_def demo_node_def surface_node.defs node_rect_def rect_in_def rt_IsEmpty_def crop_within_def hw_bounds_def demo_hw_def Let_def)

definition demo_hlayer :: hlayer where
  "demo_hlayer = (CreateHdiLayer [] 0)\<lparr>hl_curr := Some new_LayerBufferInfo, hl_prev := Some new_LayerBufferInfo\<rparr>"

definition demo_fresh :: "consumer_surface \<Rightarrow> nat" where "demo_fresh cs = 50"

definition demo_outside :: "unit node_vendor" where
  "demo_outside =
     \<lparr>codes = \<lparr>DISPLAY_SUCCESS = 0, DISPLAY_FAILURE = -1, DISPLAY_FD_ERR = -2, DISPLAY_PARAM_ERR = -3, DISPLAY_NULL_PTR = -4,
       DISPLAY_NOT_SUPPORT = -5, DISPLAY_NOMEM = -6, DISPLAY_SYS_BUSY = -7, DISPLAY_NOT_PERM = -8,
       EBADF = 9, EINVAL = 22, EOPNOTSUPP = 95, ENOMEM = 12, EBUSY = 16, EPERM = 1\<rparr>,
     available = True, DISP_INTF_MIPI = 9, DISP_INTF_HDMI = 0, DISP_POWER_STATUS_ON = 0, HDI_COLOR_GAMUT_SRGB = 4, HDI_GAMUT_MAP_CONSTANT = 0,
     RegDisplayVBlankCallback = None, SetDisplayVsyncEnabled = None, GetDisplayCapability = None,
     CountDisplayModes = None, FillDisplayModes = (\<lambda>_ _. (0, \<lambda>_. \<lparr>mode_width = 0, mode_height = 0, freshRate = 0, mode_id = 0\<rparr>)),
     GetDisplayMode = None, SetDisplayMode = None, GetDisplayPowerStatus = None, SetDisplayPowerStatus = None,
     GetDisplayBacklight = None, SetDisplayBacklight = None,
     TRANSFORM_BUTT = 8, COMPOSITION_CLIENT = 0,
     LF_SetLayerAlpha = None, LF_SetLayerSize = None, LF_SetTransformMode = None, LF_SetLayerVisibleRegion = None, LF_SetLayerDirtyRegion = None,
     LF_SetLayerBuffer = None, LF_SetLayerCompositionType = None, LF_SetLayerBlendType = None, LF_SetLayerCrop = None, LF_SetLayerZorder = None,
     LF_SetLayerPreMulti = None, LF_CreateLayer = None, LF_CloseLayer = None,
     kernel = (\<lambda>_. \<lparr>fk_wait = (\<lambda>_ _. (0, 0)), fk_merge = (\<lambda>_ _ _. -1), fk_count = (\<lambda>_. (-1, 0)), fk_malloc = (\<lambda>_. False), fk_infos = (\<lambda>_ _. (-1, []))\<rparr>),
     surface_ReleaseBuffer = (\<lambda>c b f. co_ReleaseBuffer (surface_ops demo_env demo_fresh) c (Some b) f)\<rparr>"

lemma demo_outside_release: "surface_ReleaseBuffer demo_outside c b f d = co_ReleaseBuffer (surface_ops demo_env demo_fresh) c (Some b) f d"
  by (simp add: demo_outside_def)

definition demo_world :: "unit node_world" where
  "demo_world = \<lparr>w_env = demo_env, w_fresh = demo_fresh, w_vendor = demo_outside, w_consts = demo_consts, w_bufs = demo_attr, w_junk = some_layer 0\<rparr>"

lemma demo_world_fields [simp]:
  "w_env demo_world = demo_env" "w_fresh demo_world = demo_fresh" "w_vendor demo_world = demo_outside" "w_bufs demo_world = demo_attr"
  by (simp_all add: demo_world_def)

text \<open>A first buffer is drawn and shown; a second one is drawn.\<close>

definition demo_first :: "node_event list" where
  "demo_first = [Requested demo_config, Flushed 0 None 9 demo_flush_config, Framed demo_hw False demo_node True]"
definition demo_second :: "node_event list" where
  "demo_second = [Requested demo_config, Flushed 1 None 9 demo_flush_config]"

definition demo_run :: "node_event list \<Rightarrow> node_state option" where
  "demo_run es = node_run demo_world es (demo_node, demo_hlayer, demo_consumer)"

lemma demo_consumer_queue: "bufferQueue (csProducer demo_consumer) = Some demo_start"
  by code_simp

lemma demo_consumer_ok: "surface_ok demo_consumer" "surface_held demo_consumer = {}"
proof -
  have "bq_inv demo_start" by (rule reachable_inv[OF demo_reachable(1)])
  moreover have "onBufferRelease demo_start = None" "bufferQueueCache demo_start = []" by code_simp+
  ultimately show "surface_ok demo_consumer" "surface_held demo_consumer = {}"
    using demo_consumer_queue by (simp_all add: surface_ok_def surface_held_def queue_ok_def fenced_def queue_held_def)
qed

lemma demo_fields:
  "sh_consumer demo_node = Some 9" "sh_buffer demo_node = None" "sh_preBuffer demo_node = None"
  "hl_curr demo_hlayer = Some new_LayerBufferInfo" "hl_prev demo_hlayer = Some new_LayerBufferInfo"
  by (simp_all add: demo_node_def surface_node.defs demo_hlayer_def)

lemma demo_attr_bounds: "0 \<le> ba_width (demo_attr b) \<and> ba_width (demo_attr b) \<le> 16384 \<and> 0 \<le> ba_height (demo_attr b) \<and> ba_height (demo_attr b) \<le> 16384"
  by (simp add: demo_attr_def)

lemma demo_harmless: "list_all harmless demo_first" "list_all harmless demo_second"
  using demo_hw_ok(1,2) demo_node_placed by (simp_all add: demo_first_def demo_second_def)

lemma demo_run_sound: "list_all harmless es \<Longrightarrow> \<exists>s. demo_run es = Some s \<and> node_sound 9 s"
  unfolding demo_run_def
  by (rule node_run_sound[OF node_sound_start[OF demo_consumer_ok demo_fields]]) (simp_all add: demo_outside_release demo_attr_bounds)

lemma demo_run_states:
  "map_option (\<lambda>(n, l, cs). (sh_buffer n, sh_available n)) (demo_run demo_first) = Some (Some 0, 0)"
  by code_simp

lemma demo_run_states2:
  "map_option (\<lambda>(n, l, cs). (sh_buffer n, sh_available n, fst (co_AcquireBuffer (surface_ops demo_env demo_fresh) 9 cs)))
     (demo_run (demo_first @ demo_second)) = Some (Some 0, 1, GSERROR_OK)"
  by code_simp

section \<open>One buffer at a time\<close>

text \<open>
  C2. Over any run of requests, cancels, flushes, tasks of the listener, moves in the tree, software frames, and frames
  of the hardware processor on a screen that is there in which the node is placed and \<open>Repaint\<close> completes, a node
  never gets stuck on a null pointer or an overflow, and the buffers acquired of its queue are exactly the one it stores.
\<close>

theorem node_holds_one_buffer:
  assumes "surface_ok cs" and "surface_held cs = {}" and "sh_consumer n = Some c" and "sh_buffer n = None" and "sh_preBuffer n = None"
    and "hl_curr l = Some new_LayerBufferInfo" and "hl_prev l = Some new_LayerBufferInfo"
    and "\<And>b f d. surface_ReleaseBuffer (w_vendor W) c b f d = co_ReleaseBuffer (surface_ops (w_env W) (w_fresh W)) c (Some b) f d"
    and "\<And>b. 0 \<le> ba_width (w_bufs W b) \<and> ba_width (w_bufs W b) \<le> 16384 \<and> 0 \<le> ba_height (w_bufs W b) \<and> ba_height (w_bufs W b) \<le> 16384"
    and "list_all harmless es"
  shows "\<exists>n' l' cs'. node_run W es (n, l, cs) = Some (n', l', cs') \<and> surface_held cs' = set_option (sh_buffer n')"
proof -
  obtain s' where "node_run W es (n, l, cs) = Some s'" "node_sound c s'"
    using node_run_sound[OF node_sound_start[OF assms(1-7)] assms(10,8,9)] by blast
  then show ?thesis using node_soundD by (metis prod_cases3)
qed

lemma node_holds_one_buffer_witness:
  "\<exists>n' l' cs'. demo_run demo_first = Some (n', l', cs') \<and> sh_buffer n' = Some 0 \<and> surface_held cs' = {0}"
proof -
  obtain n' l' cs' where r: "demo_run demo_first = Some (n', l', cs')" "surface_held cs' = set_option (sh_buffer n')"
    using node_holds_one_buffer[OF demo_consumer_ok demo_fields _ _ demo_harmless(1), of demo_world] demo_outside_release demo_attr_bounds
    unfolding demo_run_def by auto
  then show ?thesis using demo_run_states by auto
qed

section \<open>Buffers lost\<close>

text \<open>
  C40. A node that is not on the tree and has a buffer and a new frame: \<open>ConsumeNodeNotOnTree\<close> stores the new
  buffer although it has given it back, and the buffer acquired before is left acquired and no longer stored.
\<close>

theorem off_tree_frame_loses_buffer:
  assumes "node_sound c (n, l, cs)" and "sh_buffer n = Some p" and "0 < sh_available n"
    and "fst (co_AcquireBuffer (surface_ops env fresh) c cs) = GSERROR_OK"
  shows "\<exists>b n' cs'. ConsumeNodeNotOnTree (surface_ops env fresh) n cs = (n', cs') \<and> sh_buffer n' = Some b \<and> b \<noteq> p \<and> surface_held cs' = {p}"
proof -
  obtain x d1 where a: "co_AcquireBuffer (surface_ops env fresh) c cs = (GSERROR_OK, x, d1)" using assms(4) by (metis prod.collapse)
  have N: "consumer_end.node_ok c surface_held surface_ok n l cs" using assms(1) by (simp add: node_sound_def)
  from surface_end.off_tree_forgets[OF N assms(2,3) a] obtain b n' d' where
    "ConsumeNodeNotOnTree (surface_ops env fresh) n cs = (n', d')" "b \<noteq> p" "sh_buffer n' = Some b" "surface_held d' = {p}" by blast
  then show ?thesis by blast
qed

lemma off_tree_frame_loses_buffer_witness:
  "\<exists>n l cs b n' cs'. demo_run (demo_first @ demo_second) = Some (n, l, cs) \<and> ConsumeNodeNotOnTree (surface_ops demo_env demo_fresh) n cs = (n', cs') \<and>
    sh_buffer n' = Some b \<and> b \<noteq> 0 \<and> surface_held cs' = {0}"
proof -
  obtain n l cs where r: "demo_run (demo_first @ demo_second) = Some (n, l, cs)" "node_sound 9 (n, l, cs)"
    using demo_run_sound[of "demo_first @ demo_second"] demo_harmless by (simp only: list_all_append) (metis prod_cases3)
  have s: "sh_buffer n = Some 0" "0 < sh_available n" "fst (co_AcquireBuffer (surface_ops demo_env demo_fresh) 9 cs) = GSERROR_OK"
    using demo_run_states2 r(1) by simp_all
  obtain b n' cs' where "ConsumeNodeNotOnTree (surface_ops demo_env demo_fresh) n cs = (n', cs')" "sh_buffer n' = Some b" "b \<noteq> 0" "surface_held cs' = {0}"
    using off_tree_frame_loses_buffer[OF r(2) s] by (elim exE conjE) (rule that; assumption)
  with r(1) show ?thesis by (intro exI conjI)
qed

section \<open>Fences\<close>

text \<open>The fence that comes with a buffer taken by \<open>ConsumeAndUpdateBuffer\<close> is not the one stored: it stores \<open>INVALID_FENCE\<close>.\<close>

lemma acquire_fence_is_dropped:
  assumes "sh_consumer n = Some c" and "sh_available n = 1" and "co_AcquireBuffer C c d = (GSERROR_OK, (Some b, f, r), d1)"
  shows "\<exists>vs n' d'. ConsumeAndUpdateBuffer C False n d = Some (True, vs, n', d') \<and> sh_buffer n' = Some b \<and> sh_fence n' = Some INVALID_FD"
  using assms
  by (auto simp: ConsumeAndUpdateBuffer_def DropFrameProcess_def Let_def sh_SetDamageRegion_def sh_SetFence_def sh_SetBuffer_def ReduceAvailableBuffer_def)

end
