(* ===== verification/Frame_Props.thy ===== *)
theory Frame_Props
  imports Hardware_Props Node_Props
begin

text \<open>From the buffer of a node to its layer: the hardware processor on a node that consumes its surface.\<close>

section \<open>A node becomes a layer\<close>

text \<open>The pointers of the description made for a node that has taken its buffer.\<close>

lemma taken_info_full:
  assumes N: "consumer_end.node_ok c surface_held surface_ok n l cs"
    and got: "ConsumeAndUpdateBuffer (surface_ops env fresh) False n cs = Some (True, vs, n1, cs1)"
  shows "sh_buffer n1 \<noteq> None \<and> sh_fence n1 \<noteq> None \<and> (sh_preBuffer n1 = sh_buffer n1 \<longrightarrow> sh_preFence n1 \<noteq> None)"
proof -
  note N' = N[unfolded surface_end.node_ok_def]
  have f: "sh_fence n1 \<noteq> None" "sh_preFence n1 = sh_fence n"
    using surface_end.consume_fence[OF got] N' by blast+
  obtain r vs' n' d' where c: "ConsumeAndUpdateBuffer (surface_ops env fresh) False n cs = Some (r, vs', n', d')"
      "if r then sh_buffer n' \<noteq> None \<and> sh_preBuffer n' = (if sh_buffer n = None then sh_preBuffer n else sh_buffer n) \<and>
         surface_held d' = set_option (sh_buffer n) \<union> set_option (sh_buffer n')
       else sh_buffer n = None \<and> sh_buffer n' = None \<and> sh_preBuffer n' = sh_preBuffer n \<and> surface_held d' = surface_held cs"
    using surface_end.consume_holds[of cs n c env fresh] N' by blast
  then have b: "sh_buffer n1 \<noteq> None" "sh_preBuffer n1 = (if sh_buffer n = None then sh_preBuffer n else sh_buffer n)"
    using got by (simp_all split: if_splits)
  then show ?thesis using f N' by (auto split: if_splits)
qed

text \<open>
  C16. The hardware processor on a node that is placed on the screen and whose surface keeps its contract: the call
  returns; either no buffer was there and no layer is made, or one layer more, of the node's surface, at its place,
  showing its buffer through a crop inside it, with every pointer the output needs.
\<close>

theorem node_becomes_layer:
  assumes N: "consumer_end.node_ok c surface_held surface_ok n l cs" and p: "hp_output p = Some a" "placed p n"
    and attr: "\<forall>b. 0 \<le> ba_width (bufs b) \<and> ba_width (bufs b) \<le> 16384 \<and> 0 \<le> ba_height (bufs b) \<and> ba_height (bufs b) \<le> 16384"
  shows "\<exists>p2 n2 cs2. hw_ProcessSurface (surface_ops env fresh) k bufs junk p n cs = Some (p2, n2, cs2) \<and>
    (p2 = p \<and> sh_buffer n = None \<or>
     (\<exists>m. p2 = p\<lparr>hp_layers := hp_layers p @ [m]\<rparr> \<and> layer_in bufs m \<and> info_full (layer_info.truncate m) \<and> li_surface m = c \<and>
        li_size m = nd_dstRect n \<and> hw_node_transform m = Some (Some (nd_transform n))))"
proof -
  note N' = N[unfolded surface_end.node_ok_def]
  obtain r vs n1 cs1 where c: "ConsumeAndUpdateBuffer (surface_ops env fresh) False n cs = Some (r, vs, n1, cs1)"
      and none: "if r then True else sh_buffer n = None"
    using surface_end.consume_holds[of cs n c env fresh] N' by (auto split: if_splits)
  show ?thesis
  proof (cases r)
    case True
    with c have got: "ConsumeAndUpdateBuffer (surface_ops env fresh) False n cs = Some (True, vs, n1, cs1)" by simp
    note full = taken_info_full[OF N got]
    then obtain bf where bf: "sh_buffer n1 = Some bf" by blast
    have con: "sh_consumer n = Some c" using N' by blast
    obtain m n2 where m: "hw_ProcessSurface (surface_ops env fresh) k bufs junk p n cs = Some (p\<lparr>hp_layers := hp_layers p @ [m]\<rparr>, n2, cs1)"
        "layer_in bufs m" "li_surface m = c" "li_size m = nd_dstRect n" "li_buffer m = Some bf" "li_acquire m = sh_fence n1"
        "li_preBuffer m = sh_preBuffer n1" "li_preAcquire m = sh_preFence n1" "hw_node_transform m = Some (Some (nd_transform n))"
      using ProcessSurface_layer[OF got bf con p, of bufs k junk] attr by blast
    have "info_full (layer_info.truncate m)" using full bf m(5-8) by (simp add: info_full_def layer_info.defs)
    then show ?thesis using m by blast
  next
    case False
    have "sh_buffer n = None" using none False by simp
    moreover have "hw_ProcessSurface (surface_ops env fresh) k bufs junk p n cs = Some (p, n1, cs1)"
      using c False by (simp add: hw_ProcessSurface_def)
    ultimately show ?thesis by blast
  qed
qed

text \<open>The node of the demonstration queue after its first frame.\<close>

definition on_screen :: "hw_node \<Rightarrow> hw_node" where "on_screen = place_node demo_node"

lemma on_screen_fields:
  "sh_consumer (on_screen n) = sh_consumer n" "sh_buffer (on_screen n) = sh_buffer n" "sh_preBuffer (on_screen n) = sh_preBuffer n"
  "sh_fence (on_screen n) = sh_fence n" "sh_available (on_screen n) = sh_available n"
  by (simp_all add: on_screen_def)

lemma on_screen_placed: "placed (demo_hw\<lparr>hp_layers := []\<rparr>) (on_screen n)"
  using placed_place_node[of "[]" demo_hw demo_node n] demo_node_placed by (simp add: on_screen_def)

lemma node_becomes_layer_witness:
  "\<exists>n l cs p2 n2 cs2. demo_run demo_first = Some (n, l, cs) \<and>
    hw_ProcessSurface (surface_ops demo_env demo_fresh) demo_consts demo_attr (some_layer 0) (demo_hw\<lparr>hp_layers := []\<rparr>) (on_screen n) cs = Some (p2, n2, cs2) \<and>
    map li_surface (hp_layers p2) = [9]"
proof -
  obtain n l cs where r: "demo_run demo_first = Some (n, l, cs)" "node_sound 9 (n, l, cs)"
    using demo_run_sound[OF demo_harmless(1)] by (metis prod_cases3)
  have b: "sh_buffer (on_screen n) = Some 0" using demo_run_states r(1) by (simp add: on_screen_fields)
  have N: "consumer_end.node_ok 9 surface_held surface_ok (on_screen n) l cs"
    using r(2) by (simp add: node_sound_def surface_end.node_ok_def on_screen_fields)
  have o1: "hp_output (demo_hw\<lparr>hp_layers := []\<rparr>) = Some 0" by (simp add: demo_hw_def)
  have at: "\<forall>b. 0 \<le> ba_width (demo_attr b) \<and> ba_width (demo_attr b) \<le> 16384 \<and> 0 \<le> ba_height (demo_attr b) \<and> ba_height (demo_attr b) \<le> 16384"
    by (simp add: demo_attr_def)
  obtain p2 n2 cs2 m where
    "hw_ProcessSurface (surface_ops demo_env demo_fresh) demo_consts demo_attr (some_layer 0) (demo_hw\<lparr>hp_layers := []\<rparr>) (on_screen n) cs = Some (p2, n2, cs2)"
    "p2 = (demo_hw\<lparr>hp_layers := []\<rparr>)\<lparr>hp_layers := hp_layers (demo_hw\<lparr>hp_layers := []\<rparr>) @ [m]\<rparr>" "li_surface m = 9"
    using node_becomes_layer[OF N o1 on_screen_placed at, of demo_env demo_fresh demo_consts "some_layer 0"] b by auto
  with r(1) show ?thesis by auto
qed

section \<open>Buffers given back too early\<close>

text \<open>
  C39. A node outside the screen that has no new buffer gives back, through \<open>ReleaseNodePrevBuffer\<close>, the very buffer
  it goes on storing: it shows a buffer later that the producer may be drawing into.
\<close>

theorem off_screen_frame_frees_shown_buffer:
  assumes "consumer_end.node_ok c surface_held surface_ok n l cs" and "sh_buffer n = Some b" and "sh_available n = 0"
    and "hp_output p = Some a" and "nd_boundsX n \<ge> fst (hw_bounds p)"
  shows "\<exists>n2 cs2. hw_ProcessSurface (surface_ops env fresh) k bufs junk p n cs = Some (p, n2, cs2) \<and> sh_buffer n2 = Some b \<and> b \<notin> surface_held cs2"
proof -
  obtain n2 cs2 where h: "hidden_frame (surface_ops env fresh) n cs = Some (n2, cs2)" "sh_buffer n2 = Some b" "surface_held cs2 = {}"
    using surface_end.hidden_frame_gives_back[OF assms(1-3)] by blast
  then obtain got vs cs1 where c: "ConsumeAndUpdateBuffer (surface_ops env fresh) False n cs = Some (got, vs, n2, cs1)"
      "cs2 = (if got then ReleaseNodePrevBuffer (surface_ops env fresh) n2 cs1 else cs1)"
    by (auto simp: hidden_frame_def)
  have "hw_ProcessSurface (surface_ops env fresh) k bufs junk p n cs = Some (p, n2, cs2)"
    using c assms(4,5) consume_keeps_place(1)[OF c(1)] by (simp add: hw_ProcessSurface_def)
  then show ?thesis using h(2,3) by simp
qed

lemma off_screen_frame_frees_shown_buffer_witness:
  "\<exists>n l cs n2 cs2. demo_run demo_first = Some (n, l, cs) \<and>
    hw_ProcessSurface (surface_ops demo_env demo_fresh) demo_consts demo_attr (some_layer 0) demo_hw ((on_screen n)\<lparr>nd_boundsX := 720\<rparr>) cs = Some (demo_hw, n2, cs2) \<and>
    sh_buffer n2 = Some 0 \<and> 0 \<notin> surface_held cs2"
proof -
  obtain n l cs where r: "demo_run demo_first = Some (n, l, cs)" "node_sound 9 (n, l, cs)"
    using demo_run_sound[OF demo_harmless(1)] by (metis prod_cases3)
  let ?n = "(on_screen n)\<lparr>nd_boundsX := 720\<rparr>"
  have b: "sh_buffer ?n = Some 0" "sh_available ?n = 0"
    using demo_run_states r(1) by (simp_all add: on_screen_fields)
  have N: "consumer_end.node_ok 9 surface_held surface_ok ?n l cs"
    using r(2) by (simp add: node_sound_def surface_end.node_ok_def on_screen_fields)
  have x: "nd_boundsX ?n \<ge> fst (hw_bounds demo_hw)" by (simp add: hw_bounds_def demo_hw_def)
  obtain n2 cs2 where
    "hw_ProcessSurface (surface_ops demo_env demo_fresh) demo_consts demo_attr (some_layer 0) demo_hw ?n cs = Some (demo_hw, n2, cs2)"
    "sh_buffer n2 = Some 0" "0 \<notin> surface_held cs2"
    using off_screen_frame_frees_shown_buffer[OF N b demo_hw_ok(1) x, of demo_env demo_fresh demo_consts demo_attr "some_layer 0"]
    by (elim exE conjE) (rule that; assumption)
  with r(1) show ?thesis by (intro exI conjI)
qed

end
