(* ===== verification/Dirty_Region.thy ===== *)
theory Dirty_Region
  imports Rs_Rect
begin

text \<open>
  \<open>RSDirtyRegionManager\<close> (\<open>rs_dirty_region_manager.cpp\<close> of \<open>rosen/modules/render_service_base\<close>): the rectangle that a
  frame has to paint again, and a ring of the rectangles of the last four frames; and
  \<open>RSRenderNode::UpdateDirtyRegion\<close>, with which a node adds the places where it was and where it is. An overflow
  of the 32 bit arithmetic is \<open>None\<close>, as in \<open>Rs_Rect\<close>.
\<close>

section \<open>The manager\<close>

definition HISTORY_QUEUE_MAX_SIZE :: nat where "HISTORY_QUEUE_MAX_SIZE = 4"

record dirty_manager =
  dm_dirtyRegion :: rect
  dm_dirtyHistory :: "rect list"
  dm_historyHead :: int
  dm_historySize :: nat
  dm_surfaceWidth :: int
  dm_surfaceHeight :: int

definition new_dirty_manager :: dirty_manager where
  "new_dirty_manager = \<lparr>dm_dirtyRegion = RectI0, dm_dirtyHistory = replicate HISTORY_QUEUE_MAX_SIZE RectI0,
     dm_historyHead = -1, dm_historySize = 0, dm_surfaceWidth = 0, dm_surfaceHeight = 0\<rparr>"

definition MergeDirtyRect :: "rect \<Rightarrow> dirty_manager \<Rightarrow> dirty_manager option" where
  "MergeDirtyRect r m =
     (if rw (dm_dirtyRegion m) \<le> 0 \<or> rh (dm_dirtyRegion m) \<le> 0 then Some (m\<lparr>dm_dirtyRegion := r\<rparr>)
      else map_option (\<lambda>j. m\<lparr>dm_dirtyRegion := j\<rparr>) (rt_JoinRect (dm_dirtyRegion m) r))"

definition IntersectDirtyRect :: "rect \<Rightarrow> dirty_manager \<Rightarrow> dirty_manager option" where
  "IntersectDirtyRect r m = map_option (\<lambda>j. m\<lparr>dm_dirtyRegion := j\<rparr>) (rt_IntersectRect (dm_dirtyRegion m) r)"

definition dm_Clear :: "dirty_manager \<Rightarrow> dirty_manager" where
  "dm_Clear m = m\<lparr>dm_dirtyRegion := rt_Clear (dm_dirtyRegion m)\<rparr>"

definition dm_IsDirty :: "dirty_manager \<Rightarrow> bool" where
  "dm_IsDirty m \<longleftrightarrow> rw (dm_dirtyRegion m) > 0 \<and> rh (dm_dirtyRegion m) > 0"

definition GetHistory :: "nat \<Rightarrow> dirty_manager \<Rightarrow> rect" where
  "GetHistory i m =
     (let i = (if i \<ge> HISTORY_QUEUE_MAX_SIZE then i mod HISTORY_QUEUE_MAX_SIZE else i);
          i = (if dm_historySize m = HISTORY_QUEUE_MAX_SIZE then (i + nat (dm_historyHead m)) mod HISTORY_QUEUE_MAX_SIZE else i)
      in dm_dirtyHistory m ! i)"

definition PushHistory :: "rect \<Rightarrow> dirty_manager \<Rightarrow> dirty_manager" where
  "PushHistory r m =
     (let nxt = (dm_historyHead m + 1) mod int HISTORY_QUEUE_MAX_SIZE
      in m\<lparr>dm_dirtyHistory := (dm_dirtyHistory m)[nat nxt := r],
           dm_historySize := (if dm_historySize m < HISTORY_QUEUE_MAX_SIZE then dm_historySize m + 1 else dm_historySize m),
           dm_historyHead := nxt\<rparr>)"

text \<open>The loop of \<open>MergeHistory\<close> runs over the given indices from the front.\<close>

fun merge_loop :: "dirty_manager \<Rightarrow> nat list \<Rightarrow> rect \<Rightarrow> rect option" where
  "merge_loop m [] r = Some r"
| "merge_loop m (i # l) r = Option.bind (rt_JoinRect r (GetHistory i m)) (merge_loop m l)"

definition MergeHistory :: "nat \<Rightarrow> rect \<Rightarrow> dirty_manager \<Rightarrow> rect option" where
  "MergeHistory age r m =
     (if age > dm_historySize m then Some (r\<lparr>rx := 0, ry := 0, rw := dm_surfaceWidth m, rh := dm_surfaceHeight m\<rparr>)
      else merge_loop m (rev [dm_historySize m - age + 1..<dm_historySize m]) r)"

definition UpdateDirty :: "dirty_manager \<Rightarrow> dirty_manager option" where
  "UpdateDirty m =
     (let m = PushHistory (dm_dirtyRegion m) m; bufferAge = HISTORY_QUEUE_MAX_SIZE in
      if bufferAge = 0 then
        Some (m\<lparr>dm_dirtyRegion := \<lparr>rx = 0, ry = 0, rw = dm_surfaceWidth m, rh = dm_surfaceHeight m\<rparr>\<rparr>)
      else if bufferAge > 1 then
        map_option (\<lambda>r. m\<lparr>dm_dirtyRegion := r\<rparr>) (MergeHistory bufferAge (dm_dirtyRegion m) m)
      else Some m)"

text \<open>
  A node that is dirty adds the rectangle it covers now and, if there is one, the rectangle it covered when it
  was painted last. The result is the node's new \<open>oldDirty_\<close>, whether it is clean now, and the manager.
\<close>

definition UpdateDirtyRegion :: "bool \<Rightarrow> rect \<Rightarrow> rect \<Rightarrow> dirty_manager \<Rightarrow> (rect \<times> bool \<times> dirty_manager) option" where
  "UpdateDirtyRegion dirty now old m =
     (if \<not> dirty then Some (old, False, m)
      else Option.bind (MergeDirtyRect now m) (\<lambda>m.
           map_option (\<lambda>m. (now, True, m)) (if \<not> rt_IsEmpty old then MergeDirtyRect old m else Some m)))"

section \<open>Joining inside a frame of reference\<close>

text \<open>\<open>within R r\<close>: the edges of \<open>r\<close> lie inside \<open>R\<close>. \<open>arena R\<close>: the edges of \<open>R\<close> are so small that nothing
  inside it overflows, and it holds the origin, where an empty rectangle lies.\<close>

definition within :: "rect \<Rightarrow> rect \<Rightarrow> bool" where
  "within R r \<longleftrightarrow> rx R \<le> rx r \<and> ry R \<le> ry r \<and> 0 \<le> rw r \<and> 0 \<le> rh r \<and> rx r + rw r \<le> rx R + rw R \<and> ry r + rh r \<le> ry R + rh R"

definition arena :: "rect \<Rightarrow> bool" where
  "arena R \<longleftrightarrow> within R RectI0 \<and> - 1073741823 \<le> rx R \<and> - 1073741823 \<le> ry R \<and> rx R + rw R \<le> 1073741823 \<and> ry R + rh R \<le> 1073741823"

lemma within_origin: "arena R \<Longrightarrow> within R RectI0"
  by (simp add: arena_def)

lemma pixels_RectI0 [simp]: "pixels RectI0 = {}"
  by (simp add: pixels_empty rt_IsEmpty_def RectI0_def)

lemma JoinRect_within:
  assumes R: "arena R" and a: "within R a" and b: "within R b"
  shows "\<exists>r. rt_JoinRect a b = Some r \<and> within R r \<and> pixels a \<union> pixels b \<subseteq> pixels r"
proof -
  let ?l = "min (rx a) (rx b)" and ?t = "min (ry a) (ry b)" and ?e = "max (rx a + rw a) (rx b + rw b)" and ?f = "max (ry a + rh a) (ry b + rh b)"
  let ?r = "if ?e - ?l \<le> 0 \<or> ?f - ?t \<le> 0 then RectI0 else \<lparr>rx = ?l, ry = ?t, rw = ?e - ?l, rh = ?f - ?t\<rparr>"
  note s = a[unfolded within_def] b[unfolded within_def] R[unfolded arena_def]
  have "i32 (rx a + rw a) = Some (rx a + rw a)" "i32 (rx b + rw b) = Some (rx b + rw b)" "i32 (?e - ?l) = Some (?e - ?l)"
      "i32 (ry a + rh a) = Some (ry a + rh a)" "i32 (ry b + rh b) = Some (ry b + rh b)" "i32 (?f - ?t) = Some (?f - ?t)"
    by (rule i32_in; use s in linarith)+
  then have "rt_JoinRect a b = Some ?r"
    by (simp add: rt_JoinRect_def rt_GetRight_def rt_GetBottom_def i32_ops Let_def)
  moreover have "within R ?r"
    using s by (auto simp: within_def)
  moreover have "pixels a \<union> pixels b \<subseteq> pixels ?r"
    using s by (auto simp: pixels_def within_def)
  ultimately show ?thesis by blast
qed

lemma MergeDirtyRect_within:
  assumes R: "arena R" and m: "within R (dm_dirtyRegion m)" and r: "within R r"
  shows "\<exists>j. MergeDirtyRect r m = Some (m\<lparr>dm_dirtyRegion := j\<rparr>) \<and> within R j \<and> pixels (dm_dirtyRegion m) \<union> pixels r \<subseteq> pixels j"
proof (cases "rw (dm_dirtyRegion m) \<le> 0 \<or> rh (dm_dirtyRegion m) \<le> 0")
  case True
  then have "pixels (dm_dirtyRegion m) = {}" by (simp add: pixels_empty rt_IsEmpty_def)
  with True r show ?thesis by (intro exI[of _ r]) (auto simp: MergeDirtyRect_def)
next
  case False
  obtain j where "rt_JoinRect (dm_dirtyRegion m) r = Some j" "within R j" "pixels (dm_dirtyRegion m) \<union> pixels r \<subseteq> pixels j"
    using JoinRect_within[OF R m r] by blast
  with False show ?thesis by (intro exI[of _ j]) (auto simp: MergeDirtyRect_def)
qed

section \<open>The ring holds the last four\<close>

definition last4 :: "'a list \<Rightarrow> 'a list" where "last4 xs = drop (length xs - 4) xs"

lemma last4_snoc: "last4 (last4 xs @ [x]) = last4 (xs @ [x])"
proof (cases "length xs \<le> 4")
  case False
  then have "length xs - 4 + (length xs - (length xs - 4) + 1 - 4) = length xs + 1 - 4" by simp
  with False show ?thesis by (simp add: last4_def)
qed (simp add: last4_def)

lemma length_last4 [simp]: "length (last4 xs) = min 4 (length xs)"
  by (simp add: last4_def min_def)

text \<open>What the ring holds, from the oldest to the newest.\<close>

definition recent :: "dirty_manager \<Rightarrow> rect list" where
  "recent m = map (\<lambda>i. dm_dirtyHistory m ! (nat ((dm_historyHead m + 1 + int i) mod 4))) [4 - dm_historySize m..<4]"

definition ring_ok :: "dirty_manager \<Rightarrow> bool" where
  "ring_ok m \<longleftrightarrow> length (dm_dirtyHistory m) = 4 \<and> dm_historySize m \<le> 4 \<and> -1 \<le> dm_historyHead m \<and> dm_historyHead m < 4 \<and>
     (dm_historySize m < 4 \<longrightarrow> dm_historyHead m = int (dm_historySize m) - 1) \<and> (dm_historySize m = 4 \<longrightarrow> 0 \<le> dm_historyHead m) \<and>
     dm_surfaceWidth m = 0 \<and> dm_surfaceHeight m = 0"

lemma ring_ok_new: "ring_ok new_dirty_manager" "recent new_dirty_manager = []"
  by (simp_all add: ring_ok_def new_dirty_manager_def recent_def HISTORY_QUEUE_MAX_SIZE_def)

lemma four_elements: "length xs = 4 \<Longrightarrow> \<exists>a b c d. xs = [a, b, c, d]"
  by (auto simp: eval_nat_numeral length_Suc_conv)

lemma ring_cases:
  assumes "ring_ok m"
  obtains "dm_historySize m = 0" "dm_historyHead m = -1" | "dm_historySize m = 1" "dm_historyHead m = 0"
    | "dm_historySize m = 2" "dm_historyHead m = 1" | "dm_historySize m = 3" "dm_historyHead m = 2"
    | "dm_historySize m = 4" "dm_historyHead m = 0" | "dm_historySize m = 4" "dm_historyHead m = 1"
    | "dm_historySize m = 4" "dm_historyHead m = 2" | "dm_historySize m = 4" "dm_historyHead m = 3"
proof -
  have n: "dm_historySize m < 4 \<Longrightarrow> dm_historyHead m = int (dm_historySize m) - 1"
    and h: "dm_historySize m = 4 \<Longrightarrow> 0 \<le> dm_historyHead m" "dm_historyHead m < 4" and le: "dm_historySize m \<le> 4"
    using assms by (auto simp: ring_ok_def)
  have "dm_historySize m = 0 \<and> dm_historyHead m = -1 \<or> dm_historySize m = 1 \<and> dm_historyHead m = 0 \<or> dm_historySize m = 2 \<and> dm_historyHead m = 1 \<or> dm_historySize m = 3 \<and> dm_historyHead m = 2 \<or> dm_historySize m = 4 \<and> dm_historyHead m = 0 \<or> dm_historySize m = 4 \<and> dm_historyHead m = 1 \<or> dm_historySize m = 4 \<and> dm_historyHead m = 2 \<or> dm_historySize m = 4 \<and> dm_historyHead m = 3"
    using n h le by presburger
  then show ?thesis by (elim disjE conjE) (rule that; assumption)+
qed

lemma upt_4: "[0..<4] = [0, 1, 2, 3::nat]" "[Suc 0..<4] = [1, 2, 3::nat]" "[2..<4] = [2, 3::nat]" "[3..<4] = [3::nat]"
  by (simp_all add: upt_rec)

lemma PushHistory_recent:
  assumes "ring_ok m"
  shows "ring_ok (PushHistory r m) \<and> recent (PushHistory r m) = last4 (recent m @ [r])"
proof -
  obtain a b c d where l: "dm_dirtyHistory m = [a, b, c, d]"
    using assms four_elements[of "dm_dirtyHistory m"] by (auto simp: ring_ok_def)
  show ?thesis
    using assms
    by (cases rule: ring_cases[OF assms])
       (simp_all add: ring_ok_def recent_def PushHistory_def HISTORY_QUEUE_MAX_SIZE_def l last4_def upt_4 Let_def)
qed

lemma GetHistory_recent:
  assumes "ring_ok m" and "dm_historySize m = 4"
  shows "GetHistory 1 m = recent m ! 0" "GetHistory 2 m = recent m ! 1" "GetHistory 3 m = recent m ! 2" "length (recent m) = 4"
proof -
  obtain a b c d where l: "dm_dirtyHistory m = [a, b, c, d]"
    using assms four_elements[of "dm_dirtyHistory m"] by (auto simp: ring_ok_def)
  show "GetHistory 1 m = recent m ! 0" "GetHistory 2 m = recent m ! 1" "GetHistory 3 m = recent m ! 2" "length (recent m) = 4"
    using assms(2)
    by (cases rule: ring_cases[OF assms(1)];
        simp add: recent_def GetHistory_def HISTORY_QUEUE_MAX_SIZE_def l upt_4 Let_def)+
qed

lemma recent_length [simp]: "dm_historySize m \<le> 4 \<Longrightarrow> length (recent m) = dm_historySize m"
  by (simp add: recent_def)

lemma recent_region [simp]: "recent (m\<lparr>dm_dirtyRegion := j\<rparr>) = recent m"
  by (simp add: recent_def)

lemma ring_ok_region [simp]: "ring_ok (m\<lparr>dm_dirtyRegion := j\<rparr>) = ring_ok m"
  by (simp add: ring_ok_def)

lemma PushHistory_region [simp]: "dm_dirtyRegion (PushHistory r m) = dm_dirtyRegion m"
  by (simp add: PushHistory_def Let_def)

section \<open>A frame\<close>

text \<open>Three joins over the ring cover all it holds.\<close>

lemma merge_loop_covers:
  assumes "arena R" and "within R r" and "\<forall>i \<in> set l. within R (GetHistory i m)"
  shows "\<exists>j. merge_loop m l r = Some j \<and> within R j \<and> pixels r \<union> (\<Union>i \<in> set l. pixels (GetHistory i m)) \<subseteq> pixels j"
  using assms(2,3)
proof (induction l arbitrary: r)
  case (Cons i l)
  obtain k where k: "rt_JoinRect r (GetHistory i m) = Some k" "within R k" "pixels r \<union> pixels (GetHistory i m) \<subseteq> pixels k"
    using JoinRect_within[OF assms(1) Cons.prems(1), of "GetHistory i m"] Cons.prems(2) by auto
  obtain j where "merge_loop m l k = Some j" "within R j" "pixels k \<union> (\<Union>i \<in> set l. pixels (GetHistory i m)) \<subseteq> pixels j"
    using Cons.IH[OF k(2)] Cons.prems(2) by auto
  with k show ?case by auto
qed simp

lemma UpdateDirty_covers:
  assumes m: "ring_ok m" and R: "arena R" and r: "within R (dm_dirtyRegion m)" and h: "\<forall>r \<in> set (recent m). within R r"
  shows "\<exists>j. UpdateDirty m = Some ((PushHistory (dm_dirtyRegion m) m)\<lparr>dm_dirtyRegion := j\<rparr>) \<and> within R j \<and>
    (if length (recent m) < 3 then j = RectI0 else (\<Union>r \<in> set (last4 (recent m @ [dm_dirtyRegion m])). pixels r) \<subseteq> pixels j)"
proof -
  let ?m = "PushHistory (dm_dirtyRegion m) m"
  have p: "ring_ok ?m" "recent ?m = last4 (recent m @ [dm_dirtyRegion m])"
    using PushHistory_recent[OF m] by auto
  have le: "dm_historySize m \<le> 4" "dm_historySize ?m \<le> 4" using m p by (auto simp: ring_ok_def)
  have w: "\<forall>r \<in> set (recent ?m). within R r"
    using h r set_drop_subset by (fastforce simp: p(2) last4_def)
  show ?thesis
  proof (cases "length (recent m) < 3")
    case True
    then have "dm_historySize ?m < 4"
      using le by (simp add: PushHistory_def Let_def HISTORY_QUEUE_MAX_SIZE_def)
    then have "MergeHistory 4 (dm_dirtyRegion m) ?m = Some RectI0"
      using p(1) by (simp add: MergeHistory_def ring_ok_def RectI0_def)
    with True within_origin[OF R] show ?thesis
      by (simp add: UpdateDirty_def Let_def HISTORY_QUEUE_MAX_SIZE_def)
  next
    case False
    then have n: "dm_historySize ?m = 4"
      using le by (auto simp: PushHistory_def Let_def HISTORY_QUEUE_MAX_SIZE_def)
    note g = GetHistory_recent[OF p(1) n]
    have i: "rev [dm_historySize ?m - 4 + 1..<dm_historySize ?m] = [3, 2, 1]" by (simp add: n upt_4)
    have "\<forall>i \<in> set [3, 2, 1]. within R (GetHistory i ?m)" using g w by auto
    from merge_loop_covers[OF R r this]
    obtain j where j: "merge_loop ?m [3, 2, 1] (dm_dirtyRegion m) = Some j" "within R j"
        "pixels (dm_dirtyRegion m) \<union> (pixels (recent ?m ! 0) \<union> pixels (recent ?m ! 1) \<union> pixels (recent ?m ! 2)) \<subseteq> pixels j"
      using g by auto
    have "recent ?m ! 3 = dm_dirtyRegion m"
    proof -
      have "last (recent ?m) = dm_dirtyRegion m" by (simp add: p(2) last4_def)
      then show ?thesis using g(4) by (metis last_conv_nth diff_Suc_1 eval_nat_numeral(2) list.size(3) numeral_3_eq_3 semiring_norm(26) semiring_norm(27) zero_neq_numeral)
    qed
    moreover have "set (recent ?m) = {recent ?m ! 0, recent ?m ! 1, recent ?m ! 2, recent ?m ! 3}"
      using four_elements[OF g(4)] by (auto simp: eval_nat_numeral)
    ultimately have "(\<Union>r \<in> set (recent ?m). pixels r) \<subseteq> pixels j" using j(3) by auto
    moreover have "UpdateDirty m = Some (?m\<lparr>dm_dirtyRegion := j\<rparr>)"
      using j(1) n i by (simp add: UpdateDirty_def MergeHistory_def Let_def HISTORY_QUEUE_MAX_SIZE_def)
    ultimately show ?thesis using False j(2) p(2) by (intro exI[of _ j]) simp
  qed
qed

text \<open>A frame clears the region, merges what its nodes report and takes the history into account.\<close>

definition dirty_frame :: "rect list \<Rightarrow> dirty_manager \<Rightarrow> dirty_manager option" where
  "dirty_frame rs m = Option.bind (ofold MergeDirtyRect rs (dm_Clear m)) UpdateDirty"

lemma merges_cover:
  assumes "arena R" and "within R (dm_dirtyRegion m)" and "\<forall>r \<in> set rs. within R r"
  shows "\<exists>j. ofold MergeDirtyRect rs m = Some (m\<lparr>dm_dirtyRegion := j\<rparr>) \<and> within R j \<and>
    pixels (dm_dirtyRegion m) \<union> (\<Union>r \<in> set rs. pixels r) \<subseteq> pixels j"
  using assms(2,3)
proof (induction rs arbitrary: m)
  case Nil
  then show ?case by (intro exI[of _ "dm_dirtyRegion m"]) simp
next
  case (Cons r rs)
  obtain k where k: "MergeDirtyRect r m = Some (m\<lparr>dm_dirtyRegion := k\<rparr>)" "within R k" "pixels (dm_dirtyRegion m) \<union> pixels r \<subseteq> pixels k"
    using MergeDirtyRect_within[OF assms(1) Cons.prems(1), of r] Cons.prems(2) by auto
  obtain j where "ofold MergeDirtyRect rs (m\<lparr>dm_dirtyRegion := k\<rparr>) = Some (m\<lparr>dm_dirtyRegion := j\<rparr>)" "within R j"
      "pixels k \<union> (\<Union>r \<in> set rs. pixels r) \<subseteq> pixels j"
    using Cons.IH[of "m\<lparr>dm_dirtyRegion := k\<rparr>"] k(2) Cons.prems(2) by auto
  with k show ?case by (intro exI[of _ j]) auto
qed

text \<open>\<open>covered R fs regs\<close>: the regions pushed for the frames \<open>fs\<close> cover what the frames reported.\<close>

definition covered :: "rect \<Rightarrow> rect list list \<Rightarrow> rect list \<Rightarrow> bool" where
  "covered R fs regs \<longleftrightarrow> list_all2 (\<lambda>f r. within R r \<and> (\<Union>x \<in> set f. pixels x) \<subseteq> pixels r) fs regs"

lemma covered_last4:
  assumes "covered R fs regs"
  shows "(\<Union>f \<in> set (last4 fs). \<Union>x \<in> set f. pixels x) \<subseteq> (\<Union>r \<in> set (last4 regs). pixels r)"
proof -
  have "list_all2 (\<lambda>f r. within R r \<and> (\<Union>x \<in> set f. pixels x) \<subseteq> pixels r) (last4 fs) (last4 regs)"
    using assms list_all2_lengthD by (fastforce simp: covered_def last4_def)
  then show ?thesis by (induction rule: list_all2_induct) auto
qed

lemma frames_cover:
  assumes R: "arena R" and fs: "\<forall>f \<in> set fs. \<forall>r \<in> set f. within R r"
  shows "\<exists>m regs. ofold dirty_frame fs new_dirty_manager = Some m \<and> ring_ok m \<and> within R (dm_dirtyRegion m) \<and>
    covered R fs regs \<and> recent m = last4 regs \<and>
    (if length fs < 4 then dm_dirtyRegion m = RectI0 else (\<Union>r \<in> set (last4 regs). pixels r) \<subseteq> pixels (dm_dirtyRegion m))"
  using fs
proof (induction fs rule: rev_induct)
  case Nil
  show ?case
    using ring_ok_new within_origin[OF R]
    by (intro exI[of _ new_dirty_manager] exI[of _ "[]"]) (simp add: covered_def last4_def new_dirty_manager_def)
next
  case (snoc f fs)
  then obtain m regs where m: "ofold dirty_frame fs new_dirty_manager = Some m" "ring_ok m" "covered R fs regs" "recent m = last4 regs"
    by auto
  let ?c = "dm_Clear m"
  have c: "dm_dirtyRegion ?c = RectI0" "ring_ok ?c" "recent ?c = last4 regs"
    using m by (simp_all add: dm_Clear_def rt_Clear_def RectI0_def)
  obtain k where k: "ofold MergeDirtyRect f ?c = Some (?c\<lparr>dm_dirtyRegion := k\<rparr>)" "within R k" "(\<Union>r \<in> set f. pixels r) \<subseteq> pixels k"
    using merges_cover[OF R, of ?c f] within_origin[OF R] c(1) snoc.prems by auto
  let ?k = "?c\<lparr>dm_dirtyRegion := k\<rparr>"
  have "\<forall>r \<in> set (last4 regs). within R r"
    using m(3) by (auto simp: covered_def last4_def list_all2_conv_all_nth in_set_conv_nth)
  then have h: "\<forall>r \<in> set (recent ?k). within R r" using c(3) by simp
  have kr: "dm_dirtyRegion ?k = k" "recent ?k = last4 regs" "ring_ok ?k" using c(2,3) by simp_all
  obtain j where j: "UpdateDirty ?k = Some ((PushHistory k ?k)\<lparr>dm_dirtyRegion := j\<rparr>)" "within R j"
      "if length (last4 regs) < 3 then j = RectI0 else (\<Union>r \<in> set (last4 (last4 regs @ [k])). pixels r) \<subseteq> pixels j"
    using UpdateDirty_covers[OF kr(3) R _ h, unfolded kr(1,2), OF k(2)] by blast
  have p: "ring_ok (PushHistory k ?k)" "recent (PushHistory k ?k) = last4 (regs @ [k])"
    using PushHistory_recent[of ?k k] c by (auto simp: last4_snoc)
  have "length regs = length fs" using m(3) by (simp add: covered_def list_all2_lengthD)
  moreover have "covered R (fs @ [f]) (regs @ [k])"
    using m(3) k by (simp add: covered_def list_all2_appendI)
  moreover have "ofold dirty_frame (fs @ [f]) new_dirty_manager = Some ((PushHistory k ?k)\<lparr>dm_dirtyRegion := j\<rparr>)"
    using m(1) k(1) j(1) by (simp add: ofold_append dirty_frame_def)
  ultimately show ?case
    using j(2) j(3)[unfolded last4_snoc] p
    by (intro exI[of _ "(PushHistory k ?k)\<lparr>dm_dirtyRegion := j\<rparr>"] exI[of _ "regs @ [k]"]) (simp split: if_splits)
qed

text \<open>C30. After any frames whose rectangles lie in an arena, the region to paint lies in the arena too; from the
  fourth frame on it covers everything the last four frames have reported, and before that it is empty.\<close>

theorem dirty_region_covers_last_frames:
  assumes "arena R" and "\<forall>f \<in> set fs. \<forall>r \<in> set f. within R r"
  shows "\<exists>m. ofold dirty_frame fs new_dirty_manager = Some m \<and> within R (dm_dirtyRegion m) \<and>
    (if length fs < 4 then dm_dirtyRegion m = RectI0
     else (\<Union>f \<in> set (last4 fs). \<Union>r \<in> set f. pixels r) \<subseteq> pixels (dm_dirtyRegion m))"
proof -
  obtain m regs where m: "ofold dirty_frame fs new_dirty_manager = Some m" "within R (dm_dirtyRegion m)" "covered R fs regs"
      "if length fs < 4 then dm_dirtyRegion m = RectI0 else (\<Union>r \<in> set (last4 regs). pixels r) \<subseteq> pixels (dm_dirtyRegion m)"
    using frames_cover[OF assms] by blast
  have "\<not> length fs < 4 \<Longrightarrow> (\<Union>f \<in> set (last4 fs). \<Union>r \<in> set f. pixels r) \<subseteq> pixels (dm_dirtyRegion m)"
    using order_trans[OF covered_last4[OF m(3)]] m(4) by simp
  with m show ?thesis by (intro exI[of _ m]) simp
qed

definition demo_arena :: rect where "demo_arena = \<lparr>rx = 0, ry = 0, rw = 100, rh = 100\<rparr>"

definition demo_frames :: "rect list list" where
  "demo_frames = [[\<lparr>rx = 90, ry = 90, rw = 10, rh = 10\<rparr>], [\<lparr>rx = 10, ry = 10, rw = 5, rh = 5\<rparr>, \<lparr>rx = 20, ry = 30, rw = 5, rh = 5\<rparr>],
     [\<lparr>rx = 40, ry = 12, rw = 1, rh = 1\<rparr>], [\<lparr>rx = 50, ry = 50, rw = 10, rh = 10\<rparr>], [\<lparr>rx = 70, ry = 15, rw = 5, rh = 5\<rparr>]]"

theorem dirty_region_covers_last_frames_witness:
  "\<exists>m. ofold dirty_frame demo_frames new_dirty_manager = Some m \<and> within demo_arena (dm_dirtyRegion m) \<and>
    (if length demo_frames < 4 then dm_dirtyRegion m = RectI0
     else (\<Union>f \<in> set (last4 demo_frames). \<Union>r \<in> set f. pixels r) \<subseteq> pixels (dm_dirtyRegion m))"
  by (rule dirty_region_covers_last_frames)
     (simp_all add: arena_def within_def demo_arena_def demo_frames_def RectI0_def)

text \<open>A node that is dirty is painted where it was and where it is; a clean one adds nothing.\<close>

lemma UpdateDirtyRegion_covers:
  assumes "arena R" and "within R (dm_dirtyRegion m)" and "within R now" and "within R old"
  shows "\<exists>j. UpdateDirtyRegion dirty now old m = Some (if dirty then now else old, dirty, m\<lparr>dm_dirtyRegion := j\<rparr>) \<and> within R j \<and>
    pixels (dm_dirtyRegion m) \<union> (if dirty then pixels now \<union> pixels old else {}) \<subseteq> pixels j"
proof (cases dirty)
  case True
  obtain k where k: "MergeDirtyRect now m = Some (m\<lparr>dm_dirtyRegion := k\<rparr>)" "within R k" "pixels (dm_dirtyRegion m) \<union> pixels now \<subseteq> pixels k"
    using MergeDirtyRect_within[OF assms(1,2,3)] by blast
  obtain j where j: "MergeDirtyRect old (m\<lparr>dm_dirtyRegion := k\<rparr>) = Some (m\<lparr>dm_dirtyRegion := j\<rparr>)" "within R j" "pixels k \<union> pixels old \<subseteq> pixels j"
    using MergeDirtyRect_within[OF assms(1) _ assms(4), of "m\<lparr>dm_dirtyRegion := k\<rparr>"] k(2) by auto
  show ?thesis
  proof (cases "rt_IsEmpty old")
    case True
    with \<open>dirty\<close> k show ?thesis by (intro exI[of _ k]) (auto simp: UpdateDirtyRegion_def pixels_empty[symmetric])
  next
    case False
    with \<open>dirty\<close> k j show ?thesis by (intro exI[of _ j]) (auto simp: UpdateDirtyRegion_def)
  qed
qed (use assms in \<open>auto simp: UpdateDirtyRegion_def intro: exI[of _ "dm_dirtyRegion m"]\<close>)

end
