(* ===== verification/Spec2Isabelle.thy ===== *)
theory Spec2Isabelle
  imports Buffer_Queue_Limits VSync_Props Producer_Props Render_Tree_Props Window_Props Screen_Props Frame_Props Dirty_Region
begin

text \<open>
  A model of the core of the graphic subsystem with the theorems that make it correct.

  The program. An application draws into buffers of a surface: a \<open>BufferQueue\<close> hands the buffers out, the
  consumer's \<open>ConsumerSurface\<close> takes the flushed ones, the producer's \<open>ProducerSurface\<close> works on the queue
  through \<open>BufferQueueProducer\<close>, mostly from another process through the proxy \<open>BufferClientProducer\<close>.
  Fences (\<open>SyncFence\<close>) say when a buffer may be touched. When to draw is told by the VSync chain:
  \<open>VSyncSampler\<close> fits a model to the hardware's time stamps, \<open>VSyncGenerator\<close> makes software events from it,
  \<open>VSyncController\<close> shifts them, \<open>VSyncDistributor\<close> serves connections. The render service keeps a tree of
  render nodes, which clients change by commands, and the screens, which the display driver plugs in and
  out. For a frame it takes the buffers of the nodes, makes layers of them and hands these to the composer, where
  the outputs show them through the driver. The window server computes where windows lie.

  Theories, in the order of the calls.
  \<^item> \<open>Prelude\<close>: ordered maps as sorted association lists (\<open>std::map\<close>) with the locale \<open>ordered_map\<close>, C
    division, folds that may fail.
  \<^item> \<open>Graphic_Error\<close>, \<open>Surface_Types\<close>, \<open>Buffer_Handle\<close>, \<open>Surface_Buffer\<close>: the error codes and their text, the
    configurations, handles and buffers (\<open>interfaces/inner_api/common\<close>, \<open>surface_type.h\<close>,
    \<open>utils/buffer_handle\<close>, \<open>surface_buffer_impl.cpp\<close>).
  \<^item> \<open>Buffer_Queue\<close>: the queue (\<open>frameworks/surface/src/buffer_queue.cpp\<close>). \<open>Buffer_Queue_Inv\<close>, \<open>_Ops\<close>,
    \<open>_Methods\<close>, \<open>_Life\<close>, \<open>_Reach\<close> prove its invariant for all methods and name the reachable queues; \<open>_Fifo\<close>
    is the refinement to a first-in-first-out list of frames (locale \<open>frame_fifo\<close>); \<open>_Props\<close> and \<open>_Limits\<close>
    hold the properties.
  \<^item> \<open>Parcel\<close>, \<open>Parcel_Codec\<close>, \<open>Extra_Data\<close>: what goes through the IPC layer (\<open>buffer_utils.cpp\<close>,
    \<open>buffer_extra_data_impl.cpp\<close>), on a parcel that is a parameter with its first-in-first-out contract.
  \<^item> \<open>Buffer_Queue_Producer\<close>, \<open>Buffer_Client_Producer\<close>, \<open>Producer_Surface\<close>, \<open>Consumer_Surface\<close>: the two sides
    of a surface; \<open>Producer_Remote\<close>, \<open>Producer_Tables\<close>, \<open>Producer_Props\<close>: remote calls are local calls, and the
    tables that avoid sending a buffer twice.
  \<^item> \<open>Sync_Fence\<close>: fences and the fence timeline (\<open>utils/sync_fence\<close>).
  \<^item> \<open>VSync_Generator\<close>, \<open>VSync_Sampler\<close>, \<open>VSync_Distributor\<close>, \<open>VSync_Props\<close>: the VSync chain
    (\<open>rosen/modules/composer/vsync\<close>).
  \<^item> \<open>Render_Tree\<close>, \<open>Render_Context\<close>: nodes, map and commands of the render service
    (\<open>rosen/modules/render_service_base\<close>); \<open>Render_Tree_Inv\<close>, \<open>_Ops\<close>, \<open>_Lists\<close>, \<open>Render_Context_Inv\<close>: the
    invariant of the tree and that the recursions return; \<open>Render_Tree_Props\<close>.
  \<^item> \<open>Hdi_Device\<close>, \<open>Screen\<close>, \<open>Screen_Manager\<close>: the driver's screens and the screen manager (\<open>hdi_device.cpp\<close>,
    \<open>hdi_screen.cpp\<close>, \<open>rs_screen.cpp\<close>, \<open>rs_screen_manager.cpp\<close>); \<open>Screen_Manager_Inv\<close>, \<open>Screen_Props\<close>.
  \<^item> \<open>Hdi_Layer\<close>, \<open>Hdi_Output\<close>, \<open>Hdi_Backend\<close>: the composer, that is a layer of the driver, the layers and the
    framebuffer of a screen, and the composition of a frame (\<open>hdi_layer.cpp\<close>, \<open>hdi_output.cpp\<close>,
    \<open>hdi_framebuffer_surface.cpp\<close>, \<open>hdi_backend.cpp\<close>); \<open>Hdi_Output_Inv\<close>: its invariant; \<open>Hdi_Repaint\<close>: composing never
    meets a null pointer; \<open>Hdi_Props\<close>.
  \<^item> \<open>Surface_Handler\<close>: the buffers a node of the tree takes from its queue (\<open>rs_surface_handler.cpp\<close>,
    \<open>rs_render_service_util.cpp\<close>, \<open>rs_render_service_listener.cpp\<close>, \<open>rs_surface_render_node.cpp\<close>), over the locale
    \<open>consumer_end\<close> of acquiring and releasing, which \<open>Node_Buffers\<close> interprets on the buffer queue; \<open>Node_Run\<close>: runs of
    the producer's calls, the tasks and the frames of both processors on one node; \<open>Node_Props\<close>.
  \<^item> \<open>Rs_Rect\<close>, \<open>Hardware_Processor\<close>: rectangles in 32 bits and the making, turning, cropping and shaping of layers
    (\<open>rs_rect.h\<close>, \<open>rs_hardware_processor.cpp\<close>); \<open>Hardware_Props\<close>, \<open>Frame_Props\<close> (from nodes to the screen).
  \<^item> \<open>Dirty_Region\<close>: the region a frame has to paint, with the ring of the last four frames
    (\<open>rs_dirty_region_manager.cpp\<close>).
  \<^item> \<open>Window_Rects\<close>, \<open>Window_Layout\<close>: rectangles and the layout of windows (\<open>frameworks/wmserver/src\<close>);
    \<open>Window_Region\<close> (regions as point sets), \<open>Window_Props\<close>.

  How code becomes definitions. A class is a record of its members, a method a function from the old to
  the new record, named after it (with a prefix where two classes share a name: \<open>bq_\<close> queue, \<open>sb_\<close> buffer,
  \<open>p_\<close> producer, \<open>c_\<close> client, \<open>vd_\<close> distributor, \<open>vs_\<close> sampler, \<open>sc_\<close> screen, \<open>sm_\<close> screen manager, \<open>hd_\<close> and
  \<open>hs_\<close> driver, \<open>hl_\<close> layer, \<open>ho_\<close> output, \<open>fb_\<close> framebuffer surface, \<open>be_\<close> backend, \<open>cs_\<close> consumer surface,
  \<open>sh_\<close> surface handler, \<open>hw_\<close> hardware processor, \<open>rt_\<close> rectangle, \<open>dm_\<close> dirty region manager). An error code is returned as in the code; what would be undefined behaviour, an exception or a
  deadlock is a fault, \<open>Inl\<close> or \<open>None\<close>. Code outside the repository is an argument: display constants and
  drivers, the kernel's fences, the IPC parcel, vendor tables, clocks, and the order in which a hash map is
  visited. What a driver promises is a hypothesis: a driver with capacity \<open>cap\<close> opens a layer as long as fewer
  than \<open>cap\<close> are open (\<open>room\<close>), and never fails to close one (\<open>layer_driver\<close>; the code ignores that failure).

  Locks. A mutex makes the section it guards one step. The queue's \<open>mutex_\<close> is not recursive: \<open>lock_guard\<close> is a fault
  when the caller holds it, \<open>DeleteBuffers\<close> takes it, and \<open>AttachBuffer\<close> calls that with the mutex held
  (\<open>attach_to_full_queue_deadlocks\<close>). Where a method gives the mutex up the model has what happens in between as an
  argument: the wait of \<open>RequestBuffer\<close>, the gap between the two sections of \<open>FlushBuffer\<close> and \<open>ReleaseBuffer\<close>. The
  reachable queues are those of non-shared queues under any calls, with any calls in these gaps that leave the
  buffer's own state alone, and with buffers attached that are not in the cache; what the gaps can do to the buffer itself is shown by
  \<open>flush_of_lost_buffer_crashes\<close> and \<open>concurrent_release_duplicates\<close>. \<open>SetVirtualScreenSurface\<close> of the screen manager takes no
  lock at all: \<open>unlocked_surface_is_shared\<close>. The reachable managers do not remove a physical screen through
  \<open>RemoveVirtualScreen\<close>, which the code does not refuse: \<open>removed_physical_id_is_reused\<close>.

  Objects shared by
  pointers are numbers into a heap: the buffers of a queue, the nodes of the tree, whose end of life is a
  step of its own.

  Integers have the code's width where it matters (queue sizes, alignments, ids); time stamps in
  nanoseconds are \<open>int\<close>, and so are the coordinates of the window server's rectangles, which never leave the
  box of the operands. The rectangles of the render service are checked: an operation that leaves 32 bits is
  \<open>None\<close>.
  Doubles of layouts are rationals (the code adds \<open>1e-6\<close> before each \<open>floor\<close>), the floating point fit of the
  sampler is an argument, a z position is a rational.

  No fuel is used. Recursions whose end is a question are partial functions, where \<open>None\<close> is a call that never
  returns (the walks over the render tree, the layout calculation), and the theorems \<open>tree_operations_return\<close>
  and \<open>layout_calculation_returns\<close> say that they return.

  Main results. The queue: consistency of cache and lists in every reachable state, exclusive ownership of
  buffers, first in first out, bounds; the producer: remote equals local; VSync: the grid of events, whom a
  signal serves; the tree: parents and children agree, nothing is above itself, operations return; the screen
  manager: ids and surfaces do not collide, the outcome of hot-plug events; the composer: after any run of
  frames the output shows exactly the surfaces of the last one, and composing is safe; nodes: a node that is on
  the screen whenever a frame composes it holds exactly one buffer of its queue (off the screen or the tree it does not:
  \<open>off_screen_frame_frees_shown_buffer\<close>, \<open>off_tree_frame_loses_buffer\<close>), becomes one complete layer, and turning a layer turns its pixels; the dirty region
  covers the last four frames; windows: the algebra of
  rectangles and the default layout. Properties of kind error show where the code goes wrong, on
  concrete inputs.

  Not modelled: logging, tracing and dumps; threads as such (their locked sections are modelled); the IPC
  service classes; closing of descriptors by \<open>UniqueFd\<close>; EGL data; property and animation commands, drawing
  commands and painting (\<open>RSHardwareProcessor::Redraw\<close> too, which paints what the driver does not compose), the
  mirror source of a display; the main loop and the visitors of the tree; the rest of the window manager, which works in
  callbacks of weston; the WebGL and other script bindings, Skia, OpenGL and EGL wrappers, samples and tests.
  Most of these are thin calls into libraries outside the repository.
\<close>

end
